(* ===== verification/Gress_Prelude.thy ===== *)
theory Gress_Prelude
  imports Main "HOL-Library.Word"
begin

text \<open>
  Shared vocabulary of the development: Go's \<open>time.Time\<close> and \<open>time.Duration\<close>, the machine
  integers of the counters, Go maps together with the order in which a \<open>range\<close> loop visits
  them, buffered channels with a non-blocking send, decimal printing (\<open>%d\<close>), and a locale for
  invariants of step relations.

  A \<open>time.Time\<close> is an instant, an integer count of nanoseconds since Go's zero time (January 1,
  year 1, 00:00:00 UTC), so that \<open>Time.IsZero\<close> is equality with 0 and \<open>Time.Truncate\<close>, which
  rounds down to a multiple of the duration since the zero time, is integer arithmetic. A
  \<open>time.Duration\<close> is an \<open>int64\<close> count of nanoseconds, kept as an integer; \<open>Time.Sub\<close>
  saturates at the bounds of that range and unary minus wraps at its minimum, as in Go.
\<close>

named_theorems gotime \<comment> \<open>definitions of the operations on time values\<close>

type_synonym gtime = int
type_synonym duration = int
type_synonym i64 = "64 word"
type_synonym u32 = "32 word"
type_synonym u64 = "64 word"

section \<open>Time and durations\<close>

definition millisecond :: duration where [gotime]: "millisecond = 1000000"
definition second :: duration where [gotime]: "second = 1000000000"
definition minute :: duration where [gotime]: "minute = 60 * 1000000000"

definition min_duration :: duration where "min_duration = - (2 ^ 63)"
definition max_duration :: duration where "max_duration = 2 ^ 63 - 1"

definition zero_time :: gtime where [gotime]: "zero_time = 0"

definition time_IsZero :: "gtime \<Rightarrow> bool" where [gotime]: "time_IsZero t \<longleftrightarrow> t = 0"
definition time_Add :: "gtime \<Rightarrow> duration \<Rightarrow> gtime" where [gotime]: "time_Add t d = t + d"
definition time_After :: "gtime \<Rightarrow> gtime \<Rightarrow> bool" where [gotime]: "time_After t u \<longleftrightarrow> u < t"
definition time_Before :: "gtime \<Rightarrow> gtime \<Rightarrow> bool" where [gotime]: "time_Before t u \<longleftrightarrow> t < u"
definition time_Equal :: "gtime \<Rightarrow> gtime \<Rightarrow> bool" where [gotime]: "time_Equal t u \<longleftrightarrow> t = u"

text \<open>\<open>Time.Sub\<close> returns the saturated difference.\<close>

definition time_Sub :: "gtime \<Rightarrow> gtime \<Rightarrow> duration" where
  "time_Sub t u = max min_duration (min max_duration (t - u))"

text \<open>\<open>Time.Truncate\<close> strips nothing for a non-positive duration.\<close>

definition time_Truncate :: "gtime \<Rightarrow> duration \<Rightarrow> gtime" where
  "time_Truncate t d = (if d \<le> 0 then t else t - t mod d)"

text \<open>Unary minus on an \<open>int64\<close> leaves the least value where it is.\<close>

definition dur_neg :: "duration \<Rightarrow> duration" where
  "dur_neg d = (if d = min_duration then min_duration else - d)"

text \<open>Addition on an \<open>int64\<close> wraps around.\<close>

definition wrap64 :: "int \<Rightarrow> int" where
  "wrap64 x = (x + 2 ^ 63) mod 2 ^ 64 - 2 ^ 63"

lemma wrap64_add [simp]: "wrap64 (wrap64 x + y) = wrap64 (x + y)"
proof -
  have "(x + 2 ^ 63) mod 2 ^ 64 - 2 ^ 63 + y + 2 ^ 63 = (x + 2 ^ 63) mod 2 ^ 64 + (y :: int)" by simp
  then show ?thesis
    unfolding wrap64_def by (simp only: mod_add_left_eq) (simp add: algebra_simps)
qed

lemma wrap64_id: "min_duration \<le> x \<Longrightarrow> x \<le> max_duration \<Longrightarrow> wrap64 x = x"
  by (simp add: wrap64_def min_duration_def max_duration_def)

text \<open>\<open>Time.Unix\<close>: whole seconds since January 1, 1970; the constant is the number of seconds
  from Go's zero time to that date.\<close>

definition unix_epoch_seconds :: int where "unix_epoch_seconds = 62135596800"

definition time_Unix :: "gtime \<Rightarrow> int" where
  "time_Unix t = t div second - unix_epoch_seconds"

lemma time_Sub_greater:
  assumes "min_duration \<le> d" "d < max_duration"
  shows "d < time_Sub t u \<longleftrightarrow> d < t - u"
  using assms by (auto simp: time_Sub_def min_def max_def)

lemma time_Sub_exact:
  assumes "min_duration \<le> t - u" "t - u \<le> max_duration"
  shows "time_Sub t u = t - u"
  using assms by (auto simp: time_Sub_def)

lemma time_Truncate_le: "time_Truncate t d \<le> t"
  by (auto simp: time_Truncate_def)

lemma time_Truncate_div: "0 < d \<Longrightarrow> time_Truncate t d = d * (t div d)"
  by (simp add: time_Truncate_def minus_mod_eq_mult_div)

lemma time_Truncate_gt: "0 < d \<Longrightarrow> t < time_Truncate t d + d"
  by (simp add: time_Truncate_def)

text \<open>The greatest instant not after \<open>t\<close> that is \<open>off\<close> plus a multiple of \<open>d\<close>, and the way
  the code computes it.\<close>

definition aligned_start :: "duration \<Rightarrow> duration \<Rightarrow> gtime \<Rightarrow> gtime" where
  "aligned_start d off t = off + d * ((t - off) div d)"

lemma aligned_start_le: "0 < d \<Longrightarrow> aligned_start d off t \<le> t"
  using mult_div_mod_eq [of d "t - off"] pos_mod_sign [of d "t - off"]
  unfolding aligned_start_def by linarith

lemma aligned_start_gt: "0 < d \<Longrightarrow> t < aligned_start d off t + d"
  using mult_div_mod_eq [of d "t - off"] pos_mod_bound [of d "t - off"]
  unfolding aligned_start_def by linarith

lemma dur_neg_pos [simp]: "0 < d \<Longrightarrow> dur_neg d = - d"
  by (auto simp: dur_neg_def min_duration_def)

lemma aligned_start_code:
  assumes "0 < d" "0 \<le> off" "off < d"
  shows "(let s0 = time_Add (time_Truncate t d) off
          in if time_After s0 t then time_Add s0 (dur_neg d) else s0) = aligned_start d off t"
proof -
  have t: "t = d * (t div d) + t mod d" by simp
  have b: "0 \<le> t mod d" "t mod d < d" using assms(1) by simp_all
  have "(t - off) div d = (if off \<le> t mod d then t div d else t div d - 1)"
  proof (cases "off \<le> t mod d")
    case True
    have "(t - off) div d = t div d"
      by (rule int_div_pos_eq [where r = "t mod d - off"]; use t b assms True in linarith)
    with True show ?thesis by simp
  next
    case False
    have "t - off = d * (t div d - 1) + (t mod d - off + d)"
      using t unfolding right_diff_distrib by linarith
    then have "(t - off) div d = t div d - 1"
      by (rule int_div_pos_eq; use b assms False in linarith)
    with False show ?thesis by simp
  qed
  moreover have "t < d * (t div d) + off \<longleftrightarrow> \<not> off \<le> t mod d" using t by linarith
  ultimately show ?thesis
    using assms(1) by (simp add: aligned_start_def Let_def gotime time_Truncate_div right_diff_distrib)
qed

lemma less_ceil_div: "0 < d \<Longrightarrow> i < (x + d - 1) div d \<longleftrightarrow> i * d < (x :: int)"
proof -
  assume d: "0 < d"
  have "(x + d - 1 + d * (- (i + 1))) div d = (x + d - 1) div d + (- (i + 1))"
    using d by (subst div_mult_self2) simp_all
  then have "i < (x + d - 1) div d \<longleftrightarrow> 0 \<le> (x + d - 1 + d * (- (i + 1))) div d" by auto
  also have "\<dots> \<longleftrightarrow> 0 \<le> x + d - 1 + d * (- (i + 1))" using d by (rule pos_imp_zdiv_nonneg_iff)
  also have "\<dots> \<longleftrightarrow> i * d < x" by (auto simp: algebra_simps)
  finally show ?thesis .
qed

lemma second_pos [simp]: "0 < second" "second \<noteq> 0"
  by (simp_all add: second_def)

lemma unat_of_nat_u32: "n < 2 ^ 32 \<Longrightarrow> unat (of_nat n :: u32) = n"
  by (simp add: unat_of_nat)

section \<open>Go maps and the order of range loops\<close>

text \<open>
  A Go map is a partial function. A \<open>range\<close> loop visits its keys in an unspecified order, so
  an operation that ranges over a map takes the order \<open>ks\<close> as an argument; \<open>range_order ks m\<close>
  says that \<open>ks\<close> is one of the possible orders.
\<close>

definition range_order :: "'k list \<Rightarrow> ('k \<rightharpoonup> 'v) \<Rightarrow> bool" where
  "range_order ks m \<longleftrightarrow> distinct ks \<and> set ks = dom m"

lemma range_order_distinct [dest]: "range_order ks m \<Longrightarrow> distinct ks"
  by (simp add: range_order_def)

lemma range_order_mem: "range_order ks m \<Longrightarrow> k \<in> set ks \<longleftrightarrow> (\<exists>v. m k = Some v)"
  by (auto simp: range_order_def)

lemma range_order_Nil [simp]: "range_order [] m \<longleftrightarrow> m = Map.empty"
  by (auto simp: range_order_def)

lemma range_order_finite: "range_order ks m \<Longrightarrow> finite (dom m)"
  by (metis range_order_def List.finite_set)

definition len_map :: "('k \<rightharpoonup> 'v) \<Rightarrow> nat" where
  "len_map m = card (dom m)"

lemma range_order_length: "range_order ks m \<Longrightarrow> length ks = len_map m"
  by (metis range_order_def distinct_card len_map_def)

definition get_or :: "('k \<rightharpoonup> 'v) \<Rightarrow> 'k \<Rightarrow> 'v \<Rightarrow> 'v" where
  "get_or m k z = (case m k of None \<Rightarrow> z | Some v \<Rightarrow> v)"

lemma get_or_Some [simp]: "m k = Some v \<Longrightarrow> get_or m k z = v"
  by (simp add: get_or_def)

lemma get_or_None [simp]: "m k = None \<Longrightarrow> get_or m k z = z"
  by (simp add: get_or_def)

lemma get_or_upd [simp]: "get_or (m(k \<mapsto> v)) j z = (if j = k then v else get_or m j z)"
  by (simp add: get_or_def)

section \<open>Buffered channels\<close>

text \<open>
  A send in a \<open>select\<close> with a \<open>default\<close> branch succeeds when the buffer has room and is skipped
  otherwise. A sender's run is modelled without a concurrent receiver.
\<close>

definition try_send :: "nat \<Rightarrow> 'a list \<Rightarrow> 'a \<Rightarrow> 'a list" where
  "try_send capacity ch x = (if length ch < capacity then ch @ [x] else ch)"

lemma try_send_length: "length ch \<le> capacity \<Longrightarrow> length (try_send capacity ch x) \<le> capacity"
  by (simp add: try_send_def)

lemma try_send_cases: "try_send capacity ch x = ch @ [x] \<or> try_send capacity ch x = ch"
  by (simp add: try_send_def)

section \<open>Decimal printing\<close>

definition digit_char :: "nat \<Rightarrow> char" where
  "digit_char d = char_of (48 + d)"

fun show_nat :: "nat \<Rightarrow> string" where
  "show_nat n = (if n < 10 then [digit_char n] else show_nat (n div 10) @ [digit_char (n mod 10)])"

declare show_nat.simps [simp del]

definition show_int :: "int \<Rightarrow> string" where
  "show_int i = (if i < 0 then CHR ''-'' # show_nat (nat (- i)) else show_nat (nat i))"

lemma digit_char_eq: "a < 10 \<Longrightarrow> b < 10 \<Longrightarrow> digit_char a = digit_char b \<longleftrightarrow> a = b"
  by (auto simp: digit_char_def char_of_eq_iff take_bit_nat_eq_self)

lemma digit_char_not_minus: "d < 10 \<Longrightarrow> digit_char d \<noteq> CHR ''-''"
proof
  assume d: "d < 10" and eq: "digit_char d = CHR ''-''"
  from eq have "of_char (char_of (48 + d) :: char) = (of_char (CHR ''-'') :: nat)"
    by (simp add: digit_char_def)
  with d show False by simp
qed

lemma show_nat_not_Nil [simp]: "show_nat n \<noteq> []"
  by (subst show_nat.simps) simp

lemma show_nat_no_minus: "CHR ''-'' \<notin> set (show_nat n)"
proof (induction n rule: show_nat.induct)
  case (1 n)
  show ?case
  proof (cases "n < 10")
    case True
    then show ?thesis
      by (subst show_nat.simps) (auto dest: digit_char_not_minus)
  next
    case False
    moreover have "digit_char (n mod 10) \<noteq> CHR ''-''"
      by (rule digit_char_not_minus) simp
    ultimately show ?thesis
      using "1" by (subst show_nat.simps) auto
  qed
qed

lemma show_nat_inj: "show_nat m = show_nat n \<Longrightarrow> m = n"
proof (induction m arbitrary: n rule: show_nat.induct)
  case (1 m)
  have small: "show_nat k = [digit_char k]" if "k < 10" for k
    using that by (subst show_nat.simps) simp
  have large: "show_nat k = show_nat (k div 10) @ [digit_char (k mod 10)]" if "\<not> k < 10" for k
    using that by (subst show_nat.simps) simp
  show ?case
  proof (cases "m < 10"; cases "n < 10")
    assume "m < 10" "n < 10"
    with "1.prems" show ?thesis by (simp add: small digit_char_eq)
  next
    assume "m < 10" "\<not> n < 10"
    with "1.prems" have "[] @ [digit_char m] = show_nat (n div 10) @ [digit_char (n mod 10)]"
      by (simp add: small large)
    then show ?thesis by (simp only: append1_eq_conv) (metis show_nat_not_Nil)
  next
    assume "\<not> m < 10" "n < 10"
    with "1.prems" show ?thesis by (simp add: small large)
  next
    assume mn: "\<not> m < 10" "\<not> n < 10"
    with "1.prems" have "show_nat (m div 10) = show_nat (n div 10)"
      and "digit_char (m mod 10) = digit_char (n mod 10)"
      by (simp_all add: large)
    with "1.IH" [OF mn(1)] have "m div 10 = n div 10" "m mod 10 = n mod 10"
      by (simp_all add: digit_char_eq)
    then show ?thesis by (metis mult_div_mod_eq)
  qed
qed

lemma show_int_inj: "show_int i = show_int j \<Longrightarrow> i = j"
proof -
  assume eq: "show_int i = show_int j"
  have hd: "show_nat n \<noteq> CHR ''-'' # s" for n s
    using show_nat_no_minus [of n] by (metis list.set_intros(1))
  show "i = j"
    using eq hd [of "nat i" "show_nat (nat (- j))"] hd [of "nat j" "show_nat (nat (- i))", symmetric]
    by (auto simp: show_int_def split: if_splits dest: show_nat_inj)
qed

lemma show_int_nonneg: "0 \<le> i \<Longrightarrow> CHR ''-'' \<notin> set (show_int i)"
  by (simp add: show_int_def show_nat_no_minus)

text \<open>Splitting a string at its last minus sign is unambiguous.\<close>

lemma last_minus_split:
  assumes "CHR ''-'' \<notin> set b" "CHR ''-'' \<notin> set d" "a @ CHR ''-'' # b = c @ CHR ''-'' # d"
  shows "a = c \<and> b = d"
  using assms by (auto simp: append_eq_append_conv2 append_eq_Cons_conv Cons_eq_append_conv)

lemma map_sum_Inr: "map_sum f g x = Inr y \<longleftrightarrow> (\<exists>z. x = Inr z \<and> y = g z)"
  by (cases x) auto

section \<open>Invariants of step relations\<close>

text \<open>
  A component that several goroutines drive is a step relation; its reachable states are those
  that finitely many steps lead to from an initial state. \<open>stepping\<close> is the interface the
  components' invariants are proved against: an invariant that holds initially and that every
  step keeps, which therefore holds in every reachable state.
\<close>

inductive reach :: "('s \<Rightarrow> bool) \<Rightarrow> ('s \<Rightarrow> 's \<Rightarrow> bool) \<Rightarrow> 's \<Rightarrow> bool" for init step where
  start: "init s \<Longrightarrow> reach init step s"
| next_step: "reach init step s \<Longrightarrow> step s t \<Longrightarrow> reach init step t"

inductive steps :: "('s \<Rightarrow> 's \<Rightarrow> bool) \<Rightarrow> 's \<Rightarrow> 's \<Rightarrow> bool" for step where
  none: "steps step s s"
| more: "steps step s t \<Longrightarrow> step t u \<Longrightarrow> steps step s u"

locale stepping =
  fixes init :: "'s \<Rightarrow> bool"
    and step :: "'s \<Rightarrow> 's \<Rightarrow> bool"
    and inv :: "'s \<Rightarrow> bool"
  assumes inv_init: "init s \<Longrightarrow> inv s"
    and inv_step: "inv s \<Longrightarrow> step s t \<Longrightarrow> inv t"
begin

lemma inv_reach: "reach init step s \<Longrightarrow> inv s"
  by (induction rule: reach.induct) (auto intro: inv_init inv_step)

lemma inv_steps: "steps step s t \<Longrightarrow> inv s \<Longrightarrow> inv t"
  by (induction rule: steps.induct) (auto intro: inv_step)

text \<open>A preorder that every step from an invariant state respects is respected by whole runs.\<close>

lemma steps_mono:
  assumes run: "steps step s t" and "inv s"
    and le: "\<And>a b. inv a \<Longrightarrow> step a b \<Longrightarrow> le a b"
    and refl: "\<And>a. le a a" and trans: "\<And>a b c. le a b \<Longrightarrow> le b c \<Longrightarrow> le a c"
  shows "le s t"
  using run \<open>inv s\<close>
proof (induction rule: steps.induct)
  case (none s)
  show ?case by (rule refl)
next
  case (more s t u)
  then show ?case by (blast intro: trans le inv_steps)
qed

end

end
