(* ===== verification/Stream_Types.thy ===== *)
theory Stream_Types
  imports Gress_Prelude
begin

text \<open>
  The data types of \<open>pkg/stream/types.go\<close>: events, watermarks, windows, checkpoints and the
  legacy metrics. \<open>Event.Key\<close> is declared \<open>interface{}\<close> in the source but every operator,
  window and join of the repository uses it as a string, which is how it is modelled. The payload
  \<open>Value\<close> is a type parameter. Pointers to events are modelled by the events themselves.
\<close>

record 'v event =
  Key :: string
  Value :: 'v
  EventTime :: gtime
  Headers :: "string \<rightharpoonup> string"
  Offset :: int
  Partition :: int

record watermark =
  wm_Timestamp :: gtime
  wm_Partition :: int

datatype WindowType = TumblingWindow | SlidingWindow | SessionWindow

record window =
  Start :: gtime
  End :: gtime
  WType :: WindowType

text \<open>An event whose \<open>Offset\<close> and \<open>Partition\<close> are left at their zero values.\<close>

definition mk_event :: "string \<Rightarrow> 'v \<Rightarrow> gtime \<Rightarrow> (string \<rightharpoonup> string) \<Rightarrow> 'v event" where
  "mk_event k v t h = \<lparr>Key = k, Value = v, EventTime = t, Headers = h, Offset = 0, Partition = 0\<rparr>"

lemma mk_event_sel [simp]:
  "Key (mk_event k v t h) = k" "Value (mk_event k v t h) = v"
  "EventTime (mk_event k v t h) = t" "Headers (mk_event k v t h) = h"
  by (simp_all add: mk_event_def)

definition in_window :: "window \<Rightarrow> gtime \<Rightarrow> bool" where
  "in_window w t \<longleftrightarrow> Start w \<le> t \<and> t < End w"

end
