(* ===== verification/Watermarks.thy ===== *)
theory Watermarks
  imports Stream_Types
begin

text \<open>
  The watermark manager of \<open>pkg/watermark/manager.go\<close>: per-partitionition watermarks that trail the
  greatest event time by five seconds, the periodic generation round that advances idle partitions
  and the global watermark, and the handlers for late events. \<open>time.Now()\<close> is the argument
  \<open>now\<close> and the order of the \<open>range\<close> over the partitions is the argument \<open>ks\<close>; loggers and
  locks have no counterpart.
\<close>

section \<open>State and operations\<close>

record wm_manager =
  partitionMarks :: "int \<rightharpoonup> gtime"
  globalWatermark :: gtime
  idleTimeout :: duration
  lastEventTime :: "int \<rightharpoonup> gtime"
  wm_interval :: duration

definition NewManager :: "duration \<Rightarrow> wm_manager" where
  "NewManager interval =
     \<lparr>partitionMarks = Map.empty, globalWatermark = zero_time, idleTimeout = 30 * second,
      lastEventTime = Map.empty, wm_interval = interval\<rparr>"

definition UpdateEventTime :: "wm_manager \<Rightarrow> int \<Rightarrow> gtime \<Rightarrow> wm_manager" where
  "UpdateEventTime m part eventTime =
     (let m1 = m\<lparr>lastEventTime := (lastEventTime m)(part \<mapsto> eventTime)\<rparr>;
          watermarkTime = time_Add eventTime (-5 * second);
          m2 = m1\<lparr>partitionMarks := (partitionMarks m1)(part \<mapsto> watermarkTime)\<rparr>
      in case partitionMarks m1 part of
           None \<Rightarrow> m2
         | Some current \<Rightarrow> if time_After watermarkTime current then m2 else m1)"

definition GetGlobalWatermark :: "wm_manager \<Rightarrow> gtime" where
  "GetGlobalWatermark m = globalWatermark m"

definition GetPartitionWatermark :: "wm_manager \<Rightarrow> int \<Rightarrow> gtime" where
  "GetPartitionWatermark m part =
     (case partitionMarks m part of Some wm \<Rightarrow> wm | None \<Rightarrow> zero_time)"

text \<open>One iteration of the loop of \<open>generateWatermarks\<close>; its state is the manager, the local
  variables \<open>minWatermark\<close> and \<open>hasActivePartitions\<close>, and the output channel.\<close>

definition generate_one ::
    "gtime \<Rightarrow> nat \<Rightarrow> int \<Rightarrow> wm_manager \<times> gtime \<times> bool \<times> watermark list
      \<Rightarrow> wm_manager \<times> gtime \<times> bool \<times> watermark list" where
  "generate_one now capacity part = (\<lambda>(m, minWatermark, hasActive, output).
     (let lastEvent = get_or (lastEventTime m) part zero_time;
          idle = (time_Sub now lastEvent > idleTimeout m);
          wm = (if idle then time_Add now (dur_neg (idleTimeout m))
                else get_or (partitionMarks m) part zero_time);
          m' = (if idle then m\<lparr>partitionMarks := (partitionMarks m)(part \<mapsto> wm)\<rparr> else m);
          minWatermark' = (if time_IsZero minWatermark \<or> time_Before wm minWatermark
                           then wm else minWatermark)
      in (m', minWatermark', True,
          try_send capacity output \<lparr>wm_Timestamp = wm, wm_Partition = part\<rparr>)))"

definition generateWatermarks ::
    "gtime \<Rightarrow> nat \<Rightarrow> int list \<Rightarrow> wm_manager \<Rightarrow> watermark list \<Rightarrow> wm_manager \<times> watermark list" where
  "generateWatermarks now capacity ks m output =
     (let (m', minWatermark, hasActive, output') =
            fold (generate_one now capacity) ks (m, zero_time, False, output)
      in (if hasActive \<and> (time_IsZero (globalWatermark m') \<or>
                          time_After minWatermark (globalWatermark m'))
          then m'\<lparr>globalWatermark := minWatermark\<rparr> else m', output'))"

definition IsLate :: "wm_manager \<Rightarrow> gtime \<Rightarrow> int \<Rightarrow> bool" where
  "IsLate m eventTime part =
     (case partitionMarks m part of Some wm \<Rightarrow> time_Before eventTime wm | None \<Rightarrow> False)"

text \<open>The two handlers for late events: one drops the event, the other offers it to a channel and
  drops it when the channel is full. Neither reports an error.\<close>

datatype LatenessHandler = DropLateEvents | SideOutputLateEvents nat

fun HandleLateEvent :: "LatenessHandler \<Rightarrow> 'v event list \<Rightarrow> 'v event \<Rightarrow> 'v event list" where
  "HandleLateEvent DropLateEvents output event = output"
| "HandleLateEvent (SideOutputLateEvents capacity) output event = try_send capacity output event"

section \<open>Partition watermarks follow the greatest event time\<close>

lemma UpdateEventTime_frame [simp]:
  "globalWatermark (UpdateEventTime m p t) = globalWatermark m"
  "idleTimeout (UpdateEventTime m p t) = idleTimeout m"
  "lastEventTime (UpdateEventTime m p t) = (lastEventTime m)(p \<mapsto> t)"
  by (simp_all add: UpdateEventTime_def Let_def split: option.split)

lemma UpdateEventTime_marks:
  "partitionMarks (UpdateEventTime m p t) =
     (partitionMarks m)(p \<mapsto> (case partitionMarks m p of None \<Rightarrow> t - 5 * second
                               | Some w \<Rightarrow> max w (t - 5 * second)))"
  by (auto simp: UpdateEventTime_def Let_def gotime fun_eq_iff split: option.split)

lemma updates_other:
  "p \<noteq> q \<Longrightarrow> partitionMarks (fold (\<lambda>t m. UpdateEventTime m p t) ts m) q = partitionMarks m q"
  by (induction ts arbitrary: m) (auto simp: UpdateEventTime_marks)

lemma updates_Some:
  "partitionMarks m p = Some w \<Longrightarrow>
   partitionMarks (fold (\<lambda>t m. UpdateEventTime m p t) ts m) p
     = Some (foldl max w (map (\<lambda>t. t - 5 * second) ts))"
  by (induction ts arbitrary: m w) (auto simp: UpdateEventTime_marks)

lemma foldl_max_Max: "foldl max (a :: 'a :: linorder) xs = Max (insert a (set xs))"
proof (induction xs arbitrary: a)
  case (Cons x xs)
  then show ?case by (cases "xs = []") (simp_all add: Max.insert max.assoc)
qed simp

lemma Max_minus: "finite A \<Longrightarrow> A \<noteq> {} \<Longrightarrow> Max ((\<lambda>t. t - c) ` A) = Max A - (c :: int)"
  by (rule Max_eqI) auto

lemma updates_None:
  assumes "partitionMarks m p = None" "ts \<noteq> []"
  shows "partitionMarks (fold (\<lambda>t m. UpdateEventTime m p t) ts m) p = Some (Max (set ts) - 5 * second)"
proof -
  obtain t rest where ts: "ts = t # rest" using assms(2) by (cases ts) auto
  have "partitionMarks (UpdateEventTime m p t) p = Some (t - 5 * second)"
    using assms(1) by (simp add: UpdateEventTime_marks)
  from updates_Some [OF this, of rest] show ?thesis
    using Max_minus [of "set ts" "5 * second"] by (simp add: ts foldl_max_Max)
qed

text \<open>After any non-empty sequence of \<open>UpdateEventTime\<close> calls for a fresh partition, in
  whatever order the event times came, the partition's watermark is the greatest event time less
  the five seconds of tolerance, the other partitions are untouched, and an event is reported late
  exactly when it trails that greatest event time by more than the tolerance.\<close>

theorem watermark_trails_max:
  assumes "partitionMarks m p = None" "ts \<noteq> []"
  shows "let m' = fold (\<lambda>t m. UpdateEventTime m p t) ts m in
           GetPartitionWatermark m' p = Max (set ts) - 5 * second \<and>
           (\<forall>t. IsLate m' t p \<longleftrightarrow> t + 5 * second < Max (set ts)) \<and>
           (\<forall>q t. q \<noteq> p \<longrightarrow> IsLate m' t q = IsLate m t q)"
  using updates_None [OF assms] updates_other [of p]
  by (auto simp: Let_def GetPartitionWatermark_def IsLate_def gotime)

theorem watermark_trails_max_witness:
  "GetPartitionWatermark (fold (\<lambda>t m. UpdateEventTime m 3 t) [7 * second, 20 * second, 9 * second]
     (NewManager second)) 3 = 15 * second"
  using watermark_trails_max [of "NewManager second" 3 "[7 * second, 20 * second, 9 * second]"]
  by (simp add: NewManager_def Let_def second_def)

section \<open>A generation round\<close>

text \<open>The mark a round leaves for a partition.\<close>

definition round_mark :: "gtime \<Rightarrow> wm_manager \<Rightarrow> int \<Rightarrow> gtime" where
  "round_mark now m p =
     (if time_Sub now (get_or (lastEventTime m) p zero_time) > idleTimeout m
      then now + dur_neg (idleTimeout m) else get_or (partitionMarks m) p zero_time)"

definition min_or_set :: "gtime \<Rightarrow> gtime \<Rightarrow> gtime" where
  "min_or_set a w = (if time_IsZero a \<or> time_Before w a then w else a)"

lemma generate_fold:
  assumes "distinct ks" "set ks \<subseteq> dom (partitionMarks m)"
  shows "fold (generate_one now capacity) ks (m, mw, act, out) =
     (m\<lparr>partitionMarks := (\<lambda>p. if p \<in> set ks then Some (round_mark now m p) else partitionMarks m p)\<rparr>,
      foldl min_or_set mw (map (round_mark now m) ks), act \<or> ks \<noteq> [],
      foldl (try_send capacity) out
        (map (\<lambda>p. \<lparr>wm_Timestamp = round_mark now m p, wm_Partition = p\<rparr>) ks))"
  using assms
proof (induction ks arbitrary: m mw act out)
  case Nil
  then show ?case by simp
next
  case (Cons p ks)
  define m' where "m' = m\<lparr>partitionMarks := (partitionMarks m)(p \<mapsto> round_mark now m p)\<rparr>"
  have pm: "get_or (partitionMarks m) p zero_time = w" if "partitionMarks m p = Some w" for w
    using that by simp
  have one: "generate_one now capacity p (m, mw, act, out) =
      (m', min_or_set mw (round_mark now m p), True,
       try_send capacity out \<lparr>wm_Timestamp = round_mark now m p, wm_Partition = p\<rparr>)"
    using Cons.prems by (auto simp: generate_one_def m'_def round_mark_def min_or_set_def Let_def
        time_Add_def fun_upd_idem)
  have same: "round_mark now m' q = round_mark now m q" if "q \<noteq> p" for q
    using that by (simp add: round_mark_def m'_def)
  then have sames: "\<forall>q \<in> set ks. round_mark now m' q = round_mark now m q"
    using Cons.prems by (metis distinct.simps(2))
  then have maps: "map (round_mark now m') ks = map (round_mark now m) ks"
    "map (\<lambda>p. \<lparr>wm_Timestamp = round_mark now m' p, wm_Partition = p\<rparr>) ks =
     map (\<lambda>p. \<lparr>wm_Timestamp = round_mark now m p, wm_Partition = p\<rparr>) ks"
    by simp_all
  have marks: "m'\<lparr>partitionMarks := \<lambda>q. if q \<in> set ks then Some (round_mark now m' q) else partitionMarks m' q\<rparr> =
      m\<lparr>partitionMarks := \<lambda>q. if q \<in> set (p # ks) then Some (round_mark now m q) else partitionMarks m q\<rparr>"
  proof -
    have "(\<lambda>q. if q \<in> set ks then Some (round_mark now m' q) else partitionMarks m' q) =
          (\<lambda>q. if q \<in> set (p # ks) then Some (round_mark now m q) else partitionMarks m q)"
      using sames by (auto simp: fun_eq_iff) (simp_all add: m'_def)
    then show ?thesis by (simp add: m'_def)
  qed
  have "set ks \<subseteq> dom (partitionMarks m')" using Cons.prems by (auto simp: m'_def)
  with Cons.prems have "distinct ks" "set ks \<subseteq> dom (partitionMarks m')" by simp_all
  from Cons.IH [OF this] show ?case
    by (simp only: fold_simps one marks maps list.map foldl_Cons) simp
qed

lemma foldl_min_or_set:
  "\<forall>w \<in> set ws. 0 < w \<Longrightarrow> 0 < a \<Longrightarrow> foldl min_or_set a ws = Min (insert a (set ws))"
proof (induction ws arbitrary: a)
  case (Cons w ws)
  have "min_or_set a w = min a w" using Cons.prems by (auto simp: min_or_set_def gotime)
  with Cons show ?case by (cases "ws = []") (simp_all add: Min.insert min.assoc)
qed simp

lemma foldl_min_or_set_zero:
  assumes "\<forall>w \<in> set ws. 0 < w" "ws \<noteq> []"
  shows "foldl min_or_set zero_time ws = Min (set ws)"
  using assms by (cases ws) (auto simp: foldl_min_or_set min_or_set_def gotime)

lemma foldl_try_send:
  "length out + length xs \<le> capacity \<Longrightarrow> foldl (try_send capacity) out xs = out @ xs"
  by (induction xs arbitrary: out) (auto simp: try_send_def)

lemma generateWatermarks_marks:
  assumes "range_order ks (partitionMarks m)"
  shows "partitionMarks (fst (generateWatermarks now capacity ks m out)) =
           (\<lambda>p. map_option (\<lambda>_. round_mark now m p) (partitionMarks m p))"
    "lastEventTime (fst (generateWatermarks now capacity ks m out)) = lastEventTime m"
    "idleTimeout (fst (generateWatermarks now capacity ks m out)) = idleTimeout m"
  using assms
  by (auto simp: generateWatermarks_def range_order_def generate_fold Let_def fun_eq_iff map_option_case
      split: option.splits)

lemma generateWatermarks_global:
  assumes "range_order ks (partitionMarks m)"
  shows "globalWatermark (fst (generateWatermarks now capacity ks m out)) =
    (let mw = foldl min_or_set zero_time (map (round_mark now m) ks) in
     if ks \<noteq> [] \<and> (globalWatermark m = 0 \<or> globalWatermark m < mw) then mw else globalWatermark m)"
  using assms by (simp add: generateWatermarks_def range_order_def generate_fold Let_def gotime)

text \<open>C8: A generation round over partitions whose marks are after the zero time computes the
  least of the marks it leaves, whatever order the map is visited in; the global watermark moves
  to that minimum exactly when it is unset or smaller, so it never goes back, and when the channel
  has room one watermark per partition is emitted, in visiting order.\<close>

theorem generation_round:
  assumes order: "range_order ks (partitionMarks m)" and ne: "ks \<noteq> []"
    and pos: "\<forall>p \<in> dom (partitionMarks m). 0 < round_mark now m p"
    and room: "length out + length ks \<le> capacity"
  shows "let (m', out') = generateWatermarks now capacity ks m out;
             least = Min (round_mark now m ` dom (partitionMarks m)) in
           GetGlobalWatermark m' = (if globalWatermark m = 0 then least else max (globalWatermark m) least) \<and>
           (\<forall>p \<in> dom (partitionMarks m). GetPartitionWatermark m' p = round_mark now m p) \<and>
           out' = out @ map (\<lambda>p. \<lparr>wm_Timestamp = GetPartitionWatermark m' p, wm_Partition = p\<rparr>) ks"
proof -
  let ?r = "generateWatermarks now capacity ks m out"
  have ks: "set ks = dom (partitionMarks m)" "distinct ks"
    using order by (auto simp: range_order_def)
  have least: "foldl min_or_set zero_time (map (round_mark now m) ks)
      = Min (round_mark now m ` dom (partitionMarks m))"
    using pos ne ks by (subst foldl_min_or_set_zero) auto
  have "0 < Min (round_mark now m ` dom (partitionMarks m))"
  proof -
    have "finite (dom (partitionMarks m))" by (rule range_order_finite [OF order])
    moreover have "dom (partitionMarks m) \<noteq> {}" using ne ks(1) by (metis set_empty)
    ultimately show ?thesis using pos by (simp add: Min_gr_iff)
  qed
  then have glob: "GetGlobalWatermark (fst ?r) = (if globalWatermark m = 0
      then Min (round_mark now m ` dom (partitionMarks m))
      else max (globalWatermark m) (Min (round_mark now m ` dom (partitionMarks m))))"
    using ne by (auto simp: GetGlobalWatermark_def generateWatermarks_global [OF order] Let_def least max_def)
  have part: "GetPartitionWatermark (fst ?r) p = round_mark now m p" if "p \<in> dom (partitionMarks m)" for p
    using that by (auto simp: GetPartitionWatermark_def generateWatermarks_marks [OF order])
  have "snd ?r = out @ map (\<lambda>p. \<lparr>wm_Timestamp = round_mark now m p, wm_Partition = p\<rparr>) ks"
    using ks room by (simp add: generateWatermarks_def generate_fold Let_def foldl_try_send)
  moreover have "map (\<lambda>p. \<lparr>wm_Timestamp = GetPartitionWatermark (fst ?r) p, wm_Partition = p\<rparr>) ks =
      map (\<lambda>p. \<lparr>wm_Timestamp = round_mark now m p, wm_Partition = p\<rparr>) ks"
    using part ks(1) by simp
  ultimately show ?thesis using glob part by (simp add: Let_def case_prod_beta)
qed

theorem generation_round_witness:
  "let m = UpdateEventTime (UpdateEventTime (NewManager second) 0 (100 * second)) 1 (90 * second);
       r = generateWatermarks (110 * second) 8 [1, 0] m [] in
     GetGlobalWatermark (fst r) = 85 * second \<and> length (snd r) = 2"
proof -
  define m where "m = UpdateEventTime (UpdateEventTime (NewManager second) 0 (100 * second)) 1 (90 * second)"
  have marks: "partitionMarks m = [0 \<mapsto> 95 * second, 1 \<mapsto> 85 * second]" and glob: "globalWatermark m = 0"
    by (auto simp: m_def UpdateEventTime_marks NewManager_def gotime fun_eq_iff)
  have rm: "round_mark (110 * second) m 0 = 95 * second" "round_mark (110 * second) m 1 = 85 * second"
    unfolding round_mark_def marks
    by (simp_all add: time_Sub_def min_duration_def max_duration_def m_def NewManager_def gotime)
  have ord: "range_order [1, 0] (partitionMarks m)" and dom: "dom (partitionMarks m) = {1, 0}"
    by (auto simp: marks range_order_def)
  have "\<forall>p \<in> dom (partitionMarks m). 0 < round_mark (110 * second) m p"
    by (simp add: dom rm)
  from generation_round [OF ord _ this, of "[]" 8]
  have "GetGlobalWatermark (fst (generateWatermarks (110 * second) 8 [1, 0] m [])) = 85 * second \<and>
        length (snd (generateWatermarks (110 * second) 8 [1, 0] m [])) = 2"
    by (simp add: dom rm glob Let_def case_prod_beta min_def)
  then show ?thesis by (simp add: m_def Let_def)
qed

section \<open>Runs: watermarks never go back when no late event is fed\<close>

text \<open>
  A run interleaves \<open>UpdateEventTime\<close> calls of the sources with generation rounds. The state
  pairs the manager with the clock of the last round. A source that consults \<open>IsLate\<close> first
  feeds only events that are not late; the clock does not go back.
\<close>

inductive wm_step :: "gtime \<times> wm_manager \<Rightarrow> gtime \<times> wm_manager \<Rightarrow> bool" where
  update: "\<not> IsLate m t p \<Longrightarrow> wm_step (clock, m) (clock, UpdateEventTime m p t)"
| tick: "clock \<le> now \<Longrightarrow> range_order ks (partitionMarks m) \<Longrightarrow>
     wm_step (clock, m) (now, fst (generateWatermarks now capacity ks m output))"

definition wm_init :: "gtime \<times> wm_manager \<Rightarrow> bool" where
  "wm_init s \<longleftrightarrow> (\<exists>interval. snd s = NewManager interval)"

text \<open>Every mark is covered by the partition's last event time or by the idle frontier.\<close>

definition wm_inv :: "gtime \<times> wm_manager \<Rightarrow> bool" where
  "wm_inv s \<longleftrightarrow> idleTimeout (snd s) = 30 * second \<and>
     (\<forall>p w. partitionMarks (snd s) p = Some w \<longrightarrow>
        (\<exists>l. lastEventTime (snd s) p = Some l \<and> w \<le> max l (fst s - 30 * second)))"

definition wm_le :: "gtime \<times> wm_manager \<Rightarrow> gtime \<times> wm_manager \<Rightarrow> bool" where
  "wm_le s t \<longleftrightarrow>
     (\<forall>p w. partitionMarks (snd s) p = Some w \<longrightarrow> (\<exists>w'. partitionMarks (snd t) p = Some w' \<and> w \<le> w')) \<and>
     (0 < globalWatermark (snd s) \<longrightarrow> globalWatermark (snd s) \<le> globalWatermark (snd t))"

lemma idle_30s:
  "30 * second < time_Sub now l \<longleftrightarrow> l < now - 30 * second"
  "dur_neg (30 * second) = - (30 * second)"
  using time_Sub_greater [of "30 * second" now l]
  by (auto simp: min_duration_def max_duration_def second_def dur_neg_def)

lemma round_mark_bounds:
  assumes "idleTimeout m = 30 * second" "partitionMarks m p = Some w" "lastEventTime m p = Some l"
    "w \<le> max l (clock - 30 * second)" "clock \<le> now"
  shows "w \<le> round_mark now m p" "round_mark now m p \<le> max l (now - 30 * second)"
  using assms by (auto simp: round_mark_def idle_30s)

lemma wm_step_tick:
  assumes inv: "wm_inv (clock, m)" and "clock \<le> now" and ord: "range_order ks (partitionMarks m)"
  shows "wm_inv (now, fst (generateWatermarks now capacity ks m out))"
    "wm_le (clock, m) (now, fst (generateWatermarks now capacity ks m out))"
proof -
  let ?m' = "fst (generateWatermarks now capacity ks m out)"
  have idle: "idleTimeout m = 30 * second" using inv by (simp add: wm_inv_def)
  have rb: "\<exists>l. lastEventTime m p = Some l \<and> w \<le> round_mark now m p \<and>
      round_mark now m p \<le> max l (now - 30 * second)" if pw: "partitionMarks m p = Some w" for p w
  proof -
    obtain l where "lastEventTime m p = Some l" "w \<le> max l (clock - 30 * second)"
      using inv pw unfolding wm_inv_def by fastforce
    then show ?thesis using round_mark_bounds [OF idle pw] assms(2) by blast
  qed
  then show "wm_inv (now, ?m')"
    using idle by (fastforce simp: wm_inv_def generateWatermarks_marks [OF ord])
  show "wm_le (clock, m) (now, ?m')"
    using rb by (fastforce simp: wm_le_def generateWatermarks_marks [OF ord]
        generateWatermarks_global [OF ord] Let_def)
qed

lemma wm_step_update:
  assumes inv: "wm_inv (clock, m)" and late: "\<not> IsLate m t p"
  shows "wm_inv (clock, UpdateEventTime m p t)" "wm_le (clock, m) (clock, UpdateEventTime m p t)"
proof -
  have "w \<le> t" if "partitionMarks m p = Some w" for w
    using late that by (simp add: IsLate_def gotime)
  moreover have "t - 5 * second \<le> t" by (simp add: second_def)
  ultimately show "wm_inv (clock, UpdateEventTime m p t)"
    using inv by (auto simp: wm_inv_def UpdateEventTime_marks split: option.splits)
  show "wm_le (clock, m) (clock, UpdateEventTime m p t)"
    by (auto simp: wm_le_def UpdateEventTime_marks split: option.splits)
qed

interpretation wms: stepping wm_init wm_step wm_inv
proof
  show "wm_inv s" if "wm_init s" for s
    using that by (auto simp: wm_init_def wm_inv_def NewManager_def)
  show "wm_inv t" if "wm_inv s" "wm_step s t" for s t
    using that(2,1) by (cases rule: wm_step.cases) (simp_all add: wm_step_tick(1) wm_step_update(1))
qed

lemma wm_le_step: "wm_inv s \<Longrightarrow> wm_step s t \<Longrightarrow> wm_le s t"
  by (erule wm_step.cases) (simp_all add: wm_step_tick(2) wm_step_update(2))

lemma wm_le_trans: "wm_le a b \<Longrightarrow> wm_le b c \<Longrightarrow> wm_le a c"
proof -
  assume ab: "wm_le a b" and bc: "wm_le b c"
  have "\<exists>w'. partitionMarks (snd c) p = Some w' \<and> w \<le> w'" if "partitionMarks (snd a) p = Some w" for p w
    using ab bc that unfolding wm_le_def by (meson order.trans)
  moreover have "globalWatermark (snd a) \<le> globalWatermark (snd c)" if "0 < globalWatermark (snd a)"
    using ab bc that unfolding wm_le_def by (meson order.trans order.strict_trans2)
  ultimately show ?thesis by (simp add: wm_le_def)
qed

text \<open>C9: In every run from a new manager that interleaves generation rounds under a clock that
  does not go back with updates by events that are not late, no partition watermark and no set
  global watermark ever decreases between two points of the run.\<close>

theorem watermarks_monotone:
  assumes "reach wm_init wm_step s" "steps wm_step s t"
  shows "wm_le s t"
proof (rule wms.steps_mono [OF assms(2) wms.inv_reach [OF assms(1)]])
  show "wm_le a a" for a by (auto simp: wm_le_def)
qed (rule wm_le_step wm_le_trans; assumption)+

lemma example_run:
  "steps wm_step (0, NewManager second) (0, UpdateEventTime (NewManager second) 1 (20 * second))"
  by (rule steps.more, rule steps.none, rule wm_step.update) (simp add: IsLate_def NewManager_def)

theorem watermarks_monotone_witness:
  "wm_le (0, NewManager second) (0, UpdateEventTime (NewManager second) 1 (20 * second))"
proof -
  have "reach wm_init wm_step (0, NewManager second)"
    by (rule reach.start) (auto simp: wm_init_def)
  from watermarks_monotone [OF this example_run] show ?thesis .
qed

text \<open>Without that restriction the idle rule takes a partition's watermark back: after an event
  at 60 s and a late one at 10 s, a round at 65 s sees the partition as idle (it compares the wall
  clock with the time of the event that came last) and moves its watermark from 55 s to 35 s, so
  that an event at 40 s, late before the round, is not late after it.\<close>

theorem idle_rule_regresses:
  "let m = UpdateEventTime (UpdateEventTime (NewManager second) 0 (60 * second)) 0 (10 * second);
       m' = fst (generateWatermarks (65 * second) 8 [0] m []) in
     range_order [0] (partitionMarks m) \<and>
     GetPartitionWatermark m 0 = 55 * second \<and> GetPartitionWatermark m' 0 = 35 * second \<and>
     IsLate m (40 * second) 0 \<and> \<not> IsLate m' (40 * second) 0"
proof -
  define m where "m = UpdateEventTime (UpdateEventTime (NewManager second) 0 (60 * second)) 0 (10 * second)"
  have marks: "partitionMarks m = [0 \<mapsto> 55 * second]"
    by (auto simp: m_def UpdateEventTime_marks NewManager_def gotime fun_eq_iff)
  have ord: "range_order [0] (partitionMarks m)" by (auto simp: marks range_order_def)
  have "round_mark (65 * second) m 0 = 35 * second"
  proof -
    have "idleTimeout m = 30 * second" "lastEventTime m 0 = Some (10 * second)"
      by (simp_all add: m_def NewManager_def)
    then show ?thesis by (simp add: round_mark_def idle_30s)
  qed
  then have "let m' = fst (generateWatermarks (65 * second) 8 [0] m []) in
     range_order [0] (partitionMarks m) \<and>
     GetPartitionWatermark m 0 = 55 * second \<and> GetPartitionWatermark m' 0 = 35 * second \<and>
     IsLate m (40 * second) 0 \<and> \<not> IsLate m' (40 * second) 0"
    using ord by (simp add: GetPartitionWatermark_def IsLate_def Let_def marks
        generateWatermarks_marks [OF ord] time_Before_def second_def)
  then show ?thesis by (simp add: m_def Let_def)
qed

end
