(* ===== verification/Windows.thy ===== *)
theory Windows
  imports Stream_Types
begin

text \<open>
  The windowing package \<open>pkg/window/window.go\<close>: the tumbling, sliding and session assigners, the
  three triggers and the window operator. \<open>time.Now()\<close> is the argument \<open>now\<close>. A nil Go map (the
  operator after \<open>Close\<close>) is \<open>None\<close>: reading it finds nothing, writing it panics. The aggregate
  function returns the new accumulator together with an error (\<open>None\<close> is Go's nil for both); the
  operator stores the accumulator before it looks at the error, as the Go assignment does.
\<close>

section \<open>Assigners\<close>

record TumblingWindowAssigner =
  tw_size :: duration
  tw_offset :: duration
  tw_eventTime :: bool

definition NewTumblingWindow :: "duration \<Rightarrow> TumblingWindowAssigner" where
  "NewTumblingWindow sz = \<lparr>tw_size = sz, tw_offset = 0, tw_eventTime = True\<rparr>"

definition tw_WithOffset :: "TumblingWindowAssigner \<Rightarrow> duration \<Rightarrow> TumblingWindowAssigner" where
  "tw_WithOffset t off = t\<lparr>tw_offset := off\<rparr>"

definition tw_ProcessingTime :: "TumblingWindowAssigner \<Rightarrow> TumblingWindowAssigner" where
  "tw_ProcessingTime t = t\<lparr>tw_eventTime := False\<rparr>"

definition tw_AssignWindows :: "gtime \<Rightarrow> TumblingWindowAssigner \<Rightarrow> 'v event \<Rightarrow> window list" where
  "tw_AssignWindows now t e =
     (let timestamp = (if tw_eventTime t then EventTime e else now);
          start0 = time_Add (time_Truncate timestamp (tw_size t)) (tw_offset t);
          start = (if time_After start0 timestamp then time_Add start0 (dur_neg (tw_size t)) else start0)
      in [\<lparr>Start = start, End = time_Add start (tw_size t), WType = TumblingWindow\<rparr>])"

record SlidingWindowAssigner =
  sw_size :: duration
  sw_slide :: duration
  sw_offset :: duration
  sw_eventTime :: bool

definition NewSlidingWindow :: "duration \<Rightarrow> duration \<Rightarrow> SlidingWindowAssigner" where
  "NewSlidingWindow sz slide =
     \<lparr>sw_size = sz, sw_slide = slide, sw_offset = 0, sw_eventTime = True\<rparr>"

definition sw_WithOffset :: "SlidingWindowAssigner \<Rightarrow> duration \<Rightarrow> SlidingWindowAssigner" where
  "sw_WithOffset s off = s\<lparr>sw_offset := off\<rparr>"

definition sw_ProcessingTime :: "SlidingWindowAssigner \<Rightarrow> SlidingWindowAssigner" where
  "sw_ProcessingTime s = s\<lparr>sw_eventTime := False\<rparr>"

definition sw_window :: "SlidingWindowAssigner \<Rightarrow> gtime \<Rightarrow> window" where
  "sw_window s start = \<lparr>Start = start, End = time_Add start (sw_size s), WType = SlidingWindow\<rparr>"

text \<open>The loop of the sliding assigner, with its guard, the inner test and the break after more than
  1000 windows; the number of windows still allowed bounds the iterations.\<close>

function sw_loop :: "SlidingWindowAssigner \<Rightarrow> gtime \<Rightarrow> gtime \<Rightarrow> window list \<Rightarrow> window list" where
  "sw_loop s timestamp start windows =
     (if time_After (time_Add start (sw_size s)) timestamp then
        (let windows' = (if time_After (time_Add start (sw_size s)) timestamp
                         then windows @ [sw_window s start] else windows)
         in if length windows' > 1000 then windows'
            else sw_loop s timestamp (time_Add start (dur_neg (sw_slide s))) windows')
      else windows)"
  by pat_completeness auto
termination
  by (relation "measure (\<lambda>(s, timestamp, start, windows). 1001 - length windows)") (auto split: if_splits)

declare sw_loop.simps [simp del]

definition sw_AssignWindows :: "gtime \<Rightarrow> SlidingWindowAssigner \<Rightarrow> 'v event \<Rightarrow> window list" where
  "sw_AssignWindows now s e =
     (let timestamp = (if sw_eventTime s then EventTime e else now);
          last0 = time_Add (time_Truncate timestamp (sw_slide s)) (sw_offset s);
          lastStart = (if time_After last0 timestamp then time_Add last0 (dur_neg (sw_slide s)) else last0)
      in sw_loop s timestamp lastStart [])"

record SessionWindowAssigner =
  se_gap :: duration
  se_eventTime :: bool

definition NewSessionWindow :: "duration \<Rightarrow> SessionWindowAssigner" where
  "NewSessionWindow gap = \<lparr>se_gap = gap, se_eventTime = True\<rparr>"

definition se_ProcessingTime :: "SessionWindowAssigner \<Rightarrow> SessionWindowAssigner" where
  "se_ProcessingTime s = s\<lparr>se_eventTime := False\<rparr>"

definition se_AssignWindows :: "gtime \<Rightarrow> SessionWindowAssigner \<Rightarrow> 'v event \<Rightarrow> window list" where
  "se_AssignWindows now s e =
     (let timestamp = (if se_eventTime s then EventTime e else now)
      in [\<lparr>Start = timestamp, End = time_Add timestamp (se_gap s), WType = SessionWindow\<rparr>])"

datatype Assigner =
    Tumbling TumblingWindowAssigner
  | Sliding SlidingWindowAssigner
  | Session SessionWindowAssigner

fun AssignWindows :: "gtime \<Rightarrow> Assigner \<Rightarrow> 'v event \<Rightarrow> window list" where
  "AssignWindows now (Tumbling t) e = tw_AssignWindows now t e"
| "AssignWindows now (Sliding s) e = sw_AssignWindows now s e"
| "AssignWindows now (Session s) e = se_AssignWindows now s e"

fun IsEventTime :: "Assigner \<Rightarrow> bool" where
  "IsEventTime (Tumbling t) = tw_eventTime t"
| "IsEventTime (Sliding s) = sw_eventTime s"
| "IsEventTime (Session s) = se_eventTime s"

section \<open>Triggers\<close>

datatype TriggerResult = Continue | Fire | Purge | FireAndPurge

text \<open>A count trigger carries its threshold and the count it has reached.\<close>

datatype Trigger = EventTimeTrigger | ProcessingTimeTrigger | CountTrigger int int

definition NewCountTrigger :: "int \<Rightarrow> Trigger" where
  "NewCountTrigger maxCount = CountTrigger maxCount 0"

fun OnElement :: "Trigger \<Rightarrow> TriggerResult \<times> Trigger" where
  "OnElement EventTimeTrigger = (Continue, EventTimeTrigger)"
| "OnElement ProcessingTimeTrigger = (Continue, ProcessingTimeTrigger)"
| "OnElement (CountTrigger maxCount n) =
     (if n + 1 \<ge> maxCount then (Fire, CountTrigger maxCount 0)
      else (Continue, CountTrigger maxCount (n + 1)))"

fun OnEventTime :: "Trigger \<Rightarrow> gtime \<Rightarrow> window \<Rightarrow> TriggerResult" where
  "OnEventTime EventTimeTrigger wm w =
     (if time_After wm (End w) \<or> time_Equal wm (End w) then Fire else Continue)"
| "OnEventTime ProcessingTimeTrigger wm w = Continue"
| "OnEventTime (CountTrigger maxCount n) wm w = Continue"

fun OnProcessingTime :: "Trigger \<Rightarrow> gtime \<Rightarrow> window \<Rightarrow> TriggerResult" where
  "OnProcessingTime EventTimeTrigger now w = Continue"
| "OnProcessingTime ProcessingTimeTrigger now w =
     (if time_After now (End w) \<or> time_Equal now (End w) then Fire else Continue)"
| "OnProcessingTime (CountTrigger maxCount n) now w = Continue"

section \<open>The window operator\<close>

record ('v, 'a) WindowState =
  ws_Window :: window
  ws_Events :: "'v event list"
  ws_Accumulator :: "'a option"
  ws_Count :: int

record ('v, 'a) WindowOperator =
  wo_assigner :: Assigner
  wo_trigger :: Trigger
  wo_windows :: "(string \<rightharpoonup> ('v, 'a) WindowState) option"
  wo_aggregate :: "'a option \<Rightarrow> 'v event \<Rightarrow> 'a option \<times> string option"

datatype wo_error = AggregationError string | NilMapWrite

definition NewWindowOperator ::
    "Assigner \<Rightarrow> Trigger \<Rightarrow> ('a option \<Rightarrow> 'v event \<Rightarrow> 'a option \<times> string option)
      \<Rightarrow> ('v, 'a) WindowOperator" where
  "NewWindowOperator assigner trigger agg =
     \<lparr>wo_assigner = assigner, wo_trigger = trigger, wo_windows = Some Map.empty, wo_aggregate = agg\<rparr>"

definition windowKey :: "string \<Rightarrow> window \<Rightarrow> string" where
  "windowKey eventKey w =
     eventKey @ ''-'' @ show_int (time_Unix (Start w)) @ ''-'' @ show_int (time_Unix (End w))"

text \<open>The result event of a window; \<open>fmt\<close> renders a time as RFC 3339 in the location the value
  carries, which is not part of the model.\<close>

definition fireWindow :: "(gtime \<Rightarrow> string) \<Rightarrow> string \<Rightarrow> ('v, 'a) WindowState \<Rightarrow> 'a option event" where
  "fireWindow fmt key st =
     mk_event key (ws_Accumulator st) (End (ws_Window st))
       [''window_start'' \<mapsto> fmt (Start (ws_Window st)), ''window_end'' \<mapsto> fmt (End (ws_Window st)),
        ''window_count'' \<mapsto> show_int (ws_Count st)]"

definition purgeWindow :: "string \<Rightarrow> ('v, 'a) WindowOperator \<Rightarrow> ('v, 'a) WindowOperator" where
  "purgeWindow key w = w\<lparr>wo_windows := map_option (\<lambda>m. m(key := None)) (wo_windows w)\<rparr>"

definition add_to_window ::
    "('a option \<Rightarrow> 'v event \<Rightarrow> 'a option \<times> string option) \<Rightarrow> 'v event
      \<Rightarrow> ('v, 'a) WindowState \<Rightarrow> ('v, 'a) WindowState \<times> string option" where
  "add_to_window agg e st =
     (let st1 = st\<lparr>ws_Events := ws_Events st @ [e], ws_Count := ws_Count st + 1\<rparr>;
          (acc, err) = agg (ws_Accumulator st1) e
      in (st1\<lparr>ws_Accumulator := acc\<rparr>, err))"

definition new_window_state :: "window \<Rightarrow> ('v, 'a) WindowState" where
  "new_window_state w = \<lparr>ws_Window = w, ws_Events = [], ws_Accumulator = None, ws_Count = 0\<rparr>"

text \<open>The loop of \<open>Process\<close> over the assigned windows, with the results so far.\<close>

fun process_windows ::
    "(gtime \<Rightarrow> string) \<Rightarrow> 'v event \<Rightarrow> window list \<Rightarrow> ('v, 'a) WindowOperator \<Rightarrow> 'a option event list
      \<Rightarrow> ('v, 'a) WindowOperator \<times> (wo_error + 'a option event list)" where
  "process_windows fmt e [] op results = (op, Inr results)"
| "process_windows fmt e (w # ws) op results =
     (case wo_windows op of
        None \<Rightarrow> (op, Inl NilMapWrite)
      | Some m \<Rightarrow>
          (let key = windowKey (Key e) w;
               st = (case m key of None \<Rightarrow> new_window_state w | Some st \<Rightarrow> st);
               (st', err) = add_to_window (wo_aggregate op) e st;
               op1 = op\<lparr>wo_windows := Some (m(key \<mapsto> st'))\<rparr>
           in case err of
                Some msg \<Rightarrow> (op1, Inl (AggregationError msg))
              | None \<Rightarrow>
                  (let (res, trig) = OnElement (wo_trigger op1);
                       op2 = op1\<lparr>wo_trigger := trig\<rparr>
                   in if res = Fire \<or> res = FireAndPurge
                      then process_windows fmt e ws
                             (if res = FireAndPurge then purgeWindow key op2 else op2)
                             (results @ [fireWindow fmt key st'])
                      else process_windows fmt e ws op2 results)))"

definition wo_Process ::
    "(gtime \<Rightarrow> string) \<Rightarrow> gtime \<Rightarrow> ('v, 'a) WindowOperator \<Rightarrow> 'v event
      \<Rightarrow> ('v, 'a) WindowOperator \<times> (wo_error + 'a option event list)" where
  "wo_Process fmt now op e = process_windows fmt e (AssignWindows now (wo_assigner op) e) op []"

text \<open>\<open>OnWatermark\<close> holds the read lock while it loops, and \<open>purgeWindow\<close> asks for the write lock:
  a trigger that answers \<open>FireAndPurge\<close> blocks the call for ever, which is the result \<open>None\<close>.\<close>

fun watermark_loop ::
    "(gtime \<Rightarrow> string) \<Rightarrow> gtime \<Rightarrow> Trigger \<Rightarrow> (string \<rightharpoonup> ('v, 'a) WindowState) \<Rightarrow> string list
      \<Rightarrow> 'a option event list \<Rightarrow> 'a option event list option" where
  "watermark_loop fmt wm trig m [] results = Some results"
| "watermark_loop fmt wm trig m (key # ks) results =
     (case m key of
        None \<Rightarrow> watermark_loop fmt wm trig m ks results
      | Some st \<Rightarrow>
          (let res = OnEventTime trig wm (ws_Window st) in
           if res = Fire \<or> res = FireAndPurge then
             (if res = FireAndPurge then None
              else watermark_loop fmt wm trig m ks (results @ [fireWindow fmt key st]))
           else watermark_loop fmt wm trig m ks results))"

definition wo_OnWatermark ::
    "(gtime \<Rightarrow> string) \<Rightarrow> gtime \<Rightarrow> string list \<Rightarrow> ('v, 'a) WindowOperator \<Rightarrow> 'a option event list option" where
  "wo_OnWatermark fmt wm ks op =
     (case wo_windows op of None \<Rightarrow> Some [] | Some m \<Rightarrow> watermark_loop fmt wm (wo_trigger op) m ks [])"

definition wo_Close :: "('v, 'a) WindowOperator \<Rightarrow> ('v, 'a) WindowOperator" where
  "wo_Close op = op\<lparr>wo_windows := None\<rparr>"

definition wo_GetState :: "('v, 'a) WindowOperator \<Rightarrow> (string \<rightharpoonup> 'a option)" where
  "wo_GetState op =
     (case wo_windows op of None \<Rightarrow> Map.empty | Some m \<Rightarrow> (\<lambda>k. map_option ws_Accumulator (m k)))"

definition wo_RestoreState ::
    "('v, 'a) WindowOperator \<Rightarrow> (string \<rightharpoonup> 'a option) \<Rightarrow> ('v, 'a) WindowOperator" where
  "wo_RestoreState op state =
     op\<lparr>wo_windows := map_option (\<lambda>m k. case (m k, state k) of
          (Some ws, Some v) \<Rightarrow> Some (ws\<lparr>ws_Accumulator := v\<rparr>) | (r, _) \<Rightarrow> r) (wo_windows op)\<rparr>"

section \<open>Assigned windows contain the timestamp and are exactly the aligned ones\<close>

lemma tw_AssignWindows_eq:
  assumes "0 < tw_size t" "0 \<le> tw_offset t" "tw_offset t < tw_size t" "tw_eventTime t"
  shows "tw_AssignWindows now t e =
    (let start = aligned_start (tw_size t) (tw_offset t) (EventTime e) in
       [\<lparr>Start = start, End = start + tw_size t, WType = TumblingWindow\<rparr>])"
  using aligned_start_code [OF assms(1-3), of "EventTime e"] assms(4)
  by (simp add: tw_AssignWindows_def Let_def time_Add_def)

lemma tumbling_tile:
  assumes "0 < tw_size t" "0 \<le> tw_offset t" "tw_offset t < tw_size t" "tw_eventTime t"
  shows "\<exists>w. tw_AssignWindows now t e = [w] \<and> in_window w (EventTime e) \<and> WType w = TumblingWindow \<and>
           (\<forall>k. let tile = \<lparr>Start = tw_offset t + tw_size t * k,
                            End = tw_offset t + tw_size t * k + tw_size t, WType = TumblingWindow\<rparr>
                in in_window tile (EventTime e) \<longleftrightarrow> tile = w)"
proof -
  let ?T = "EventTime e" and ?d = "tw_size t" and ?o = "tw_offset t"
  have uniq: "?o + ?d * k \<le> ?T \<and> ?T < ?o + ?d * k + ?d \<longleftrightarrow> k = (?T - ?o) div ?d" for k
  proof
    assume "?o + ?d * k \<le> ?T \<and> ?T < ?o + ?d * k + ?d"
    then show "k = (?T - ?o) div ?d"
      by (intro int_div_pos_eq [symmetric, where r = "?T - ?o - ?d * k"]) auto
  next
    assume "k = (?T - ?o) div ?d"
    then show "?o + ?d * k \<le> ?T \<and> ?T < ?o + ?d * k + ?d"
      using aligned_start_le [OF assms(1), of ?o ?T] aligned_start_gt [OF assms(1), of ?T ?o]
      by (simp add: aligned_start_def)
  qed
  let ?w = "\<lparr>Start = aligned_start ?d ?o ?T, End = aligned_start ?d ?o ?T + ?d, WType = TumblingWindow\<rparr>"
  have "tw_AssignWindows now t e = [?w]"
    using tw_AssignWindows_eq [OF assms, of now e] by (simp add: Let_def)
  moreover have "in_window ?w ?T"
    using assms(1) by (simp add: in_window_def aligned_start_le aligned_start_gt)
  moreover have "let tile = \<lparr>Start = ?o + ?d * k, End = ?o + ?d * k + ?d, WType = TumblingWindow\<rparr>
      in in_window tile ?T \<longleftrightarrow> tile = ?w" for k
    using assms(1) by (simp add: Let_def in_window_def uniq aligned_start_def)
  ultimately show ?thesis by (intro exI [of _ ?w]) simp
qed

text \<open>A tumbling assigner of positive size with an offset between 0 and the size puts an event
  into exactly one window; that window contains the event's time, starts at the offset plus a
  multiple of the size, and every window of that shape that contains the event's time is this one,
  so the windows tile the time line.\<close>

theorem tumbling_assigns_the_tile:
  assumes "0 < tw_size t" "0 \<le> tw_offset t" "tw_offset t < tw_size t" "tw_eventTime t"
  shows "\<exists>w. tw_AssignWindows now t e = [w] \<and> in_window w (EventTime e) \<and> WType w = TumblingWindow \<and>
           (\<forall>k. let tile = \<lparr>Start = tw_offset t + tw_size t * k,
                            End = tw_offset t + tw_size t * k + tw_size t, WType = TumblingWindow\<rparr>
                in in_window tile (EventTime e) \<longleftrightarrow> tile = w)"
  using tumbling_tile [OF assms] .

theorem tumbling_assigns_the_tile_witness:
  "tw_AssignWindows 0 (tw_WithOffset (NewTumblingWindow (10 * second)) (3 * second))
     (mk_event ''a'' () (42 * second) Map.empty) =
   [\<lparr>Start = 33 * second, End = 43 * second, WType = TumblingWindow\<rparr>]"
proof -
  let ?t = "tw_WithOffset (NewTumblingWindow (10 * second)) (3 * second)"
  let ?e = "mk_event ''a'' () (42 * second) Map.empty"
  have t: "tw_size ?t = 10 * second" "tw_offset ?t = 3 * second" "tw_eventTime ?t"
    by (simp_all add: tw_WithOffset_def NewTumblingWindow_def)
  obtain w where w: "tw_AssignWindows 0 ?t ?e = [w]"
    and tile: "\<And>k. let tile = \<lparr>Start = tw_offset ?t + tw_size ?t * k,
                            End = tw_offset ?t + tw_size ?t * k + tw_size ?t, WType = TumblingWindow\<rparr>
                in in_window tile (EventTime ?e) \<longleftrightarrow> tile = w"
    using tumbling_assigns_the_tile [of ?t 0 ?e] t by (auto simp: second_def)
  show ?thesis using tile [of 3] unfolding w t Let_def by (simp add: in_window_def second_def)
qed

definition sw_count :: "SlidingWindowAssigner \<Rightarrow> gtime \<Rightarrow> gtime \<Rightarrow> nat" where
  "sw_count s t start = nat ((start + sw_size s - t + sw_slide s - 1) div sw_slide s)"

lemma less_sw_count: "0 < sw_slide s \<Longrightarrow> i < sw_count s t start \<longleftrightarrow> t < start - int i * sw_slide s + sw_size s"
  using less_ceil_div [of "sw_slide s" "int i" "start + sw_size s - t"]
  by (simp add: sw_count_def zless_nat_eq_int_zless algebra_simps)

lemma sw_count_0: "0 < sw_slide s \<Longrightarrow> start + sw_size s \<le> t \<Longrightarrow> sw_count s t start = 0"
  using less_sw_count [of s 0 t start] by simp

lemma sw_count_Suc:
  assumes "0 < sw_slide s" "t < start + sw_size s"
  shows "sw_count s t start = Suc (sw_count s t (start - sw_slide s))"
proof -
  have "i < sw_count s t start \<longleftrightarrow> i < Suc (sw_count s t (start - sw_slide s))" for i
    using assms by (cases i) (simp_all add: less_sw_count algebra_simps)
  then show ?thesis by (meson linorder_neqE_nat order.irrefl)
qed

lemma sw_loop_eq:
  assumes "0 < sw_slide s" "length ws \<le> 1000"
  shows "sw_loop s t start ws =
    ws @ map (\<lambda>i. sw_window s (start - int i * sw_slide s)) [0..<min (1001 - length ws) (sw_count s t start)]"
  using assms
proof (induction s t start ws rule: sw_loop.induct)
  case (1 s t start ws)
  show ?case
  proof (cases "t < start + sw_size s")
    case False
    then show ?thesis
      using "1.prems" by (subst sw_loop.simps) (simp add: gotime sw_count_0)
  next
    case True
    note Suc = sw_count_Suc [OF "1.prems"(1) True]
    show ?thesis
    proof (cases "length ws = 1000")
      case True
      then show ?thesis
        using \<open>t < start + sw_size s\<close> by (subst sw_loop.simps) (simp add: gotime Suc)
    next
      case False
      have IH: "sw_loop s t (start - sw_slide s) (ws @ [sw_window s start]) =
          (ws @ [sw_window s start]) @ map (\<lambda>i. sw_window s (start - sw_slide s - int i * sw_slide s))
            [0..<min (1001 - Suc (length ws)) (sw_count s t (start - sw_slide s))]"
        using "1.IH" [of "ws @ [sw_window s start]"] "1.prems" False True by (simp add: gotime)
      have "min (1001 - length ws) (sw_count s t start) =
          Suc (min (1001 - Suc (length ws)) (sw_count s t (start - sw_slide s)))"
        using "1.prems"(2) False by (simp add: Suc Suc_diff_le)
      then show ?thesis
        using True False "1.prems"
        by (subst sw_loop.simps) (simp add: gotime IH map_upt_Suc algebra_simps del: upt_Suc)
    qed
  qed
qed

lemma sw_AssignWindows_eq:
  assumes "0 < sw_slide s" "0 \<le> sw_offset s" "sw_offset s < sw_slide s" "sw_eventTime s"
  shows "sw_AssignWindows now s e =
    (let start = aligned_start (sw_slide s) (sw_offset s) (EventTime e) in
       map (\<lambda>i. sw_window s (start - int i * sw_slide s)) [0..<min 1001 (sw_count s (EventTime e) start)])"
  using aligned_start_code [OF assms(1-3), of "EventTime e"] assms
  by (simp add: sw_AssignWindows_def Let_def sw_loop_eq)

lemma sliding_windows:
  assumes "0 < sw_slide s" "0 \<le> sw_offset s" "sw_offset s < sw_slide s" "sw_eventTime s"
    and "sw_size s \<le> 1001 * sw_slide s"
  shows "(\<forall>w. w \<in> set (sw_AssignWindows now s e) \<longleftrightarrow>
            (\<exists>k. w = sw_window s (sw_offset s + sw_slide s * k) \<and> in_window w (EventTime e))) \<and>
         sorted_wrt (\<lambda>v w. Start w < Start v) (sw_AssignWindows now s e)"
proof (intro conjI allI)
  let ?T = "EventTime e" and ?d = "sw_slide s" and ?o = "sw_offset s"
  let ?K = "(?T - ?o) div ?d"
  let ?st = "aligned_start ?d ?o ?T"
  have st: "?st = ?o + ?d * ?K" by (simp add: aligned_start_def)
  have le: "sw_count s ?T ?st \<le> 1001"
  proof (rule ccontr)
    assume "\<not> ?thesis"
    then have "1001 < sw_count s ?T ?st" by simp
    then have "?T < ?st - int 1001 * ?d + sw_size s"
      by (rule less_sw_count [OF assms(1), THEN iffD1])
    then show False using assms(5) aligned_start_le [OF assms(1), of ?o ?T] by simp
  qed
  have eq: "sw_AssignWindows now s e = map (\<lambda>i. sw_window s (?st - int i * ?d)) [0..<sw_count s ?T ?st]"
    using sw_AssignWindows_eq [OF assms(1-4), of now e] le by (simp add: Let_def min_absorb2)
  show "sorted_wrt (\<lambda>v w. Start w < Start v) (sw_AssignWindows now s e)"
    using assms(1) by (simp add: eq sorted_wrt_map sw_window_def)
  fix w
  show "w \<in> set (sw_AssignWindows now s e) \<longleftrightarrow>
      (\<exists>k. w = sw_window s (?o + ?d * k) \<and> in_window w ?T)"
  proof
    assume "w \<in> set (sw_AssignWindows now s e)"
    then obtain i where i: "i < sw_count s ?T ?st" "w = sw_window s (?st - int i * ?d)"
      by (auto simp: eq)
    then have "?T < ?st - int i * ?d + sw_size s" using less_sw_count [OF assms(1)] by blast
    moreover have "?st - int i * ?d \<le> ?T"
    proof -
      have "0 \<le> int i * ?d" using assms(1) by simp
      then show ?thesis using aligned_start_le [OF assms(1), of ?o ?T] by linarith
    qed
    ultimately show "\<exists>k. w = sw_window s (?o + ?d * k) \<and> in_window w ?T"
      using i(2) by (intro exI [of _ "?K - int i"]) (simp add: st in_window_def sw_window_def time_Add_def algebra_simps)
  next
    assume "\<exists>k. w = sw_window s (?o + ?d * k) \<and> in_window w ?T"
    then obtain k where k: "w = sw_window s (?o + ?d * k)" and "in_window w ?T" by blast
    then have c: "?o + ?d * k \<le> ?T" "?T < ?o + ?d * k + sw_size s"
      by (simp_all add: in_window_def sw_window_def time_Add_def)
    have "k \<le> ?K"
      using zdiv_mono1 [OF _ assms(1), of "?d * k" "?T - ?o"] c(1) assms(1) by simp
    then obtain i where i: "?K = k + int i" using zle_iff_zadd by blast
    then have wi: "w = sw_window s (?st - int i * ?d)" by (simp add: k st algebra_simps)
    have "i < sw_count s ?T ?st"
      using c(2) less_sw_count [OF assms(1), of i ?T ?st] i by (simp add: st algebra_simps)
    with wi show "w \<in> set (sw_AssignWindows now s e)" by (auto simp: eq)
  qed
qed

text \<open>A sliding assigner with a positive slide, an offset between 0 and the slide and a size of at
  most 1001 slides returns exactly the windows that start at the offset plus a multiple of the slide
  and contain the event's time, each once, the latest start first. The bound of 1001 is the one the
  code's loop breaks at.\<close>

theorem sliding_assigns_all_windows:
  assumes "0 < sw_slide s" "0 \<le> sw_offset s" "sw_offset s < sw_slide s" "sw_eventTime s"
    and "sw_size s \<le> 1001 * sw_slide s"
  shows "(\<forall>w. w \<in> set (sw_AssignWindows now s e) \<longleftrightarrow>
            (\<exists>k. w = sw_window s (sw_offset s + sw_slide s * k) \<and> in_window w (EventTime e))) \<and>
         sorted_wrt (\<lambda>v w. Start w < Start v) (sw_AssignWindows now s e)"
  using sliding_windows [OF assms] .

theorem sliding_assigns_all_windows_witness:
  "sw_window (NewSlidingWindow (10 * second) (5 * second)) (5 * second)
     \<in> set (sw_AssignWindows 0 (NewSlidingWindow (10 * second) (5 * second))
              (mk_event ''a'' () (12 * second) Map.empty))"
proof -
  let ?s = "NewSlidingWindow (10 * second) (5 * second)"
  have s: "sw_size ?s = 10 * second" "sw_slide ?s = 5 * second" "sw_offset ?s = 0" "sw_eventTime ?s"
    by (simp_all add: NewSlidingWindow_def)
  have "in_window (sw_window ?s (5 * second)) (12 * second)"
    by (simp add: in_window_def sw_window_def s time_Add_def)
  then show ?thesis
    using sliding_assigns_all_windows [of ?s 0 "mk_event ''a'' () (12 * second) Map.empty"] s
    by (auto intro!: exI [of _ 1])
qed

section \<open>Window keys\<close>

definition second_aligned :: "window \<Rightarrow> bool" where
  "second_aligned w \<longleftrightarrow> second dvd Start w \<and> second dvd End w \<and>
     0 \<le> time_Unix (Start w) \<and> 0 \<le> time_Unix (End w)"

lemma windowKey_unix:
  assumes "0 \<le> time_Unix (Start v)" "0 \<le> time_Unix (End v)" "0 \<le> time_Unix (Start w)" "0 \<le> time_Unix (End w)"
    and "windowKey j v = windowKey k w"
  shows "j = k \<and> time_Unix (Start v) = time_Unix (Start w) \<and> time_Unix (End v) = time_Unix (End w)"
proof -
  have eq: "(j @ ''-'' @ show_int (time_Unix (Start v))) @ CHR ''-'' # show_int (time_Unix (End v)) =
      (k @ ''-'' @ show_int (time_Unix (Start w))) @ CHR ''-'' # show_int (time_Unix (End w))"
    using assms(5) by (simp add: windowKey_def)
  note 1 = last_minus_split [OF show_int_nonneg [OF assms(2)] show_int_nonneg [OF assms(4)] eq]
  then have "j @ CHR ''-'' # show_int (time_Unix (Start v)) = k @ CHR ''-'' # show_int (time_Unix (Start w))"
    by simp
  note 2 = last_minus_split [OF show_int_nonneg [OF assms(1)] show_int_nonneg [OF assms(3)] this]
  from 1 2 show ?thesis by (blast dest: show_int_inj)
qed

lemma time_Unix_aligned_inj:
  "second dvd t \<Longrightarrow> second dvd u \<Longrightarrow> time_Unix t = time_Unix u \<Longrightarrow> t = u"
  by (auto simp: time_Unix_def intro: dvd_div_eq_cancel)

lemma windowKey_inj:
  assumes "second_aligned v" "second_aligned w" "WType v = WType w" "windowKey j v = windowKey k w"
  shows "j = k \<and> v = w"
proof -
  have "j = k \<and> time_Unix (Start v) = time_Unix (Start w) \<and> time_Unix (End v) = time_Unix (End w)"
    using windowKey_unix [OF _ _ _ _ assms(4)] assms(1,2) by (simp add: second_aligned_def)
  then show ?thesis
    using assms(1-3) by (auto simp: second_aligned_def intro!: window.equality dest: time_Unix_aligned_inj)
qed

text \<open>Windows of one kind whose bounds are whole seconds not before 1970 have different keys for
  different event keys and for different windows, whatever characters the event keys contain.\<close>

theorem window_keys_distinct:
  assumes "second_aligned v" "second_aligned w" "WType v = WType w"
  shows "windowKey j v = windowKey k w \<longleftrightarrow> j = k \<and> v = w"
  using windowKey_inj [OF assms] by auto

theorem window_keys_distinct_witness:
  "let v = \<lparr>Start = 62135596810 * second, End = 62135596820 * second, WType = TumblingWindow\<rparr>;
       w = \<lparr>Start = 62135596820 * second, End = 62135596830 * second, WType = TumblingWindow\<rparr> in
     windowKey ''user-1'' v \<noteq> windowKey ''user-1'' w"
proof -
  let ?v = "\<lparr>Start = 62135596810 * second, End = 62135596820 * second, WType = TumblingWindow\<rparr>"
  let ?w = "\<lparr>Start = 62135596820 * second, End = 62135596830 * second, WType = TumblingWindow\<rparr>"
  have "second_aligned ?v" "second_aligned ?w"
    by (simp_all add: second_aligned_def time_Unix_def unix_epoch_seconds_def)
  from window_keys_distinct [OF this, of "''user-1''" "''user-1''"] show ?thesis
    by (simp add: second_def)
qed

text \<open>Bounds are rounded to seconds in the key, so two consecutive tumbling windows of 100 ms get
  the same key: the operator then accumulates the events of both in the state of the first.\<close>

theorem subsecond_windows_collide:
  "let asg = NewTumblingWindow (100 * millisecond); t = 62135596800 * second;
       v = hd (tw_AssignWindows 0 asg (mk_event k () (t + 150 * millisecond) Map.empty));
       w = hd (tw_AssignWindows 0 asg (mk_event k () (t + 250 * millisecond) Map.empty)) in
     v \<noteq> w \<and> windowKey k v = windowKey k w"
  by (simp add: tw_AssignWindows_def NewTumblingWindow_def gotime time_Truncate_def windowKey_def
      time_Unix_def)

section \<open>The contents of the windows\<close>

definition contents :: "('v, 'a) WindowOperator \<Rightarrow> string \<Rightarrow> 'v event list" where
  "contents op k =
     (case wo_windows op of None \<Rightarrow> [] | Some m \<Rightarrow> (case m k of None \<Rightarrow> [] | Some st \<Rightarrow> ws_Events st))"

text \<open>Every entry is filed under the key of its window, counts its events and holds their
  aggregate.\<close>

definition wo_entry :: "('a option \<Rightarrow> 'v event \<Rightarrow> 'a option \<times> string option) \<Rightarrow> string
    \<Rightarrow> ('v, 'a) WindowState \<Rightarrow> bool" where
  "wo_entry agg k st \<longleftrightarrow>
     (\<exists>ek. k = windowKey ek (ws_Window st)) \<and> ws_Count st = int (length (ws_Events st)) \<and>
     ws_Accumulator st = foldl (\<lambda>a e. fst (agg a e)) None (ws_Events st)"

definition wo_inv :: "('v, 'a) WindowOperator \<Rightarrow> bool" where
  "wo_inv op \<longleftrightarrow> (\<forall>m k st. wo_windows op = Some m \<longrightarrow> m k = Some st \<longrightarrow> wo_entry (wo_aggregate op) k st)"

lemma OnElement_no_purge [simp]: "fst (OnElement t) \<noteq> FireAndPurge"
  by (cases t) auto

lemma OnEventTime_no_purge [simp]: "OnEventTime t wm w \<noteq> FireAndPurge"
  by (cases t) auto

lemma add_to_window_sel [simp]:
  "ws_Events (fst (add_to_window agg e st)) = ws_Events st @ [e]"
  "ws_Window (fst (add_to_window agg e st)) = ws_Window st"
  "snd (add_to_window agg e st) = snd (agg (ws_Accumulator st) e)"
  by (simp_all add: add_to_window_def Let_def case_prod_beta)

lemma wo_entry_add: "wo_entry agg k st \<Longrightarrow> wo_entry agg k (fst (add_to_window agg e st))"
  by (simp add: wo_entry_def add_to_window_def Let_def case_prod_beta)

lemma wo_entry_new: "wo_entry agg (windowKey k w) (new_window_state w)"
  by (auto simp: wo_entry_def new_window_state_def)

lemma process_windows_inv:
  "wo_inv op \<Longrightarrow> wo_inv (fst (process_windows fmt e ws op res))"
proof (induction fmt e ws op res rule: process_windows.induct)
  case (2 fmt e w ws op res)
  show ?case
  proof (cases "wo_windows op")
    case (Some m)
    let ?k = "windowKey (Key e) w"
    let ?st = "case m ?k of None \<Rightarrow> new_window_state w | Some st \<Rightarrow> st"
    let ?r = "add_to_window (wo_aggregate op) e ?st"
    have "wo_entry (wo_aggregate op) ?k (fst ?r)"
      using "2.prems" Some by (auto simp: wo_inv_def split: option.split intro!: wo_entry_add wo_entry_new)
    then have inv1: "wo_inv (op\<lparr>wo_windows := Some (m(?k \<mapsto> fst ?r))\<rparr>)"
      using "2.prems" Some by (auto simp: wo_inv_def)
    then have inv2: "wo_inv (op\<lparr>wo_windows := Some (m(?k \<mapsto> fst ?r)), wo_trigger := tr\<rparr>)" for tr
      by (simp add: wo_inv_def)
    obtain st' err where r: "?r = (st', err)" by force
    obtain rs tr where t: "OnElement (wo_trigger op) = (rs, tr)" by force
    have "rs \<noteq> FireAndPurge" using OnElement_no_purge [of "wo_trigger op"] t by simp
    then show ?thesis
      using "2.IH" [OF Some refl refl r [symmetric] refl _ _ refl] inv1 inv2 [of tr] Some r t
      by (auto simp: Let_def split: option.split)
  qed (use "2.prems" in simp)
qed simp

text \<open>Without aggregation errors \<open>Process\<close> appends the event to the windows it is assigned to and
  leaves the others alone.\<close>

lemma process_windows_contents:
  assumes "\<And>a e. snd (wo_aggregate op a e) = None" "wo_windows op = Some m"
    "distinct (map (windowKey (Key e)) ws)"
  shows "\<exists>op' out. process_windows fmt e ws op res = (op', Inr out) \<and>
     (\<exists>m'. wo_windows op' = Some m') \<and> wo_aggregate op' = wo_aggregate op \<and> wo_assigner op' = wo_assigner op \<and>
     (\<forall>k. contents op' k = contents op k @ (if k \<in> windowKey (Key e) ` set ws then [e] else []))"
  using assms
proof (induction ws arbitrary: op m res)
  case Nil
  then show ?case by simp
next
  case (Cons w ws)
  let ?k = "windowKey (Key e) w"
  let ?st = "case m ?k of None \<Rightarrow> new_window_state w | Some st \<Rightarrow> st"
  obtain rs tr where t: "OnElement (wo_trigger op) = (rs, tr)" by force
  define st' where "st' = fst (add_to_window (wo_aggregate op) e ?st)"
  define op2 where "op2 = op\<lparr>wo_windows := Some (m(?k \<mapsto> st')), wo_trigger := tr\<rparr>"
  have np: "rs \<noteq> FireAndPurge" using OnElement_no_purge [of "wo_trigger op"] t by simp
  have r: "add_to_window (wo_aggregate op) e ?st = (st', None)"
    using Cons.prems(1) by (simp add: st'_def prod_eq_iff)
  have step: "process_windows fmt e (w # ws) op res =
      process_windows fmt e ws op2 (if rs = Fire then res @ [fireWindow fmt ?k st'] else res)"
    using np by (simp add: Cons.prems(2) r t op2_def Let_def)
  have c2: "contents op2 k = contents op k @ (if k = ?k then [e] else [])" for k
    using Cons.prems(2) by (auto simp: contents_def op2_def st'_def new_window_state_def split: option.split)
  have "\<exists>op' out. process_windows fmt e ws op2 (if rs = Fire then res @ [fireWindow fmt ?k st'] else res) =
       (op', Inr out) \<and> (\<exists>m'. wo_windows op' = Some m') \<and> wo_aggregate op' = wo_aggregate op2 \<and>
       wo_assigner op' = wo_assigner op2 \<and>
     (\<forall>k. contents op' k = contents op2 k @ (if k \<in> windowKey (Key e) ` set ws then [e] else []))"
    by (rule Cons.IH) (use Cons.prems in \<open>simp_all add: op2_def\<close>)
  then obtain op' out where op': "process_windows fmt e (w # ws) op res = (op', Inr out)"
      "\<exists>m'. wo_windows op' = Some m'" "wo_aggregate op' = wo_aggregate op2" "wo_assigner op' = wo_assigner op2"
      "\<And>k. contents op' k = contents op2 k @ (if k \<in> windowKey (Key e) ` set ws then [e] else [])"
    unfolding step by blast
  have "?k \<notin> windowKey (Key e) ` set ws" using Cons.prems(3) by simp
  moreover have "wo_aggregate op2 = wo_aggregate op" "wo_assigner op2 = wo_assigner op"
    by (simp_all add: op2_def)
  ultimately show ?case
    using op' by (intro exI [of _ op'] exI [of _ out]) (auto simp: c2 simp del: process_windows.simps)
qed

text \<open>
  The interface between the assigners and the window operator: on the events it is meant for
  (\<open>ok\<close>), the assigner returns each window of a grid that contains the event's time, once, and
  these windows have distinguishable keys.
\<close>

locale window_grid =
  fixes assign :: "'v event \<Rightarrow> window list"
    and ok :: "'v event \<Rightarrow> bool"
    and grid :: "window \<Rightarrow> bool"
    and kind :: WindowType
  assumes assign_iff: "ok e \<Longrightarrow> w \<in> set (assign e) \<longleftrightarrow> grid w \<and> in_window w (EventTime e)"
    and assign_distinct: "ok e \<Longrightarrow> distinct (assign e)"
    and assign_aligned: "ok e \<Longrightarrow> w \<in> set (assign e) \<Longrightarrow> second_aligned w"
    and grid_kind: "grid w \<Longrightarrow> WType w = kind"
begin

lemma keys_distinct: "ok e \<Longrightarrow> distinct (map (windowKey k) (assign e))"
proof -
  assume ok: "ok e"
  have "v = w" if "v \<in> set (assign e)" "w \<in> set (assign e)" "windowKey k v = windowKey k w" for v w
    using windowKey_inj [OF assign_aligned [OF ok that(1)] assign_aligned [OF ok that(2)] _ that(3)]
      that(1,2) assign_iff [OF ok] grid_kind by simp
  then show ?thesis using assign_distinct [OF ok] by (simp add: distinct_map inj_on_def)
qed

lemma key_mem:
  assumes "ok e" "grid w" "second_aligned w"
  shows "windowKey k w \<in> windowKey (Key e) ` set (assign e) \<longleftrightarrow> Key e = k \<and> in_window w (EventTime e)"
  using assms assign_iff assign_aligned grid_kind by (metis (no_types, lifting) imageE image_eqI windowKey_inj)

lemma run_contents:
  assumes "\<And>a e. snd (wo_aggregate op a e) = None" "wo_windows op = Some m"
    and "\<And>e. AssignWindows now (wo_assigner op) e = assign e"
    and "list_all ok es" "grid w" "second_aligned w"
  shows "contents (fold (\<lambda>e op. fst (wo_Process fmt now op e)) es op) (windowKey k w) =
           contents op (windowKey k w) @ filter (\<lambda>e. Key e = k \<and> in_window w (EventTime e)) es"
  using assms
proof (induction es arbitrary: op m)
  case Nil
  then show ?case by simp
next
  case (Cons e es)
  have ok: "ok e" "list_all ok es" using Cons.prems(4) by simp_all
  obtain op' out m' where op': "wo_Process fmt now op e = (op', Inr out)" "wo_windows op' = Some m'"
      "wo_aggregate op' = wo_aggregate op" "wo_assigner op' = wo_assigner op"
      "\<And>k. contents op' k = contents op k @ (if k \<in> windowKey (Key e) ` set (assign e) then [e] else [])"
    using process_windows_contents [OF Cons.prems(1,2) keys_distinct [OF ok(1)], where res = "[]" and fmt = fmt]
    unfolding wo_Process_def Cons.prems(3) by blast
  have "contents (fold (\<lambda>e op. fst (wo_Process fmt now op e)) es op') (windowKey k w) =
      contents op' (windowKey k w) @ filter (\<lambda>e. Key e = k \<and> in_window w (EventTime e)) es"
    by (rule Cons.IH [OF _ op'(2) _ ok(2) Cons.prems(5,6)]) (use Cons.prems op' in simp_all)
  then show ?case using key_mem [OF ok(1) Cons.prems(5,6), of k] by (auto simp: op')
qed

end

definition tw_ok :: "TumblingWindowAssigner \<Rightarrow> 'v event \<Rightarrow> bool" where
  "tw_ok t e \<longleftrightarrow> tw_eventTime t \<and> 0 < tw_size t \<and> 0 \<le> tw_offset t \<and> tw_offset t < tw_size t \<and>
     second dvd tw_size t \<and> second dvd tw_offset t \<and> unix_epoch_seconds * second + tw_size t \<le> EventTime e"

definition tw_grid :: "TumblingWindowAssigner \<Rightarrow> window \<Rightarrow> bool" where
  "tw_grid t w \<longleftrightarrow> WType w = TumblingWindow \<and> tw_size t dvd Start w - tw_offset t \<and> End w = Start w + tw_size t"

definition sw_ok :: "SlidingWindowAssigner \<Rightarrow> 'v event \<Rightarrow> bool" where
  "sw_ok s e \<longleftrightarrow> sw_eventTime s \<and> 0 < sw_slide s \<and> 0 \<le> sw_offset s \<and> sw_offset s < sw_slide s \<and>
     sw_size s \<le> 1001 * sw_slide s \<and> second dvd sw_slide s \<and> second dvd sw_offset s \<and> second dvd sw_size s \<and>
     unix_epoch_seconds * second + sw_size s \<le> EventTime e"

definition sw_grid :: "SlidingWindowAssigner \<Rightarrow> window \<Rightarrow> bool" where
  "sw_grid s w \<longleftrightarrow> (\<exists>k. w = sw_window s (sw_offset s + sw_slide s * k))"

lemma time_Unix_nonneg: "unix_epoch_seconds * second \<le> t \<Longrightarrow> 0 \<le> time_Unix t"
  using zdiv_mono1 [of "unix_epoch_seconds * second" t second] by (simp add: time_Unix_def)

lemma second_aligned_covering:
  assumes "second dvd Start w" "second dvd End w" "in_window w t" "End w = Start w + d"
    "unix_epoch_seconds * second + d \<le> t"
  shows "second_aligned w"
  using assms by (auto simp: second_aligned_def in_window_def intro!: time_Unix_nonneg)

lemma tw_assign_iff:
  assumes "tw_ok t e"
  shows "w \<in> set (tw_AssignWindows now t e) \<longleftrightarrow> tw_grid t w \<and> in_window w (EventTime e)"
proof -
  obtain v where v: "tw_AssignWindows now t e = [v]" "in_window v (EventTime e)" "WType v = TumblingWindow"
    and tile: "\<And>k. in_window \<lparr>Start = tw_offset t + tw_size t * k,
        End = tw_offset t + tw_size t * k + tw_size t, WType = TumblingWindow\<rparr> (EventTime e) \<longleftrightarrow>
        \<lparr>Start = tw_offset t + tw_size t * k, End = tw_offset t + tw_size t * k + tw_size t, WType = TumblingWindow\<rparr> = v"
    using tumbling_tile [of t now e] assms unfolding tw_ok_def Let_def by blast
  have "tw_grid t w \<longleftrightarrow> (\<exists>k. w = \<lparr>Start = tw_offset t + tw_size t * k,
      End = tw_offset t + tw_size t * k + tw_size t, WType = TumblingWindow\<rparr>)"
    by (auto simp: tw_grid_def dvd_def algebra_simps intro!: window.equality)
  moreover have "tw_grid t v"
    using v(1) assms by (auto simp: tw_ok_def tw_AssignWindows_eq Let_def aligned_start_def tw_grid_def)
  ultimately show ?thesis using v tile by auto
qed

interpretation tumbling: window_grid "tw_AssignWindows now t" "tw_ok t" "tw_grid t" TumblingWindow
  for now t
proof
  show "distinct (tw_AssignWindows now t e)" for e :: "'a event"
    by (simp add: tw_AssignWindows_def Let_def)
  show "second_aligned w" if "tw_ok t e" "w \<in> set (tw_AssignWindows now t e)" for e :: "'a event" and w
  proof (rule second_aligned_covering)
    from that have g: "tw_grid t w" "in_window w (EventTime e)" by (simp_all add: tw_assign_iff)
    with that(1) have "second dvd Start w - tw_offset t" by (meson tw_grid_def tw_ok_def dvd_trans)
    with that(1) have "second dvd (Start w - tw_offset t) + tw_offset t"
      unfolding tw_ok_def by (blast intro: dvd_add)
    then show 1: "second dvd Start w" by simp
    show "End w = Start w + tw_size t" using g(1) by (simp add: tw_grid_def)
    with 1 that(1) show "second dvd End w" by (simp add: tw_ok_def)
    show "unix_epoch_seconds * second + tw_size t \<le> EventTime e" using that(1) by (simp add: tw_ok_def)
  qed (use that in \<open>simp add: tw_assign_iff\<close>)
qed (simp_all add: tw_assign_iff tw_grid_def)

lemma sw_assign:
  assumes "sw_ok s e"
  shows "w \<in> set (sw_AssignWindows now s e) \<longleftrightarrow> sw_grid s w \<and> in_window w (EventTime e)"
    and "distinct (sw_AssignWindows now s e)"
proof -
  have all: "(\<forall>w. w \<in> set (sw_AssignWindows now s e) \<longleftrightarrow>
      (\<exists>k. w = sw_window s (sw_offset s + sw_slide s * k) \<and> in_window w (EventTime e))) \<and>
      sorted_wrt (\<lambda>v w. Start w < Start v) (sw_AssignWindows now s e)"
    using sliding_windows [of s now e] assms by (simp add: sw_ok_def)
  then show "w \<in> set (sw_AssignWindows now s e) \<longleftrightarrow> sw_grid s w \<and> in_window w (EventTime e)"
    by (auto simp: sw_grid_def)
  have "distinct ws" if "sorted_wrt (\<lambda>v w. Start w < Start v) ws" for ws
    using that by (induction ws) auto
  with all show "distinct (sw_AssignWindows now s e)" by blast
qed

interpretation sliding: window_grid "sw_AssignWindows now s" "sw_ok s" "sw_grid s" SlidingWindow
  for now s
proof
  show "second_aligned w" if "sw_ok s e" "w \<in> set (sw_AssignWindows now s e)" for e :: "'a event" and w
  proof -
    from that have g: "sw_grid s w" "in_window w (EventTime e)" by (simp_all add: sw_assign(1))
    then obtain k where k: "w = sw_window s (sw_offset s + sw_slide s * k)" by (auto simp: sw_grid_def)
    show ?thesis
      by (rule second_aligned_covering [OF _ _ g(2), where d = "sw_size s"])
        (use that(1) in \<open>simp_all add: k sw_window_def sw_ok_def time_Add_def\<close>)
  qed
qed (auto simp: sw_assign sw_grid_def sw_window_def)

text \<open>C3: A window operator with a sliding assigner on whole seconds (slide, offset and size, at most
  1001 slides per window), any built-in trigger and an aggregate function that does not fail, fed any
  list of events after 1970, holds for every event key and every window of the grid exactly the events
  with that key whose time is in the window, in arrival order.\<close>

theorem window_operator_contents:
  assumes noerr: "\<And>a e. snd (agg a e) = None"
    and ok: "list_all (sw_ok s) es"
    and w: "sw_grid s w" "second_aligned w"
  shows "contents (fold (\<lambda>e op. fst (wo_Process fmt now op e)) es (NewWindowOperator (Sliding s) trig agg))
           (windowKey k w) = filter (\<lambda>e. Key e = k \<and> in_window w (EventTime e)) es"
  using sliding.run_contents [where op = "NewWindowOperator (Sliding s) trig agg" and now = now and s = s
      and m = Map.empty and es = es and w = w and fmt = fmt and k = k] assms
  by (simp add: NewWindowOperator_def contents_def)

theorem window_operator_contents_witness:
  "let s = NewSlidingWindow (10 * second) (5 * second); t = 62135596800 * second;
       e = mk_event ''a'' (1 :: int) (t + 12 * second) Map.empty;
       w = sw_window s (t + 5 * second) in
     contents (fold (\<lambda>e op. fst (wo_Process (\<lambda>_. []) 0 op e)) [e]
       (NewWindowOperator (Sliding s) EventTimeTrigger (\<lambda>a (e :: int event). (Some (0 :: int), None))))
       (windowKey ''a'' w) = [e]"
proof -
  let ?s = "NewSlidingWindow (10 * second) (5 * second)" and ?t = "62135596800 * second"
  let ?e = "mk_event ''a'' (1 :: int) (?t + 12 * second) Map.empty"
  let ?w = "sw_window ?s (?t + 5 * second)"
  have ok: "list_all (sw_ok ?s) [?e]"
    by (simp add: sw_ok_def NewSlidingWindow_def unix_epoch_seconds_def)
  have g: "sw_grid ?s ?w"
    unfolding sw_grid_def by (rule exI [of _ "12427119361"]) (simp add: NewSlidingWindow_def)
  have al: "second_aligned ?w" "in_window ?w (?t + 12 * second)"
    by (simp_all add: second_aligned_def in_window_def sw_window_def NewSlidingWindow_def time_Unix_def
        time_Add_def unix_epoch_seconds_def second_def)
  show ?thesis
    using window_operator_contents [where agg = "\<lambda>a (e :: int event). (Some (0 :: int), None)"
        and trig = EventTimeTrigger and fmt = "\<lambda>_. []" and now = 0 and k = "''a''", OF _ ok g al(1)] al(2)
    by (simp add: Let_def)
qed

text \<open>Whatever events a window operator has processed, with whatever assigner, built-in trigger and
  aggregate function, failing or not: every entry of its table is filed under the key of its window,
  its count is the number of its events, and its accumulator is the fold of the aggregate function
  over them.\<close>

theorem window_operator_invariant:
  "wo_inv (fold (\<lambda>e op. fst (wo_Process fmt now op e)) es (NewWindowOperator asg trig agg))"
proof -
  have "wo_inv op \<Longrightarrow> wo_inv (fold (\<lambda>e op. fst (wo_Process fmt now op e)) es op)" for op
    by (induction es arbitrary: op) (simp_all add: wo_Process_def process_windows_inv)
  moreover have "wo_inv (NewWindowOperator asg trig agg)" by (simp add: wo_inv_def NewWindowOperator_def)
  ultimately show ?thesis .
qed

section \<open>Firing\<close>

lemma watermark_loop_eq:
  "set ks \<subseteq> dom m \<Longrightarrow> watermark_loop fmt wm trig m ks res =
     Some (res @ map (\<lambda>k. fireWindow fmt k (the (m k)))
                   (filter (\<lambda>k. OnEventTime trig wm (ws_Window (the (m k))) = Fire) ks))"
  by (induction ks arbitrary: res) (auto simp: Let_def)

text \<open>With the built-in triggers \<open>OnWatermark\<close> never blocks. With the event-time trigger it emits,
  in visiting order, the result of exactly the windows whose end the watermark has reached, each with
  the window's end as its event time and its accumulator as its value. It leaves the operator as it
  was, so that at every later watermark the same windows fire again.\<close>

theorem watermark_fires_due_windows:
  assumes "wo_windows op = Some m" "range_order ks m" "wo_trigger op = EventTimeTrigger" "wm \<le> wm'"
  shows "\<exists>out out'. wo_OnWatermark fmt wm ks op = Some out \<and> wo_OnWatermark fmt wm' ks op = Some out' \<and>
     out = map (\<lambda>k. fireWindow fmt k (the (m k))) (filter (\<lambda>k. End (ws_Window (the (m k))) \<le> wm) ks) \<and>
     set out \<subseteq> set out' \<and>
     (\<forall>k st. m k = Some st \<longrightarrow> End (ws_Window st) \<le> wm \<longrightarrow> fireWindow fmt k st \<in> set out')"
proof -
  have ks: "set ks = dom m" using assms(2) by (simp add: range_order_def)
  have fire: "OnEventTime EventTimeTrigger u w = Fire \<longleftrightarrow> End w \<le> u" for u w
    by (auto simp: gotime)
  have eq: "wo_OnWatermark fmt u ks op = Some (map (\<lambda>k. fireWindow fmt k (the (m k)))
      (filter (\<lambda>k. End (ws_Window (the (m k))) \<le> u) ks))" for u
    using ks assms(1,3) by (simp add: wo_OnWatermark_def watermark_loop_eq fire del: OnEventTime.simps)
  show ?thesis
    using ks assms(4) by (auto simp: eq intro!: image_eqI)
qed

theorem watermark_fires_due_windows_witness:
  "let st = (new_window_state \<lparr>Start = 0, End = 10, WType = TumblingWindow\<rparr>) :: (int, int) WindowState;
       op = (NewWindowOperator (Tumbling (NewTumblingWindow 10)) EventTimeTrigger (\<lambda>a e. (a, None)))
              \<lparr>wo_windows := Some [''k'' \<mapsto> st]\<rparr> in
     wo_OnWatermark (\<lambda>_. []) 10 [''k''] op = Some [fireWindow (\<lambda>_. []) ''k'' st]"
proof -
  define st :: "(int, int) WindowState" where "st = new_window_state \<lparr>Start = 0, End = 10, WType = TumblingWindow\<rparr>"
  define m where "m = [''k'' \<mapsto> st]"
  define op :: "(int, int) WindowOperator" where
    "op = (NewWindowOperator (Tumbling (NewTumblingWindow 10)) EventTimeTrigger (\<lambda>a e. (a, None)))\<lparr>wo_windows := Some m\<rparr>"
  have "wo_windows op = Some m" "range_order [''k''] m" "wo_trigger op = EventTimeTrigger" "(10 :: int) \<le> 11"
    by (auto simp: op_def NewWindowOperator_def m_def range_order_def)
  from watermark_fires_due_windows [OF this, of "\<lambda>_. []"]
  have "wo_OnWatermark (\<lambda>_. []) 10 [''k''] op =
      Some (map (\<lambda>k. fireWindow (\<lambda>_. []) k (the (m k))) (filter (\<lambda>k. End (ws_Window (the (m k))) \<le> 10) [''k'']))"
    by (elim exE conjE) (simp only:)
  also have "\<dots> = Some [fireWindow (\<lambda>_. []) ''k'' st]"
    by (simp add: m_def st_def new_window_state_def)
  finally show ?thesis by (simp add: op_def m_def st_def Let_def)
qed

text \<open>Elements seen by a count trigger: the results of \<open>n\<close> successive calls of \<open>OnElement\<close>.\<close>

fun on_elements :: "nat \<Rightarrow> Trigger \<Rightarrow> TriggerResult list \<times> Trigger" where
  "on_elements 0 t = ([], t)"
| "on_elements (Suc n) t =
     (let (rs, t') = on_elements n t; (r, t'') = OnElement t' in (rs @ [r], t''))"

text \<open>A count trigger with a positive threshold fires on exactly every threshold-th element that
  reaches it, counted over all keys and windows of the operator together.\<close>

theorem count_trigger_fires_periodically:
  assumes "0 < c"
  shows "on_elements n (NewCountTrigger (int c)) =
           (map (\<lambda>i. if Suc i mod c = 0 then Fire else Continue) [0..<n], CountTrigger (int c) (int (n mod c)))"
proof (induction n)
  case 0
  then show ?case by (simp add: NewCountTrigger_def)
next
  case (Suc n)
  have "n mod c < c" using assms by simp
  then have "OnElement (CountTrigger (int c) (int (n mod c))) =
      (if Suc n mod c = 0 then Fire else Continue, CountTrigger (int c) (int (Suc n mod c)))"
    by (auto simp: mod_Suc)
  with Suc show ?case by simp
qed

theorem count_trigger_fires_periodically_witness:
  "fst (on_elements 4 (NewCountTrigger 2)) = [Continue, Fire, Continue, Fire]"
  using count_trigger_fires_periodically [of 2 4] by (simp add: upt_rec)

end
