(* ===== verification/Circuit_Breakers.thy ===== *)
theory Circuit_Breakers
  imports Stream_Types
begin

text \<open>
  The circuit breaker of \<open>pkg/errors/circuit_breaker.go\<close> and its registry. Counters have the
  widths of the source (\<open>uint32\<close>, \<open>uint64\<close>) and wrap. Every \<open>time.Now()\<close> of an operation is an
  argument of its own. A state-change callback is started in a goroutine; the model records the
  calls that are started in \<open>cb_callbacks\<close>. \<open>CircuitState\<close> is only ever assigned its three named
  values, so the \<open>default\<close> branches of the switches have no counterpart.
\<close>

section \<open>State and operations\<close>

datatype CircuitState = StateClosed | StateOpen | StateHalfOpen

fun CircuitState_String :: "CircuitState \<Rightarrow> string" where
  "CircuitState_String StateClosed = ''closed''"
| "CircuitState_String StateOpen = ''open''"
| "CircuitState_String StateHalfOpen = ''half-open''"

record CircuitBreakerConfig =
  cfg_Name :: string
  FailureThreshold :: u32
  SuccessThreshold :: u32
  cfg_Timeout :: duration
  MaxConcurrentRequests :: u32
  has_OnStateChange :: bool

definition DefaultCircuitBreakerConfig :: "string \<Rightarrow> CircuitBreakerConfig" where
  "DefaultCircuitBreakerConfig name =
     \<lparr>cfg_Name = name, FailureThreshold = 5, SuccessThreshold = 2, cfg_Timeout = 60 * second,
      MaxConcurrentRequests = 1, has_OnStateChange = False\<rparr>"

record CircuitBreaker =
  cb_config :: CircuitBreakerConfig
  cb_state :: CircuitState
  failureCount :: u32
  successCount :: u32
  lastFailureTime :: gtime
  lastStateChange :: gtime
  halfOpenRequests :: u32
  totalRequests :: u64
  totalFailures :: u64
  totalSuccesses :: u64
  cb_callbacks :: "(string \<times> CircuitState \<times> CircuitState) list"

definition NewCircuitBreaker :: "gtime \<Rightarrow> CircuitBreakerConfig \<Rightarrow> CircuitBreaker" where
  "NewCircuitBreaker now config =
     \<lparr>cb_config = config, cb_state = StateClosed, failureCount = 0, successCount = 0,
      lastFailureTime = zero_time, lastStateChange = now, halfOpenRequests = 0,
      totalRequests = 0, totalFailures = 0, totalSuccesses = 0, cb_callbacks = []\<rparr>"

datatype cb_error = ErrCircuitOpen string gtime | ErrTooManyRequests string

definition setState :: "gtime \<Rightarrow> CircuitState \<Rightarrow> CircuitBreaker \<Rightarrow> CircuitBreaker" where
  "setState now newState cb =
     cb\<lparr>cb_state := newState, lastStateChange := now,
        cb_callbacks := cb_callbacks cb @
          (if has_OnStateChange (cb_config cb) \<and> cb_state cb \<noteq> newState
           then [(cfg_Name (cb_config cb), cb_state cb, newState)] else [])\<rparr>"

definition beforeRequest :: "gtime \<Rightarrow> gtime \<Rightarrow> CircuitBreaker \<Rightarrow> CircuitBreaker \<times> cb_error option" where
  "beforeRequest now now' cb0 =
     (let cb = cb0\<lparr>totalRequests := totalRequests cb0 + 1\<rparr> in
      case cb_state cb of
        StateClosed \<Rightarrow> (cb, None)
      | StateOpen \<Rightarrow>
          if time_Sub now (lastFailureTime cb) > cfg_Timeout (cb_config cb)
          then ((setState now' StateHalfOpen cb)\<lparr>halfOpenRequests := 1\<rparr>, None)
          else (cb, Some (ErrCircuitOpen (cfg_Name (cb_config cb)) (lastFailureTime cb)))
      | StateHalfOpen \<Rightarrow>
          if halfOpenRequests cb \<ge> MaxConcurrentRequests (cb_config cb)
          then (cb, Some (ErrTooManyRequests (cfg_Name (cb_config cb))))
          else (cb\<lparr>halfOpenRequests := halfOpenRequests cb + 1\<rparr>, None))"

definition onSuccess :: "gtime \<Rightarrow> CircuitBreaker \<Rightarrow> CircuitBreaker" where
  "onSuccess now cb0 =
     (let cb = cb0\<lparr>totalSuccesses := totalSuccesses cb0 + 1\<rparr> in
      case cb_state cb of
        StateClosed \<Rightarrow> cb\<lparr>failureCount := 0\<rparr>
      | StateOpen \<Rightarrow> cb
      | StateHalfOpen \<Rightarrow>
          (let cb1 = cb\<lparr>successCount := successCount cb + 1\<rparr> in
           if successCount cb1 \<ge> SuccessThreshold (cb_config cb1)
           then (setState now StateClosed cb1)\<lparr>failureCount := 0, successCount := 0, halfOpenRequests := 0\<rparr>
           else if halfOpenRequests cb1 > 0
           then cb1\<lparr>halfOpenRequests := halfOpenRequests cb1 - 1\<rparr>
           else cb1))"

definition onFailure :: "gtime \<Rightarrow> gtime \<Rightarrow> CircuitBreaker \<Rightarrow> CircuitBreaker" where
  "onFailure now now' cb0 =
     (let cb = cb0\<lparr>totalFailures := totalFailures cb0 + 1, lastFailureTime := now\<rparr> in
      case cb_state cb of
        StateClosed \<Rightarrow>
          (let cb1 = cb\<lparr>failureCount := failureCount cb + 1\<rparr> in
           if failureCount cb1 \<ge> FailureThreshold (cb_config cb1)
           then (setState now' StateOpen cb1)\<lparr>successCount := 0\<rparr>
           else cb1)
      | StateOpen \<Rightarrow> cb
      | StateHalfOpen \<Rightarrow> (setState now' StateOpen cb)\<lparr>successCount := 0, halfOpenRequests := 0\<rparr>)"

definition afterRequest :: "gtime \<Rightarrow> gtime \<Rightarrow> 'e option \<Rightarrow> CircuitBreaker \<Rightarrow> CircuitBreaker" where
  "afterRequest now now' err cb = (case err of None \<Rightarrow> onSuccess now' cb | Some _ \<Rightarrow> onFailure now now' cb)"

text \<open>\<open>Execute\<close> for an operation that returns \<open>err\<close>: the refusal of the breaker, or the operation's
  own result. The four clock readings are those before and after the operation.\<close>

definition cb_Execute ::
    "gtime \<Rightarrow> gtime \<Rightarrow> gtime \<Rightarrow> gtime \<Rightarrow> 'e option \<Rightarrow> CircuitBreaker \<Rightarrow> CircuitBreaker \<times> (cb_error + 'e option)" where
  "cb_Execute t1 t2 t3 t4 err cb =
     (case beforeRequest t1 t2 cb of
        (cb', Some e) \<Rightarrow> (cb', Inl e)
      | (cb', None) \<Rightarrow> (afterRequest t3 t4 err cb', Inr err))"

definition State :: "CircuitBreaker \<Rightarrow> CircuitState" where
  "State cb = cb_state cb"

record CircuitBreakerStats =
  st_Name :: string
  st_State :: CircuitState
  st_FailureCount :: u32
  st_SuccessCount :: u32
  st_TotalRequests :: u64
  st_TotalFailures :: u64
  st_TotalSuccesses :: u64
  st_LastStateChange :: gtime
  st_LastFailureTime :: gtime

definition Stats :: "CircuitBreaker \<Rightarrow> CircuitBreakerStats" where
  "Stats cb =
     \<lparr>st_Name = cfg_Name (cb_config cb), st_State = cb_state cb, st_FailureCount = failureCount cb,
      st_SuccessCount = successCount cb, st_TotalRequests = totalRequests cb,
      st_TotalFailures = totalFailures cb, st_TotalSuccesses = totalSuccesses cb,
      st_LastStateChange = lastStateChange cb, st_LastFailureTime = lastFailureTime cb\<rparr>"

definition cb_Reset :: "gtime \<Rightarrow> CircuitBreaker \<Rightarrow> CircuitBreaker" where
  "cb_Reset now cb =
     cb\<lparr>cb_state := StateClosed, failureCount := 0, successCount := 0, halfOpenRequests := 0,
        lastStateChange := now,
        cb_callbacks := cb_callbacks cb @
          (if has_OnStateChange (cb_config cb) \<and> cb_state cb \<noteq> StateClosed
           then [(cfg_Name (cb_config cb), cb_state cb, StateClosed)] else [])\<rparr>"

definition IsAvailable :: "gtime \<Rightarrow> CircuitBreaker \<Rightarrow> bool" where
  "IsAvailable now cb =
     (case cb_state cb of
        StateClosed \<Rightarrow> True
      | StateHalfOpen \<Rightarrow> halfOpenRequests cb < MaxConcurrentRequests (cb_config cb)
      | StateOpen \<Rightarrow> time_Sub now (lastFailureTime cb) > cfg_Timeout (cb_config cb))"

text \<open>The registry maps names to breakers. \<open>GetOrCreate\<close> looks the name up again under the write
  lock; between the two lookups another goroutine may have created the breaker, so the registry that
  the second lookup sees is an argument.\<close>

type_synonym CircuitBreakerRegistry = "string \<rightharpoonup> CircuitBreaker"

definition NewCircuitBreakerRegistry :: CircuitBreakerRegistry where
  "NewCircuitBreakerRegistry = Map.empty"

definition create_breaker ::
    "gtime \<Rightarrow> string \<Rightarrow> CircuitBreakerConfig option \<Rightarrow> CircuitBreaker" where
  "create_breaker now name config =
     NewCircuitBreaker now
       (case config of None \<Rightarrow> DefaultCircuitBreakerConfig name | Some c \<Rightarrow> c\<lparr>cfg_Name := name\<rparr>)"

definition GetOrCreate ::
    "gtime \<Rightarrow> CircuitBreakerRegistry \<Rightarrow> CircuitBreakerRegistry \<Rightarrow> string \<Rightarrow> CircuitBreakerConfig option
      \<Rightarrow> CircuitBreakerRegistry \<times> CircuitBreaker" where
  "GetOrCreate now r r' name config =
     (case r name of
        Some cb \<Rightarrow> (r, cb)
      | None \<Rightarrow>
          (case r' name of
             Some cb \<Rightarrow> (r', cb)
           | None \<Rightarrow> (let cb = create_breaker now name config in (r'(name \<mapsto> cb), cb))))"

definition reg_Get :: "CircuitBreakerRegistry \<Rightarrow> string \<Rightarrow> CircuitBreaker option" where
  "reg_Get r name = r name"

definition reg_All :: "CircuitBreakerRegistry \<Rightarrow> CircuitBreakerRegistry" where
  "reg_All r = (\<lambda>k. r k)"

definition reg_Reset :: "(string \<Rightarrow> gtime) \<Rightarrow> CircuitBreakerRegistry \<Rightarrow> CircuitBreakerRegistry" where
  "reg_Reset now r = (\<lambda>k. map_option (cb_Reset (now k)) (r k))"

section \<open>The invariant of concurrent runs\<close>

text \<open>
  Requests run concurrently: \<open>beforeRequest\<close> and \<open>afterRequest\<close> each hold the lock, the operation
  between them does not. A step admits or refuses a request, finishes one that is in flight, or
  resets the breaker; the state carries the numbers of requests in flight and refused.
\<close>

record cb_sys =
  breaker :: CircuitBreaker
  inflight :: nat
  refused :: nat

inductive cb_step :: "cb_sys \<Rightarrow> cb_sys \<Rightarrow> bool" where
  admit: "beforeRequest t t' (breaker s) = (cb, None) \<Longrightarrow>
     cb_step s (s\<lparr>breaker := cb, inflight := Suc (inflight s)\<rparr>)"
| refuse: "beforeRequest t t' (breaker s) = (cb, Some e) \<Longrightarrow>
     cb_step s (s\<lparr>breaker := cb, refused := Suc (refused s)\<rparr>)"
| finish: "inflight s = Suc n \<Longrightarrow>
     cb_step s (s\<lparr>breaker := afterRequest t t' (err :: unit option) (breaker s), inflight := n\<rparr>)"
| reset: "cb_step s (s\<lparr>breaker := cb_Reset t (breaker s)\<rparr>)"

inductive_cases cb_stepE: "cb_step s t"

definition cb_init :: "CircuitBreakerConfig \<Rightarrow> cb_sys \<Rightarrow> bool" where
  "cb_init cfg s \<longleftrightarrow> inflight s = 0 \<and> refused s = 0 \<and> 0 < FailureThreshold cfg \<and> 0 < SuccessThreshold cfg \<and>
     (\<exists>now. breaker s = NewCircuitBreaker now cfg)"

definition cb_counts :: "CircuitBreaker \<Rightarrow> bool" where
  "cb_counts cb \<longleftrightarrow>
     (case cb_state cb of
        StateClosed \<Rightarrow> failureCount cb < FailureThreshold (cb_config cb) \<and> successCount cb = 0 \<and>
                       halfOpenRequests cb = 0
      | StateOpen \<Rightarrow> successCount cb = 0 \<and> halfOpenRequests cb = 0
      | StateHalfOpen \<Rightarrow> successCount cb < SuccessThreshold (cb_config cb) \<and>
                       halfOpenRequests cb \<le> max 1 (MaxConcurrentRequests (cb_config cb)))"

definition cb_inv :: "CircuitBreakerConfig \<Rightarrow> cb_sys \<Rightarrow> bool" where
  "cb_inv cfg s \<longleftrightarrow> cb_config (breaker s) = cfg \<and> 0 < FailureThreshold cfg \<and> 0 < SuccessThreshold cfg \<and>
     cb_counts (breaker s) \<and>
     totalRequests (breaker s) =
       totalSuccesses (breaker s) + totalFailures (breaker s) + of_nat (inflight s) + of_nat (refused s)"

lemma setState_sel [simp]:
  "cb_config (setState now st cb) = cb_config cb" "cb_state (setState now st cb) = st"
  "failureCount (setState now st cb) = failureCount cb" "successCount (setState now st cb) = successCount cb"
  "halfOpenRequests (setState now st cb) = halfOpenRequests cb"
  "lastFailureTime (setState now st cb) = lastFailureTime cb"
  "totalRequests (setState now st cb) = totalRequests cb" "totalFailures (setState now st cb) = totalFailures cb"
  "totalSuccesses (setState now st cb) = totalSuccesses cb"
  by (simp_all add: setState_def)

lemmas cb_ops = beforeRequest_def onSuccess_def onFailure_def afterRequest_def cb_Reset_def

lemma word_inc_le: "(x :: 'a :: len word) < y \<Longrightarrow> x + 1 \<le> y"
  by (metis add.commute inc_le)

lemma word_dec_le: "0 < (x :: 'a :: len word) \<Longrightarrow> x - 1 \<le> x"
  by (simp add: word_le_nat_alt unat_minus_one word_neq_0_conv)

lemma beforeRequest_counts:
  "cb_counts cb \<Longrightarrow> 0 < SuccessThreshold (cb_config cb) \<Longrightarrow> cb_counts (fst (beforeRequest t t' cb))"
  by (auto simp: cb_counts_def beforeRequest_def Let_def not_le intro: word_inc_le max.coboundedI2
      split: CircuitState.splits)

lemma onSuccess_counts:
  assumes "cb_counts cb" "0 < FailureThreshold (cb_config cb)"
  shows "cb_counts (onSuccess t cb)"
proof -
  have "halfOpenRequests cb - 1 \<le> max 1 m" if "0 < halfOpenRequests cb" "halfOpenRequests cb \<le> max 1 m" for m
    using word_dec_le [OF that(1)] that(2) by (rule order.trans)
  with assms show ?thesis
    by (auto simp: cb_counts_def onSuccess_def Let_def not_le split: CircuitState.splits)
qed

lemma onFailure_counts: "cb_counts cb \<Longrightarrow> cb_counts (onFailure t t' cb)"
  by (auto simp: cb_counts_def onFailure_def Let_def not_le split: CircuitState.splits)

lemma cb_Reset_counts: "0 < FailureThreshold (cb_config cb) \<Longrightarrow> cb_counts (cb_Reset t cb)"
  by (simp add: cb_counts_def cb_Reset_def)

lemma cb_ops_frame [simp]:
  "cb_config (fst (beforeRequest t t' cb)) = cb_config cb"
  "cb_config (onSuccess t cb) = cb_config cb" "cb_config (onFailure t t' cb) = cb_config cb"
  "cb_config (cb_Reset t cb) = cb_config cb"
  "totalRequests (fst (beforeRequest t t' cb)) = totalRequests cb + 1"
  "totalSuccesses (fst (beforeRequest t t' cb)) = totalSuccesses cb"
  "totalFailures (fst (beforeRequest t t' cb)) = totalFailures cb"
  "totalRequests (onSuccess t cb) = totalRequests cb"
  "totalSuccesses (onSuccess t cb) = totalSuccesses cb + 1" "totalFailures (onSuccess t cb) = totalFailures cb"
  "totalRequests (onFailure t t' cb) = totalRequests cb" "totalSuccesses (onFailure t t' cb) = totalSuccesses cb"
  "totalFailures (onFailure t t' cb) = totalFailures cb + 1"
  "totalRequests (cb_Reset t cb) = totalRequests cb" "totalSuccesses (cb_Reset t cb) = totalSuccesses cb"
  "totalFailures (cb_Reset t cb) = totalFailures cb"
  by (simp_all add: cb_ops Let_def split: CircuitState.split)

lemma cb_inv_step:
  assumes inv: "cb_inv cfg s" and step: "cb_step s u"
  shows "cb_inv cfg u"
  using step
proof (cases rule: cb_step.cases)
  case (admit t t' cb)
  then have "cb = fst (beforeRequest t t' (breaker s))" by simp
  then show ?thesis
    using inv admit(1) by (simp add: cb_inv_def beforeRequest_counts)
next
  case (refuse t t' cb e)
  then have "cb = fst (beforeRequest t t' (breaker s))" by simp
  then show ?thesis
    using inv refuse(1) by (simp add: cb_inv_def beforeRequest_counts)
next
  case (finish n t t' err)
  then show ?thesis
    using inv by (cases err) (simp_all add: cb_inv_def afterRequest_def onSuccess_counts onFailure_counts)
next
  case (reset t)
  then show ?thesis using inv by (simp add: cb_inv_def cb_Reset_counts)
qed

interpretation cbs: stepping "cb_init cfg" cb_step "cb_inv cfg" for cfg
proof
  show "cb_inv cfg s" if "cb_init cfg s" for s
    using that by (auto simp: cb_init_def cb_inv_def cb_counts_def NewCircuitBreaker_def)
  show "cb_inv cfg t" if "cb_inv cfg s" "cb_step s t" for s t
    using that by (rule cb_inv_step)
qed

text \<open>C6: In every reachable state of a breaker with positive thresholds, whatever the interleaving of
  requests, results, refusals and resets: a closed breaker has counted fewer failures than its
  threshold, a half-open one fewer successes than its threshold and admits at most the larger of 1 and
  \<open>MaxConcurrentRequests\<close>, no probe is counted outside half-open, and every request counted is a
  success, a failure, refused, or still in flight (modulo \<open>2^64\<close>).\<close>

theorem breaker_invariant:
  assumes "reach (cb_init cfg) cb_step s"
  shows "let cb = breaker s in
     (State cb = StateClosed \<longrightarrow> failureCount cb < FailureThreshold cfg) \<and>
     (State cb = StateHalfOpen \<longrightarrow> successCount cb < SuccessThreshold cfg \<and>
        halfOpenRequests cb \<le> max 1 (MaxConcurrentRequests cfg)) \<and>
     (State cb \<noteq> StateHalfOpen \<longrightarrow> halfOpenRequests cb = 0 \<and> successCount cb = 0) \<and>
     totalRequests cb = totalSuccesses cb + totalFailures cb + of_nat (inflight s) + of_nat (refused s)"
  using cbs.inv_reach [OF assms]
  by (auto simp: cb_inv_def cb_counts_def State_def Let_def split: CircuitState.splits)

theorem breaker_invariant_witness:
  "let cfg = DefaultCircuitBreakerConfig ''db''; cb = fst (beforeRequest 5 5 (NewCircuitBreaker 0 cfg)) in
     totalRequests cb = totalSuccesses cb + totalFailures cb + of_nat 1 + of_nat 0"
proof -
  let ?cfg = "DefaultCircuitBreakerConfig ''db''"
  let ?s = "\<lparr>breaker = NewCircuitBreaker 0 ?cfg, inflight = 0, refused = 0\<rparr>"
  let ?cb = "fst (beforeRequest 5 5 (NewCircuitBreaker 0 ?cfg))"
  have "reach (cb_init ?cfg) cb_step ?s"
    by (rule reach.start) (auto simp: cb_init_def DefaultCircuitBreakerConfig_def)
  moreover have "beforeRequest 5 5 (breaker ?s) = (?cb, None)"
    by (simp add: beforeRequest_def NewCircuitBreaker_def)
  then have "cb_step ?s (?s\<lparr>breaker := ?cb, inflight := Suc (inflight ?s)\<rparr>)" by (rule cb_step.admit)
  ultimately have "reach (cb_init ?cfg) cb_step (?s\<lparr>breaker := ?cb, inflight := Suc (inflight ?s)\<rparr>)"
    by (rule reach.next_step)
  from breaker_invariant [OF this] show ?thesis by (simp add: Let_def)
qed

section \<open>Tripping, refusing and recovering\<close>

text \<open>\<open>n\<close> calls of \<open>Execute\<close> one after another whose operations all fail; \<open>clock i\<close> is the time of the
  \<open>i\<close>-th call.\<close>

fun fail_n :: "(nat \<Rightarrow> gtime) \<Rightarrow> nat \<Rightarrow> CircuitBreaker \<Rightarrow> CircuitBreaker" where
  "fail_n clock 0 cb = cb"
| "fail_n clock (Suc n) cb =
     fst (cb_Execute (clock n) (clock n) (clock n) (clock n) (Some ()) (fail_n clock n cb))"

lemma fail_n_closed:
  assumes "cb_state cb = StateClosed" "failureCount cb = 0"
  shows "n < unat (FailureThreshold (cb_config cb)) \<Longrightarrow>
    cb_state (fail_n clock n cb) = StateClosed \<and> failureCount (fail_n clock n cb) = of_nat n \<and>
    cb_config (fail_n clock n cb) = cb_config cb"
proof (induction n)
  case 0
  then show ?case using assms by simp
next
  case (Suc n)
  then have IH: "cb_state (fail_n clock n cb) = StateClosed" "failureCount (fail_n clock n cb) = of_nat n"
    "cb_config (fail_n clock n cb) = cb_config cb" by simp_all
  have "Suc n < 2 ^ 32"
    using Suc.prems unsigned_less [of "FailureThreshold (cb_config cb)", where ?'a = nat] by simp
  then have "unat (of_nat (Suc n) :: u32) = Suc n" by (rule unat_of_nat_u32)
  then have "(of_nat (Suc n) :: u32) < FailureThreshold (cb_config cb)"
    using Suc.prems by (simp only: word_less_nat_alt)
  then show ?case
    using IH by (simp add: cb_Execute_def beforeRequest_def afterRequest_def onFailure_def Let_def add.commute not_le)
qed

lemma fail_n_trips:
  assumes "cb_state cb = StateClosed" "failureCount cb = 0" "0 < FailureThreshold (cb_config cb)"
  shows "cb_state (fail_n clock (unat (FailureThreshold (cb_config cb))) cb) = StateOpen \<and>
    successCount (fail_n clock (unat (FailureThreshold (cb_config cb))) cb) = 0 \<and>
    lastFailureTime (fail_n clock (unat (FailureThreshold (cb_config cb))) cb)
      = clock (unat (FailureThreshold (cb_config cb)) - 1) \<and>
    cb_config (fail_n clock (unat (FailureThreshold (cb_config cb))) cb) = cb_config cb"
proof -
  let ?T = "FailureThreshold (cb_config cb)"
  obtain n where n: "unat ?T = Suc n" using assms(3) by (metis word_less_nat_alt unat_0 gr0_conv_Suc)
  then have "n < unat ?T" by simp
  note c = fail_n_closed [OF assms(1,2) this, of clock]
  have "(of_nat n + 1 :: u32) = ?T" using n by (metis add.commute of_nat_Suc of_nat_unat ucast_id)
  then show ?thesis
    using c by (simp add: n cb_Execute_def beforeRequest_def afterRequest_def onFailure_def Let_def)
qed

text \<open>A new breaker stays closed through fewer consecutive failures than its threshold, and the
  failure that reaches the threshold opens it; from then on, until more than \<open>Timeout\<close> has passed since
  that failure, \<open>Execute\<close> refuses every request with \<open>ErrCircuitOpen\<close>, runs no operation and leaves the
  breaker open.\<close>

theorem breaker_trips_and_refuses:
  fixes cfg now clock
  defines "T \<equiv> unat (FailureThreshold cfg)"
  assumes "0 < FailureThreshold cfg" "min_duration \<le> cfg_Timeout cfg" "cfg_Timeout cfg < max_duration"
    and "t1 - clock (T - 1) \<le> cfg_Timeout cfg"
  shows "(\<forall>n < T. State (fail_n clock n (NewCircuitBreaker now cfg)) = StateClosed) \<and>
     (let cb = fail_n clock T (NewCircuitBreaker now cfg); r = cb_Execute t1 t2 t3 t4 err cb in
        State cb = StateOpen \<and> snd r = Inl (ErrCircuitOpen (cfg_Name cfg) (clock (T - 1))) \<and>
        State (fst r) = StateOpen \<and> totalFailures (fst r) = totalFailures cb \<and>
        totalSuccesses (fst r) = totalSuccesses cb)"
proof -
  let ?cb = "NewCircuitBreaker now cfg"
  have new: "cb_state ?cb = StateClosed" "failureCount ?cb = 0" "cb_config ?cb = cfg"
    by (simp_all add: NewCircuitBreaker_def)
  have "State (fail_n clock n ?cb) = StateClosed" if "n < T" for n
    using fail_n_closed [OF new(1,2), of n clock] that by (simp add: new T_def State_def)
  moreover have cb: "cb_state (fail_n clock T ?cb) = StateOpen" "cb_config (fail_n clock T ?cb) = cfg"
      "lastFailureTime (fail_n clock T ?cb) = clock (T - 1)"
    using fail_n_trips [OF new(1,2), of clock] assms(2) by (simp_all add: new T_def)
  moreover have "\<not> cfg_Timeout cfg < time_Sub t1 (clock (T - 1))"
    using assms(3-5) time_Sub_greater [of "cfg_Timeout cfg" t1] by simp
  then have "cb_Execute t1 t2 t3 t4 err (fail_n clock T ?cb) =
      ((fail_n clock T ?cb)\<lparr>totalRequests := totalRequests (fail_n clock T ?cb) + 1\<rparr>,
       Inl (ErrCircuitOpen (cfg_Name cfg) (clock (T - 1))))"
    by (simp add: cb_Execute_def beforeRequest_def cb Let_def)
  ultimately show ?thesis by (simp add: State_def Let_def)
qed

theorem breaker_trips_and_refuses_witness:
  "let cfg = DefaultCircuitBreakerConfig ''db'';
       cb = fail_n (\<lambda>i. int i * second) 5 (NewCircuitBreaker 0 cfg) in
     snd (cb_Execute (50 * second) 0 0 0 (None :: unit option) cb) = Inl (ErrCircuitOpen ''db'' (4 * second))"
  using breaker_trips_and_refuses [of "DefaultCircuitBreakerConfig ''db''" "50 * second"
      "\<lambda>i. int i * second" 0 0 0 0 "None :: unit option"]
  by (simp add: DefaultCircuitBreakerConfig_def min_duration_def max_duration_def second_def Let_def)

text \<open>\<open>IsAvailable\<close> answers exactly whether a request made at that moment would be admitted, and a
  refused request changes nothing but the request counter.\<close>

theorem availability_agrees:
  "(IsAvailable t cb \<longleftrightarrow> snd (beforeRequest t t' cb) = None) \<and>
   (IsAvailable t cb \<or> fst (beforeRequest t t' cb) = cb\<lparr>totalRequests := totalRequests cb + 1\<rparr>)"
  by (auto simp: IsAvailable_def beforeRequest_def Let_def not_le split: CircuitState.splits)

text \<open>\<open>n\<close> successful calls of \<open>Execute\<close> one after another.\<close>

fun succeed_n :: "gtime \<Rightarrow> nat \<Rightarrow> CircuitBreaker \<Rightarrow> CircuitBreaker" where
  "succeed_n t 0 cb = cb"
| "succeed_n t (Suc n) cb = fst (cb_Execute t t t t (None :: unit option) (succeed_n t n cb))"

lemma half_open_success:
  assumes "cb_state cb = StateHalfOpen" "halfOpenRequests cb = 0" "0 < MaxConcurrentRequests (cb_config cb)"
    "successCount cb < SuccessThreshold (cb_config cb)"
  shows "let cb' = fst (cb_Execute t t t t (None :: unit option) cb) in
    cb_config cb' = cb_config cb \<and>
    (if successCount cb + 1 = SuccessThreshold (cb_config cb)
     then cb_state cb' = StateClosed \<and> failureCount cb' = 0
     else cb_state cb' = StateHalfOpen \<and> halfOpenRequests cb' = 0 \<and> successCount cb' = successCount cb + 1)"
proof -
  have "SuccessThreshold (cb_config cb) \<le> successCount cb + 1 \<longleftrightarrow> successCount cb + 1 = SuccessThreshold (cb_config cb)"
    using word_inc_le [OF assms(4)] by auto
  with assms show ?thesis
    by (auto simp: cb_Execute_def beforeRequest_def afterRequest_def onSuccess_def Let_def not_le)
qed

text \<open>After the timeout an open breaker admits one probe. If it and the following calls succeed, one
  after another, the breaker closes with its failure count cleared exactly at the success that reaches
  \<open>SuccessThreshold\<close>; before that, it stays half-open. If the probe fails, it is open again.\<close>

theorem breaker_recovers:
  assumes "cb_state cb = StateOpen" "successCount cb = 0"
    and "0 < SuccessThreshold (cb_config cb)" "0 < MaxConcurrentRequests (cb_config cb)"
    and "cfg_Timeout (cb_config cb) < time_Sub t (lastFailureTime cb)"
  shows "(\<forall>n. 0 < n \<and> n \<le> unat (SuccessThreshold (cb_config cb)) \<longrightarrow>
            State (succeed_n t n cb) = (if n = unat (SuccessThreshold (cb_config cb)) then StateClosed else StateHalfOpen)) \<and>
         failureCount (succeed_n t (unat (SuccessThreshold (cb_config cb))) cb) = 0 \<and>
         State (fst (cb_Execute t t t t (Some ()) cb)) = StateOpen"
proof -
  let ?T = "SuccessThreshold (cb_config cb)"
  define P where "P n \<longleftrightarrow> cb_config (succeed_n t n cb) = cb_config cb \<and>
    (if n = unat ?T then cb_state (succeed_n t n cb) = StateClosed \<and> failureCount (succeed_n t n cb) = 0
     else cb_state (succeed_n t n cb) = StateHalfOpen \<and> halfOpenRequests (succeed_n t n cb) = 0 \<and>
       successCount (succeed_n t n cb) = of_nat n)" for n
  have reach_T: "(of_nat n + 1 = ?T) = (Suc n = unat ?T)" if "Suc n \<le> unat ?T" for n
  proof -
    have "Suc n < 2 ^ 32" using that unsigned_less [of ?T, where ?'a = nat] by simp
    then have "unat (of_nat (Suc n) :: u32) = Suc n" by (rule unat_of_nat_u32)
    then show ?thesis by (metis add.commute of_nat_Suc word_unat_eq_iff)
  qed
  have first: "P (Suc 0)"
  proof -
    have one: "?T \<le> 1 \<longleftrightarrow> ?T = 1" using word_inc_le [OF assms(3)] by auto
    have iff: "Suc 0 = unat ?T \<longleftrightarrow> ?T = 1"
      using reach_T [of 0] assms(3) by (auto simp: word_less_nat_alt)
    show ?thesis
      unfolding P_def iff using assms(1,2,5) one
      by (simp add: cb_Execute_def beforeRequest_def afterRequest_def onSuccess_def Let_def)
  qed
  have nxt: "P (Suc n)" if "P n" "0 < n" "Suc n \<le> unat ?T" for n
  proof -
    have ho: "cb_state (succeed_n t n cb) = StateHalfOpen" "halfOpenRequests (succeed_n t n cb) = 0"
      "successCount (succeed_n t n cb) = of_nat n" "cb_config (succeed_n t n cb) = cb_config cb"
      using that by (auto simp: P_def)
    have "unat (of_nat n :: u32) = n"
      using that unsigned_less [of ?T, where ?'a = nat] by (simp add: unat_of_nat)
    then have "(of_nat n :: u32) < ?T" using that(3) by (simp add: word_less_nat_alt)
    with ho half_open_success [of "succeed_n t n cb" t] assms(4) show ?thesis
      unfolding P_def reach_T [OF that(3), symmetric] by (simp add: Let_def add.commute split: if_splits)
  qed
  have P: "P n" if "0 < n" "n \<le> unat ?T" for n
    using that
  proof (induction n)
    case (Suc n)
    then show ?case using first nxt by (cases "n = 0") auto
  qed simp
  moreover have "0 < unat ?T" using assms(3) by (simp add: word_less_nat_alt)
  moreover have "State (fst (cb_Execute t t t t (Some ()) cb)) = StateOpen"
    using assms by (simp add: State_def cb_Execute_def beforeRequest_def afterRequest_def onFailure_def Let_def)
  ultimately show ?thesis by (auto simp: P_def State_def)
qed

theorem breaker_recovers_witness:
  "let cfg = DefaultCircuitBreakerConfig ''db'';
       cb = fail_n (\<lambda>i. int i * second) 5 (NewCircuitBreaker 0 cfg) in
     State (succeed_n (100 * second) 1 cb) = StateHalfOpen \<and> State (succeed_n (100 * second) 2 cb) = StateClosed"
proof -
  let ?cfg = "DefaultCircuitBreakerConfig ''db''"
  let ?cb = "fail_n (\<lambda>i. int i * second) 5 (NewCircuitBreaker 0 ?cfg)"
  have cb: "cb_state ?cb = StateOpen" "lastFailureTime ?cb = 4 * second" "cb_config ?cb = ?cfg" "successCount ?cb = 0"
    using fail_n_trips [of "NewCircuitBreaker 0 ?cfg" "\<lambda>i. int i * second"]
    by (simp_all add: NewCircuitBreaker_def DefaultCircuitBreakerConfig_def)
  have cfg: "SuccessThreshold ?cfg = 2" "MaxConcurrentRequests ?cfg = 1" "cfg_Timeout ?cfg = 60 * second"
    by (simp_all add: DefaultCircuitBreakerConfig_def)
  have "60 * second < time_Sub (100 * second) (4 * second)"
    by (simp add: time_Sub_def min_duration_def max_duration_def second_def)
  then have "\<forall>n. 0 < n \<and> n \<le> 2 \<longrightarrow>
      State (succeed_n (100 * second) n ?cb) = (if n = 2 then StateClosed else StateHalfOpen)"
    using breaker_recovers [OF cb(1,4), of "100 * second", unfolded cb(2,3) cfg] by simp
  from this [THEN spec, of 1] this [THEN spec, of 2] show ?thesis by simp
qed

text \<open>A request admitted while the breaker was closed that succeeds while it is half-open frees a
  probe slot it never took and counts towards closing: with \<open>MaxConcurrentRequests = 1\<close>, probe C is in
  flight, the stale request B succeeds, and the half-open breaker admits probe D beside C.\<close>

theorem stale_success_exceeds_probe_limit:
  "let cfg = (DefaultCircuitBreakerConfig ''db'')\<lparr>FailureThreshold := 1\<rparr>;
       (admitA, a) = beforeRequest 0 0 (NewCircuitBreaker 0 cfg);
       (admitB, b) = beforeRequest 0 0 admitA;
       failA = onFailure 0 0 admitB;
       (admitC, c) = beforeRequest (61 * second) (61 * second) failA;
       doneB = onSuccess (61 * second) admitC;
       (admitD, d) = beforeRequest (61 * second) (61 * second) doneB in
     a = None \<and> b = None \<and> State failA = StateOpen \<and> c = None \<and> d = None \<and>
     State admitC = StateHalfOpen \<and> State admitD = StateHalfOpen \<and> halfOpenRequests admitD = 1"
  by (simp add: DefaultCircuitBreakerConfig_def NewCircuitBreaker_def beforeRequest_def onFailure_def onSuccess_def
      Let_def State_def zero_time_def time_Sub_def min_duration_def max_duration_def second_def word_le_nat_alt)

section \<open>The registry\<close>

text \<open>\<open>GetOrCreate\<close> returns the breaker already registered under the name, whichever of its two
  lookups finds it, and otherwise registers a new closed breaker that carries the name; the breaker it
  returns is the one registered afterwards, so a second call returns the same breaker and leaves the
  registry alone, and no other name is affected.\<close>

theorem get_or_create:
  assumes "\<forall>n cb. r n = Some cb \<longrightarrow> r' n = Some cb"
  shows "let (r1, cb) = GetOrCreate now r r' name config in
     reg_Get r1 name = Some cb \<and>
     (\<forall>cb0. r' name = Some cb0 \<longrightarrow> cb = cb0) \<and>
     (r' name = None \<longrightarrow> State cb = StateClosed \<and> cfg_Name (cb_config cb) = name) \<and>
     (\<forall>n. n \<noteq> name \<longrightarrow> reg_Get r1 n = reg_Get r' n \<or> reg_Get r1 n = reg_Get r n) \<and>
     GetOrCreate now' r1 r1 name config' = (r1, cb)"
  using assms
  by (auto simp: GetOrCreate_def reg_Get_def Let_def create_breaker_def NewCircuitBreaker_def State_def
      DefaultCircuitBreakerConfig_def split: option.split)

theorem get_or_create_witness:
  "cfg_Name (cb_config (snd (GetOrCreate 0 NewCircuitBreakerRegistry NewCircuitBreakerRegistry ''kafka'' None))) = ''kafka''"
  using get_or_create [of NewCircuitBreakerRegistry NewCircuitBreakerRegistry 0 "''kafka''" None]
  by (simp add: NewCircuitBreakerRegistry_def case_prod_beta Let_def)

end
