(* ===== verification/Error_Classes.thy ===== *)
theory Error_Classes
  imports Stream_Types "HOL-Library.Sublist"
begin

text \<open>
  Error classification, \<open>pkg/errors/classification.go\<close>. A Go error is a chain: a base error,
  wrapped any number of times by \<open>fmt.Errorf("...%w")\<close> or by \<open>ClassifiedError\<close>; \<open>errors.Is\<close> and
  \<open>errors.As\<close> walk it from the outside. \<open>net.Error\<close> is the interface of the errors with methods
  \<open>Timeout\<close> and \<open>Temporary\<close>; \<open>syscall.Errno\<close> has both, so it implements \<open>net.Error\<close>. Strings are
  byte strings.
\<close>

section \<open>Errors\<close>

datatype ErrorCategory = CategoryRetriable | CategoryFatal | CategoryTransient

fun ErrorCategory_String :: "ErrorCategory \<Rightarrow> string" where
  "ErrorCategory_String CategoryRetriable = ''retriable''"
| "ErrorCategory_String CategoryFatal = ''fatal''"
| "ErrorCategory_String CategoryTransient = ''transient''"

datatype errno = ECONNREFUSED | ECONNRESET | ECONNABORTED | ENETUNREACH | EHOSTUNREACH | ETIMEDOUT | EPIPE
  | EAGAIN | EMFILE | ENFILE | EINVAL | EACCES | EPERM | ENOENT | EEXIST | EINTR | OtherErrno nat

text \<open>Base errors with the text of their \<open>Error\<close> method; \<open>NetError\<close> carries the answers of its
  \<open>Timeout\<close> and \<open>Temporary\<close> methods. On Linux \<open>EWOULDBLOCK\<close> is \<open>EAGAIN\<close>.\<close>

datatype err =
    CtxCanceled | CtxDeadlineExceeded | IoEOF | IoUnexpectedEOF
  | NetError bool bool string
  | Errno errno string
  | PlainError string
  | Wrapped string err
  | Classified err ErrorCategory string

fun err_Unwrap :: "err \<Rightarrow> err option" where
  "err_Unwrap (Wrapped msg e) = Some e"
| "err_Unwrap (Classified e c msg) = Some e"
| "err_Unwrap _ = None"

fun err_Error :: "err \<Rightarrow> string" where
  "err_Error CtxCanceled = ''context canceled''"
| "err_Error CtxDeadlineExceeded = ''context deadline exceeded''"
| "err_Error IoEOF = ''EOF''"
| "err_Error IoUnexpectedEOF = ''unexpected EOF''"
| "err_Error (NetError to te msg) = msg"
| "err_Error (Errno n msg) = msg"
| "err_Error (PlainError msg) = msg"
| "err_Error (Wrapped msg e) = msg"
| "err_Error (Classified e c msg) = (if msg \<noteq> [] then msg @ '': '' @ err_Error e else err_Error e)"

text \<open>The chain of an error, outermost first.\<close>

fun err_chain :: "err \<Rightarrow> err list" where
  "err_chain (Wrapped msg e) = Wrapped msg e # err_chain e"
| "err_chain (Classified e c msg) = Classified e c msg # err_chain e"
| "err_chain e = [e]"

definition errors_Is :: "err \<Rightarrow> err \<Rightarrow> bool" where
  "errors_Is e target = (target \<in> set (err_chain e))"

fun as_classified :: "err \<Rightarrow> ErrorCategory option" where
  "as_classified (Classified e c msg) = Some c"
| "as_classified (Wrapped msg e) = as_classified e"
| "as_classified _ = None"

text \<open>\<open>Timeout\<close> and \<open>Temporary\<close> of \<open>syscall.Errno\<close>, from Go's standard library.\<close>

definition Errno_Timeout :: "errno \<Rightarrow> bool" where
  "Errno_Timeout n \<longleftrightarrow> n = EAGAIN \<or> n = ETIMEDOUT"

definition Errno_Temporary :: "errno \<Rightarrow> bool" where
  "Errno_Temporary n \<longleftrightarrow> n = EINTR \<or> n = EMFILE \<or> n = ENFILE \<or> Errno_Timeout n"

text \<open>\<open>errors.As\<close> with a \<open>net.Error\<close> target: the answers of the first error in the chain that
  implements the interface. \<open>context.DeadlineExceeded\<close> does too.\<close>

fun as_netError :: "err \<Rightarrow> (bool \<times> bool) option" where
  "as_netError (NetError to te msg) = Some (to, te)"
| "as_netError (Errno n msg) = Some (Errno_Timeout n, Errno_Temporary n)"
| "as_netError CtxDeadlineExceeded = Some (True, True)"
| "as_netError (Wrapped msg e) = as_netError e"
| "as_netError (Classified e c msg) = as_netError e"
| "as_netError _ = None"

fun as_Errno :: "err \<Rightarrow> errno option" where
  "as_Errno (Errno n msg) = Some n"
| "as_Errno (Wrapped msg e) = as_Errno e"
| "as_Errno (Classified e c msg) = as_Errno e"
| "as_Errno _ = None"

section \<open>Substring search\<close>

definition toLower_char :: "char \<Rightarrow> char" where
  "toLower_char c =
     (if of_char (CHR ''A'') \<le> (of_char c :: nat) \<and> (of_char c :: nat) \<le> of_char (CHR ''Z'')
      then char_of ((of_char c :: nat) + (of_char (CHR ''a'') - of_char (CHR ''A''))) else c)"

definition toLower :: "string \<Rightarrow> string" where
  "toLower s = map toLower_char s"

text \<open>The inner loop of \<open>findSubstring\<close> from index \<open>j\<close>, and the outer loop from index \<open>i\<close>. The
  indices into \<open>s\<close> stay in range because the outer loop stops at \<open>len(s) - len(substr)\<close>.\<close>

function match_loop :: "string \<Rightarrow> string \<Rightarrow> nat \<Rightarrow> nat \<Rightarrow> bool" where
  "match_loop s sub i j =
     (if j < length sub then (if s ! (i + j) \<noteq> sub ! j then False else match_loop s sub i (Suc j)) else True)"
  by pat_completeness auto
termination
  by (relation "measure (\<lambda>(s, sub, i, j). length sub - j)") auto

function find_loop :: "string \<Rightarrow> string \<Rightarrow> nat \<Rightarrow> int" where
  "find_loop s sub i =
     (if int i \<le> int (length s) - int (length sub)
      then (if match_loop s sub i 0 then int i else find_loop s sub (Suc i))
      else -1)"
  by pat_completeness auto
termination
  by (relation "measure (\<lambda>(s, sub, i). Suc (length s) - i)") auto

declare match_loop.simps [simp del] find_loop.simps [simp del]

definition findSubstring :: "string \<Rightarrow> string \<Rightarrow> int" where
  "findSubstring s sub = find_loop s sub 0"

definition containsExact :: "string \<Rightarrow> string \<Rightarrow> bool" where
  "containsExact s sub \<longleftrightarrow> length s \<ge> length sub \<and> findSubstring s sub \<ge> 0"

definition contains :: "string \<Rightarrow> string \<Rightarrow> bool" where
  "contains s sub = containsExact (toLower s) (toLower sub)"

fun containsAny :: "string \<Rightarrow> string list \<Rightarrow> bool" where
  "containsAny s [] = False"
| "containsAny s (sub # subs) = (if contains s sub then True else containsAny s subs)"

section \<open>Classification\<close>

fun classifySyscallError :: "errno \<Rightarrow> ErrorCategory" where
  "classifySyscallError n =
     (if n \<in> {ECONNREFUSED, ECONNRESET, ECONNABORTED, ENETUNREACH, EHOSTUNREACH, ETIMEDOUT, EPIPE}
      then CategoryRetriable
      else if n \<in> {EAGAIN, EMFILE, ENFILE} then CategoryTransient
      else if n \<in> {EINVAL, EACCES, EPERM, ENOENT, EEXIST} then CategoryFatal
      else CategoryRetriable)"

definition ClassifyError :: "err option \<Rightarrow> ErrorCategory" where
  "ClassifyError err =
     (case err of
        None \<Rightarrow> CategoryFatal
      | Some e \<Rightarrow>
          (case as_classified e of
             Some c \<Rightarrow> c
           | None \<Rightarrow>
               if errors_Is e CtxCanceled then CategoryFatal
               else if errors_Is e CtxDeadlineExceeded then CategoryRetriable
               else if errors_Is e IoEOF then CategoryRetriable
               else if errors_Is e IoUnexpectedEOF then CategoryRetriable
               else
                 (case as_netError e of
                    Some (timeout, temporary) \<Rightarrow>
                      if timeout then CategoryRetriable
                      else if temporary then CategoryTransient
                      else CategoryRetriable
                  | None \<Rightarrow>
                      (case as_Errno e of
                         Some n \<Rightarrow> classifySyscallError n
                       | None \<Rightarrow>
                           (let errMsg = err_Error e in
                            if containsAny errMsg [''connection refused'', ''connection reset'',
                                 ''broken pipe'', ''no route to host'', ''network is unreachable'']
                            then CategoryRetriable
                            else if containsAny errMsg [''invalid argument'', ''invalid syntax'',
                                 ''parse error'', ''unmarshal'', ''marshal'']
                            then CategoryFatal
                            else if containsAny errMsg [''timeout'', ''deadline exceeded'',
                                 ''too many open files'', ''resource temporarily unavailable'']
                            then CategoryRetriable
                            else CategoryRetriable)))))"

definition IsRetriable :: "err option \<Rightarrow> bool" where
  "IsRetriable e = (let category = ClassifyError e in
     category = CategoryRetriable \<or> category = CategoryTransient)"

definition IsFatal :: "err option \<Rightarrow> bool" where
  "IsFatal e \<longleftrightarrow> ClassifyError e = CategoryFatal"

definition IsTransient :: "err option \<Rightarrow> bool" where
  "IsTransient e \<longleftrightarrow> ClassifyError e = CategoryTransient"

section \<open>Correctness of the substring search\<close>

lemma match_loop_iff:
  "match_loop s sub i j \<longleftrightarrow> (\<forall>k. j \<le> k \<and> k < length sub \<longrightarrow> s ! (i + k) = sub ! k)"
proof (induction s sub i j rule: match_loop.induct)
  case (1 s sub i j)
  show ?case
  proof (cases "j < length sub \<and> s ! (i + j) = sub ! j")
    case True
    then have "match_loop s sub i j \<longleftrightarrow> match_loop s sub i (Suc j)"
      by (subst match_loop.simps) simp
    also have "\<dots> \<longleftrightarrow> (\<forall>k. Suc j \<le> k \<and> k < length sub \<longrightarrow> s ! (i + k) = sub ! k)"
      using "1" True by blast
    also have "\<dots> \<longleftrightarrow> (\<forall>k. j \<le> k \<and> k < length sub \<longrightarrow> s ! (i + k) = sub ! k)"
      using True by (metis Suc_leI Suc_leD le_neq_implies_less)
    finally show ?thesis .
  next
    case False
    then show ?thesis by (subst match_loop.simps) auto
  qed
qed

lemma match_at:
  assumes "i + length sub \<le> length s"
  shows "match_loop s sub i 0 \<longleftrightarrow> take (length sub) (drop i s) = sub"
  using assms by (auto simp: match_loop_iff list_eq_iff_nth_eq)

lemma find_loop_spec:
  "(case find_loop s sub i of
      r \<Rightarrow> if r < 0 then r = -1 \<and> (\<forall>k \<ge> i. k + length sub \<le> length s \<longrightarrow> take (length sub) (drop k s) \<noteq> sub)
           else i \<le> nat r \<and> nat r + length sub \<le> length s \<and> take (length sub) (drop (nat r) s) = sub \<and>
             (\<forall>k. i \<le> k \<and> k < nat r \<longrightarrow> take (length sub) (drop k s) \<noteq> sub))"
proof (induction s sub i rule: find_loop.induct)
  case (1 s sub i)
  have eq: "find_loop s sub i = (if i + length sub \<le> length s
      then (if match_loop s sub i 0 then int i else find_loop s sub (Suc i)) else -1)"
    by (subst find_loop.simps) auto
  show ?case
  proof (cases "i + length sub \<le> length s \<and> \<not> match_loop s sub i 0")
    case True
    with "1" have IH: "case find_loop s sub (Suc i) of
      r \<Rightarrow> if r < 0 then r = -1 \<and> (\<forall>k \<ge> Suc i. k + length sub \<le> length s \<longrightarrow> take (length sub) (drop k s) \<noteq> sub)
           else Suc i \<le> nat r \<and> nat r + length sub \<le> length s \<and> take (length sub) (drop (nat r) s) = sub \<and>
             (\<forall>k. Suc i \<le> k \<and> k < nat r \<longrightarrow> take (length sub) (drop k s) \<noteq> sub)"
      by auto
    have "take (length sub) (drop i s) \<noteq> sub" using True match_at by blast
    with IH True show ?thesis
      by (auto simp: eq Let_def not_less_eq_eq split: if_splits) (metis le_eq_less_or_eq Suc_leI)+
  next
    case False
    then show ?thesis by (auto simp: eq match_at)
  qed
qed

text \<open>\<open>findSubstring\<close> returns the least index at which the substring occurs and -1 when it occurs
  nowhere, and \<open>containsAny\<close> answers whether one of the patterns is a substring of the text up to the
  case of ASCII letters.\<close>

theorem substring_search_correct:
  "(if findSubstring s sub < 0 then findSubstring s sub = -1 \<and> \<not> sublist sub s
    else \<exists>pre suf. s = pre @ sub @ suf \<and> int (length pre) = findSubstring s sub \<and>
           (\<forall>pre' suf'. s = pre' @ sub @ suf' \<longrightarrow> length pre \<le> length pre')) \<and>
   (containsAny t subs \<longleftrightarrow> (\<exists>p \<in> set subs. sublist (toLower p) (toLower t)))"
proof -
  have spec: "if findSubstring s sub < 0
      then findSubstring s sub = -1 \<and> (\<forall>k. k + length sub \<le> length s \<longrightarrow> take (length sub) (drop k s) \<noteq> sub)
      else nat (findSubstring s sub) + length sub \<le> length s \<and>
        take (length sub) (drop (nat (findSubstring s sub)) s) = sub \<and>
        (\<forall>k < nat (findSubstring s sub). take (length sub) (drop k s) \<noteq> sub)" for s sub :: string
    using find_loop_spec [of s sub 0] by (simp add: findSubstring_def Let_def split: if_splits)
  have at: "take (length sub) (drop (length pre') s) = sub" if "s = pre' @ sub @ suf'" for pre' suf' s sub :: string
    using that by simp
  have first: "if findSubstring s sub < 0 then findSubstring s sub = -1 \<and> \<not> sublist sub s
    else \<exists>pre suf. s = pre @ sub @ suf \<and> int (length pre) = findSubstring s sub \<and>
           (\<forall>pre' suf'. s = pre' @ sub @ suf' \<longrightarrow> length pre \<le> length pre')" for s sub :: string
  proof (cases "findSubstring s sub < 0")
    case True
    have "\<not> sublist sub s"
    proof
      assume "sublist sub s"
      then obtain pre suf where s: "s = pre @ sub @ suf" by (auto simp: sublist_def)
      then have "length pre + length sub \<le> length s" by simp
      with spec [of s sub] True at [OF s] show False by auto
    qed
    with spec [of s sub] True show ?thesis by auto
  next
    case False
    let ?n = "nat (findSubstring s sub)"
    have "s = take ?n s @ take (length sub) (drop ?n s) @ drop (length sub) (drop ?n s)"
      by (metis append_take_drop_id)
    then have "s = take ?n s @ sub @ drop (length sub) (drop ?n s)" using spec [of s sub] False by simp
    moreover have "int (length (take ?n s)) = findSubstring s sub" using spec [of s sub] False by simp
    moreover have "length (take ?n s) \<le> length pre'" if "s = pre' @ sub @ suf'" for pre' suf'
      using spec [of s sub] False at [OF that] by (metis (no_types, lifting) length_take min.coboundedI2 not_le)
    ultimately have "\<exists>pre suf. s = pre @ sub @ suf \<and> int (length pre) = findSubstring s sub \<and>
           (\<forall>pre' suf'. s = pre' @ sub @ suf' \<longrightarrow> length pre \<le> length pre')"
      by blast
    with False show ?thesis by (simp only: if_False)
  qed
  have "containsExact s sub \<longleftrightarrow> sublist sub s" for s sub
    using first [of s sub] sublist_length_le [of sub s]
    by (auto simp: containsExact_def sublist_def not_less split: if_splits)
  then have "containsAny t subs \<longleftrightarrow> (\<exists>p \<in> set subs. sublist (toLower p) (toLower t))"
    by (induction subs) (auto simp: contains_def)
  with first [of s sub] show ?thesis by (rule conjI)
qed

theorem substring_search_correct_witness:
  "(\<exists>pre suf. ''xabc'' = pre @ ''ab'' @ suf \<and> int (length pre) = findSubstring ''xabc'' ''ab'') \<and>
   (containsAny ''i/o TimeOut'' [''reset'', ''timeout''] \<longleftrightarrow>
      (\<exists>p \<in> set [''reset'', ''timeout'']. sublist (toLower p) (toLower ''i/o TimeOut'')))"
proof -
  have "findSubstring ''xabc'' ''ab'' = 1"
    by (simp add: findSubstring_def find_loop.simps match_loop.simps)
  then have "\<not> findSubstring ''xabc'' ''ab'' < 0" by simp
  with substring_search_correct [of "''xabc''" "''ab''" "''i/o TimeOut''" "[''reset'', ''timeout'']"]
  show ?thesis by (simp only: if_False) blast
qed

section \<open>Properties of the classification\<close>

fun wrap_all :: "string list \<Rightarrow> err \<Rightarrow> err" where
  "wrap_all [] e = e"
| "wrap_all (m # ms) e = Wrapped m (wrap_all ms e)"

lemma wrap_all_as: "as_classified (wrap_all ms e) = as_classified e"
  by (induction ms) auto

text \<open>Every error is retriable or fatal and not both, a transient one is retriable, and an error
  wrapped in a \<open>ClassifiedError\<close> keeps its assigned category through any number of further \<open>%w\<close>
  wrappings, whatever error lies below.\<close>

theorem classification_partition:
  "(IsRetriable x \<longleftrightarrow> \<not> IsFatal x) \<and> (IsRetriable x \<longleftrightarrow> IsTransient x \<or> ClassifyError x = CategoryRetriable) \<and>
   ClassifyError (Some (wrap_all ms (Classified e c msg))) = c"
  by (cases "ClassifyError x")
    (simp_all add: IsRetriable_def IsFatal_def IsTransient_def ClassifyError_def wrap_all_as)

text \<open>\<open>syscall.Errno\<close> implements \<open>net.Error\<close>, so the branch for network errors takes every errno
  before \<open>classifySyscallError\<close> is asked: \<open>EINVAL\<close>, \<open>EACCES\<close>, \<open>EPERM\<close>, \<open>ENOENT\<close> and \<open>EEXIST\<close>, which
  \<open>classifySyscallError\<close> calls fatal, are classified retriable.\<close>

theorem errno_classified_as_network_error:
  "ClassifyError (Some (Errno n msg)) =
     (if Errno_Timeout n then CategoryRetriable else if Errno_Temporary n then CategoryTransient else CategoryRetriable) \<and>
   map classifySyscallError [EINVAL, EACCES, EPERM, ENOENT, EEXIST] = replicate 5 CategoryFatal \<and>
   list_all (\<lambda>k. IsRetriable (Some (Errno k msg))) [EINVAL, EACCES, EPERM, ENOENT, EEXIST]"
  by (auto simp: ClassifyError_def errors_Is_def IsRetriable_def Let_def Errno_Timeout_def Errno_Temporary_def numeral_eq_Suc)

end
