(* ===== verification/Retries.thy ===== *)
theory Retries
  imports Error_Classes Complex_Main
begin

text \<open>
  The retry executor, \<open>pkg/errors/retry.go\<close>. The environment of a run is given by three streams
  indexed by the attempt: \<open>operation n\<close> is the error of the \<open>n\<close>-th call (\<open>None\<close> for nil), \<open>cancel n\<close>
  is \<open>Some (ctx.Err())\<close> when the \<open>select\<close> after the \<open>n\<close>-th failure takes the branch of the context
  and \<open>None\<close> when it takes the timer, and \<open>rnd n\<close> is the number in \<open>[0, 1)\<close> that \<open>rand.Float64\<close>
  returns. Since the loop of a policy with a negative \<open>MaxAttempts\<close> may run forever, \<open>Execute\<close> is a
  partial function whose value \<open>None\<close> means that it never returns. The \<open>float64\<close> arithmetic of
  \<open>calculateBackoff\<close> is carried out in the rational numbers, without rounding.
\<close>

section \<open>Policies\<close>

record RetryPolicy =
  MaxAttempts :: int
  InitialBackoff :: duration
  MaxBackoff :: duration
  BackoffMultiplier :: rat
  Jitter :: rat
  RetriableFunc :: "(err option \<Rightarrow> bool) option"

definition DefaultRetryPolicy :: RetryPolicy where
  "DefaultRetryPolicy =
     \<lparr>MaxAttempts = 3, InitialBackoff = 100 * millisecond, MaxBackoff = 30 * second,
      BackoffMultiplier = 2, Jitter = 1 / 10, RetriableFunc = Some IsRetriable\<rparr>"

definition NoRetryPolicy :: RetryPolicy where
  "NoRetryPolicy =
     \<lparr>MaxAttempts = 0, InitialBackoff = 0, MaxBackoff = 0,
      BackoffMultiplier = 0, Jitter = 0, RetriableFunc = None\<rparr>"

definition InfiniteRetryPolicy :: RetryPolicy where
  "InfiniteRetryPolicy =
     \<lparr>MaxAttempts = -1, InitialBackoff = 100 * millisecond, MaxBackoff = 60 * second,
      BackoffMultiplier = 2, Jitter = 2 / 10, RetriableFunc = Some IsRetriable\<rparr>"

record RetryResult =
  Success :: bool
  Attempts :: int
  LastError :: "err option"
  TotalBackoff :: duration

text \<open>The conversion of a \<open>float64\<close> to an integer drops the fraction.\<close>

definition trunc :: "rat \<Rightarrow> int" where
  "trunc x = (if x < 0 then - \<lfloor>- x\<rfloor> else \<lfloor>x\<rfloor>)"

definition calculateBackoff :: "RetryPolicy \<Rightarrow> rat \<Rightarrow> nat \<Rightarrow> duration" where
  "calculateBackoff rp r attempt =
     (let b0 = of_int (InitialBackoff rp) * BackoffMultiplier rp ^ attempt;
          b1 = (if of_int (MaxBackoff rp) < b0 then of_int (MaxBackoff rp) else b0);
          b2 = (if 0 < Jitter rp
                then (let jitterAmount = b1 * Jitter rp;
                          jitter = (r * 2 - 1) * jitterAmount;
                          b = b1 + jitter
                      in if b < 0 then of_int (InitialBackoff rp) else b)
                else b1)
      in trunc b2)"

definition NextBackoff :: "RetryPolicy \<Rightarrow> rat \<Rightarrow> nat \<Rightarrow> duration" where
  "NextBackoff rp r attempt = calculateBackoff rp r attempt"

definition ShouldRetry :: "RetryPolicy \<Rightarrow> err option \<Rightarrow> int \<Rightarrow> bool" where
  "ShouldRetry rp e attempt =
     (if e = None then False
      else if 0 \<le> MaxAttempts rp \<and> MaxAttempts rp < attempt then False
      else case RetriableFunc rp of Some f \<Rightarrow> f e | None \<Rightarrow> True)"

section \<open>Execution\<close>

definition new_result :: RetryResult where
  "new_result = \<lparr>Success = False, Attempts = 0, LastError = None, TotalBackoff = 0\<rparr>"

text \<open>The test that ends the loop with a non-retriable error.\<close>

definition refuses :: "RetryPolicy \<Rightarrow> err \<Rightarrow> bool" where
  "refuses rp e = (case RetriableFunc rp of None \<Rightarrow> False | Some f \<Rightarrow> \<not> f (Some e))"

partial_function (option) execute_loop ::
  "RetryPolicy \<Rightarrow> (nat \<Rightarrow> err option) \<Rightarrow> (nat \<Rightarrow> err option) \<Rightarrow> (nat \<Rightarrow> rat) \<Rightarrow> nat \<Rightarrow> RetryResult \<Rightarrow> RetryResult option" where
  "execute_loop rp operation cancel rnd attempt result =
     (if MaxAttempts rp < 0 \<or> int attempt \<le> MaxAttempts rp then
        (let r1 = result\<lparr>Attempts := Attempts result + 1\<rparr> in
         case operation attempt of
           None \<Rightarrow> Some (r1\<lparr>Success := True\<rparr>)
         | Some e \<Rightarrow>
             (let r2 = r1\<lparr>LastError := Some e\<rparr> in
              if refuses rp e then Some r2
              else if 0 \<le> MaxAttempts rp \<and> MaxAttempts rp \<le> int attempt then Some r2
              else
                (let backoff = calculateBackoff rp (rnd attempt) attempt;
                     r3 = r2\<lparr>TotalBackoff := wrap64 (TotalBackoff r2 + backoff)\<rparr>
                 in case cancel attempt of
                      Some c \<Rightarrow> Some (r3\<lparr>LastError := Some c\<rparr>)
                    | None \<Rightarrow> execute_loop rp operation cancel rnd (Suc attempt) r3)))
      else Some result)"

definition retry_Execute ::
  "RetryPolicy \<Rightarrow> (nat \<Rightarrow> err option) \<Rightarrow> (nat \<Rightarrow> err option) \<Rightarrow> (nat \<Rightarrow> rat) \<Rightarrow> RetryResult option" where
  "retry_Execute rp operation cancel rnd =
     (if MaxAttempts rp = 0
      then Some (new_result\<lparr>Attempts := 1, LastError := operation 0, Success := (operation 0 = None)\<rparr>)
      else execute_loop rp operation cancel rnd 0 new_result)"

text \<open>\<open>ExecuteWithCallback\<close>: the calls of the callback are recorded as a trace of attempt number, error
  and announced backoff; \<open>cb\<close> says whether the callback is non-nil.\<close>

type_synonym callback_trace = "(int \<times> err option \<times> duration) list"

definition call_back :: "bool \<Rightarrow> callback_trace \<Rightarrow> int \<Rightarrow> err \<Rightarrow> duration \<Rightarrow> callback_trace" where
  "call_back cb tr attempt e backoff = (if cb then tr @ [(attempt, Some e, backoff)] else tr)"

partial_function (option) callback_loop ::
  "RetryPolicy \<Rightarrow> bool \<Rightarrow> (nat \<Rightarrow> err option) \<Rightarrow> (nat \<Rightarrow> err option) \<Rightarrow> (nat \<Rightarrow> rat) \<Rightarrow> nat \<Rightarrow> RetryResult \<Rightarrow> callback_trace
     \<Rightarrow> (RetryResult \<times> callback_trace) option" where
  "callback_loop rp cb operation cancel rnd attempt result tr =
     (if MaxAttempts rp < 0 \<or> int attempt \<le> MaxAttempts rp then
        (let r1 = result\<lparr>Attempts := Attempts result + 1\<rparr> in
         case operation attempt of
           None \<Rightarrow> Some (r1\<lparr>Success := True\<rparr>, tr)
         | Some e \<Rightarrow>
             (let r2 = r1\<lparr>LastError := Some e\<rparr> in
              if refuses rp e then Some (r2, call_back cb tr (int attempt + 1) e 0)
              else if 0 \<le> MaxAttempts rp \<and> MaxAttempts rp \<le> int attempt
              then Some (r2, call_back cb tr (int attempt + 1) e 0)
              else
                (let backoff = calculateBackoff rp (rnd attempt) attempt;
                     r3 = r2\<lparr>TotalBackoff := wrap64 (TotalBackoff r2 + backoff)\<rparr>;
                     tr' = call_back cb tr (int attempt + 1) e backoff
                 in case cancel attempt of
                      Some c \<Rightarrow> Some (r3\<lparr>LastError := Some c\<rparr>, tr')
                    | None \<Rightarrow> callback_loop rp cb operation cancel rnd (Suc attempt) r3 tr')))
      else Some (result, tr))"

definition ExecuteWithCallback ::
  "RetryPolicy \<Rightarrow> bool \<Rightarrow> (nat \<Rightarrow> err option) \<Rightarrow> (nat \<Rightarrow> err option) \<Rightarrow> (nat \<Rightarrow> rat) \<Rightarrow> (RetryResult \<times> callback_trace) option" where
  "ExecuteWithCallback rp cb operation cancel rnd =
     (if MaxAttempts rp = 0
      then Some (new_result\<lparr>Attempts := 1, LastError := operation 0, Success := (operation 0 = None)\<rparr>,
                 case operation 0 of None \<Rightarrow> [] | Some e \<Rightarrow> call_back cb [] 1 e 0)
      else callback_loop rp cb operation cancel rnd 0 new_result [])"

section \<open>Statistics\<close>

record RetryStats =
  TotalAttempts :: int
  SuccessfulRetries :: int
  FailedRetries :: int
  TotalBackoffTime :: duration

definition NewRetryStats :: RetryStats where
  "NewRetryStats = \<lparr>TotalAttempts = 0, SuccessfulRetries = 0, FailedRetries = 0, TotalBackoffTime = 0\<rparr>"

definition RecordAttempt :: "RetryStats \<Rightarrow> RetryResult \<Rightarrow> RetryStats" where
  "RecordAttempt rs result =
     (let rs1 = rs\<lparr>TotalAttempts := TotalAttempts rs + Attempts result\<rparr>;
          rs2 = (if Success result \<and> 1 < Attempts result
                 then rs1\<lparr>SuccessfulRetries := SuccessfulRetries rs1 + 1\<rparr>
                 else if \<not> Success result then rs1\<lparr>FailedRetries := FailedRetries rs1 + 1\<rparr>
                 else rs1)
      in rs2\<lparr>TotalBackoffTime := wrap64 (TotalBackoffTime rs2 + TotalBackoff result)\<rparr>)"

section \<open>The outcome of an execution\<close>

text \<open>An attempt ends the execution when it succeeds, when its error is refused, when the attempts
  are used up, or when the context is cancel at the wait that follows it.\<close>

definition stops :: "RetryPolicy \<Rightarrow> (nat \<Rightarrow> err option) \<Rightarrow> (nat \<Rightarrow> err option) \<Rightarrow> nat \<Rightarrow> bool" where
  "stops rp operation cancel n =
     (case operation n of
        None \<Rightarrow> True
      | Some e \<Rightarrow> refuses rp e \<or> (0 \<le> MaxAttempts rp \<and> MaxAttempts rp \<le> int n) \<or> cancel n \<noteq> None)"

definition total_backoff :: "RetryPolicy \<Rightarrow> (nat \<Rightarrow> rat) \<Rightarrow> nat \<Rightarrow> int" where
  "total_backoff rp rnd n = (\<Sum>k < n. calculateBackoff rp (rnd k) k)"

text \<open>The result of an execution that ends with attempt \<open>n\<close>.\<close>

definition outcome ::
  "RetryPolicy \<Rightarrow> (nat \<Rightarrow> err option) \<Rightarrow> (nat \<Rightarrow> err option) \<Rightarrow> (nat \<Rightarrow> rat) \<Rightarrow> nat \<Rightarrow> RetryResult" where
  "outcome rp operation cancel rnd n =
     (let waited = (case operation n of
                      None \<Rightarrow> False
                    | Some e \<Rightarrow> \<not> refuses rp e \<and> \<not> (0 \<le> MaxAttempts rp \<and> MaxAttempts rp \<le> int n))
      in \<lparr>Success = (operation n = None), Attempts = int n + 1,
          LastError = (if operation n = None then (if n = 0 then None else operation (n - 1))
                       else if waited then cancel n else operation n),
          TotalBackoff = wrap64 (total_backoff rp rnd (if waited then Suc n else n))\<rparr>)"

text \<open>The loop's result before attempt \<open>n\<close> when none of the earlier attempts stopped.\<close>

definition pending :: "RetryPolicy \<Rightarrow> (nat \<Rightarrow> err option) \<Rightarrow> (nat \<Rightarrow> rat) \<Rightarrow> nat \<Rightarrow> RetryResult" where
  "pending rp operation rnd n =
     \<lparr>Success = False, Attempts = int n,
      LastError = (if n = 0 then None else operation (n - 1)),
      TotalBackoff = wrap64 (total_backoff rp rnd n)\<rparr>"

lemma pending_0: "pending rp operation rnd 0 = new_result"
  by (simp add: pending_def new_result_def total_backoff_def wrap64_def)

lemma execute_loop_stop:
  assumes "stops rp operation cancel n" "MaxAttempts rp < 0 \<or> int n \<le> MaxAttempts rp"
  shows "execute_loop rp operation cancel rnd n (pending rp operation rnd n) = Some (outcome rp operation cancel rnd n)"
  using assms
  by (subst execute_loop.simps)
    (auto simp: stops_def outcome_def pending_def total_backoff_def Let_def split: option.splits)

lemma not_stops:
  assumes "\<not> stops rp operation cancel n"
  obtains e where "operation n = Some e" "\<not> refuses rp e" "cancel n = None"
    "\<not> (0 \<le> MaxAttempts rp \<and> MaxAttempts rp \<le> int n)"
  using assms by (auto simp: stops_def split: option.splits)

lemma execute_loop_go:
  assumes "\<not> stops rp operation cancel n" "MaxAttempts rp < 0 \<or> int n \<le> MaxAttempts rp"
  shows "execute_loop rp operation cancel rnd n (pending rp operation rnd n) =
         execute_loop rp operation cancel rnd (Suc n) (pending rp operation rnd (Suc n))"
proof -
  obtain e where e: "operation n = Some e" "\<not> refuses rp e" "cancel n = None"
    "\<not> (0 \<le> MaxAttempts rp \<and> MaxAttempts rp \<le> int n)"
    using assms(1) by (rule not_stops)
  have "pending rp operation rnd (Suc n) =
      (pending rp operation rnd n)\<lparr>Attempts := int n + 1, LastError := Some e,
        TotalBackoff := wrap64 (wrap64 (total_backoff rp rnd n) + calculateBackoff rp (rnd n) n)\<rparr>"
    by (simp add: pending_def total_backoff_def e(1))
  then show ?thesis
    by (subst execute_loop.simps) (use assms(2) e in \<open>auto simp: Let_def pending_def add.commute\<close>)
qed

lemma execute_loop_returns:
  assumes "stops rp operation cancel n" "\<forall>k < n. \<not> stops rp operation cancel k"
    "MaxAttempts rp < 0 \<or> int n \<le> MaxAttempts rp"
  shows "execute_loop rp operation cancel rnd 0 new_result = Some (outcome rp operation cancel rnd n)"
proof -
  have "execute_loop rp operation cancel rnd 0 (pending rp operation rnd 0) =
        execute_loop rp operation cancel rnd m (pending rp operation rnd m)" if "m \<le> n" for m
    using that
  proof (induction m)
    case (Suc m)
    then have "\<not> stops rp operation cancel m" "MaxAttempts rp < 0 \<or> int m \<le> MaxAttempts rp"
      using assms(2,3) by auto
    with execute_loop_go Suc show ?case by simp
  qed simp
  from this [of n] execute_loop_stop [OF assms(1,3)] show ?thesis
    by (simp add: pending_0)
qed

lemma execute_loop_stops:
  assumes run: "execute_loop rp operation cancel rnd n r = Some r'"
  shows "(\<exists>k \<ge> n. stops rp operation cancel k) \<or> (0 \<le> MaxAttempts rp \<and> MaxAttempts rp < int n)"
proof (rule execute_loop.raw_induct [where P = "\<lambda>rp operation cancel rnd n r r'.
    (\<exists>k \<ge> n. stops rp operation cancel k) \<or> (0 \<le> MaxAttempts rp \<and> MaxAttempts rp < int n)", OF _ run], goal_cases step)
  case (step f rp operation cancel rnd n r r')
  show ?case
  proof (cases "stops rp operation cancel n \<or> \<not> (MaxAttempts rp < 0 \<or> int n \<le> MaxAttempts rp)")
    case False
    then obtain e where e: "operation n = Some e" "\<not> refuses rp e" "cancel n = None"
      "\<not> (0 \<le> MaxAttempts rp \<and> MaxAttempts rp \<le> int n)"
      by (meson not_stops)
    have "\<exists>r''. f rp operation cancel rnd (Suc n) r'' = Some r'"
      using step(2) False e by (auto simp: Let_def split: if_splits)
    with step(1) have "(\<exists>k \<ge> Suc n. stops rp operation cancel k) \<or> (0 \<le> MaxAttempts rp \<and> MaxAttempts rp < int (Suc n))"
      by blast
    with e(4) show ?thesis by (auto intro: Suc_leD)
  qed auto
qed

lemma first_stop:
  assumes "stops rp operation cancel k"
  obtains n where "n \<le> k" "stops rp operation cancel n" "\<forall>j < n. \<not> stops rp operation cancel j"
  using assms by (metis (mono_tags) Least_le LeastI not_less_Least)

lemma bounded_stops: "0 \<le> MaxAttempts rp \<Longrightarrow> stops rp operation cancel (nat (MaxAttempts rp))"
  by (auto simp: stops_def split: option.splits)

lemma execute_returns_iff:
  "retry_Execute rp operation cancel rnd = Some r \<longleftrightarrow>
     (\<exists>n. stops rp operation cancel n \<and> (\<forall>k < n. \<not> stops rp operation cancel k) \<and> r = outcome rp operation cancel rnd n)"
proof (cases "MaxAttempts rp = 0")
  case True
  have "stops rp operation cancel 0" using bounded_stops [of rp operation cancel] True by simp
  moreover from this have "(stops rp operation cancel n \<and> (\<forall>k < n. \<not> stops rp operation cancel k)) \<longleftrightarrow> n = 0" for n
    by (metis gr0I not_less0)
  moreover have "retry_Execute rp operation cancel rnd = Some (outcome rp operation cancel rnd 0)"
    using True by (auto simp: retry_Execute_def outcome_def new_result_def total_backoff_def Let_def wrap64_def
        split: option.splits)
  ultimately show ?thesis by auto
next
  case False
  have fwd: "retry_Execute rp operation cancel rnd = Some (outcome rp operation cancel rnd n)"
    if "stops rp operation cancel n" "\<forall>k < n. \<not> stops rp operation cancel k" for n
  proof -
    have "MaxAttempts rp < 0 \<or> int n \<le> MaxAttempts rp"
    proof (rule ccontr)
      assume "\<not> ?thesis"
      then have "0 \<le> MaxAttempts rp" "nat (MaxAttempts rp) < n" by auto
      with that(2) bounded_stops [of rp operation cancel] show False by blast
    qed
    with execute_loop_returns [OF that] False show ?thesis by (simp add: retry_Execute_def)
  qed
  show ?thesis
  proof
    assume r: "retry_Execute rp operation cancel rnd = Some r"
    then have "\<exists>k. stops rp operation cancel k"
      using False execute_loop_stops [of rp operation cancel rnd 0 new_result r] by (auto simp: retry_Execute_def)
    then obtain k where "stops rp operation cancel k" ..
    then obtain n where "stops rp operation cancel n" "\<forall>j < n. \<not> stops rp operation cancel j" by (rule first_stop)
    with fwd r show "\<exists>n. stops rp operation cancel n \<and> (\<forall>k < n. \<not> stops rp operation cancel k) \<and> r = outcome rp operation cancel rnd n"
      by (metis option.inject)
  qed (use fwd in auto)
qed

text \<open>C7: \<open>Execute\<close> returns exactly when some attempt succeeds, fails with an error the policy refuses,
  uses up the attempts or is followed by a cancelled wait, and then its result is that of the first such
  attempt: the number of attempts made, whether the last one succeeded, its error or the context's, and the
  sum of all backoffs waited for. A policy that is not infinite always returns, after at most
  \<open>MaxAttempts + 1\<close> attempts; a policy with negative \<open>MaxAttempts\<close> runs forever when no attempt stops it.\<close>

theorem execute_outcome:
  "(retry_Execute rp operation cancel rnd = Some r \<longleftrightarrow>
      (\<exists>n. stops rp operation cancel n \<and> (\<forall>k < n. \<not> stops rp operation cancel k) \<and> r = outcome rp operation cancel rnd n)) \<and>
   (0 \<le> MaxAttempts rp \<longrightarrow>
      (\<exists>r. retry_Execute rp operation cancel rnd = Some r \<and> Attempts r \<le> MaxAttempts rp + 1)) \<and>
   (retry_Execute rp operation cancel rnd = None \<longleftrightarrow> (\<forall>n. \<not> stops rp operation cancel n))"
proof (intro conjI impI)
  assume "0 \<le> MaxAttempts rp"
  with bounded_stops obtain n where n: "n \<le> nat (MaxAttempts rp)" "stops rp operation cancel n"
    "\<forall>j < n. \<not> stops rp operation cancel j"
    by (meson first_stop)
  then have "retry_Execute rp operation cancel rnd = Some (outcome rp operation cancel rnd n)"
    by (auto simp: execute_returns_iff)
  moreover have "Attempts (outcome rp operation cancel rnd n) \<le> MaxAttempts rp + 1"
    using n(1) \<open>0 \<le> MaxAttempts rp\<close> by (simp add: outcome_def Let_def)
  ultimately show "\<exists>r. retry_Execute rp operation cancel rnd = Some r \<and> Attempts r \<le> MaxAttempts rp + 1" by blast
next
  show "retry_Execute rp operation cancel rnd = None \<longleftrightarrow> (\<forall>n. \<not> stops rp operation cancel n)"
    by (metis execute_returns_iff first_stop not_None_eq)
qed (rule execute_returns_iff)

theorem execute_outcome_witness:
  "\<exists>r. retry_Execute DefaultRetryPolicy (\<lambda>n. Some IoEOF) (\<lambda>n. None) (\<lambda>n. 0) = Some r \<and>
     Attempts r \<le> MaxAttempts DefaultRetryPolicy + 1"
proof -
  have "0 \<le> MaxAttempts DefaultRetryPolicy" by (simp add: DefaultRetryPolicy_def)
  then show ?thesis
    using execute_outcome [of DefaultRetryPolicy "\<lambda>n. Some IoEOF" "\<lambda>n. None" "\<lambda>n. 0"] by blast
qed

section \<open>Execution with a callback\<close>

lemma callback_execute:
  assumes run: "callback_loop rp cb operation cancel rnd n r tr = Some res"
  shows "execute_loop rp operation cancel rnd n r = Some (fst res)"
proof (rule callback_loop.raw_induct [where P = "\<lambda>rp cb operation cancel rnd n r tr res.
    execute_loop rp operation cancel rnd n r = Some (fst res)", OF _ run], goal_cases step)
  case (step f rp cb operation cancel rnd n r tr res)
  then show ?case
    by (cases res; subst execute_loop.simps) (fastforce simp: Let_def split: if_splits option.splits)
qed

lemma execute_callback:
  assumes run: "execute_loop rp operation cancel rnd n r = Some r'"
  shows "\<exists>tr'. callback_loop rp cb operation cancel rnd n r tr = Some (r', tr')"
proof -
  have "\<forall>tr. \<exists>tr'. callback_loop rp cb operation cancel rnd n r tr = Some (r', tr')"
  proof (rule execute_loop.raw_induct [where P = "\<lambda>rp operation cancel rnd n r r'.
      \<forall>tr. \<exists>tr'. callback_loop rp cb operation cancel rnd n r tr = Some (r', tr')", OF _ run], goal_cases step)
    case (step f rp operation cancel rnd n r r')
    then show ?case
      by (subst callback_loop.simps) (auto simp: Let_def split: if_splits option.splits)
  qed
  then show ?thesis ..
qed

text \<open>What the callback is told about the failure of attempt \<open>n\<close>: its number counted from 1, its error
  and the backoff that follows, 0 when none follows.\<close>

definition announced :: "RetryPolicy \<Rightarrow> (nat \<Rightarrow> err option) \<Rightarrow> (nat \<Rightarrow> rat) \<Rightarrow> nat \<Rightarrow> int \<times> err option \<times> duration" where
  "announced rp operation rnd n =
     (int n + 1, operation n,
      case operation n of
        None \<Rightarrow> 0
      | Some e \<Rightarrow> if refuses rp e \<or> (0 \<le> MaxAttempts rp \<and> MaxAttempts rp \<le> int n) then 0
                 else calculateBackoff rp (rnd n) n)"

definition failures :: "RetryResult \<Rightarrow> nat" where
  "failures r = nat (if Success r then Attempts r - 1 else Attempts r)"

lemma callback_trace:
  assumes run: "callback_loop rp cb operation cancel rnd n r tr = Some res"
    and "cb" "Attempts r = int n" "\<not> Success r" "tr = map (announced rp operation rnd) [0..<n]"
    and "MaxAttempts rp < 0 \<or> int n \<le> MaxAttempts rp"
  shows "snd res = map (announced rp operation rnd) [0..<failures (fst res)]"
proof -
  let ?P = "\<lambda>rp cb operation cancel rnd n r tr res.
     cb \<and> Attempts r = int n \<and> \<not> Success r \<and> tr = map (announced rp operation rnd) [0..<n] \<and>
     (MaxAttempts rp < 0 \<or> int n \<le> MaxAttempts rp) \<longrightarrow>
     snd res = map (announced rp operation rnd) [0..<failures (fst res)]"
  have "?P rp cb operation cancel rnd n r tr res"
  proof (rule callback_loop.raw_induct [where P = ?P, OF _ run], goal_cases step)
    case (step f rp cb operation cancel rnd n r tr res)
    show ?case
    proof (intro impI, elim conjE)
      assume pre: "cb" "Attempts r = int n" "\<not> Success r" "tr = map (announced rp operation rnd) [0..<n]"
        "MaxAttempts rp < 0 \<or> int n \<le> MaxAttempts rp"
      show "snd res = map (announced rp operation rnd) [0..<failures (fst res)]"
      proof (cases "\<exists>e. operation n = Some e \<and> \<not> refuses rp e \<and>
          \<not> (0 \<le> MaxAttempts rp \<and> MaxAttempts rp \<le> int n) \<and> cancel n = None")
        case True
        then obtain e where e: "operation n = Some e" "\<not> refuses rp e"
          "\<not> (0 \<le> MaxAttempts rp \<and> MaxAttempts rp \<le> int n)" "cancel n = None" by blast
        define r3 where "r3 = r\<lparr>Attempts := Attempts r + 1, LastError := Some e,
           TotalBackoff := wrap64 (TotalBackoff r + calculateBackoff rp (rnd n) n)\<rparr>"
        define tr3 where "tr3 = map (announced rp operation rnd) [0..<Suc n]"
        have "f rp cb operation cancel rnd (Suc n) r3 tr3 = Some res"
          using step(2) pre e by (auto simp: Let_def r3_def tr3_def call_back_def announced_def split: if_splits)
        from step(1) [OF this] show ?thesis using pre e by (auto simp: r3_def tr3_def)
      next
        case False
        have "failures (fst res) = (if operation n = None then n else Suc n) \<and>
            snd res = (if operation n = None then tr else tr @ [announced rp operation rnd n])"
          using step(2) pre(1,2,3,5) False
          by (cases "operation n"; cases "cancel n"; cases "0 \<le> MaxAttempts rp \<and> MaxAttempts rp \<le> int n")
            (simp_all add: Let_def call_back_def failures_def announced_def nat_add_distrib split: if_splits,
              auto simp: nat_add_distrib)
        with pre(4) show ?thesis by simp
      qed
    qed
  qed
  with assms show ?thesis by blast
qed

text \<open>\<open>ExecuteWithCallback\<close> returns what \<open>Execute\<close> returns for the same operation, context and
  random numbers, with or without a callback, and a non-nil callback is called once per failed attempt, in order,
  with the attempt number, the error and the backoff that follows (0 when the execution gives up).\<close>

theorem callback_agrees:
  "map_option fst (ExecuteWithCallback rp cb operation cancel rnd) = retry_Execute rp operation cancel rnd \<and>
   (cb \<and> ExecuteWithCallback rp cb operation cancel rnd = Some (r, tr) \<longrightarrow>
      tr = map (announced rp operation rnd) [0..<failures r])"
proof (cases "MaxAttempts rp = 0")
  case True
  then show ?thesis
    by (auto simp: ExecuteWithCallback_def retry_Execute_def failures_def announced_def call_back_def split: option.splits)
next
  case False
  have "map_option fst (callback_loop rp cb operation cancel rnd 0 new_result []) =
      execute_loop rp operation cancel rnd 0 new_result"
    by (cases "callback_loop rp cb operation cancel rnd 0 new_result []";
        cases "execute_loop rp operation cancel rnd 0 new_result")
      (auto dest: callback_execute execute_callback [where cb = cb and tr = "[]"])
  moreover have "tr = map (announced rp operation rnd) [0..<failures r]"
    if "cb" "callback_loop rp cb operation cancel rnd 0 new_result [] = Some (r, tr)"
    using callback_trace [OF that(2,1)] by (simp add: new_result_def linorder_not_less [symmetric])
  ultimately show ?thesis using False by (auto simp: ExecuteWithCallback_def retry_Execute_def)
qed

theorem callback_agrees_witness:
  "True \<and> ExecuteWithCallback NoRetryPolicy True (\<lambda>n. Some IoEOF) (\<lambda>n. None) (\<lambda>n. 0) =
       Some (\<lparr>Success = False, Attempts = 1, LastError = Some IoEOF, TotalBackoff = 0\<rparr>, [(1, Some IoEOF, 0)]) \<and>
   [(1, Some IoEOF, 0)] = map (announced NoRetryPolicy (\<lambda>n. Some IoEOF) (\<lambda>n. 0)) [0..<1]"
proof -
  let ?r = "\<lparr>Success = False, Attempts = 1, LastError = Some IoEOF, TotalBackoff = 0\<rparr>"
  have run: "ExecuteWithCallback NoRetryPolicy True (\<lambda>n. Some IoEOF) (\<lambda>n. None) (\<lambda>n. 0) =
      Some (?r, [(1, Some IoEOF, 0)])"
    by (simp add: ExecuteWithCallback_def NoRetryPolicy_def new_result_def call_back_def)
  moreover have "failures ?r = 1" by (simp add: failures_def)
  ultimately show ?thesis
    using callback_agrees [of NoRetryPolicy True "\<lambda>n. Some IoEOF" "\<lambda>n. None" "\<lambda>n. 0" ?r "[(1, Some IoEOF, 0)]"]
    by simp
qed

section \<open>Bounds of the backoff\<close>

lemma trunc_nonneg: "0 \<le> x \<Longrightarrow> 0 \<le> trunc x" by (simp add: trunc_def)

lemma trunc_mono: "0 \<le> x \<Longrightarrow> x \<le> y \<Longrightarrow> trunc x \<le> trunc y"
  by (auto simp: trunc_def floor_mono)

lemma trunc_of_int [simp]: "0 \<le> i \<Longrightarrow> trunc (of_int i) = i"
  by (simp add: trunc_def)

text \<open>The exponential part with its cap, before jitter.\<close>

definition capped :: "RetryPolicy \<Rightarrow> nat \<Rightarrow> rat" where
  "capped rp n = min (of_int (MaxBackoff rp)) (of_int (InitialBackoff rp) * BackoffMultiplier rp ^ n)"

text \<open>For a policy with non-negative durations and multiplier and a jitter fraction in \<open>[0, 1]\<close>, the
  backoff after attempt \<open>n\<close> lies between \<open>(1 - Jitter)\<close> and \<open>(1 + Jitter)\<close> times the exponential value
  capped at \<open>MaxBackoff\<close>; without jitter it is that value, and so at most \<open>MaxBackoff\<close>.\<close>

theorem backoff_bounds:
  assumes "0 \<le> InitialBackoff rp" "0 \<le> MaxBackoff rp" "0 \<le> BackoffMultiplier rp" "0 \<le> Jitter rp" "Jitter rp \<le> 1"
    and "0 \<le> x" "x < 1"
  shows "trunc ((1 - Jitter rp) * capped rp n) \<le> calculateBackoff rp x n \<and>
         calculateBackoff rp x n \<le> trunc ((1 + Jitter rp) * capped rp n) \<and>
         0 \<le> calculateBackoff rp x n \<and>
         (Jitter rp = 0 \<longrightarrow> calculateBackoff rp x n = trunc (capped rp n) \<and> calculateBackoff rp x n \<le> MaxBackoff rp)"
proof -
  let ?c = "capped rp n"
  have c: "0 \<le> ?c" using assms(1-3) by (simp add: capped_def)
  define b where "b = ?c + (x * 2 - 1) * (?c * Jitter rp)"
  have cj: "0 \<le> ?c * Jitter rp" using c assms(4) by simp
  have lo: "(1 - Jitter rp) * ?c \<le> b"
    using mult_right_mono [OF _ cj, of "-1" "x * 2 - 1"] assms(6) by (simp add: b_def algebra_simps)
  have hi: "b \<le> (1 + Jitter rp) * ?c"
    using mult_right_mono [OF _ cj, of "x * 2 - 1" 1] assms(7) by (simp add: b_def algebra_simps)
  have lo0: "0 \<le> (1 - Jitter rp) * ?c" using c assms(5) by simp
  then have b0: "0 \<le> b" using lo by linarith
  have calc: "calculateBackoff rp x n = trunc b"
  proof (cases "0 < Jitter rp")
    case True
    have "calculateBackoff rp x n = trunc (if b < 0 then of_int (InitialBackoff rp) else b)"
      using True by (simp add: calculateBackoff_def Let_def b_def capped_def min_def)
    with b0 show ?thesis by simp
  next
    case False
    with assms(4) have "Jitter rp = 0" by simp
    then show ?thesis by (simp add: calculateBackoff_def Let_def b_def capped_def min_def)
  qed
  have "trunc ?c \<le> MaxBackoff rp"
    using trunc_mono [OF c, of "of_int (MaxBackoff rp)"] assms(2) by (simp add: capped_def)
  moreover have "Jitter rp = 0 \<longrightarrow> b = ?c" by (simp add: b_def)
  ultimately show ?thesis
    using calc trunc_mono [OF lo0 lo] trunc_mono [OF b0 hi] trunc_nonneg [OF b0] by auto
qed

theorem backoff_bounds_witness:
  "0 \<le> calculateBackoff DefaultRetryPolicy (1 / 2) 3 \<and>
   calculateBackoff DefaultRetryPolicy (1 / 2) 3 \<le> trunc ((1 + Jitter DefaultRetryPolicy) * capped DefaultRetryPolicy 3)"
  using backoff_bounds [of DefaultRetryPolicy "1 / 2" 3]
  by (simp add: DefaultRetryPolicy_def gotime)

text \<open>Jitter is added after the cap, so the wait of the default policy exceeds its \<open>MaxBackoff\<close> of 30
  seconds: from the ninth backoff on, with a random number of 3/4, it is 31.5 seconds.\<close>

theorem jitter_exceeds_cap:
  "calculateBackoff DefaultRetryPolicy (3 / 4) 9 = 31500 * millisecond \<and>
   MaxBackoff DefaultRetryPolicy < calculateBackoff DefaultRetryPolicy (3 / 4) 9"
  by (simp add: calculateBackoff_def DefaultRetryPolicy_def gotime trunc_def Let_def)

end
