(* ===== verification/Join_State.thy ===== *)
theory Join_State
  imports Stream_Types "HOL-Library.Multiset"
begin

text \<open>
  The configuration and the state of the stream joins, \<open>pkg/join/types.go\<close> and
  \<open>pkg/join/state.go\<close>: join types and strategies, results, the configuration with its setters, stored
  events, and the two per-key stores with their metrics. A \<open>*StoredEvent\<close> is a stored event with its
  address \<open>se_addr\<close>, so that \<open>IncrementMatchCount\<close>, which writes through the pointer, changes the entry
  with that address and no other. The counters of \<open>JoinMetrics\<close> are \<open>int64\<close> and wrap. The layout of
  \<open>Time.Format(time.RFC3339)\<close> is a parameter \<open>fmt\<close>.
\<close>

section \<open>Join types, results and configuration\<close>

datatype JoinType = InnerJoin | LeftOuterJoin | RightOuterJoin | FullOuterJoin

fun JoinType_String :: "JoinType \<Rightarrow> string" where
  "JoinType_String InnerJoin = ''INNER''"
| "JoinType_String LeftOuterJoin = ''LEFT_OUTER''"
| "JoinType_String RightOuterJoin = ''RIGHT_OUTER''"
| "JoinType_String FullOuterJoin = ''FULL_OUTER''"

datatype JoinStrategy = HashJoin | SortMergeJoin | NestedLoopJoin

fun JoinStrategy_String :: "JoinStrategy \<Rightarrow> string" where
  "JoinStrategy_String HashJoin = ''HASH''"
| "JoinStrategy_String SortMergeJoin = ''SORT_MERGE''"
| "JoinStrategy_String NestedLoopJoin = ''NESTED_LOOP''"

type_synonym 'v JoinCondition = "'v event \<Rightarrow> 'v event \<Rightarrow> bool"

record 'v JoinResult =
  jr_Left :: "'v event option"
  jr_Right :: "'v event option"
  jr_EventTime :: gtime
  JoinKey :: string

text \<open>The value of a joined event is the map with the entries \<open>left\<close> and \<open>right\<close>.\<close>

type_synonym 'v joined = "(string \<rightharpoonup> 'v) event"

definition ToEvent :: "(gtime \<Rightarrow> string) \<Rightarrow> 'v JoinResult \<Rightarrow> 'v joined" where
  "ToEvent fmt jr =
     (let value0 = Map.empty;
          value1 = (case jr_Left jr of Some l \<Rightarrow> value0(''left'' \<mapsto> Value l) | None \<Rightarrow> value0);
          value2 = (case jr_Right jr of Some r \<Rightarrow> value1(''right'' \<mapsto> Value r) | None \<Rightarrow> value1);
          headers0 = Map.empty;
          headers1 = (case jr_Left jr of
                        Some l \<Rightarrow> headers0(''left_key'' \<mapsto> Key l, ''left_time'' \<mapsto> fmt (EventTime l))
                      | None \<Rightarrow> headers0);
          headers2 = (case jr_Right jr of
                        Some r \<Rightarrow> headers1(''right_key'' \<mapsto> Key r, ''right_time'' \<mapsto> fmt (EventTime r))
                      | None \<Rightarrow> headers1)
      in mk_event (JoinKey jr) value2 (jr_EventTime jr) headers2)"

record 'v JoinConfig =
  JType :: JoinType
  Strategy :: JoinStrategy
  Condition :: "'v JoinCondition option"
  TimeWindow :: duration
  LowerBound :: duration
  UpperBound :: duration
  AllowedLateness :: duration
  StateRetention :: duration
  MaxStateSize :: int
  EnableCleanup :: bool
  CleanupInterval :: duration

definition DefaultJoinConfig :: "'v JoinConfig" where
  "DefaultJoinConfig =
     \<lparr>JType = InnerJoin, Strategy = HashJoin, Condition = None, TimeWindow = 5 * minute,
      LowerBound = 0, UpperBound = 0, AllowedLateness = 30 * second, StateRetention = 10 * minute,
      MaxStateSize = 10000, EnableCleanup = True, CleanupInterval = 1 * minute\<rparr>"

definition WithJoinType :: "JoinType \<Rightarrow> 'v JoinConfig \<Rightarrow> 'v JoinConfig" where
  "WithJoinType joinType c = c\<lparr>JType := joinType\<rparr>"

definition WithStrategy :: "JoinStrategy \<Rightarrow> 'v JoinConfig \<Rightarrow> 'v JoinConfig" where
  "WithStrategy strategy c = c\<lparr>Strategy := strategy\<rparr>"

definition WithCondition :: "'v JoinCondition \<Rightarrow> 'v JoinConfig \<Rightarrow> 'v JoinConfig" where
  "WithCondition condition c = c\<lparr>Condition := Some condition\<rparr>"

definition WithTimeWindow :: "duration \<Rightarrow> 'v JoinConfig \<Rightarrow> 'v JoinConfig" where
  "WithTimeWindow w c = c\<lparr>TimeWindow := w\<rparr>"

definition WithIntervalBounds :: "duration \<Rightarrow> duration \<Rightarrow> 'v JoinConfig \<Rightarrow> 'v JoinConfig" where
  "WithIntervalBounds lower upper c = c\<lparr>LowerBound := lower, UpperBound := upper\<rparr>"

definition WithStateRetention :: "duration \<Rightarrow> 'v JoinConfig \<Rightarrow> 'v JoinConfig" where
  "WithStateRetention retention c = c\<lparr>StateRetention := retention\<rparr>"

definition WithMaxStateSize :: "int \<Rightarrow> 'v JoinConfig \<Rightarrow> 'v JoinConfig" where
  "WithMaxStateSize n c = c\<lparr>MaxStateSize := n\<rparr>"

definition EqualityCondition :: "'v JoinCondition" where
  "EqualityCondition left right \<longleftrightarrow> Key left = Key right"

definition CustomCondition :: "'v JoinCondition \<Rightarrow> 'v JoinCondition" where
  "CustomCondition predicate = predicate"

section \<open>Stored events and the join state\<close>

datatype Side = LeftSide | RightSide

record 'v StoredEvent =
  se_addr :: nat
  se_Event :: "'v event"
  se_Side :: Side
  StoredAt :: gtime
  ExpiresAt :: gtime
  MatchCount :: int

definition IsExpired :: "'v StoredEvent \<Rightarrow> gtime \<Rightarrow> bool" where
  "IsExpired se now = time_After now (ExpiresAt se)"

record JoinMetrics =
  LeftEventsReceived :: i64
  RightEventsReceived :: i64
  MatchesFound :: i64
  LeftUnmatched :: i64
  RightUnmatched :: i64
  StateSize :: i64
  ExpiredEvents :: i64
  CleanupRuns :: i64

type_synonym 'v side_store = "string \<rightharpoonup> 'v StoredEvent list"

record 'v JoinState =
  leftState :: "'v side_store"
  rightState :: "'v side_store"
  js_config :: "'v JoinConfig"
  js_metrics :: JoinMetrics
  next_addr :: nat

definition NewJoinState :: "'v JoinConfig \<Rightarrow> 'v JoinState" where
  "NewJoinState config =
     \<lparr>leftState = Map.empty, rightState = Map.empty, js_config = config,
      js_metrics = \<lparr>LeftEventsReceived = 0, RightEventsReceived = 0, MatchesFound = 0, LeftUnmatched = 0,
        RightUnmatched = 0, StateSize = 0, ExpiredEvents = 0, CleanupRuns = 0\<rparr>,
      next_addr = 0\<rparr>"

text \<open>The choice \<open>stateMap := js.leftState; if side == RightSide ...\<close> and the write to that map.\<close>

definition stateMap :: "Side \<Rightarrow> 'v JoinState \<Rightarrow> 'v side_store" where
  "stateMap side js = (if side = RightSide then rightState js else leftState js)"

definition set_stateMap :: "Side \<Rightarrow> 'v side_store \<Rightarrow> 'v JoinState \<Rightarrow> 'v JoinState" where
  "set_stateMap side m js = (if side = RightSide then js\<lparr>rightState := m\<rparr> else js\<lparr>leftState := m\<rparr>)"

definition add_StateSize :: "i64 \<Rightarrow> 'v JoinState \<Rightarrow> 'v JoinState" where
  "add_StateSize d js = js\<lparr>js_metrics := (js_metrics js)\<lparr>StateSize := StateSize (js_metrics js) + d\<rparr>\<rparr>"

definition enforceMaxStateSize :: "string \<Rightarrow> Side \<Rightarrow> 'v JoinState \<Rightarrow> 'v JoinState" where
  "enforceMaxStateSize key side js =
     (if MaxStateSize (js_config js) \<le> 0 then js
      else
        (let events = get_or (stateMap side js) key [] in
         if MaxStateSize (js_config js) < int (length events)
         then (let removed = length events - nat (MaxStateSize (js_config js))
               in add_StateSize (- of_nat removed)
                    (set_stateMap side ((stateMap side js)(key \<mapsto> drop removed events)) js))
         else js))"

definition AddLeftEvent :: "gtime \<Rightarrow> 'v event \<Rightarrow> gtime \<Rightarrow> 'v JoinState \<Rightarrow> 'v JoinState" where
  "AddLeftEvent now event expiresAt js =
     (let stored = \<lparr>se_addr = next_addr js, se_Event = event, se_Side = LeftSide, StoredAt = now,
                    ExpiresAt = expiresAt, MatchCount = 0\<rparr>;
          key = Key event;
          js1 = js\<lparr>next_addr := Suc (next_addr js),
                   leftState := (leftState js)(key \<mapsto> get_or (leftState js) key [] @ [stored])\<rparr>;
          js2 = js1\<lparr>js_metrics := (js_metrics js1)\<lparr>LeftEventsReceived := LeftEventsReceived (js_metrics js1) + 1\<rparr>\<rparr>;
          js3 = add_StateSize 1 js2
      in enforceMaxStateSize key LeftSide js3)"

definition AddRightEvent :: "gtime \<Rightarrow> 'v event \<Rightarrow> gtime \<Rightarrow> 'v JoinState \<Rightarrow> 'v JoinState" where
  "AddRightEvent now event expiresAt js =
     (let stored = \<lparr>se_addr = next_addr js, se_Event = event, se_Side = RightSide, StoredAt = now,
                    ExpiresAt = expiresAt, MatchCount = 0\<rparr>;
          key = Key event;
          js1 = js\<lparr>next_addr := Suc (next_addr js),
                   rightState := (rightState js)(key \<mapsto> get_or (rightState js) key [] @ [stored])\<rparr>;
          js2 = js1\<lparr>js_metrics := (js_metrics js1)\<lparr>RightEventsReceived := RightEventsReceived (js_metrics js1) + 1\<rparr>\<rparr>;
          js3 = add_StateSize 1 js2
      in enforceMaxStateSize key RightSide js3)"

definition GetLeftEvents :: "string \<Rightarrow> 'v JoinState \<Rightarrow> 'v StoredEvent list" where
  "GetLeftEvents key js = get_or (leftState js) key []"

definition GetRightEvents :: "string \<Rightarrow> 'v JoinState \<Rightarrow> 'v StoredEvent list" where
  "GetRightEvents key js = get_or (rightState js) key []"

text \<open>The key lists come in the order of the map iteration, an argument here as in the operators.\<close>

definition GetAllLeftKeys :: "string list \<Rightarrow> 'v JoinState \<Rightarrow> string list" where
  "GetAllLeftKeys ks js = filter (\<lambda>k. leftState js k \<noteq> None) ks"

definition GetAllRightKeys :: "string list \<Rightarrow> 'v JoinState \<Rightarrow> string list" where
  "GetAllRightKeys ks js = filter (\<lambda>k. rightState js k \<noteq> None) ks"

text \<open>\<open>event.MatchCount++\<close> through the pointer with address \<open>a\<close>.\<close>

definition bump :: "nat \<Rightarrow> 'v StoredEvent \<Rightarrow> 'v StoredEvent" where
  "bump a se = (if se_addr se = a then se\<lparr>MatchCount := MatchCount se + 1\<rparr> else se)"

definition IncrementMatchCount :: "nat \<Rightarrow> 'v JoinState \<Rightarrow> 'v JoinState" where
  "IncrementMatchCount a js =
     (let js1 = js\<lparr>leftState := (\<lambda>k. map_option (map (bump a)) (leftState js k)),
                   rightState := (\<lambda>k. map_option (map (bump a)) (rightState js k))\<rparr>
      in js1\<lparr>js_metrics := (js_metrics js1)\<lparr>MatchesFound := MatchesFound (js_metrics js1) + 1\<rparr>\<rparr>)"

text \<open>One iteration of the loop over the keys in \<open>removeExpiredFromSide\<close>, on the map, the expired events
  collected so far and the size counter.\<close>

definition expire_key ::
  "gtime \<Rightarrow> string \<Rightarrow> 'v side_store \<times> 'v StoredEvent list \<times> i64 \<Rightarrow> 'v side_store \<times> 'v StoredEvent list \<times> i64" where
  "expire_key now key s =
     (let (m, expired, n) = s;
          events = get_or m key [];
          gone = filter (\<lambda>se. IsExpired se now) events;
          kept = filter (\<lambda>se. \<not> IsExpired se now) events
      in (if kept = [] then m(key := None) else m(key \<mapsto> kept), expired @ gone, n - of_nat (length gone)))"

definition removeExpiredFromSide ::
  "gtime \<Rightarrow> Side \<Rightarrow> string list \<Rightarrow> 'v JoinState \<Rightarrow> 'v StoredEvent list \<times> 'v JoinState" where
  "removeExpiredFromSide now side ks js =
     (let (m, expired, n) = fold (expire_key now) ks (stateMap side js, [], StateSize (js_metrics js))
      in (expired, (set_stateMap side m js)\<lparr>js_metrics := (js_metrics js)\<lparr>StateSize := n\<rparr>\<rparr>))"

definition RemoveExpiredEvents ::
  "gtime \<Rightarrow> string list \<Rightarrow> string list \<Rightarrow> 'v JoinState \<Rightarrow> 'v StoredEvent list \<times> 'v StoredEvent list \<times> 'v JoinState" where
  "RemoveExpiredEvents now lks rks js =
     (let (left, js1) = removeExpiredFromSide now LeftSide lks js;
          (right, js2) = removeExpiredFromSide now RightSide rks js1;
          js3 = js2\<lparr>js_metrics := (js_metrics js2)\<lparr>
            ExpiredEvents := ExpiredEvents (js_metrics js2) + of_nat (length left + length right),
            CleanupRuns := CleanupRuns (js_metrics js2) + 1\<rparr>\<rparr>
      in (left, right, js3))"

definition js_GetMetrics :: "'v JoinState \<Rightarrow> JoinMetrics" where
  "js_GetMetrics js = js_metrics js"

definition js_Clear :: "'v JoinState \<Rightarrow> 'v JoinState" where
  "js_Clear js = js\<lparr>leftState := Map.empty, rightState := Map.empty,
     js_metrics := (js_metrics js)\<lparr>StateSize := 0\<rparr>\<rparr>"

definition js_Size :: "string list \<Rightarrow> string list \<Rightarrow> 'v JoinState \<Rightarrow> nat" where
  "js_Size lks rks js =
     sum_list (map (\<lambda>k. length (get_or (leftState js) k [])) lks) +
     sum_list (map (\<lambda>k. length (get_or (rightState js) k [])) rks)"

section \<open>Sizes of the stores\<close>

named_theorems join_defs \<comment> \<open>the definitions of the state's operations\<close>

lemmas [join_defs] = stateMap_def set_stateMap_def add_StateSize_def Let_def

definition store_size :: "'v side_store \<Rightarrow> nat" where
  "store_size m = (\<Sum>k \<in> dom m. length (get_or m k []))"

lemma store_size_empty [simp]: "store_size Map.empty = 0"
  by (simp add: store_size_def)

lemma store_size_split:
  assumes "finite (dom m)"
  shows "store_size m = length (get_or m k []) + store_size (m(k := None))"
proof (cases "m k")
  case None
  then have "m(k := None) = m" by auto
  with None show ?thesis by simp
next
  case (Some es)
  then have "k \<in> dom m" by auto
  then have "store_size m = length (get_or m k []) + (\<Sum>j \<in> dom m - {k}. length (get_or m j []))"
    unfolding store_size_def using sum.remove [OF assms] by simp
  also have "(\<Sum>j \<in> dom m - {k}. length (get_or m j [])) = store_size (m(k := None))"
    unfolding store_size_def by (rule sum.cong) (auto simp: get_or_def)
  finally show ?thesis .
qed

lemma store_size_upd:
  assumes "finite (dom m)"
  shows "store_size (m(k \<mapsto> es)) + length (get_or m k []) = store_size m + length es"
  using store_size_split [OF assms, of k] store_size_split [of "m(k \<mapsto> es)" k] assms by simp

lemma store_size_del:
  assumes "finite (dom m)"
  shows "store_size (m(k := None)) + length (get_or m k []) = store_size m"
  using store_size_split [OF assms, of k] by simp

lemma store_size_order:
  assumes "range_order ks m"
  shows "sum_list (map (\<lambda>k. length (get_or m k [])) ks) = store_size m"
  using assms by (simp add: range_order_def store_size_def sum_list_distinct_conv_sum_set)

lemma store_size_map:
  "store_size (\<lambda>k. map_option (map f) (m k)) = store_size m"
proof -
  have "dom (\<lambda>k. map_option (map f) (m k)) = dom m" by auto
  moreover have "length (get_or (\<lambda>k. map_option (map f) (m k)) k []) = length (get_or m k [])" for k
    by (cases "m k") (simp_all add: get_or_def)
  ultimately show ?thesis by (simp add: store_size_def)
qed

section \<open>The invariant of the state\<close>

text \<open>One side: finitely many keys, no empty lists, every event under its own key and on its own side,
  no list longer than a positive \<open>MaxStateSize\<close>.\<close>

definition store_ok :: "int \<Rightarrow> Side \<Rightarrow> 'v side_store \<Rightarrow> bool" where
  "store_ok limit side m \<longleftrightarrow> finite (dom m) \<and>
     (\<forall>k es. m k = Some es \<longrightarrow> es \<noteq> [] \<and> (\<forall>se \<in> set es. Key (se_Event se) = k \<and> se_Side se = side) \<and>
        (0 < limit \<longrightarrow> int (length es) \<le> limit))"

definition js_inv :: "'v JoinState \<Rightarrow> bool" where
  "js_inv js \<longleftrightarrow>
     store_ok (MaxStateSize (js_config js)) LeftSide (leftState js) \<and>
     store_ok (MaxStateSize (js_config js)) RightSide (rightState js) \<and>
     StateSize (js_metrics js) = of_nat (store_size (leftState js) + store_size (rightState js))"

definition retain :: "int \<Rightarrow> 'a list \<Rightarrow> 'a list" where
  "retain limit xs = (if limit \<le> 0 then xs else drop (length xs - nat limit) xs)"

lemma retain_short: "limit \<le> 0 \<or> int (length xs) \<le> limit \<Longrightarrow> retain limit xs = xs"
  by (auto simp: retain_def)

lemma retain_length: "0 < limit \<Longrightarrow> int (length (retain limit xs)) \<le> limit"
  by (simp add: retain_def)

lemma retain_map: "retain limit (map f xs) = map f (retain limit xs)"
  by (simp add: retain_def drop_map)

lemma retain_not_Nil: "xs \<noteq> [] \<Longrightarrow> retain limit xs \<noteq> []"
proof -
  assume "xs \<noteq> []"
  then have "0 < length (retain limit xs)" unfolding retain_def by (cases "limit \<le> 0") simp_all
  then show ?thesis by auto
qed

lemma retain_subset: "set (retain limit xs) \<subseteq> set xs"
  by (auto simp: retain_def dest: in_set_dropD)

text \<open>Adding to a side: the list of the key is extended and cut to its most recent events.\<close>

lemma AddLeftEvent_other [simp]:
  "rightState (AddLeftEvent now e x js) = rightState js"
  "js_config (AddLeftEvent now e x js) = js_config js"
  by (simp_all add: AddLeftEvent_def enforceMaxStateSize_def join_defs)

lemma AddLeftEvent_store:
  "\<exists>stored. se_Event stored = e \<and> se_Side stored = LeftSide \<and> leftState (AddLeftEvent now e x js) =
     (leftState js)(Key e \<mapsto> retain (MaxStateSize (js_config js)) (get_or (leftState js) (Key e) [] @ [stored])) \<and>
     StateSize (js_metrics (AddLeftEvent now e x js)) + of_nat (length (get_or (leftState js) (Key e) [])) =
       StateSize (js_metrics js) +
         of_nat (length (retain (MaxStateSize (js_config js)) (get_or (leftState js) (Key e) [] @ [stored])))"
  by (rule exI [of _ "\<lparr>se_addr = next_addr js, se_Event = e, se_Side = LeftSide, StoredAt = now,
        ExpiresAt = x, MatchCount = 0\<rparr>"])
    (simp add: AddLeftEvent_def enforceMaxStateSize_def join_defs retain_def of_nat_diff nat_le_iff)

lemma AddRightEvent_other [simp]:
  "leftState (AddRightEvent now e x js) = leftState js"
  "js_config (AddRightEvent now e x js) = js_config js"
  by (simp_all add: AddRightEvent_def enforceMaxStateSize_def join_defs)

lemma AddRightEvent_store:
  "\<exists>stored. se_Event stored = e \<and> se_Side stored = RightSide \<and> rightState (AddRightEvent now e x js) =
     (rightState js)(Key e \<mapsto> retain (MaxStateSize (js_config js)) (get_or (rightState js) (Key e) [] @ [stored])) \<and>
     StateSize (js_metrics (AddRightEvent now e x js)) + of_nat (length (get_or (rightState js) (Key e) [])) =
       StateSize (js_metrics js) +
         of_nat (length (retain (MaxStateSize (js_config js)) (get_or (rightState js) (Key e) [] @ [stored])))"
  by (rule exI [of _ "\<lparr>se_addr = next_addr js, se_Event = e, se_Side = RightSide, StoredAt = now,
        ExpiresAt = x, MatchCount = 0\<rparr>"])
    (simp add: AddRightEvent_def enforceMaxStateSize_def join_defs retain_def of_nat_diff nat_le_iff)

lemma store_ok_add:
  assumes "store_ok limit side m" "Key (se_Event se) = k" "se_Side se = side"
  shows "store_ok limit side (m(k \<mapsto> retain limit (get_or m k [] @ [se])))"
  using assms retain_subset [of limit "get_or m k [] @ [se]"] retain_length [of limit "get_or m k [] @ [se]"]
  by (fastforce simp: store_ok_def retain_not_Nil get_or_def split: option.splits if_splits)

lemma size_counter:
  fixes s s' :: i64
  assumes "s' + of_nat a = s + of_nat b" "n' + a = n + b" "s = of_nat (n + c)"
  shows "s' = of_nat (n' + c)"
proof -
  have "of_nat n' + of_nat a = (of_nat n + of_nat b :: i64)"
    using arg_cong [OF assms(2), of "of_nat :: nat \<Rightarrow> i64"] by simp
  then have "of_nat n' = (of_nat n + of_nat b - of_nat a :: i64)" by (simp add: eq_diff_eq)
  moreover have "s' = s + of_nat b - of_nat a" using assms(1) by (simp add: eq_diff_eq)
  ultimately show ?thesis using assms(3) by simp
qed

lemma AddLeftEvent_inv: "js_inv js \<Longrightarrow> js_inv (AddLeftEvent now e x js)"
proof -
  assume inv: "js_inv js"
  obtain stored where st: "se_Event stored = e" "se_Side stored = LeftSide"
    and left: "leftState (AddLeftEvent now e x js) = (leftState js)(Key e \<mapsto>
      retain (MaxStateSize (js_config js)) (get_or (leftState js) (Key e) [] @ [stored]))"
    and sz: "StateSize (js_metrics (AddLeftEvent now e x js)) + of_nat (length (get_or (leftState js) (Key e) [])) =
       StateSize (js_metrics js) +
         of_nat (length (retain (MaxStateSize (js_config js)) (get_or (leftState js) (Key e) [] @ [stored])))"
    using AddLeftEvent_store [of e now x js] by blast
  have fin: "finite (dom (leftState js))" using inv by (simp add: js_inv_def store_ok_def)
  have "StateSize (js_metrics (AddLeftEvent now e x js)) =
      of_nat (store_size (leftState (AddLeftEvent now e x js)) + store_size (rightState js))"
    using size_counter [OF sz store_size_upd [OF fin], of "store_size (rightState js)"] inv
    unfolding left js_inv_def by (simp add: add.commute)
  moreover have "store_ok (MaxStateSize (js_config js)) LeftSide (leftState (AddLeftEvent now e x js))"
    unfolding left using inv st by (intro store_ok_add) (auto simp: js_inv_def)
  ultimately show ?thesis using inv by (simp add: js_inv_def)
qed

lemma AddRightEvent_inv: "js_inv js \<Longrightarrow> js_inv (AddRightEvent now e x js)"
proof -
  assume inv: "js_inv js"
  obtain stored where st: "se_Event stored = e" "se_Side stored = RightSide"
    and right: "rightState (AddRightEvent now e x js) = (rightState js)(Key e \<mapsto>
      retain (MaxStateSize (js_config js)) (get_or (rightState js) (Key e) [] @ [stored]))"
    and sz: "StateSize (js_metrics (AddRightEvent now e x js)) + of_nat (length (get_or (rightState js) (Key e) [])) =
       StateSize (js_metrics js) +
         of_nat (length (retain (MaxStateSize (js_config js)) (get_or (rightState js) (Key e) [] @ [stored])))"
    using AddRightEvent_store [of e now x js] by blast
  have fin: "finite (dom (rightState js))" using inv by (simp add: js_inv_def store_ok_def)
  have "StateSize (js_metrics (AddRightEvent now e x js)) =
      of_nat (store_size (leftState js) + store_size (rightState (AddRightEvent now e x js)))"
    using size_counter [OF sz store_size_upd [OF fin], of "store_size (leftState js)"] inv
    unfolding right js_inv_def by (simp add: add.commute)
  moreover have "store_ok (MaxStateSize (js_config js)) RightSide (rightState (AddRightEvent now e x js))"
    unfolding right using inv st by (intro store_ok_add) (auto simp: js_inv_def)
  ultimately show ?thesis using inv by (simp add: js_inv_def)
qed

lemma bump_sel [simp]:
  "se_Event (bump a se) = se_Event se" "se_Side (bump a se) = se_Side se" "se_addr (bump a se) = se_addr se"
  "ExpiresAt (bump a se) = ExpiresAt se"
  by (simp_all add: bump_def)

lemma IncrementMatchCount_inv: "js_inv js \<Longrightarrow> js_inv (IncrementMatchCount a js)"
proof -
  have "store_ok limit side m \<Longrightarrow> store_ok limit side (\<lambda>k. map_option (map (bump a)) (m k))"
    for limit side and m :: "'a side_store"
  proof -
    have "dom (\<lambda>k. map_option (map (bump a)) (m k)) = dom m" by auto
    then show "store_ok limit side m \<Longrightarrow> ?thesis" by (fastforce simp: store_ok_def)
  qed
  then show "js_inv js \<Longrightarrow> ?thesis"
    by (simp add: js_inv_def IncrementMatchCount_def store_size_map Let_def)
qed

section \<open>Expiry\<close>

text \<open>What expiry leaves of a side.\<close>

definition live :: "gtime \<Rightarrow> 'v side_store \<Rightarrow> 'v side_store" where
  "live now m = (\<lambda>k. case filter (\<lambda>se. \<not> IsExpired se now) (get_or m k []) of [] \<Rightarrow> None | es \<Rightarrow> Some es)"

definition expired_of :: "gtime \<Rightarrow> 'v side_store \<Rightarrow> string \<Rightarrow> 'v StoredEvent list" where
  "expired_of now m k = filter (\<lambda>se. IsExpired se now) (get_or m k [])"

lemma get_live [simp]: "get_or (live now m) k [] = filter (\<lambda>se. \<not> IsExpired se now) (get_or m k [])"
  by (cases "filter (\<lambda>se. \<not> IsExpired se now) (get_or m k [])")
    (simp_all add: live_def get_or_def [of "live now m"] del: filter_empty_conv)

lemma expire_key_eq:
  "expire_key now k (m, ex, n) =
     (m(k := live now m k), ex @ expired_of now m k, n - of_nat (length (expired_of now m k)))"
  by (auto simp: expire_key_def live_def expired_of_def Let_def split: list.splits)

lemma live_upd: "j \<noteq> k \<Longrightarrow> live now (m(k := v)) j = live now m j"
  by (simp add: live_def get_or_def)

lemma expired_of_upd: "j \<noteq> k \<Longrightarrow> expired_of now (m(k := v)) j = expired_of now m j"
  by (simp add: expired_of_def get_or_def)

lemma expire_fold:
  "distinct ks \<Longrightarrow> fold (expire_key now) ks (m, ex, n) =
     (\<lambda>k. if k \<in> set ks then live now m k else m k, ex @ concat (map (expired_of now m) ks),
      n - of_nat (length (concat (map (expired_of now m) ks))))"
proof (induction ks arbitrary: m ex n)
  case (Cons k ks)
  have "map (expired_of now (m(k := live now m k))) ks = map (expired_of now m) ks"
    using Cons.prems by (intro map_cong) (auto intro: expired_of_upd)
  moreover have "(\<lambda>j. if j \<in> set ks then live now (m(k := live now m k)) j else (m(k := live now m k)) j) =
      (\<lambda>j. if j \<in> set (k # ks) then live now m j else m j)"
  proof
    fix j
    show "(if j \<in> set ks then live now (m(k := live now m k)) j else (m(k := live now m k)) j) =
      (if j \<in> set (k # ks) then live now m j else m j)"
      using Cons.prems by (cases "j = k") (simp_all add: live_upd)
  qed
  ultimately show ?case using Cons
    by (simp add: expire_key_eq diff_diff_eq del: map_eq_conv fun_upd_apply list.set)
qed simp

lemma expire_order:
  assumes "range_order ks m"
  shows "fold (expire_key now) ks (m, ex, n) =
     (live now m, ex @ concat (map (expired_of now m) ks), n - of_nat (length (concat (map (expired_of now m) ks))))"
proof -
  have "live now m k = m k" if "k \<notin> set ks" for k
    using that assms by (auto simp: live_def range_order_def get_or_def)
  then have "(\<lambda>k. if k \<in> set ks then live now m k else m k) = live now m" by auto
  then show ?thesis using expire_fold [of ks now m ex n] assms by auto
qed

lemma expire_size:
  assumes "range_order ks m"
  shows "store_size (live now m) + length (concat (map (expired_of now m) ks)) = store_size m"
proof -
  have ks: "distinct ks" "set ks = dom m" using assms by (auto simp: range_order_def)
  have sub: "dom (live now m) \<subseteq> dom m" by (auto simp: live_def get_or_def split: option.splits)
  have "store_size (live now m) = (\<Sum>k \<in> dom m. length (get_or (live now m) k []))"
    unfolding store_size_def
    by (rule sum.mono_neutral_left [OF range_order_finite [OF assms] sub]) (auto simp del: get_live simp: get_or_def split: option.splits)
  moreover have "length (concat (map (expired_of now m) ks)) = (\<Sum>k \<in> dom m. length (expired_of now m k))"
    using ks by (simp add: length_concat o_def sum_list_distinct_conv_sum_set)
  moreover have "length (get_or m k []) = length (get_or (live now m) k []) + length (expired_of now m k)" for k
    using sum_length_filter_compl [of "\<lambda>se. IsExpired se now" "get_or m k []"] by (simp add: expired_of_def)
  ultimately show ?thesis unfolding store_size_def by (simp add: sum.distrib)
qed

lemma live_Some: "live now m k = Some es \<Longrightarrow>
    es \<noteq> [] \<and> (\<exists>es'. m k = Some es' \<and> es = filter (\<lambda>se. \<not> IsExpired se now) es')"
  by (cases "m k") (auto simp: live_def get_or_def split: list.splits)

lemma store_ok_live: "store_ok limit side m \<Longrightarrow> store_ok limit side (live now m)"
proof -
  assume ok: "store_ok limit side m"
  have "dom (live now m) \<subseteq> dom m" by (auto dest: live_Some)
  then have "finite (dom (live now m))" using ok by (simp add: store_ok_def finite_subset)
  moreover have "es \<noteq> [] \<and> (\<forall>se \<in> set es. Key (se_Event se) = k \<and> se_Side se = side) \<and> (0 < limit \<longrightarrow> int (length es) \<le> limit)"
    if l: "live now m k = Some es" for k es
  proof -
    obtain es' where es': "m k = Some es'" "es = filter (\<lambda>se. \<not> IsExpired se now) es'" "es \<noteq> []"
      using live_Some [OF l] by blast
    have "\<forall>se \<in> set es'. Key (se_Event se) = k \<and> se_Side se = side" "0 < limit \<longrightarrow> int (length es') \<le> limit"
      using ok es'(1) by (auto simp: store_ok_def)
    moreover have "int (length es) \<le> int (length es')" using es'(2) by simp
    ultimately have "0 < limit \<longrightarrow> int (length es) \<le> limit" by linarith
    then show ?thesis using es'(2,3) \<open>\<forall>se \<in> set es'. _\<close> by auto
  qed
  ultimately show ?thesis by (simp add: store_ok_def)
qed

lemma removeExpired_left:
  assumes "range_order ks (leftState js)"
  shows "removeExpiredFromSide now LeftSide ks js =
    (concat (map (expired_of now (leftState js)) ks),
     js\<lparr>leftState := live now (leftState js), js_metrics := (js_metrics js)\<lparr>StateSize := StateSize (js_metrics js) -
       of_nat (length (concat (map (expired_of now (leftState js)) ks)))\<rparr>\<rparr>)"
  using expire_order [OF assms] by (simp add: removeExpiredFromSide_def join_defs)

lemma removeExpired_right:
  assumes "range_order ks (rightState js)"
  shows "removeExpiredFromSide now RightSide ks js =
    (concat (map (expired_of now (rightState js)) ks),
     js\<lparr>rightState := live now (rightState js), js_metrics := (js_metrics js)\<lparr>StateSize := StateSize (js_metrics js) -
       of_nat (length (concat (map (expired_of now (rightState js)) ks)))\<rparr>\<rparr>)"
  using expire_order [OF assms] by (simp add: removeExpiredFromSide_def join_defs)

lemma RemoveExpired_spec:
  assumes "range_order lks (leftState js)" "range_order rks (rightState js)"
    and "RemoveExpiredEvents now lks rks js = (left, right, js')"
  shows "left = concat (map (expired_of now (leftState js)) lks) \<and> right = concat (map (expired_of now (rightState js)) rks) \<and>
    leftState js' = live now (leftState js) \<and> rightState js' = live now (rightState js) \<and> js_config js' = js_config js \<and>
    StateSize (js_metrics js') = StateSize (js_metrics js) - of_nat (length left) - of_nat (length right) \<and>
    ExpiredEvents (js_metrics js') = ExpiredEvents (js_metrics js) + of_nat (length left + length right)"
proof -
  define js1 where "js1 = snd (removeExpiredFromSide now LeftSide lks js)"
  have "range_order rks (rightState js1)" using assms(2) by (simp add: js1_def removeExpired_left [OF assms(1)])
  note right = removeExpired_right [OF this]
  show ?thesis
    using assms(3) right removeExpired_left [OF assms(1)]
    by (simp add: RemoveExpiredEvents_def js1_def Let_def) (auto simp: diff_diff_eq)
qed

lemma RemoveExpired_inv:
  assumes "js_inv js" "range_order lks (leftState js)" "range_order rks (rightState js)"
    and "RemoveExpiredEvents now lks rks js = (left, right, js')"
  shows "js_inv js'"
proof -
  note spec = RemoveExpired_spec [OF assms(2-4)]
  have "store_size (leftState js) = store_size (leftState js') + length left"
    "store_size (rightState js) = store_size (rightState js') + length right"
    using expire_size [OF assms(2), of now] expire_size [OF assms(3), of now] spec by simp_all
  then show ?thesis using assms(1) spec store_ok_live by (auto simp: js_inv_def)
qed

lemma js_Clear_inv: "js_inv (js_Clear js)"
  by (simp add: js_Clear_def js_inv_def store_ok_def)

section \<open>Runs of the state\<close>

inductive js_step :: "'v JoinState \<Rightarrow> 'v JoinState \<Rightarrow> bool" where
  add_left: "js_step js (AddLeftEvent now e x js)"
| add_right: "js_step js (AddRightEvent now e x js)"
| increment: "js_step js (IncrementMatchCount a js)"
| remove_expired: "range_order lks (leftState js) \<Longrightarrow> range_order rks (rightState js) \<Longrightarrow>
    RemoveExpiredEvents now lks rks js = (left, right, js') \<Longrightarrow> js_step js js'"
| clear: "js_step js (js_Clear js)"

definition js_init :: "'v JoinState \<Rightarrow> bool" where
  "js_init js \<longleftrightarrow> (\<exists>config. js = NewJoinState config)"

interpretation join_states: stepping js_init js_step js_inv
proof
  show "js_init s \<Longrightarrow> js_inv s" for s :: "'v JoinState"
    by (auto simp: js_init_def NewJoinState_def js_inv_def store_ok_def)
  show "js_inv s \<Longrightarrow> js_step s t \<Longrightarrow> js_inv t" for s t :: "'v JoinState"
    by (erule js_step.cases)
      (simp_all add: AddLeftEvent_inv AddRightEvent_inv IncrementMatchCount_inv RemoveExpired_inv js_Clear_inv)
qed

text \<open>C36: In every state the join operations lead to, the \<open>StateSize\<close> counter is the number of stored
  events that \<open>Size\<close> counts (modulo 2 to the 64, in whatever order the maps are traversed), every event is
  stored under its own key and on its own side, no key keeps an empty list, and no list is longer than a
  positive \<open>MaxStateSize\<close>.\<close>

theorem join_state_accounting:
  assumes "reach js_init js_step js" "range_order lks (leftState js)" "range_order rks (rightState js)"
  shows "StateSize (js_GetMetrics js) = of_nat (js_Size lks rks js) \<and>
    (\<forall>se \<in> set (GetLeftEvents k js). Key (se_Event se) = k \<and> se_Side se = LeftSide) \<and>
    (\<forall>se \<in> set (GetRightEvents k js). Key (se_Event se) = k \<and> se_Side se = RightSide) \<and>
    leftState js k \<noteq> Some [] \<and> rightState js k \<noteq> Some [] \<and>
    (0 < MaxStateSize (js_config js) \<longrightarrow>
       int (length (GetLeftEvents k js)) \<le> MaxStateSize (js_config js) \<and>
       int (length (GetRightEvents k js)) \<le> MaxStateSize (js_config js))"
proof -
  have inv: "js_inv js" by (rule join_states.inv_reach [OF assms(1)])
  have ok: "(\<forall>se \<in> set (get_or m k []). Key (se_Event se) = k \<and> se_Side se = side) \<and> m k \<noteq> Some [] \<and>
      (0 < limit \<longrightarrow> int (length (get_or m k [])) \<le> limit)"
    if "store_ok limit side m" for limit side and m :: "'a side_store"
    using that by (cases "m k") (auto simp: store_ok_def get_or_def)
  have "StateSize (js_GetMetrics js) = of_nat (js_Size lks rks js)"
    using inv by (simp add: js_inv_def js_GetMetrics_def js_Size_def store_size_order [OF assms(2)] store_size_order [OF assms(3)])
  then show ?thesis
    using ok [of "MaxStateSize (js_config js)" LeftSide "leftState js"] ok [of "MaxStateSize (js_config js)" RightSide "rightState js"]
      inv by (simp add: js_inv_def GetLeftEvents_def GetRightEvents_def)
qed

definition ev0 :: "int event" where "ev0 = mk_event ''k'' 7 100 Map.empty"

theorem join_state_accounting_witness:
  "StateSize (js_GetMetrics (AddLeftEvent 0 ev0 50 (NewJoinState DefaultJoinConfig))) =
     of_nat (js_Size [''k''] [] (AddLeftEvent 0 ev0 50 (NewJoinState DefaultJoinConfig)))"
proof -
  let ?js = "AddLeftEvent 0 ev0 50 (NewJoinState DefaultJoinConfig)"
  have "reach js_init js_step ?js"
    by (rule reach.next_step, rule reach.start) (auto simp: js_init_def intro: js_step.add_left)
  moreover have "range_order [''k''] (leftState ?js)" "range_order [] (rightState ?js)"
    by (simp_all add: AddLeftEvent_def enforceMaxStateSize_def join_defs NewJoinState_def DefaultJoinConfig_def
        ev0_def range_order_def)
  ultimately show ?thesis using join_state_accounting [of ?js "[''k'']" "[]"] by simp
qed

text \<open>\<open>RemoveExpiredEvents\<close> returns exactly the stored events whose expiry time lies before \<open>now\<close>, each
  once and by side, keeps every other event in its place in the list of its key, deletes the keys left
  without events, and counts what it removed.\<close>

theorem expiry_exact:
  assumes "range_order lks (leftState js)" "range_order rks (rightState js)"
    and "RemoveExpiredEvents now lks rks js = (left, right, js')"
  shows "GetLeftEvents k js' = filter (\<lambda>se. now \<le> ExpiresAt se) (GetLeftEvents k js) \<and>
    GetRightEvents k js' = filter (\<lambda>se. now \<le> ExpiresAt se) (GetRightEvents k js) \<and>
    mset left = (\<Sum>k \<in># mset lks. mset (filter (\<lambda>se. ExpiresAt se < now) (GetLeftEvents k js))) \<and>
    mset right = (\<Sum>k \<in># mset rks. mset (filter (\<lambda>se. ExpiresAt se < now) (GetRightEvents k js))) \<and>
    (leftState js' k = None \<longleftrightarrow> GetLeftEvents k js' = []) \<and> (rightState js' k = None \<longleftrightarrow> GetRightEvents k js' = []) \<and>
    ExpiredEvents (js_metrics js') = ExpiredEvents (js_metrics js) + of_nat (length left + length right)"
proof -
  note spec = RemoveExpired_spec [OF assms]
  have exp: "IsExpired se now \<longleftrightarrow> ExpiresAt se < now" for se :: "'a StoredEvent" by (simp add: IsExpired_def gotime)
  have ms: "mset (concat (map f ks)) = (\<Sum>k \<in># mset ks. mset (f k))" for f :: "string \<Rightarrow> 'a StoredEvent list" and ks
    by (induction ks) auto
  have none: "live now m k = None \<longleftrightarrow> get_or (live now m) k [] = []" for m :: "'a side_store"
    by (auto simp del: get_live simp: get_or_def split: option.splits dest: live_Some)
  show ?thesis
    using spec none [of "leftState js"] none [of "rightState js"]
    by (simp add: GetLeftEvents_def GetRightEvents_def ms expired_of_def exp not_less cong: filter_cong)
qed

theorem expiry_exact_witness:
  "GetLeftEvents ''k'' (snd (snd (RemoveExpiredEvents 99 [''k''] [] (AddLeftEvent 0 ev0 50 (NewJoinState DefaultJoinConfig))))) =
     filter (\<lambda>se. 99 \<le> ExpiresAt se) (GetLeftEvents ''k'' (AddLeftEvent 0 ev0 50 (NewJoinState DefaultJoinConfig)))"
proof -
  let ?js = "AddLeftEvent 0 ev0 50 (NewJoinState DefaultJoinConfig)"
  obtain l r js' where run: "RemoveExpiredEvents 99 [''k''] [] ?js = (l, r, js')"
    by (rule prod_cases3)
  moreover have "range_order [''k''] (leftState ?js)" "range_order [] (rightState ?js)"
    by (simp_all add: AddLeftEvent_def enforceMaxStateSize_def join_defs NewJoinState_def DefaultJoinConfig_def
        ev0_def range_order_def)
  ultimately show ?thesis using expiry_exact [of "[''k'']" ?js "[]" 99 l r js' "''k''"] by simp
qed

section \<open>The interface of the join operators\<close>

text \<open>
  What the operators rely on: per side and key a list of events, in order of arrival; adding an event
  appends it to the list of its key, of which the most recent ones up to the limit are retained; the
  match counters do not change the lists.
\<close>

locale join_store =
  fixes limit :: int
    and ok :: "'s \<Rightarrow> bool"
    and lefts rights :: "'s \<Rightarrow> string \<Rightarrow> 'v event list"
    and add_left add_right :: "gtime \<Rightarrow> 'v event \<Rightarrow> gtime \<Rightarrow> 's \<Rightarrow> 's"
    and increment :: "nat \<Rightarrow> 's \<Rightarrow> 's"
  assumes ok_left: "ok s \<Longrightarrow> ok (add_left now e x s)"
    and ok_right: "ok s \<Longrightarrow> ok (add_right now e x s)"
    and ok_increment: "ok s \<Longrightarrow> ok (increment a s)"
    and lefts_add_left: "ok s \<Longrightarrow> lefts (add_left now e x s) k = (if k = Key e then retain limit (lefts s k @ [e]) else lefts s k)"
    and rights_add_left: "ok s \<Longrightarrow> rights (add_left now e x s) = rights s"
    and rights_add_right: "ok s \<Longrightarrow> rights (add_right now e x s) k = (if k = Key e then retain limit (rights s k @ [e]) else rights s k)"
    and lefts_add_right: "ok s \<Longrightarrow> lefts (add_right now e x s) = lefts s"
    and lefts_increment: "lefts (increment a s) = lefts s"
    and rights_increment: "rights (increment a s) = rights s"
begin

lemmas contents = lefts_add_left rights_add_left rights_add_right lefts_add_right lefts_increment rights_increment

lemma fold_increment: "ok s \<Longrightarrow> ok (fold increment as s) \<and> lefts (fold increment as s) = lefts s \<and> rights (fold increment as s) = rights s"
  by (induction as arbitrary: s) (auto simp: contents ok_increment)

end

definition left_events :: "'v JoinState \<Rightarrow> string \<Rightarrow> 'v event list" where
  "left_events js k = map se_Event (GetLeftEvents k js)"

definition right_events :: "'v JoinState \<Rightarrow> string \<Rightarrow> 'v event list" where
  "right_events js k = map se_Event (GetRightEvents k js)"

interpretation js: join_store limit "\<lambda>js. MaxStateSize (js_config js) = limit" left_events right_events
  AddLeftEvent AddRightEvent IncrementMatchCount for limit
proof
  fix s :: "'v JoinState" and now e x k a
  assume lim: "MaxStateSize (js_config s) = limit"
  show "MaxStateSize (js_config (IncrementMatchCount a s)) = limit"
    using lim by (simp add: IncrementMatchCount_def Let_def)
  show "left_events (AddLeftEvent now e x s) k =
      (if k = Key e then retain limit (left_events s k @ [e]) else left_events s k)"
    using AddLeftEvent_store [of e now x s] lim
    by (auto simp: left_events_def GetLeftEvents_def retain_map [symmetric])
  show "right_events (AddRightEvent now e x s) k =
      (if k = Key e then retain limit (right_events s k @ [e]) else right_events s k)"
    using AddRightEvent_store [of e now x s] lim
    by (auto simp: right_events_def GetRightEvents_def retain_map [symmetric])
qed (auto simp: left_events_def right_events_def GetLeftEvents_def GetRightEvents_def IncrementMatchCount_def Let_def
      get_or_def fun_eq_iff split: option.splits)

end
