(* ===== verification/Join_Operator.thy ===== *)
theory Join_Operator
  imports Join_State "HOL-Library.Char_ord" "HOL-Library.List_Lexorder"
begin

text \<open>
  The stream-stream join operator, \<open>pkg/join/join.go\<close>: construction, processing of the two inputs with
  the three strategies, the match test, result creation, periodic cleanup, closing, and the dual-stream
  wrapper that runs both inputs in goroutines of their own. Operations that panic return \<open>Inl\<close>. The wall
  clock \<open>now\<close>, the RFC 3339 layout \<open>fmt\<close> and the iteration orders of the state maps are arguments.
\<close>

section \<open>The operator\<close>

datatype jo_error = NonPositiveInterval | CloseOfClosedChannel | RequiresExplicitSide

record 'v JoinOperator =
  jo_config :: "'v JoinConfig"
  jo_state :: "'v JoinState"
  jo_condition :: "'v JoinCondition"
  jo_ticker :: bool
  jo_stopped :: bool

definition with_default_condition :: "'v JoinConfig option \<Rightarrow> 'v JoinConfig" where
  "with_default_condition config =
     (let c = (case config of None \<Rightarrow> DefaultJoinConfig | Some c \<Rightarrow> c)
      in if Condition c = None then c\<lparr>Condition := Some EqualityCondition\<rparr> else c)"

text \<open>\<open>time.NewTicker\<close> panics for a non-positive interval.\<close>

definition jo_startCleanup :: "'v JoinOperator \<Rightarrow> jo_error + 'v JoinOperator" where
  "jo_startCleanup jo =
     (if CleanupInterval (jo_config jo) \<le> 0 then Inl NonPositiveInterval else Inr (jo\<lparr>jo_ticker := True\<rparr>))"

definition NewJoinOperator :: "'v JoinConfig option \<Rightarrow> jo_error + 'v JoinOperator" where
  "NewJoinOperator config =
     (let c = with_default_condition config;
          jo = \<lparr>jo_config = c, jo_state = NewJoinState c, jo_condition = the (Condition c),
                jo_ticker = False, jo_stopped = False\<rparr>
      in if EnableCleanup c then jo_startCleanup jo else Inr jo)"

definition matchesCondition :: "'v JoinOperator \<Rightarrow> 'v event \<Rightarrow> 'v event \<Rightarrow> bool" where
  "matchesCondition jo left right =
     (if \<not> jo_condition jo left right then False
      else if 0 < TimeWindow (jo_config jo) then
        (let d0 = time_Sub (EventTime right) (EventTime left);
             timeDiff = (if d0 < 0 then dur_neg d0 else d0)
         in if TimeWindow (jo_config jo) < timeDiff then False else True)
      else True)"

fun createJoinResult :: "'v event option \<Rightarrow> 'v event option \<Rightarrow> 'v JoinResult" where
  "createJoinResult (Some l) (Some r) =
     \<lparr>jr_Left = Some l, jr_Right = Some r,
      jr_EventTime = (if time_After (EventTime r) (EventTime l) then EventTime r else EventTime l), JoinKey = Key l\<rparr>"
| "createJoinResult (Some l) None =
     \<lparr>jr_Left = Some l, jr_Right = None, jr_EventTime = EventTime l, JoinKey = Key l\<rparr>"
| "createJoinResult None (Some r) =
     \<lparr>jr_Left = None, jr_Right = Some r, jr_EventTime = EventTime r, JoinKey = Key r\<rparr>"
| "createJoinResult None None =
     \<lparr>jr_Left = None, jr_Right = None, jr_EventTime = zero_time, JoinKey = []\<rparr>"

text \<open>The loop over the candidates of the other side: \<open>matchFound\<close>, the results and the state.\<close>

type_synonym 'v probe = "bool \<times> 'v joined list \<times> 'v JoinState"

fun probe_right :: "(gtime \<Rightarrow> string) \<Rightarrow> 'v JoinOperator \<Rightarrow> 'v event \<Rightarrow> 'v StoredEvent list \<Rightarrow> 'v probe \<Rightarrow> 'v probe" where
  "probe_right fmt jo leftEvent [] s = s"
| "probe_right fmt jo leftEvent (rightStored # rest) (matchFound, results, js) =
     (if matchesCondition jo leftEvent (se_Event rightStored)
      then probe_right fmt jo leftEvent rest
             (True, results @ [ToEvent fmt (createJoinResult (Some leftEvent) (Some (se_Event rightStored)))],
              IncrementMatchCount (se_addr rightStored) js)
      else probe_right fmt jo leftEvent rest (matchFound, results, js))"

fun probe_left :: "(gtime \<Rightarrow> string) \<Rightarrow> 'v JoinOperator \<Rightarrow> 'v event \<Rightarrow> 'v StoredEvent list \<Rightarrow> 'v probe \<Rightarrow> 'v probe" where
  "probe_left fmt jo rightEvent [] s = s"
| "probe_left fmt jo rightEvent (leftStored # rest) (matchFound, results, js) =
     (if matchesCondition jo (se_Event leftStored) rightEvent
      then probe_left fmt jo rightEvent rest
             (True, results @ [ToEvent fmt (createJoinResult (Some (se_Event leftStored)) (Some rightEvent))],
              IncrementMatchCount (se_addr leftStored) js)
      else probe_left fmt jo rightEvent rest (matchFound, results, js))"

definition outer_left :: "(gtime \<Rightarrow> string) \<Rightarrow> 'v JoinOperator \<Rightarrow> 'v event \<Rightarrow> 'v probe \<Rightarrow> 'v joined list \<times> 'v JoinOperator" where
  "outer_left fmt jo leftEvent p =
     (let (matchFound, results, js) = p
      in (if \<not> matchFound \<and> (JType (jo_config jo) = LeftOuterJoin \<or> JType (jo_config jo) = FullOuterJoin)
          then results @ [ToEvent fmt (createJoinResult (Some leftEvent) None)] else results,
          jo\<lparr>jo_state := js\<rparr>))"

definition outer_right :: "(gtime \<Rightarrow> string) \<Rightarrow> 'v JoinOperator \<Rightarrow> 'v event \<Rightarrow> 'v probe \<Rightarrow> 'v joined list \<times> 'v JoinOperator" where
  "outer_right fmt jo rightEvent p =
     (let (matchFound, results, js) = p
      in (if \<not> matchFound \<and> (JType (jo_config jo) = RightOuterJoin \<or> JType (jo_config jo) = FullOuterJoin)
          then results @ [ToEvent fmt (createJoinResult None (Some rightEvent))] else results,
          jo\<lparr>jo_state := js\<rparr>))"

definition hashJoinLeft :: "(gtime \<Rightarrow> string) \<Rightarrow> 'v JoinOperator \<Rightarrow> 'v event \<Rightarrow> 'v joined list \<times> 'v JoinOperator" where
  "hashJoinLeft fmt jo leftEvent =
     outer_left fmt jo leftEvent
       (probe_right fmt jo leftEvent (GetRightEvents (Key leftEvent) (jo_state jo)) (False, [], jo_state jo))"

definition hashJoinRight :: "(gtime \<Rightarrow> string) \<Rightarrow> 'v JoinOperator \<Rightarrow> 'v event \<Rightarrow> 'v joined list \<times> 'v JoinOperator" where
  "hashJoinRight fmt jo rightEvent =
     outer_right fmt jo rightEvent
       (probe_left fmt jo rightEvent (GetLeftEvents (Key rightEvent) (jo_state jo)) (False, [], jo_state jo))"

definition sortMergeJoinLeft :: "(gtime \<Rightarrow> string) \<Rightarrow> 'v JoinOperator \<Rightarrow> 'v event \<Rightarrow> 'v joined list \<times> 'v JoinOperator" where
  "sortMergeJoinLeft fmt jo leftEvent = hashJoinLeft fmt jo leftEvent"

definition sortMergeJoinRight :: "(gtime \<Rightarrow> string) \<Rightarrow> 'v JoinOperator \<Rightarrow> 'v event \<Rightarrow> 'v joined list \<times> 'v JoinOperator" where
  "sortMergeJoinRight fmt jo rightEvent = hashJoinRight fmt jo rightEvent"

text \<open>The outer loop of the nested-loop strategy, over the keys in their iteration order \<open>ks\<close>.\<close>

definition nestedLoopJoinLeft :: "(gtime \<Rightarrow> string) \<Rightarrow> string list \<Rightarrow> 'v JoinOperator \<Rightarrow> 'v event \<Rightarrow> 'v joined list \<times> 'v JoinOperator" where
  "nestedLoopJoinLeft fmt ks jo leftEvent =
     outer_left fmt jo leftEvent
       (fold (\<lambda>key p. probe_right fmt jo leftEvent (GetRightEvents key (snd (snd p))) p)
          (GetAllRightKeys ks (jo_state jo)) (False, [], jo_state jo))"

definition nestedLoopJoinRight :: "(gtime \<Rightarrow> string) \<Rightarrow> string list \<Rightarrow> 'v JoinOperator \<Rightarrow> 'v event \<Rightarrow> 'v joined list \<times> 'v JoinOperator" where
  "nestedLoopJoinRight fmt ks jo rightEvent =
     outer_right fmt jo rightEvent
       (fold (\<lambda>key p. probe_left fmt jo rightEvent (GetLeftEvents key (snd (snd p))) p)
          (GetAllLeftKeys ks (jo_state jo)) (False, [], jo_state jo))"

text \<open>\<open>ProcessLeft\<close> in its two halves, each of which takes the lock of the state for itself: storing the
  event and probing the other side.\<close>

definition store_left :: "gtime \<Rightarrow> 'v JoinOperator \<Rightarrow> 'v event \<Rightarrow> 'v JoinOperator" where
  "store_left now jo event =
     (let expiresAt = time_Add (EventTime event) (StateRetention (jo_config jo))
      in jo\<lparr>jo_state := AddLeftEvent now event expiresAt (jo_state jo)\<rparr>)"

definition store_right :: "gtime \<Rightarrow> 'v JoinOperator \<Rightarrow> 'v event \<Rightarrow> 'v JoinOperator" where
  "store_right now jo event =
     (let expiresAt = time_Add (EventTime event) (StateRetention (jo_config jo))
      in jo\<lparr>jo_state := AddRightEvent now event expiresAt (jo_state jo)\<rparr>)"

definition join_left :: "(gtime \<Rightarrow> string) \<Rightarrow> string list \<Rightarrow> 'v JoinOperator \<Rightarrow> 'v event \<Rightarrow> 'v joined list \<times> 'v JoinOperator" where
  "join_left fmt ks jo event =
     (case Strategy (jo_config jo) of
        HashJoin \<Rightarrow> hashJoinLeft fmt jo event
      | SortMergeJoin \<Rightarrow> sortMergeJoinLeft fmt jo event
      | NestedLoopJoin \<Rightarrow> nestedLoopJoinLeft fmt ks jo event)"

definition join_right :: "(gtime \<Rightarrow> string) \<Rightarrow> string list \<Rightarrow> 'v JoinOperator \<Rightarrow> 'v event \<Rightarrow> 'v joined list \<times> 'v JoinOperator" where
  "join_right fmt ks jo event =
     (case Strategy (jo_config jo) of
        HashJoin \<Rightarrow> hashJoinRight fmt jo event
      | SortMergeJoin \<Rightarrow> sortMergeJoinRight fmt jo event
      | NestedLoopJoin \<Rightarrow> nestedLoopJoinRight fmt ks jo event)"

definition jo_ProcessLeft ::
  "(gtime \<Rightarrow> string) \<Rightarrow> gtime \<Rightarrow> string list \<Rightarrow> 'v JoinOperator \<Rightarrow> 'v event \<Rightarrow> 'v joined list \<times> 'v JoinOperator" where
  "jo_ProcessLeft fmt now ks jo event = join_left fmt ks (store_left now jo event) event"

definition jo_ProcessRight ::
  "(gtime \<Rightarrow> string) \<Rightarrow> gtime \<Rightarrow> string list \<Rightarrow> 'v JoinOperator \<Rightarrow> 'v event \<Rightarrow> 'v joined list \<times> 'v JoinOperator" where
  "jo_ProcessRight fmt now ks jo event = join_right fmt ks (store_right now jo event) event"

text \<open>\<open>cleanup\<close> returns the events whose emission it logs, left and right, with the new operator.\<close>

definition jo_cleanup ::
  "gtime \<Rightarrow> string list \<Rightarrow> string list \<Rightarrow> 'v JoinOperator \<Rightarrow> 'v StoredEvent list \<times> 'v StoredEvent list \<times> 'v JoinOperator" where
  "jo_cleanup now lks rks jo =
     (let (leftExpired, rightExpired, js) = RemoveExpiredEvents now lks rks (jo_state jo);
          logLeft = (if JType (jo_config jo) = LeftOuterJoin \<or> JType (jo_config jo) = FullOuterJoin
                     then filter (\<lambda>stored. MatchCount stored = 0) leftExpired else []);
          logRight = (if JType (jo_config jo) = RightOuterJoin \<or> JType (jo_config jo) = FullOuterJoin
                      then filter (\<lambda>stored. MatchCount stored = 0) rightExpired else [])
      in (logLeft, logRight, jo\<lparr>jo_state := js\<rparr>))"

definition jo_Process :: "'v JoinOperator \<Rightarrow> 'v event \<Rightarrow> jo_error + 'v joined list" where
  "jo_Process jo event = Inl RequiresExplicitSide"

definition jo_Close :: "'v JoinOperator \<Rightarrow> jo_error + 'v JoinOperator" where
  "jo_Close jo =
     (if jo_stopped jo then Inl CloseOfClosedChannel
      else Inr (jo\<lparr>jo_stopped := True, jo_state := js_Clear (jo_state jo)\<rparr>))"

definition jo_GetMetrics :: "'v JoinOperator \<Rightarrow> JoinMetrics" where
  "jo_GetMetrics jo = js_GetMetrics (jo_state jo)"

section \<open>The match test\<close>

lemma matches_window:
  assumes "TimeWindow (jo_config jo) < max_duration" "min_duration < EventTime r - EventTime l"
  shows "matchesCondition jo l r \<longleftrightarrow> jo_condition jo l r \<and>
    (TimeWindow (jo_config jo) \<le> 0 \<or> \<bar>EventTime r - EventTime l\<bar> \<le> TimeWindow (jo_config jo))"
proof -
  have "TimeWindow (jo_config jo) < (if time_Sub (EventTime r) (EventTime l) < 0 then dur_neg (time_Sub (EventTime r) (EventTime l))
      else time_Sub (EventTime r) (EventTime l)) \<longleftrightarrow> TimeWindow (jo_config jo) < \<bar>EventTime r - EventTime l\<bar>"
    using assms by (auto simp: time_Sub_def dur_neg_def max_duration_def min_duration_def max_def min_def abs_if)
  then show ?thesis by (auto simp: matchesCondition_def Let_def)
qed

text \<open>When the times of the two events differ by less than the range of a duration, they match exactly
  when the condition holds and, for a positive \<open>TimeWindow\<close>, they are at most that far apart; but when the
  right event lies more than 292 years before the left one (an event whose \<open>EventTime\<close> was never set, for
  example), \<open>Sub\<close> saturates at the least duration, its negation stays negative, and the time window is
  not enforced at all.\<close>

theorem time_window_test:
  assumes "TimeWindow (jo_config jo) < max_duration"
  shows "(min_duration < EventTime r - EventTime l \<longrightarrow>
      (matchesCondition jo l r \<longleftrightarrow> jo_condition jo l r \<and>
        (TimeWindow (jo_config jo) \<le> 0 \<or> \<bar>EventTime r - EventTime l\<bar> \<le> TimeWindow (jo_config jo)))) \<and>
    (EventTime r - EventTime l \<le> min_duration \<longrightarrow> (matchesCondition jo l r \<longleftrightarrow> jo_condition jo l r))"
proof (intro conjI impI)
  assume "EventTime r - EventTime l \<le> min_duration"
  then have "time_Sub (EventTime r) (EventTime l) = min_duration"
    by (simp add: time_Sub_def min_duration_def max_duration_def)
  then show "matchesCondition jo l r \<longleftrightarrow> jo_condition jo l r"
    by (simp add: matchesCondition_def dur_neg_def Let_def min_duration_def)
qed (use matches_window assms in blast)

theorem time_window_test_witness:
  "let jo = \<lparr>jo_config = DefaultJoinConfig, jo_state = NewJoinState DefaultJoinConfig,
             jo_condition = EqualityCondition, jo_ticker = False, jo_stopped = False\<rparr>;
       unset = mk_event ''k'' (1 :: int) 0 Map.empty;
       recent = mk_event ''k'' 2 (63000000000 * second) Map.empty
   in matchesCondition jo recent unset \<and> \<not> matchesCondition jo unset recent"
  using time_window_test [of "\<lparr>jo_config = DefaultJoinConfig, jo_state = NewJoinState DefaultJoinConfig,
             jo_condition = EqualityCondition, jo_ticker = False, jo_stopped = False\<rparr>"
      "mk_event ''k'' (1 :: int) 0 Map.empty" "mk_event ''k'' 2 (63000000000 * second) Map.empty"]
    time_window_test [of "\<lparr>jo_config = DefaultJoinConfig, jo_state = NewJoinState DefaultJoinConfig,
             jo_condition = EqualityCondition, jo_ticker = False, jo_stopped = False\<rparr>"
      "mk_event ''k'' 2 (63000000000 * second) Map.empty" "mk_event ''k'' (1 :: int) 0 Map.empty"]
  by (simp add: Let_def DefaultJoinConfig_def EqualityCondition_def gotime max_duration_def min_duration_def)

section \<open>What a probe emits\<close>

definition joined_pair :: "(gtime \<Rightarrow> string) \<Rightarrow> 'v event \<Rightarrow> 'v event \<Rightarrow> 'v joined" where
  "joined_pair fmt l r = ToEvent fmt (createJoinResult (Some l) (Some r))"

lemma probe_right_eq:
  "probe_right fmt jo l ss (found, res, js) =
     (found \<or> (\<exists>r \<in> set (map se_Event ss). matchesCondition jo l r),
      res @ map (joined_pair fmt l) (filter (matchesCondition jo l) (map se_Event ss)),
      fold IncrementMatchCount (map se_addr (filter (\<lambda>s. matchesCondition jo l (se_Event s)) ss)) js)"
  by (induction ss arbitrary: found res js) (auto simp: joined_pair_def)

lemma probe_left_eq:
  "probe_left fmt jo r ss (found, res, js) =
     (found \<or> (\<exists>l \<in> set (map se_Event ss). matchesCondition jo l r),
      res @ map (\<lambda>l. joined_pair fmt l r) (filter (\<lambda>l. matchesCondition jo l r) (map se_Event ss)),
      fold IncrementMatchCount (map se_addr (filter (\<lambda>s. matchesCondition jo (se_Event s) r) ss)) js)"
  by (induction ss arbitrary: found res js) (auto simp: joined_pair_def)

text \<open>States that differ in match counters and metrics only.\<close>

definition same_events :: "'v JoinState \<Rightarrow> 'v JoinState \<Rightarrow> bool" where
  "same_events js js' \<longleftrightarrow> left_events js' = left_events js \<and> right_events js' = right_events js \<and>
     js_config js' = js_config js \<and> (js_inv js \<longrightarrow> js_inv js')"

lemma same_events_refl [simp]: "same_events js js"
  by (simp add: same_events_def)

lemma same_events_trans: "same_events a b \<Longrightarrow> same_events b c \<Longrightarrow> same_events a c"
  by (auto simp: same_events_def)

lemma same_events_fold: "same_events js (fold IncrementMatchCount as js)"
proof (induction as arbitrary: js)
  case (Cons a as)
  have "same_events js (IncrementMatchCount a js)"
    by (simp add: same_events_def js.contents IncrementMatchCount_inv)
      (simp add: IncrementMatchCount_def Let_def)
  with Cons show ?case by (auto intro: same_events_trans)
qed simp

lemma probe_right_keys:
  assumes "fold (\<lambda>key p. probe_right fmt jo l (GetRightEvents key (snd (snd p))) p) keys (found, res, js) = (found', res', js')"
  defines "cand \<equiv> concat (map (right_events js) keys)"
  shows "found' = (found \<or> (\<exists>r \<in> set cand. matchesCondition jo l r)) \<and>
    res' = res @ map (joined_pair fmt l) (filter (matchesCondition jo l) cand) \<and> same_events js js'"
  using assms(1) unfolding cand_def
proof (induction keys arbitrary: found res js)
  case (Cons key keys)
  define js1 where "js1 = fold IncrementMatchCount
    (map se_addr (filter (\<lambda>s. matchesCondition jo l (se_Event s)) (GetRightEvents key js))) js"
  have same: "same_events js js1" unfolding js1_def by (rule same_events_fold)
  then have eq: "right_events js1 = right_events js" by (simp add: same_events_def)
  have "fold (\<lambda>key p. probe_right fmt jo l (GetRightEvents key (snd (snd p))) p) keys
      (found \<or> (\<exists>r \<in> set (right_events js key). matchesCondition jo l r),
       res @ map (joined_pair fmt l) (filter (matchesCondition jo l) (right_events js key)), js1) = (found', res', js')"
    using Cons.prems by (simp add: probe_right_eq js1_def right_events_def [symmetric] del: set_map)
  from Cons.IH [OF this] eq same show ?case
    by (auto intro: same_events_trans)
qed simp

lemma probe_left_keys:
  assumes "fold (\<lambda>key p. probe_left fmt jo r (GetLeftEvents key (snd (snd p))) p) keys (found, res, js) = (found', res', js')"
  defines "cand \<equiv> concat (map (left_events js) keys)"
  shows "found' = (found \<or> (\<exists>l \<in> set cand. matchesCondition jo l r)) \<and>
    res' = res @ map (\<lambda>l. joined_pair fmt l r) (filter (\<lambda>l. matchesCondition jo l r) cand) \<and> same_events js js'"
  using assms(1) unfolding cand_def
proof (induction keys arbitrary: found res js)
  case (Cons key keys)
  define js1 where "js1 = fold IncrementMatchCount
    (map se_addr (filter (\<lambda>s. matchesCondition jo (se_Event s) r) (GetLeftEvents key js))) js"
  have same: "same_events js js1" unfolding js1_def by (rule same_events_fold)
  then have eq: "left_events js1 = left_events js" by (simp add: same_events_def)
  have "fold (\<lambda>key p. probe_left fmt jo r (GetLeftEvents key (snd (snd p))) p) keys
      (found \<or> (\<exists>l \<in> set (left_events js key). matchesCondition jo l r),
       res @ map (\<lambda>l. joined_pair fmt l r) (filter (\<lambda>l. matchesCondition jo l r) (left_events js key)), js1) = (found', res', js')"
    using Cons.prems by (simp add: probe_left_eq js1_def left_events_def [symmetric] del: set_map)
  from Cons.IH [OF this] eq same show ?case
    by (auto intro: same_events_trans)
qed simp

text \<open>The events of the other side that an event is compared with.\<close>

definition left_candidates :: "string list \<Rightarrow> 'v JoinOperator \<Rightarrow> 'v event \<Rightarrow> 'v event list" where
  "left_candidates ks jo e =
     (if Strategy (jo_config jo) = NestedLoopJoin then concat (map (left_events (jo_state jo)) (GetAllLeftKeys ks (jo_state jo)))
      else left_events (jo_state jo) (Key e))"

definition right_candidates :: "string list \<Rightarrow> 'v JoinOperator \<Rightarrow> 'v event \<Rightarrow> 'v event list" where
  "right_candidates ks jo e =
     (if Strategy (jo_config jo) = NestedLoopJoin then concat (map (right_events (jo_state jo)) (GetAllRightKeys ks (jo_state jo)))
      else right_events (jo_state jo) (Key e))"

lemma join_left_spec:
  assumes "join_left fmt ks jo e = (out, jo')"
  defines "ms \<equiv> filter (matchesCondition jo e) (right_candidates ks jo e)"
  shows "out = map (joined_pair fmt e) ms @
      (if ms = [] \<and> JType (jo_config jo) \<in> {LeftOuterJoin, FullOuterJoin}
       then [ToEvent fmt (createJoinResult (Some e) None)] else []) \<and>
    (\<exists>js. jo' = jo\<lparr>jo_state := js\<rparr> \<and> same_events (jo_state jo) js)"
proof (cases "Strategy (jo_config jo) = NestedLoopJoin")
  case True
  obtain f res js where p: "fold (\<lambda>key p. probe_right fmt jo e (GetRightEvents key (snd (snd p))) p)
      (GetAllRightKeys ks (jo_state jo)) (False, [], jo_state jo) = (f, res, js)"
    by (rule prod_cases3)
  from probe_right_keys [OF this] True have "f \<longleftrightarrow> ms \<noteq> []" "res = map (joined_pair fmt e) ms" "same_events (jo_state jo) js"
    by (auto simp: ms_def right_candidates_def filter_empty_conv)
  then show ?thesis using assms(1) p True by (auto simp: join_left_def nestedLoopJoinLeft_def outer_left_def)
next
  case False
  then have "join_left fmt ks jo e = hashJoinLeft fmt jo e"
    by (cases "Strategy (jo_config jo)") (simp_all add: join_left_def sortMergeJoinLeft_def)
  moreover have "ms = filter (matchesCondition jo e) (map se_Event (GetRightEvents (Key e) (jo_state jo)))"
    using False by (simp add: ms_def right_candidates_def right_events_def)
  moreover define js where "js = fold IncrementMatchCount
    (map se_addr (filter (\<lambda>s. matchesCondition jo e (se_Event s)) (GetRightEvents (Key e) (jo_state jo)))) (jo_state jo)"
  ultimately have "probe_right fmt jo e (GetRightEvents (Key e) (jo_state jo)) (False, [], jo_state jo) = (ms \<noteq> [], map (joined_pair fmt e) ms, js)"
    by (auto simp: probe_right_eq filter_empty_conv)
  moreover have "same_events (jo_state jo) js" unfolding js_def by (rule same_events_fold)
  ultimately show ?thesis using assms(1) \<open>join_left fmt ks jo e = hashJoinLeft fmt jo e\<close> by (auto simp: hashJoinLeft_def outer_left_def)
qed

lemma join_right_spec:
  assumes "join_right fmt ks jo e = (out, jo')"
  defines "ms \<equiv> filter (\<lambda>l. matchesCondition jo l e) (left_candidates ks jo e)"
  shows "out = map (\<lambda>l. joined_pair fmt l e) ms @
      (if ms = [] \<and> JType (jo_config jo) \<in> {RightOuterJoin, FullOuterJoin}
       then [ToEvent fmt (createJoinResult None (Some e))] else []) \<and>
    (\<exists>js. jo' = jo\<lparr>jo_state := js\<rparr> \<and> same_events (jo_state jo) js)"
proof (cases "Strategy (jo_config jo) = NestedLoopJoin")
  case True
  obtain f res js where p: "fold (\<lambda>key p. probe_left fmt jo e (GetLeftEvents key (snd (snd p))) p)
      (GetAllLeftKeys ks (jo_state jo)) (False, [], jo_state jo) = (f, res, js)"
    by (rule prod_cases3)
  from probe_left_keys [OF this] True have "f \<longleftrightarrow> ms \<noteq> []" "res = map (\<lambda>l. joined_pair fmt l e) ms" "same_events (jo_state jo) js"
    by (auto simp: ms_def left_candidates_def filter_empty_conv)
  then show ?thesis using assms(1) p True by (auto simp: join_right_def nestedLoopJoinRight_def outer_right_def)
next
  case False
  then have "join_right fmt ks jo e = hashJoinRight fmt jo e"
    by (cases "Strategy (jo_config jo)") (simp_all add: join_right_def sortMergeJoinRight_def)
  moreover have "ms = filter (\<lambda>l. matchesCondition jo l e) (map se_Event (GetLeftEvents (Key e) (jo_state jo)))"
    using False by (simp add: ms_def left_candidates_def left_events_def)
  moreover define js where "js = fold IncrementMatchCount
    (map se_addr (filter (\<lambda>s. matchesCondition jo (se_Event s) e) (GetLeftEvents (Key e) (jo_state jo)))) (jo_state jo)"
  ultimately have "probe_left fmt jo e (GetLeftEvents (Key e) (jo_state jo)) (False, [], jo_state jo) = (ms \<noteq> [], map (\<lambda>l. joined_pair fmt l e) ms, js)"
    by (auto simp: probe_left_eq filter_empty_conv)
  moreover have "same_events (jo_state jo) js" unfolding js_def by (rule same_events_fold)
  ultimately show ?thesis using assms(1) \<open>join_right fmt ks jo e = hashJoinRight fmt jo e\<close> by (auto simp: hashJoinRight_def outer_right_def)
qed

section \<open>Sequences of inputs\<close>

text \<open>Inputs are processed one after the other; \<open>ord\<close> gives the iteration order of a state map and each
  input comes with the wall clock at its arrival.\<close>

datatype 'v input = LeftIn gtime "'v event" | RightIn gtime "'v event"

fun process_input ::
  "(gtime \<Rightarrow> string) \<Rightarrow> ('v side_store \<Rightarrow> string list) \<Rightarrow> 'v input \<Rightarrow> 'v JoinOperator \<Rightarrow> 'v joined list \<times> 'v JoinOperator" where
  "process_input fmt ord (LeftIn now e) jo = jo_ProcessLeft fmt now (ord (rightState (jo_state jo))) jo e"
| "process_input fmt ord (RightIn now e) jo = jo_ProcessRight fmt now (ord (leftState (jo_state jo))) jo e"

definition join_run ::
  "(gtime \<Rightarrow> string) \<Rightarrow> ('v side_store \<Rightarrow> string list) \<Rightarrow> 'v JoinOperator \<Rightarrow> 'v input list \<Rightarrow> 'v joined list \<times> 'v JoinOperator" where
  "join_run fmt ord jo ins =
     foldl (\<lambda>(out, jo) i. let (rs, jo') = process_input fmt ord i jo in (out @ rs, jo')) ([], jo) ins"

fun left_of :: "'v input \<Rightarrow> 'v event list" where
  "left_of (LeftIn now e) = [e]" | "left_of (RightIn now e) = []"

fun right_of :: "'v input \<Rightarrow> 'v event list" where
  "right_of (LeftIn now e) = []" | "right_of (RightIn now e) = [e]"

definition lefts_of :: "'v input list \<Rightarrow> 'v event list" where "lefts_of ins = concat (map left_of ins)"
definition rights_of :: "'v input list \<Rightarrow> 'v event list" where "rights_of ins = concat (map right_of ins)"

lemma lefts_of_simps [simp]: "lefts_of [] = []" "lefts_of (ins @ [LeftIn now e]) = lefts_of ins @ [e]"
  "lefts_of (ins @ [RightIn now e]) = lefts_of ins"
  by (simp_all add: lefts_of_def)

lemma rights_of_simps [simp]: "rights_of [] = []" "rights_of (ins @ [RightIn now e]) = rights_of ins @ [e]"
  "rights_of (ins @ [LeftIn now e]) = rights_of ins"
  by (simp_all add: rights_of_def)

lemma lefts_rights_length: "length (lefts_of ins) + length (rights_of ins) = length ins"
proof (induction ins)
  case (Cons i ins)
  then show ?case by (cases i) (simp_all add: lefts_of_def rights_of_def)
qed simp

lemma join_run_snoc:
  "join_run fmt ord jo (ins @ [i]) =
     (let (out, jo1) = join_run fmt ord jo ins; (rs, jo2) = process_input fmt ord i jo1 in (out @ rs, jo2))"
  by (simp add: join_run_def split: prod.splits)

text \<open>The pairs the operator is to emit: the hash strategies compare events of equal keys only.\<close>

definition pair_matches :: "'v JoinOperator \<Rightarrow> 'v event \<Rightarrow> 'v event \<Rightarrow> bool" where
  "pair_matches jo l r \<longleftrightarrow> matchesCondition jo l r \<and> (Strategy (jo_config jo) = NestedLoopJoin \<or> Key l = Key r)"

definition matching_rows ::
  "(gtime \<Rightarrow> string) \<Rightarrow> ('v event \<Rightarrow> 'v event \<Rightarrow> bool) \<Rightarrow> 'v event list \<Rightarrow> 'v event list \<Rightarrow> 'v joined multiset" where
  "matching_rows fmt P ls rs =
     image_mset (\<lambda>(l, r). joined_pair fmt l r) (filter_mset (\<lambda>(l, r). P l r) (mset (List.product ls rs)))"

abbreviation expected :: "(gtime \<Rightarrow> string) \<Rightarrow> 'v JoinOperator \<Rightarrow> 'v event list \<Rightarrow> 'v event list \<Rightarrow> 'v joined multiset" where
  "expected fmt jo \<equiv> matching_rows fmt (pair_matches jo)"

lemma matching_rows_Nil [simp]: "matching_rows fmt P [] rs = {#}" "matching_rows fmt P ls [] = {#}"
  by (simp_all add: matching_rows_def)

lemma mset_product_left: "mset (List.product (ls @ [e]) rs) = mset (List.product ls rs) + image_mset (Pair e) (mset rs)"
  by (induction ls) auto

lemma mset_product_right: "mset (List.product ls (rs @ [e])) = mset (List.product ls rs) + image_mset (\<lambda>l. (l, e)) (mset ls)"
  by (induction ls) (auto simp: ac_simps)

lemma matching_rows_left:
  "matching_rows fmt P (ls @ [e]) rs = matching_rows fmt P ls rs + image_mset (joined_pair fmt e) (filter_mset (P e) (mset rs))"
  by (simp add: matching_rows_def mset_product_left filter_mset_image_mset image_mset.compositionality o_def)

lemma matching_rows_right:
  "matching_rows fmt P ls (rs @ [e]) = matching_rows fmt P ls rs +
     image_mset (\<lambda>l. joined_pair fmt l e) (filter_mset (\<lambda>l. P l e) (mset ls))"
  by (simp add: matching_rows_def mset_product_right filter_mset_image_mset image_mset.compositionality o_def)

text \<open>Regrouping events by key loses none and repeats none.\<close>

lemma mset_by_key:
  assumes "distinct ks" "Key ` set es \<subseteq> set ks"
  shows "mset (concat (map (\<lambda>k. filter (\<lambda>e. Key e = k) es) ks)) = mset es"
  using assms(2)
proof (induction es)
  case (Cons e es)
  have none: "(\<Sum>k \<leftarrow> ks. if Key e = k then {#e#} else {#}) = {#}" if "Key e \<notin> set ks" for ks
    using that by (induction ks) auto
  have one: "(\<Sum>k \<leftarrow> ks. if Key e = k then {#e#} else {#}) = {#e#}" if "Key e \<in> set ks" "distinct ks" for ks
    using that by (induction ks) (auto simp: none)
  have regroup: "mset (concat (map (\<lambda>k. filter (\<lambda>e'. Key e' = k) (e # es)) ks)) =
      (\<Sum>k \<leftarrow> ks. if Key e = k then {#e#} else {#}) + mset (concat (map (\<lambda>k. filter (\<lambda>e'. Key e' = k) es) ks))" for ks
    by (induction ks) (auto simp: ac_simps)
  show ?case using Cons one [OF _ assms(1)] by (simp add: regroup del: filter.simps)
next
  case Nil
  show ?case by (induction ks) auto
qed

text \<open>What holds between the inputs processed and the state when nothing was dropped.\<close>

definition run_inv :: "'v JoinOperator \<Rightarrow> 'v input list \<Rightarrow> 'v JoinOperator \<Rightarrow> bool" where
  "run_inv jo0 ins jo \<longleftrightarrow> jo_config jo = jo_config jo0 \<and> jo_condition jo = jo_condition jo0 \<and>
     js_config (jo_state jo) = jo_config jo0 \<and> js_inv (jo_state jo) \<and>
     left_events (jo_state jo) = (\<lambda>k. filter (\<lambda>e. Key e = k) (lefts_of ins)) \<and>
     right_events (jo_state jo) = (\<lambda>k. filter (\<lambda>e. Key e = k) (rights_of ins))"

lemma run_inv_matches: "run_inv jo0 ins jo \<Longrightarrow> matchesCondition jo = matchesCondition jo0"
  by (simp add: run_inv_def matchesCondition_def fun_eq_iff)

lemma add_left_inv:
  assumes "run_inv jo0 ins jo" "MaxStateSize (jo_config jo0) \<le> 0 \<or> int (length ins) < MaxStateSize (jo_config jo0)"
  shows "run_inv jo0 (ins @ [LeftIn now e]) (jo\<lparr>jo_state := AddLeftEvent now e x (jo_state jo)\<rparr>)"
proof -
  have "length (filter (\<lambda>e'. Key e' = Key e) (lefts_of ins)) \<le> length ins"
    using lefts_rights_length [of ins] length_filter_le [of "\<lambda>e'. Key e' = Key e" "lefts_of ins"] by linarith
  then have "retain (MaxStateSize (jo_config jo0)) (filter (\<lambda>e'. Key e' = Key e) (lefts_of ins) @ [e]) =
      filter (\<lambda>e'. Key e' = Key e) (lefts_of ins) @ [e]"
    using assms(2) by (intro retain_short) auto
  then show ?thesis
    using assms(1) by (auto simp: run_inv_def js.contents AddLeftEvent_inv fun_eq_iff)
qed

lemma store_left_inv:
  assumes "run_inv jo0 ins jo" "MaxStateSize (jo_config jo0) \<le> 0 \<or> int (length ins) < MaxStateSize (jo_config jo0)"
  shows "run_inv jo0 (ins @ [LeftIn now e]) (store_left now jo e)"
  using add_left_inv [OF assms] by (simp add: store_left_def Let_def)

lemma add_right_inv:
  assumes "run_inv jo0 ins jo" "MaxStateSize (jo_config jo0) \<le> 0 \<or> int (length ins) < MaxStateSize (jo_config jo0)"
  shows "run_inv jo0 (ins @ [RightIn now e]) (jo\<lparr>jo_state := AddRightEvent now e x (jo_state jo)\<rparr>)"
proof -
  have "length (filter (\<lambda>e'. Key e' = Key e) (rights_of ins)) \<le> length ins"
    using lefts_rights_length [of ins] length_filter_le [of "\<lambda>e'. Key e' = Key e" "rights_of ins"] by linarith
  then have "retain (MaxStateSize (jo_config jo0)) (filter (\<lambda>e'. Key e' = Key e) (rights_of ins) @ [e]) =
      filter (\<lambda>e'. Key e' = Key e) (rights_of ins) @ [e]"
    using assms(2) by (intro retain_short) auto
  then show ?thesis
    using assms(1) by (auto simp: run_inv_def js.contents AddRightEvent_inv fun_eq_iff)
qed

lemma store_right_inv:
  assumes "run_inv jo0 ins jo" "MaxStateSize (jo_config jo0) \<le> 0 \<or> int (length ins) < MaxStateSize (jo_config jo0)"
  shows "run_inv jo0 (ins @ [RightIn now e]) (store_right now jo e)"
  using add_right_inv [OF assms] by (simp add: store_right_def Let_def)

lemma run_inv_same:
  "run_inv jo0 ins jo \<Longrightarrow> same_events (jo_state jo) js \<Longrightarrow> run_inv jo0 ins (jo\<lparr>jo_state := js\<rparr>)"
  by (simp add: run_inv_def same_events_def)

text \<open>Both kinds of candidate lists give the events that \<open>pair_matches\<close> is to be tested on.\<close>

lemma right_candidates_inv:
  assumes "run_inv jo0 ins jo" "range_order ks (rightState (jo_state jo))"
  shows "filter_mset (matchesCondition jo0 e) (mset (right_candidates ks jo e)) =
    filter_mset (pair_matches jo0 e) (mset (rights_of ins))"
proof (cases "Strategy (jo_config jo0) = NestedLoopJoin")
  case True
  have keys: "GetAllRightKeys ks (jo_state jo) = ks"
    using assms(2) by (auto simp: GetAllRightKeys_def range_order_def filter_id_conv)
  have "k \<in> set ks" if "r \<in> set (rights_of ins)" "k = Key r" for r k
  proof (rule ccontr)
    assume "k \<notin> set ks"
    then have "rightState (jo_state jo) k = None" using assms(2) by (auto simp: range_order_def)
    then have "right_events (jo_state jo) k = []" by (simp add: right_events_def GetRightEvents_def)
    with assms(1) that show False by (auto simp: run_inv_def filter_empty_conv)
  qed
  then have "mset (concat (map (\<lambda>k. filter (\<lambda>e. Key e = k) (rights_of ins)) ks)) = mset (rights_of ins)"
    using assms(2) by (intro mset_by_key) auto
  then have "mset (right_candidates ks jo e) = mset (rights_of ins)"
    using True assms(1) keys by (simp add: right_candidates_def run_inv_def del: mset_concat)
  then show ?thesis using True by (simp add: pair_matches_def cong: filter_mset_cong)
next
  case False
  then show ?thesis
    using assms(1) by (auto simp: right_candidates_def run_inv_def pair_matches_def filter_filter_mset conj_commute
        intro!: filter_mset_cong)
qed

lemma left_candidates_inv:
  assumes "run_inv jo0 ins jo" "range_order ks (leftState (jo_state jo))"
  shows "filter_mset (\<lambda>l. matchesCondition jo0 l e) (mset (left_candidates ks jo e)) =
    filter_mset (\<lambda>l. pair_matches jo0 l e) (mset (lefts_of ins))"
proof (cases "Strategy (jo_config jo0) = NestedLoopJoin")
  case True
  have keys: "GetAllLeftKeys ks (jo_state jo) = ks"
    using assms(2) by (auto simp: GetAllLeftKeys_def range_order_def filter_id_conv)
  have "k \<in> set ks" if "r \<in> set (lefts_of ins)" "k = Key r" for r k
  proof (rule ccontr)
    assume "k \<notin> set ks"
    then have "leftState (jo_state jo) k = None" using assms(2) by (auto simp: range_order_def)
    then have "left_events (jo_state jo) k = []" by (simp add: left_events_def GetLeftEvents_def)
    with assms(1) that show False by (auto simp: run_inv_def filter_empty_conv)
  qed
  then have "mset (concat (map (\<lambda>k. filter (\<lambda>e. Key e = k) (lefts_of ins)) ks)) = mset (lefts_of ins)"
    using assms(2) by (intro mset_by_key) auto
  then have "mset (left_candidates ks jo e) = mset (lefts_of ins)"
    using True assms(1) keys by (simp add: left_candidates_def run_inv_def del: mset_concat)
  then show ?thesis using True by (simp add: pair_matches_def cong: filter_mset_cong)
next
  case False
  then show ?thesis
    using assms(1) by (auto simp: left_candidates_def run_inv_def pair_matches_def filter_filter_mset conj_commute
        intro!: filter_mset_cong)
qed

text \<open>An iteration order for every map, as Go provides one.\<close>

definition orders :: "('v side_store \<Rightarrow> string list) \<Rightarrow> bool" where
  "orders ord \<longleftrightarrow> (\<forall>m. finite (dom m) \<longrightarrow> range_order (ord m) m)"

lemma run_inv_orders:
  assumes "orders ord" "run_inv jo0 ins jo"
  shows "range_order (ord (rightState (jo_state jo))) (rightState (jo_state jo))"
    "range_order (ord (leftState (jo_state jo))) (leftState (jo_state jo))"
  using assms by (simp_all add: orders_def run_inv_def js_inv_def store_ok_def)

text \<open>The rows an input adds: a pair with every matching event of the other side, or the event alone when
  an outer join found none.\<close>

definition null_row :: "(gtime \<Rightarrow> string) \<Rightarrow> 'v input \<Rightarrow> 'v joined" where
  "null_row fmt i = (case i of LeftIn now e \<Rightarrow> ToEvent fmt (createJoinResult (Some e) None)
                     | RightIn now e \<Rightarrow> ToEvent fmt (createJoinResult None (Some e)))"

definition outer_for :: "JoinType \<Rightarrow> 'v input \<Rightarrow> bool" where
  "outer_for t i = (case i of LeftIn now e \<Rightarrow> t \<in> {LeftOuterJoin, FullOuterJoin}
                    | RightIn now e \<Rightarrow> t \<in> {RightOuterJoin, FullOuterJoin})"

definition new_pairs :: "(gtime \<Rightarrow> string) \<Rightarrow> 'v JoinOperator \<Rightarrow> 'v input list \<Rightarrow> 'v input \<Rightarrow> 'v joined multiset" where
  "new_pairs fmt jo ins i = (case i of
     LeftIn now e \<Rightarrow> image_mset (joined_pair fmt e) (filter_mset (pair_matches jo e) (mset (rights_of ins)))
   | RightIn now e \<Rightarrow> image_mset (\<lambda>l. joined_pair fmt l e) (filter_mset (\<lambda>l. pair_matches jo l e) (mset (lefts_of ins))))"

lemma process_input_rows:
  assumes inv: "run_inv jo0 ins jo" and ord: "orders ord"
    and room: "MaxStateSize (jo_config jo0) \<le> 0 \<or> int (length ins) < MaxStateSize (jo_config jo0)"
    and run: "process_input fmt ord i jo = (rs, jo')"
  shows "run_inv jo0 (ins @ [i]) jo' \<and>
    mset rs = new_pairs fmt jo0 ins i +
      (if new_pairs fmt jo0 ins i = {#} \<and> outer_for (JType (jo_config jo0)) i then {#null_row fmt i#} else {#})"
proof (cases i)
  case (LeftIn now e)
  let ?ks = "ord (rightState (jo_state jo))" and ?jo1 = "store_left now jo e"
  have inv1: "run_inv jo0 (ins @ [LeftIn now e]) ?jo1" by (rule store_left_inv [OF inv room])
  have "range_order ?ks (rightState (jo_state ?jo1))"
    using run_inv_orders(1) [OF ord inv] by (simp add: store_left_def Let_def)
  then have cand: "filter_mset (matchesCondition ?jo1 e) (mset (right_candidates ?ks ?jo1 e)) =
      filter_mset (pair_matches jo0 e) (mset (rights_of ins))"
    using right_candidates_inv [OF inv1] run_inv_matches [OF inv1] by simp
  define ms where "ms = filter (matchesCondition ?jo1 e) (right_candidates ?ks ?jo1 e)"
  have np: "new_pairs fmt jo0 ins i = mset (map (joined_pair fmt e) ms)"
    using cand LeftIn by (simp add: new_pairs_def ms_def)
  have "join_left fmt ?ks ?jo1 e = (rs, jo')" using run LeftIn by (simp add: jo_ProcessLeft_def)
  from join_left_spec [OF this, folded ms_def] inv1
  have rs: "rs = map (joined_pair fmt e) ms @
      (if ms = [] \<and> JType (jo_config jo0) \<in> {LeftOuterJoin, FullOuterJoin}
       then [ToEvent fmt (createJoinResult (Some e) None)] else [])"
    and "run_inv jo0 (ins @ [LeftIn now e]) jo'"
    by (auto simp: run_inv_def [of _ _ ?jo1] intro: run_inv_same [OF inv1])
  then show ?thesis unfolding np using LeftIn by (auto simp: null_row_def outer_for_def)
next
  case (RightIn now e)
  let ?ks = "ord (leftState (jo_state jo))" and ?jo1 = "store_right now jo e"
  have inv1: "run_inv jo0 (ins @ [RightIn now e]) ?jo1" by (rule store_right_inv [OF inv room])
  have "range_order ?ks (leftState (jo_state ?jo1))"
    using run_inv_orders(2) [OF ord inv] by (simp add: store_right_def Let_def)
  then have cand: "filter_mset (\<lambda>l. matchesCondition ?jo1 l e) (mset (left_candidates ?ks ?jo1 e)) =
      filter_mset (\<lambda>l. pair_matches jo0 l e) (mset (lefts_of ins))"
    using left_candidates_inv [OF inv1] run_inv_matches [OF inv1] by simp
  define ms where "ms = filter (\<lambda>l. matchesCondition ?jo1 l e) (left_candidates ?ks ?jo1 e)"
  have np: "new_pairs fmt jo0 ins i = mset (map (\<lambda>l. joined_pair fmt l e) ms)"
    using cand RightIn by (simp add: new_pairs_def ms_def)
  have "join_right fmt ?ks ?jo1 e = (rs, jo')" using run RightIn by (simp add: jo_ProcessRight_def)
  from join_right_spec [OF this, folded ms_def] inv1
  have rs: "rs = map (\<lambda>l. joined_pair fmt l e) ms @
      (if ms = [] \<and> JType (jo_config jo0) \<in> {RightOuterJoin, FullOuterJoin}
       then [ToEvent fmt (createJoinResult None (Some e))] else [])"
    and "run_inv jo0 (ins @ [RightIn now e]) jo'"
    by (auto simp: run_inv_def [of _ _ ?jo1] intro: run_inv_same [OF inv1])
  then show ?thesis unfolding np using RightIn by (auto simp: null_row_def outer_for_def)
qed

lemma NewJoinOperator_inv: "NewJoinOperator config = Inr jo0 \<Longrightarrow> run_inv jo0 [] jo0"
  by (auto simp: NewJoinOperator_def jo_startCleanup_def run_inv_def NewJoinState_def js_inv_def store_ok_def
      left_events_def right_events_def GetLeftEvents_def GetRightEvents_def Let_def fun_eq_iff split: if_splits)

lemma join_run_inv:
  assumes "NewJoinOperator config = Inr jo0" "orders ord" "join_run fmt ord jo0 ins = (out, jo)"
    and "MaxStateSize (jo_config jo0) \<le> 0 \<or> int (length ins) \<le> MaxStateSize (jo_config jo0)"
  shows "run_inv jo0 ins jo \<and> (JType (jo_config jo0) = InnerJoin \<longrightarrow> mset out = expected fmt jo0 (lefts_of ins) (rights_of ins))"
  using assms(3,4)
proof (induction ins arbitrary: out jo rule: rev_induct)
  case Nil
  then show ?case using NewJoinOperator_inv [OF assms(1)] by (simp add: join_run_def)
next
  case (snoc i ins)
  obtain out1 jo1 rs where run: "join_run fmt ord jo0 ins = (out1, jo1)" "process_input fmt ord i jo1 = (rs, jo)" "out = out1 @ rs"
    using snoc.prems(1) by (auto simp: join_run_snoc split: prod.splits)
  have IH: "run_inv jo0 ins jo1"
    "JType (jo_config jo0) = InnerJoin \<Longrightarrow> mset out1 = expected fmt jo0 (lefts_of ins) (rights_of ins)"
    using snoc.IH [OF run(1)] snoc.prems(2) by auto
  have "MaxStateSize (jo_config jo0) \<le> 0 \<or> int (length ins) < MaxStateSize (jo_config jo0)"
    using snoc.prems(2) by auto
  note rows = process_input_rows [OF IH(1) assms(2) this run(2)]
  have "expected fmt jo0 (lefts_of (ins @ [i])) (rights_of (ins @ [i])) =
      expected fmt jo0 (lefts_of ins) (rights_of ins) + new_pairs fmt jo0 ins i"
    by (cases i) (simp_all add: matching_rows_left matching_rows_right new_pairs_def)
  then show ?case using rows IH(2) run(3) by (auto simp: outer_for_def split: input.splits)
qed

text \<open>C1: Processed one input after the other and with room for all events, an inner join emits exactly one
  row for every pair of a left and a right event that satisfies the condition and the time window (and, under
  the hash and sort-merge strategies, has equal keys), whatever the arrival order, the map iteration orders and the
  strategy: nothing is missed and nothing is repeated.\<close>

theorem join_exactly_once:
  assumes "NewJoinOperator config = Inr jo0" "JType (jo_config jo0) = InnerJoin" "orders ord"
    and "MaxStateSize (jo_config jo0) \<le> 0 \<or> int (length ins) \<le> MaxStateSize (jo_config jo0)"
  shows "mset (fst (join_run fmt ord jo0 ins)) =
    image_mset (\<lambda>(l, r). joined_pair fmt l r)
      (filter_mset (\<lambda>(l, r). matchesCondition jo0 l r \<and> (Strategy (jo_config jo0) = NestedLoopJoin \<or> Key l = Key r))
        (mset (List.product (lefts_of ins) (rights_of ins))))"
proof -
  obtain out jo where run: "join_run fmt ord jo0 ins = (out, jo)" by (rule prod.exhaust)
  with join_run_inv [OF assms(1,3) run assms(4)] assms(2) show ?thesis
    by (simp add: matching_rows_def pair_matches_def)
qed

definition key_order :: "'v side_store \<Rightarrow> string list" where
  "key_order m = sorted_list_of_set (dom m)"

lemma orders_key_order: "orders key_order"
  by (simp add: orders_def key_order_def range_order_def)

definition sample_left :: "int event" where "sample_left = mk_event ''a'' 1 (100 * second) Map.empty"
definition sample_right :: "int event" where "sample_right = mk_event ''a'' 2 (160 * second) Map.empty"
definition sample_late :: "int event" where "sample_late = mk_event ''a'' 3 (1000 * second) Map.empty"

definition sample_join :: "JoinType \<Rightarrow> int JoinOperator" where
  "sample_join t = (case NewJoinOperator (Some (WithJoinType t DefaultJoinConfig)) of Inr jo \<Rightarrow> jo)"

lemma sample_join_eq:
  "NewJoinOperator (Some (WithJoinType t DefaultJoinConfig)) = Inr (sample_join t)"
  "JType (jo_config (sample_join t)) = t" "MaxStateSize (jo_config (sample_join t)) = 10000"
  "Strategy (jo_config (sample_join t)) = HashJoin" "TimeWindow (jo_config (sample_join t)) = 300 * second"
  "jo_condition (sample_join t) = EqualityCondition"
  by (simp_all add: sample_join_def NewJoinOperator_def with_default_condition_def WithJoinType_def DefaultJoinConfig_def
      jo_startCleanup_def Let_def gotime)

lemma sample_matches [simp]:
  "matchesCondition (sample_join t) sample_left sample_right" "\<not> matchesCondition (sample_join t) sample_left sample_late"
  by (simp_all add: matchesCondition_def sample_join_eq sample_left_def sample_right_def sample_late_def EqualityCondition_def
      gotime time_Sub_def min_duration_def max_duration_def Let_def)

lemma sample_keys [simp]: "Key sample_left = ''a''" "Key sample_right = ''a''" "Key sample_late = ''a''"
  by (simp_all add: sample_left_def sample_right_def sample_late_def)

theorem join_exactly_once_witness:
  "mset (fst (join_run show_int key_order (sample_join InnerJoin)
      [RightIn 0 sample_right, RightIn 0 sample_late, LeftIn 0 sample_left])) = {#joined_pair show_int sample_left sample_right#}"
  using join_exactly_once [OF sample_join_eq(1) _ orders_key_order, of InnerJoin
      "[RightIn 0 sample_right, RightIn 0 sample_late, LeftIn 0 sample_left]" show_int]
  by (simp add: sample_join_eq lefts_of_def rights_of_def)

text \<open>After any such sequence of inputs a further input adds one row for each matching event that arrived
  before it on the other side, and an outer join that finds none emits the event alone at once.\<close>

theorem join_input_rows:
  assumes "NewJoinOperator config = Inr jo0" "orders ord" "join_run fmt ord jo0 ins = (out, jo)"
    and "MaxStateSize (jo_config jo0) \<le> 0 \<or> int (length ins) < MaxStateSize (jo_config jo0)"
    and "process_input fmt ord i jo = (rs, jo')"
  shows "mset rs = new_pairs fmt jo0 ins i +
    (if new_pairs fmt jo0 ins i = {#} \<and> outer_for (JType (jo_config jo0)) i then {#null_row fmt i#} else {#})"
proof -
  have "run_inv jo0 ins jo" using join_run_inv [OF assms(1-3)] assms(4) by auto
  from process_input_rows [OF this assms(2,4,5)] show ?thesis by blast
qed

theorem join_input_rows_witness:
  "mset (fst (process_input show_int key_order (LeftIn 0 sample_left) (sample_join LeftOuterJoin))) =
     {#null_row show_int (LeftIn 0 sample_left)#}"
proof -
  let ?i = "LeftIn 0 sample_left"
  obtain rs jo' where run: "process_input show_int key_order ?i (sample_join LeftOuterJoin) = (rs, jo')" by (rule prod.exhaust)
  have "join_run show_int key_order (sample_join LeftOuterJoin) [] = ([], sample_join LeftOuterJoin)"
    by (simp add: join_run_def)
  from join_input_rows [OF sample_join_eq(1) orders_key_order this _ run] run show ?thesis
    by (simp add: sample_join_eq new_pairs_def outer_for_def)
qed

text \<open>The row of an unmatched event is premature: a left outer join emits a left event alone when it
  arrives before its partner and emits the pair as well when the partner comes, so one left event appears in its
  result both as unmatched and as matched.\<close>

theorem premature_outer_row:
  "mset (fst (join_run show_int key_order (sample_join LeftOuterJoin) [LeftIn 0 sample_left, RightIn 1 sample_right])) =
     {#null_row show_int (LeftIn 0 sample_left), joined_pair show_int sample_left sample_right#}"
proof -
  let ?jo = "sample_join LeftOuterJoin" and ?l = "LeftIn 0 sample_left" and ?r = "RightIn 1 sample_right"
  obtain rs1 jo1 where r1: "process_input show_int key_order ?l ?jo = (rs1, jo1)" by (rule prod.exhaust)
  obtain rs2 jo2 where r2: "process_input show_int key_order ?r jo1 = (rs2, jo2)" by (rule prod.exhaust)
  have inv0: "run_inv ?jo [] ?jo" by (rule NewJoinOperator_inv [OF sample_join_eq(1)])
  note s1 = process_input_rows [OF inv0 orders_key_order _ r1]
  note s2 = process_input_rows [OF _ orders_key_order _ r2, of ?jo "[?l]"]
  have "mset rs1 = {#null_row show_int ?l#}" "mset rs2 = {#joined_pair show_int sample_left sample_right#}"
    using s1 s2 by (auto simp: sample_join_eq new_pairs_def outer_for_def pair_matches_def lefts_of_def)
  then show ?thesis using r1 r2 by (simp add: join_run_def)
qed

end
