(* ===== verification/Dual_Stream.thy ===== *)
theory Dual_Stream
  imports Join_Operator
begin

text \<open>
  The dual-stream wrapper of \<open>pkg/join/join.go\<close>: \<open>Start\<close> runs one goroutine per input, each of which takes
  an event from its channel, calls \<open>ProcessLeft\<close> or \<open>ProcessRight\<close> and sends the results to the output
  channel. The two calls hold the operator's lock for reading only, so they run concurrently; what excludes
  them from each other is the lock of the join state, which \<open>AddLeftEvent\<close> and \<open>GetRightEvents\<close> take one
  after the other. The steps of the model are these critical sections: an event is stored, and later the
  other side is probed for it. In between the other goroutine may run. The counters that the probe
  increments do not influence the results. Output is the sequence of events sent.
\<close>

record 'v DualStreamJoinOperator =
  joinOp :: "'v JoinOperator"
  leftInput :: "'v event list"
  rightInput :: "'v event list"
  left_pending :: "'v event option"
  right_pending :: "'v event option"
  dj_output :: "'v joined list"

definition NewDualStreamJoin ::
  "'v event list \<Rightarrow> 'v event list \<Rightarrow> 'v JoinConfig option \<Rightarrow> jo_error + 'v DualStreamJoinOperator" where
  "NewDualStreamJoin ls rs config =
     map_sum id (\<lambda>jo. \<lparr>joinOp = jo, leftInput = ls, rightInput = rs, left_pending = None, right_pending = None, dj_output = []\<rparr>)
       (NewJoinOperator config)"

inductive dual_step ::
  "(gtime \<Rightarrow> string) \<Rightarrow> ('v side_store \<Rightarrow> string list) \<Rightarrow> 'v DualStreamJoinOperator \<Rightarrow> 'v DualStreamJoinOperator \<Rightarrow> bool"
  for fmt ord where
  left_store: "left_pending s = None \<Longrightarrow> leftInput s = e # q \<Longrightarrow>
    dual_step fmt ord s (s\<lparr>leftInput := q, left_pending := Some e, joinOp := store_left now (joinOp s) e\<rparr>)"
| left_probe: "left_pending s = Some e \<Longrightarrow>
    join_left fmt (ord (rightState (jo_state (joinOp s)))) (joinOp s) e = (results, jo) \<Longrightarrow>
    dual_step fmt ord s (s\<lparr>left_pending := None, joinOp := jo, dj_output := dj_output s @ results\<rparr>)"
| right_store: "right_pending s = None \<Longrightarrow> rightInput s = e # q \<Longrightarrow>
    dual_step fmt ord s (s\<lparr>rightInput := q, right_pending := Some e, joinOp := store_right now (joinOp s) e\<rparr>)"
| right_probe: "right_pending s = Some e \<Longrightarrow>
    join_right fmt (ord (leftState (jo_state (joinOp s)))) (joinOp s) e = (results, jo) \<Longrightarrow>
    dual_step fmt ord s (s\<lparr>right_pending := None, joinOp := jo, dj_output := dj_output s @ results\<rparr>)"

definition drained :: "'v DualStreamJoinOperator \<Rightarrow> bool" where
  "drained s \<longleftrightarrow> leftInput s = [] \<and> rightInput s = [] \<and> left_pending s = None \<and> right_pending s = None"

lemma progress: "\<not> drained s \<Longrightarrow> \<exists>t. dual_step fmt ord s t"
proof -
  assume nd: "\<not> drained s"
  have probe: "\<exists>t. dual_step fmt ord s t" if "left_pending s \<noteq> None \<or> right_pending s \<noteq> None"
    using that dual_step.left_probe [of s _ fmt ord] dual_step.right_probe [of s _ fmt ord]
    by (metis not_None_eq prod.exhaust)
  have "\<exists>t. dual_step fmt ord s t" if "left_pending s = None" "right_pending s = None"
    using that nd dual_step.left_store [of s _ _ fmt ord] dual_step.right_store [of s _ _ fmt ord]
    unfolding drained_def by (metis neq_Nil_conv)
  with probe show ?thesis by blast
qed

section \<open>Rows by index pairs\<close>

text \<open>The rows of the index pairs in \<open>A\<close>, for left events \<open>L\<close> and right events \<open>R\<close>.\<close>

definition rows ::
  "(gtime \<Rightarrow> string) \<Rightarrow> 'v JoinOperator \<Rightarrow> 'v event list \<Rightarrow> 'v event list \<Rightarrow> (nat \<times> nat) set \<Rightarrow> 'v joined multiset" where
  "rows fmt jo L R A =
     image_mset (\<lambda>(i, j). joined_pair fmt (L ! i) (R ! j))
       (filter_mset (\<lambda>(i, j). pair_matches jo (L ! i) (R ! j)) (mset_set A))"

abbreviation grid :: "'a list \<Rightarrow> 'b list \<Rightarrow> (nat \<times> nat) set" where
  "grid L R \<equiv> {..<length L} \<times> {..<length R}"

lemma rows_mono: "finite B \<Longrightarrow> A \<subseteq> B \<Longrightarrow> rows fmt jo L R A \<subseteq># rows fmt jo L R B"
  unfolding rows_def by (intro image_mset_subseteq_mono multiset_filter_mono subset_imp_msubset_mset_set)

lemma rows_Un_le:
  assumes "finite A" "finite B"
  shows "rows fmt jo L R (A \<union> B) \<subseteq># rows fmt jo L R A + rows fmt jo L R B"
proof -
  have "mset_set (A \<union> B) \<subseteq># mset_set A + mset_set B"
    using assms by (intro mset_subset_eqI) (auto simp: count_mset_set')
  then show ?thesis
    unfolding rows_def by (metis (no_types, lifting) image_mset_subseteq_mono image_mset_union filter_union_mset multiset_filter_mono)
qed

lemma rows_Un_disjoint:
  assumes "finite A" "finite B" "A \<inter> B = {}"
  shows "rows fmt jo L R (A \<union> B) = rows fmt jo L R A + rows fmt jo L R B"
  using assms by (simp add: rows_def mset_set_Union)

lemma rows_cong:
  assumes "A \<subseteq> grid L R" "\<And>i. i < length L \<Longrightarrow> L' ! i = L ! i" "\<And>j. j < length R \<Longrightarrow> R' ! j = R ! j"
  shows "rows fmt jo L' R' A = rows fmt jo L R A"
proof -
  have fin: "finite A" using assms(1) by (rule finite_subset) simp
  have eq: "L' ! i = L ! i \<and> R' ! j = R ! j" if "(i, j) \<in># mset_set A" for i j
    using that fin assms by auto
  then have "filter_mset (\<lambda>(i, j). pair_matches jo (L' ! i) (R' ! j)) (mset_set A) =
      filter_mset (\<lambda>(i, j). pair_matches jo (L ! i) (R ! j)) (mset_set A)"
    by (intro filter_mset_cong) auto
  then show ?thesis
    unfolding rows_def by (auto intro!: image_mset_cong simp: eq)
qed

lemma mset_nth: "image_mset ((!) xs) (mset_set {..<length xs}) = mset xs"
  by (metis map_nth mset_map mset_set_upto_eq_mset_upto)

lemma rows_row:
  "rows fmt jo L R ({i} \<times> {..<length R}) = image_mset (joined_pair fmt (L ! i)) (filter_mset (pair_matches jo (L ! i)) (mset R))"
proof -
  have "mset_set ({i} \<times> {..<length R}) = image_mset (Pair i) (mset_set {..<length R})"
    by (subst image_mset_mset_set) (auto simp: inj_on_def intro!: arg_cong [of _ _ mset_set])
  then have "rows fmt jo L R ({i} \<times> {..<length R}) =
      image_mset (joined_pair fmt (L ! i)) (filter_mset (pair_matches jo (L ! i)) (image_mset ((!) R) (mset_set {..<length R})))"
    by (simp add: rows_def filter_mset_image_mset image_mset.compositionality o_def)
  then show ?thesis by (simp only: mset_nth)
qed

lemma rows_column:
  "rows fmt jo L R ({..<length L} \<times> {j}) =
     image_mset (\<lambda>l. joined_pair fmt l (R ! j)) (filter_mset (\<lambda>l. pair_matches jo l (R ! j)) (mset L))"
proof -
  have "mset_set ({..<length L} \<times> {j}) = image_mset (\<lambda>i. (i, j)) (mset_set {..<length L})"
    by (subst image_mset_mset_set) (auto simp: inj_on_def intro!: arg_cong [of _ _ mset_set])
  then have "rows fmt jo L R ({..<length L} \<times> {j}) =
      image_mset (\<lambda>l. joined_pair fmt l (R ! j))
        (filter_mset (\<lambda>l. pair_matches jo l (R ! j)) (image_mset ((!) L) (mset_set {..<length L})))"
    by (simp add: rows_def filter_mset_image_mset image_mset.compositionality o_def)
  then show ?thesis by (simp only: mset_nth)
qed

lemma rows_grid: "rows fmt jo L R (grid L R) = expected fmt jo L R"
proof (induction L rule: rev_induct)
  case Nil
  show ?case by (simp add: rows_def)
next
  case (snoc e L)
  have "grid (L @ [e]) R = grid L R \<union> {length L} \<times> {..<length R}" by auto
  then have "rows fmt jo (L @ [e]) R (grid (L @ [e]) R) =
      rows fmt jo (L @ [e]) R (grid L R) + rows fmt jo (L @ [e]) R ({length L} \<times> {..<length R})"
    by (simp only:) (rule rows_Un_disjoint, auto)
  also have "rows fmt jo (L @ [e]) R (grid L R) = rows fmt jo L R (grid L R)"
    by (rule rows_cong) (auto simp: nth_append)
  finally show ?case using snoc by (simp add: matching_rows_left rows_row)
qed

section \<open>The invariant of the interleavings\<close>

text \<open>
  \<open>ins\<close> is the order in which events were stored; \<open>A\<close> are the index pairs compared by probes of left
  events and \<open>B\<close> those compared by probes of right events. Every pair of stored events has been compared by
  one side or the other unless one of the two is still to be probed for.
\<close>

definition dual_inv ::
  "(gtime \<Rightarrow> string) \<Rightarrow> 'v JoinOperator \<Rightarrow> 'v event list \<Rightarrow> 'v event list \<Rightarrow> 'v DualStreamJoinOperator
     \<Rightarrow> 'v input list \<Rightarrow> (nat \<times> nat) set \<Rightarrow> (nat \<times> nat) set \<Rightarrow> bool" where
  "dual_inv fmt jo0 ls rs s ins A B \<longleftrightarrow>
     (let L = lefts_of ins; R = rights_of ins in
      run_inv jo0 ins (joinOp s) \<and> L @ leftInput s = ls \<and> R @ rightInput s = rs \<and>
      (\<forall>e. left_pending s = Some e \<longrightarrow> L \<noteq> [] \<and> last L = e \<and> (\<forall>j. (length L - 1, j) \<notin> A)) \<and>
      (\<forall>e. right_pending s = Some e \<longrightarrow> R \<noteq> [] \<and> last R = e \<and> (\<forall>i. (i, length R - 1) \<notin> B)) \<and>
      A \<subseteq> grid L R \<and> B \<subseteq> grid L R \<and>
      (\<forall>(i, j) \<in> grid L R. (i, j) \<in> A \<union> B \<or> left_pending s \<noteq> None \<and> i = length L - 1 \<or>
         right_pending s \<noteq> None \<and> j = length R - 1) \<and>
      mset (dj_output s) = rows fmt jo0 L R A + rows fmt jo0 L R B)"

definition room :: "'v JoinOperator \<Rightarrow> 'v event list \<Rightarrow> 'v event list \<Rightarrow> bool" where
  "room jo ls rs \<longleftrightarrow> MaxStateSize (jo_config jo) \<le> 0 \<or> int (length ls + length rs) \<le> MaxStateSize (jo_config jo)"

lemma room_next:
  assumes "room jo0 ls rs" "lefts_of ins @ q = ls" "rights_of ins @ q' = rs" "q \<noteq> [] \<or> q' \<noteq> []"
  shows "MaxStateSize (jo_config jo0) \<le> 0 \<or> int (length ins) < MaxStateSize (jo_config jo0)"
proof -
  have "length ins < length ls + length rs"
    using assms(2-4) lefts_rights_length [of ins] by (auto simp: length_greater_0_conv [symmetric] simp del: length_greater_0_conv)
  then show ?thesis using assms(1) by (auto simp: room_def)
qed

lemma inv_left_store:
  assumes inv: "dual_inv fmt jo0 ls rs s ins A B" and "room jo0 ls rs"
    and "left_pending s = None" "leftInput s = e # q"
  shows "dual_inv fmt jo0 ls rs (s\<lparr>leftInput := q, left_pending := Some e, joinOp := store_left now (joinOp s) e\<rparr>)
    (ins @ [LeftIn now e]) A B"
proof -
  let ?L = "lefts_of ins" and ?R = "rights_of ins"
  have parts: "run_inv jo0 ins (joinOp s)" "?L @ leftInput s = ls" "?R @ rightInput s = rs"
    "A \<subseteq> grid ?L ?R" "B \<subseteq> grid ?L ?R"
    using inv by (auto simp: dual_inv_def Let_def)
  have "run_inv jo0 (ins @ [LeftIn now e]) (store_left now (joinOp s) e)"
    by (rule store_left_inv [OF parts(1)], rule room_next [OF assms(2) parts(2,3)]) (simp add: assms(4))
  moreover have "rows fmt jo0 (?L @ [e]) ?R A = rows fmt jo0 ?L ?R A" "rows fmt jo0 (?L @ [e]) ?R B = rows fmt jo0 ?L ?R B"
    by (rule rows_cong [OF parts(4)]; simp add: nth_append) (rule rows_cong [OF parts(5)]; simp add: nth_append)
  moreover have "A \<subseteq> grid (?L @ [e]) ?R" "B \<subseteq> grid (?L @ [e]) ?R" "\<forall>j. (length ?L, j) \<notin> A" using parts(4,5) by auto
  moreover have "\<forall>(i, j) \<in> grid (?L @ [e]) ?R. (i, j) \<in> A \<union> B \<or> i = length ?L \<or>
         right_pending s \<noteq> None \<and> j = length ?R - 1"
    using inv assms(3) by (auto simp: dual_inv_def Let_def less_Suc_eq)
  ultimately show ?thesis
    using inv assms(3,4) by (simp add: dual_inv_def Let_def)
qed

lemma inv_right_store:
  assumes inv: "dual_inv fmt jo0 ls rs s ins A B" and "room jo0 ls rs"
    and "right_pending s = None" "rightInput s = e # q"
  shows "dual_inv fmt jo0 ls rs (s\<lparr>rightInput := q, right_pending := Some e, joinOp := store_right now (joinOp s) e\<rparr>)
    (ins @ [RightIn now e]) A B"
proof -
  let ?L = "lefts_of ins" and ?R = "rights_of ins"
  have parts: "run_inv jo0 ins (joinOp s)" "?L @ leftInput s = ls" "?R @ rightInput s = rs"
    "A \<subseteq> grid ?L ?R" "B \<subseteq> grid ?L ?R"
    using inv by (auto simp: dual_inv_def Let_def)
  have "run_inv jo0 (ins @ [RightIn now e]) (store_right now (joinOp s) e)"
    by (rule store_right_inv [OF parts(1)], rule room_next [OF assms(2) parts(2,3)]) (simp add: assms(4))
  moreover have "rows fmt jo0 ?L (?R @ [e]) A = rows fmt jo0 ?L ?R A" "rows fmt jo0 ?L (?R @ [e]) B = rows fmt jo0 ?L ?R B"
    by (rule rows_cong [OF parts(4)]; simp add: nth_append) (rule rows_cong [OF parts(5)]; simp add: nth_append)
  moreover have "A \<subseteq> grid ?L (?R @ [e])" "B \<subseteq> grid ?L (?R @ [e])" "\<forall>i. (i, length ?R) \<notin> B" using parts(4,5) by auto
  moreover have "\<forall>(i, j) \<in> grid ?L ?R. (i, j) \<in> A \<union> B \<or> left_pending s \<noteq> None \<and> i = length ?L - 1"
    using inv assms(3) by (simp add: dual_inv_def Let_def)
  then have "\<forall>(i, j) \<in> grid ?L (?R @ [e]). (i, j) \<in> A \<union> B \<or> left_pending s \<noteq> None \<and> i = length ?L - 1 \<or> j = length ?R"
    by (fastforce simp: less_Suc_eq)
  ultimately show ?thesis
    using inv assms(3,4) by (simp add: dual_inv_def Let_def)
qed

lemma inv_left_probe:
  assumes inv: "dual_inv fmt jo0 ls rs s ins A B" and "orders ord" "JType (jo_config jo0) = InnerJoin"
    and pend: "left_pending s = Some e"
    and run: "join_left fmt (ord (rightState (jo_state (joinOp s)))) (joinOp s) e = (results, jo)"
  shows "dual_inv fmt jo0 ls rs (s\<lparr>left_pending := None, joinOp := jo, dj_output := dj_output s @ results\<rparr>)
    ins (A \<union> {length (lefts_of ins) - 1} \<times> {..<length (rights_of ins)}) B"
proof -
  let ?L = "lefts_of ins" and ?R = "rights_of ins" and ?jo = "joinOp s"
  let ?N = "{length ?L - 1} \<times> {..<length ?R}" and ?ks = "ord (rightState (jo_state ?jo))"
  have parts: "run_inv jo0 ins ?jo" "?L \<noteq> []" "last ?L = e" "\<forall>j. (length ?L - 1, j) \<notin> A" "A \<subseteq> grid ?L ?R"
    using inv pend by (auto simp: dual_inv_def Let_def)
  have ne: "?L ! (length ?L - 1) = e" using parts(2,3) by (simp add: last_conv_nth)
  have "results = map (joined_pair fmt e) (filter (matchesCondition ?jo e) (right_candidates ?ks ?jo e))"
    and jo: "\<exists>js. jo = ?jo\<lparr>jo_state := js\<rparr> \<and> same_events (jo_state ?jo) js"
    using join_left_spec [OF run] assms(3) parts(1) by (auto simp: run_inv_def)
  then have "mset results = rows fmt jo0 ?L ?R ?N"
    using right_candidates_inv [OF parts(1) run_inv_orders(1) [OF assms(2) parts(1)], of e] run_inv_matches [OF parts(1)]
    by (simp add: rows_row ne del: One_nat_def)
  moreover have "rows fmt jo0 ?L ?R (A \<union> ?N) = rows fmt jo0 ?L ?R A + rows fmt jo0 ?L ?R ?N"
    by (rule rows_Un_disjoint) (use parts(4) finite_subset [OF parts(5)] in auto)
  moreover have "run_inv jo0 ins jo" using jo run_inv_same [OF parts(1)] by auto
  moreover have "A \<union> ?N \<subseteq> grid ?L ?R" using parts(2,5) by auto
  moreover have "\<forall>(i, j) \<in> grid ?L ?R. (i, j) \<in> (A \<union> ?N) \<union> B \<or> right_pending s \<noteq> None \<and> j = length ?R - 1"
    using inv by (auto simp: dual_inv_def Let_def)
  ultimately show ?thesis
    using inv by (simp add: dual_inv_def Let_def)
qed

lemma inv_right_probe:
  assumes inv: "dual_inv fmt jo0 ls rs s ins A B" and "orders ord" "JType (jo_config jo0) = InnerJoin"
    and pend: "right_pending s = Some e"
    and run: "join_right fmt (ord (leftState (jo_state (joinOp s)))) (joinOp s) e = (results, jo)"
  shows "dual_inv fmt jo0 ls rs (s\<lparr>right_pending := None, joinOp := jo, dj_output := dj_output s @ results\<rparr>)
    ins A (B \<union> {..<length (lefts_of ins)} \<times> {length (rights_of ins) - 1})"
proof -
  let ?L = "lefts_of ins" and ?R = "rights_of ins" and ?jo = "joinOp s"
  let ?N = "{..<length ?L} \<times> {length ?R - 1}" and ?ks = "ord (leftState (jo_state ?jo))"
  have parts: "run_inv jo0 ins ?jo" "?R \<noteq> []" "last ?R = e" "\<forall>i. (i, length ?R - 1) \<notin> B" "B \<subseteq> grid ?L ?R"
    using inv pend by (auto simp: dual_inv_def Let_def)
  have ne: "?R ! (length ?R - 1) = e" using parts(2,3) by (simp add: last_conv_nth)
  have "results = map (\<lambda>l. joined_pair fmt l e) (filter (\<lambda>l. matchesCondition ?jo l e) (left_candidates ?ks ?jo e))"
    and jo: "\<exists>js. jo = ?jo\<lparr>jo_state := js\<rparr> \<and> same_events (jo_state ?jo) js"
    using join_right_spec [OF run] assms(3) parts(1) by (auto simp: run_inv_def)
  then have "mset results = rows fmt jo0 ?L ?R ?N"
    using left_candidates_inv [OF parts(1) run_inv_orders(2) [OF assms(2) parts(1)], of e] run_inv_matches [OF parts(1)]
    by (simp add: rows_column ne del: One_nat_def)
  moreover have "rows fmt jo0 ?L ?R (B \<union> ?N) = rows fmt jo0 ?L ?R B + rows fmt jo0 ?L ?R ?N"
    by (rule rows_Un_disjoint) (use parts(4) finite_subset [OF parts(5)] in auto)
  moreover have "run_inv jo0 ins jo" using jo run_inv_same [OF parts(1)] by auto
  moreover have "B \<union> ?N \<subseteq> grid ?L ?R" using parts(2,5) by auto
  moreover have "\<forall>(i, j) \<in> grid ?L ?R. (i, j) \<in> A \<union> (B \<union> ?N) \<or> left_pending s \<noteq> None \<and> i = length ?L - 1"
    using inv by (auto simp: dual_inv_def Let_def)
  ultimately show ?thesis
    using inv by (simp add: dual_inv_def Let_def)
qed

definition dual_ok ::
  "(gtime \<Rightarrow> string) \<Rightarrow> ('v side_store \<Rightarrow> string list) \<Rightarrow> 'v JoinConfig option \<Rightarrow> 'v event list \<Rightarrow> 'v event list
     \<Rightarrow> 'v DualStreamJoinOperator \<Rightarrow> bool" where
  "dual_ok fmt ord config ls rs s \<longleftrightarrow>
     (\<forall>jo0. NewJoinOperator config = Inr jo0 \<and> orders ord \<and> room jo0 ls rs \<and> JType (jo_config jo0) = InnerJoin \<longrightarrow>
        (\<exists>ins A B. dual_inv fmt jo0 ls rs s ins A B))"

lemma dual_ok_step:
  assumes ok: "dual_ok fmt ord config ls rs s" and "dual_step fmt ord s t"
  shows "dual_ok fmt ord config ls rs t"
  unfolding dual_ok_def
proof (intro allI impI, elim conjE)
  fix jo0
  assume h: "NewJoinOperator config = Inr jo0" "orders ord" "room jo0 ls rs" "JType (jo_config jo0) = InnerJoin"
  with ok obtain ins A B where inv: "dual_inv fmt jo0 ls rs s ins A B" by (auto simp: dual_ok_def)
  from assms(2) show "\<exists>ins A B. dual_inv fmt jo0 ls rs t ins A B"
  proof (cases rule: dual_step.cases)
    case (left_store e q now)
    then show ?thesis using inv_left_store [OF inv h(3)] by blast
  next
    case (left_probe e results jo)
    then show ?thesis using inv_left_probe [OF inv h(2,4)] by blast
  next
    case (right_store e q now)
    then show ?thesis using inv_right_store [OF inv h(3)] by blast
  next
    case (right_probe e results jo)
    then show ?thesis using inv_right_probe [OF inv h(2,4)] by blast
  qed
qed

interpretation dual: stepping "\<lambda>s. NewDualStreamJoin ls rs config = Inr s" "dual_step fmt ord" "dual_ok fmt ord config ls rs"
  for ls rs config fmt ord
proof
  fix s
  assume init: "NewDualStreamJoin ls rs config = Inr s"
  show "dual_ok fmt ord config ls rs s"
    unfolding dual_ok_def
  proof (intro allI impI, elim conjE)
    fix jo0
    assume new: "NewJoinOperator config = Inr jo0"
    with init have "dual_inv fmt jo0 ls rs s [] {} {}"
      using NewJoinOperator_inv [OF new] by (auto simp: NewDualStreamJoin_def dual_inv_def Let_def rows_def)
    then show "\<exists>ins A B. dual_inv fmt jo0 ls rs s ins A B" by blast
  qed
qed (rule dual_ok_step)


section \<open>A pair emitted twice\<close>

text \<open>Both goroutines store their event before either probes.\<close>

definition start :: "int DualStreamJoinOperator" where
  "start = \<lparr>joinOp = sample_join InnerJoin, leftInput = [sample_left], rightInput = [sample_right],
     left_pending = None, right_pending = None, dj_output = []\<rparr>"

lemma start_new:
  "NewDualStreamJoin [sample_left] [sample_right] (Some (WithJoinType InnerJoin DefaultJoinConfig)) = Inr start"
  by (simp add: NewDualStreamJoin_def sample_join_eq start_def)

definition both_stored :: "int JoinOperator" where
  "both_stored = store_right 0 (store_left 0 (sample_join InnerJoin) sample_left) sample_right"

lemma both_stored_inv: "run_inv (sample_join InnerJoin) [LeftIn 0 sample_left, RightIn 0 sample_right] both_stored"
proof -
  have "run_inv (sample_join InnerJoin) ([] @ [LeftIn 0 sample_left]) (store_left 0 (sample_join InnerJoin) sample_left)"
    by (rule store_left_inv [OF NewJoinOperator_inv [OF sample_join_eq(1)]]) (simp add: sample_join_eq)
  from store_right_inv [OF this, of 0 sample_right] show ?thesis by (simp add: both_stored_def sample_join_eq)
qed


text \<open>The bound of two is reached: when both goroutines store their event before either of them
  probes, each finds the event of the other, and a single matching pair is emitted twice.\<close>

theorem dual_join_duplicates:
  "\<exists>s. reach (\<lambda>s. NewDualStreamJoin [sample_left] [sample_right] (Some (WithJoinType InnerJoin DefaultJoinConfig)) = Inr s)
         (dual_step show_int key_order) s \<and> drained s \<and>
       mset (dj_output s) = {#joined_pair show_int sample_left sample_right, joined_pair show_int sample_left sample_right#}"
proof -
  let ?init = "\<lambda>s. NewDualStreamJoin [sample_left] [sample_right] (Some (WithJoinType InnerJoin DefaultJoinConfig)) = Inr s"
  let ?step = "dual_step show_int key_order"
  let ?row = "joined_pair show_int sample_left sample_right"
  note inv = both_stored_inv
  obtain rs1 jo1 where r1: "join_left show_int (key_order (rightState (jo_state both_stored))) both_stored sample_left = (rs1, jo1)"
    by (rule prod.exhaust)
  have s1: "mset rs1 = {#?row#}" and inv1: "run_inv (sample_join InnerJoin) [LeftIn 0 sample_left, RightIn 0 sample_right] jo1"
    using join_left_spec [OF r1] right_candidates_inv [OF inv run_inv_orders(1) [OF orders_key_order inv], of sample_left]
      run_inv_matches [OF inv] inv run_inv_same [OF inv]
    by (auto simp: run_inv_def [of _ _ both_stored] sample_join_eq rights_of_def pair_matches_def)
  obtain rs2 jo2 where r2: "join_right show_int (key_order (leftState (jo_state jo1))) jo1 sample_right = (rs2, jo2)"
    by (rule prod.exhaust)
  have s2: "mset rs2 = {#?row#}"
    using join_right_spec [OF r2] left_candidates_inv [OF inv1 run_inv_orders(2) [OF orders_key_order inv1], of sample_right]
      run_inv_matches [OF inv1] inv1
    by (auto simp: run_inv_def [of _ _ jo1] sample_join_eq lefts_of_def pair_matches_def)
  define a where "a = start\<lparr>leftInput := [], left_pending := Some sample_left, joinOp := store_left 0 (joinOp start) sample_left\<rparr>"
  define b where "b = a\<lparr>rightInput := [], right_pending := Some sample_right, joinOp := store_right 0 (joinOp a) sample_right\<rparr>"
  define c where "c = b\<lparr>left_pending := None, joinOp := jo1, dj_output := dj_output b @ rs1\<rparr>"
  define d where "d = c\<lparr>right_pending := None, joinOp := jo2, dj_output := dj_output c @ rs2\<rparr>"
  have "?step start a" unfolding a_def by (rule dual_step.left_store) (simp_all add: start_def)
  moreover have "?step a b" unfolding b_def by (rule dual_step.right_store) (simp_all add: a_def start_def)
  moreover have "?step b c" unfolding c_def
    by (rule dual_step.left_probe [where e = sample_left]) (use r1 in \<open>simp_all add: b_def a_def start_def both_stored_def\<close>)
  moreover have "?step c d" unfolding d_def
    by (rule dual_step.right_probe [where e = sample_right]) (use r2 in \<open>simp_all add: c_def b_def a_def start_def\<close>)
  moreover have "reach ?init ?step start" by (rule reach.start) (rule start_new)
  ultimately have "reach ?init ?step d" by (blast intro: reach.next_step)
  moreover have "drained d" "mset (dj_output d) = {#?row, ?row#}"
    using s1 s2 by (simp_all add: drained_def d_def c_def b_def a_def start_def)
  ultimately show ?thesis by blast
qed

end
