(* ===== verification/Interval_Join.thy ===== *)
theory Interval_Join
  imports Join_Operator
begin

text \<open>
  The interval join, \<open>pkg/join/interval_join.go\<close>: it embeds a \<open>JoinOperator\<close> and replaces the processing
  of both inputs by one that compares a right event with the interval
  \<open>[left.time + lowerBound, left.time + upperBound]\<close>; the time window of the embedded operator is not used.
\<close>

section \<open>The operator\<close>

record 'v IntervalJoinOperator =
  ij_op :: "'v JoinOperator"
  lowerBound :: duration
  upperBound :: duration

definition NewIntervalJoinOperator :: "'v JoinConfig option \<Rightarrow> duration \<Rightarrow> duration \<Rightarrow> jo_error + 'v IntervalJoinOperator" where
  "NewIntervalJoinOperator config lower upper =
     (let c = (with_default_condition config)\<lparr>LowerBound := lower, UpperBound := upper\<rparr>
      in map_sum id (\<lambda>jo. \<lparr>ij_op = jo, lowerBound = lower, upperBound = upper\<rparr>) (NewJoinOperator (Some c)))"

definition isWithinInterval :: "'v event \<Rightarrow> 'v event \<Rightarrow> gtime \<Rightarrow> gtime \<Rightarrow> bool" where
  "isWithinInterval left right minTime maxTime =
     (let rightTime = EventTime right
      in (time_After rightTime minTime \<or> time_Equal rightTime minTime) \<and>
         (time_Before rightTime maxTime \<or> time_Equal rightTime maxTime))"

definition isLeftEventValid :: "'v event \<Rightarrow> 'v event \<Rightarrow> gtime \<Rightarrow> gtime \<Rightarrow> bool" where
  "isLeftEventValid left right minLeftTime maxLeftTime =
     (let leftTime = EventTime left
      in (time_After leftTime minLeftTime \<or> time_Equal leftTime minLeftTime) \<and>
         (time_Before leftTime maxLeftTime \<or> time_Equal leftTime maxLeftTime))"

text \<open>The loop over the candidates, with its test as an argument.\<close>

fun ij_probe :: "('v StoredEvent \<Rightarrow> bool) \<Rightarrow> ('v StoredEvent \<Rightarrow> 'v joined) \<Rightarrow> 'v StoredEvent list \<Rightarrow> 'v probe \<Rightarrow> 'v probe" where
  "ij_probe test row [] s = s"
| "ij_probe test row (stored # rest) (matchFound, results, js) =
     (if test stored
      then ij_probe test row rest (True, results @ [row stored], IncrementMatchCount (se_addr stored) js)
      else ij_probe test row rest (matchFound, results, js))"

definition ij_ProcessLeft ::
  "(gtime \<Rightarrow> string) \<Rightarrow> gtime \<Rightarrow> 'v IntervalJoinOperator \<Rightarrow> 'v event \<Rightarrow> 'v joined list \<times> 'v IntervalJoinOperator" where
  "ij_ProcessLeft fmt now ij event =
     (let minTime = time_Add (EventTime event) (lowerBound ij);
          maxTime = time_Add (EventTime event) (upperBound ij);
          expiresAt = time_Add maxTime (AllowedLateness (jo_config (ij_op ij)));
          js = AddLeftEvent now event expiresAt (jo_state (ij_op ij));
          rightEvents = GetRightEvents (Key event) js;
          (matchFound, results, js') =
            ij_probe (\<lambda>rightStored. isWithinInterval event (se_Event rightStored) minTime maxTime \<and>
                        jo_condition (ij_op ij) event (se_Event rightStored))
              (\<lambda>rightStored. ToEvent fmt (createJoinResult (Some event) (Some (se_Event rightStored))))
              rightEvents (False, [], js)
      in (results, ij\<lparr>ij_op := (ij_op ij)\<lparr>jo_state := js'\<rparr>\<rparr>))"

definition ij_ProcessRight ::
  "(gtime \<Rightarrow> string) \<Rightarrow> gtime \<Rightarrow> 'v IntervalJoinOperator \<Rightarrow> 'v event \<Rightarrow> 'v joined list \<times> 'v IntervalJoinOperator" where
  "ij_ProcessRight fmt now ij event =
     (let minLeftTime = time_Add (EventTime event) (dur_neg (upperBound ij));
          maxLeftTime = time_Add (EventTime event) (dur_neg (lowerBound ij));
          expiresAt = time_Add (EventTime event) (StateRetention (jo_config (ij_op ij)));
          js = AddRightEvent now event expiresAt (jo_state (ij_op ij));
          leftEvents = GetLeftEvents (Key event) js;
          (matchFound, results, js') =
            ij_probe (\<lambda>leftStored. isLeftEventValid (se_Event leftStored) event minLeftTime maxLeftTime \<and>
                        jo_condition (ij_op ij) (se_Event leftStored) event)
              (\<lambda>leftStored. ToEvent fmt (createJoinResult (Some (se_Event leftStored)) (Some event)))
              leftEvents (False, [], js);
          results' = (if \<not> matchFound \<and>
                         (JType (jo_config (ij_op ij)) = RightOuterJoin \<or> JType (jo_config (ij_op ij)) = FullOuterJoin)
                      then results @ [ToEvent fmt (createJoinResult None (Some event))] else results)
      in (results', ij\<lparr>ij_op := (ij_op ij)\<lparr>jo_state := js'\<rparr>\<rparr>))"

definition ij_Process :: "'v IntervalJoinOperator \<Rightarrow> 'v event \<Rightarrow> jo_error + 'v joined list" where
  "ij_Process ij event = Inl RequiresExplicitSide"

definition GetIntervalBounds :: "'v IntervalJoinOperator \<Rightarrow> duration \<times> duration" where
  "GetIntervalBounds ij = (lowerBound ij, upperBound ij)"

record 'v IntervalJoinBuilder =
  ib_config :: "'v JoinConfig"
  ib_lowerBound :: duration
  ib_upperBound :: duration

definition NewIntervalJoin :: "'v IntervalJoinBuilder" where
  "NewIntervalJoin = \<lparr>ib_config = DefaultJoinConfig, ib_lowerBound = -5 * minute, ib_upperBound = 5 * minute\<rparr>"

definition Between :: "duration \<Rightarrow> duration \<Rightarrow> 'v IntervalJoinBuilder \<Rightarrow> 'v IntervalJoinBuilder" where
  "Between lower upper b = b\<lparr>ib_lowerBound := lower, ib_upperBound := upper\<rparr>"

definition ib_WithJoinType :: "JoinType \<Rightarrow> 'v IntervalJoinBuilder \<Rightarrow> 'v IntervalJoinBuilder" where
  "ib_WithJoinType t b = b\<lparr>ib_config := (ib_config b)\<lparr>JType := t\<rparr>\<rparr>"

definition ib_WithCondition :: "'v JoinCondition \<Rightarrow> 'v IntervalJoinBuilder \<Rightarrow> 'v IntervalJoinBuilder" where
  "ib_WithCondition cond b = b\<lparr>ib_config := (ib_config b)\<lparr>Condition := Some cond\<rparr>\<rparr>"

definition ib_WithStateRetention :: "duration \<Rightarrow> 'v IntervalJoinBuilder \<Rightarrow> 'v IntervalJoinBuilder" where
  "ib_WithStateRetention retention b = b\<lparr>ib_config := (ib_config b)\<lparr>StateRetention := retention\<rparr>\<rparr>"

definition ib_Build :: "'v IntervalJoinBuilder \<Rightarrow> jo_error + 'v IntervalJoinOperator" where
  "ib_Build b = NewIntervalJoinOperator (Some (ib_config b)) (ib_lowerBound b) (ib_upperBound b)"

section \<open>The two interval tests\<close>

lemma within_interval:
  "isWithinInterval l r (time_Add (EventTime l) lo) (time_Add (EventTime l) hi) \<longleftrightarrow>
     lo \<le> EventTime r - EventTime l \<and> EventTime r - EventTime l \<le> hi"
  by (auto simp: isWithinInterval_def gotime Let_def)

lemma left_valid:
  assumes "min_duration < lo" "min_duration < hi"
  shows "isLeftEventValid l r (time_Add (EventTime r) (dur_neg hi)) (time_Add (EventTime r) (dur_neg lo)) \<longleftrightarrow>
     lo \<le> EventTime r - EventTime l \<and> EventTime r - EventTime l \<le> hi"
  using assms by (auto simp: isLeftEventValid_def gotime Let_def dur_neg_def)

section \<open>Sequences of inputs\<close>

definition interval_matches :: "'v IntervalJoinOperator \<Rightarrow> 'v event \<Rightarrow> 'v event \<Rightarrow> bool" where
  "interval_matches ij l r \<longleftrightarrow> Key l = Key r \<and> jo_condition (ij_op ij) l r \<and>
     lowerBound ij \<le> EventTime r - EventTime l \<and> EventTime r - EventTime l \<le> upperBound ij"

lemma ij_probe_eq:
  "ij_probe test row ss (found, res, js) =
     (found \<or> (\<exists>s \<in> set ss. test s), res @ map row (filter test ss),
      fold IncrementMatchCount (map se_addr (filter test ss)) js)"
  by (induction ss arbitrary: found res js) auto

fun ij_input :: "(gtime \<Rightarrow> string) \<Rightarrow> 'v input \<Rightarrow> 'v IntervalJoinOperator \<Rightarrow> 'v joined list \<times> 'v IntervalJoinOperator" where
  "ij_input fmt (LeftIn now e) ij = ij_ProcessLeft fmt now ij e"
| "ij_input fmt (RightIn now e) ij = ij_ProcessRight fmt now ij e"

definition ij_run :: "(gtime \<Rightarrow> string) \<Rightarrow> 'v IntervalJoinOperator \<Rightarrow> 'v input list \<Rightarrow> 'v joined list \<times> 'v IntervalJoinOperator" where
  "ij_run fmt ij ins = foldl (\<lambda>(out, ij) i. let (rs, ij') = ij_input fmt i ij in (out @ rs, ij')) ([], ij) ins"

lemma ij_run_snoc:
  "ij_run fmt ij (ins @ [i]) =
     (let (out, ij1) = ij_run fmt ij ins; (rs, ij2) = ij_input fmt i ij1 in (out @ rs, ij2))"
  by (simp add: ij_run_def split: prod.splits)

definition ij_inv :: "'v IntervalJoinOperator \<Rightarrow> 'v input list \<Rightarrow> 'v IntervalJoinOperator \<Rightarrow> bool" where
  "ij_inv ij0 ins ij \<longleftrightarrow> run_inv (ij_op ij0) ins (ij_op ij) \<and> lowerBound ij = lowerBound ij0 \<and> upperBound ij = upperBound ij0"

definition ij_null :: "(gtime \<Rightarrow> string) \<Rightarrow> 'v IntervalJoinOperator \<Rightarrow> 'v input list \<Rightarrow> 'v input \<Rightarrow> 'v joined multiset" where
  "ij_null fmt ij ins i = (case i of
     LeftIn now e \<Rightarrow> {#}
   | RightIn now e \<Rightarrow>
       if filter (\<lambda>l. interval_matches ij l e) (lefts_of ins) = [] \<and>
          JType (jo_config (ij_op ij)) \<in> {RightOuterJoin, FullOuterJoin}
       then {#ToEvent fmt (createJoinResult None (Some e))#} else {#})"

lemma map_filter_event: "map (\<lambda>s. g (se_Event s)) (filter (\<lambda>s. P (se_Event s)) ss) = map g (filter P (map se_Event ss))"
  by (induction ss) auto

lemma ij_left_rows:
  assumes inv: "ij_inv ij0 ins ij"
    and room: "MaxStateSize (jo_config (ij_op ij0)) \<le> 0 \<or> int (length ins) < MaxStateSize (jo_config (ij_op ij0))"
    and run: "ij_ProcessLeft fmt now ij e = (rs, ij')"
  shows "ij_inv ij0 (ins @ [LeftIn now e]) ij' \<and> rs = map (joined_pair fmt e) (filter (interval_matches ij0 e) (rights_of ins))"
proof -
  define jo1 where "jo1 = (ij_op ij)\<lparr>jo_state := AddLeftEvent now e (time_Add (time_Add (EventTime e) (upperBound ij))
    (AllowedLateness (jo_config (ij_op ij)))) (jo_state (ij_op ij))\<rparr>"
  define P where "P r \<longleftrightarrow> isWithinInterval e r (time_Add (EventTime e) (lowerBound ij)) (time_Add (EventTime e) (upperBound ij)) \<and>
      jo_condition (ij_op ij) e r" for r
  have inv1: "run_inv (ij_op ij0) (ins @ [LeftIn now e]) jo1"
    unfolding jo1_def by (rule add_left_inv [OF _ room]) (use inv in \<open>simp add: ij_inv_def\<close>)
  have ev: "map se_Event (GetRightEvents (Key e) (jo_state jo1)) = filter (\<lambda>r. Key r = Key e) (rights_of ins)"
    using inv1 by (simp add: run_inv_def right_events_def fun_eq_iff)
  have same: "lowerBound ij = lowerBound ij0" "upperBound ij = upperBound ij0" "jo_condition (ij_op ij) = jo_condition (ij_op ij0)"
    using inv by (auto simp: ij_inv_def run_inv_def)
  define js where "js = fold IncrementMatchCount
    (map se_addr (filter (\<lambda>s. P (se_Event s)) (GetRightEvents (Key e) (jo_state jo1)))) (jo_state jo1)"
  have "rs = map (joined_pair fmt e) (filter P (map se_Event (GetRightEvents (Key e) (jo_state jo1))))"
    and ij': "ij' = ij\<lparr>ij_op := jo1\<lparr>jo_state := js\<rparr>\<rparr>"
    using run by (simp_all add: ij_ProcessLeft_def ij_probe_eq Let_def P_def jo1_def js_def joined_pair_def map_filter_event [symmetric])
  moreover have "filter P (filter (\<lambda>r. Key r = Key e) (rights_of ins)) = filter (interval_matches ij0 e) (rights_of ins)"
    unfolding filter_filter
    by (rule filter_cong) (auto simp: P_def interval_matches_def within_interval same)
  moreover have "run_inv (ij_op ij0) (ins @ [LeftIn now e]) (jo1\<lparr>jo_state := js\<rparr>)"
    unfolding js_def by (rule run_inv_same [OF inv1 same_events_fold])
  ultimately show ?thesis using same by (simp add: ij_inv_def ev)
qed

lemma ij_right_rows:
  assumes inv: "ij_inv ij0 ins ij"
    and room: "MaxStateSize (jo_config (ij_op ij0)) \<le> 0 \<or> int (length ins) < MaxStateSize (jo_config (ij_op ij0))"
    and bounds: "min_duration < lowerBound ij0" "min_duration < upperBound ij0"
    and run: "ij_ProcessRight fmt now ij e = (rs, ij')"
  shows "ij_inv ij0 (ins @ [RightIn now e]) ij' \<and>
    mset rs = image_mset (\<lambda>l. joined_pair fmt l e) (filter_mset (\<lambda>l. interval_matches ij0 l e) (mset (lefts_of ins))) +
      ij_null fmt ij0 ins (RightIn now e)"
proof -
  define jo1 where "jo1 = (ij_op ij)\<lparr>jo_state := AddRightEvent now e (time_Add (EventTime e)
    (StateRetention (jo_config (ij_op ij)))) (jo_state (ij_op ij))\<rparr>"
  define P where "P l \<longleftrightarrow> isLeftEventValid l e (time_Add (EventTime e) (dur_neg (upperBound ij)))
      (time_Add (EventTime e) (dur_neg (lowerBound ij))) \<and> jo_condition (ij_op ij) l e" for l
  define ls where "ls = GetLeftEvents (Key e) (jo_state jo1)"
  have inv1: "run_inv (ij_op ij0) (ins @ [RightIn now e]) jo1"
    unfolding jo1_def by (rule add_right_inv [OF _ room]) (use inv in \<open>simp add: ij_inv_def\<close>)
  have ev: "map se_Event ls = filter (\<lambda>l. Key l = Key e) (lefts_of ins)"
    using inv1 by (simp add: run_inv_def left_events_def fun_eq_iff ls_def)
  have same: "lowerBound ij = lowerBound ij0" "upperBound ij = upperBound ij0" "jo_condition (ij_op ij) = jo_condition (ij_op ij0)"
    "jo_config (ij_op ij) = jo_config (ij_op ij0)"
    using inv by (auto simp: ij_inv_def run_inv_def)
  define js where "js = fold IncrementMatchCount (map se_addr (filter (\<lambda>s. P (se_Event s)) ls)) (jo_state jo1)"
  define ms where "ms = filter P (map se_Event ls)"
  have found: "(\<exists>s \<in> set ls. P (se_Event s)) \<longleftrightarrow> ms \<noteq> []" by (auto simp: ms_def filter_empty_conv)
  have ms: "ms = filter (\<lambda>l. interval_matches ij0 l e) (lefts_of ins)"
    unfolding ms_def ev filter_filter
    by (rule filter_cong) (auto simp: P_def interval_matches_def left_valid [OF bounds] same)
  have "ij_probe (\<lambda>s. P (se_Event s)) (\<lambda>s. joined_pair fmt (se_Event s) e) ls (False, [], jo_state jo1) =
      (ms \<noteq> [], map (\<lambda>l. joined_pair fmt l e) ms, js)"
    by (simp add: ij_probe_eq found js_def ms_def map_filter_event [where g = "\<lambda>l. joined_pair fmt l e"])
  then have rs: "rs = map (\<lambda>l. joined_pair fmt l e) ms @ (if ms = [] \<and> JType (jo_config (ij_op ij0)) \<in> {RightOuterJoin, FullOuterJoin}
      then [ToEvent fmt (createJoinResult None (Some e))] else [])"
    and ij': "ij' = ij\<lparr>ij_op := jo1\<lparr>jo_state := js\<rparr>\<rparr>"
    using run by (auto simp: ij_ProcessRight_def Let_def P_def jo1_def ls_def joined_pair_def same split: if_splits)
  have "run_inv (ij_op ij0) (ins @ [RightIn now e]) (jo1\<lparr>jo_state := js\<rparr>)"
    unfolding js_def by (rule run_inv_same [OF inv1 same_events_fold])
  then show ?thesis using same rs by (simp add: ij_inv_def ij' ij_null_def ms [symmetric] flip: mset_filter)
qed

lemma NewIntervalJoinOperator_inv:
  "NewIntervalJoinOperator config lower upper = Inr ij0 \<Longrightarrow>
     ij_inv ij0 [] ij0 \<and> lowerBound ij0 = lower \<and> upperBound ij0 = upper"
  by (cases "NewJoinOperator (Some ((with_default_condition config)\<lparr>LowerBound := lower, UpperBound := upper\<rparr>))")
    (auto simp: NewIntervalJoinOperator_def ij_inv_def Let_def intro: NewJoinOperator_inv)

lemma ij_run_rows:
  assumes "NewIntervalJoinOperator config lower upper = Inr ij0" "min_duration < lower" "min_duration < upper"
    and "ij_run fmt ij0 ins = (out, ij)"
    and "MaxStateSize (jo_config (ij_op ij0)) \<le> 0 \<or> int (length ins) \<le> MaxStateSize (jo_config (ij_op ij0))"
  shows "ij_inv ij0 ins ij \<and> (JType (jo_config (ij_op ij0)) \<in> {InnerJoin, LeftOuterJoin} \<longrightarrow>
    mset out = matching_rows fmt (interval_matches ij0) (lefts_of ins) (rights_of ins))"
  using assms(4,5)
proof (induction ins arbitrary: out ij rule: rev_induct)
  case Nil
  then show ?case using NewIntervalJoinOperator_inv [OF assms(1)] by (simp add: ij_run_def)
next
  case (snoc i ins)
  note bounds = NewIntervalJoinOperator_inv [OF assms(1)] assms(2,3)
  obtain out1 ij1 rs where run: "ij_run fmt ij0 ins = (out1, ij1)" "ij_input fmt i ij1 = (rs, ij)" "out = out1 @ rs"
    using snoc.prems(1) by (auto simp: ij_run_snoc split: prod.splits)
  have room: "MaxStateSize (jo_config (ij_op ij0)) \<le> 0 \<or> int (length ins) < MaxStateSize (jo_config (ij_op ij0))"
    using snoc.prems(2) by auto
  have IH: "ij_inv ij0 ins ij1" "JType (jo_config (ij_op ij0)) \<in> {InnerJoin, LeftOuterJoin} \<longrightarrow>
      mset out1 = matching_rows fmt (interval_matches ij0) (lefts_of ins) (rights_of ins)"
    using snoc.IH [OF run(1)] snoc.prems(2) by auto
  show ?case
  proof (cases i)
    case (LeftIn now e)
    from ij_left_rows [OF IH(1) room, of fmt now e rs ij] run LeftIn IH(2) show ?thesis by (auto simp: matching_rows_left)
  next
    case (RightIn now e)
    have "ij_null fmt ij0 ins (RightIn now e) = {#}" if "JType (jo_config (ij_op ij0)) \<in> {InnerJoin, LeftOuterJoin}"
      using that by (auto simp: ij_null_def)
    with ij_right_rows [OF IH(1) room, of fmt now e rs ij] bounds run RightIn IH(2) show ?thesis
      by (auto simp: matching_rows_right)
  qed
qed


definition sample_interval :: "int IntervalJoinOperator" where
  "sample_interval = (case ib_Build (Between 0 (60 * second) (ib_WithJoinType LeftOuterJoin NewIntervalJoin)) of Inr ij \<Rightarrow> ij)"

lemma sample_interval_eq:
  "NewIntervalJoinOperator (Some (WithJoinType LeftOuterJoin DefaultJoinConfig)) 0 (60 * second) = Inr sample_interval"
  "JType (jo_config (ij_op sample_interval)) = LeftOuterJoin" "MaxStateSize (jo_config (ij_op sample_interval)) = 10000"
  "jo_condition (ij_op sample_interval) = EqualityCondition"
  by (simp_all add: sample_interval_def ib_Build_def Between_def ib_WithJoinType_def NewIntervalJoin_def
      NewIntervalJoinOperator_def NewJoinOperator_def with_default_condition_def WithJoinType_def DefaultJoinConfig_def
      jo_startCleanup_def Let_def gotime)


end
