(* ===== verification/Window_Join.thy ===== *)
theory Window_Join
  imports Windows Join_Operator
begin

text \<open>
  The window join, \<open>pkg/join/window_join.go\<close>. A window collects the events of both streams and their
  matches and is evaluated when the watermark reaches its end. Since \<open>fireWindow\<close> recognises matched
  events by their address (it uses maps with keys of type \<open>*stream.Event\<close>), events are addresses here, and
  \<open>h\<close> maps an address to the event stored there. \<open>windowState\<close> is \<open>None\<close> after \<open>Close\<close> has set it to nil;
  a write to it then panics.
\<close>

section \<open>The operator\<close>

record WindowMatch =
  m_Left :: nat
  m_Right :: nat
  m_EventTime :: gtime
  m_JoinKey :: string

record WindowJoinState =
  wjs_Window :: window
  LeftEvents :: "nat list"
  RightEvents :: "nat list"
  Matches :: "WindowMatch list"
  Fired :: bool

record 'v WindowJoinOperator =
  wj_config :: "'v JoinConfig"
  wj_assigner :: Assigner
  windowState :: "(string \<rightharpoonup> WindowJoinState) option"
  wj_condition :: "'v JoinCondition"

datatype wj_error = WriteToNilMap | WindowJoinRequiresSide

definition NewWindowJoinOperator :: "'v JoinConfig option \<Rightarrow> Assigner \<Rightarrow> 'v WindowJoinOperator" where
  "NewWindowJoinOperator config assigner =
     (let c = with_default_condition config
      in \<lparr>wj_config = c, wj_assigner = assigner, windowState = Some Map.empty, wj_condition = the (Condition c)\<rparr>)"

definition getWindowKey :: "string \<Rightarrow> window \<Rightarrow> string" where
  "getWindowKey eventKey win =
     eventKey @ ''-'' @ show_int (time_Unix (Start win)) @ ''-'' @ show_int (time_Unix (End win))"

definition matchInWindow :: "(nat \<Rightarrow> 'v event) \<Rightarrow> 'v JoinCondition \<Rightarrow> WindowJoinState \<Rightarrow> nat \<Rightarrow> Side \<Rightarrow> WindowJoinState" where
  "matchInWindow h condition state event side =
     (if side = LeftSide
      then foldl (\<lambda>st rightEvent.
             if condition (h event) (h rightEvent)
             then st\<lparr>Matches := Matches st @ [\<lparr>m_Left = event, m_Right = rightEvent,
                       m_EventTime = End (wjs_Window st), m_JoinKey = Key (h event)\<rparr>]\<rparr>
             else st) state (RightEvents state)
      else foldl (\<lambda>st leftEvent.
             if condition (h leftEvent) (h event)
             then st\<lparr>Matches := Matches st @ [\<lparr>m_Left = leftEvent, m_Right = event,
                       m_EventTime = End (wjs_Window st), m_JoinKey = Key (h event)\<rparr>]\<rparr>
             else st) state (LeftEvents state))"

definition new_join_window :: "window \<Rightarrow> WindowJoinState" where
  "new_join_window win = \<lparr>wjs_Window = win, LeftEvents = [], RightEvents = [], Matches = [], Fired = False\<rparr>"

text \<open>The loop bodies of \<open>ProcessLeft\<close> and \<open>ProcessRight\<close> on the map of the windows.\<close>

definition add_left_window ::
  "(nat \<Rightarrow> 'v event) \<Rightarrow> 'v JoinCondition \<Rightarrow> nat \<Rightarrow> window \<Rightarrow> (string \<rightharpoonup> WindowJoinState) \<Rightarrow> (string \<rightharpoonup> WindowJoinState)" where
  "add_left_window h condition event win m =
     (let key = getWindowKey (Key (h event)) win;
          state = (case m key of None \<Rightarrow> new_join_window win | Some st \<Rightarrow> st);
          state1 = state\<lparr>LeftEvents := LeftEvents state @ [event]\<rparr>
      in m(key \<mapsto> matchInWindow h condition state1 event LeftSide))"

definition add_right_window ::
  "(nat \<Rightarrow> 'v event) \<Rightarrow> 'v JoinCondition \<Rightarrow> nat \<Rightarrow> window \<Rightarrow> (string \<rightharpoonup> WindowJoinState) \<Rightarrow> (string \<rightharpoonup> WindowJoinState)" where
  "add_right_window h condition event win m =
     (let key = getWindowKey (Key (h event)) win;
          state = (case m key of None \<Rightarrow> new_join_window win | Some st \<Rightarrow> st);
          state1 = state\<lparr>RightEvents := RightEvents state @ [event]\<rparr>
      in m(key \<mapsto> matchInWindow h condition state1 event RightSide))"

definition wj_ProcessLeft ::
  "gtime \<Rightarrow> (nat \<Rightarrow> 'v event) \<Rightarrow> 'v WindowJoinOperator \<Rightarrow> nat \<Rightarrow> wj_error + 'v WindowJoinOperator" where
  "wj_ProcessLeft now h wj event =
     (let windows = AssignWindows now (wj_assigner wj) (h event)
      in case windowState wj of
           None \<Rightarrow> if windows = [] then Inr wj else Inl WriteToNilMap
         | Some m \<Rightarrow> Inr (wj\<lparr>windowState := Some (fold (add_left_window h (wj_condition wj) event) windows m)\<rparr>))"

definition wj_ProcessRight ::
  "gtime \<Rightarrow> (nat \<Rightarrow> 'v event) \<Rightarrow> 'v WindowJoinOperator \<Rightarrow> nat \<Rightarrow> wj_error + 'v WindowJoinOperator" where
  "wj_ProcessRight now h wj event =
     (let windows = AssignWindows now (wj_assigner wj) (h event)
      in case windowState wj of
           None \<Rightarrow> if windows = [] then Inr wj else Inl WriteToNilMap
         | Some m \<Rightarrow> Inr (wj\<lparr>windowState := Some (fold (add_right_window h (wj_condition wj) event) windows m)\<rparr>))"

definition match_event :: "(gtime \<Rightarrow> string) \<Rightarrow> (nat \<Rightarrow> 'v event) \<Rightarrow> WindowMatch \<Rightarrow> 'v joined" where
  "match_event fmt h m =
     ToEvent fmt \<lparr>jr_Left = Some (h (m_Left m)), jr_Right = Some (h (m_Right m)),
                   jr_EventTime = m_EventTime m, JoinKey = m_JoinKey m\<rparr>"

definition unmatched_left :: "(gtime \<Rightarrow> string) \<Rightarrow> (nat \<Rightarrow> 'v event) \<Rightarrow> WindowJoinState \<Rightarrow> 'v joined list" where
  "unmatched_left fmt h state =
     (let matched = set (map m_Left (Matches state))
      in map (\<lambda>p. ToEvent fmt \<lparr>jr_Left = Some (h p), jr_Right = None,
                     jr_EventTime = End (wjs_Window state), JoinKey = Key (h p)\<rparr>)
           (filter (\<lambda>p. p \<notin> matched) (LeftEvents state)))"

definition unmatched_right :: "(gtime \<Rightarrow> string) \<Rightarrow> (nat \<Rightarrow> 'v event) \<Rightarrow> WindowJoinState \<Rightarrow> 'v joined list" where
  "unmatched_right fmt h state =
     (let matched = set (map m_Right (Matches state))
      in map (\<lambda>p. ToEvent fmt \<lparr>jr_Left = None, jr_Right = Some (h p),
                     jr_EventTime = End (wjs_Window state), JoinKey = Key (h p)\<rparr>)
           (filter (\<lambda>p. p \<notin> matched) (RightEvents state)))"

definition wj_fireWindow :: "(gtime \<Rightarrow> string) \<Rightarrow> (nat \<Rightarrow> 'v event) \<Rightarrow> JoinType \<Rightarrow> WindowJoinState \<Rightarrow> 'v joined list" where
  "wj_fireWindow fmt h t state =
     (case t of
        InnerJoin \<Rightarrow> map (match_event fmt h) (Matches state)
      | LeftOuterJoin \<Rightarrow> map (match_event fmt h) (Matches state) @ unmatched_left fmt h state
      | RightOuterJoin \<Rightarrow> map (match_event fmt h) (Matches state) @ unmatched_right fmt h state
      | FullOuterJoin \<Rightarrow> map (match_event fmt h) (Matches state) @ unmatched_left fmt h state @ unmatched_right fmt h state)"

text \<open>One iteration of the loop in \<open>OnWatermark\<close>.\<close>

definition fire_key ::
  "(gtime \<Rightarrow> string) \<Rightarrow> (nat \<Rightarrow> 'v event) \<Rightarrow> JoinType \<Rightarrow> gtime \<Rightarrow> string
     \<Rightarrow> 'v joined list \<times> (string \<rightharpoonup> WindowJoinState) \<Rightarrow> 'v joined list \<times> (string \<rightharpoonup> WindowJoinState)" where
  "fire_key fmt h t wm key s =
     (let (results, m) = s in
      case m key of
        None \<Rightarrow> s
      | Some state \<Rightarrow>
          if \<not> Fired state \<and> (time_After wm (End (wjs_Window state)) \<or> time_Equal wm (End (wjs_Window state)))
          then (results @ wj_fireWindow fmt h t state, m(key := None))
          else s)"

definition wj_OnWatermark ::
  "(gtime \<Rightarrow> string) \<Rightarrow> (nat \<Rightarrow> 'v event) \<Rightarrow> string list \<Rightarrow> gtime \<Rightarrow> 'v WindowJoinOperator
     \<Rightarrow> 'v joined list \<times> 'v WindowJoinOperator" where
  "wj_OnWatermark fmt h ks wm wj =
     (case windowState wj of
        None \<Rightarrow> ([], wj)
      | Some m \<Rightarrow>
          (let (results, m') = fold (fire_key fmt h (JType (wj_config wj)) wm) ks ([], m)
           in (results, wj\<lparr>windowState := Some m'\<rparr>)))"

definition wj_Process :: "'v WindowJoinOperator \<Rightarrow> 'v event \<Rightarrow> wj_error + 'v joined list" where
  "wj_Process wj event = Inl WindowJoinRequiresSide"

definition wj_Close :: "'v WindowJoinOperator \<Rightarrow> 'v WindowJoinOperator" where
  "wj_Close wj = wj\<lparr>windowState := None\<rparr>"

record WindowJoinMetrics =
  ActiveWindows :: nat
  TotalLeftEvents :: nat
  TotalRightEvents :: nat
  TotalMatches :: nat

definition wj_GetMetrics :: "string list \<Rightarrow> 'v WindowJoinOperator \<Rightarrow> WindowJoinMetrics" where
  "wj_GetMetrics ks wj =
     (let m = (case windowState wj of None \<Rightarrow> Map.empty | Some m \<Rightarrow> m);
          states = List.map_filter m ks
      in \<lparr>ActiveWindows = length states,
          TotalLeftEvents = sum_list (map (length \<circ> LeftEvents) states),
          TotalRightEvents = sum_list (map (length \<circ> RightEvents) states),
          TotalMatches = sum_list (map (length \<circ> Matches) states)\<rparr>)"

section \<open>The windows' contents\<close>

text \<open>The matches of a window are exactly its matching pairs, each once, with the window's end as time and the
  common key; all its events have the event key the window key was made from.\<close>

definition epoch :: "window \<Rightarrow> bool" where
  "epoch w \<longleftrightarrow> 0 \<le> time_Unix (Start w) \<and> 0 \<le> time_Unix (End w)"

definition wjs_ok :: "(nat \<Rightarrow> 'v event) \<Rightarrow> 'v JoinCondition \<Rightarrow> string \<Rightarrow> WindowJoinState \<Rightarrow> bool" where
  "wjs_ok h cond k st \<longleftrightarrow> \<not> Fired st \<and>
     (\<exists>e w. k = getWindowKey e w \<and> epoch w \<and> (\<forall>p \<in> set (LeftEvents st) \<union> set (RightEvents st). Key (h p) = e)) \<and>
     mset (Matches st) = image_mset (\<lambda>(p, q). \<lparr>m_Left = p, m_Right = q, m_EventTime = End (wjs_Window st), m_JoinKey = Key (h p)\<rparr>)
       (filter_mset (\<lambda>(p, q). cond (h p) (h q)) (mset (List.product (LeftEvents st) (RightEvents st))))"

definition wj_inv :: "(nat \<Rightarrow> 'v event) \<Rightarrow> 'v WindowJoinOperator \<Rightarrow> bool" where
  "wj_inv h wj \<longleftrightarrow> (\<forall>m k st. windowState wj = Some m \<longrightarrow> m k = Some st \<longrightarrow> wjs_ok h (wj_condition wj) k st)"

lemma matchInWindow_left:
  "matchInWindow h cond st p LeftSide = st\<lparr>Matches := Matches st @
     map (\<lambda>q. \<lparr>m_Left = p, m_Right = q, m_EventTime = End (wjs_Window st), m_JoinKey = Key (h p)\<rparr>)
       (filter (\<lambda>q. cond (h p) (h q)) (RightEvents st))\<rparr>"
proof -
  have "foldl (\<lambda>st q. if cond (h p) (h q) then st\<lparr>Matches := Matches st @ [\<lparr>m_Left = p, m_Right = q,
      m_EventTime = End (wjs_Window st), m_JoinKey = Key (h p)\<rparr>]\<rparr> else st) st qs =
    st\<lparr>Matches := Matches st @ map (\<lambda>q. \<lparr>m_Left = p, m_Right = q, m_EventTime = End (wjs_Window st), m_JoinKey = Key (h p)\<rparr>)
       (filter (\<lambda>q. cond (h p) (h q)) qs)\<rparr>" for qs
    by (induction qs arbitrary: st) simp_all
  then show ?thesis by (simp add: matchInWindow_def)
qed

lemma matchInWindow_right:
  "matchInWindow h cond st q RightSide = st\<lparr>Matches := Matches st @
     map (\<lambda>p. \<lparr>m_Left = p, m_Right = q, m_EventTime = End (wjs_Window st), m_JoinKey = Key (h q)\<rparr>)
       (filter (\<lambda>p. cond (h p) (h q)) (LeftEvents st))\<rparr>"
proof -
  have "foldl (\<lambda>st p. if cond (h p) (h q) then st\<lparr>Matches := Matches st @ [\<lparr>m_Left = p, m_Right = q,
      m_EventTime = End (wjs_Window st), m_JoinKey = Key (h q)\<rparr>]\<rparr> else st) st ps =
    st\<lparr>Matches := Matches st @ map (\<lambda>p. \<lparr>m_Left = p, m_Right = q, m_EventTime = End (wjs_Window st), m_JoinKey = Key (h q)\<rparr>)
       (filter (\<lambda>p. cond (h p) (h q)) ps)\<rparr>" for ps
    by (induction ps arbitrary: st) simp_all
  then show ?thesis by (simp add: matchInWindow_def)
qed

lemma getWindowKey_inj: "epoch v \<Longrightarrow> epoch w \<Longrightarrow> getWindowKey j v = getWindowKey k w \<Longrightarrow> j = k"
  using windowKey_unix [of v w j k] by (simp add: epoch_def windowKey_def getWindowKey_def)

lemma add_left_window_ok:
  assumes "\<And>k st. m k = Some st \<Longrightarrow> wjs_ok h cond k st" "epoch w"
    and "add_left_window h cond p w m k = Some st"
  shows "wjs_ok h cond k st"
proof (cases "k = getWindowKey (Key (h p)) w")
  case False
  then show ?thesis using assms by (auto simp: add_left_window_def Let_def)
next
  case True
  define st0 where "st0 = (case m k of None \<Rightarrow> new_join_window w | Some st \<Rightarrow> st)"
  have st: "st = matchInWindow h cond (st0\<lparr>LeftEvents := LeftEvents st0 @ [p]\<rparr>) p LeftSide"
    using assms(3) True by (simp add: add_left_window_def st0_def Let_def)
  have ok0: "wjs_ok h cond k st0"
  proof (cases "m k")
    case None
    then show ?thesis using True assms(2) by (auto simp: st0_def wjs_ok_def new_join_window_def)
  qed (simp add: st0_def assms(1))
  have keys: "\<exists>e w. k = getWindowKey e w \<and> epoch w \<and> (\<forall>q \<in> insert p (set (LeftEvents st0) \<union> set (RightEvents st0)). Key (h q) = e)"
    using ok0 True assms(2) getWindowKey_inj unfolding wjs_ok_def by (metis insert_iff)
  show ?thesis
    using ok0 keys unfolding wjs_ok_def st matchInWindow_left
    by (auto simp: mset_product_left filter_mset_image_mset image_mset.compositionality o_def)
qed

lemma add_right_window_ok:
  assumes "\<And>k st. m k = Some st \<Longrightarrow> wjs_ok h cond k st" "epoch w"
    and "add_right_window h cond p w m k = Some st"
  shows "wjs_ok h cond k st"
proof (cases "k = getWindowKey (Key (h p)) w")
  case False
  then show ?thesis using assms by (auto simp: add_right_window_def Let_def)
next
  case True
  define st0 where "st0 = (case m k of None \<Rightarrow> new_join_window w | Some st \<Rightarrow> st)"
  have st: "st = matchInWindow h cond (st0\<lparr>RightEvents := RightEvents st0 @ [p]\<rparr>) p RightSide"
    using assms(3) True by (simp add: add_right_window_def st0_def Let_def)
  have ok0: "wjs_ok h cond k st0"
  proof (cases "m k")
    case None
    then show ?thesis using True assms(2) by (auto simp: st0_def wjs_ok_def new_join_window_def)
  qed (simp add: st0_def assms(1))
  have keys: "\<exists>e w. k = getWindowKey e w \<and> epoch w \<and> (\<forall>q \<in> insert p (set (LeftEvents st0) \<union> set (RightEvents st0)). Key (h q) = e)"
    using ok0 True assms(2) getWindowKey_inj unfolding wjs_ok_def by (metis insert_iff)
  then have same: "\<And>q. q \<in> set (LeftEvents st0) \<Longrightarrow> Key (h p) = Key (h q)" by auto
  have "image_mset (\<lambda>q. \<lparr>m_Left = q, m_Right = p, m_EventTime = End (wjs_Window st0), m_JoinKey = Key (h p)\<rparr>)
        {#q \<in># mset (LeftEvents st0). cond (h q) (h p)#} =
      image_mset (\<lambda>q. \<lparr>m_Left = q, m_Right = p, m_EventTime = End (wjs_Window st0), m_JoinKey = Key (h q)\<rparr>)
        {#q \<in># mset (LeftEvents st0). cond (h q) (h p)#}"
    by (rule image_mset_cong) (use same in auto)
  then show ?thesis
    using ok0 keys unfolding wjs_ok_def st matchInWindow_right
    by (auto simp: mset_product_right filter_mset_image_mset image_mset.compositionality o_def)
qed

lemma fold_windows_ok:
  assumes add: "\<And>m w k st. (\<And>k st. m k = Some st \<Longrightarrow> P k st) \<Longrightarrow> epoch w \<Longrightarrow> f w m k = Some st \<Longrightarrow> P k st"
    and "\<forall>w \<in> set ws. epoch w" "\<And>k st. m k = Some st \<Longrightarrow> P k st" "fold f ws m k = Some st"
  shows "P k st"
  using assms(2-4)
proof (induction ws arbitrary: m)
  case (Cons w ws)
  show ?case
    by (rule Cons.IH [of "f w m"]) (use Cons.prems in \<open>auto intro: add [of m w]\<close>)
qed auto

lemma wj_ProcessLeft_inv:
  assumes "wj_inv h wj" "\<forall>w \<in> set (AssignWindows now (wj_assigner wj) (h p)). epoch w" "wj_ProcessLeft now h wj p = Inr wj'"
  shows "wj_inv h wj'"
proof -
  have "wjs_ok h (wj_condition wj) k st"
    if "windowState wj = Some m" "fold (add_left_window h (wj_condition wj) p) (AssignWindows now (wj_assigner wj) (h p)) m k = Some st"
    for m k st
    by (rule fold_windows_ok [OF add_left_window_ok assms(2) _ that(2)]) (use assms(1) that(1) in \<open>auto simp: wj_inv_def\<close>)
  then show ?thesis using assms(1,3) by (auto simp: wj_ProcessLeft_def wj_inv_def Let_def split: option.splits if_splits)
qed

lemma wj_ProcessRight_inv:
  assumes "wj_inv h wj" "\<forall>w \<in> set (AssignWindows now (wj_assigner wj) (h p)). epoch w" "wj_ProcessRight now h wj p = Inr wj'"
  shows "wj_inv h wj'"
proof -
  have "wjs_ok h (wj_condition wj) k st"
    if "windowState wj = Some m" "fold (add_right_window h (wj_condition wj) p) (AssignWindows now (wj_assigner wj) (h p)) m k = Some st"
    for m k st
    by (rule fold_windows_ok [OF add_right_window_ok assms(2) _ that(2)]) (use assms(1) that(1) in \<open>auto simp: wj_inv_def\<close>)
  then show ?thesis using assms(1,3) by (auto simp: wj_ProcessRight_def wj_inv_def Let_def split: option.splits if_splits)
qed

section \<open>Watermarks\<close>

definition due :: "gtime \<Rightarrow> (string \<rightharpoonup> WindowJoinState) \<Rightarrow> string \<Rightarrow> bool" where
  "due wm m k = (case m k of None \<Rightarrow> False | Some st \<Rightarrow> \<not> Fired st \<and> End (wjs_Window st) \<le> wm)"

lemma fire_key_eq:
  "fire_key fmt h t wm k (res, m) =
     (if due wm m k then (res @ wj_fireWindow fmt h t (the (m k)), m(k := None)) else (res, m))"
  by (auto simp: fire_key_def due_def gotime Let_def split: option.splits)

lemma due_upd: "j \<noteq> k \<Longrightarrow> due wm (m(k := v)) j = due wm m j"
  by (simp add: due_def)

lemma fire_fold:
  "distinct ks \<Longrightarrow> fold (fire_key fmt h t wm) ks (res, m) =
     (res @ concat (map (\<lambda>k. wj_fireWindow fmt h t (the (m k))) (filter (due wm m) ks)),
      \<lambda>k. if k \<in> set ks \<and> due wm m k then None else m k)"
proof (induction ks arbitrary: res m)
  case (Cons k ks)
  show ?case
  proof (cases "due wm m k")
    case True
    have "due wm (m(k := None)) j = due wm m j" if "j \<in> set ks" for j
      using Cons.prems that by (intro due_upd) auto
    then have "filter (due wm (m(k := None))) ks = filter (due wm m) ks" by (intro filter_cong refl)
    moreover have "map (\<lambda>j. wj_fireWindow fmt h t (the ((m(k := None)) j))) (filter (due wm m) ks) =
        map (\<lambda>j. wj_fireWindow fmt h t (the (m j))) (filter (due wm m) ks)"
      using Cons.prems by (intro map_cong) auto
    moreover have "(if j \<in> set ks \<and> due wm (m(k := None)) j then None else (m(k := None)) j) =
        (if j \<in> set (k # ks) \<and> due wm m j then None else m j)" for j
      using True by (cases "j = k") (simp_all add: due_upd)
    ultimately show ?thesis using Cons True by (simp add: fire_key_eq del: fun_upd_apply map_eq_conv)
  next
    case False
    then show ?thesis using Cons by (auto simp: fire_key_eq fun_eq_iff)
  qed
qed auto

text \<open>The rows of a window by its contents alone.\<close>

definition window_row :: "(gtime \<Rightarrow> string) \<Rightarrow> (nat \<Rightarrow> 'v event) \<Rightarrow> WindowJoinState \<Rightarrow> nat option \<Rightarrow> nat option \<Rightarrow> 'v joined" where
  "window_row fmt h st p q =
     ToEvent fmt \<lparr>jr_Left = map_option h p, jr_Right = map_option h q, jr_EventTime = End (wjs_Window st),
       JoinKey = Key (h (case p of Some a \<Rightarrow> a | None \<Rightarrow> the q))\<rparr>"

definition window_rows ::
  "(gtime \<Rightarrow> string) \<Rightarrow> (nat \<Rightarrow> 'v event) \<Rightarrow> 'v JoinCondition \<Rightarrow> JoinType \<Rightarrow> WindowJoinState \<Rightarrow> 'v joined multiset" where
  "window_rows fmt h cond t st =
     (let L = LeftEvents st; R = RightEvents st in
      image_mset (\<lambda>(p, q). window_row fmt h st (Some p) (Some q))
        (filter_mset (\<lambda>(p, q). cond (h p) (h q)) (mset (List.product L R))) +
      (if t \<in> {LeftOuterJoin, FullOuterJoin}
       then image_mset (\<lambda>p. window_row fmt h st (Some p) None) (mset (filter (\<lambda>p. \<forall>q \<in> set R. \<not> cond (h p) (h q)) L))
       else {#}) +
      (if t \<in> {RightOuterJoin, FullOuterJoin}
       then image_mset (\<lambda>q. window_row fmt h st None (Some q)) (mset (filter (\<lambda>q. \<forall>p \<in> set L. \<not> cond (h p) (h q)) R))
       else {#}))"

lemma fire_rows:
  assumes "wjs_ok h cond k st"
  shows "mset (wj_fireWindow fmt h t st) = window_rows fmt h cond t st"
proof -
  let ?L = "LeftEvents st" and ?R = "RightEvents st"
  let ?pairs = "filter_mset (\<lambda>(p, q). cond (h p) (h q)) (mset (List.product ?L ?R))"
  have ms: "mset (Matches st) = image_mset (\<lambda>(p, q). \<lparr>m_Left = p, m_Right = q, m_EventTime = End (wjs_Window st), m_JoinKey = Key (h p)\<rparr>) ?pairs"
    using assms by (simp add: wjs_ok_def)
  have "image_mset (match_event fmt h) (mset (Matches st)) = image_mset (\<lambda>(p, q). window_row fmt h st (Some p) (Some q)) ?pairs"
    unfolding ms by (simp add: image_mset.compositionality o_def case_prod_unfold match_event_def window_row_def)
  moreover have sets: "set (Matches st) = (\<lambda>(p, q). \<lparr>m_Left = p, m_Right = q, m_EventTime = End (wjs_Window st), m_JoinKey = Key (h p)\<rparr>) `
      {(p, q). p \<in> set ?L \<and> q \<in> set ?R \<and> cond (h p) (h q)}"
    using arg_cong [OF ms, of set_mset] by (auto simp: image_iff)
  have "mset (unmatched_left fmt h st) = image_mset (\<lambda>p. window_row fmt h st (Some p) None)
      (mset (filter (\<lambda>p. \<forall>q \<in> set ?R. \<not> cond (h p) (h q)) ?L))"
  proof -
    have "filter (\<lambda>p. p \<notin> m_Left ` set (Matches st)) ?L = filter (\<lambda>p. \<forall>q \<in> set ?R. \<not> cond (h p) (h q)) ?L"
      by (rule filter_cong) (auto simp: sets image_iff)
    then show ?thesis by (simp add: unmatched_left_def window_row_def)
  qed
  moreover have "mset (unmatched_right fmt h st) = image_mset (\<lambda>q. window_row fmt h st None (Some q))
      (mset (filter (\<lambda>q. \<forall>p \<in> set ?L. \<not> cond (h p) (h q)) ?R))"
  proof -
    have "filter (\<lambda>q. q \<notin> m_Right ` set (Matches st)) ?R = filter (\<lambda>q. \<forall>p \<in> set ?L. \<not> cond (h p) (h q)) ?R"
      by (rule filter_cong) (auto simp: sets image_iff)
    then show ?thesis by (simp add: unmatched_right_def window_row_def)
  qed
  ultimately show ?thesis
    by (cases t) (simp_all add: wj_fireWindow_def window_rows_def Let_def del: mset_filter)
qed

section \<open>Runs\<close>

inductive wj_step :: "(gtime \<Rightarrow> string) \<Rightarrow> (nat \<Rightarrow> 'v event) \<Rightarrow> 'v WindowJoinOperator \<Rightarrow> 'v WindowJoinOperator \<Rightarrow> bool" for fmt h where
  left: "\<forall>w \<in> set (AssignWindows now (wj_assigner wj) (h p)). epoch w \<Longrightarrow> wj_ProcessLeft now h wj p = Inr wj' \<Longrightarrow> wj_step fmt h wj wj'"
| right: "\<forall>w \<in> set (AssignWindows now (wj_assigner wj) (h p)). epoch w \<Longrightarrow> wj_ProcessRight now h wj p = Inr wj' \<Longrightarrow> wj_step fmt h wj wj'"
| watermark: "windowState wj = Some m \<Longrightarrow> range_order ks m \<Longrightarrow> wj_OnWatermark fmt h ks wm wj = (results, wj') \<Longrightarrow> wj_step fmt h wj wj'"
| close: "wj_step fmt h wj (wj_Close wj)"

lemma wj_OnWatermark_eq:
  assumes "windowState wj = Some m" "range_order ks m"
  shows "wj_OnWatermark fmt h ks wm wj =
    (concat (map (\<lambda>k. wj_fireWindow fmt h (JType (wj_config wj)) (the (m k))) (filter (due wm m) ks)),
     wj\<lparr>windowState := Some (\<lambda>k. if due wm m k then None else m k)\<rparr>)"
proof -
  have "(\<lambda>k. if k \<in> set ks \<and> due wm m k then None else m k) = (\<lambda>k. if due wm m k then None else m k)"
    using assms(2) by (auto simp: fun_eq_iff range_order_def due_def split: option.splits)
  then show ?thesis using assms fire_fold [of ks fmt h "JType (wj_config wj)" wm "[]" m]
    by (simp add: wj_OnWatermark_def range_order_distinct)
qed

interpretation wjs: stepping "\<lambda>wj. \<exists>config assigner. wj = NewWindowJoinOperator config assigner" "wj_step fmt h" "wj_inv h" for fmt h
proof
  show "wj_inv h s" if "\<exists>config assigner. s = NewWindowJoinOperator config assigner" for s
    using that by (auto simp: wj_inv_def NewWindowJoinOperator_def Let_def)
  show "wj_inv h t" if "wj_inv h s" "wj_step fmt h s t" for s t
    using that(2,1)
  proof (cases rule: wj_step.cases)
    case (watermark m ks wm results)
    have "wj_inv h (s\<lparr>windowState := Some (\<lambda>k. if due wm m k then None else m k)\<rparr>)"
      using that(1) watermark(1) by (auto simp: wj_inv_def split: if_splits)
    then show ?thesis using watermark wj_OnWatermark_eq [OF watermark(1,2)] by simp
  next
    case (left now p)
    then show ?thesis using wj_ProcessLeft_inv [OF that(1)] by blast
  next
    case (right now p)
    then show ?thesis using wj_ProcessRight_inv [OF that(1)] by blast
  next
    case close
    then show ?thesis by (simp add: wj_Close_def wj_inv_def)
  qed
qed

text \<open>C5: In every run of the window join, a watermark evaluates exactly the windows that end at or before
  it and removes them; a window evaluated contributes one row for every pair of its left and right events that
  satisfies the condition and, for the outer join types, one row for every event without a partner in the
  window, all with the window's end as their time.\<close>

theorem window_join_results:
  assumes "reach (\<lambda>wj. \<exists>config assigner. wj = NewWindowJoinOperator config assigner) (wj_step fmt h) wj"
    and "windowState wj = Some m" "range_order ks m" "wj_OnWatermark fmt h ks wm wj = (results, wj')"
  shows "mset results = (\<Sum>k \<in># mset (filter (due wm m) ks). window_rows fmt h (wj_condition wj) (JType (wj_config wj)) (the (m k))) \<and>
    windowState wj' = Some (\<lambda>k. if due wm m k then None else m k) \<and>
    (\<forall>k st. m k = Some st \<longrightarrow> (due wm m k \<longleftrightarrow> End (wjs_Window st) \<le> wm))"
proof -
  have inv: "wj_inv h wj" by (rule wjs.inv_reach [OF assms(1)])
  have rows: "mset (wj_fireWindow fmt h (JType (wj_config wj)) (the (m k))) =
      window_rows fmt h (wj_condition wj) (JType (wj_config wj)) (the (m k))" if "due wm m k" for k
    using that inv assms(2) by (intro fire_rows [of _ _ k]) (auto simp: due_def wj_inv_def split: option.splits)
  have ms: "mset (concat (map f xs)) = (\<Sum>k \<in># mset xs. mset (f k))" for f :: "string \<Rightarrow> 'a joined list" and xs
    by (induction xs) auto
  have "results = concat (map (\<lambda>k. wj_fireWindow fmt h (JType (wj_config wj)) (the (m k))) (filter (due wm m) ks))"
    using assms(4) wj_OnWatermark_eq [OF assms(2,3), of fmt h wm] by simp
  then have "mset results = (\<Sum>k \<in># mset (filter (due wm m) ks).
      mset (wj_fireWindow fmt h (JType (wj_config wj)) (the (m k))))"
    by (simp only: ms)
  also have "\<dots> = (\<Sum>k \<in># mset (filter (due wm m) ks). window_rows fmt h (wj_condition wj) (JType (wj_config wj)) (the (m k)))"
    by (rule arg_cong [where f = sum_mset], rule image_mset_cong) (use rows in auto)
  finally show ?thesis
    using assms(4) wj_OnWatermark_eq [OF assms(2,3), of fmt h wm] inv assms(2)
    by (auto simp: due_def wj_inv_def wjs_ok_def)
qed

definition sample_window_join :: "int WindowJoinOperator" where
  "sample_window_join = NewWindowJoinOperator (Some (WithJoinType LeftOuterJoin DefaultJoinConfig))
     (Tumbling (NewTumblingWindow (60 * second)))"

definition modern :: "int event" where "modern = mk_event ''a'' 1 (62135596900 * second) Map.empty"

definition modern_window :: window where
  "modern_window = \<lparr>Start = 62135596860 * second, End = 62135596920 * second, WType = TumblingWindow\<rparr>"

lemma modern_assigned: "AssignWindows 0 (wj_assigner sample_window_join) modern = [modern_window]"
  by (simp add: sample_window_join_def NewWindowJoinOperator_def NewTumblingWindow_def tw_AssignWindows_def
      modern_def modern_window_def time_Truncate_def gotime Let_def)

theorem window_join_results_witness:
  "let wj = (case wj_ProcessLeft 0 (\<lambda>_. modern) sample_window_join 7 of Inr wj \<Rightarrow> wj)
   in mset (fst (wj_OnWatermark show_int (\<lambda>_. modern) [getWindowKey ''a'' modern_window] (62135596920 * second) wj)) =
        {#ToEvent show_int \<lparr>jr_Left = Some modern, jr_Right = None, jr_EventTime = 62135596920 * second, JoinKey = ''a''\<rparr>#}"
proof -
  let ?h = "\<lambda>_ :: nat. modern" and ?k = "getWindowKey ''a'' modern_window"
  let ?st = "(new_join_window modern_window)\<lparr>LeftEvents := [7]\<rparr>"
  let ?wj = "sample_window_join\<lparr>windowState := Some [?k \<mapsto> ?st]\<rparr>"
  have key: "Key modern = ''a''" by (simp add: modern_def)
  have step: "wj_ProcessLeft 0 ?h sample_window_join 7 = Inr ?wj"
    by (simp add: wj_ProcessLeft_def modern_assigned add_left_window_def matchInWindow_left key Let_def)
      (simp add: sample_window_join_def NewWindowJoinOperator_def new_join_window_def add_left_window_def
        matchInWindow_left key Let_def)
  have "reach (\<lambda>wj. \<exists>config assigner. wj = NewWindowJoinOperator config assigner) (wj_step show_int ?h) ?wj"
  proof (rule reach.next_step [OF reach.start])
    show "\<exists>config assigner. sample_window_join = NewWindowJoinOperator config assigner"
      by (auto simp: sample_window_join_def)
    show "wj_step show_int ?h sample_window_join ?wj"
      by (rule wj_step.left [OF _ step])
        (simp add: modern_assigned epoch_def modern_window_def time_Unix_def unix_epoch_seconds_def second_def)
  qed
  from window_join_results [OF this, of "[?k \<mapsto> ?st]" "[?k]" "62135596920 * second"]
  have "mset (fst (wj_OnWatermark show_int ?h [?k] (62135596920 * second) ?wj)) =
      (\<Sum>k \<in># mset (filter (due (62135596920 * second) [?k \<mapsto> ?st]) [?k]).
         window_rows show_int ?h (wj_condition ?wj) (JType (wj_config ?wj)) (the ([?k \<mapsto> ?st] k)))"
    by (cases "wj_OnWatermark show_int ?h [?k] (62135596920 * second) ?wj") (simp add: range_order_def)
  also have "\<dots> = {#ToEvent show_int \<lparr>jr_Left = Some modern, jr_Right = None, jr_EventTime = 62135596920 * second, JoinKey = ''a''\<rparr>#}"
    by (simp add: due_def new_join_window_def modern_window_def window_rows_def window_row_def key
        sample_window_join_def NewWindowJoinOperator_def with_default_condition_def WithJoinType_def DefaultJoinConfig_def Let_def)
  finally show ?thesis unfolding step Let_def sum.case .
qed

end
