(* ===== verification/Temporal_Join.thy ===== *)
theory Temporal_Join
  imports Join_Operator
begin

text \<open>
  The temporal join, \<open>pkg/join/temporal_join.go\<close>: a table of versioned reference data, kept per key in
  arrival order, and the lookup of the version valid at the time of an event, first by binary search and then
  by a linear scan. \<open>versionedTable\<close> is \<open>None\<close> once \<open>Close\<close> has set it to nil.
\<close>

section \<open>The operator\<close>

record 'v Version =
  v_Event :: "'v event"
  ValidFrom :: gtime
  ValidTo :: gtime

record 'v VersionHistory =
  vh_Key :: string
  Versions :: "'v Version list"

record 'v TemporalJoinOperator =
  tj_config :: "'v JoinConfig"
  versionedTable :: "(string \<rightharpoonup> 'v VersionHistory) option"
  tj_condition :: "'v JoinCondition"
  tj_ticker :: bool
  tj_stopped :: bool

datatype tj_error = TickerInterval | NilTable | NoHistory string | CloseOfClosed | RequiresUpdateReference

definition tj_startCleanup :: "'v TemporalJoinOperator \<Rightarrow> tj_error + 'v TemporalJoinOperator" where
  "tj_startCleanup tj =
     (if CleanupInterval (tj_config tj) \<le> 0 then Inl TickerInterval else Inr (tj\<lparr>tj_ticker := True\<rparr>))"

definition NewTemporalJoinOperator :: "'v JoinConfig option \<Rightarrow> tj_error + 'v TemporalJoinOperator" where
  "NewTemporalJoinOperator config =
     (let c = with_default_condition config;
          tj = \<lparr>tj_config = c, versionedTable = Some Map.empty, tj_condition = the (Condition c),
                tj_ticker = False, tj_stopped = False\<rparr>
      in if EnableCleanup c then tj_startCleanup tj else Inr tj)"

text \<open>Closing the last version and appending the new one.\<close>

definition add_version :: "'v Version list \<Rightarrow> 'v event \<Rightarrow> 'v Version list" where
  "add_version versions event =
     (let validFrom = EventTime event;
          closed = (if 0 < length versions
                    then butlast versions @ [(last versions)\<lparr>ValidTo := validFrom\<rparr>] else versions)
      in closed @ [\<lparr>v_Event = event, ValidFrom = validFrom, ValidTo = zero_time\<rparr>])"

definition UpdateReference :: "'v event \<Rightarrow> 'v TemporalJoinOperator \<Rightarrow> tj_error + 'v TemporalJoinOperator" where
  "UpdateReference event tj =
     (case versionedTable tj of
        None \<Rightarrow> Inl NilTable
      | Some table \<Rightarrow>
          (let key = Key event;
               history = (case table key of None \<Rightarrow> \<lparr>vh_Key = key, Versions = []\<rparr> | Some h \<Rightarrow> h);
               history' = history\<lparr>Versions := add_version (Versions history) event\<rparr>
           in Inr (tj\<lparr>versionedTable := Some (table(key \<mapsto> history'))\<rparr>)))"

definition valid_at :: "gtime \<Rightarrow> 'v Version \<Rightarrow> bool" where
  "valid_at timestamp version =
     ((time_After timestamp (ValidFrom version) \<or> time_Equal timestamp (ValidFrom version)) \<and>
      (time_IsZero (ValidTo version) \<or> time_Before timestamp (ValidTo version)))"

function version_search :: "'v Version list \<Rightarrow> gtime \<Rightarrow> int \<Rightarrow> int \<Rightarrow> 'v Version option" where
  "version_search versions timestamp left right =
     (if left \<le> right then
        (let mid = (left + right) div 2;
             version = versions ! nat mid
         in if valid_at timestamp version then Some version
            else if time_Before timestamp (ValidFrom version)
            then version_search versions timestamp left (mid - 1)
            else version_search versions timestamp (mid + 1) right)
      else None)"
  by pat_completeness auto
termination
  by (relation "measure (\<lambda>(versions, timestamp, left, right). nat (right - left + 1))") auto

declare version_search.simps [simp del]

definition lookup_versions :: "'v Version list \<Rightarrow> gtime \<Rightarrow> 'v event option" where
  "lookup_versions versions timestamp =
     (let result = (case version_search versions timestamp 0 (int (length versions) - 1) of
                      Some v \<Rightarrow> Some v
                    | None \<Rightarrow> List.find (valid_at timestamp) versions)
      in map_option v_Event result)"

definition lookupVersion :: "string \<Rightarrow> gtime \<Rightarrow> 'v TemporalJoinOperator \<Rightarrow> 'v event option" where
  "lookupVersion key timestamp tj =
     (case versionedTable tj of
        None \<Rightarrow> None
      | Some table \<Rightarrow>
          (case table key of
             None \<Rightarrow> None
           | Some history \<Rightarrow> lookup_versions (Versions history) timestamp))"

definition tj_ProcessLeft :: "(gtime \<Rightarrow> string) \<Rightarrow> 'v event \<Rightarrow> 'v TemporalJoinOperator \<Rightarrow> 'v joined list" where
  "tj_ProcessLeft fmt event tj =
     (case lookupVersion (Key event) (EventTime event) tj of
        Some referenceEvent \<Rightarrow>
          if tj_condition tj event referenceEvent
          then [ToEvent fmt \<lparr>jr_Left = Some event, jr_Right = Some referenceEvent,
                              jr_EventTime = EventTime event, JoinKey = Key event\<rparr>]
          else []
      | None \<Rightarrow>
          if JType (tj_config tj) = LeftOuterJoin \<or> JType (tj_config tj) = FullOuterJoin
          then [ToEvent fmt \<lparr>jr_Left = Some event, jr_Right = None,
                              jr_EventTime = EventTime event, JoinKey = Key event\<rparr>]
          else [])"

definition GetVersionHistory :: "string \<Rightarrow> 'v TemporalJoinOperator \<Rightarrow> tj_error + 'v VersionHistory" where
  "GetVersionHistory key tj =
     (case (case versionedTable tj of None \<Rightarrow> None | Some table \<Rightarrow> table key) of
        None \<Rightarrow> Inl (NoHistory key)
      | Some history \<Rightarrow> Inr \<lparr>vh_Key = vh_Key history, Versions = Versions history\<rparr>)"

definition tj_GetAllKeys :: "string list \<Rightarrow> 'v TemporalJoinOperator \<Rightarrow> string list" where
  "tj_GetAllKeys ks tj =
     (case versionedTable tj of None \<Rightarrow> [] | Some table \<Rightarrow> filter (\<lambda>k. table k \<noteq> None) ks)"

text \<open>The versions that cleanup keeps of a history.\<close>

fun kept_versions :: "gtime \<Rightarrow> 'v Version list \<Rightarrow> 'v Version list" where
  "kept_versions cutoffTime [] = []"
| "kept_versions cutoffTime (version # versions) =
     (let isLatest = (versions = []);
          isWithinRetention = (time_IsZero (ValidTo version) \<or> time_After (ValidTo version) cutoffTime)
      in if isLatest \<or> isWithinRetention then version # kept_versions cutoffTime versions
         else kept_versions cutoffTime versions)"

definition cleanup_history :: "gtime \<Rightarrow> 'v VersionHistory \<Rightarrow> 'v VersionHistory option" where
  "cleanup_history cutoffTime history =
     (let keptVersions = kept_versions cutoffTime (Versions history)
      in if length keptVersions = 0 then None else Some (history\<lparr>Versions := keptVersions\<rparr>))"

definition tj_cleanup :: "gtime \<Rightarrow> 'v TemporalJoinOperator \<Rightarrow> 'v TemporalJoinOperator" where
  "tj_cleanup now tj =
     (let cutoffTime = time_Add now (dur_neg (StateRetention (tj_config tj)))
      in case versionedTable tj of
           None \<Rightarrow> tj
         | Some table \<Rightarrow>
             tj\<lparr>versionedTable := Some (\<lambda>key. Option.bind (table key) (cleanup_history cutoffTime))\<rparr>)"

definition tj_Process :: "'v TemporalJoinOperator \<Rightarrow> 'v event \<Rightarrow> tj_error + 'v joined list" where
  "tj_Process tj event = Inl RequiresUpdateReference"

definition tj_Close :: "'v TemporalJoinOperator \<Rightarrow> tj_error + 'v TemporalJoinOperator" where
  "tj_Close tj =
     (if tj_stopped tj then Inl CloseOfClosed else Inr (tj\<lparr>tj_stopped := True, versionedTable := None\<rparr>))"

record TemporalJoinMetrics =
  TotalKeys :: nat
  TotalVersions :: nat

definition tj_GetMetrics :: "string list \<Rightarrow> 'v TemporalJoinOperator \<Rightarrow> TemporalJoinMetrics" where
  "tj_GetMetrics ks tj =
     (let table = (case versionedTable tj of None \<Rightarrow> Map.empty | Some t \<Rightarrow> t);
          histories = List.map_filter table ks
      in \<lparr>TotalKeys = length histories, TotalVersions = sum_list (map (length \<circ> Versions) histories)\<rparr>)"

record 'v TemporalJoinBuilder =
  tb_config :: "'v JoinConfig"

definition NewTemporalJoin :: "'v TemporalJoinBuilder" where
  "NewTemporalJoin = \<lparr>tb_config = DefaultJoinConfig\<lparr>JType := LeftOuterJoin\<rparr>\<rparr>"

definition tb_WithJoinType :: "JoinType \<Rightarrow> 'v TemporalJoinBuilder \<Rightarrow> 'v TemporalJoinBuilder" where
  "tb_WithJoinType t b = b\<lparr>tb_config := (tb_config b)\<lparr>JType := t\<rparr>\<rparr>"

definition tb_WithCondition :: "'v JoinCondition \<Rightarrow> 'v TemporalJoinBuilder \<Rightarrow> 'v TemporalJoinBuilder" where
  "tb_WithCondition cond b = b\<lparr>tb_config := (tb_config b)\<lparr>Condition := Some cond\<rparr>\<rparr>"

definition tb_WithStateRetention :: "duration \<Rightarrow> 'v TemporalJoinBuilder \<Rightarrow> 'v TemporalJoinBuilder" where
  "tb_WithStateRetention retention b = b\<lparr>tb_config := (tb_config b)\<lparr>StateRetention := retention\<rparr>\<rparr>"

definition tb_Build :: "'v TemporalJoinBuilder \<Rightarrow> tj_error + 'v TemporalJoinOperator" where
  "tb_Build b = NewTemporalJoinOperator (Some (tb_config b))"

section \<open>The lookup\<close>

lemma valid_at_iff: "valid_at ts v \<longleftrightarrow> ValidFrom v \<le> ts \<and> (ValidTo v = 0 \<or> ts < ValidTo v)"
  by (auto simp: valid_at_def gotime)

lemma version_search_sound:
  "0 \<le> l \<Longrightarrow> r < int (length vs) \<Longrightarrow> version_search vs ts l r = Some v \<Longrightarrow> v \<in> set vs \<and> valid_at ts v"
proof (induction vs ts l r rule: version_search.induct)
  case (1 vs ts l r)
  show ?case
  proof (cases "l \<le> r")
    case False
    with "1.prems" show ?thesis by (simp add: version_search.simps)
  next
    case True
    let ?mid = "(l + r) div 2"
    have mid: "l \<le> ?mid" "?mid \<le> r" using True by auto
    then have "nat ?mid < length vs" using "1.prems"(1,2) by linarith
    then show ?thesis
      using "1.IH"(1,2) [OF True refl refl] "1.prems" True mid
      by (subst (asm) version_search.simps) (auto simp: Let_def split: if_splits)
  qed
qed

text \<open>Whatever the history, the lookup returns a version valid at the time when there is one.\<close>

lemma lookup_versions_spec:
  "(lookup_versions vs ts = None \<longrightarrow> (\<forall>v \<in> set vs. \<not> valid_at ts v)) \<and>
   (\<forall>e. lookup_versions vs ts = Some e \<longrightarrow> (\<exists>v \<in> set vs. valid_at ts v \<and> v_Event v = e))"
proof (cases "version_search vs ts 0 (int (length vs) - 1)")
  case None
  then show ?thesis
    by (auto simp: lookup_versions_def find_None_iff dest!: find_Some_iff [THEN iffD1])
next
  case (Some v)
  then show ?thesis using version_search_sound [OF _ _ Some] by (auto simp: lookup_versions_def)
qed

section \<open>Histories of updates in order\<close>

text \<open>The versions of a sequence of updates: each valid until the next one.\<close>

fun mk_versions :: "'v event list \<Rightarrow> 'v Version list" where
  "mk_versions [] = []"
| "mk_versions [e] = [\<lparr>v_Event = e, ValidFrom = EventTime e, ValidTo = zero_time\<rparr>]"
| "mk_versions (e # f # es) = \<lparr>v_Event = e, ValidFrom = EventTime e, ValidTo = EventTime f\<rparr> # mk_versions (f # es)"

text \<open>Updates that arrive in the order of their times, none of them at the zero time.\<close>

definition in_order :: "'v event list \<Rightarrow> bool" where
  "in_order es \<longleftrightarrow> sorted (map EventTime es) \<and> (\<forall>e \<in> set es. 0 < EventTime e)"

lemma mk_versions_Nil [simp]: "mk_versions es = [] \<longleftrightarrow> es = []"
  by (cases es rule: mk_versions.cases) auto

lemma mk_versions_snoc: "mk_versions (es @ [e]) = add_version (mk_versions es) e"
proof (induction es rule: mk_versions.induct)
  case (3 a b es)
  then show ?case by (simp add: add_version_def Let_def split: if_splits)
qed (simp_all add: add_version_def gotime Let_def)

text \<open>The value as of a time: the last update not after it.\<close>

definition as_of :: "gtime \<Rightarrow> 'v event list \<Rightarrow> 'v event option" where
  "as_of ts es = (let past = filter (\<lambda>e. EventTime e \<le> ts) es in if past = [] then None else Some (last past))"

lemma as_of_Cons: "as_of ts (e # es) =
    (case as_of ts es of Some f \<Rightarrow> Some f | None \<Rightarrow> if EventTime e \<le> ts then Some e else None)"
  by (auto simp: as_of_def Let_def)

lemma valid_as_of:
  "in_order es \<Longrightarrow> (\<forall>v \<in> set (mk_versions es). valid_at ts v \<longrightarrow> as_of ts es = Some (v_Event v)) \<and>
     (as_of ts es \<noteq> None \<longrightarrow> (\<exists>v \<in> set (mk_versions es). valid_at ts v))"
proof (induction es rule: mk_versions.induct)
  case 1
  then show ?case by (simp add: as_of_def)
next
  case (2 e)
  then show ?case by (simp add: as_of_def valid_at_iff gotime)
next
  case (3 e f es)
  have ord: "in_order (f # es)" "EventTime e \<le> EventTime f" "0 < EventTime f"
    using "3.prems" by (auto simp: in_order_def)
  show ?case
  proof (cases "EventTime f \<le> ts")
    case True
    then have "as_of ts (f # es) \<noteq> None" by (simp add: as_of_def)
    then have "as_of ts (e # f # es) = as_of ts (f # es)" by (auto simp: as_of_Cons [of ts e])
    then show ?thesis using "3.IH" [OF ord(1)] True ord \<open>as_of ts (f # es) \<noteq> None\<close> by (auto simp: valid_at_iff)
  next
    case False
    then have none: "as_of ts (f # es) = None"
      using ord(1) by (auto simp: as_of_def in_order_def filter_empty_conv)
    then have "\<not> valid_at ts v" if "v \<in> set (mk_versions (f # es))" for v
      using "3.IH" [OF ord(1)] that by auto
    then show ?thesis using False ord none by (auto simp: as_of_Cons [of ts e] valid_at_iff)
  qed
qed

section \<open>Retention\<close>

text \<open>A history from which versions that ended before \<open>C\<close> may have been removed.\<close>

definition retained :: "gtime \<Rightarrow> 'v event list \<Rightarrow> 'v Version list \<Rightarrow> bool" where
  "retained C es vs \<longleftrightarrow>
     (if es = [] then vs = [] else vs \<noteq> [] \<and> last vs = last (mk_versions es)) \<and>
     (\<forall>v \<in> set (butlast vs). ValidTo v \<noteq> 0) \<and> set vs \<subseteq> set (mk_versions es) \<and>
     (\<forall>v \<in> set (mk_versions es). v \<in> set vs \<or> ValidTo v \<noteq> 0 \<and> ValidTo v \<le> C)"

lemma retained_lookup:
  assumes "in_order es" "retained C es vs" "C \<le> ts"
  shows "lookup_versions vs ts = as_of ts es"
proof (cases "lookup_versions vs ts")
  case None
  then have "\<forall>v \<in> set vs. \<not> valid_at ts v" using lookup_versions_spec [of vs ts] by simp
  then have "\<forall>v \<in> set (mk_versions es). \<not> valid_at ts v"
    using assms(2,3) by (fastforce simp: retained_def valid_at_iff)
  then show ?thesis using valid_as_of [OF assms(1), of ts] None by (cases "as_of ts es") auto
next
  case (Some e)
  then obtain v where "v \<in> set vs" "valid_at ts v" "v_Event v = e" using lookup_versions_spec [of vs ts] by auto
  then show ?thesis using valid_as_of [OF assms(1), of ts] assms(2) Some by (auto simp: retained_def)
qed

lemma mk_versions_ValidTo:
  "in_order es \<Longrightarrow> v \<in> set (mk_versions es) \<Longrightarrow> ValidTo v = 0 \<Longrightarrow> v = last (mk_versions es)"
  by (induction es rule: mk_versions.induct) (auto simp: in_order_def)

lemma retained_update:
  assumes "in_order (es @ [e])" "retained C es vs"
  shows "retained C (es @ [e]) (add_version vs e)"
proof (cases "es = []")
  case True
  then show ?thesis using assms(2) by (auto simp: retained_def add_version_def gotime)
next
  case False
  have ord: "in_order es" "0 < EventTime e" using assms(1) by (auto simp: in_order_def sorted_append)
  let ?M = "mk_versions es" and ?n = "\<lparr>v_Event = e, ValidFrom = EventTime e, ValidTo = zero_time\<rparr>"
  let ?c = "(last ?M)\<lparr>ValidTo := EventTime e\<rparr>"
  have vs: "vs \<noteq> []" "last vs = last ?M" "\<forall>v \<in> set (butlast vs). ValidTo v \<noteq> 0" "set vs \<subseteq> set ?M"
    "\<forall>v \<in> set ?M. v \<in> set vs \<or> ValidTo v \<noteq> 0 \<and> ValidTo v \<le> C"
    using assms(2) False by (auto simp: retained_def)
  have M: "?M \<noteq> []" using False by simp
  have split: "set xs = insert (last xs) (set (butlast xs))" if "xs \<noteq> []" for xs :: "'a Version list"
    using that by (metis append_butlast_last_id list.simps(15) rotate1.simps(2) set_rotate1)
  have last0: "ValidTo (last ?M) = 0" using False by (induction es rule: mk_versions.induct) (auto simp: gotime)
  have sub: "set (butlast vs) \<subseteq> set (butlast ?M)"
  proof
    fix v assume "v \<in> set (butlast vs)"
    then have "v \<in> set ?M" "ValidTo v \<noteq> 0" using vs(3,4) in_set_butlastD by fastforce+
    then show "v \<in> set (butlast ?M)" using split [OF M] last0 by auto
  qed
  have keep: "v \<in> set (butlast vs) \<or> ValidTo v \<noteq> 0 \<and> ValidTo v \<le> C" if "v \<in> set (butlast ?M)" for v
  proof -
    have "v \<in> set ?M" using that by (rule in_set_butlastD)
    then have "v \<in> set vs \<or> ValidTo v \<noteq> 0 \<and> ValidTo v \<le> C" using vs(5) by blast
    moreover have "ValidTo v \<noteq> 0" using that ord(1)
      by (induction es rule: mk_versions.induct) (auto simp: in_order_def split: if_splits)
    ultimately show ?thesis using split [OF vs(1)] vs(2) last0 by auto
  qed
  have "add_version vs e = butlast vs @ [?c, ?n]" "mk_versions (es @ [e]) = butlast ?M @ [?c, ?n]"
    using vs(1,2) M by (simp_all add: add_version_def mk_versions_snoc Let_def)
  then show ?thesis
    using sub keep vs(3) ord(2) by (auto simp: retained_def butlast_append)
qed

lemma kept_versions_spec:
  "set (kept_versions C vs) \<subseteq> set vs \<and> (vs \<noteq> [] \<longrightarrow> kept_versions C vs \<noteq> [] \<and> last (kept_versions C vs) = last vs) \<and>
   (\<forall>v \<in> set vs. v \<in> set (kept_versions C vs) \<or> ValidTo v \<noteq> 0 \<and> ValidTo v \<le> C) \<and>
   ((\<forall>v \<in> set (butlast vs). P v) \<longrightarrow> (\<forall>v \<in> set (butlast (kept_versions C vs)). P v))"
proof (induction vs)
  case (Cons v vs)
  show ?case
  proof (cases "vs = []")
    case False
    then have "kept_versions C vs \<noteq> []" using Cons by simp
    then show ?thesis using Cons False by (auto simp: gotime Let_def)
  qed (simp add: Let_def)
qed simp

lemma retained_cleanup:
  assumes "retained C es vs" "c \<le> C"
  shows "retained C es (kept_versions c vs)"
proof -
  note k = kept_versions_spec [of c vs "\<lambda>v. ValidTo v \<noteq> 0"]
  have "v \<in> set (kept_versions c vs) \<or> ValidTo v \<noteq> 0 \<and> ValidTo v \<le> C" if "v \<in> set (mk_versions es)" for v
    using that assms k by (force simp: retained_def)
  then show ?thesis using assms(1) k by (auto simp: retained_def split: if_splits)
qed

section \<open>Runs of updates and cleanups\<close>

datatype 'v tj_op = Update "'v event" | Cleanup gtime

fun tj_apply :: "'v tj_op \<Rightarrow> tj_error + 'v TemporalJoinOperator \<Rightarrow> tj_error + 'v TemporalJoinOperator" where
  "tj_apply op (Inl err) = Inl err"
| "tj_apply (Update e) (Inr tj) = UpdateReference e tj"
| "tj_apply (Cleanup now) (Inr tj) = Inr (tj_cleanup now tj)"

definition updates :: "string \<Rightarrow> 'v tj_op list \<Rightarrow> 'v event list" where
  "updates key ops = List.map_filter (\<lambda>op. case op of Update e \<Rightarrow> if Key e = key then Some e else None | Cleanup now \<Rightarrow> None) ops"

definition cutoff :: "'v TemporalJoinOperator \<Rightarrow> gtime \<Rightarrow> gtime" where
  "cutoff tj now = time_Add now (dur_neg (StateRetention (tj_config tj)))"

lemma updates_simps [simp]:
  "updates key [] = []" "updates key (ops @ [Update e]) = updates key ops @ (if Key e = key then [e] else [])"
  "updates key (ops @ [Cleanup now]) = updates key ops"
  by (simp_all add: updates_def map_filter_def)

definition tj_versions :: "'v TemporalJoinOperator \<Rightarrow> string \<Rightarrow> 'v Version list" where
  "tj_versions tj key = (case versionedTable tj of None \<Rightarrow> [] | Some table \<Rightarrow>
     (case table key of None \<Rightarrow> [] | Some h \<Rightarrow> Versions h))"

lemma lookup_tj_versions: "lookupVersion key ts tj = lookup_versions (tj_versions tj key) ts"
proof -
  have "lookup_versions [] ts = (None :: 'a event option)"
    by (simp add: lookup_versions_def version_search.simps)
  then show ?thesis by (simp add: lookupVersion_def tj_versions_def split: option.splits)
qed

lemma tj_run:
  assumes "versionedTable tj0 = Some Map.empty" "\<forall>key. in_order (updates key ops)"
    and "\<forall>now. Cleanup now \<in> set ops \<longrightarrow> cutoff tj0 now \<le> C"
  shows "\<exists>tj. fold tj_apply ops (Inr tj0) = Inr tj \<and> versionedTable tj \<noteq> None \<and> tj_config tj = tj_config tj0 \<and>
    (\<forall>key. retained C (updates key ops) (tj_versions tj key))"
  using assms(2,3)
proof (induction ops rule: rev_induct)
  case Nil
  then show ?case using assms(1) by (auto simp: tj_versions_def retained_def)
next
  case (snoc op ops)
  have ord: "in_order (updates key ops)" for key
  proof -
    have "in_order (updates key (ops @ [op]))" using snoc.prems(1) by blast
    then show ?thesis by (cases op) (auto simp: in_order_def sorted_append split: if_splits)
  qed
  then obtain tj where tj: "fold tj_apply ops (Inr tj0) = Inr tj" "versionedTable tj \<noteq> None" "tj_config tj = tj_config tj0"
    "\<forall>key. retained C (updates key ops) (tj_versions tj key)"
    using snoc.IH snoc.prems(2) by auto
  then obtain table where table: "versionedTable tj = Some table" by auto
  show ?case
  proof (cases op)
    case (Update e)
    define tj' where "tj' = (case UpdateReference e tj of Inr t \<Rightarrow> t)"
    have upd: "UpdateReference e tj = Inr tj'" "tj_config tj' = tj_config tj" "versionedTable tj' \<noteq> None"
      using table by (simp_all add: tj'_def UpdateReference_def Let_def)
    have "tj_versions tj' key = (if key = Key e then add_version (tj_versions tj key) e else tj_versions tj key)" for key
      using table by (simp add: tj'_def UpdateReference_def tj_versions_def Let_def split: option.splits)
    moreover have "in_order (updates (Key e) ops @ [e])" using snoc.prems(1) Update by (metis updates_simps(2))
    ultimately have "retained C (updates key (ops @ [op])) (tj_versions tj' key)" for key
      using tj(4) retained_update [of "updates (Key e) ops" e C] Update by auto
    then show ?thesis using tj(1,3) upd Update by auto
  next
    case (Cleanup now)
    have "tj_versions (tj_cleanup now tj) key = kept_versions (cutoff tj0 now) (tj_versions tj key)" for key
      using table tj(3)
      by (auto simp: tj_cleanup_def tj_versions_def cleanup_history_def cutoff_def Let_def split: option.splits bind_splits)
    moreover have "cutoff tj0 now \<le> C" using snoc.prems(2) Cleanup by simp
    ultimately have "retained C (updates key (ops @ [op])) (tj_versions (tj_cleanup now tj) key)" for key
      using tj(4) Cleanup by (simp add: retained_cleanup)
    then show ?thesis using tj(1,3) table Cleanup by (simp add: tj_cleanup_def Let_def)
  qed
qed

text \<open>C4: When the updates of each key arrive in the order of their times (and none has the zero time), the
  lookup at any time not before the cleanup cutoffs returns the last update of the key whose time is not later,
  and nothing when there is none, however cleanups are interleaved with the updates.\<close>

theorem temporal_lookup_as_of:
  assumes "NewTemporalJoinOperator config = Inr tj0" "\<forall>key. in_order (updates key ops)"
    and "\<forall>now. Cleanup now \<in> set ops \<longrightarrow> cutoff tj0 now \<le> ts"
  shows "\<exists>tj. fold tj_apply ops (Inr tj0) = Inr tj \<and>
    lookupVersion key ts tj =
      (let past = filter (\<lambda>e. EventTime e \<le> ts) (updates key ops) in if past = [] then None else Some (last past))"
proof -
  have "versionedTable tj0 = Some Map.empty"
    using assms(1) by (auto simp: NewTemporalJoinOperator_def tj_startCleanup_def Let_def split: if_splits)
  from tj_run [OF this assms(2,3)] obtain tj where "fold tj_apply ops (Inr tj0) = Inr tj"
    "retained ts (updates key ops) (tj_versions tj key)"
    by blast
  then show ?thesis
    using retained_lookup [of "updates key ops" ts "tj_versions tj key" ts] assms(2)
    by (auto simp: lookup_tj_versions as_of_def)
qed

definition price :: "int \<Rightarrow> gtime \<Rightarrow> int event" where "price v t = mk_event ''p'' v t Map.empty"

definition sample_temporal :: "int TemporalJoinOperator" where
  "sample_temporal = (case tb_Build NewTemporalJoin of Inr tj \<Rightarrow> tj)"

lemma sample_temporal_eq:
  "NewTemporalJoinOperator (Some (tb_config NewTemporalJoin)) = Inr sample_temporal"
  "versionedTable sample_temporal = Some Map.empty" "StateRetention (tj_config sample_temporal) = 10 * minute"
  by (simp_all add: sample_temporal_def tb_Build_def NewTemporalJoin_def NewTemporalJoinOperator_def with_default_condition_def
      DefaultJoinConfig_def tj_startCleanup_def Let_def gotime)

theorem temporal_lookup_as_of_witness:
  "\<exists>tj. fold tj_apply [Update (price 1 10), Cleanup 5, Update (price 2 20)] (Inr sample_temporal) = Inr tj \<and>
     lookupVersion ''p'' 15 tj = Some (price 1 10)"
proof -
  have "in_order (updates key [Update (price 1 10), Cleanup 5, Update (price 2 20)])" for key
    by (simp add: in_order_def updates_def map_filter_def price_def)
  moreover have "cutoff sample_temporal 5 \<le> 15"
    by (simp add: cutoff_def sample_temporal_eq(3) gotime)
  ultimately show ?thesis
    using temporal_lookup_as_of [OF sample_temporal_eq(1), of "[Update (price 1 10), Cleanup 5, Update (price 2 20)]" 15 "''p''"]
    by (auto simp: updates_def map_filter_def price_def)
qed

text \<open>An update that arrives out of order takes over: after a price valid from time 10 an older price of
  time 5 closes it before it began and stays open itself, so a lookup at time 20 returns the older price.\<close>

theorem out_of_order_update_wins:
  "\<exists>tj. fold tj_apply [Update (price 1 10), Update (price 2 5)] (Inr sample_temporal) = Inr tj \<and>
     lookupVersion ''p'' 20 tj = Some (price 2 5) \<and>
     tj_versions tj ''p'' = [\<lparr>v_Event = price 1 10, ValidFrom = 10, ValidTo = 5\<rparr>, \<lparr>v_Event = price 2 5, ValidFrom = 5, ValidTo = 0\<rparr>]"
proof -
  note table = sample_temporal_eq(2)
  let ?vs = "[\<lparr>v_Event = price 1 10, ValidFrom = 10, ValidTo = 5\<rparr>, \<lparr>v_Event = price 2 5, ValidFrom = 5, ValidTo = 0\<rparr>]"
  let ?tj = "sample_temporal\<lparr>versionedTable := Some [''p'' \<mapsto> \<lparr>vh_Key = ''p'', Versions = ?vs\<rparr>]\<rparr>"
  have "fold tj_apply [Update (price 1 10), Update (price 2 5)] (Inr sample_temporal) = Inr ?tj"
    by (simp add: UpdateReference_def table add_version_def price_def gotime Let_def)
  moreover have "lookupVersion ''p'' 20 ?tj = Some (price 2 5)"
  proof -
    have "lookup_versions ?vs 20 \<noteq> None" using lookup_versions_spec [of ?vs 20] by (auto simp: valid_at_iff)
    then obtain e where "lookup_versions ?vs 20 = Some e" by auto
    with lookup_versions_spec [of ?vs 20] have "e = price 2 5" by (auto simp: valid_at_iff)
    with \<open>lookup_versions ?vs 20 = Some e\<close> show ?thesis by (simp add: lookupVersion_def)
  qed
  moreover have "tj_versions ?tj ''p'' = ?vs" by (simp add: tj_versions_def)
  ultimately show ?thesis by blast
qed

section \<open>The binary search\<close>

lemma mk_versions_nth:
  "length (mk_versions es) = length es \<and>
   (\<forall>i < length es. v_Event (mk_versions es ! i) = es ! i \<and> ValidFrom (mk_versions es ! i) = EventTime (es ! i) \<and>
      ValidTo (mk_versions es ! i) = (if Suc i < length es then EventTime (es ! Suc i) else 0))"
proof (induction es rule: mk_versions.induct)
  case (3 e f es)
  then show ?case by (auto simp: less_Suc_eq_0_disj nth_Cons')
qed (simp_all add: gotime)

lemma version_search_complete:
  assumes ord: "in_order es" and i: "i < length es"
  shows "valid_at ts (mk_versions es ! i) \<Longrightarrow> 0 \<le> l \<Longrightarrow> l \<le> int i \<Longrightarrow> int i \<le> r \<Longrightarrow> r < int (length es) \<Longrightarrow> version_search (mk_versions es) ts l r \<noteq> None"
proof (induction "mk_versions es" ts l r rule: version_search.induct)
  case (1 ts l r)
  let ?vs = "mk_versions es"
  define mid where "mid = (l + r) div 2"
  have lr: "l \<le> r" using "1.prems" by simp
  have mid: "l \<le> mid" "mid \<le> r" "nat mid < length es" using lr "1.prems" by (auto simp: mid_def)
  have sorted: "EventTime (es ! a) \<le> EventTime (es ! b)" if "a \<le> b" "b < length es" for a b
    using ord that by (auto simp: in_order_def sorted_iff_nth_mono)
  have unfold: "version_search ?vs ts l r = (if valid_at ts (?vs ! nat mid) then Some (?vs ! nat mid)
      else if ts < EventTime (es ! nat mid) then version_search ?vs ts l (mid - 1) else version_search ?vs ts (mid + 1) r)"
    using lr mid(3) mk_versions_nth [of es]
    by (subst version_search.simps) (simp add: mid_def [symmetric] Let_def time_Before_def)
  show ?case
  proof (cases "valid_at ts (?vs ! nat mid) \<or> version_search ?vs ts l r \<noteq> None")
    case True
    with unfold show ?thesis by auto
  next
    case False
    then have nv: "\<not> valid_at ts (?vs ! nat mid)" by simp
    have vi: "EventTime (es ! i) \<le> ts" "Suc i < length es \<Longrightarrow> ts < EventTime (es ! Suc i) \<or> EventTime (es ! Suc i) = 0"
      using "1.prems"(1) i mk_versions_nth [of es] by (auto simp: valid_at_iff)
    show ?thesis
    proof (cases "ts < EventTime (es ! nat mid)")
      case True
      have "i < nat mid"
      proof (rule ccontr)
        assume "\<not> i < nat mid"
        with sorted [of "nat mid" i] i vi(1) True show False by simp
      qed
      then have "version_search ?vs ts l (mid - 1) \<noteq> None"
        using "1.hyps"(1) [OF lr refl refl] nv True mid mk_versions_nth [of es] "1.prems"
        by (simp add: mid_def [symmetric] time_Before_def)
      then show ?thesis using unfold nv True by simp
    next
      case f: False
      have "Suc (nat mid) < length es" "EventTime (es ! Suc (nat mid)) \<le> ts"
        using nv f mid(3) mk_versions_nth [of es] by (auto simp: valid_at_iff split: if_splits)
      moreover have "nat mid < i"
      proof (rule ccontr)
        assume "\<not> nat mid < i"
        then have "Suc i \<le> Suc (nat mid)" by simp
        with sorted [of "Suc i" "Suc (nat mid)"] \<open>Suc (nat mid) < length es\<close> have "EventTime (es ! Suc i) \<le> EventTime (es ! Suc (nat mid))" by simp
        moreover have "0 < EventTime (es ! Suc i)" using ord \<open>Suc i \<le> _\<close> \<open>Suc (nat mid) < length es\<close> by (auto simp: in_order_def)
        ultimately show False using vi(2) \<open>Suc i \<le> _\<close> \<open>Suc (nat mid) < length es\<close> \<open>EventTime (es ! Suc (nat mid)) \<le> ts\<close> by auto
      qed
      ultimately have "version_search ?vs ts (mid + 1) r \<noteq> None"
        using "1.hyps"(2) [OF lr refl refl] nv f mid mk_versions_nth [of es] "1.prems"
        by (simp add: mid_def [symmetric] time_Before_def)
      then show ?thesis using unfold nv f by simp
    qed
  qed
qed

text \<open>On a history of in-order updates the binary search alone answers every lookup, so the linear
  scan that follows it never changes a result.\<close>

theorem binary_search_suffices:
  assumes "in_order es"
  shows "lookup_versions (mk_versions es) ts = map_option v_Event (version_search (mk_versions es) ts 0 (int (length es) - 1))"
proof (cases "version_search (mk_versions es) ts 0 (int (length es) - 1)")
  case None
  have "\<not> valid_at ts v" if v: "v \<in> set (mk_versions es)" for v
  proof
    assume "valid_at ts v"
    moreover obtain i where "i < length (mk_versions es)" "v = mk_versions es ! i"
      using v unfolding in_set_conv_nth by blast
    moreover have "length (mk_versions es) = length es" using mk_versions_nth by blast
    ultimately show False using version_search_complete [OF assms, of i ts 0 "int (length es) - 1"] None by simp
  qed
  then show ?thesis using None mk_versions_nth [of es] by (auto simp: lookup_versions_def find_None_iff)
next
  case (Some v)
  then show ?thesis using mk_versions_nth [of es] by (simp add: lookup_versions_def)
qed

theorem binary_search_suffices_witness:
  "lookup_versions (mk_versions [price 1 10, price 2 20]) 12 =
     map_option v_Event (version_search (mk_versions [price 1 10, price 2 20]) 12 0 1)"
  using binary_search_suffices [of "[price 1 10, price 2 20]" 12] by (simp add: in_order_def price_def)

end
