(* ===== verification/Memory_State.thy ===== *)
theory Memory_State
  imports Stream_Types
begin

text \<open>
  The in-memory state backend, \<open>pkg/state/memory.go\<close>, and the contract of \<open>stream.StateBackend\<close> as a
  locale. The data map is \<open>None\<close> once \<open>Close\<close> has set it to nil; a write to it then panics. \<open>Get\<close> of an
  expired key starts a goroutine that deletes the key some time later: the keys to be deleted are part of the
  state and \<open>run_pending\<close> is a step of that goroutine. \<open>encoding/json\<close> is given by \<open>marshal\<close> and \<open>unmarshal\<close> on
  maps from strings to bytes, with the serialised form as a type parameter.
\<close>

section \<open>The backend\<close>

type_synonym bytes = "8 word list"

record valueWithTTL =
  vt_data :: bytes
  expiryTime :: gtime

record MemoryStateConfig =
  TTLEnabled :: bool
  DefaultTTL :: duration

definition DefaultMemoryConfig :: MemoryStateConfig where
  "DefaultMemoryConfig = \<lparr>TTLEnabled = False, DefaultTTL = 0\<rparr>"

record MemoryStateBackend =
  mb_data :: "(string \<rightharpoonup> valueWithTTL) option"
  ttlEnabled :: bool
  defaultTTL :: duration
  getCount :: i64
  putCount :: i64
  deleteCount :: i64
  pending :: "string list"

datatype mb_error = NilMapPanic | DeserializeError

definition NewMemoryStateBackend :: "MemoryStateConfig option \<Rightarrow> MemoryStateBackend" where
  "NewMemoryStateBackend config =
     (let c = (case config of None \<Rightarrow> DefaultMemoryConfig | Some c \<Rightarrow> c)
      in \<lparr>mb_data = Some Map.empty, ttlEnabled = TTLEnabled c, defaultTTL = DefaultTTL c,
          getCount = 0, putCount = 0, deleteCount = 0, pending = []\<rparr>)"

definition mb_map :: "MemoryStateBackend \<Rightarrow> (string \<rightharpoonup> valueWithTTL)" where
  "mb_map m = (case mb_data m of None \<Rightarrow> Map.empty | Some d \<Rightarrow> d)"

definition is_expired :: "gtime \<Rightarrow> valueWithTTL \<Rightarrow> bool" where
  "is_expired now value \<longleftrightarrow> \<not> time_IsZero (expiryTime value) \<and> time_After now (expiryTime value)"

definition mb_Get :: "gtime \<Rightarrow> string \<Rightarrow> MemoryStateBackend \<Rightarrow> bytes option \<times> MemoryStateBackend" where
  "mb_Get now key m =
     (case mb_map m key of
        None \<Rightarrow> (None, m)
      | Some value \<Rightarrow>
          if ttlEnabled m \<and> is_expired now value then (None, m\<lparr>pending := pending m @ [key]\<rparr>)
          else (Some (vt_data value), m\<lparr>getCount := getCount m + 1\<rparr>))"

definition PutWithTTL :: "gtime \<Rightarrow> string \<Rightarrow> bytes \<Rightarrow> duration \<Rightarrow> MemoryStateBackend \<Rightarrow> mb_error + MemoryStateBackend" where
  "PutWithTTL now key value ttl m =
     (let entry = \<lparr>vt_data = value, expiryTime = (if ttlEnabled m \<and> 0 < ttl then time_Add now ttl else zero_time)\<rparr>
      in case mb_data m of
           None \<Rightarrow> Inl NilMapPanic
         | Some d \<Rightarrow> Inr (m\<lparr>mb_data := Some (d(key \<mapsto> entry)), putCount := putCount m + 1\<rparr>))"

definition mb_Put :: "gtime \<Rightarrow> string \<Rightarrow> bytes \<Rightarrow> MemoryStateBackend \<Rightarrow> mb_error + MemoryStateBackend" where
  "mb_Put now key value m = PutWithTTL now key value (defaultTTL m) m"

definition mb_Delete :: "string \<Rightarrow> MemoryStateBackend \<Rightarrow> MemoryStateBackend" where
  "mb_Delete key m =
     m\<lparr>mb_data := map_option (\<lambda>d. d(key := None)) (mb_data m), deleteCount := deleteCount m + 1\<rparr>"

text \<open>The goroutine that \<open>Get\<close> started with \<open>go m.Delete(key)\<close>.\<close>

definition run_pending :: "MemoryStateBackend \<Rightarrow> MemoryStateBackend" where
  "run_pending m = (case pending m of [] \<Rightarrow> m | key # rest \<Rightarrow> mb_Delete key (m\<lparr>pending := rest\<rparr>))"

definition snapshot_map :: "gtime \<Rightarrow> MemoryStateBackend \<Rightarrow> (string \<rightharpoonup> bytes)" where
  "snapshot_map now m = (\<lambda>key. case mb_map m key of
     None \<Rightarrow> None
   | Some value \<Rightarrow> if ttlEnabled m \<and> is_expired now value then None else Some (vt_data value))"

definition mb_Snapshot :: "((string \<rightharpoonup> bytes) \<Rightarrow> 'd) \<Rightarrow> gtime \<Rightarrow> MemoryStateBackend \<Rightarrow> 'd" where
  "mb_Snapshot marshal now m = marshal (snapshot_map now m)"

definition mb_Restore :: "('d \<Rightarrow> (string \<rightharpoonup> bytes) option) \<Rightarrow> 'd \<Rightarrow> MemoryStateBackend \<Rightarrow> mb_error + MemoryStateBackend" where
  "mb_Restore unmarshal data m =
     (case unmarshal data of
        None \<Rightarrow> Inl DeserializeError
      | Some snapshot \<Rightarrow>
          Inr (m\<lparr>mb_data := Some (\<lambda>key. map_option (\<lambda>value. \<lparr>vt_data = value, expiryTime = zero_time\<rparr>) (snapshot key))\<rparr>))"

text \<open>One tick of \<open>cleanupExpired\<close>; deleting from a nil map does nothing.\<close>

definition cleanupExpired :: "gtime \<Rightarrow> MemoryStateBackend \<Rightarrow> MemoryStateBackend" where
  "cleanupExpired now m =
     m\<lparr>mb_data := map_option (\<lambda>d key. case d key of None \<Rightarrow> None
        | Some value \<Rightarrow> if is_expired now value then None else Some value) (mb_data m)\<rparr>"

definition mb_Size :: "MemoryStateBackend \<Rightarrow> nat" where
  "mb_Size m = len_map (mb_map m)"

record mb_metrics =
  met_gets :: i64
  met_puts :: i64
  met_deletes :: i64
  met_keys :: i64

definition mb_GetMetrics :: "MemoryStateBackend \<Rightarrow> mb_metrics" where
  "mb_GetMetrics m = \<lparr>met_gets = getCount m, met_puts = putCount m, met_deletes = deleteCount m, met_keys = of_nat (mb_Size m)\<rparr>"

definition mb_Clear :: "MemoryStateBackend \<Rightarrow> MemoryStateBackend" where
  "mb_Clear m = m\<lparr>mb_data := Some Map.empty\<rparr>"

definition mb_Close :: "MemoryStateBackend \<Rightarrow> MemoryStateBackend" where
  "mb_Close m = m\<lparr>mb_data := None\<rparr>"

section \<open>The contract of a state backend\<close>

text \<open>
  \<open>view t s\<close> is the map a client sees at time \<open>t\<close>. A put at \<open>now\<close> is seen while it is \<open>fresh\<close>, a delete hides
  the key, and the backend's own housekeeping at \<open>now\<close> hides nothing that is seen from \<open>now\<close> on.
\<close>

datatype backend_op = PutOp gtime string bytes | DeleteOp string | TickOp gtime

fun about :: "string \<Rightarrow> backend_op \<Rightarrow> bool" where
  "about k (PutOp now j v) \<longleftrightarrow> j = k" | "about k (DeleteOp j) \<longleftrightarrow> j = k" | "about k (TickOp now) \<longleftrightarrow> False"

fun at_or_before :: "gtime \<Rightarrow> backend_op \<Rightarrow> bool" where
  "at_or_before t (PutOp now j v) \<longleftrightarrow> True" | "at_or_before t (DeleteOp j) \<longleftrightarrow> True" | "at_or_before t (TickOp now) \<longleftrightarrow> now \<le> t"

locale state_backend =
  fixes good :: "'s \<Rightarrow> bool"
    and view :: "gtime \<Rightarrow> 's \<Rightarrow> string \<Rightarrow> bytes option"
    and fresh :: "gtime \<Rightarrow> gtime \<Rightarrow> bool"
    and perform :: "backend_op \<Rightarrow> 's \<Rightarrow> 's"
  assumes good_perform: "good s \<Longrightarrow> good (perform op s)"
    and put_view: "good s \<Longrightarrow> view t (perform (PutOp now k v) s) j =
          (if j = k then (if fresh now t then Some v else None) else view t s j)"
    and delete_view: "good s \<Longrightarrow> view t (perform (DeleteOp k) s) j = (if j = k then None else view t s j)"
    and tick_view: "good s \<Longrightarrow> now \<le> t \<Longrightarrow> view t (perform (TickOp now) s) = view t s"
begin

text \<open>The last operation on a key decides what is seen of it.\<close>

definition last_write :: "gtime \<Rightarrow> backend_op list \<Rightarrow> string \<Rightarrow> bytes option \<Rightarrow> bytes option" where
  "last_write t ops k initial =
     (case filter (about k) ops of
        [] \<Rightarrow> initial
      | os \<Rightarrow> (case last os of PutOp now j v \<Rightarrow> if fresh now t then Some v else None | _ \<Rightarrow> None))"

lemma run_view:
  "good s \<Longrightarrow> list_all (at_or_before t) ops \<Longrightarrow>
     good (fold perform ops s) \<and> view t (fold perform ops s) k = last_write t ops k (view t s k)"
proof (induction ops rule: rev_induct)
  case (snoc op ops)
  then have IH: "good (fold perform ops s)" "view t (fold perform ops s) k = last_write t ops k (view t s k)" by auto
  show ?case
    using snoc.prems(2) IH
    by (cases op) (auto simp: good_perform put_view delete_view tick_view last_write_def split: list.splits)
qed (simp add: last_write_def)

end

definition mb_view :: "gtime \<Rightarrow> MemoryStateBackend \<Rightarrow> string \<Rightarrow> bytes option" where
  "mb_view t m = snapshot_map t m"

definition mb_fresh :: "bool \<Rightarrow> duration \<Rightarrow> gtime \<Rightarrow> gtime \<Rightarrow> bool" where
  "mb_fresh enabled ttl now t \<longleftrightarrow> \<not> enabled \<or> ttl \<le> 0 \<or> now + ttl = 0 \<or> t \<le> now + ttl"

fun mb_perform :: "backend_op \<Rightarrow> MemoryStateBackend \<Rightarrow> MemoryStateBackend" where
  "mb_perform (PutOp now k v) m = (case mb_Put now k v m of Inr m' \<Rightarrow> m' | Inl e \<Rightarrow> m)"
| "mb_perform (DeleteOp k) m = mb_Delete k m"
| "mb_perform (TickOp now) m = cleanupExpired now m"

definition mb_good :: "bool \<Rightarrow> duration \<Rightarrow> MemoryStateBackend \<Rightarrow> bool" where
  "mb_good enabled ttl m \<longleftrightarrow> mb_data m \<noteq> None \<and> ttlEnabled m = enabled \<and> defaultTTL m = ttl \<and>
     (enabled \<or> (\<forall>k v. mb_map m k = Some v \<longrightarrow> expiryTime v = 0))"

interpretation mb: state_backend "mb_good enabled ttl" mb_view "mb_fresh enabled ttl" mb_perform for enabled ttl
proof
  fix s op
  assume "mb_good enabled ttl s"
  then show "mb_good enabled ttl (mb_perform op s)"
    by (cases op) (auto simp: mb_good_def mb_Put_def PutWithTTL_def mb_Delete_def cleanupExpired_def mb_map_def gotime
        split: option.splits if_splits)
next
  fix s t now k v j
  assume "mb_good enabled ttl s"
  then show "mb_view t (mb_perform (PutOp now k v) s) j =
      (if j = k then (if mb_fresh enabled ttl now t then Some v else None) else mb_view t s j)"
    by (auto simp: mb_good_def mb_view_def snapshot_map_def mb_Put_def PutWithTTL_def mb_map_def mb_fresh_def
        is_expired_def gotime split: option.splits)
next
  fix s t k j
  assume "mb_good enabled ttl s"
  then show "mb_view t (mb_perform (DeleteOp k) s) j = (if j = k then None else mb_view t s j)"
    by (auto simp: mb_good_def mb_view_def snapshot_map_def mb_Delete_def mb_map_def split: option.splits)
next
  fix s and now t :: gtime
  assume good: "mb_good enabled ttl s" and "now \<le> t"
  then have "is_expired now v \<Longrightarrow> is_expired t v" for v by (auto simp: is_expired_def gotime)
  moreover have "enabled \<or> \<not> is_expired now v" if "mb_map s k = Some v" for k v
    using that good by (auto simp: mb_good_def is_expired_def gotime)
  ultimately show "mb_view t (mb_perform (TickOp now) s) = mb_view t s"
    using good by (fastforce simp: mb_good_def mb_view_def snapshot_map_def cleanupExpired_def mb_map_def fun_eq_iff
        split: option.splits)
qed

section \<open>Properties\<close>

lemma mb_Get_view: "fst (mb_Get t k m) = mb_view t m k"
  by (simp add: mb_Get_def mb_view_def snapshot_map_def split: option.splits)

lemma mb_Get_keeps: "mb_view t (snd (mb_Get now k m)) = mb_view t m"
  by (auto simp: mb_Get_def mb_view_def snapshot_map_def mb_map_def fun_eq_iff split: option.splits)

lemma mb_new_good: "mb_good (TTLEnabled c) (DefaultTTL c) (NewMemoryStateBackend (Some c))"
  by (simp add: mb_good_def NewMemoryStateBackend_def mb_map_def)

text \<open>C35: After any sequence of puts, deletes and cleanup ticks on a new backend, \<open>Get\<close> returns the value of
  the last put of the key if no delete followed it and its time to live, when enabled and positive, has not
  passed; ticks up to that time never hide a live value, and \<open>Get\<close> itself changes no answer.\<close>

theorem memory_backend_last_write:
  assumes "list_all (at_or_before t) ops"
  shows "let m = fold mb_perform ops (NewMemoryStateBackend (Some c)) in
    fst (mb_Get t k m) =
      (case filter (about k) ops of
         [] \<Rightarrow> None
       | os \<Rightarrow> (case last os of
                 PutOp now j v \<Rightarrow> if mb_fresh (TTLEnabled c) (DefaultTTL c) now t then Some v else None
               | _ \<Rightarrow> None)) \<and>
    fst (mb_Get t' k (snd (mb_Get t j m))) = fst (mb_Get t' k m)"
proof -
  have "mb_view t (NewMemoryStateBackend (Some c)) k = None"
    by (simp add: mb_view_def snapshot_map_def NewMemoryStateBackend_def mb_map_def)
  then show ?thesis
    using mb.run_view [OF mb_new_good assms, of c k]
    by (simp add: mb_Get_view mb_Get_keeps mb.last_write_def Let_def cong: list.case_cong backend_op.case_cong)
qed

theorem memory_backend_last_write_witness:
  "fst (mb_Get 50 ''k'' (fold mb_perform [PutOp 1 ''k'' [1], PutOp 2 ''k'' [2], TickOp 40, PutOp 3 ''j'' [3]]
      (NewMemoryStateBackend (Some \<lparr>TTLEnabled = True, DefaultTTL = 100\<rparr>)))) = Some [2]"
  using memory_backend_last_write [of 50 "[PutOp 1 ''k'' [1], PutOp 2 ''k'' [2], TickOp 40, PutOp 3 ''j'' [3]]"
      "\<lparr>TTLEnabled = True, DefaultTTL = 100\<rparr>" "''k''" 50 "''k''"]
  by (simp add: mb_fresh_def Let_def)

text \<open>Restoring a snapshot gives a backend in which exactly the keys live at the time of the snapshot are
  seen, with their values; but their expiry times are not part of the snapshot, so they are seen at every
  later time, however short their remaining time to live was.\<close>

theorem snapshot_restore_roundtrip:
  assumes "unmarshal (marshal (snapshot_map now m)) = Some (snapshot_map now m)"
  shows "\<exists>m'. mb_Restore unmarshal (mb_Snapshot marshal now m) target = Inr m' \<and>
    (\<forall>t k. fst (mb_Get t k m') = fst (mb_Get now k m))"
  using assms
  by (auto simp: mb_Restore_def mb_Snapshot_def mb_Get_view mb_view_def)
    (auto simp: snapshot_map_def mb_map_def is_expired_def gotime split: option.splits)

theorem snapshot_restore_roundtrip_witness:
  "\<exists>m'. mb_Restore Some (mb_Snapshot id 5 (mb_perform (PutOp 1 ''k'' [7]) (NewMemoryStateBackend
        (Some \<lparr>TTLEnabled = True, DefaultTTL = 10\<rparr>)))) (NewMemoryStateBackend None) = Inr m' \<and>
     fst (mb_Get 1000 ''k'' m') = Some [7]"
proof -
  let ?m = "mb_perform (PutOp 1 ''k'' [7]) (NewMemoryStateBackend (Some \<lparr>TTLEnabled = True, DefaultTTL = 10\<rparr>))"
  obtain m' where "mb_Restore Some (mb_Snapshot id 5 ?m) (NewMemoryStateBackend None) = Inr m'"
    "\<forall>t k. fst (mb_Get t k m') = fst (mb_Get 5 k ?m)"
    using snapshot_restore_roundtrip [of Some id 5 ?m "NewMemoryStateBackend None"] by auto
  moreover have "fst (mb_Get 5 ''k'' ?m) = Some [7]"
    by (simp add: mb_Get_def mb_Put_def PutWithTTL_def NewMemoryStateBackend_def mb_map_def is_expired_def gotime)
  ultimately show ?thesis by auto
qed

text \<open>The deferred delete loses an update: a \<open>Get\<close> that finds a key expired starts a goroutine to delete
  it; when the key is put anew before that goroutine runs, it deletes the new value.\<close>

theorem deferred_delete_loses_put:
  "let m0 = mb_perform (PutOp 1 ''k'' [1]) (NewMemoryStateBackend (Some \<lparr>TTLEnabled = True, DefaultTTL = 10\<rparr>));
       (r1, m1) = mb_Get 20 ''k'' m0;
       m2 = mb_perform (PutOp 21 ''k'' [2]) m1;
       m3 = run_pending m2
   in r1 = None \<and> fst (mb_Get 22 ''k'' m2) = Some [2] \<and> fst (mb_Get 22 ''k'' m3) = None"
  by (simp add: mb_Get_def mb_Put_def PutWithTTL_def NewMemoryStateBackend_def mb_map_def is_expired_def gotime
      run_pending_def mb_Delete_def Let_def)

end
