(* ===== verification/Dead_Letters.thy ===== *)
theory Dead_Letters
  imports Stream_Types
begin

text \<open>
  Dead letter queues, \<open>pkg/errors/dlq.go\<close>: the in-memory queue with its size limit, the file and null
  queues, which keep nothing, and the manager that counts what passes through a queue. The counters of the
  manager are \<open>int64\<close> in the source and unbounded here. The contract of \<open>DeadLetterQueue\<close> is a locale, and
  the manager's statistics are proved against it.
\<close>

section \<open>Failed events and queues\<close>

record 'v FailedEvent =
  fe_Key :: string
  fe_Value :: 'v
  fe_EventTime :: gtime
  fe_Headers :: "string \<rightharpoonup> string"
  fe_Offset :: int
  fe_Partition :: int
  FailureReason :: string
  FailureCategory :: string
  OperatorName :: string
  FailureTime :: gtime
  RetryCount :: int
  StackTrace :: string
  fe_Metadata :: "string \<rightharpoonup> string"

datatype dlq_error = EventNotFound string int | MarshalError

record 'v InMemoryDLQ =
  dlq_events :: "'v FailedEvent list"
  maxSize :: int

definition NewInMemoryDLQ :: "int \<Rightarrow> 'v InMemoryDLQ" where
  "NewInMemoryDLQ n = \<lparr>dlq_events = [], maxSize = n\<rparr>"

definition mem_Write :: "'v FailedEvent \<Rightarrow> 'v InMemoryDLQ \<Rightarrow> 'v InMemoryDLQ" where
  "mem_Write event dlq =
     (let events = (if 0 < maxSize dlq \<and> maxSize dlq \<le> int (length (dlq_events dlq))
                    then drop 1 (dlq_events dlq) else dlq_events dlq)
      in dlq\<lparr>dlq_events := events @ [event]\<rparr>)"

definition mem_Read :: "int \<Rightarrow> 'v InMemoryDLQ \<Rightarrow> 'v FailedEvent list" where
  "mem_Read limit dlq =
     (let n = (if limit \<le> 0 \<or> int (length (dlq_events dlq)) < limit then length (dlq_events dlq) else nat limit)
      in take n (dlq_events dlq))"

text \<open>The loop of \<open>Delete\<close>: the first event with the key and the offset is cut out.\<close>

fun delete_loop :: "string \<Rightarrow> int \<Rightarrow> 'v FailedEvent list \<Rightarrow> 'v FailedEvent list option" where
  "delete_loop key offset [] = None"
| "delete_loop key offset (event # events) =
     (if fe_Key event = key \<and> fe_Offset event = offset then Some events
      else map_option ((#) event) (delete_loop key offset events))"

definition mem_Delete :: "string \<Rightarrow> int \<Rightarrow> 'v InMemoryDLQ \<Rightarrow> dlq_error + 'v InMemoryDLQ" where
  "mem_Delete key offset dlq =
     (case delete_loop key offset (dlq_events dlq) of
        None \<Rightarrow> Inl (EventNotFound key offset)
      | Some events \<Rightarrow> Inr (dlq\<lparr>dlq_events := events\<rparr>))"

definition mem_Count :: "'v InMemoryDLQ \<Rightarrow> int" where
  "mem_Count dlq = int (length (dlq_events dlq))"

definition mem_Close :: "'v InMemoryDLQ \<Rightarrow> 'v InMemoryDLQ" where
  "mem_Close dlq = dlq\<lparr>dlq_events := []\<rparr>"

definition mem_GetAll :: "'v InMemoryDLQ \<Rightarrow> 'v FailedEvent list" where
  "mem_GetAll dlq = dlq_events dlq"

text \<open>The file queue marshals the event and drops the bytes; \<open>marshal\<close> fails for values JSON cannot
  represent.\<close>

record FileDLQ =
  directory :: string

definition NewFileDLQ :: "string \<Rightarrow> FileDLQ" where
  "NewFileDLQ dir = \<lparr>directory = dir\<rparr>"

definition file_Write :: "('v FailedEvent \<Rightarrow> 'd option) \<Rightarrow> 'v FailedEvent \<Rightarrow> FileDLQ \<Rightarrow> dlq_error + FileDLQ" where
  "file_Write marshal event dlq = (case marshal event of None \<Rightarrow> Inl MarshalError | Some data \<Rightarrow> Inr dlq)"

definition file_Read :: "int \<Rightarrow> FileDLQ \<Rightarrow> 'v FailedEvent list" where "file_Read limit dlq = []"
definition file_Delete :: "string \<Rightarrow> int \<Rightarrow> FileDLQ \<Rightarrow> dlq_error + FileDLQ" where "file_Delete key offset dlq = Inr dlq"
definition file_Count :: "FileDLQ \<Rightarrow> int" where "file_Count dlq = 0"

section \<open>A queue behind the interface\<close>

datatype 'v DeadLetterQueue = Mem "'v InMemoryDLQ" | File FileDLQ | Null

fun dlq_Write :: "('v FailedEvent \<Rightarrow> 'd option) \<Rightarrow> 'v FailedEvent \<Rightarrow> 'v DeadLetterQueue \<Rightarrow> dlq_error + 'v DeadLetterQueue" where
  "dlq_Write marshal event (Mem q) = Inr (Mem (mem_Write event q))"
| "dlq_Write marshal event (File q) = map_sum id File (file_Write marshal event q)"
| "dlq_Write marshal event Null = Inr Null"

fun dlq_Read :: "int \<Rightarrow> 'v DeadLetterQueue \<Rightarrow> 'v FailedEvent list" where
  "dlq_Read limit (Mem q) = mem_Read limit q"
| "dlq_Read limit (File q) = file_Read limit q"
| "dlq_Read limit Null = []"

fun dlq_Delete :: "string \<Rightarrow> int \<Rightarrow> 'v DeadLetterQueue \<Rightarrow> dlq_error + 'v DeadLetterQueue" where
  "dlq_Delete key offset (Mem q) = map_sum id Mem (mem_Delete key offset q)"
| "dlq_Delete key offset (File q) = map_sum id File (file_Delete key offset q)"
| "dlq_Delete key offset Null = Inr Null"

fun dlq_Count :: "'v DeadLetterQueue \<Rightarrow> int" where
  "dlq_Count (Mem q) = mem_Count q"
| "dlq_Count (File q) = file_Count q"
| "dlq_Count Null = 0"

fun dlq_Close :: "'v DeadLetterQueue \<Rightarrow> 'v DeadLetterQueue" where
  "dlq_Close (Mem q) = Mem (mem_Close q)"
| "dlq_Close q = q"

section \<open>The manager\<close>

record DLQStats =
  TotalWritten :: int
  TotalRead :: int
  TotalDeleted :: int
  CurrentSize :: int
  OldestEvent :: "gtime option"
  NewestEvent :: "gtime option"

record 'v DLQManager =
  mgr_dlq :: "'v DeadLetterQueue"
  mgr_stats :: DLQStats

definition NewDLQManager :: "'v DeadLetterQueue \<Rightarrow> 'v DLQManager" where
  "NewDLQManager dlq = \<lparr>mgr_dlq = dlq, mgr_stats =
     \<lparr>TotalWritten = 0, TotalRead = 0, TotalDeleted = 0, CurrentSize = 0, OldestEvent = None, NewestEvent = None\<rparr>\<rparr>"

definition record_write :: "'v FailedEvent \<Rightarrow> DLQStats \<Rightarrow> DLQStats" where
  "record_write event st =
     st\<lparr>TotalWritten := TotalWritten st + 1, CurrentSize := CurrentSize st + 1,
        NewestEvent := (case NewestEvent st of
            None \<Rightarrow> Some (FailureTime event)
          | Some t \<Rightarrow> if time_After (FailureTime event) t then Some (FailureTime event) else Some t),
        OldestEvent := (case OldestEvent st of
            None \<Rightarrow> Some (FailureTime event)
          | Some t \<Rightarrow> if time_Before (FailureTime event) t then Some (FailureTime event) else Some t)\<rparr>"

definition mgr_Write :: "('v FailedEvent \<Rightarrow> 'd option) \<Rightarrow> 'v FailedEvent \<Rightarrow> 'v DLQManager \<Rightarrow> dlq_error option \<times> 'v DLQManager" where
  "mgr_Write marshal event m =
     (case dlq_Write marshal event (mgr_dlq m) of
        Inl e \<Rightarrow> (Some e, m)
      | Inr q \<Rightarrow> (None, m\<lparr>mgr_dlq := q, mgr_stats := record_write event (mgr_stats m)\<rparr>))"

definition mgr_Read :: "int \<Rightarrow> 'v DLQManager \<Rightarrow> 'v FailedEvent list \<times> 'v DLQManager" where
  "mgr_Read limit m =
     (let events = dlq_Read limit (mgr_dlq m)
      in (events, m\<lparr>mgr_stats := (mgr_stats m)\<lparr>TotalRead := TotalRead (mgr_stats m) + int (length events)\<rparr>\<rparr>))"

definition mgr_Delete :: "string \<Rightarrow> int \<Rightarrow> 'v DLQManager \<Rightarrow> dlq_error option \<times> 'v DLQManager" where
  "mgr_Delete key offset m =
     (case dlq_Delete key offset (mgr_dlq m) of
        Inl e \<Rightarrow> (Some e, m)
      | Inr q \<Rightarrow>
          (let st = mgr_stats m
           in (None, m\<lparr>mgr_dlq := q, mgr_stats := st\<lparr>TotalDeleted := TotalDeleted st + 1,
                 CurrentSize := (if 0 < CurrentSize st then CurrentSize st - 1 else CurrentSize st)\<rparr>\<rparr>)))"

definition mgr_Count :: "'v DLQManager \<Rightarrow> int" where
  "mgr_Count m = dlq_Count (mgr_dlq m)"

definition mgr_Stats :: "'v DLQManager \<Rightarrow> DLQStats" where
  "mgr_Stats m = mgr_stats m"

definition mgr_Close :: "'v DLQManager \<Rightarrow> 'v DLQManager" where
  "mgr_Close m = m\<lparr>mgr_dlq := dlq_Close (mgr_dlq m)\<rparr>"

section \<open>The contract of an unbounded queue\<close>

text \<open>A queue that keeps what is written until it is deleted. Under this contract the manager's counters are
  exact.\<close>

locale lossless_queue =
  fixes holds :: "'v DeadLetterQueue \<Rightarrow> bool"
    and marshal :: "'v FailedEvent \<Rightarrow> 'd option"
  assumes write_holds: "holds q \<Longrightarrow> dlq_Write marshal e q = Inr q' \<Longrightarrow> holds q'"
    and write_count: "holds q \<Longrightarrow> dlq_Write marshal e q = Inr q' \<Longrightarrow> dlq_Count q' = dlq_Count q + 1"
    and delete_holds: "holds q \<Longrightarrow> dlq_Delete k off q = Inr q' \<Longrightarrow> holds q'"
    and delete_count: "holds q \<Longrightarrow> dlq_Delete k off q = Inr q' \<Longrightarrow> dlq_Count q' = dlq_Count q - 1"
    and count_nonneg: "holds q \<Longrightarrow> 0 \<le> dlq_Count q"
begin

definition exact :: "'v DLQManager \<Rightarrow> bool" where
  "exact m \<longleftrightarrow> holds (mgr_dlq m) \<and> CurrentSize (mgr_stats m) = dlq_Count (mgr_dlq m) \<and>
     CurrentSize (mgr_stats m) = TotalWritten (mgr_stats m) - TotalDeleted (mgr_stats m)"

lemma exact_write: "exact m \<Longrightarrow> exact (snd (mgr_Write marshal e m))"
  using write_holds [of "mgr_dlq m" e] write_count [of "mgr_dlq m" e]
  by (auto simp: exact_def mgr_Write_def record_write_def split: sum.splits)

lemma exact_delete: "exact m \<Longrightarrow> exact (snd (mgr_Delete k off m))"
proof (cases "dlq_Delete k off (mgr_dlq m)")
  case (Inr q)
  assume ex: "exact m"
  then have h: "holds (mgr_dlq m)" by (simp add: exact_def)
  have "0 \<le> dlq_Count q" "dlq_Count q = dlq_Count (mgr_dlq m) - 1" "holds q"
    using delete_holds [OF h Inr] delete_count [OF h Inr] count_nonneg [of q] by simp_all
  then show ?thesis using ex Inr by (auto simp: exact_def mgr_Delete_def Let_def)
qed (simp add: mgr_Delete_def)

lemma exact_read: "exact m \<Longrightarrow> exact (snd (mgr_Read limit m))"
  by (simp add: exact_def mgr_Read_def Let_def)

end

lemma delete_loop_eq:
  defines "hit \<equiv> \<lambda>k off e. fe_Key e = k \<and> fe_Offset e = off"
  shows "delete_loop k off es =
    (case dropWhile (\<lambda>e. \<not> hit k off e) es of
       [] \<Rightarrow> None
     | e # post \<Rightarrow> Some (takeWhile (\<lambda>e. \<not> hit k off e) es @ post))"
  unfolding hit_def by (induction es) (auto simp del: dropWhile_eq_Nil_conv split: list.splits)

lemma delete_loop_length: "delete_loop k off es = Some es' \<Longrightarrow> length es = Suc (length es')"
  by (induction es arbitrary: es') (auto split: if_splits)

definition unbounded :: "'v DeadLetterQueue \<Rightarrow> bool" where
  "unbounded q \<longleftrightarrow> (case q of Mem d \<Rightarrow> maxSize d \<le> 0 | _ \<Rightarrow> False)"

interpretation unbounded_memory: lossless_queue unbounded marshal for marshal
proof
  fix q q' e
  assume "unbounded q" "dlq_Write marshal e q = Inr q'"
  then show "unbounded q'" "dlq_Count q' = dlq_Count q + 1"
    by (auto simp: unbounded_def mem_Write_def mem_Count_def Let_def split: DeadLetterQueue.splits)
next
  fix q :: "'a DeadLetterQueue" and q' k off
  assume "unbounded q" "dlq_Delete k off q = Inr q'"
  then obtain d es where "q = Mem d" "maxSize d \<le> 0" "delete_loop k off (dlq_events d) = Some es" "q' = Mem (d\<lparr>dlq_events := es\<rparr>)"
    by (auto simp: unbounded_def mem_Delete_def split: DeadLetterQueue.splits option.splits)
  then show "unbounded q'" "dlq_Count q' = dlq_Count q - 1"
    using delete_loop_length [of k off "dlq_events d" es] by (auto simp: unbounded_def mem_Count_def)
next
  fix q :: "'a DeadLetterQueue"
  assume "unbounded q"
  then show "0 \<le> dlq_Count q" by (auto simp: unbounded_def mem_Count_def split: DeadLetterQueue.splits)
qed

section \<open>Properties\<close>

lemma mem_writes:
  "maxSize (fold mem_Write es (NewInMemoryDLQ n)) = n \<and>
   dlq_events (fold mem_Write es (NewInMemoryDLQ n)) = (if n \<le> 0 then es else drop (length es - nat n) es)"
proof (induction es rule: rev_induct)
  case (snoc e es)
  show ?case
  proof (cases "0 < n \<and> nat n \<le> length es")
    case True
    have "drop 1 (drop (length es - nat n) es) @ [e] = drop (Suc (length es) - nat n) (es @ [e])"
      using True by (auto simp: Suc_diff_le)
    then show ?thesis using snoc True by (simp add: mem_Write_def Let_def le_nat_iff)
  next
    case False
    then show ?thesis using snoc by (auto simp: mem_Write_def Let_def)
  qed
qed (simp add: NewInMemoryDLQ_def)

text \<open>The in-memory queue holds the written events in order, with a positive limit the most recent ones up
  to that many; \<open>Read\<close> returns a prefix of at most \<open>limit\<close> of them (all for a non-positive limit), and
  \<open>Delete\<close> cuts out the first event with the given key and offset and leaves the others, or reports that
  there is none.\<close>

theorem dead_letters_kept:
  "let q = fold mem_Write es (NewInMemoryDLQ n); kept = (if n \<le> 0 then es else drop (length es - nat n) es) in
   mem_GetAll q = kept \<and> mem_Count q = int (length kept) \<and>
   mem_Read limit q = (if limit \<le> 0 then kept else take (nat limit) kept) \<and>
   mem_Delete k off q =
     (case dropWhile (\<lambda>e. \<not> (fe_Key e = k \<and> fe_Offset e = off)) kept of
        [] \<Rightarrow> Inl (EventNotFound k off)
      | e # post \<Rightarrow> Inr \<lparr>dlq_events = takeWhile (\<lambda>e. \<not> (fe_Key e = k \<and> fe_Offset e = off)) kept @ post, maxSize = n\<rparr>)"
proof -
  define q where "q = fold mem_Write es (NewInMemoryDLQ n)"
  have q: "dlq_events q = (if n \<le> 0 then es else drop (length es - nat n) es)" "maxSize q = n"
    using mem_writes [of es n] by (simp_all add: q_def)
  have del: "mem_Delete k off q =
     (case dropWhile (\<lambda>e. \<not> (fe_Key e = k \<and> fe_Offset e = off)) (dlq_events q) of
        [] \<Rightarrow> Inl (EventNotFound k off)
      | e # post \<Rightarrow> Inr \<lparr>dlq_events = takeWhile (\<lambda>e. \<not> (fe_Key e = k \<and> fe_Offset e = off)) (dlq_events q) @ post, maxSize = n\<rparr>)"
    using q(2) by (cases "dropWhile (\<lambda>e. \<not> (fe_Key e = k \<and> fe_Offset e = off)) (dlq_events q)")
      (simp_all add: mem_Delete_def delete_loop_eq del: dropWhile_eq_Nil_conv de_Morgan_conj)
  have "mem_Read limit q = (if limit \<le> 0 then dlq_events q else take (nat limit) (dlq_events q))"
    by (auto simp: mem_Read_def Let_def)
  then show ?thesis
    using del unfolding q_def [symmetric] q(1) [symmetric] by (simp add: mem_GetAll_def mem_Count_def Let_def)
qed

inductive mgr_step :: "('v FailedEvent \<Rightarrow> 'd option) \<Rightarrow> 'v DLQManager \<Rightarrow> 'v DLQManager \<Rightarrow> bool" for marshal where
  mgr_write: "mgr_step marshal m (snd (mgr_Write marshal e m))"
| mgr_read: "mgr_step marshal m (snd (mgr_Read limit m))"
| mgr_delete: "mgr_step marshal m (snd (mgr_Delete k off m))"

interpretation mgr: stepping "\<lambda>m. \<exists>n \<le> 0. m = NewDLQManager (Mem (NewInMemoryDLQ n))" "mgr_step marshal"
  "unbounded_memory.exact" for marshal
proof
  show "unbounded_memory.exact m" if "\<exists>n \<le> 0. m = NewDLQManager (Mem (NewInMemoryDLQ n))" for m
    using that by (auto simp: unbounded_memory.exact_def NewDLQManager_def NewInMemoryDLQ_def unbounded_def mem_Count_def)
  show "unbounded_memory.exact t" if "unbounded_memory.exact s" "mgr_step marshal s t" for s t
    using that(2,1) unbounded_memory.exact_write unbounded_memory.exact_delete unbounded_memory.exact_read
    by (auto elim!: mgr_step.cases)
qed

text \<open>A manager of an unbounded in-memory queue keeps exact statistics through any sequence of writes, reads
  and deletes: its current size is the number of queued events and the difference of the events written and
  deleted.\<close>

theorem dlq_statistics_exact:
  assumes "reach (\<lambda>m. \<exists>n \<le> 0. m = NewDLQManager (Mem (NewInMemoryDLQ n))) (mgr_step marshal) m"
  shows "CurrentSize (mgr_Stats m) = mgr_Count m \<and>
    CurrentSize (mgr_Stats m) = TotalWritten (mgr_Stats m) - TotalDeleted (mgr_Stats m)"
  using mgr.inv_reach [OF assms] by (simp add: unbounded_memory.exact_def mgr_Stats_def mgr_Count_def)

definition letter :: "int \<Rightarrow> unit FailedEvent" where
  "letter off = \<lparr>fe_Key = ''k'', fe_Value = (), fe_EventTime = 0, fe_Headers = Map.empty, fe_Offset = off, fe_Partition = 0,
     FailureReason = ''x'', FailureCategory = ''fatal'', OperatorName = ''op'', FailureTime = off, RetryCount = 0,
     StackTrace = [], fe_Metadata = Map.empty\<rparr>"

theorem dlq_statistics_exact_witness:
  "CurrentSize (mgr_Stats (snd (mgr_Write Some (letter 1) (NewDLQManager (Mem (NewInMemoryDLQ 0)))))) = 1 \<and>
   mgr_Count (snd (mgr_Write Some (letter 1) (NewDLQManager (Mem (NewInMemoryDLQ 0))))) = 1"
proof -
  let ?m = "snd (mgr_Write Some (letter 1) (NewDLQManager (Mem (NewInMemoryDLQ 0))))"
  have "reach (\<lambda>m. \<exists>n \<le> 0. m = NewDLQManager (Mem (NewInMemoryDLQ n))) (mgr_step Some) ?m"
    by (rule reach.next_step, rule reach.start) (auto intro: mgr_step.mgr_write)
  from dlq_statistics_exact [OF this] show ?thesis
    by (simp add: mgr_Write_def NewDLQManager_def mgr_Stats_def record_write_def)
qed

text \<open>With a limit the size reported by the manager drifts: evicted events stay counted.\<close>

theorem dlq_statistics_drift:
  "let m = snd (mgr_Write Some (letter 2) (snd (mgr_Write Some (letter 1) (NewDLQManager (Mem (NewInMemoryDLQ 1))))))
   in CurrentSize (mgr_Stats m) = 2 \<and> mgr_Count m = 1"
  by (simp add: mgr_Write_def NewDLQManager_def NewInMemoryDLQ_def mem_Write_def mem_Count_def mgr_Stats_def mgr_Count_def
      record_write_def Let_def)

end
