(* ===== verification/Side_Outputs.thy ===== *)
theory Side_Outputs
  imports Error_Classes
begin

text \<open>
  Side outputs, \<open>pkg/errors/side_output.go\<close>: a collector maps tags to channels and routes events to them.
  Channels are shared by reference, so they live in a store from addresses to buffers. A send on a closed
  channel and closing a closed channel panic (\<open>Inl\<close>); a blocking send that can neither proceed nor be cancelled
  has no result (\<open>None\<close>). In a \<open>select\<close> with several ready cases Go picks one at random, which the argument
  \<open>take_ctx\<close> decides.
\<close>

section \<open>Channels\<close>

record 'a channel =
  ch_buf :: "'a list"
  ch_cap :: nat
  ch_closed :: bool

datatype so_panic = SendOnClosed | CloseClosed

definition make_chan :: "nat \<Rightarrow> 'a channel" where
  "make_chan n = \<lparr>ch_buf = [], ch_cap = n, ch_closed = False\<rparr>"

definition has_room :: "'a channel \<Rightarrow> bool" where
  "has_room ch \<longleftrightarrow> length (ch_buf ch) < ch_cap ch"

section \<open>The collector\<close>

definition ErrorSideOutput :: string where "ErrorSideOutput = ''errors''"
definition LateEventSideOutput :: string where "LateEventSideOutput = ''late-events''"
definition FilteredSideOutput :: string where "FilteredSideOutput = ''filtered''"

record 'v SideOutputEvent =
  so_Key :: string
  so_Value :: 'v
  so_EventTime :: gtime
  so_Headers :: "string \<rightharpoonup> string"
  so_Offset :: int
  so_Partition :: int
  so_Error :: "err option"
  so_ErrorCategory :: ErrorCategory
  so_OperatorName :: string
  so_RetryCount :: int
  so_Tag :: string

record 'v SideOutputCollector =
  so_outputs :: "string \<rightharpoonup> nat"
  so_enabled :: bool
  so_chans :: "nat \<rightharpoonup> 'v SideOutputEvent channel"
  so_next :: nat

definition NewSideOutputCollector :: "'v SideOutputCollector" where
  "NewSideOutputCollector = \<lparr>so_outputs = Map.empty, so_enabled = True, so_chans = Map.empty, so_next = 0\<rparr>"

definition RegisterSideOutput :: "string \<Rightarrow> nat \<Rightarrow> 'v SideOutputCollector \<Rightarrow> 'v SideOutputCollector" where
  "RegisterSideOutput tag ch c = c\<lparr>so_outputs := (so_outputs c)(tag \<mapsto> ch)\<rparr>"

text \<open>\<open>make(chan *SideOutputEvent, n)\<close> followed by the registration.\<close>

definition register_new :: "string \<Rightarrow> nat \<Rightarrow> 'v SideOutputCollector \<Rightarrow> 'v SideOutputCollector" where
  "register_new tag n c =
     RegisterSideOutput tag (so_next c)
       (c\<lparr>so_chans := (so_chans c)(so_next c \<mapsto> make_chan n), so_next := Suc (so_next c)\<rparr>)"

definition close_chan :: "nat \<Rightarrow> 'v SideOutputCollector \<Rightarrow> so_panic + 'v SideOutputCollector" where
  "close_chan a c =
     (case so_chans c a of
        None \<Rightarrow> Inl CloseClosed
      | Some ch \<Rightarrow> if ch_closed ch then Inl CloseClosed
                   else Inr (c\<lparr>so_chans := (so_chans c)(a \<mapsto> ch\<lparr>ch_closed := True\<rparr>)\<rparr>))"

definition UnregisterSideOutput :: "string \<Rightarrow> 'v SideOutputCollector \<Rightarrow> so_panic + 'v SideOutputCollector" where
  "UnregisterSideOutput tag c =
     (case so_outputs c tag of
        None \<Rightarrow> Inr c
      | Some a \<Rightarrow> map_sum id (\<lambda>c'. c'\<lparr>so_outputs := (so_outputs c')(tag := None)\<rparr>) (close_chan a c))"

text \<open>The two halves of \<open>Emit\<close>: the lookup under the read lock and the non-blocking send after it.\<close>

definition emit_lookup :: "'v SideOutputEvent \<Rightarrow> 'v SideOutputCollector \<Rightarrow> nat option" where
  "emit_lookup event c = (if \<not> so_enabled c then None else so_outputs c (so_Tag event))"

definition emit_send :: "bool \<Rightarrow> 'v SideOutputEvent \<Rightarrow> nat \<Rightarrow> 'v SideOutputCollector \<Rightarrow> so_panic + 'v SideOutputCollector" where
  "emit_send take_ctx event a c =
     (case so_chans c a of
        None \<Rightarrow> Inr c
      | Some ch \<Rightarrow>
          if take_ctx then Inr c
          else if ch_closed ch then Inl SendOnClosed
          else if has_room ch
          then Inr (c\<lparr>so_chans := (so_chans c)(a \<mapsto> ch\<lparr>ch_buf := ch_buf ch @ [event]\<rparr>)\<rparr>)
          else Inr c)"

definition Emit :: "bool \<Rightarrow> 'v SideOutputEvent \<Rightarrow> 'v SideOutputCollector \<Rightarrow> so_panic + 'v SideOutputCollector" where
  "Emit take_ctx event c =
     (case emit_lookup event c of None \<Rightarrow> Inr c | Some a \<Rightarrow> emit_send take_ctx event a c)"

text \<open>\<open>EmitBlocking\<close>: \<open>ctx\<close> is the error of a cancelled context. The result carries the returned error.\<close>

definition EmitBlocking ::
  "err option \<Rightarrow> bool \<Rightarrow> 'v SideOutputEvent \<Rightarrow> 'v SideOutputCollector \<Rightarrow> (so_panic + err option \<times> 'v SideOutputCollector) option" where
  "EmitBlocking ctx take_ctx event c =
     (if \<not> so_enabled c then Some (Inr (None, c))
      else case so_outputs c (so_Tag event) of
        None \<Rightarrow> Some (Inr (None, c))
      | Some a \<Rightarrow>
          (case so_chans c a of
             None \<Rightarrow> if ctx = None then None else Some (Inr (ctx, c))
           | Some ch \<Rightarrow>
               if ctx \<noteq> None \<and> (take_ctx \<or> \<not> ch_closed ch \<and> \<not> has_room ch) then Some (Inr (ctx, c))
               else if ch_closed ch then Some (Inl SendOnClosed)
               else if has_room ch
               then Some (Inr (None, c\<lparr>so_chans := (so_chans c)(a \<mapsto> ch\<lparr>ch_buf := ch_buf ch @ [event]\<rparr>)\<rparr>))
               else None))"

definition so_GetChannel :: "string \<Rightarrow> 'v SideOutputCollector \<Rightarrow> nat option" where
  "so_GetChannel tag c = so_outputs c tag"

definition HasSideOutput :: "string \<Rightarrow> 'v SideOutputCollector \<Rightarrow> bool" where
  "HasSideOutput tag c \<longleftrightarrow> so_outputs c tag \<noteq> None"

fun close_loop :: "string list \<Rightarrow> 'v SideOutputCollector \<Rightarrow> so_panic + 'v SideOutputCollector" where
  "close_loop [] c = Inr c"
| "close_loop (tag # tags) c = (case UnregisterSideOutput tag c of Inl p \<Rightarrow> Inl p | Inr c' \<Rightarrow> close_loop tags c')"

definition so_Close :: "string list \<Rightarrow> 'v SideOutputCollector \<Rightarrow> so_panic + 'v SideOutputCollector" where
  "so_Close tags c = map_sum id (\<lambda>c'. c'\<lparr>so_enabled := False\<rparr>) (close_loop tags c)"

definition so_Enable :: "'v SideOutputCollector \<Rightarrow> 'v SideOutputCollector" where "so_Enable c = c\<lparr>so_enabled := True\<rparr>"
definition so_Disable :: "'v SideOutputCollector \<Rightarrow> 'v SideOutputCollector" where "so_Disable c = c\<lparr>so_enabled := False\<rparr>"
definition so_IsEnabled :: "'v SideOutputCollector \<Rightarrow> bool" where "so_IsEnabled c = so_enabled c"

definition so_Tags :: "string list \<Rightarrow> 'v SideOutputCollector \<Rightarrow> string list" where
  "so_Tags tags c = filter (\<lambda>t. so_outputs c t \<noteq> None) tags"

text \<open>\<open>StartSideOutputProcessor\<close> up to the start of its goroutine, and one receive of that goroutine: the
  event handed to the handler, if any.\<close>

definition StartSideOutputProcessor :: "string \<Rightarrow> 'v SideOutputCollector \<Rightarrow> nat \<times> 'v SideOutputCollector" where
  "StartSideOutputProcessor tag c =
     (case so_GetChannel tag c of
        Some a \<Rightarrow> (a, c)
      | None \<Rightarrow> (so_next c, register_new tag 1000 c))"

definition process_one :: "nat \<Rightarrow> 'v SideOutputCollector \<Rightarrow> ('v SideOutputEvent option \<times> 'v SideOutputCollector) option" where
  "process_one a c =
     (case so_chans c a of
        None \<Rightarrow> None
      | Some ch \<Rightarrow>
          (case ch_buf ch of
             e # es \<Rightarrow> Some (Some e, c\<lparr>so_chans := (so_chans c)(a \<mapsto> ch\<lparr>ch_buf := es\<rparr>)\<rparr>)
           | [] \<Rightarrow> if ch_closed ch then Some (None, c) else None))"

record SideOutputConfig =
  EnableErrorSideOutput :: bool
  EnableLateSideOutput :: bool
  EnableFilteredSideOutput :: bool
  ErrorChannelSize :: nat
  LateChannelSize :: nat
  FilteredChannelSize :: nat

definition DefaultSideOutputConfig :: SideOutputConfig where
  "DefaultSideOutputConfig =
     \<lparr>EnableErrorSideOutput = True, EnableLateSideOutput = False, EnableFilteredSideOutput = False,
      ErrorChannelSize = 1000, LateChannelSize = 1000, FilteredChannelSize = 1000\<rparr>"

definition CreateSideOutputCollector :: "SideOutputConfig \<Rightarrow> 'v SideOutputCollector" where
  "CreateSideOutputCollector config =
     (let c0 = NewSideOutputCollector;
          c1 = (if EnableErrorSideOutput config then register_new ErrorSideOutput (ErrorChannelSize config) c0 else c0);
          c2 = (if EnableLateSideOutput config then register_new LateEventSideOutput (LateChannelSize config) c1 else c1);
          c3 = (if EnableFilteredSideOutput config then register_new FilteredSideOutput (FilteredChannelSize config) c2 else c2)
      in c3)"

section \<open>Statistics\<close>

type_synonym SideOutputStats = "string \<rightharpoonup> i64"

definition stats_Increment :: "string \<Rightarrow> SideOutputStats \<Rightarrow> SideOutputStats" where
  "stats_Increment tag s = s(tag \<mapsto> get_or s tag 0 + 1)"

definition stats_Get :: "string \<Rightarrow> SideOutputStats \<Rightarrow> i64" where
  "stats_Get tag s = get_or s tag 0"

definition stats_Reset :: "SideOutputStats \<Rightarrow> SideOutputStats" where
  "stats_Reset s = (\<lambda>tag. map_option (\<lambda>_. 0) (s tag))"

section \<open>Properties\<close>

text \<open>Emitting a list of events, none of them lost to a cancelled context.\<close>

fun emit_all :: "'v SideOutputEvent list \<Rightarrow> 'v SideOutputCollector \<Rightarrow> so_panic + 'v SideOutputCollector" where
  "emit_all [] c = Inr c"
| "emit_all (e # es) c = (case Emit False e c of Inl p \<Rightarrow> Inl p | Inr c' \<Rightarrow> emit_all es c')"

text \<open>Every registered channel exists, is open and within its capacity; no two tags share a channel.\<close>

definition so_inv :: "'v SideOutputCollector \<Rightarrow> bool" where
  "so_inv c \<longleftrightarrow> (\<forall>tag a. so_outputs c tag = Some a \<longrightarrow>
       a < so_next c \<and> (\<exists>ch. so_chans c a = Some ch \<and> \<not> ch_closed ch \<and> length (ch_buf ch) \<le> ch_cap ch)) \<and>
     (\<forall>t1 t2 a. so_outputs c t1 = Some a \<longrightarrow> so_outputs c t2 = Some a \<longrightarrow> t1 = t2)"

definition buffered :: "'v SideOutputCollector \<Rightarrow> string \<Rightarrow> 'v SideOutputEvent list" where
  "buffered c tag = (case so_outputs c tag of None \<Rightarrow> [] | Some a \<Rightarrow> (case so_chans c a of None \<Rightarrow> [] | Some ch \<Rightarrow> ch_buf ch))"

definition capacity_of :: "'v SideOutputCollector \<Rightarrow> string \<Rightarrow> nat" where
  "capacity_of c tag = (case so_outputs c tag of None \<Rightarrow> 0 | Some a \<Rightarrow> (case so_chans c a of None \<Rightarrow> 0 | Some ch \<Rightarrow> ch_cap ch))"

lemma so_inv_register: "so_inv c \<Longrightarrow> so_inv (register_new tag n c)"
  by (fastforce simp: so_inv_def register_new_def RegisterSideOutput_def make_chan_def)

lemma so_inv_create: "so_inv (CreateSideOutputCollector config)"
  by (auto simp: CreateSideOutputCollector_def Let_def intro!: so_inv_register)
    (simp_all add: so_inv_def NewSideOutputCollector_def)

lemma so_inv_channel:
  assumes "so_inv c" "so_outputs c tag = Some a"
  obtains ch where "so_chans c a = Some ch" "\<not> ch_closed ch" "length (ch_buf ch) \<le> ch_cap ch"
  using assms unfolding so_inv_def by blast

lemma buffered_within: "so_inv c \<Longrightarrow> length (buffered c tag) \<le> capacity_of c tag"
  by (cases "so_outputs c tag") (auto simp: buffered_def capacity_of_def elim: so_inv_channel)

lemma Emit_step:
  assumes "so_inv c" "so_enabled c"
  shows "\<exists>c'. Emit False e c = Inr c' \<and> so_inv c' \<and> so_enabled c' \<and> so_outputs c' = so_outputs c \<and>
    capacity_of c' = capacity_of c \<and>
    (\<forall>tag. buffered c' tag = (if tag = so_Tag e then take (capacity_of c tag) (buffered c tag @ [e]) else buffered c tag))"
proof (cases "so_outputs c (so_Tag e)")
  case None
  then show ?thesis using assms
    by (auto simp: Emit_def emit_lookup_def buffered_def capacity_of_def)
next
  case (Some a)
  then obtain ch where ch: "so_chans c a = Some ch" "\<not> ch_closed ch" "length (ch_buf ch) \<le> ch_cap ch"
    using assms(1) so_inv_channel by blast
  have inj: "so_outputs c tag = Some a \<longleftrightarrow> tag = so_Tag e" for tag
    using assms(1) Some by (auto simp: so_inv_def)
  show ?thesis
  proof (cases "has_room ch")
    case True
    define c' where "c' = c\<lparr>so_chans := (so_chans c)(a \<mapsto> ch\<lparr>ch_buf := ch_buf ch @ [e]\<rparr>)\<rparr>"
    have run: "Emit False e c = Inr c'"
      using assms(2) Some ch True by (simp add: Emit_def emit_lookup_def emit_send_def c'_def)
    have inv: "so_inv c'" using assms(1) ch True by (fastforce simp: so_inv_def c'_def has_room_def)
    have cap: "capacity_of c' = capacity_of c"
      using ch by (auto simp: capacity_of_def c'_def fun_eq_iff split: option.splits)
    have buf: "buffered c' tag = (if tag = so_Tag e then take (capacity_of c tag) (buffered c tag @ [e]) else buffered c tag)" for tag
      using inj [of tag] Some ch True by (auto simp: buffered_def capacity_of_def c'_def has_room_def split: option.splits)
    show ?thesis using run inv cap buf assms(2) by (auto simp: c'_def)
  next
    case False
    then show ?thesis
      using assms Some ch by (auto simp: Emit_def emit_lookup_def emit_send_def has_room_def buffered_def capacity_of_def)
  qed
qed

text \<open>Emitting a sequence of events to an enabled collector whose tags have channels of their own never
  panics, and each channel then holds the events of its tag in order up to its capacity: the events that come
  when it is full are dropped, and events of a tag that is not registered are dropped too.\<close>

theorem side_outputs_routed:
  assumes "so_inv c" "so_enabled c"
  shows "\<exists>c'. emit_all es c = Inr c' \<and> so_inv c' \<and>
    (\<forall>tag. buffered c' tag = take (capacity_of c tag) (buffered c tag @ filter (\<lambda>e. so_Tag e = tag) es))"
proof -
  have "\<exists>c'. emit_all es c = Inr c' \<and> so_inv c' \<and> capacity_of c' = capacity_of c \<and>
    (\<forall>tag. buffered c' tag = take (capacity_of c tag) (buffered c tag @ filter (\<lambda>e. so_Tag e = tag) es))"
    using assms
  proof (induction es arbitrary: c)
    case Nil
    then show ?case by (simp add: buffered_within)
  next
    case (Cons e es)
    obtain c1 where c1: "Emit False e c = Inr c1" "so_inv c1" "so_enabled c1" "capacity_of c1 = capacity_of c"
      "\<forall>tag. buffered c1 tag = (if tag = so_Tag e then take (capacity_of c tag) (buffered c tag @ [e]) else buffered c tag)"
      using Emit_step [OF Cons.prems, of e] by blast
    obtain c2 where c2: "emit_all es c1 = Inr c2" "so_inv c2" "capacity_of c2 = capacity_of c1"
      "\<forall>tag. buffered c2 tag = take (capacity_of c1 tag) (buffered c1 tag @ filter (\<lambda>e. so_Tag e = tag) es)"
      using Cons.IH [OF c1(2,3)] by blast
    have "take n (take n (xs @ [e]) @ ys) = take n (xs @ e # ys)" for n xs ys
      by (cases "n \<le> length xs") (auto simp: take_Cons' min_def)
    then have "buffered c2 tag = take (capacity_of c tag) (buffered c tag @ filter (\<lambda>e. so_Tag e = tag) (e # es))" for tag
      using c2(4) c1(4,5) by auto
    then show ?case using c1 c2 by auto
  qed
  then show ?thesis by blast
qed

definition so_sample :: "int \<Rightarrow> unit SideOutputEvent" where
  "so_sample off = \<lparr>so_Key = ''k'', so_Value = (), so_EventTime = 0, so_Headers = Map.empty, so_Offset = off, so_Partition = 0,
     so_Error = Some IoEOF, so_ErrorCategory = CategoryRetriable, so_OperatorName = ''op'', so_RetryCount = 0, so_Tag = ''errors''\<rparr>"

lemma so_sample_Tag [simp]: "so_Tag (so_sample n) = ''errors''"
  by (simp add: so_sample_def)

theorem side_outputs_routed_witness:
  "\<exists>c'. emit_all [so_sample 1, so_sample 2] (CreateSideOutputCollector (DefaultSideOutputConfig\<lparr>ErrorChannelSize := 1\<rparr>)) = Inr c' \<and>
     buffered c' ''errors'' = [so_sample 1]"
proof -
  let ?c = "CreateSideOutputCollector (DefaultSideOutputConfig\<lparr>ErrorChannelSize := 1\<rparr>) :: unit SideOutputCollector"
  have c: "so_enabled ?c" "capacity_of ?c ''errors'' = 1" "buffered ?c ''errors'' = []"
    by (simp_all add: CreateSideOutputCollector_def DefaultSideOutputConfig_def register_new_def RegisterSideOutput_def
        NewSideOutputCollector_def capacity_of_def buffered_def make_chan_def ErrorSideOutput_def Let_def)
  obtain c' where c': "emit_all [so_sample 1, so_sample 2] ?c = Inr c'"
      "\<forall>tag. buffered c' tag = take (capacity_of ?c tag) (buffered ?c tag @ filter (\<lambda>e. so_Tag e = tag) [so_sample 1, so_sample 2])"
    using side_outputs_routed [OF so_inv_create c(1), of "[so_sample 1, so_sample 2]"] by blast
  then have "buffered c' ''errors'' = [so_sample 1]" using c by simp
  with c'(1) show ?thesis by blast
qed

text \<open>\<open>Emit\<close> gives up the lock between the lookup and the send. When the tag is unregistered in between, the
  channel is closed and the send panics.\<close>

theorem emit_unregister_race:
  "let c = CreateSideOutputCollector DefaultSideOutputConfig; e = so_sample 1 in
   \<exists>a c'. emit_lookup e c = Some a \<and> UnregisterSideOutput ''errors'' c = Inr c' \<and> emit_send False e a c' = Inl SendOnClosed"
  by (simp add: CreateSideOutputCollector_def DefaultSideOutputConfig_def register_new_def RegisterSideOutput_def
      NewSideOutputCollector_def make_chan_def ErrorSideOutput_def Let_def emit_lookup_def so_sample_def
      UnregisterSideOutput_def close_chan_def emit_send_def)

end
