(* ===== verification/Operators.thy ===== *)
theory Operators
  imports Side_Outputs
begin

text \<open>
  The stream operators of \<open>pkg/stream/operators.go\<close> and the instrumented wrapper of
  \<open>pkg/stream/instrumentation.go\<close>. Events are passed by pointer and some operators change the event they
  are given (\<open>KeyByOperator\<close>, \<open>TimestampAssignerOperator\<close>), so events live in a store, a list indexed by
  addresses to which new events are appended. A payload is an \<open>interface{}\<close>: \<open>None\<close> is nil.

  Functions of the user are parameters. A transformation may change its argument and return it, or return new
  events: its result gives the argument's contents after the call and, for every returned pointer, whether it
  is the argument or a new event. Predicates, selectors and aggregate functions only read.

  The second half gives the operators a semantics on values, without a store, and an interface locale
  \<open>event_operator\<close> in which a pointer-level operator refines a value-level one; it is interpreted on the
  operators of this theory.
\<close>

section \<open>The store of events\<close>

type_synonym addr = nat
type_synonym 'v sevent = "'v option event"
type_synonym 'v heap = "'v sevent list"

definition alloc :: "'v sevent \<Rightarrow> 'v heap \<Rightarrow> addr \<times> 'v heap" where
  "alloc e h = (length h, h @ [e])"

datatype 'v returned = Argument | Fresh "'v sevent"

text \<open>The pointers a user function returned, the new events among them allocated.\<close>

fun alloc_returned :: "addr \<Rightarrow> 'v returned list \<Rightarrow> 'v heap \<Rightarrow> addr list \<times> 'v heap" where
  "alloc_returned a [] h = ([], h)"
| "alloc_returned a (Argument # rs) h = (let (as, h') = alloc_returned a rs h in (a # as, h'))"
| "alloc_returned a (Fresh e # rs) h =
     (let (b, h1) = alloc e h; (as, h') = alloc_returned a rs h1 in (b # as, h'))"

datatype fault = Failed err | Panicked

type_synonym 'v TransformFunc = "'v sevent \<Rightarrow> 'v sevent \<times> (err + 'v returned option)"
type_synonym 'v FlatMapFunc = "'v sevent \<Rightarrow> 'v sevent \<times> (err + 'v returned list)"
type_synonym 'v FilterFunc = "'v sevent \<Rightarrow> bool"
type_synonym 'v KeySelector = "'v sevent \<Rightarrow> string"
type_synonym 'v TimestampExtractor = "'v sevent \<Rightarrow> gtime"
type_synonym 'v AggregateFunc = "'v option \<Rightarrow> 'v sevent \<Rightarrow> err + 'v option"
type_synonym 'v ReduceFunc = "'v option \<Rightarrow> 'v option \<Rightarrow> err + 'v option"
type_synonym 'v keyed_state = "(string \<rightharpoonup> 'v option) option"

text \<open>\<open>fmt.Errorf("what: %w", err)\<close>.\<close>

definition errorf :: "string \<Rightarrow> err \<Rightarrow> err" where
  "errorf what e = Wrapped (what @ '': '' @ err_Error e) e"

section \<open>The operators\<close>

text \<open>The keyed state of an aggregate or reduce operator is \<open>None\<close> once \<open>Close\<close> has set it to nil. The
  branches of a branch operator are listed in the order in which its loop visits them.\<close>

datatype 'v Operator =
    MapOperator "'v TransformFunc"
  | FilterOperator "'v FilterFunc"
  | FlatMapOperator "'v FlatMapFunc"
  | KeyByOperator "'v KeySelector"
  | AggregateOperator "'v AggregateFunc" "'v keyed_state"
  | ReduceOperator "'v ReduceFunc" "'v keyed_state"
  | BranchOperator "(string \<times> 'v FilterFunc) list" "string \<rightharpoonup> addr channel"
  | UnionOperator
  | TimestampAssignerOperator "'v TimestampExtractor"
  | InstrumentedOperator string string "'v Operator"

definition NewAggregateOperator :: "'v AggregateFunc \<Rightarrow> 'v Operator" where
  "NewAggregateOperator f = AggregateOperator f (Some Map.empty)"

definition NewReduceOperator :: "'v ReduceFunc \<Rightarrow> 'v Operator" where
  "NewReduceOperator f = ReduceOperator f (Some Map.empty)"

definition NewBranchOperator :: "(string \<times> 'v FilterFunc) list \<Rightarrow> 'v Operator" where
  "NewBranchOperator branches =
     BranchOperator branches (\<lambda>name. if name \<in> set (map fst branches) then Some (make_chan 100) else None)"

definition NewInstrumentedOperator :: "'v Operator \<Rightarrow> string \<Rightarrow> string \<Rightarrow> 'v Operator" where
  "NewInstrumentedOperator op name ty = InstrumentedOperator name ty op"

definition map_Process :: "'v TransformFunc \<Rightarrow> addr \<Rightarrow> 'v heap \<Rightarrow> (fault + addr list) \<times> 'v heap" where
  "map_Process f a h =
     (let (e, r) = f (h ! a); h1 = h[a := e] in
      case r of
        Inl er \<Rightarrow> (Inl (Failed (errorf ''map transform error'' er)), h1)
      | Inr None \<Rightarrow> (Inr [], h1)
      | Inr (Some x) \<Rightarrow> (let (as, h2) = alloc_returned a [x] h1 in (Inr as, h2)))"

definition filter_Process :: "'v FilterFunc \<Rightarrow> addr \<Rightarrow> 'v heap \<Rightarrow> (fault + addr list) \<times> 'v heap" where
  "filter_Process p a h = (if p (h ! a) then (Inr [a], h) else (Inr [], h))"

definition flatmap_Process :: "'v FlatMapFunc \<Rightarrow> addr \<Rightarrow> 'v heap \<Rightarrow> (fault + addr list) \<times> 'v heap" where
  "flatmap_Process f a h =
     (let (e, r) = f (h ! a); h1 = h[a := e] in
      case r of
        Inl er \<Rightarrow> (Inl (Failed (errorf ''flatmap transform error'' er)), h1)
      | Inr rs \<Rightarrow> (let (as, h2) = alloc_returned a rs h1 in (Inr as, h2)))"

definition keyby_Process :: "'v KeySelector \<Rightarrow> addr \<Rightarrow> 'v heap \<Rightarrow> (fault + addr list) \<times> 'v heap" where
  "keyby_Process sel a h = (Inr [a], h[a := (h ! a)\<lparr>Key := sel (h ! a)\<rparr>])"

definition timestamp_Process :: "'v TimestampExtractor \<Rightarrow> addr \<Rightarrow> 'v heap \<Rightarrow> (fault + addr list) \<times> 'v heap" where
  "timestamp_Process ext a h = (Inr [a], h[a := (h ! a)\<lparr>EventTime := ext (h ! a)\<rparr>])"

definition state_key :: "'v sevent \<Rightarrow> string" where
  "state_key e = (if Key e = '''' then ''default'' else Key e)"

definition result_event :: "'v option \<Rightarrow> 'v sevent \<Rightarrow> 'v sevent" where
  "result_event v e = mk_event (state_key e) v (EventTime e) (Headers e)"

definition aggregate_Process ::
  "'v AggregateFunc \<Rightarrow> 'v keyed_state \<Rightarrow> addr \<Rightarrow> 'v heap \<Rightarrow> (fault + addr list) \<times> 'v keyed_state \<times> 'v heap" where
  "aggregate_Process f st a h =
     (let e = h ! a; key = state_key e;
          accumulator = (case st of None \<Rightarrow> None | Some m \<Rightarrow> get_or m key None) in
      case f accumulator e of
        Inl er \<Rightarrow> (Inl (Failed (errorf ''aggregate error'' er)), st, h)
      | Inr newAccumulator \<Rightarrow>
          (case st of
             None \<Rightarrow> (Inl Panicked, st, h)
           | Some m \<Rightarrow>
               (let (b, h') = alloc (result_event newAccumulator e) h
                in (Inr [b], Some (m(key \<mapsto> newAccumulator)), h'))))"

definition reduce_Process ::
  "'v ReduceFunc \<Rightarrow> 'v keyed_state \<Rightarrow> addr \<Rightarrow> 'v heap \<Rightarrow> (fault + addr list) \<times> 'v keyed_state \<times> 'v heap" where
  "reduce_Process f st a h =
     (let e = h ! a; key = state_key e;
          currentValue = (case st of None \<Rightarrow> None | Some m \<Rightarrow> get_or m key None) in
      if currentValue = None then
        (case st of
           None \<Rightarrow> (Inl Panicked, st, h)
         | Some m \<Rightarrow> (Inr [a], Some (m(key \<mapsto> Value e)), h))
      else case f currentValue (Value e) of
        Inl er \<Rightarrow> (Inl (Failed (errorf ''reduce error'' er)), st, h)
      | Inr newValue \<Rightarrow>
          (case st of
             None \<Rightarrow> (Inl Panicked, st, h)
           | Some m \<Rightarrow>
               (let (b, h') = alloc (result_event newValue e) h
                in (Inr [b], Some (m(key \<mapsto> newValue)), h'))))"

text \<open>The loop over the branches: a non-blocking send to the channel of every branch whose predicate holds.\<close>

fun branch_loop :: "(string \<times> 'v FilterFunc) list \<Rightarrow> 'v sevent \<Rightarrow> addr \<Rightarrow> (string \<rightharpoonup> addr channel) \<Rightarrow> (string \<rightharpoonup> addr channel) option" where
  "branch_loop [] e a outs = Some outs"
| "branch_loop ((name, p) # bs) e a outs =
     (if \<not> p e then branch_loop bs e a outs
      else case outs name of
        None \<Rightarrow> branch_loop bs e a outs
      | Some ch \<Rightarrow>
          if ch_closed ch then None
          else if has_room ch then branch_loop bs e a (outs(name \<mapsto> ch\<lparr>ch_buf := ch_buf ch @ [a]\<rparr>))
          else branch_loop bs e a outs)"

fun op_Process :: "'v Operator \<Rightarrow> addr \<Rightarrow> 'v heap \<Rightarrow> (fault + addr list) \<times> 'v Operator \<times> 'v heap" where
  "op_Process (MapOperator f) a h = (let (r, h') = map_Process f a h in (r, MapOperator f, h'))"
| "op_Process (FilterOperator p) a h = (let (r, h') = filter_Process p a h in (r, FilterOperator p, h'))"
| "op_Process (FlatMapOperator f) a h = (let (r, h') = flatmap_Process f a h in (r, FlatMapOperator f, h'))"
| "op_Process (KeyByOperator sel) a h = (let (r, h') = keyby_Process sel a h in (r, KeyByOperator sel, h'))"
| "op_Process (AggregateOperator f st) a h =
     (let (r, st', h') = aggregate_Process f st a h in (r, AggregateOperator f st', h'))"
| "op_Process (ReduceOperator f st) a h =
     (let (r, st', h') = reduce_Process f st a h in (r, ReduceOperator f st', h'))"
| "op_Process (BranchOperator bs outs) a h =
     (case branch_loop bs (h ! a) a outs of
        None \<Rightarrow> (Inl Panicked, BranchOperator bs outs, h)
      | Some outs' \<Rightarrow> (Inr [a], BranchOperator bs outs', h))"
| "op_Process UnionOperator a h = (Inr [a], UnionOperator, h)"
| "op_Process (TimestampAssignerOperator ext) a h =
     (let (r, h') = timestamp_Process ext a h in (r, TimestampAssignerOperator ext, h'))"
| "op_Process (InstrumentedOperator name ty op) a h =
     (let (r, op', h') = op_Process op a h in (r, InstrumentedOperator name ty op', h'))"

fun close_branches :: "string list \<Rightarrow> (string \<rightharpoonup> addr channel) \<Rightarrow> (string \<rightharpoonup> addr channel) option" where
  "close_branches [] outs = Some outs"
| "close_branches (name # names) outs =
     (case outs name of
        None \<Rightarrow> close_branches names outs
      | Some ch \<Rightarrow> if ch_closed ch then None else close_branches names (outs(name \<mapsto> ch\<lparr>ch_closed := True\<rparr>)))"

text \<open>\<open>Close\<close>; closing the channels of a branch operator a second time panics (\<open>None\<close>).\<close>

fun op_Close :: "'v Operator \<Rightarrow> 'v Operator option" where
  "op_Close (AggregateOperator f st) = Some (AggregateOperator f None)"
| "op_Close (ReduceOperator f st) = Some (ReduceOperator f None)"
| "op_Close (BranchOperator bs outs) = map_option (BranchOperator bs) (close_branches (map fst bs) outs)"
| "op_Close (InstrumentedOperator name ty op) = map_option (InstrumentedOperator name ty) (op_Close op)"
| "op_Close op = Some op"

definition GetOutputStream :: "string \<Rightarrow> (string \<rightharpoonup> addr channel) \<Rightarrow> addr channel option" where
  "GetOutputStream name outs = outs name"

text \<open>\<open>GetState\<close> and \<open>RestoreState\<close> copy the map.\<close>

definition agg_GetState :: "'v keyed_state \<Rightarrow> (string \<rightharpoonup> 'v option)" where
  "agg_GetState st = (case st of None \<Rightarrow> Map.empty | Some m \<Rightarrow> m)"

definition agg_RestoreState :: "(string \<rightharpoonup> 'v option) \<Rightarrow> 'v keyed_state" where
  "agg_RestoreState state = Some state"

section \<open>Semantics on values\<close>

text \<open>What an operator does to the contents of an event, without a store. The channels of a branch operator are
  left out, since they hold pointers.\<close>

fun contents :: "'v sevent \<Rightarrow> 'v returned \<Rightarrow> 'v sevent" where
  "contents e Argument = e"
| "contents e (Fresh x) = x"

fun op_value :: "'v Operator \<Rightarrow> 'v sevent \<Rightarrow> (fault + 'v sevent list) \<times> 'v Operator" where
  "op_value (MapOperator f) e =
     ((case f e of
         (e', Inl er) \<Rightarrow> Inl (Failed (errorf ''map transform error'' er))
       | (e', Inr None) \<Rightarrow> Inr []
       | (e', Inr (Some x)) \<Rightarrow> Inr [contents e' x]), MapOperator f)"
| "op_value (FilterOperator p) e = (Inr (if p e then [e] else []), FilterOperator p)"
| "op_value (FlatMapOperator f) e =
     ((case f e of
         (e', Inl er) \<Rightarrow> Inl (Failed (errorf ''flatmap transform error'' er))
       | (e', Inr rs) \<Rightarrow> Inr (map (contents e') rs)), FlatMapOperator f)"
| "op_value (KeyByOperator sel) e = (Inr [e\<lparr>Key := sel e\<rparr>], KeyByOperator sel)"
| "op_value (AggregateOperator f st) e =
     (case f (get_or (agg_GetState st) (state_key e) None) e of
        Inl er \<Rightarrow> (Inl (Failed (errorf ''aggregate error'' er)), AggregateOperator f st)
      | Inr v \<Rightarrow> (Inr [result_event v e], AggregateOperator f (Some ((agg_GetState st)(state_key e \<mapsto> v)))))"
| "op_value (ReduceOperator f st) e =
     (case get_or (agg_GetState st) (state_key e) None of
        None \<Rightarrow> (Inr [e], ReduceOperator f (Some ((agg_GetState st)(state_key e \<mapsto> Value e))))
      | Some u \<Rightarrow>
          (case f (Some u) (Value e) of
             Inl er \<Rightarrow> (Inl (Failed (errorf ''reduce error'' er)), ReduceOperator f st)
           | Inr v \<Rightarrow> (Inr [result_event v e], ReduceOperator f (Some ((agg_GetState st)(state_key e \<mapsto> v))))))"
| "op_value (BranchOperator bs outs) e = (Inr [e], BranchOperator bs outs)"
| "op_value UnionOperator e = (Inr [e], UnionOperator)"
| "op_value (TimestampAssignerOperator ext) e = (Inr [e\<lparr>EventTime := ext e\<rparr>], TimestampAssignerOperator ext)"
| "op_value (InstrumentedOperator name ty op) e = op_value op e"

fun strip :: "'v Operator \<Rightarrow> 'v Operator" where
  "strip (BranchOperator bs outs) = BranchOperator bs Map.empty"
| "strip (InstrumentedOperator name ty op) = strip op"
| "strip op = op"

text \<open>An operator before its \<open>Close\<close>, whose flat-map function returns its argument at most once.\<close>

fun op_good :: "'v Operator \<Rightarrow> bool" where
  "op_good (FlatMapOperator f) \<longleftrightarrow> (\<forall>e e' rs. f e = (e', Inr rs) \<longrightarrow> length (filter (\<lambda>r. r = Argument) rs) \<le> 1)"
| "op_good (AggregateOperator f st) \<longleftrightarrow> st \<noteq> None"
| "op_good (ReduceOperator f st) \<longleftrightarrow> st \<noteq> None"
| "op_good (BranchOperator bs outs) \<longleftrightarrow> (\<forall>name ch. outs name = Some ch \<longrightarrow> \<not> ch_closed ch)"
| "op_good (InstrumentedOperator name ty op) \<longleftrightarrow> op_good op"
| "op_good op \<longleftrightarrow> True"

section \<open>The interface of an operator\<close>

text \<open>
  \<open>stream.Operator\<close> as the engine uses it. A call changes no event but its argument, returns pointers to its
  argument or to new events, each once, and does to the contents what the value-level operator does.
\<close>

locale event_operator =
  fixes process :: "'o \<Rightarrow> addr \<Rightarrow> 'v heap \<Rightarrow> (fault + addr list) \<times> 'o \<times> 'v heap"
    and vprocess :: "'p \<Rightarrow> 'v sevent \<Rightarrow> (fault + 'v sevent list) \<times> 'p"
    and good :: "'o \<Rightarrow> bool"
    and abs :: "'o \<Rightarrow> 'p"
  assumes good_process: "good op \<Longrightarrow> a < length h \<Longrightarrow> process op a h = (r, op', h') \<Longrightarrow> good op'"
    and refines: "good op \<Longrightarrow> a < length h \<Longrightarrow> process op a h = (r, op', h') \<Longrightarrow>
          vprocess (abs op) (h ! a) = (map_sum id (map ((!) h')) r, abs op')"
    and grows: "good op \<Longrightarrow> a < length h \<Longrightarrow> process op a h = (r, op', h') \<Longrightarrow> length h \<le> length h'"
    and frame: "good op \<Longrightarrow> a < length h \<Longrightarrow> process op a h = (r, op', h') \<Longrightarrow> b < length h \<Longrightarrow> b \<noteq> a \<Longrightarrow> h' ! b = h ! b"
    and results: "good op \<Longrightarrow> a < length h \<Longrightarrow> process op a h = (Inr as, op', h') \<Longrightarrow>
          distinct as \<and> set as \<subseteq> insert a {length h ..< length h'}"

text \<open>What \<open>alloc_returned\<close> leaves alone and what it returns.\<close>

lemma alloc_returned_spec:
  assumes "alloc_returned a rs h = (as, h')" "a < length h"
  shows "length h \<le> length h'" "\<forall>b < length h. h' ! b = h ! b"
    "set as \<subseteq> insert a {length h ..< length h'}"
    "map ((!) h') as = map (contents (h ! a)) rs"
    "length (filter (\<lambda>r. r = Argument) rs) \<le> 1 \<Longrightarrow> distinct as"
proof -
  have "length h \<le> length h' \<and> (\<forall>b < length h. h' ! b = h ! b) \<and> set as \<subseteq> insert a {length h ..< length h'} \<and>
    (a \<in> set as \<longrightarrow> Argument \<in> set rs) \<and>
    map ((!) h') as = map (contents (h ! a)) rs \<and> (length (filter (\<lambda>r. r = Argument) rs) \<le> 1 \<longrightarrow> distinct as)"
    using assms
  proof (induction a rs h arbitrary: as h' rule: alloc_returned.induct)
    case (1 a h)
    then show ?case by simp
  next
    case (2 a rs h)
    obtain bs h1 where 1: "alloc_returned a rs h = (bs, h1)" by (rule prod.exhaust)
    have none: "Argument \<notin> set rs" if "length (filter (\<lambda>r. r = Argument) (Argument # rs)) \<le> 1"
      using that by (auto simp: filter_empty_conv)
    have "as = a # bs" "h' = h1" using 2 1 by auto
    then show ?case using 2(1) [OF 1 2(3)] none 2(3) by auto
  next
    case (3 a e rs h)
    obtain bs h1 where 1: "alloc_returned a rs (h @ [e]) = (bs, h1)" by (rule prod.exhaust)
    have eq: "as = length h # bs" "h' = h1" using 3 1 by (auto simp: alloc_def)
    have IH: "Suc (length h) \<le> length h1" "\<forall>b < Suc (length h). h1 ! b = (h @ [e]) ! b"
      "set bs \<subseteq> insert a {Suc (length h) ..< length h1}" "a \<in> set bs \<longrightarrow> Argument \<in> set rs"
      "map ((!) h1) bs = map (contents (h ! a)) rs"
      "length (filter (\<lambda>r. r = Argument) rs) \<le> 1 \<longrightarrow> distinct bs"
      using 3(1) [of "(length h, h @ [e])" "length h" "h @ [e]" bs h1] 1 3(3) by (auto simp: alloc_def nth_append)
    have "length h \<notin> set bs" using IH(3) 3(3) by auto
    moreover have "\<forall>b < length h. h1 ! b = h ! b" using IH(2) by (auto simp: nth_append)
    moreover have "h1 ! length h = e" using IH(2) by auto
    moreover have "set bs \<subseteq> insert a {length h ..< length h1}" using IH(3) by auto
    ultimately show ?case using IH(1,4-6) 3(3) by (simp add: eq)
  qed
  then show "length h \<le> length h'" "\<forall>b < length h. h' ! b = h ! b"
    "set as \<subseteq> insert a {length h ..< length h'}"
    "map ((!) h') as = map (contents (h ! a)) rs"
    "length (filter (\<lambda>r. r = Argument) rs) \<le> 1 \<Longrightarrow> distinct as" by simp_all
qed

lemma branch_loop_open:
  assumes "\<forall>name ch. outs name = Some ch \<longrightarrow> \<not> ch_closed ch"
  shows "\<exists>outs'. branch_loop bs e a outs = Some outs' \<and> (\<forall>name ch. outs' name = Some ch \<longrightarrow> \<not> ch_closed ch)"
  using assms by (induction bs e a outs rule: branch_loop.induct) (auto split: option.splits)

text \<open>One call of an operator, against the semantics on values.\<close>

definition refines_value :: "'v Operator \<Rightarrow> addr \<Rightarrow> 'v heap \<Rightarrow> (fault + addr list) \<Rightarrow> 'v Operator \<Rightarrow> 'v heap \<Rightarrow> bool" where
  "refines_value op a h r op' h' \<longleftrightarrow>
     op_good op' \<and> op_value (strip op) (h ! a) = (map_sum id (map ((!) h')) r, strip op') \<and> length h \<le> length h' \<and>
     (\<forall>b < length h. b \<noteq> a \<longrightarrow> h' ! b = h ! b) \<and>
     (\<forall>as. r = Inr as \<longrightarrow> distinct as \<and> set as \<subseteq> insert a {length h ..< length h'})"

lemma map_refines:
  assumes "a < length h" "map_Process f a h = (r, h')"
  shows "refines_value (MapOperator f) a h r (MapOperator f) h'"
proof -
  obtain e res where f: "f (h ! a) = (e, res)" by (rule prod.exhaust)
  consider er where "res = Inl er" | "res = Inr None" | x where "res = Inr (Some x)"
    by (metis sum.exhaust option.exhaust)
  then show ?thesis
  proof cases
    case 3
    obtain as h2 where al: "alloc_returned a [x] (h[a := e]) = (as, h2)" by (rule prod.exhaust)
    have "r = Inr as" "h' = h2" using assms f 3 al by (auto simp: map_Process_def)
    then show ?thesis using alloc_returned_spec [OF al] assms(1) f 3
      by (cases x) (auto simp: refines_value_def)
  qed (use assms f in \<open>auto simp: map_Process_def refines_value_def\<close>)
qed

lemma flatmap_refines:
  assumes "op_good (FlatMapOperator f)" "a < length h" "flatmap_Process f a h = (r, h')"
  shows "refines_value (FlatMapOperator f) a h r (FlatMapOperator f) h'"
proof -
  obtain e res where f: "f (h ! a) = (e, res)" by (rule prod.exhaust)
  show ?thesis
  proof (cases res)
    case (Inr rs)
    obtain as h2 where al: "alloc_returned a rs (h[a := e]) = (as, h2)" by (rule prod.exhaust)
    have eq: "r = Inr as" "h' = h2" using assms f Inr al by (auto simp: flatmap_Process_def)
    have "length (filter (\<lambda>r. r = Argument) rs) \<le> 1" using assms(1) f Inr by auto
    then show ?thesis using alloc_returned_spec [OF al] assms(1,2) f Inr eq
      by (auto simp: refines_value_def)
  qed (use assms f in \<open>auto simp: flatmap_Process_def refines_value_def\<close>)
qed

lemma aggregate_refines:
  assumes "st \<noteq> None" "a < length h" "aggregate_Process f st a h = (r, st', h')"
  shows "refines_value (AggregateOperator f st) a h r (AggregateOperator f st') h'"
  using assms
  by (auto simp: refines_value_def aggregate_Process_def agg_GetState_def alloc_def Let_def nth_append split: sum.splits)

lemma reduce_refines:
  assumes "st \<noteq> None" "a < length h" "reduce_Process f st a h = (r, st', h')"
  shows "refines_value (ReduceOperator f st) a h r (ReduceOperator f st') h'"
  using assms
  by (auto simp: refines_value_def reduce_Process_def agg_GetState_def alloc_def Let_def nth_append
      split: sum.splits if_splits)

lemma op_Process_refines:
  assumes "op_good op" "a < length h" "op_Process op a h = (r, op', h')"
  shows "refines_value op a h r op' h'"
  using assms
proof (induction op a h arbitrary: r op' h' rule: op_Process.induct)
  case (1 f a h)
  then show ?case by (auto intro: map_refines split: prod.splits)
next
  case (3 f a h)
  then show ?case by (auto intro!: flatmap_refines split: prod.splits)
next
  case (5 f st a h)
  then show ?case by (auto intro!: aggregate_refines split: prod.splits)
next
  case (6 f st a h)
  then show ?case by (auto intro!: reduce_refines split: prod.splits)
next
  case (7 bs outs a h)
  then show ?case
    using branch_loop_open [of outs bs "h ! a" a] by (auto simp: refines_value_def)
next
  case (10 name ty op a h)
  obtain r1 op1 h1 where 1: "op_Process op a h = (r1, op1, h1)" by (rule prod_cases3)
  then show ?case using 10 by (auto simp: refines_value_def)
qed (auto simp: filter_Process_def keyby_Process_def timestamp_Process_def refines_value_def split: if_splits)

interpretation ops: event_operator op_Process op_value op_good strip
  by unfold_locales (use op_Process_refines in \<open>fastforce simp: refines_value_def\<close>)+

end
