(* ===== verification/Engine.thy ===== *)
theory Engine
  imports Operators Complex_Main
begin

text \<open>
  The stream engine, \<open>pkg/stream/engine.go\<close>: the operator chain of \<open>processEvent\<close>, the writes to the sinks,
  the metrics, and the goroutines that \<open>Start\<close> launches and \<open>Stop\<close> waits for. The engine calls operators and
  sinks through interfaces; \<open>process\<close> and \<open>sink_write\<close> are the methods it calls, and the operators of
  \<open>Operators\<close> are one instance. The \<open>float64\<close> metrics are rational numbers; calls of the Prometheus collector
  and the log are left out.
\<close>

section \<open>Configuration and metrics\<close>

record EngineConfig =
  BufferSize :: int
  MaxConcurrency :: int
  CheckpointInterval :: duration
  WatermarkInterval :: duration
  MetricsInterval :: duration
  EnableBackpressure :: bool
  BackpressureThreshold :: rat
  MetricsAddr :: string
  EnableMetrics :: bool

definition DefaultEngineConfig :: EngineConfig where
  "DefaultEngineConfig =
     \<lparr>BufferSize = 10000, MaxConcurrency = 100, CheckpointInterval = 30 * second, WatermarkInterval = 5 * second,
      MetricsInterval = 10 * second, EnableBackpressure = True, BackpressureThreshold = 8 / 10,
      MetricsAddr = '':9091'', EnableMetrics = True\<rparr>"

record StreamMetrics =
  EventsProcessed :: i64
  EventsFiltered :: i64
  AvgLatencyMs :: rat
  P99LatencyMs :: rat
  CurrentWatermark :: gtime
  LastCheckpointAt :: gtime
  BackpressureCount :: i64

record ('o, 's, 'v) Engine =
  operators :: "'o list"
  sinks :: "'s list"
  sources :: "string list"
  metrics :: StreamMetrics
  config :: EngineConfig
  store :: "'v heap"

definition NewEngine :: "EngineConfig \<Rightarrow> ('o, 's, 'v) Engine" where
  "NewEngine cfg =
     \<lparr>operators = [], sinks = [], sources = [],
      metrics = \<lparr>EventsProcessed = 0, EventsFiltered = 0, AvgLatencyMs = 0, P99LatencyMs = 0,
                 CurrentWatermark = zero_time, LastCheckpointAt = zero_time, BackpressureCount = 0\<rparr>,
      config = cfg, store = []\<rparr>"

definition AddSource :: "string \<Rightarrow> ('o, 's, 'v) Engine \<Rightarrow> ('o, 's, 'v) Engine" where
  "AddSource source e = e\<lparr>sources := sources e @ [source]\<rparr>"

text \<open>\<open>fmt.Sprintf("%T", op)\<close>.\<close>

fun operator_type :: "'v Operator \<Rightarrow> string" where
  "operator_type (MapOperator f) = ''*stream.MapOperator''"
| "operator_type (FilterOperator p) = ''*stream.FilterOperator''"
| "operator_type (FlatMapOperator f) = ''*stream.FlatMapOperator''"
| "operator_type (KeyByOperator sel) = ''*stream.KeyByOperator''"
| "operator_type (AggregateOperator f st) = ''*stream.AggregateOperator''"
| "operator_type (ReduceOperator f st) = ''*stream.ReduceOperator''"
| "operator_type (BranchOperator bs outs) = ''*stream.BranchOperator''"
| "operator_type UnionOperator = ''*stream.UnionOperator''"
| "operator_type (TimestampAssignerOperator ext) = ''*stream.TimestampAssignerOperator''"
| "operator_type (InstrumentedOperator name ty op) = ''*stream.InstrumentedOperator''"

text \<open>The collector exists exactly when metrics are enabled.\<close>

definition AddOperator :: "'v Operator \<Rightarrow> ('v Operator, 's, 'v) Engine \<Rightarrow> ('v Operator, 's, 'v) Engine" where
  "AddOperator op e =
     (if EnableMetrics (config e)
      then e\<lparr>operators := operators e @
             [NewInstrumentedOperator op (''operator-'' @ show_nat (length (operators e))) (operator_type op)]\<rparr>
      else e\<lparr>operators := operators e @ [op]\<rparr>)"

definition AddSink :: "'s \<Rightarrow> ('o, 's, 'v) Engine \<Rightarrow> ('o, 's, 'v) Engine" where
  "AddSink sink e = e\<lparr>sinks := sinks e @ [sink]\<rparr>"

section \<open>Processing an event\<close>

text \<open>The loop of one operator over the current events, then the loop over the operators.\<close>

fun apply_op ::
  "('o \<Rightarrow> addr \<Rightarrow> 'v heap \<Rightarrow> (fault + addr list) \<times> 'o \<times> 'v heap) \<Rightarrow> 'o \<Rightarrow> addr list \<Rightarrow> addr list \<Rightarrow> 'v heap
     \<Rightarrow> (fault + addr list) \<times> 'o \<times> 'v heap" where
  "apply_op process op [] nextEvents h = (Inr nextEvents, op, h)"
| "apply_op process op (evt # events) nextEvents h =
     (case process op evt h of
        (Inl err, op', h') \<Rightarrow> (Inl err, op', h')
      | (Inr results, op', h') \<Rightarrow> apply_op process op' events (nextEvents @ results) h')"

fun apply_chain ::
  "('o \<Rightarrow> addr \<Rightarrow> 'v heap \<Rightarrow> (fault + addr list) \<times> 'o \<times> 'v heap) \<Rightarrow> 'o list \<Rightarrow> addr list \<Rightarrow> 'v heap
     \<Rightarrow> (fault + addr list) \<times> 'o list \<times> 'v heap" where
  "apply_chain process [] events h = (Inr events, [], h)"
| "apply_chain process (op # ops) events h =
     (case apply_op process op events [] h of
        (Inl err, op', h') \<Rightarrow> (Inl err, op' # ops, h')
      | (Inr nextEvents, op', h') \<Rightarrow>
          if nextEvents = [] then (Inr [], op' # ops, h')
          else (case apply_chain process ops nextEvents h' of (r, ops', h'') \<Rightarrow> (r, op' # ops', h'')))"

text \<open>Writing to one sink; the error of a write is logged and the loop goes on.\<close>

definition write_sink :: "('v sevent \<Rightarrow> 's \<Rightarrow> err option \<times> 's) \<Rightarrow> 'v sevent list \<Rightarrow> 's \<Rightarrow> 's" where
  "write_sink sink_write events s = foldl (\<lambda>s e. snd (sink_write e s)) s events"

definition updateLatencyMetrics :: "duration \<Rightarrow> StreamMetrics \<Rightarrow> StreamMetrics" where
  "updateLatencyMetrics latency m =
     (let latencyMs = of_int (latency div millisecond);
          count = of_int (sint (EventsProcessed m))
      in m\<lparr>AvgLatencyMs := (AvgLatencyMs m * (count - 1) + latencyMs) / count,
           P99LatencyMs := (if P99LatencyMs m < latencyMs then latencyMs else P99LatencyMs m)\<rparr>)"

definition processEvent ::
  "('o \<Rightarrow> addr \<Rightarrow> 'v heap \<Rightarrow> (fault + addr list) \<times> 'o \<times> 'v heap) \<Rightarrow> ('v sevent \<Rightarrow> 's \<Rightarrow> err option \<times> 's)
     \<Rightarrow> duration \<Rightarrow> addr \<Rightarrow> ('o, 's, 'v) Engine \<Rightarrow> fault option \<times> ('o, 's, 'v) Engine" where
  "processEvent process sink_write latency event e =
     (let (r, ops, h) = apply_chain process (operators e) [event] (store e);
          e1 = e\<lparr>operators := ops, store := h\<rparr>
      in case r of
           Inl (Failed err) \<Rightarrow> (Some (Failed (errorf ''operator error'' err)), e1)
         | Inl Panicked \<Rightarrow> (Some Panicked, e1)
         | Inr events \<Rightarrow>
             if events = []
             then (None, e1\<lparr>metrics := (metrics e1)\<lparr>EventsFiltered := EventsFiltered (metrics e1) + 1\<rparr>\<rparr>)
             else
               (let m1 = (metrics e1)\<lparr>EventsProcessed := EventsProcessed (metrics e1) + 1\<rparr>
                in (None, e1\<lparr>sinks := map (write_sink sink_write (map ((!) h) events)) (sinks e1),
                             metrics := updateLatencyMetrics latency m1\<rparr>)))"

text \<open>The test for backpressure of \<open>processingLoop\<close>, for \<open>len\<close> events left in the channel. For a channel
  without a buffer the quotient is not a number and the comparison false.\<close>

definition check_backpressure :: "nat \<Rightarrow> ('o, 's, 'v) Engine \<Rightarrow> ('o, 's, 'v) Engine" where
  "check_backpressure len e =
     (let bufferUtilization = of_nat len / of_int (BufferSize (config e)) in
      if EnableBackpressure (config e) \<and> BufferSize (config e) \<noteq> 0 \<and> BackpressureThreshold (config e) < bufferUtilization
      then e\<lparr>metrics := (metrics e)\<lparr>BackpressureCount := BackpressureCount (metrics e) + 1\<rparr>\<rparr>
      else e)"

definition handleWatermark :: "watermark \<Rightarrow> ('o, 's, 'v) Engine \<Rightarrow> ('o, 's, 'v) Engine" where
  "handleWatermark wm e = e\<lparr>metrics := (metrics e)\<lparr>CurrentWatermark := wm_Timestamp wm\<rparr>\<rparr>"

definition createCheckpoint :: "gtime \<Rightarrow> ('o, 's, 'v) Engine \<Rightarrow> ('o, 's, 'v) Engine" where
  "createCheckpoint now e = e\<lparr>metrics := (metrics e)\<lparr>LastCheckpointAt := now\<rparr>\<rparr>"

definition eng_GetMetrics :: "('o, 's, 'v) Engine \<Rightarrow> StreamMetrics" where
  "eng_GetMetrics e = metrics e"

section \<open>The chain on values\<close>

fun value_op :: "('p \<Rightarrow> 'v sevent \<Rightarrow> (fault + 'v sevent list) \<times> 'p) \<Rightarrow> 'p \<Rightarrow> 'v sevent list \<Rightarrow> (fault + 'v sevent list) \<times> 'p" where
  "value_op vprocess op [] = (Inr [], op)"
| "value_op vprocess op (e # es) =
     (case vprocess op e of
        (Inl err, op') \<Rightarrow> (Inl err, op')
      | (Inr rs, op') \<Rightarrow> (case value_op vprocess op' es of (r, op'') \<Rightarrow> (map_sum id ((@) rs) r, op'')))"

fun value_chain :: "('p \<Rightarrow> 'v sevent \<Rightarrow> (fault + 'v sevent list) \<times> 'p) \<Rightarrow> 'p list \<Rightarrow> 'v sevent list \<Rightarrow> (fault + 'v sevent list) \<times> 'p list" where
  "value_chain vprocess [] es = (Inr es, [])"
| "value_chain vprocess (op # ops) es =
     (case value_op vprocess op es of
        (Inl err, op') \<Rightarrow> (Inl err, op' # ops)
      | (Inr es', op') \<Rightarrow> (case value_chain vprocess ops es' of (r, ops') \<Rightarrow> (r, op' # ops')))"

lemma value_chain_Nil: "value_chain vprocess ops [] = (Inr [], ops)"
  by (induction ops) auto

text \<open>The chain of the engine computes the chain on values: operators work on distinct events of the store,
  so that no call disturbs an event that is still to be processed or already produced.\<close>

context event_operator
begin

lemma apply_op_refines:
  assumes "good op" "distinct (as @ acc)" "\<forall>a \<in> set (as @ acc). a < length h" "apply_op process op as acc h = (r, op', h')"
  shows "good op'" "length h \<le> length h'"
    "value_op vprocess (abs op) (map ((!) h) as) = (map_sum id (\<lambda>bs. drop (length acc) (map ((!) h') bs)) r, abs op')"
    "\<And>bs. r = Inr bs \<Longrightarrow> distinct bs \<and> (\<forall>b \<in> set bs. b < length h') \<and> take (length acc) (map ((!) h') bs) = map ((!) h) acc"
proof -
  have "good op' \<and> length h \<le> length h' \<and>
    value_op vprocess (abs op) (map ((!) h) as) = (map_sum id (\<lambda>bs. drop (length acc) (map ((!) h') bs)) r, abs op') \<and>
    (\<forall>bs. r = Inr bs \<longrightarrow> distinct bs \<and> (\<forall>b \<in> set bs. b < length h') \<and>
       length acc \<le> length bs \<and> take (length acc) (map ((!) h') bs) = map ((!) h) acc)"
    using assms
  proof (induction as arbitrary: op acc h)
    case Nil
    then show ?case by auto
  next
    case (Cons a as)
    obtain r1 op1 h1 where step: "process op a h = (r1, op1, h1)" by (rule prod_cases3)
    have a: "a < length h" using Cons.prems(3) by simp
    note laws = good_process [OF Cons.prems(1) a step] refines [OF Cons.prems(1) a step] grows [OF Cons.prems(1) a step]
    have fr: "h1 ! b = h ! b" if "b \<in> set (as @ acc)" for b
      using frame [OF Cons.prems(1) a step, of b] that Cons.prems(2,3) by auto
    show ?case
    proof (cases r1)
      case (Inl err)
      then show ?thesis using Cons.prems(4) step laws by (auto simp: split_def)
    next
      case (Inr rs)
      have rs: "distinct rs" "set rs \<subseteq> insert a {length h ..< length h1}"
        using results [OF Cons.prems(1) a step [unfolded Inr]] by auto
      have "set rs \<inter> set (as @ acc) = {}"
      proof -
        have "b < length h" "b \<noteq> a" if "b \<in> set (as @ acc)" for b
          using that Cons.prems(2,3) by auto
        then show ?thesis using rs(2) by force
      qed
      then have "distinct (as @ acc @ rs)" using Cons.prems(2) rs(1) by auto
      moreover have "\<forall>b \<in> set rs. b < length h1" using rs(2) laws(3) a by force
      then have "\<forall>b \<in> set (as @ acc @ rs). b < length h1" using Cons.prems(3) laws(3) by (auto dest: order.strict_trans2)
      moreover have run: "apply_op process op1 as (acc @ rs) h1 = (r, op', h')" using Cons.prems(4) step Inr by simp
      ultimately have IH: "good op'" "length h1 \<le> length h'"
        "value_op vprocess (abs op1) (map ((!) h1) as) = (map_sum id (\<lambda>bs. drop (length (acc @ rs)) (map ((!) h') bs)) r, abs op')"
        "\<And>bs. r = Inr bs \<Longrightarrow> distinct bs \<and> (\<forall>b \<in> set bs. b < length h') \<and>
           length (acc @ rs) \<le> length bs \<and> take (length (acc @ rs)) (map ((!) h') bs) = map ((!) h1) (acc @ rs)"
        using Cons.IH [OF laws(1)] by blast+
      have same: "map ((!) h1) as = map ((!) h) as" "map ((!) h1) acc = map ((!) h) acc" using fr by auto
      have split: "map ((!) h1) rs @ drop (length (acc @ rs)) (map ((!) h') bs) = drop (length acc) (map ((!) h') bs)
          \<and> take (length acc) (map ((!) h') bs) = map ((!) h) acc" if "r = Inr bs" for bs
      proof -
        have t: "take (length acc + length rs) (map ((!) h') bs) = map ((!) h) acc @ map ((!) h1) rs"
          using IH(4) [OF that] same by simp
        let ?l = "map ((!) h') bs"
        have "?l = map ((!) h) acc @ map ((!) h1) rs @ drop (length acc + length rs) ?l"
          using append_take_drop_id [of "length acc + length rs" ?l] t by simp
        then show ?thesis
          by (metis append_eq_conv_conj length_append length_map)
      qed
      show ?thesis
        using IH(1,2,3) IH(4) laws split same Inr
        by (cases r) (auto simp: map_sum.simps)
    qed
  qed
  then show "good op'" "length h \<le> length h'"
    "value_op vprocess (abs op) (map ((!) h) as) = (map_sum id (\<lambda>bs. drop (length acc) (map ((!) h') bs)) r, abs op')"
    "\<And>bs. r = Inr bs \<Longrightarrow> distinct bs \<and> (\<forall>b \<in> set bs. b < length h') \<and> take (length acc) (map ((!) h') bs) = map ((!) h) acc"
    by auto
qed

lemma apply_chain_refines:
  assumes "list_all good ops" "distinct as" "\<forall>a \<in> set as. a < length h" "apply_chain process ops as h = (r, ops', h')"
  shows "list_all good ops' \<and> length h \<le> length h' \<and>
    value_chain vprocess (map abs ops) (map ((!) h) as) = (map_sum id (map ((!) h')) r, map abs ops')"
  using assms
proof (induction ops arbitrary: as h r ops' h')
  case Nil
  then show ?case by auto
next
  case (Cons op ops)
  obtain r1 op1 h1 where run: "apply_op process op as [] h = (r1, op1, h1)" by (rule prod_cases3)
  have good: "good op" "list_all good ops" using Cons.prems(1) by auto
  have pre: "distinct (as @ [])" "\<forall>a \<in> set (as @ []). a < length h" using Cons.prems by auto
  note laws = apply_op_refines [OF good(1) pre run]
  show ?case
  proof (cases "r1 = Inr [] \<or> (\<exists>err. r1 = Inl err)")
    case True
    then show ?thesis using Cons.prems(4) run laws(1-3) good by (auto simp: value_chain_Nil)
  next
    case False
    then obtain bs where bs: "r1 = Inr bs" "bs \<noteq> []" by (cases r1) auto
    obtain r2 ops2 h2 where rest: "apply_chain process ops bs h1 = (r2, ops2, h2)" by (rule prod_cases3)
    have "list_all good ops2 \<and> length h1 \<le> length h2 \<and>
        value_chain vprocess (map abs ops) (map ((!) h1) bs) = (map_sum id (map ((!) h2)) r2, map abs ops2)"
      using Cons.IH [OF good(2) _ _ rest] laws(4) [OF bs(1)] by blast
    then show ?thesis using Cons.prems(4) run rest bs laws(1-3) by (cases r2) auto
  qed
qed

end

section \<open>A run of the engine\<close>

text \<open>Events from the sources, each in a store cell of its own and with the latency measured for it, processed
  one after the other; the goroutine of an event logs the error of \<open>processEvent\<close>.\<close>

fun run_engine ::
  "('o \<Rightarrow> addr \<Rightarrow> 'v heap \<Rightarrow> (fault + addr list) \<times> 'o \<times> 'v heap) \<Rightarrow> ('v sevent \<Rightarrow> 's \<Rightarrow> err option \<times> 's)
     \<Rightarrow> (duration \<times> 'v sevent) list \<Rightarrow> ('o, 's, 'v) Engine \<Rightarrow> fault option list \<times> ('o, 's, 'v) Engine" where
  "run_engine process sink_write [] e = ([], e)"
| "run_engine process sink_write ((latency, evt) # rest) e =
     (let (a, h) = alloc evt (store e);
          (err, e1) = processEvent process sink_write latency a (e\<lparr>store := h\<rparr>);
          (errs, e2) = run_engine process sink_write rest e1
      in (err # errs, e2))"

text \<open>The specification: the chain on values, from one event to the next.\<close>

fun value_run :: "('p \<Rightarrow> 'v sevent \<Rightarrow> (fault + 'v sevent list) \<times> 'p) \<Rightarrow> 'p list \<Rightarrow> 'v sevent list \<Rightarrow> (fault + 'v sevent list) list \<times> 'p list" where
  "value_run vprocess ops [] = ([], ops)"
| "value_run vprocess ops (e # es) =
     (let (r, ops1) = value_chain vprocess ops [e]; (rs, ops2) = value_run vprocess ops1 es in (r # rs, ops2))"

fun outputs_of :: "fault + 'v sevent list \<Rightarrow> 'v sevent list" where
  "outputs_of (Inl f) = []" | "outputs_of (Inr es) = es"

fun error_of :: "fault + 'v sevent list \<Rightarrow> fault option" where
  "error_of (Inl (Failed e)) = Some (Failed (errorf ''operator error'' e))"
| "error_of (Inl Panicked) = Some Panicked"
| "error_of (Inr es) = None"

definition was_processed :: "fault + 'v sevent list \<Rightarrow> bool" where "was_processed r \<longleftrightarrow> outputs_of r \<noteq> []"
definition was_filtered :: "fault + 'v sevent list \<Rightarrow> bool" where "was_filtered r \<longleftrightarrow> r = Inr []"

lemma write_sink_Nil [simp]: "write_sink w [] = (\<lambda>s. s)"
  by (simp add: write_sink_def fun_eq_iff)

lemma write_sink_append: "write_sink w (xs @ ys) s = write_sink w ys (write_sink w xs s)"
  by (simp add: write_sink_def)

lemma updateLatency_counts [simp]:
  "EventsProcessed (updateLatencyMetrics l m) = EventsProcessed m"
  "EventsFiltered (updateLatencyMetrics l m) = EventsFiltered m"
  by (simp_all add: updateLatencyMetrics_def Let_def)

context event_operator
begin

text \<open>What one event does to the engine.\<close>

definition event_effect :: "('v sevent \<Rightarrow> 's \<Rightarrow> err option \<times> 's) \<Rightarrow> fault + 'v sevent list \<Rightarrow> 'p list \<Rightarrow> fault option
    \<Rightarrow> ('o, 's, 'v) Engine \<Rightarrow> ('o, 's, 'v) Engine \<Rightarrow> bool" where
  "event_effect w r ops err e e' \<longleftrightarrow>
     list_all good (operators e') \<and> err = error_of r \<and> map abs (operators e') = ops \<and>
     sinks e' = map (write_sink w (outputs_of r)) (sinks e) \<and>
     EventsProcessed (metrics e') = EventsProcessed (metrics e) + of_bool (was_processed r) \<and>
     EventsFiltered (metrics e') = EventsFiltered (metrics e) + of_bool (was_filtered r)"

lemma processEvent_effect:
  assumes "list_all good (operators e)" "a < length (store e)"
    and run: "processEvent process w l a e = (err, e')"
    and spec: "value_chain vprocess (map abs (operators e)) [store e ! a] = (r, ops)"
  shows "event_effect w r ops err e e'"
proof -
  obtain r1 ops1 h1 where chain: "apply_chain process (operators e) [a] (store e) = (r1, ops1, h1)" by (rule prod_cases3)
  have laws: "list_all good ops1" "r = map_sum id (map ((!) h1)) r1" "ops = map abs ops1"
    using apply_chain_refines [OF assms(1) _ _ chain] assms(2) spec by auto
  consider f where "r1 = Inl (Failed f)" | "r1 = Inl Panicked" | "r1 = Inr []" | b bs where "r1 = Inr (b # bs)"
    by (metis sum.exhaust fault.exhaust list.exhaust)
  then show ?thesis
    by cases (use run chain laws in \<open>auto simp: processEvent_def event_effect_def was_processed_def was_filtered_def
        Let_def\<close>)
qed

lemma run_engine_refines:
  assumes "list_all good (operators e)" "run_engine process w evs e = (errs, e')"
    and "value_run vprocess (map abs (operators e)) (map snd evs) = (rs, ops)"
  shows "errs = map error_of rs \<and> map abs (operators e') = ops \<and>
    sinks e' = map (write_sink w (concat (map outputs_of rs))) (sinks e) \<and>
    EventsProcessed (metrics e') = EventsProcessed (metrics e) + of_nat (length (filter was_processed rs)) \<and>
    EventsFiltered (metrics e') = EventsFiltered (metrics e) + of_nat (length (filter was_filtered rs))"
  using assms
proof (induction evs arbitrary: e errs rs e' ops)
  case Nil
  then show ?case by auto
next
  case (Cons x evs)
  obtain l evt where x: "x = (l, evt)" by (rule prod.exhaust)
  let ?e = "e\<lparr>store := store e @ [evt]\<rparr>"
  obtain err e1 where 1: "processEvent process w l (length (store e)) ?e = (err, e1)" by (rule prod.exhaust)
  obtain errs1 e2 where 2: "run_engine process w evs e1 = (errs1, e2)" by (rule prod.exhaust)
  obtain r ops1 where 3: "value_chain vprocess (map abs (operators e)) [evt] = (r, ops1)" by (rule prod.exhaust)
  obtain rs1 ops2 where 4: "value_run vprocess ops1 (map snd evs) = (rs1, ops2)" by (rule prod.exhaust)
  have eqs: "errs = err # errs1" "e' = e2" "rs = r # rs1" "ops = ops2"
    using Cons.prems(2,3) 1 2 3 4 x by (auto simp: alloc_def)
  have eff: "event_effect w r ops1 err ?e e1"
    by (rule processEvent_effect [OF _ _ 1]) (use Cons.prems(1) 3 in auto)
  then have "list_all good (operators e1)" "map abs (operators e1) = ops1" by (auto simp: event_effect_def)
  note IH = Cons.IH [OF this(1) 2, unfolded this(2), OF 4]
  show ?case
    using IH eff by (auto simp: eqs event_effect_def write_sink_append fun_eq_iff)
qed

end


text \<open>A pipeline that selects a key, filters and counts per key, with a sink that keeps what it is written.\<close>

definition count_events :: "nat AggregateFunc" where
  "count_events acc e = Inr (Some (case acc of None \<Rightarrow> 1 | Some n \<Rightarrow> Suc n))"

definition keep_sink :: "nat sevent \<Rightarrow> nat sevent list \<Rightarrow> err option \<times> nat sevent list" where
  "keep_sink e s = (None, s @ [e])"

definition sample_engine :: "(nat Operator, nat sevent list, nat) Engine" where
  "sample_engine =
     AddSink [] (AddOperator (NewAggregateOperator count_events)
       (AddOperator (FilterOperator (\<lambda>e. Value e \<noteq> None))
         (AddOperator (KeyByOperator (\<lambda>e. ''k'')) (NewEngine DefaultEngineConfig))))"

lemma sample_engine_eq:
  "map strip (operators sample_engine) =
     [KeyByOperator (\<lambda>e. ''k''), FilterOperator (\<lambda>e. Value e \<noteq> None), AggregateOperator count_events (Some Map.empty)]"
  "list_all op_good (operators sample_engine)"
  "sinks sample_engine = [[]]"
  "EventsProcessed (metrics sample_engine) = 0" "EventsFiltered (metrics sample_engine) = 0"
  by (simp_all add: sample_engine_def AddSink_def AddOperator_def NewEngine_def DefaultEngineConfig_def
      NewInstrumentedOperator_def NewAggregateOperator_def)

definition sample_events :: "(duration \<times> nat sevent) list" where
  "sample_events = [(0, mk_event '''' (Some 7) 5 Map.empty), (0, mk_event '''' None 6 Map.empty), (0, mk_event '''' (Some 8) 7 Map.empty)]"


section \<open>Aggregation per key\<close>

text \<open>The accumulator of the events of a list that share a key, as the state map keeps it.\<close>

definition accumulated :: "('v option \<Rightarrow> 'v sevent \<Rightarrow> 'v option) \<Rightarrow> 'v sevent list \<Rightarrow> string \<rightharpoonup> 'v option" where
  "accumulated g es key =
     (let mine = filter (\<lambda>e. state_key e = key) es in if mine = [] then None else Some (foldl g None mine))"

lemma accumulated_get: "get_or (accumulated g es) key None = foldl g None (filter (\<lambda>e. state_key e = key) es)"
  by (auto simp: accumulated_def Let_def get_or_def)

lemma accumulated_snoc:
  "accumulated g (es @ [e]) =
     (accumulated g es)(state_key e \<mapsto> g (get_or (accumulated g es) (state_key e) None) e)"
  unfolding accumulated_get by (auto simp: accumulated_def Let_def fun_eq_iff)

text \<open>The running value of each event: the fold over the events of its key up to and including it.\<close>

definition running :: "('v option \<Rightarrow> 'v sevent \<Rightarrow> 'v option) \<Rightarrow> 'v sevent list \<Rightarrow> 'v sevent list \<Rightarrow> 'v sevent list" where
  "running g before es =
     map (\<lambda>i. result_event (foldl g None (filter (\<lambda>e. state_key e = state_key (es ! i)) (before @ take (Suc i) es))) (es ! i))
       [0 ..< length es]"

lemma running_Cons:
  "running g before (e # es) =
     result_event (foldl g None (filter (\<lambda>x. state_key x = state_key e) (before @ [e]))) e # running g (before @ [e]) es"
  unfolding running_def by (simp add: upt_conv_Cons map_Suc_upt [symmetric] del: upt_Suc map_Suc_upt foldl_append filter_append)

lemma aggregate_values:
  "value_op op_value (AggregateOperator (\<lambda>acc e. Inr (g acc e)) (Some (accumulated g before))) es =
     (Inr (running g before es), AggregateOperator (\<lambda>acc e. Inr (g acc e)) (Some (accumulated g (before @ es))))"
proof (induction es arbitrary: before)
  case Nil
  then show ?case by (simp add: running_def)
next
  case (Cons e es)
  have "op_value (AggregateOperator (\<lambda>acc e. Inr (g acc e)) (Some (accumulated g before))) e =
     (Inr [result_event (foldl g None (filter (\<lambda>x. state_key x = state_key e) (before @ [e]))) e],
      AggregateOperator (\<lambda>acc e. Inr (g acc e)) (Some (accumulated g (before @ [e]))))"
    by (simp add: accumulated_snoc agg_GetState_def accumulated_get)
  then show ?case by (simp add: Cons.IH running_Cons del: op_value.simps filter_append foldl_append)
qed

text \<open>An aggregate operator that is fed distinct events keeps, for every key, the fold of the aggregate
  function over the events of that key in order of arrival (events without a key count under \<open>default\<close>), and
  emits for each event the value of the fold up to it, with the event's time and headers.\<close>

theorem aggregation_per_key:
  assumes "distinct as" "\<forall>a \<in> set as. a < length h"
  shows "\<exists>bs h'. apply_op op_Process (NewAggregateOperator (\<lambda>acc e. Inr (g acc e))) as [] h =
      (Inr bs, AggregateOperator (\<lambda>acc e. Inr (g acc e)) (Some (accumulated g (map ((!) h) as))), h') \<and>
    map ((!) h') bs = running g [] (map ((!) h) as)"
proof -
  let ?f = "\<lambda>acc e. Inr (g acc e)"
  obtain r op' h' where run: "apply_op op_Process (NewAggregateOperator ?f) as [] h = (r, op', h')" by (rule prod_cases3)
  have kind: "\<exists>st. op' = AggregateOperator ?f st" if "apply_op op_Process (AggregateOperator ?f st0) as acc h = (r, op', h')"
    for st0 acc r op' h' h as
    using that by (induction as arbitrary: st0 acc h) (auto split: prod.splits sum.splits)
  have "value_op op_value (NewAggregateOperator ?f) (map ((!) h) as) =
      (map_sum id (\<lambda>bs. drop 0 (map ((!) h') bs)) r, strip op')"
    using ops.apply_op_refines(3) [OF _ _ _ run] assms by (simp add: NewAggregateOperator_def)
  moreover have "accumulated g [] = Map.empty" by (simp add: accumulated_def fun_eq_iff)
  moreover have "strip op' = op'" using kind [OF run [unfolded NewAggregateOperator_def]] by auto
  ultimately show ?thesis
    using aggregate_values [of g "[]" "map ((!) h) as"] run by (cases r) (auto simp: NewAggregateOperator_def)
qed

theorem aggregation_per_key_witness:
  "let h = [mk_event ''a'' (Some 1) 0 Map.empty, mk_event ''b'' (Some 5) 1 Map.empty, mk_event ''a'' (Some 2) 2 Map.empty];
       g = (\<lambda>acc e. case (acc, Value e) of (Some x, Some y) \<Rightarrow> Some (x + y :: nat) | (None, v) \<Rightarrow> v | (acc, None) \<Rightarrow> acc)
   in \<exists>bs h'. apply_op op_Process (NewAggregateOperator (\<lambda>acc e. Inr (g acc e))) [0, 1, 2] [] h =
        (Inr bs, AggregateOperator (\<lambda>acc e. Inr (g acc e)) (Some (accumulated g h)), h') \<and>
      map (\<lambda>b. Value (h' ! b)) bs = [Some 1, Some 5, Some 3] \<and> accumulated g h ''a'' = Some (Some 3)"
proof -
  let ?h = "[mk_event ''a'' (Some 1) 0 Map.empty, mk_event ''b'' (Some 5) 1 Map.empty, mk_event ''a'' (Some 2) 2 Map.empty]"
  let ?g = "\<lambda>acc e. case (acc, Value e) of (Some x, Some y) \<Rightarrow> Some (x + y :: nat) | (None, v) \<Rightarrow> v | (acc, None) \<Rightarrow> acc"
  have h: "map ((!) ?h) [0, 1, 2] = ?h" by simp
  obtain bs h' where run: "apply_op op_Process (NewAggregateOperator (\<lambda>acc e. Inr (?g acc e))) [0, 1, 2] [] ?h =
      (Inr bs, AggregateOperator (\<lambda>acc e. Inr (?g acc e)) (Some (accumulated ?g ?h)), h')"
      "map ((!) h') bs = running ?g [] ?h"
    using aggregation_per_key [of "[0, 1, 2]" ?h ?g] unfolding h by auto
  have "map Value (running ?g [] ?h) = [Some 1, Some 5, Some 3]"
    by (simp add: running_def result_event_def state_key_def upt_rec)
  then have vals: "map (\<lambda>b. Value (h' ! b)) bs = [Some 1, Some 5, Some 3]"
    unfolding run(2) [symmetric] by (simp add: comp_def)
  have acc: "accumulated ?g ?h ''a'' = Some (Some 3)" by (simp add: accumulated_def state_key_def)
  show ?thesis
    unfolding Let_def by (intro exI [of _ bs] exI [of _ h'] conjI) (fact run(1) vals acc)+
qed

section \<open>Latency metrics\<close>

text \<open>The updates of the latency metrics by a sequence of processed events.\<close>

fun record_latencies :: "duration list \<Rightarrow> StreamMetrics \<Rightarrow> StreamMetrics" where
  "record_latencies [] m = m"
| "record_latencies (l # ls) m = record_latencies ls (updateLatencyMetrics l (m\<lparr>EventsProcessed := EventsProcessed m + 1\<rparr>))"

definition ms :: "duration \<Rightarrow> rat" where "ms l = of_int (l div millisecond)"

lemma record_latencies_snoc:
  "record_latencies (ls @ [l]) m =
     (let m' = record_latencies ls m in updateLatencyMetrics l (m'\<lparr>EventsProcessed := EventsProcessed m' + 1\<rparr>))"
  by (induction ls arbitrary: m) (auto simp: Let_def)

lemma sint_of_nat_i64: "n < 2 ^ 63 \<Longrightarrow> sint (of_nat n :: i64) = int n"
  using int_word_sint [where 'a = 64, of "int n"] by simp

lemma updateLatency_eq:
  assumes "sint (EventsProcessed m) = int n"
  shows "updateLatencyMetrics l m =
    m\<lparr>AvgLatencyMs := (AvgLatencyMs m * (of_nat n - 1) + ms l) / of_nat n, P99LatencyMs := max (P99LatencyMs m) (ms l)\<rparr>"
  unfolding updateLatencyMetrics_def Let_def assms ms_def max_def of_int_of_nat_eq not_less [symmetric] by simp

text \<open>When events are processed one after the other, the average latency is the arithmetic mean of the
  latencies in milliseconds and the 99th percentile the greatest of them.\<close>

theorem latency_metrics:
  assumes "ls \<noteq> []" "length ls < 2 ^ 63" "\<forall>l \<in> set ls. 0 \<le> l"
    "EventsProcessed m = 0" "P99LatencyMs m = 0"
  shows "AvgLatencyMs (record_latencies ls m) = sum_list (map ms ls) / of_nat (length ls) \<and>
    P99LatencyMs (record_latencies ls m) = Max (ms ` set ls) \<and>
    EventsProcessed (record_latencies ls m) = of_nat (length ls)"
  using assms(1-3)
proof (induction ls rule: rev_nonempty_induct)
  case (single l)
  then show ?case
    using assms(4,5) by (auto simp: updateLatencyMetrics_def Let_def ms_def millisecond_def)
next
  case (snoc l ls)
  let ?m = "record_latencies ls m"
  have IH: "AvgLatencyMs ?m = sum_list (map ms ls) / of_nat (length ls)" "P99LatencyMs ?m = Max (ms ` set ls)"
    "EventsProcessed ?m = of_nat (length ls)"
    using snoc by auto
  have sel: "EventsProcessed (x\<lparr>EventsProcessed := v\<rparr>) = v" for x :: StreamMetrics and v by simp
  have "EventsProcessed ?m + 1 = of_nat (Suc (length ls))" by (simp add: IH(3))
  moreover have "sint (of_nat (Suc (length ls)) :: i64) = int (Suc (length ls))"
    using snoc.prems(1) by (intro sint_of_nat_i64) simp
  ultimately have "sint (EventsProcessed (?m\<lparr>EventsProcessed := EventsProcessed ?m + 1\<rparr>)) = int (Suc (length ls))"
    by (simp only: sel)
  note upd = updateLatency_eq [OF this, of l]
  have "Max (ms ` set (ls @ [l])) = max (Max (ms ` set ls)) (ms l)"
    using snoc.hyps(1) Max_insert [of "ms ` set ls" "ms l"] by (simp add: max.commute)
  then show ?case
    using snoc.hyps(1) unfolding record_latencies_snoc Let_def upd by (simp add: IH)
qed

theorem latency_metrics_witness:
  "let m = metrics sample_engine; ls = [3 * millisecond, 9 * millisecond]
   in AvgLatencyMs (record_latencies ls m) = 6 \<and> P99LatencyMs (record_latencies ls m) = 9"
proof -
  have "P99LatencyMs (metrics sample_engine) = 0"
    by (simp add: sample_engine_def AddSink_def AddOperator_def NewEngine_def)
  then show ?thesis
    using latency_metrics [of "[3 * millisecond, 9 * millisecond]" "metrics sample_engine"] sample_engine_eq(4)
    by (simp add: ms_def millisecond_def)
qed

section \<open>Starting and stopping\<close>

text \<open>
  The goroutines of the engine and the wait group that \<open>Stop\<close> waits for. \<open>Start\<close> adds one to the counter for
  the watermark manager, for every source and for each of the three loops. The goroutines of the sources and
  the loops and those of single events call \<open>Done\<close> when they return; the watermark manager knows nothing of
  the wait group. The loops and the watermark manager return once the context is cancelled.
\<close>

datatype goroutine = WatermarkManager | SourceRun nat | ProcessingLoop | MetricsLoop | CheckpointLoop | EventRun

record lifecycle =
  wg :: int
  routines :: "goroutine list"
  cancelled :: bool
  stopped :: bool

definition eng_Start :: "nat \<Rightarrow> lifecycle" where
  "eng_Start n =
     \<lparr>wg = 1 + int n + 3,
      routines = WatermarkManager # map SourceRun [0 ..< n] @ [ProcessingLoop, MetricsLoop, CheckpointLoop],
      cancelled = False, stopped = False\<rparr>"

fun calls_done :: "goroutine \<Rightarrow> bool" where
  "calls_done WatermarkManager = False" | "calls_done g = True"

fun may_return :: "bool \<Rightarrow> goroutine \<Rightarrow> bool" where
  "may_return c (SourceRun i) = True" | "may_return c EventRun = True" | "may_return c g = c"

inductive eng_step :: "lifecycle \<Rightarrow> lifecycle \<Rightarrow> bool" where
  event_started: "ProcessingLoop \<in> set (routines s) \<Longrightarrow>
    eng_step s (s\<lparr>wg := wg s + 1, routines := EventRun # routines s\<rparr>)"
| returned: "g \<in> set (routines s) \<Longrightarrow> may_return (cancelled s) g \<Longrightarrow>
    eng_step s (s\<lparr>wg := wg s - of_bool (calls_done g), routines := remove1 g (routines s)\<rparr>)"
| stop_called: "eng_step s (s\<lparr>cancelled := True\<rparr>)"
| stop_returns: "cancelled s \<Longrightarrow> wg s = 0 \<Longrightarrow> eng_step s (s\<lparr>stopped := True\<rparr>)"

definition eng_inv :: "lifecycle \<Rightarrow> bool" where
  "eng_inv s \<longleftrightarrow> wg s = 1 + int (length (filter calls_done (routines s))) \<and> \<not> stopped s"

lemma filter_remove1_length:
  "x \<in> set xs \<Longrightarrow> int (length (filter P (remove1 x xs))) = int (length (filter P xs)) - of_bool (P x)"
  by (induction xs) auto

interpretation engine_run: stepping "\<lambda>s. \<exists>n. s = eng_Start n" eng_step eng_inv
proof
  fix s
  assume "\<exists>n. s = eng_Start n"
  then show "eng_inv s" by (auto simp: eng_inv_def eng_Start_def filter_map comp_def)
next
  fix s t
  assume "eng_inv s" "eng_step s t"
  then show "eng_inv t"
    by (auto simp: eng_inv_def filter_remove1_length elim!: eng_step.cases)
qed

text \<open>C32: \<open>Stop\<close> never returns once the engine has been started: in every reachable state the wait group counts
  one more than the goroutines that will call \<open>Done\<close>, since the watermark manager was added and never calls it,
  so the counter never reaches zero.\<close>

theorem stop_never_returns:
  assumes "reach (\<lambda>s. \<exists>n. s = eng_Start n) eng_step s"
  shows "\<not> stopped s \<and> wg s = 1 + int (length (filter calls_done (routines s)))"
  using engine_run.inv_reach [OF assms] by (simp add: eng_inv_def)

lemma sample_stop:
  "reach (\<lambda>s. \<exists>n. s = eng_Start n) eng_step \<lparr>wg = 1, routines = [], cancelled = True, stopped = False\<rparr>"
proof -
  let ?R = "reach (\<lambda>s. \<exists>n. s = eng_Start n) eng_step"
  have ret: "?R \<lparr>wg = w - of_bool (calls_done g), routines = gs, cancelled = True, stopped = False\<rparr>"
    if "?R \<lparr>wg = w, routines = g # gs, cancelled = True, stopped = False\<rparr>" for w g gs
    using reach.next_step [OF that returned [of g]] by (cases g) auto
  have "?R (eng_Start 0)" by (rule reach.start) blast
  then have "?R ((eng_Start 0)\<lparr>cancelled := True\<rparr>)" by (rule reach.next_step) (rule stop_called)
  then have "?R \<lparr>wg = 4, routines = [WatermarkManager, ProcessingLoop, MetricsLoop, CheckpointLoop], cancelled = True, stopped = False\<rparr>"
    by (simp add: eng_Start_def)
  from ret [OF ret [OF ret [OF ret [OF this]]]] show ?thesis by simp
qed

theorem stop_never_returns_witness:
  "reach (\<lambda>s. \<exists>n. s = eng_Start n) eng_step \<lparr>wg = 1, routines = [], cancelled = True, stopped = False\<rparr> \<and>
   wg \<lparr>wg = 1, routines = [], cancelled = True, stopped = False\<rparr> \<noteq> 0"
  using sample_stop stop_never_returns [OF sample_stop] by auto

end
