(* ===== verification/Error_Handling.thy ===== *)
theory Error_Handling
  imports Retries Circuit_Breakers Dead_Letters Operators
begin

text \<open>
  Error handling around operators and sinks: \<open>pkg/stream/error_handler.go\<close>, \<open>pkg/stream/circuit_breaker_sink.go\<close>
  and \<open>pkg/stream/error_config.go\<close>. These wrappers put the retry executor, the circuit breaker, the dead letter
  queue and the side outputs together.

  The retry executor takes the errors of all attempts as a stream. Here the attempts are calls of a function with
  a state: \<open>after_calls\<close> is the state after so many calls, \<open>call_error\<close> the stream the executor is given, and since
  it makes exactly \<open>Attempts\<close> calls, the state afterwards is \<open>after_calls\<close> at that number. Logging and the calls
  of the Prometheus collector are left out, except for the labels they are given.
\<close>

section \<open>Calls with a state\<close>

primrec after_calls :: "(nat \<Rightarrow> 'st \<Rightarrow> (err + 'r) \<times> 'st) \<Rightarrow> 'st \<Rightarrow> nat \<Rightarrow> 'st" where
  "after_calls f s 0 = s"
| "after_calls f s (Suc n) = snd (f n (after_calls f s n))"

definition call_result :: "(nat \<Rightarrow> 'st \<Rightarrow> (err + 'r) \<times> 'st) \<Rightarrow> 'st \<Rightarrow> nat \<Rightarrow> err + 'r" where
  "call_result f s n = fst (f n (after_calls f s n))"

definition call_error :: "(nat \<Rightarrow> 'st \<Rightarrow> (err + 'r) \<times> 'st) \<Rightarrow> 'st \<Rightarrow> nat \<Rightarrow> err option" where
  "call_error f s n = (case call_result f s n of Inl e \<Rightarrow> Some e | Inr r \<Rightarrow> None)"

section \<open>The error handling operator\<close>

record 'v ErrorHandlingConfig =
  eh_RetryPolicy :: RetryPolicy
  eh_EnableDLQ :: bool
  eh_DLQ :: "'v option DeadLetterQueue option"
  eh_EnableSideOutputs :: bool
  eh_SideOutputCollector :: "'v option SideOutputCollector option"
  eh_OperatorName :: string

definition DefaultErrorHandlingConfig :: "string \<Rightarrow> 'v ErrorHandlingConfig" where
  "DefaultErrorHandlingConfig operatorName =
     \<lparr>eh_RetryPolicy = DefaultRetryPolicy, eh_EnableDLQ = False, eh_DLQ = Some Null, eh_EnableSideOutputs = False,
      eh_SideOutputCollector = Some NewSideOutputCollector, eh_OperatorName = operatorName\<rparr>"

definition failed_event :: "string \<Rightarrow> (string \<rightharpoonup> string) \<Rightarrow> gtime \<Rightarrow> err \<Rightarrow> int \<Rightarrow> 'v sevent \<Rightarrow> 'v option FailedEvent" where
  "failed_event name meta now err retryCount event =
     \<lparr>fe_Key = Key event, fe_Value = Value event, fe_EventTime = EventTime event, fe_Headers = Headers event,
      fe_Offset = Offset event, fe_Partition = Partition event, FailureReason = err_Error err,
      FailureCategory = ErrorCategory_String (ClassifyError (Some err)), OperatorName = name, FailureTime = now,
      RetryCount = retryCount, StackTrace = '''', fe_Metadata = meta\<rparr>"

definition side_output_event :: "string \<Rightarrow> err \<Rightarrow> int \<Rightarrow> 'v sevent \<Rightarrow> 'v option SideOutputEvent" where
  "side_output_event name err retryCount event =
     \<lparr>so_Key = Key event, so_Value = Value event, so_EventTime = EventTime event, so_Headers = Headers event,
      so_Offset = Offset event, so_Partition = Partition event, so_Error = Some err,
      so_ErrorCategory = ClassifyError (Some err), so_OperatorName = name, so_RetryCount = retryCount,
      so_Tag = ErrorSideOutput\<rparr>"

text \<open>\<open>handleError\<close>: a failed write to the dead letter queue is returned at once, before the side output. A send on
  a closed side output panics.\<close>

definition handleError ::
  "('v option FailedEvent \<Rightarrow> 'd option) \<Rightarrow> gtime \<Rightarrow> bool \<Rightarrow> 'v sevent \<Rightarrow> err \<Rightarrow> int \<Rightarrow> 'v ErrorHandlingConfig
     \<Rightarrow> so_panic + dlq_error option \<times> 'v ErrorHandlingConfig" where
  "handleError marshal now take_ctx event err retryCount c =
     (let written = (case eh_DLQ c of
                       Some q \<Rightarrow> if eh_EnableDLQ c
                                 then map_sum id Some (dlq_Write marshal (failed_event (eh_OperatorName c) Map.empty now err retryCount event) q)
                                 else Inr (Some q)
                     | None \<Rightarrow> Inr None)
      in case written of
           Inl dlqErr \<Rightarrow> Inr (Some dlqErr, c)
         | Inr q' \<Rightarrow>
             (let c1 = c\<lparr>eh_DLQ := q'\<rparr> in
              case eh_SideOutputCollector c1 of
                Some col \<Rightarrow>
                  if eh_EnableSideOutputs c1
                  then (case Emit take_ctx (side_output_event (eh_OperatorName c1) err retryCount event) col of
                          Inl p \<Rightarrow> Inl p
                        | Inr col' \<Rightarrow> Inr (None, c1\<lparr>eh_SideOutputCollector := Some col'\<rparr>))
                  else Inr (None, c1)
              | None \<Rightarrow> Inr (None, c1)))"

text \<open>The environment of a call: the cancellation and the random numbers of the retries, the clock and the
  choice of the \<open>select\<close> at the end.\<close>

record call_env =
  env_cancel :: "nat \<Rightarrow> err option"
  env_rnd :: "nat \<Rightarrow> rat"
  env_now :: gtime
  env_take_ctx :: bool

text \<open>\<open>Process\<close> of the wrapper. \<open>proc\<close> is a call of the wrapped operator on the event, with its state, and \<open>look\<close>
  the event as the handler finds it. \<open>None\<close> means that an unbounded retry never returns.\<close>

definition eho_Process ::
  "('v option FailedEvent \<Rightarrow> 'd option) \<Rightarrow> call_env \<Rightarrow> ('st \<Rightarrow> (err + 'r) \<times> 'st) \<Rightarrow> ('st \<Rightarrow> 'v sevent) \<Rightarrow> 'st
     \<Rightarrow> 'v ErrorHandlingConfig \<Rightarrow> (so_panic + (err option + 'r) \<times> 'st \<times> 'v ErrorHandlingConfig) option" where
  "eho_Process marshal env proc look s c =
     (let f = (\<lambda>n. proc) in
      case ExecuteWithCallback (eh_RetryPolicy c) True (call_error f s) (env_cancel env) (env_rnd env) of
        None \<Rightarrow> None
      | Some (retryResult, tr) \<Rightarrow>
          (let calls = nat (Attempts retryResult); s' = after_calls f s calls in
           if Success retryResult
           then Some (Inr (case call_result f s (calls - 1) of Inr r \<Rightarrow> Inr r | Inl e \<Rightarrow> Inl (Some e), s', c))
           else
             (case LastError retryResult of
                None \<Rightarrow> Some (Inr (Inl None, s', c))
              | Some err \<Rightarrow>
                  (case handleError marshal (env_now env) (env_take_ctx env) (look s') err (Attempts retryResult) c of
                     Inl p \<Rightarrow> Some (Inl p)
                   | Inr (_, c') \<Rightarrow> Some (Inr (Inl (Some err), s', c'))))))"

text \<open>The category with which the metrics of \<open>Process\<close> label a success after retries: that of \<open>lastError\<close>, the
  error of the last call.\<close>

definition retry_success_label :: "err option \<Rightarrow> RetryResult \<Rightarrow> string option" where
  "retry_success_label lastError r =
     (if Success r \<and> 1 < Attempts r then Some (ErrorCategory_String (ClassifyError lastError)) else None)"

section \<open>Sinks behind a circuit breaker\<close>

text \<open>\<open>Execute\<close> of the breaker around a call of the sink, which happens only when the breaker admits it.\<close>

type_synonym clock = "gtime \<times> gtime \<times> gtime \<times> gtime"

fun breaker_call :: "clock \<Rightarrow> ('s \<Rightarrow> err option \<times> 's) \<Rightarrow> CircuitBreaker \<times> 's \<Rightarrow> (cb_error + err option) \<times> CircuitBreaker \<times> 's" where
  "breaker_call (t1, t2, t3, t4) call (cb, s) =
     (case beforeRequest t1 t2 cb of
        (cb', Some e) \<Rightarrow> (Inl e, cb', s)
      | (cb', None) \<Rightarrow> (case call s of (err, s') \<Rightarrow> (Inr err, afterRequest t3 t4 err cb', s')))"

record 's CircuitBreakerSink =
  cbs_sink :: 's
  cbs_breaker :: CircuitBreaker
  cbs_name :: string

text \<open>The constructor installs a callback for state changes when the configuration has none.\<close>

definition NewCircuitBreakerSink :: "gtime \<Rightarrow> 's \<Rightarrow> CircuitBreakerConfig \<Rightarrow> 's CircuitBreakerSink" where
  "NewCircuitBreakerSink now sink cfg =
     \<lparr>cbs_sink = sink, cbs_breaker = NewCircuitBreaker now (cfg\<lparr>has_OnStateChange := True\<rparr>), cbs_name = cfg_Name cfg\<rparr>"

definition cbs_Write ::
  "('v sevent \<Rightarrow> 's \<Rightarrow> err option \<times> 's) \<Rightarrow> clock \<Rightarrow> 'v sevent \<Rightarrow> 's CircuitBreakerSink \<Rightarrow> (cb_error + err option) \<times> 's CircuitBreakerSink" where
  "cbs_Write sink_write t event cbs =
     (let (r, cb, s) = breaker_call t (sink_write event) (cbs_breaker cbs, cbs_sink cbs)
      in (r, cbs\<lparr>cbs_breaker := cb, cbs_sink := s\<rparr>))"

text \<open>The label of the request in the metrics.\<close>

fun cbs_label :: "cb_error + err option \<Rightarrow> string" where
  "cbs_label (Inl (ErrCircuitOpen n t)) = ''rejected_open''"
| "cbs_label (Inl (ErrTooManyRequests n)) = ''rejected_half_open''"
| "cbs_label (Inr (Some e)) = ''failure''"
| "cbs_label (Inr None) = ''success''"

definition cbs_Flush :: "('s \<Rightarrow> err option \<times> 's) \<Rightarrow> clock \<Rightarrow> 's CircuitBreakerSink \<Rightarrow> (cb_error + err option) \<times> 's CircuitBreakerSink" where
  "cbs_Flush sink_flush t cbs =
     (let (r, cb, s) = breaker_call t sink_flush (cbs_breaker cbs, cbs_sink cbs)
      in (r, cbs\<lparr>cbs_breaker := cb, cbs_sink := s\<rparr>))"

definition cbs_Close :: "('s \<Rightarrow> err option \<times> 's) \<Rightarrow> 's CircuitBreakerSink \<Rightarrow> err option \<times> 's CircuitBreakerSink" where
  "cbs_Close sink_close cbs = (let (r, s) = sink_close (cbs_sink cbs) in (r, cbs\<lparr>cbs_sink := s\<rparr>))"

definition ResetCircuitBreaker :: "gtime \<Rightarrow> 's CircuitBreakerSink \<Rightarrow> 's CircuitBreakerSink" where
  "ResetCircuitBreaker now cbs = cbs\<lparr>cbs_breaker := cb_Reset now (cbs_breaker cbs)\<rparr>"

definition cbs_IsAvailable :: "gtime \<Rightarrow> 's CircuitBreakerSink \<Rightarrow> bool" where
  "cbs_IsAvailable now cbs = IsAvailable now (cbs_breaker cbs)"

definition cbs_Stats :: "'s CircuitBreakerSink \<Rightarrow> CircuitBreakerStats" where
  "cbs_Stats cbs = Stats (cbs_breaker cbs)"

section \<open>The resilient sink\<close>

record 'v ResilientSinkConfig =
  rsc_Name :: string
  rsc_RetryPolicy :: RetryPolicy
  rsc_CircuitBreakerConfig :: CircuitBreakerConfig
  rsc_EnableDLQ :: bool
  rsc_DLQ :: "'v option DeadLetterQueue option"

definition DefaultResilientSinkConfig :: "string \<Rightarrow> 'v ResilientSinkConfig" where
  "DefaultResilientSinkConfig name =
     \<lparr>rsc_Name = name, rsc_RetryPolicy = DefaultRetryPolicy, rsc_CircuitBreakerConfig = DefaultCircuitBreakerConfig name,
      rsc_EnableDLQ = False, rsc_DLQ = Some Null\<rparr>"

record ('s, 'v) ResilientSink =
  rs_sink :: 's
  rs_breaker :: CircuitBreaker
  rs_policy :: RetryPolicy
  rs_dlq :: "'v option DeadLetterQueue option"
  rs_enableDLQ :: bool
  rs_name :: string

definition NewResilientSink :: "gtime \<Rightarrow> 's \<Rightarrow> 'v ResilientSinkConfig \<Rightarrow> ('s, 'v) ResilientSink" where
  "NewResilientSink now sink cfg =
     \<lparr>rs_sink = sink,
      rs_breaker = NewCircuitBreaker now ((rsc_CircuitBreakerConfig cfg)\<lparr>has_OnStateChange := True\<rparr>),
      rs_policy = rsc_RetryPolicy cfg, rs_dlq = rsc_DLQ cfg, rs_enableDLQ = rsc_EnableDLQ cfg, rs_name = rsc_Name cfg\<rparr>"

text \<open>The errors of the breaker as the retry policy sees them; \<open>rfc3339\<close> is the layout of a time.\<close>

fun breaker_error :: "(gtime \<Rightarrow> string) \<Rightarrow> cb_error \<Rightarrow> err" where
  "breaker_error rfc3339 (ErrCircuitOpen name t) =
     PlainError (''circuit breaker '' @ [CHR 0x27] @ name @ [CHR 0x27] @ '' is open (opened at '' @ rfc3339 t @ '')'')"
| "breaker_error rfc3339 (ErrTooManyRequests name) =
     PlainError (''circuit breaker '' @ [CHR 0x27] @ name @ [CHR 0x27] @ '' has too many concurrent requests in half-open state'')"

definition sink_call ::
  "(gtime \<Rightarrow> string) \<Rightarrow> (nat \<Rightarrow> clock) \<Rightarrow> ('s \<Rightarrow> err option \<times> 's) \<Rightarrow> nat \<Rightarrow> CircuitBreaker \<times> 's \<Rightarrow> (err + unit) \<times> CircuitBreaker \<times> 's" where
  "sink_call rfc3339 clocks call n st =
     (case breaker_call (clocks n) call st of
        (Inl e, st') \<Rightarrow> (Inl (breaker_error rfc3339 e), st')
      | (Inr (Some e), st') \<Rightarrow> (Inl e, st')
      | (Inr None, st') \<Rightarrow> (Inr (), st'))"

definition rs_Write ::
  "('v option FailedEvent \<Rightarrow> 'd option) \<Rightarrow> (gtime \<Rightarrow> string) \<Rightarrow> call_env \<Rightarrow> (nat \<Rightarrow> clock) \<Rightarrow> ('v sevent \<Rightarrow> 's \<Rightarrow> err option \<times> 's)
     \<Rightarrow> 'v sevent \<Rightarrow> ('s, 'v) ResilientSink \<Rightarrow> (err option \<times> ('s, 'v) ResilientSink) option" where
  "rs_Write marshal rfc3339 env clocks sink_write event rs =
     (let f = sink_call rfc3339 clocks (sink_write event); st = (rs_breaker rs, rs_sink rs) in
      case ExecuteWithCallback (rs_policy rs) True (call_error f st) (env_cancel env) (env_rnd env) of
        None \<Rightarrow> None
      | Some (retryResult, tr) \<Rightarrow>
          (let (cb, s) = after_calls f st (nat (Attempts retryResult));
               rs1 = rs\<lparr>rs_breaker := cb, rs_sink := s\<rparr>;
               retryCount = (if tr = [] then 0 else fst (last tr))
           in if Success retryResult then Some (None, rs1)
              else case LastError retryResult of
                None \<Rightarrow> Some (None, rs1)
              | Some finalErr \<Rightarrow>
                  Some (Some finalErr,
                    case rs_dlq rs1 of
                      Some q \<Rightarrow>
                        if rs_enableDLQ rs1
                        then (case dlq_Write marshal (failed_event (''sink:'' @ rs_name rs1) Map.empty (env_now env) finalErr retryCount event) q of
                                Inl dlqErr \<Rightarrow> rs1
                              | Inr q' \<Rightarrow> rs1\<lparr>rs_dlq := Some q'\<rparr>)
                        else rs1
                    | None \<Rightarrow> rs1)))"

definition rs_Flush :: "('s \<Rightarrow> err option \<times> 's) \<Rightarrow> clock \<Rightarrow> ('s, 'v) ResilientSink \<Rightarrow> (cb_error + err option) \<times> ('s, 'v) ResilientSink" where
  "rs_Flush sink_flush t rs =
     (let (r, cb, s) = breaker_call t sink_flush (rs_breaker rs, rs_sink rs) in (r, rs\<lparr>rs_breaker := cb, rs_sink := s\<rparr>))"

definition rs_ResetCircuitBreaker :: "gtime \<Rightarrow> ('s, 'v) ResilientSink \<Rightarrow> ('s, 'v) ResilientSink" where
  "rs_ResetCircuitBreaker now rs = rs\<lparr>rs_breaker := cb_Reset now (rs_breaker rs)\<rparr>"

section \<open>The outcome of the wrappers\<close>

lemma callback_bounded:
  assumes "0 \<le> MaxAttempts rp"
  obtains n tr where "n \<le> nat (MaxAttempts rp)" "stops rp operation cancel n" "\<forall>k < n. \<not> stops rp operation cancel k"
    "ExecuteWithCallback rp True operation cancel rnd = Some (outcome rp operation cancel rnd n, tr)"
proof -
  obtain n where n: "n \<le> nat (MaxAttempts rp)" "stops rp operation cancel n" "\<forall>k < n. \<not> stops rp operation cancel k"
    using bounded_stops [OF assms] by (meson first_stop)
  then have run: "retry_Execute rp operation cancel rnd = Some (outcome rp operation cancel rnd n)"
    unfolding execute_returns_iff by blast
  have "\<exists>tr. ExecuteWithCallback rp True operation cancel rnd = Some (outcome rp operation cancel rnd n, tr)"
  proof (cases "MaxAttempts rp = 0")
    case True
    then show ?thesis using run by (simp add: retry_Execute_def ExecuteWithCallback_def)
  next
    case False
    then show ?thesis using run execute_callback by (simp add: retry_Execute_def ExecuteWithCallback_def)
  qed
  with n that show thesis by blast
qed

lemma not_stops_fails: "\<not> stops rp operation cancel k \<Longrightarrow> operation k \<noteq> None"
  by (auto simp: stops_def split: option.splits)

lemma outcome_sel [simp]:
  "Success (outcome rp operation cancel rnd n) \<longleftrightarrow> operation n = None"
  "Attempts (outcome rp operation cancel rnd n) = int n + 1"
  by (simp_all add: outcome_def Let_def)

text \<open>The error of an execution that failed: that of the last call, or of the cancelled context.\<close>

lemma outcome_error:
  assumes "stops rp operation cancel n" "operation n \<noteq> None"
  obtains e where "LastError (outcome rp operation cancel rnd n) = Some e" "operation n = Some e \<or> cancel n = Some e"
proof -
  obtain e where e: "operation n = Some e" using assms(2) by blast
  show thesis
  proof (cases "refuses rp e \<or> 0 \<le> MaxAttempts rp \<and> MaxAttempts rp \<le> int n")
    case True
    then have "LastError (outcome rp operation cancel rnd n) = Some e" using e by (auto simp: outcome_def Let_def)
    with e that show thesis by blast
  next
    case False
    then obtain x where "cancel n = Some x" using assms(1) e by (auto simp: stops_def)
    moreover from False this have "LastError (outcome rp operation cancel rnd n) = Some x"
      using e by (auto simp: outcome_def Let_def)
    ultimately show thesis using that by blast
  qed
qed

lemma call_error_None: "call_error f s n = None \<longleftrightarrow> (\<exists>r. call_result f s n = Inr r)"
  by (auto simp: call_error_def split: sum.splits)

text \<open>An unbounded in-memory queue takes a failed event at its end.\<close>

lemma mem_Write_unbounded: "maxSize q \<le> 0 \<Longrightarrow> mem_Write e q = q\<lparr>dlq_events := dlq_events q @ [e]\<rparr>"
  by (simp add: mem_Write_def)

lemma Emit_returns: "so_inv col \<Longrightarrow> \<exists>col'. Emit take_ctx e col = Inr col'"
  by (cases "so_outputs col (so_Tag e)")
    (auto simp: Emit_def emit_lookup_def emit_send_def elim: so_inv_channel)

text \<open>What handling an error leaves behind: the failed event at the end of the queue and, with side outputs, the
  error event in the error channel when there is room.\<close>

definition error_recorded :: "call_env \<Rightarrow> 'v sevent \<Rightarrow> err \<Rightarrow> int \<Rightarrow> 'v option InMemoryDLQ \<Rightarrow> 'v ErrorHandlingConfig \<Rightarrow> 'v ErrorHandlingConfig \<Rightarrow> bool" where
  "error_recorded env event e calls q c c' \<longleftrightarrow>
     eh_DLQ c' = Some (Mem (q\<lparr>dlq_events := dlq_events q @ [failed_event (eh_OperatorName c) Map.empty (env_now env) e calls event]\<rparr>)) \<and>
     (\<forall>col. eh_SideOutputCollector c = Some col \<longrightarrow> eh_EnableSideOutputs c \<and> so_enabled col \<and> \<not> env_take_ctx env \<longrightarrow>
        (\<exists>col'. eh_SideOutputCollector c' = Some col' \<and>
           buffered col' ErrorSideOutput = take (capacity_of col ErrorSideOutput)
             (buffered col ErrorSideOutput @ [side_output_event (eh_OperatorName c) e calls event])))"

lemma handleError_records:
  assumes "eh_EnableDLQ c" "eh_DLQ c = Some (Mem q)" "maxSize q \<le> 0"
    "\<forall>col. eh_SideOutputCollector c = Some col \<longrightarrow> so_inv col"
  shows "\<exists>c'. handleError marshal (env_now env) (env_take_ctx env) event e calls c = Inr (None, c') \<and>
    error_recorded env event e calls q c c'"
proof (cases "\<exists>col. eh_SideOutputCollector c = Some col \<and> eh_EnableSideOutputs c")
  case False
  then show ?thesis
    using assms(1-3)
    by (auto simp: handleError_def error_recorded_def mem_Write_unbounded Let_def split: option.splits)
next
  case True
  then obtain col where col: "eh_SideOutputCollector c = Some col" "eh_EnableSideOutputs c" by blast
  let ?soe = "side_output_event (eh_OperatorName c) e calls event"
  obtain col' where emit: "Emit (env_take_ctx env) ?soe col = Inr col'"
    using Emit_returns assms(4) col by blast
  have "so_Tag ?soe = ErrorSideOutput" by (simp add: side_output_event_def)
  then have "buffered col' ErrorSideOutput = take (capacity_of col ErrorSideOutput) (buffered col ErrorSideOutput @ [?soe])"
    if "so_enabled col" "\<not> env_take_ctx env"
    using Emit_step [of col ?soe] assms(4) col emit that by auto
  then show ?thesis
    using assms(1-3) col emit
    by (auto simp: handleError_def error_recorded_def mem_Write_unbounded Let_def)
qed

text \<open>C28: An operator behind error handling loses no event. With a bounded retry policy and an unbounded in-memory
  dead letter queue \<open>Process\<close> always returns, after at most \<open>MaxAttempts + 1\<close> calls of the operator; either the
  last call succeeded, its results are returned and nothing is handled, or every call failed, the error of the
  last call or of the cancelled context is returned and exactly one failed event, with the event's data, that
  error and the number of calls, is appended to the queue; with side outputs the same goes to the error channel
  unless it is full.\<close>

theorem failed_events_kept:
  assumes "0 \<le> MaxAttempts (eh_RetryPolicy c)" "eh_EnableDLQ c" "eh_DLQ c = Some (Mem q)" "maxSize q \<le> 0"
    and "\<forall>col. eh_SideOutputCollector c = Some col \<longrightarrow> so_inv col"
  shows "\<exists>n s'. n \<le> nat (MaxAttempts (eh_RetryPolicy c)) \<and> s' = after_calls (\<lambda>n. proc) s (Suc n) \<and>
    (\<forall>k < n. call_error (\<lambda>n. proc) s k \<noteq> None) \<and>
    ((\<exists>r. call_result (\<lambda>n. proc) s n = Inr r \<and> eho_Process marshal env proc look s c = Some (Inr (Inr r, s', c))) \<or>
     (\<exists>e c'. call_error (\<lambda>n. proc) s n \<noteq> None \<and> (call_error (\<lambda>n. proc) s n = Some e \<or> env_cancel env n = Some e) \<and>
        eho_Process marshal env proc look s c = Some (Inr (Inl (Some e), s', c')) \<and>
        error_recorded env (look s') e (int n + 1) q c c'))"
proof -
  let ?f = "\<lambda>n :: nat. proc"
  let ?op = "call_error ?f s" and ?cancel = "env_cancel env" and ?rp = "eh_RetryPolicy c"
  obtain n tr where n: "n \<le> nat (MaxAttempts ?rp)" "stops ?rp ?op ?cancel n" "\<forall>k < n. \<not> stops ?rp ?op ?cancel k"
    and run: "ExecuteWithCallback ?rp True ?op ?cancel (env_rnd env) = Some (outcome ?rp ?op ?cancel (env_rnd env) n, tr)"
    using callback_bounded [OF assms(1)] by metis
  define s' where "s' = after_calls ?f s (Suc n)"
  have calls: "after_calls ?f s (nat (int n + 1)) = s'" "nat (int n + 1) - Suc 0 = n"
    unfolding s'_def by (simp_all add: nat_add_distrib)
  have early: "\<forall>k < n. ?op k \<noteq> None" using n(3) not_stops_fails by blast
  show ?thesis
  proof (cases "?op n = None")
    case True
    then obtain r where r: "call_result ?f s n = Inr r" by (auto simp: call_error_None)
    then have "eho_Process marshal env proc look s c = Some (Inr (Inr r, s', c))"
      using True by (simp add: eho_Process_def run calls Let_def)
    with n(1) early r s'_def show ?thesis by blast
  next
    case False
    then obtain e where e: "LastError (outcome ?rp ?op ?cancel (env_rnd env) n) = Some e" "?op n = Some e \<or> ?cancel n = Some e"
      using outcome_error [OF n(2)] by metis
    obtain c' where c': "handleError marshal (env_now env) (env_take_ctx env) (look s') e (int n + 1) c = Inr (None, c')"
      "error_recorded env (look s') e (int n + 1) q c c'"
      using handleError_records [OF assms(2-5)] by blast
    then have "eho_Process marshal env proc look s c = Some (Inr (Inl (Some e), s', c'))"
      using False e by (auto simp: eho_Process_def run calls Let_def)
    with n(1) early e(2) False c'(2) s'_def show ?thesis by blast
  qed
qed

text \<open>An operator that fails once and then succeeds, counting its calls, and one that always fails.\<close>

definition sample_handling :: "nat ErrorHandlingConfig" where
  "sample_handling = (DefaultErrorHandlingConfig ''op'')\<lparr>eh_EnableDLQ := True, eh_DLQ := Some (Mem (NewInMemoryDLQ 0)),
     eh_EnableSideOutputs := True, eh_SideOutputCollector := Some (CreateSideOutputCollector DefaultSideOutputConfig)\<rparr>"

definition sample_env :: call_env where
  "sample_env = \<lparr>env_cancel = (\<lambda>n. None), env_rnd = (\<lambda>n. 0), env_now = 9, env_take_ctx = False\<rparr>"

definition always_eof :: "nat \<Rightarrow> (err + unit) \<times> nat" where
  "always_eof calls = (Inl IoEOF, Suc calls)"

lemma always_eof_calls:
  "after_calls (\<lambda>n. always_eof) s n = s + n" "call_error (\<lambda>n. always_eof) s n = Some IoEOF"
  "call_result (\<lambda>n. always_eof) s n = Inl IoEOF"
  by (induction n) (simp_all add: always_eof_def call_error_def call_result_def)

lemma sample_handling_eq:
  "MaxAttempts (eh_RetryPolicy sample_handling) = 3" "eh_EnableDLQ sample_handling"
  "eh_DLQ sample_handling = Some (Mem (NewInMemoryDLQ 0))"
  "eh_SideOutputCollector sample_handling = Some (CreateSideOutputCollector DefaultSideOutputConfig)"
  by (simp_all add: sample_handling_def DefaultErrorHandlingConfig_def DefaultRetryPolicy_def)

theorem failed_events_kept_witness:
  "\<exists>n c'. n \<le> 3 \<and>
     eho_Process (\<lambda>e. Some ()) sample_env always_eof (\<lambda>s. mk_event ''k'' (Some s) 1 Map.empty) 0 sample_handling =
       Some (Inr (Inl (Some IoEOF), Suc n, c')) \<and>
     error_recorded sample_env (mk_event ''k'' (Some (Suc n)) 1 Map.empty) IoEOF (int n + 1) (NewInMemoryDLQ 0) sample_handling c'"
proof -
  have "maxSize (NewInMemoryDLQ 0 :: nat option InMemoryDLQ) \<le> 0" by (simp add: NewInMemoryDLQ_def)
  moreover have "\<forall>col. eh_SideOutputCollector sample_handling = Some col \<longrightarrow> so_inv col"
    by (simp add: sample_handling_eq so_inv_create)
  ultimately show ?thesis
    using failed_events_kept [of sample_handling "NewInMemoryDLQ 0" always_eof 0 "\<lambda>e. Some ()" sample_env
        "\<lambda>s. mk_event ''k'' (Some s) 1 Map.empty"]
    by (auto simp: sample_handling_eq always_eof_calls sample_env_def simp del: after_calls.simps)
qed

text \<open>A success after retries is labelled with the category of nil, not with that of the error that was
  recovered from.\<close>

theorem retry_success_labelled_fatal:
  assumes "call_error f s n = None"
  shows "retry_success_label (call_error f s n) r \<in> {None, Some ''fatal''}"
  using assms by (simp add: retry_success_label_def ClassifyError_def)

section \<open>The outcome of a resilient write\<close>

text \<open>C31: A resilient sink tells the truth and keeps failed events. With a bounded retry policy \<open>Write\<close> returns
  after at most \<open>MaxAttempts + 1\<close> attempts; it returns nil exactly when the last attempt was admitted by the
  breaker and accepted by the sink, and otherwise, with an unbounded dead letter queue, the event is appended to
  that queue with the error that is returned. No attempt before the last was accepted.\<close>

theorem resilient_write:
  assumes "0 \<le> MaxAttempts (rs_policy rs)" "rs_enableDLQ rs" "rs_dlq rs = Some (Mem q)" "maxSize q \<le> 0"
  shows "\<exists>n ret rs'. n \<le> nat (MaxAttempts (rs_policy rs)) \<and>
    rs_Write marshal rfc3339 env clocks sink_write event rs = Some (ret, rs') \<and>
    (let f = sink_call rfc3339 clocks (sink_write event); st = (rs_breaker rs, rs_sink rs) in
     (\<forall>k < n. call_result f st k \<noteq> Inr ()) \<and> (ret = None \<longleftrightarrow> call_result f st n = Inr ()) \<and>
     (rs_breaker rs', rs_sink rs') = after_calls f st (Suc n) \<and>
     (ret = None \<longrightarrow> rs_dlq rs' = rs_dlq rs) \<and>
     (\<forall>e. ret = Some e \<longrightarrow> (\<exists>count. rs_dlq rs' = Some (Mem (q\<lparr>dlq_events := dlq_events q @
        [failed_event (''sink:'' @ rs_name rs) Map.empty (env_now env) e count event]\<rparr>)))))"
proof -
  define f where "f = sink_call rfc3339 clocks (sink_write event)"
  define st where "st = (rs_breaker rs, rs_sink rs)"
  let ?op = "call_error f st" and ?cancel = "env_cancel env" and ?rp = "rs_policy rs"
  obtain n tr where n: "n \<le> nat (MaxAttempts ?rp)" "stops ?rp ?op ?cancel n" "\<forall>k < n. \<not> stops ?rp ?op ?cancel k"
    and run: "ExecuteWithCallback ?rp True ?op ?cancel (env_rnd env) = Some (outcome ?rp ?op ?cancel (env_rnd env) n, tr)"
    using callback_bounded [OF assms(1)] by metis
  obtain cb s where s': "after_calls f st (Suc n) = (cb, s)" by (rule prod.exhaust)
  have calls: "after_calls f st (nat (int n + 1)) = (cb, s)" using s' by (simp add: nat_add_distrib)
  have early: "\<forall>k < n. call_result f st k \<noteq> Inr ()"
    using n(3) not_stops_fails [of ?rp ?op ?cancel] call_error_None [of f st] by blast
  show ?thesis
  proof (cases "?op n = None")
    case True
    then have "rs_Write marshal rfc3339 env clocks sink_write event rs = Some (None, rs\<lparr>rs_breaker := cb, rs_sink := s\<rparr>)"
      by (simp add: rs_Write_def f_def [symmetric] st_def [symmetric] run calls Let_def)
    moreover have "call_result f st n = Inr ()" using True by (auto simp: call_error_None)
    ultimately show ?thesis
      using n(1) early s' by (auto simp: f_def [symmetric] st_def [symmetric] simp del: after_calls.simps)
  next
    case False
    then obtain e where e: "LastError (outcome ?rp ?op ?cancel (env_rnd env) n) = Some e"
      using outcome_error [OF n(2)] by metis
    let ?count = "if tr = [] then 0 else fst (last tr)"
    have "rs_Write marshal rfc3339 env clocks sink_write event rs =
        Some (Some e, rs\<lparr>rs_breaker := cb, rs_sink := s, rs_dlq := Some (Mem (q\<lparr>dlq_events := dlq_events q @
          [failed_event (''sink:'' @ rs_name rs) Map.empty (env_now env) e ?count event]\<rparr>))\<rparr>)"
      using False e assms(2-4)
      by (simp add: rs_Write_def f_def [symmetric] st_def [symmetric] run calls Let_def mem_Write_unbounded)
    moreover have "call_result f st n \<noteq> Inr ()" using False by (auto simp: call_error_None)
    ultimately show ?thesis
      using n(1) early s' unfolding f_def [symmetric] st_def [symmetric] Let_def
      by (intro exI [of _ n] exI conjI) (auto simp del: after_calls.simps)
  qed
qed

text \<open>A sink that fails its first write and keeps the later ones.\<close>

definition flaky_write :: "nat sevent \<Rightarrow> nat \<times> nat sevent list \<Rightarrow> err option \<times> nat \<times> nat sevent list" where
  "flaky_write e s = (case s of (0, es) \<Rightarrow> (Some IoEOF, 1, es) | (Suc n, es) \<Rightarrow> (None, Suc n, es @ [e]))"

definition sample_resilient :: "(nat \<times> nat sevent list, nat) ResilientSink" where
  "sample_resilient = NewResilientSink 0 (0, [])
     ((DefaultResilientSinkConfig ''out'')\<lparr>rsc_EnableDLQ := True, rsc_DLQ := Some (Mem (NewInMemoryDLQ 0))\<rparr>)"

lemma sample_resilient_eq:
  "rs_policy sample_resilient = DefaultRetryPolicy" "rs_enableDLQ sample_resilient"
  "rs_dlq sample_resilient = Some (Mem (NewInMemoryDLQ 0))" "rs_sink sample_resilient = (0, [])"
  "rs_breaker sample_resilient = NewCircuitBreaker 0 ((DefaultCircuitBreakerConfig ''out'')\<lparr>has_OnStateChange := True\<rparr>)"
  by (simp_all add: sample_resilient_def NewResilientSink_def DefaultResilientSinkConfig_def)

theorem resilient_write_witness:
  "\<exists>ret rs'.
     rs_Write (\<lambda>e. Some ()) (\<lambda>t. []) sample_env (\<lambda>n. (1, 1, 2, 2)) flaky_write (mk_event ''k'' (Some 3) 1 Map.empty) sample_resilient =
       Some (ret, rs') \<and> (ret = None \<or> rs_dlq rs' \<noteq> Some (Mem (NewInMemoryDLQ 0)))"
proof -
  let ?q = "NewInMemoryDLQ 0 :: nat option InMemoryDLQ" and ?e = "mk_event ''k'' (Some 3) 1 Map.empty"
  have size: "maxSize ?q \<le> 0" by (simp add: NewInMemoryDLQ_def)
  have bound: "0 \<le> MaxAttempts (rs_policy sample_resilient)" by (simp add: sample_resilient_eq DefaultRetryPolicy_def)
  obtain n ret rs' where r: "n \<le> nat (MaxAttempts (rs_policy sample_resilient))"
    "rs_Write (\<lambda>e. Some ()) (\<lambda>t. []) sample_env (\<lambda>n. (1, 1, 2, 2)) flaky_write ?e sample_resilient = Some (ret, rs')"
    "\<forall>e. ret = Some e \<longrightarrow> (\<exists>count. rs_dlq rs' = Some (Mem (?q\<lparr>dlq_events := dlq_events ?q @
        [failed_event (''sink:'' @ rs_name sample_resilient) Map.empty (env_now sample_env) e count ?e]\<rparr>)))"
    using resilient_write [OF bound sample_resilient_eq(2,3) size, of "\<lambda>e. Some ()" "\<lambda>t. []" sample_env "\<lambda>n. (1, 1, 2, 2)" flaky_write ?e]
    unfolding Let_def by (elim exE conjE) (rule that)
  have "ret = None \<or> rs_dlq rs' \<noteq> Some (Mem ?q)" using r(3) by (cases ret) (auto simp: NewInMemoryDLQ_def)
  with r(2) show ?thesis by blast
qed

text \<open>While the breaker is open and its timeout has not passed at any of the attempts, it admits none of them.\<close>

lemma open_refuses:
  assumes "cb_state cb = StateOpen" "time_Sub (fst (clocks n)) (lastFailureTime cb) \<le> cfg_Timeout (cb_config cb)"
  shows "sink_call rfc3339 clocks call n (cb, s) =
    (Inl (breaker_error rfc3339 (ErrCircuitOpen (cfg_Name (cb_config cb)) (lastFailureTime cb))),
     cb\<lparr>totalRequests := totalRequests cb + 1\<rparr>, s)"
  using assms by (cases "clocks n") (simp add: sink_call_def beforeRequest_def Let_def)

lemma open_calls:
  assumes "cb_state cb = StateOpen" "\<forall>n. time_Sub (fst (clocks n)) (lastFailureTime cb) \<le> cfg_Timeout (cb_config cb)"
  obtains cb' where "after_calls (sink_call rfc3339 clocks call) (cb, s) n = (cb', s)" "cb_state cb' = StateOpen"
    "lastFailureTime cb' = lastFailureTime cb" "cb_config cb' = cb_config cb"
proof -
  have "\<exists>cb'. after_calls (sink_call rfc3339 clocks call) (cb, s) n = (cb', s) \<and> cb_state cb' = StateOpen \<and>
      lastFailureTime cb' = lastFailureTime cb \<and> cb_config cb' = cb_config cb"
    by (induction n) (use assms in \<open>auto simp: open_refuses\<close>)
  with that show thesis by blast
qed

lemma open_result:
  assumes "cb_state cb = StateOpen" "\<forall>n. time_Sub (fst (clocks n)) (lastFailureTime cb) \<le> cfg_Timeout (cb_config cb)"
  shows "call_result (sink_call rfc3339 clocks call) (cb, s) n \<noteq> Inr ()"
  by (rule open_calls [OF assms, of rfc3339 call s n]) (use assms(2) in \<open>simp add: call_result_def open_refuses\<close>)

text \<open>An open breaker shields the sink: as long as its timeout has not passed, a write through a resilient sink
  leaves the sink untouched and fails with an error, whatever the retry policy tries, and returns when the
  policy is bounded.\<close>

theorem open_breaker_shields_sink:
  assumes "cb_state (rs_breaker rs) = StateOpen" "0 \<le> MaxAttempts (rs_policy rs)"
    "\<forall>n. time_Sub (fst (clocks n)) (lastFailureTime (rs_breaker rs)) \<le> cfg_Timeout (cb_config (rs_breaker rs))"
  shows "\<exists>e rs'. rs_Write marshal rfc3339 env clocks sink_write event rs = Some (Some e, rs') \<and>
    rs_sink rs' = rs_sink rs \<and> cb_state (rs_breaker rs') = StateOpen"
proof -
  define f where "f = sink_call rfc3339 clocks (sink_write event)"
  define st where "st = (rs_breaker rs, rs_sink rs)"
  let ?op = "call_error f st" and ?cancel = "env_cancel env" and ?rp = "rs_policy rs"
  obtain n tr where n: "stops ?rp ?op ?cancel n"
    and run: "ExecuteWithCallback ?rp True ?op ?cancel (env_rnd env) = Some (outcome ?rp ?op ?cancel (env_rnd env) n, tr)"
    using callback_bounded [OF assms(2)] by metis
  have fails: "?op k \<noteq> None" for k
    using open_result [OF assms(1,3), of rfc3339 "sink_write event" "rs_sink rs" k]
    by (auto simp: call_error_None f_def st_def)
  obtain e where e: "LastError (outcome ?rp ?op ?cancel (env_rnd env) n) = Some e"
    using outcome_error [OF n fails] by metis
  obtain cb where cb: "after_calls f st (nat (int n + 1)) = (cb, rs_sink rs)" "cb_state cb = StateOpen"
    unfolding f_def st_def using open_calls [OF assms(1,3)] by metis
  show ?thesis
    using fails [of n] e cb
    by (auto simp: rs_Write_def f_def [symmetric] st_def [symmetric] run Let_def split: option.splits sum.splits)
qed

theorem open_breaker_shields_sink_witness:
  "let rs = sample_resilient\<lparr>rs_breaker := (rs_breaker sample_resilient)\<lparr>cb_state := StateOpen, lastFailureTime := 5\<rparr>\<rparr>
   in \<exists>e rs'. rs_Write (\<lambda>e. Some ()) (\<lambda>t. []) sample_env (\<lambda>n. (6, 6, 7, 7)) flaky_write (mk_event ''k'' (Some 3) 1 Map.empty) rs =
       Some (Some e, rs') \<and> rs_sink rs' = (0, [])"
proof -
  let ?rs = "sample_resilient\<lparr>rs_breaker := (rs_breaker sample_resilient)\<lparr>cb_state := StateOpen, lastFailureTime := 5\<rparr>\<rparr>"
  have "\<forall>n :: nat. time_Sub (fst (6, 6 :: gtime, 7 :: gtime, 7 :: gtime)) (lastFailureTime (rs_breaker ?rs)) \<le> cfg_Timeout (cb_config (rs_breaker ?rs))"
    by (simp add: sample_resilient_eq NewCircuitBreaker_def DefaultCircuitBreakerConfig_def time_Sub_def
        min_duration_def max_duration_def second_def)
  moreover have "0 \<le> MaxAttempts (rs_policy ?rs)" by (simp add: sample_resilient_eq DefaultRetryPolicy_def)
  ultimately show ?thesis
    using open_breaker_shields_sink [of ?rs "\<lambda>n. (6, 6, 7, 7)" "\<lambda>e. Some ()" "\<lambda>t. []" sample_env flaky_write
        "mk_event ''k'' (Some 3) 1 Map.empty"]
    by (auto simp: sample_resilient_eq(4))
qed

end
