(* ===== verification/Checkpoints.thy ===== *)
theory Checkpoints
  imports Complex_Main Memory_State Error_Classes "HOL-Library.AList"
begin

text \<open>
  The checkpoint manager, \<open>pkg/checkpoint/manager.go\<close>. State providers and state backends are interfaces; their
  methods are the parameters \<open>get_state\<close>, \<open>restore_state\<close>, \<open>snapshot\<close> and \<open>restore\<close>. The values of a provider's
  state are any Go values: their type is a parameter, and \<open>as_json\<close> says what becomes of such a value when it is
  encoded and decoded again (numbers come back as \<open>float64\<close>, byte slices as base64 text, structs as maps). A byte
  slice may be nil, which \<open>encoding/json\<close> writes as \<open>null\<close>. \<open>marshal\<close> and \<open>unmarshal\<close> are \<open>encoding/json\<close> on what is
  checkpointed, \<open>encode\<close> and \<open>decode\<close> are it on the checkpoint structure. The checkpoint directory is an association
  list from the names of its checkpoint files to modification times and contents, in the order in which
  \<open>filepath.Glob\<close> lists them. Writing a file may fail and leave none, or one with other contents; removing one
  may fail and leave it.
\<close>

section \<open>JSON values\<close>

datatype json = JNull | JBool bool | JNum rat | JStr string | JArr "json list" | JObj "(string \<times> json) list"

text \<open>Decoding into a map accepts an object and \<open>null\<close>.\<close>

fun decode_map :: "json option \<Rightarrow> (string \<times> json) list option" where
  "decode_map (Some (JObj m)) = Some m"
| "decode_map (Some JNull) = Some []"
| "decode_map _ = None"

definition string_bytes :: "string \<Rightarrow> bytes" where
  "string_bytes s = map of_char s"

text \<open>Standard base64 with padding.\<close>

definition b64_alphabet :: string where
  "b64_alphabet = ''ABCDEFGHIJKLMNOPQRSTUVWXYZabcdefghijklmnopqrstuvwxyz0123456789+/''"

definition b64_char :: "nat \<Rightarrow> char" where
  "b64_char n = b64_alphabet ! (n mod 64)"

fun base64 :: "bytes \<Rightarrow> string" where
  "base64 [] = ''''"
| "base64 [a] = (let n = unat a * 16 in [b64_char (n div 64), b64_char n]) @ ''==''"
| "base64 [a, b] = (let n = (unat a * 256 + unat b) * 4 in [b64_char (n div 4096), b64_char (n div 64), b64_char n]) @ ''=''"
| "base64 (a # b # c # rest) =
     (let n = unat a * 65536 + unat b * 256 + unat c
      in [b64_char (n div 262144), b64_char (n div 4096), b64_char (n div 64), b64_char n]) @ base64 rest"

text \<open>
  What the manager encodes, and what decoding into an empty interface gives. Here the entries of a map have no order.
\<close>

datatype decoded = DNull | DBool bool | DNum rat | DStr string | DArr "decoded list" | DObj "string \<rightharpoonup> decoded"

type_synonym slice = "bytes option"

definition slice_bytes :: "slice \<Rightarrow> bytes" where
  "slice_bytes s = (case s of None \<Rightarrow> [] | Some b \<Rightarrow> b)"

datatype 'v go_data =
    GoValue 'v | GoBool bool | GoStr string | GoSlice slice | GoDecoded decoded | GoMap "string \<rightharpoonup> 'v go_data"

fun object :: "decoded option \<Rightarrow> (string \<rightharpoonup> decoded) option" where
  "object (Some (DObj m)) = Some m"
| "object _ = None"

text \<open>Decoding into a map accepts an object and \<open>null\<close>.\<close>

fun into_map :: "decoded option \<Rightarrow> (string \<rightharpoonup> decoded) option" where
  "into_map (Some (DObj m)) = Some m"
| "into_map (Some DNull) = Some Map.empty"
| "into_map _ = None"

section \<open>The manager\<close>

record Checkpoint =
  cp_ID :: string
  cp_Timestamp :: gtime
  cp_Offsets :: "int \<rightharpoonup> int"
  cp_StateData :: bytes

record ('p, 'b) CheckpointManager =
  cm_interval :: duration
  checkpointDir :: string
  maxCheckpoints :: nat
  checkpoints :: "Checkpoint list"
  stateProviders :: "'p list"
  stateBackends :: "'b list"
  incrementalEnabled :: bool
  lastCheckpointData :: "string \<rightharpoonup> slice"

type_synonym 'd directory = "(string \<times> gtime \<times> 'd) list"

definition NewCheckpointManager :: "duration \<Rightarrow> string \<Rightarrow> ('p, 'b) CheckpointManager" where
  "NewCheckpointManager interval dir =
     \<lparr>cm_interval = interval, checkpointDir = (if dir = '''' then ''./checkpoints'' else dir), maxCheckpoints = 5,
      checkpoints = [], stateProviders = [], stateBackends = [], incrementalEnabled = False, lastCheckpointData = Map.empty\<rparr>"

definition RegisterStateProvider :: "'p \<Rightarrow> ('p, 'b) CheckpointManager \<Rightarrow> ('p, 'b) CheckpointManager" where
  "RegisterStateProvider provider m = m\<lparr>stateProviders := stateProviders m @ [provider]\<rparr>"

definition RegisterStateBackend :: "'b \<Rightarrow> ('p, 'b) CheckpointManager \<Rightarrow> ('p, 'b) CheckpointManager" where
  "RegisterStateBackend backend m = m\<lparr>stateBackends := stateBackends m @ [backend]\<rparr>"

definition EnableIncrementalCheckpoints :: "bool \<Rightarrow> ('p, 'b) CheckpointManager \<Rightarrow> ('p, 'b) CheckpointManager" where
  "EnableIncrementalCheckpoints enabled m = m\<lparr>incrementalEnabled := enabled\<rparr>"

datatype ck_error =
    ProviderState nat err | BackendSnapshot nat err | SerializeState | PersistCheckpoint
  | NoCheckpoints | ReadFile | DecodeCheckpoint | DeserializeState | ProviderRestore nat err | ConvertSnapshot nat | BackendRestore nat err

text \<open>The loops that collect the state: over the providers, merging their maps, and over the backends.\<close>

fun collect_state :: "('p \<Rightarrow> err + (string \<rightharpoonup> 'v)) \<Rightarrow> nat \<Rightarrow> 'p list \<Rightarrow> (string \<rightharpoonup> 'v) \<Rightarrow> ck_error + (string \<rightharpoonup> 'v)" where
  "collect_state get_state i [] combined = Inr combined"
| "collect_state get_state i (p # ps) combined =
     (case get_state p of
        Inl e \<Rightarrow> Inl (ProviderState i e)
      | Inr state \<Rightarrow> collect_state get_state (Suc i) ps (combined ++ state))"

definition backend_key :: "nat \<Rightarrow> string" where
  "backend_key i = ''backend-'' @ show_nat i"

fun collect_snapshots :: "('b \<Rightarrow> err + slice) \<Rightarrow> nat \<Rightarrow> 'b list \<Rightarrow> (string \<rightharpoonup> slice) \<Rightarrow> ck_error + (string \<rightharpoonup> slice)" where
  "collect_snapshots snapshot i [] acc = Inr acc"
| "collect_snapshots snapshot i (b # bs) acc =
     (case snapshot b of
        Inl e \<Rightarrow> Inl (BackendSnapshot i e)
      | Inr data \<Rightarrow> collect_snapshots snapshot (Suc i) bs (acc(backend_key i \<mapsto> data)))"

fun bytes_loop :: "bytes \<Rightarrow> bytes \<Rightarrow> bool" where
  "bytes_loop (x # xs) (y # ys) = (if x \<noteq> y then False else bytes_loop xs ys)"
| "bytes_loop _ _ = True"

definition bytesEqual :: "slice \<Rightarrow> slice \<Rightarrow> bool" where
  "bytesEqual a b =
     (if length (slice_bytes a) \<noteq> length (slice_bytes b) then False else bytes_loop (slice_bytes a) (slice_bytes b))"

definition computeChangedKeys :: "(string \<rightharpoonup> slice) \<Rightarrow> (string \<rightharpoonup> slice) \<Rightarrow> (string \<rightharpoonup> bool)" where
  "computeChangedKeys prev current =
     (\<lambda>key. case current key of
        None \<Rightarrow> None
      | Some data \<Rightarrow>
          (case prev key of
             None \<Rightarrow> Some True
           | Some old \<Rightarrow> if \<not> bytesEqual old data then Some True else None))"

definition full_data :: "(string \<rightharpoonup> 'v) \<Rightarrow> (string \<rightharpoonup> slice) \<Rightarrow> (string \<rightharpoonup> 'v go_data)" where
  "full_data combined snaps =
     [''provider_state'' \<mapsto> GoMap (\<lambda>k. map_option GoValue (combined k)),
      ''backend_snapshots'' \<mapsto> GoMap (\<lambda>k. map_option GoSlice (snaps k))]"

text \<open>Looking up a missing key gives nil.\<close>

definition computeIncrementalChanges ::
  "(string \<rightharpoonup> slice) \<Rightarrow> (string \<rightharpoonup> 'v go_data) \<Rightarrow> (string \<rightharpoonup> slice) \<Rightarrow> (string \<rightharpoonup> 'v go_data)" where
  "computeIncrementalChanges prev fullData snaps =
     (if prev = Map.empty then fullData
      else [''type'' \<mapsto> GoStr ''incremental'',
            ''provider_state'' \<mapsto> (case fullData ''provider_state'' of None \<Rightarrow> GoDecoded DNull | Some v \<Rightarrow> v),
            ''changed_keys'' \<mapsto> GoMap (\<lambda>k. map_option GoBool (computeChangedKeys prev snaps k))])"

text \<open>The name of a file, without the cleaning that \<open>filepath.Join\<close> applies to all of them alike.\<close>

definition file_name :: "('p, 'b) CheckpointManager \<Rightarrow> Checkpoint \<Rightarrow> string" where
  "file_name m cp = checkpointDir m @ ''/'' @ cp_ID cp @ ''.json''"

text \<open>What becomes of a file that \<open>os.WriteFile\<close> writes: it is written, or an error is reported, and then the
  directory is as before or the file holds whatever was left in it.\<close>

datatype 'd write_outcome = Written | NotWritten | PartlyWritten 'd

text \<open>The environment of a checkpoint: the clock readings for its identifier and timestamp, and the file system: the
  modification time and outcome of the write, and which files \<open>os.Remove\<close> can remove.\<close>

record 'd ck_env =
  ck_nanos :: int
  ck_now :: gtime
  ck_mtime :: gtime
  ck_write :: "'d write_outcome"
  ck_remove :: "string \<Rightarrow> bool"

definition persistCheckpoint ::
  "(Checkpoint \<Rightarrow> 'd option) \<Rightarrow> 'd ck_env \<Rightarrow> ('p, 'b) CheckpointManager \<Rightarrow> Checkpoint \<Rightarrow> 'd directory \<Rightarrow> bool \<times> 'd directory" where
  "persistCheckpoint encode env m cp dir =
     (case encode cp of
        None \<Rightarrow> (False, dir)
      | Some data \<Rightarrow>
          (case ck_write env of
             Written \<Rightarrow> (True, AList.update (file_name m cp) (ck_mtime env, data) dir)
           | NotWritten \<Rightarrow> (False, dir)
           | PartlyWritten rest \<Rightarrow> (False, AList.update (file_name m cp) (ck_mtime env, rest) dir)))"

text \<open>Removing files; a failure is only logged.\<close>

fun remove_files :: "(string \<Rightarrow> bool) \<Rightarrow> string list \<Rightarrow> 'd directory \<Rightarrow> 'd directory" where
  "remove_files can_remove [] dir = dir"
| "remove_files can_remove (f # fs) dir =
     remove_files can_remove fs (if can_remove f then AList.delete f dir else dir)"

definition cleanupOldCheckpoints ::
  "(string \<Rightarrow> bool) \<Rightarrow> ('p, 'b) CheckpointManager \<Rightarrow> 'd directory \<Rightarrow> ('p, 'b) CheckpointManager \<times> 'd directory" where
  "cleanupOldCheckpoints can_remove m dir =
     (if length (checkpoints m) \<le> maxCheckpoints m then (m, dir)
      else
        (let surplus = length (checkpoints m) - maxCheckpoints m;
             toRemove = take surplus (checkpoints m)
         in (m\<lparr>checkpoints := drop surplus (checkpoints m)\<rparr>, remove_files can_remove (map (file_name m) toRemove) dir)))"

definition checkpoint_id :: "int \<Rightarrow> string" where
  "checkpoint_id nanos = ''checkpoint-'' @ show_int nanos"

definition CreateCheckpoint ::
  "('p \<Rightarrow> err + (string \<rightharpoonup> 'v)) \<Rightarrow> ('b \<Rightarrow> err + slice) \<Rightarrow> ('v go_data \<Rightarrow> bytes option) \<Rightarrow> (Checkpoint \<Rightarrow> 'd option) \<Rightarrow> 'd ck_env
     \<Rightarrow> (int \<rightharpoonup> int) \<Rightarrow> ('p, 'b) CheckpointManager \<Rightarrow> 'd directory
     \<Rightarrow> (ck_error + Checkpoint) \<times> ('p, 'b) CheckpointManager \<times> 'd directory" where
  "CreateCheckpoint get_state snapshot marshal encode env offsets m dir =
     (case collect_state get_state 0 (stateProviders m) Map.empty of
        Inl e \<Rightarrow> (Inl e, m, dir)
      | Inr combined \<Rightarrow>
          (case collect_snapshots snapshot 0 (stateBackends m) Map.empty of
             Inl e \<Rightarrow> (Inl e, m, dir)
           | Inr snaps \<Rightarrow>
               (let checkpointData = (if incrementalEnabled m
                                      then computeIncrementalChanges (lastCheckpointData m) (full_data combined snaps) snaps
                                      else full_data combined snaps)
                in case marshal (GoMap checkpointData) of
                     None \<Rightarrow> (Inl SerializeState, m, dir)
                   | Some stateData \<Rightarrow>
                       (let cp = \<lparr>cp_ID = checkpoint_id (ck_nanos env), cp_Timestamp = ck_now env,
                                  cp_Offsets = offsets, cp_StateData = stateData\<rparr>
                        in case persistCheckpoint encode env m cp dir of
                             (False, dir1) \<Rightarrow> (Inl PersistCheckpoint, m, dir1)
                           | (True, dir1) \<Rightarrow>
                               (let m1 = (if incrementalEnabled m then m\<lparr>lastCheckpointData := snaps\<rparr> else m);
                                    m2 = m1\<lparr>checkpoints := checkpoints m1 @ [cp]\<rparr>;
                                    (m3, dir2) = cleanupOldCheckpoints (ck_remove env) m2 dir1
                                in (Inr cp, m3, dir2))))))"

text \<open>\<open>LoadLatestCheckpoint\<close>: the file with the latest modification time, the first of them in the listing. Files
  that cannot be inspected are skipped, which \<open>stat_ok\<close> decides; the zero time counts as earlier than any file's.\<close>

fun latest_file :: "(string \<Rightarrow> bool) \<Rightarrow> 'd directory \<Rightarrow> gtime \<Rightarrow> string \<Rightarrow> string" where
  "latest_file stat_ok [] t best = best"
| "latest_file stat_ok ((name, mtime, data) # files) t best =
     (if \<not> stat_ok name then latest_file stat_ok files t best
      else if time_After mtime t then latest_file stat_ok files mtime name
      else latest_file stat_ok files t best)"

definition LoadLatestCheckpoint :: "('d \<Rightarrow> Checkpoint option) \<Rightarrow> (string \<Rightarrow> bool) \<Rightarrow> 'd directory \<Rightarrow> ck_error + Checkpoint" where
  "LoadLatestCheckpoint decode stat_ok dir =
     (if dir = [] then Inl NoCheckpoints
      else case map_of dir (latest_file stat_ok dir zero_time '''') of
        None \<Rightarrow> Inl ReadFile
      | Some (mtime, data) \<Rightarrow> (case decode data of None \<Rightarrow> Inl DecodeCheckpoint | Some cp \<Rightarrow> Inr cp))"

text \<open>The loops of \<open>RestoreFromCheckpoint\<close>. They stop at the first error; what was restored before stays.\<close>

fun restore_providers ::
  "((string \<rightharpoonup> decoded) \<Rightarrow> 'p \<Rightarrow> err option \<times> 'p) \<Rightarrow> (string \<rightharpoonup> decoded) \<Rightarrow> nat \<Rightarrow> 'p list \<Rightarrow> ck_error option \<times> 'p list" where
  "restore_providers restore_state state i [] = (None, [])"
| "restore_providers restore_state state i (p # ps) =
     (case restore_state state p of
        (Some e, p') \<Rightarrow> (Some (ProviderRestore i e), p' # ps)
      | (None, p') \<Rightarrow> (case restore_providers restore_state state (Suc i) ps of (r, ps') \<Rightarrow> (r, p' # ps')))"

text \<open>The conversion of a decoded value to bytes; \<open>[]byte\<close> does not occur among decoded values.\<close>

fun snapshot_bytes :: "('v go_data \<Rightarrow> bytes option) \<Rightarrow> decoded \<Rightarrow> bytes option" where
  "snapshot_bytes marshal (DStr s) = Some (string_bytes s)"
| "snapshot_bytes marshal v = marshal (GoDecoded v)"

fun restore_backends ::
  "('v go_data \<Rightarrow> bytes option) \<Rightarrow> (bytes \<Rightarrow> 'b \<Rightarrow> err option \<times> 'b) \<Rightarrow> (string \<rightharpoonup> decoded) \<Rightarrow> nat \<Rightarrow> 'b list \<Rightarrow> ck_error option \<times> 'b list" where
  "restore_backends marshal restore snaps i [] = (None, [])"
| "restore_backends marshal restore snaps i (b # bs) =
     (case snaps (backend_key i) of
        None \<Rightarrow> (case restore_backends marshal restore snaps (Suc i) bs of (r, bs') \<Rightarrow> (r, b # bs'))
      | Some v \<Rightarrow>
          (case snapshot_bytes marshal v of
             None \<Rightarrow> (Some (ConvertSnapshot i), b # bs)
           | Some data \<Rightarrow>
               (case restore data b of
                  (Some e, b') \<Rightarrow> (Some (BackendRestore i e), b' # bs)
                | (None, b') \<Rightarrow> (case restore_backends marshal restore snaps (Suc i) bs of (r, bs') \<Rightarrow> (r, b' # bs')))))"

definition RestoreFromCheckpoint ::
  "(bytes \<Rightarrow> decoded option) \<Rightarrow> ('v go_data \<Rightarrow> bytes option) \<Rightarrow> ((string \<rightharpoonup> decoded) \<Rightarrow> 'p \<Rightarrow> err option \<times> 'p) \<Rightarrow> (bytes \<Rightarrow> 'b \<Rightarrow> err option \<times> 'b)
     \<Rightarrow> Checkpoint \<Rightarrow> ('p, 'b) CheckpointManager \<Rightarrow> ck_error option \<times> ('p, 'b) CheckpointManager" where
  "RestoreFromCheckpoint unmarshal marshal restore_state restore cp m =
     (case into_map (unmarshal (cp_StateData cp)) of
        None \<Rightarrow> (Some DeserializeState, m)
      | Some data \<Rightarrow>
          (let (r1, ps) = (case object (data ''provider_state'') of
                             None \<Rightarrow> (None, stateProviders m)
                           | Some state \<Rightarrow> restore_providers restore_state state 0 (stateProviders m));
               m1 = m\<lparr>stateProviders := ps\<rparr>
           in if r1 \<noteq> None then (r1, m1)
              else case object (data ''backend_snapshots'') of
                None \<Rightarrow> (None, m1)
              | Some snaps \<Rightarrow>
                  (let (r2, bs) = restore_backends marshal restore snaps 0 (stateBackends m1)
                   in (r2, m1\<lparr>stateBackends := bs\<rparr>))))"

definition GetCheckpoints :: "('p, 'b) CheckpointManager \<Rightarrow> Checkpoint list" where
  "GetCheckpoints m = checkpoints m"

section \<open>Barrier alignment\<close>

type_synonym CoordinatedCheckpoint = "int \<Rightarrow> bool"

definition NewCoordinatedCheckpoint :: CoordinatedCheckpoint where
  "NewCoordinatedCheckpoint = (\<lambda>p. False)"

definition AlignBarrier :: "int \<Rightarrow> CoordinatedCheckpoint \<Rightarrow> CoordinatedCheckpoint" where
  "AlignBarrier p c = c(p := True)"

fun AllAligned :: "int list \<Rightarrow> CoordinatedCheckpoint \<Rightarrow> bool" where
  "AllAligned [] c = True"
| "AllAligned (p # ps) c = (if \<not> c p then False else AllAligned ps c)"

definition cc_Reset :: "CoordinatedCheckpoint \<Rightarrow> CoordinatedCheckpoint" where
  "cc_Reset c = (\<lambda>p. False)"

section \<open>Retention and recovery\<close>

text \<open>A sequence of checkpoints by one manager, with the results.\<close>

fun create_all ::
  "('p \<Rightarrow> err + (string \<rightharpoonup> 'v)) \<Rightarrow> ('b \<Rightarrow> err + slice) \<Rightarrow> ('v go_data \<Rightarrow> bytes option) \<Rightarrow> (Checkpoint \<Rightarrow> 'd option)
     \<Rightarrow> ('d ck_env \<times> (int \<rightharpoonup> int)) list \<Rightarrow> ('p, 'b) CheckpointManager \<Rightarrow> 'd directory
     \<Rightarrow> (ck_error + Checkpoint) list \<times> ('p, 'b) CheckpointManager \<times> 'd directory" where
  "create_all gs sn marshal encode [] m dir = ([], m, dir)"
| "create_all gs sn marshal encode ((env, offsets) # envs) m dir =
     (case CreateCheckpoint gs sn marshal encode env offsets m dir of
        (r, m1, dir1) \<Rightarrow> (case create_all gs sn marshal encode envs m1 dir1 of (rs, m2, dir2) \<Rightarrow> (r # rs, m2, dir2)))"

text \<open>The checkpoints created so far, with the modification times of their files.\<close>

fun created :: "('d ck_env \<times> (int \<rightharpoonup> int)) list \<Rightarrow> (ck_error + Checkpoint) list \<Rightarrow> (Checkpoint \<times> gtime) list" where
  "created ((env, offsets) # envs) (Inr cp # rs) = (cp, ck_mtime env) # created envs rs"
| "created (env # envs) (Inl e # rs) = created envs rs"
| "created _ _ = []"

definition keep_last :: "nat \<Rightarrow> 'a list \<Rightarrow> 'a list" where
  "keep_last n xs = drop (length xs - n) xs"

text \<open>No write leaves anything but the whole file or nothing; every file can be removed.\<close>

definition clean_writes :: "('d ck_env \<times> (int \<rightharpoonup> int)) list \<Rightarrow> bool" where
  "clean_writes envs \<longleftrightarrow> (\<forall>e \<in> set envs. ck_write (fst e) = Written \<or> ck_write (fst e) = NotWritten)"

definition clean_removes :: "('d ck_env \<times> (int \<rightharpoonup> int)) list \<Rightarrow> bool" where
  "clean_removes envs \<longleftrightarrow> (\<forall>e \<in> set envs. \<forall>f. ck_remove (fst e) f)"

text \<open>
  What holds of the manager and of the directory after checkpoints were made, one after the other, in a
  directory that held \<open>dir0\<close>: the files that are kept hold their checkpoints; after clean writes every other file
  was there before or holds an older checkpoint, and with clean removals the latter are gone.
\<close>

definition ck_inv ::
  "(Checkpoint \<Rightarrow> 'd option) \<Rightarrow> 'd directory \<Rightarrow> ('d ck_env \<times> (int \<rightharpoonup> int)) list \<Rightarrow> (Checkpoint \<times> gtime) list
     \<Rightarrow> ('p, 'b) CheckpointManager \<Rightarrow> 'd directory \<Rightarrow> bool" where
  "ck_inv encode dir0 envs made m dir \<longleftrightarrow>
     checkpoints m = map fst (keep_last (maxCheckpoints m) made) \<and> distinct (map fst dir) \<and>
     (\<forall>(cp, t) \<in> set made. encode cp \<noteq> None) \<and>
     (\<forall>(cp, t) \<in> set (keep_last (maxCheckpoints m) made). map_of dir (file_name m cp) = Some (t, the (encode cp))) \<and>
     (clean_writes envs \<longrightarrow> (\<forall>f \<in> set dir. f \<in> set dir0 \<or> (\<exists>(cp, t) \<in> set made. f = (file_name m cp, t, the (encode cp))))) \<and>
     (clean_writes envs \<and> clean_removes envs \<longrightarrow>
        fst ` set dir = (fst ` set dir0 - file_name m ` fst ` set made) \<union> file_name m ` fst ` set (keep_last (maxCheckpoints m) made))"

lemma remove_files_map_of: "map_of (remove_files ok fs dir) = (map_of dir) |` (- {f \<in> set fs. ok f})"
  by (induction fs arbitrary: dir) (auto simp: delete_conv' restrict_map_def fun_eq_iff)

lemma remove_files_distinct: "distinct (map fst dir) \<Longrightarrow> distinct (map fst (remove_files ok fs dir))"
  by (induction fs arbitrary: dir) (auto simp: distinct_delete)

lemma remove_files_subset: "set (remove_files ok fs dir) \<subseteq> set dir"
proof (induction fs arbitrary: dir)
  case (Cons f fs)
  have "set (AList.delete f dir) \<subseteq> set dir" by (auto simp: AList.delete_eq)
  then show ?case using Cons [of dir] Cons [of "AList.delete f dir"] by auto
qed simp

lemma keep_last_snoc:
  "keep_last n (xs @ [x]) = (let ys = keep_last n xs @ [x] in drop (length ys - n) ys)"
proof -
  have ys: "keep_last n xs @ [x] = drop (length xs - n) (xs @ [x])" by (simp add: keep_last_def)
  have "length (drop (length xs - n) (xs @ [x])) - n + (length xs - n) = length (xs @ [x]) - n" by auto
  then show ?thesis unfolding Let_def ys drop_drop by (simp add: keep_last_def)
qed

lemma keep_last_subset: "set (keep_last n xs) \<subseteq> set xs"
  by (simp add: keep_last_def set_drop_subset)

lemma file_name_eq [simp]: "file_name m cp = file_name m cp' \<longleftrightarrow> cp_ID cp = cp_ID cp'"
  by (simp add: file_name_def)

lemma persist_failed:
  "persistCheckpoint encode env m cp dir = (False, dir') \<Longrightarrow>
     dir' = dir \<or> (\<exists>rest. ck_write env = PartlyWritten rest \<and> dir' = AList.update (file_name m cp) (ck_mtime env, rest) dir)"
  by (auto simp: persistCheckpoint_def split: option.splits write_outcome.splits)

lemma file_name_mem: "file_name m cp \<in> file_name m ` A \<longleftrightarrow> cp_ID cp \<in> cp_ID ` A"
  by (auto simp: image_iff)

lemma CreateCheckpoint_Inl:
  assumes "CreateCheckpoint gs sn marshal encode env offsets m dir = (Inl e, m', dir')"
  shows "m' = m \<and> (dir' = dir \<or> (\<exists>cp rest. cp_ID cp = checkpoint_id (ck_nanos env) \<and> ck_write env = PartlyWritten rest \<and>
    dir' = AList.update (file_name m cp) (ck_mtime env, rest) dir))"
proof -
  define cp where "cp sd = \<lparr>cp_ID = checkpoint_id (ck_nanos env), cp_Timestamp = ck_now env, cp_Offsets = offsets, cp_StateData = sd\<rparr>" for sd
  have "m' = m \<and> (dir' = dir \<or> (\<exists>sd. persistCheckpoint encode env m (cp sd) dir = (False, dir')))"
    using assms
    by (auto simp: CreateCheckpoint_def Let_def cp_def [symmetric] simp del: append_Cons
        split: sum.splits option.splits prod.splits bool.splits)
  moreover have "cp_ID (cp sd) = checkpoint_id (ck_nanos env)" for sd by (simp add: cp_def)
  ultimately show ?thesis using persist_failed [of encode env m _ dir dir'] by metis
qed

lemma CreateCheckpoint_data:
  assumes "CreateCheckpoint gs sn marshal encode env offsets m dir = (Inr cp, m', dir')"
  obtains combined snaps where "collect_state gs 0 (stateProviders m) Map.empty = Inr combined"
    "collect_snapshots sn 0 (stateBackends m) Map.empty = Inr snaps"
    "marshal (GoMap (if incrementalEnabled m then computeIncrementalChanges (lastCheckpointData m) (full_data combined snaps) snaps
        else full_data combined snaps)) = Some (cp_StateData cp)"
proof -
  obtain combined where 1: "collect_state gs 0 (stateProviders m) Map.empty = Inr combined"
    using assms by (auto simp: CreateCheckpoint_def split: sum.splits)
  obtain snaps where 2: "collect_snapshots sn 0 (stateBackends m) Map.empty = Inr snaps"
    using assms by (auto simp: CreateCheckpoint_def split: sum.splits)
  have "marshal (GoMap (if incrementalEnabled m then computeIncrementalChanges (lastCheckpointData m) (full_data combined snaps) snaps
        else full_data combined snaps)) = Some (cp_StateData cp)"
    using assms 1 2 by (auto simp: CreateCheckpoint_def Let_def split: option.splits prod.splits bool.splits)
  with 1 2 that show thesis by blast
qed

lemma CreateCheckpoint_Inr:
  assumes "CreateCheckpoint gs sn marshal encode env offsets m dir = (Inr cp, m', dir')"
  obtains prev d where "encode cp = Some d" "cp_ID cp = checkpoint_id (ck_nanos env)"
    "(m', dir') = cleanupOldCheckpoints (ck_remove env) (m\<lparr>lastCheckpointData := prev, checkpoints := checkpoints m @ [cp]\<rparr>)
        (AList.update (file_name m cp) (ck_mtime env, d) dir)"
proof -
  obtain combined snaps where data: "collect_state gs 0 (stateProviders m) Map.empty = Inr combined"
    "collect_snapshots sn 0 (stateBackends m) Map.empty = Inr snaps"
    "marshal (GoMap (if incrementalEnabled m then computeIncrementalChanges (lastCheckpointData m) (full_data combined snaps) snaps
        else full_data combined snaps)) = Some (cp_StateData cp)"
    using assms by (rule CreateCheckpoint_data)
  define prev where "prev = (if incrementalEnabled m then snaps else lastCheckpointData m)"
  define cp' where "cp' = \<lparr>cp_ID = checkpoint_id (ck_nanos env), cp_Timestamp = ck_now env,
     cp_Offsets = offsets, cp_StateData = cp_StateData cp\<rparr>"
  note run = assms [unfolded CreateCheckpoint_def data(1,2) sum.case Let_def, unfolded data(3) option.case, folded cp'_def]
  obtain dir1 where 4: "persistCheckpoint encode env m cp' dir = (True, dir1)"
    using run by (cases "persistCheckpoint encode env m cp' dir") (auto split: bool.splits)
  have m1: "(if incrementalEnabled m then m\<lparr>lastCheckpointData := snaps\<rparr> else m) = m\<lparr>lastCheckpointData := prev\<rparr>"
    by (simp add: prev_def)
  have cp: "cp = cp'" "(m', dir') = cleanupOldCheckpoints (ck_remove env) (m\<lparr>lastCheckpointData := prev, checkpoints := checkpoints m @ [cp]\<rparr>) dir1"
    using run unfolding 4 m1 by (auto split: prod.splits)
  from 4 obtain d where d: "encode cp' = Some d" "dir1 = AList.update (file_name m cp') (ck_mtime env, d) dir"
    by (auto simp: persistCheckpoint_def split: option.splits write_outcome.splits)
  have "cp_ID cp = checkpoint_id (ck_nanos env)" by (subst cp(1)) (simp add: cp'_def)
  from that [OF d(1) [folded cp(1)] this cp(2) [unfolded d(2), folded cp(1)]] show thesis .
qed

lemma clean_snoc:
  "clean_writes (envs @ [x]) \<longleftrightarrow> clean_writes envs \<and> (ck_write (fst x) = Written \<or> ck_write (fst x) = NotWritten)"
  "clean_removes (envs @ [x]) \<longleftrightarrow> clean_removes envs \<and> (\<forall>f. ck_remove (fst x) f)"
  by (auto simp: clean_writes_def clean_removes_def)

text \<open>A checkpoint that fails may leave a file with an identifier of its own.\<close>

lemma ck_inv_failed:
  assumes "ck_inv encode dir0 envs made m dir"
    and "dir' = dir \<or> (\<exists>cp rest. cp_ID cp \<notin> cp_ID ` fst ` set made \<and> ck_write (fst x) = PartlyWritten rest \<and>
      dir' = AList.update (file_name m cp) (t, rest) dir)"
  shows "ck_inv encode dir0 (envs @ [x]) made m dir'"
  using assms(2)
proof (elim disjE exE conjE)
  assume "dir' = dir"
  then show ?thesis using assms(1) by (auto simp: ck_inv_def clean_snoc)
next
  fix cp rest
  assume new: "cp_ID cp \<notin> cp_ID ` fst ` set made" and w: "ck_write (fst x) = PartlyWritten rest"
    and dir': "dir' = AList.update (file_name m cp) (t, rest) dir"
  have other: "map_of dir' (file_name m c) = map_of dir (file_name m c)" if "(c, u) \<in> set made" for c u
  proof -
    have "cp_ID c \<noteq> cp_ID cp" using new that by (metis fst_conv image_eqI)
    then show ?thesis by (simp add: dir' update_conv')
  qed
  have sub: "set (keep_last (maxCheckpoints m) made) \<subseteq> set made" by (rule keep_last_subset)
  have "\<not> clean_writes (envs @ [x])" using w by (simp add: clean_snoc)
  moreover have "distinct (map fst dir')" using assms(1) by (simp add: dir' ck_inv_def distinct_update)
  moreover have "\<forall>(c, u) \<in> set (keep_last (maxCheckpoints m) made). map_of dir' (file_name m c) = Some (u, the (encode c))"
  proof clarify
    fix c u
    assume k: "(c, u) \<in> set (keep_last (maxCheckpoints m) made)"
    then have "map_of dir (file_name m c) = Some (u, the (encode c))" using assms(1) unfolding ck_inv_def by blast
    moreover have "(c, u) \<in> set made" using k sub by blast
    ultimately show "map_of dir' (file_name m c) = Some (u, the (encode c))" by (simp add: other)
  qed
  ultimately show ?thesis using assms(1) by (simp add: ck_inv_def)
qed

text \<open>A checkpoint that succeeds.\<close>

lemma without_gone: "T \<subseteq> M \<Longrightarrow> D \<inter> T = {} \<Longrightarrow> (A - M \<union> (T \<union> D)) - T = (A - M) \<union> D"
  by blast

lemma ck_inv_created:
  assumes inv: "ck_inv encode dir0 envs made m dir" and new: "encode cp = Some d" "cp_ID cp \<notin> cp_ID ` fst ` set made"
    and clean: "(m', dir') = cleanupOldCheckpoints (ck_remove (fst x)) (m\<lparr>lastCheckpointData := prev, checkpoints := checkpoints m @ [cp]\<rparr>)
        (AList.update (file_name m cp) (t, d) dir)"
    and dist: "distinct (map (cp_ID \<circ> fst) made)"
  shows "ck_inv encode dir0 (envs @ [x]) (made @ [(cp, t)]) m' dir' \<and> maxCheckpoints m' = maxCheckpoints m \<and> checkpointDir m' = checkpointDir m"
proof -
  let ?n = "maxCheckpoints m"
  define kept where "kept = keep_last ?n made @ [(cp, t)]"
  define k where "k = length kept - ?n"
  define dir1 where "dir1 = AList.update (file_name m cp) (t, d) dir"
  have sub: "set (keep_last ?n made) \<subseteq> set made" by (rule keep_last_subset)
  then have fresh: "\<forall>y \<in> set (keep_last ?n made). cp_ID (fst y) \<noteq> cp_ID cp" using new(2) by (metis image_eqI subsetD)
  have "distinct (map (cp_ID \<circ> fst) (keep_last ?n made))"
    using dist unfolding keep_last_def by (metis distinct_drop drop_map)
  then have dk: "distinct (map (cp_ID \<circ> fst) kept)" using fresh by (fastforce simp: kept_def)
  have cks: "checkpoints m @ [cp] = map fst kept" using inv by (simp add: ck_inv_def kept_def)
  have m': "m' = m\<lparr>lastCheckpointData := prev, checkpoints := map fst (drop k kept)\<rparr>"
    and dir': "dir' = remove_files (ck_remove (fst x)) (map (file_name m) (map fst (take k kept))) dir1"
    using clean cks
    by (cases "length kept \<le> ?n"; simp add: cleanupOldCheckpoints_def dir1_def Let_def take_map drop_map k_def file_name_def [abs_def])+
  have last: "keep_last ?n (made @ [(cp, t)]) = drop k kept" by (simp add: keep_last_snoc kept_def Let_def k_def)
  have fn: "file_name m' = file_name m" by (simp add: m' file_name_def [abs_def])
  have d1: "distinct (map fst dir1)" using inv by (simp add: dir1_def ck_inv_def distinct_update)
  have look: "map_of dir1 (file_name m c) = Some (u, the (encode c))" if "(c, u) \<in> set kept" for c u
  proof (cases "(c, u) \<in> set (keep_last ?n made)")
    case True
    then have "cp_ID c \<noteq> cp_ID cp" using fresh by fastforce
    moreover have "map_of dir (file_name m c) = Some (u, the (encode c))" using inv True unfolding ck_inv_def by blast
    ultimately show ?thesis by (simp add: dir1_def update_conv')
  next
    case False
    then show ?thesis using that new(1) by (simp add: kept_def dir1_def update_conv')
  qed
  have apart: "file_name m (fst y) \<notin> file_name m ` fst ` set (take k kept)" if "y \<in> set (drop k kept)" for y
  proof -
    have "distinct (map (cp_ID \<circ> fst) (take k kept @ drop k kept))" using dk by simp
    then have "(cp_ID \<circ> fst) ` set (take k kept) \<inter> (cp_ID \<circ> fst) ` set (drop k kept) = {}" unfolding map_append distinct_append by simp
    moreover have "(cp_ID \<circ> fst) y \<in> (cp_ID \<circ> fst) ` set (drop k kept)" using that by (rule imageI)
    ultimately have "(cp_ID \<circ> fst) y \<notin> (cp_ID \<circ> fst) ` set (take k kept)" by blast
    then show ?thesis unfolding file_name_mem by (simp add: image_image)
  qed
  have A: "\<forall>(c, u) \<in> set (drop k kept). map_of dir' (file_name m c) = Some (u, the (encode c))"
  proof (clarify)
    fix c u
    assume y: "(c, u) \<in> set (drop k kept)"
    have "map_of dir1 (file_name m c) = Some (u, the (encode c))" by (rule look [OF in_set_dropD [OF y]])
    moreover have "file_name m c \<notin> set (map (file_name m) (map fst (take k kept)))" using apart [OF y] by (simp add: image_image)
    ultimately show "map_of dir' (file_name m c) = Some (u, the (encode c))" by (simp add: dir' remove_files_map_of restrict_map_def)
  qed
  have B: "\<forall>f \<in> set dir'. f \<in> set dir0 \<or> (\<exists>(c, u) \<in> set (made @ [(cp, t)]). f = (file_name m c, u, the (encode c)))"
    if "clean_writes (envs @ [x])"
  proof
    fix f
    assume "f \<in> set dir'"
    then have "f \<in> set dir1" using remove_files_subset unfolding dir' by fast
    then have "f \<in> set dir \<or> f = (file_name m cp, t, d)" unfolding dir1_def
      by (metis (no_types, opaque_lifting) d1 dir1_def fun_upd_apply map_of_SomeD map_of_is_SomeI option.sel prod.collapse update_conv')
    then show "f \<in> set dir0 \<or> (\<exists>(c, u) \<in> set (made @ [(cp, t)]). f = (file_name m c, u, the (encode c)))"
      using that inv new(1) by (fastforce simp: ck_inv_def clean_snoc)
  qed
  have C: "fst ` set dir' = (fst ` set dir0 - file_name m ` fst ` set (made @ [(cp, t)])) \<union> file_name m ` fst ` set (drop k kept)"
    if "clean_writes (envs @ [x])" "clean_removes (envs @ [x])"
  proof -
    let ?gone = "file_name m ` fst ` set (take k kept)"
    have old: "fst ` set dir = (fst ` set dir0 - file_name m ` fst ` set made) \<union> file_name m ` fst ` set (keep_last ?n made)"
      using that inv by (auto simp: ck_inv_def clean_snoc)
    have "fst ` set dir1 = insert (file_name m cp) (fst ` set dir)"
      unfolding dir1_def by (metis dom_map_of_conv_image_fst dom_fun_upd option.distinct(1) update_conv')
    then have "fst ` set dir1 = insert (file_name m cp) (fst ` set dir0 - file_name m ` fst ` set made) \<union> file_name m ` fst ` set (keep_last ?n made)"
      unfolding old by blast
    also have "\<dots> = (fst ` set dir0 - file_name m ` fst ` set (made @ [(cp, t)])) \<union> file_name m ` fst ` set kept"
      by (auto simp: kept_def)
    finally have one: "fst ` set dir1 = (fst ` set dir0 - file_name m ` fst ` set (made @ [(cp, t)])) \<union> file_name m ` fst ` set kept" .
    have "\<forall>f. ck_remove (fst x) f" using that(2) by (simp add: clean_snoc)
    then have "dom (map_of dir') = dom (map_of dir1) - ?gone" by (simp add: dir' remove_files_map_of image_image Diff_eq)
    then have two: "fst ` set dir' = fst ` set dir1 - ?gone" by (simp add: dom_map_of_conv_image_fst)
    have kept: "set kept = set (take k kept) \<union> set (drop k kept)" by (metis append_take_drop_id set_append)
    have "set (take k kept) \<subseteq> set (made @ [(cp, t)])" using sub set_take_subset [of k kept] by (auto simp: kept_def)
    then have g: "?gone \<subseteq> file_name m ` fst ` set (made @ [(cp, t)])" by blast
    have "file_name m ` fst ` set (drop k kept) \<inter> ?gone = {}" using apart by blast
    from without_gone [OF g this] show ?thesis unfolding two one by (subst kept) (simp only: image_Un)
  qed
  have "distinct (map fst dir')" using d1 by (simp add: dir' remove_files_distinct)
  moreover have "checkpoints m' = map fst (drop k kept)" "maxCheckpoints m' = ?n" by (simp_all add: m')
  moreover have "\<forall>(c, u) \<in> set (made @ [(cp, t)]). encode c \<noteq> None" using inv new(1) by (auto simp: ck_inv_def)
  ultimately show ?thesis using A B C by (simp add: ck_inv_def last fn) (simp add: m')
qed

lemma checkpoint_id_inj [simp]: "checkpoint_id a = checkpoint_id b \<longleftrightarrow> a = b"
  using show_int_inj by (auto simp: checkpoint_id_def)

lemma create_all_snoc:
  "create_all gs sn marshal encode (envs @ [x]) m dir =
     (let (rs, m1, dir1) = create_all gs sn marshal encode envs m dir;
          (r, m2, dir2) = CreateCheckpoint gs sn marshal encode (fst x) (snd x) m1 dir1
      in (rs @ [r], m2, dir2))"
  by (cases x, induction envs arbitrary: m dir) (auto simp: split_def Let_def)

lemma create_all_length: "create_all gs sn marshal encode envs m dir = (rs, m', dir') \<Longrightarrow> length rs = length envs"
  by (induction envs arbitrary: m dir rs) (auto split: prod.splits)

lemma created_snoc:
  "length rs = length envs \<Longrightarrow> created (envs @ [x]) (rs @ [r]) =
     created envs rs @ (case r of Inl e \<Rightarrow> [] | Inr cp \<Rightarrow> [(cp, ck_mtime (fst x))])"
proof (induction rs envs rule: list_induct2)
  case Nil
  then show ?case by (cases x; cases r) auto
next
  case (Cons y ys z zs)
  then show ?case by (cases y; cases z) auto
qed

text \<open>What is known of the created checkpoints: their identifiers come from the clock and their files' times from
  the file system, in order.\<close>

definition stamps :: "('d ck_env \<times> (int \<rightharpoonup> int)) list \<Rightarrow> (Checkpoint \<times> gtime) list \<Rightarrow> bool" where
  "stamps envs made \<longleftrightarrow> (\<forall>(cp, t) \<in> set made. \<exists>e \<in> set envs. cp_ID cp = checkpoint_id (ck_nanos (fst e)) \<and> t = ck_mtime (fst e)) \<and>
     distinct (map (cp_ID \<circ> fst) made)"

lemma create_all_inv:
  assumes "create_all gs sn marshal encode envs m dir0 = (rs, m', dir')" "ck_inv encode dir0 [] [] m dir0"
    and "distinct (map (ck_nanos \<circ> fst) envs)"
  shows "ck_inv encode dir0 envs (created envs rs) m' dir' \<and> stamps envs (created envs rs) \<and>
    maxCheckpoints m' = maxCheckpoints m \<and> checkpointDir m' = checkpointDir m"
  using assms
proof (induction envs arbitrary: rs m' dir' rule: rev_induct)
  case Nil
  then show ?case by (simp add: stamps_def)
next
  case (snoc x envs)
  obtain rs1 m1 dir1 where 1: "create_all gs sn marshal encode envs m dir0 = (rs1, m1, dir1)" by (rule prod_cases3)
  obtain r m2 dir2 where 2: "CreateCheckpoint gs sn marshal encode (fst x) (snd x) m1 dir1 = (r, m2, dir2)" by (rule prod_cases3)
  have eq: "rs = rs1 @ [r]" "m' = m2" "dir' = dir2" using snoc.prems(1) 1 2 by (auto simp: create_all_snoc)
  let ?made = "created envs rs1"
  have IH: "ck_inv encode dir0 envs ?made m1 dir1" "stamps envs ?made" "maxCheckpoints m1 = maxCheckpoints m" "checkpointDir m1 = checkpointDir m"
    using snoc.IH [OF 1 snoc.prems(2)] snoc.prems(3) by auto
  have made: "created (envs @ [x]) rs = ?made @ (case r of Inl e \<Rightarrow> [] | Inr cp \<Rightarrow> [(cp, ck_mtime (fst x))])"
    using created_snoc [OF create_all_length [OF 1]] eq by simp
  have new: "cp_ID c \<noteq> checkpoint_id (ck_nanos (fst x))" if mem: "(c, t) \<in> set ?made" for c t
  proof -
    from bspec [OF conjunct1 [OF IH(2) [unfolded stamps_def]] mem] obtain e where e: "e \<in> set envs" "cp_ID c = checkpoint_id (ck_nanos (fst e))"
      unfolding prod.case by (elim bexE conjE) (rule that)
    have "ck_nanos (fst e) \<noteq> ck_nanos (fst x)" using snoc.prems(3) e(1) by (auto simp: image_iff)
    then show ?thesis by (simp add: e(2))
  qed
  have fresh: "cp_ID cp \<notin> cp_ID ` fst ` set ?made" if "cp_ID cp = checkpoint_id (ck_nanos (fst x))" for cp
  proof
    assume "cp_ID cp \<in> cp_ID ` fst ` set ?made"
    then obtain c t where "(c, t) \<in> set ?made" "cp_ID cp = cp_ID c" by auto
    then show False using new that by metis
  qed
  have st: "stamps (envs @ [x]) ?made" using IH(2) by (auto simp: stamps_def)
  show ?case
  proof (cases r)
    case (Inl e)
    have "m2 = m1" and "dir2 = dir1 \<or> (\<exists>cp rest. cp_ID cp \<notin> cp_ID ` fst ` set ?made \<and> ck_write (fst x) = PartlyWritten rest \<and>
        dir2 = AList.update (file_name m1 cp) (ck_mtime (fst x), rest) dir1)"
      using CreateCheckpoint_Inl [OF 2 [unfolded Inl]] fresh by blast+
    then have "ck_inv encode dir0 (envs @ [x]) ?made m2 dir2" using ck_inv_failed [OF IH(1)] by blast
    then show ?thesis using st IH(3,4) made eq Inl \<open>m2 = m1\<close> by simp
  next
    case (Inr cp)
    obtain prev d where cp: "encode cp = Some d" "cp_ID cp = checkpoint_id (ck_nanos (fst x))"
      "(m2, dir2) = cleanupOldCheckpoints (ck_remove (fst x)) (m1\<lparr>lastCheckpointData := prev, checkpoints := checkpoints m1 @ [cp]\<rparr>)
        (AList.update (file_name m1 cp) (ck_mtime (fst x), d) dir1)"
      using CreateCheckpoint_Inr [OF 2 [unfolded Inr]] by metis
    note f = fresh [OF cp(2)]
    have "ck_inv encode dir0 (envs @ [x]) (?made @ [(cp, ck_mtime (fst x))]) m2 dir2 \<and> maxCheckpoints m2 = maxCheckpoints m1 \<and> checkpointDir m2 = checkpointDir m1"
      by (rule ck_inv_created [OF IH(1) cp(1) f cp(3)]) (use IH(2) in \<open>simp add: stamps_def\<close>)
    moreover have "stamps (envs @ [x]) (?made @ [(cp, ck_mtime (fst x))])"
      using st f cp(2) unfolding stamps_def by (simp add: image_image)
    ultimately show ?thesis using made eq Inr IH(3,4) by simp
  qed
qed

text \<open>\<open>LoadLatestCheckpoint\<close> finds the file whose time is later than that of all others.\<close>

lemma latest_file_spec:
  assumes "\<forall>f \<in> set dir. fst (snd f) \<le> tm" "(name, tm, d) \<in> set dir" "\<forall>f \<in> set dir. fst (snd f) = tm \<longrightarrow> fst f = name" "t < tm"
  shows "latest_file (\<lambda>_. True) dir t best = name"
proof -
  have stay: "latest_file (\<lambda>_. True) fs tm b = b" if "\<forall>f \<in> set fs. fst (snd f) \<le> tm" for fs b
    using that by (induction fs) (auto simp: time_After_def)
  show ?thesis using assms
  proof (induction dir arbitrary: t best)
    case (Cons f dir)
    obtain nm mt dt where f: "f = (nm, mt, dt)" by (rule prod_cases3)
    show ?case
    proof (cases "mt = tm")
      case True
      then show ?thesis using Cons.prems f stay [of dir] by (auto simp: time_After_def)
    next
      case False
      then have "mt < tm" using Cons.prems(1) f by auto
      then show ?thesis using Cons f False by (auto simp: time_After_def)
    qed
  qed simp
qed

lemma load_latest:
  assumes found: "map_of dir name = Some (t, d)" and d: "decode d = Some cp" and t: "0 < t"
    and late: "\<forall>f \<in> set dir. fst f = name \<or> fst (snd f) < t" and dist: "distinct (map fst dir)"
  shows "LoadLatestCheckpoint decode (\<lambda>_. True) dir = Inr cp"
proof -
  have "f = (name, t, d)" if "f \<in> set dir" "fst f = name" for f
    using that found dist by (metis map_of_is_SomeI option.sel prod.collapse)
  then have "\<forall>f \<in> set dir. fst (snd f) \<le> t" "\<forall>f \<in> set dir. fst (snd f) = t \<longrightarrow> fst f = name"
    using late by fastforce+
  then have "latest_file (\<lambda>_. True) dir zero_time '''' = name"
    using map_of_SomeD [OF found] t by (intro latest_file_spec) (auto simp: zero_time_def)
  then show ?thesis using found d by (auto simp: LoadLatestCheckpoint_def)
qed

lemma keep_last_last: "0 < n \<Longrightarrow> xs \<noteq> [] \<Longrightarrow> last xs \<in> set (keep_last n xs)"
proof -
  assume "0 < n" "xs \<noteq> []"
  then have "length xs - n < length xs" by simp
  then have "drop (length xs - n) xs \<noteq> []" by simp
  then show ?thesis unfolding keep_last_def by (metis last_drop last_in_set length_drop zero_less_diff length_greater_0_conv)
qed

text \<open>The times of the files of the checkpoints that succeeded are those of the file system, in order.\<close>

lemma created_times:
  "sorted_wrt (<) (map (ck_mtime \<circ> fst) envs) \<Longrightarrow> length rs = length envs \<Longrightarrow>
     sorted_wrt (<) (map snd (created envs rs)) \<and> set (map snd (created envs rs)) \<subseteq> set (map (ck_mtime \<circ> fst) envs)"
proof (induction envs arbitrary: rs)
  case (Cons x envs)
  obtain env offs where x: "x = (env, offs)" by (rule prod.exhaust)
  obtain r rs' where rs: "rs = r # rs'" "length rs' = length envs" using Cons.prems(2) by (cases rs) auto
  have IH: "sorted_wrt (<) (map snd (created envs rs'))" "set (map snd (created envs rs')) \<subseteq> set (map (ck_mtime \<circ> fst) envs)"
    using Cons.IH [of rs'] Cons.prems(1) rs(2) by auto
  show ?case
  proof (cases r)
    case (Inr cp)
    have "ck_mtime env < t" if "t \<in> set (map snd (created envs rs'))" for t
    proof -
      have "t \<in> set (map (ck_mtime \<circ> fst) envs)" using IH(2) that by blast
      then show ?thesis using Cons.prems(1) x by auto
    qed
    then show ?thesis using IH x rs(1) Inr by auto
  qed (use IH x rs in auto)
qed simp

text \<open>C30: The manager keeps the last five checkpoints. Whatever sequence of checkpoints a new manager is asked to make, in
  whatever directory, and whichever of them fail, its list is that of the last five that succeeded, oldest
  first, and each of these has its file in the directory, with its contents; here the clock is assumed to
  give different nanoseconds. If moreover failing writes leave no partial file and removals succeed,
  the directory holds besides these files only those that were there before and were not overwritten. And if
  failing writes leave no partial file, modification times increase and exceed those of the files that were there
  before, and there was at least one success, then \<open>LoadLatestCheckpoint\<close>, which is assumed to be able to inspect
  every file, returns the last checkpoint that succeeded, whether or not removals succeed.\<close>

theorem checkpoint_retention:
  assumes run: "create_all gs sn marshal encode envs (NewCheckpointManager interval dirname) dir0 = (rs, m, dir)"
    and names: "distinct (map fst dir0)" and clock: "distinct (map (ck_nanos \<circ> fst) envs)"
    and codec: "\<forall>cp d. encode cp = Some d \<longrightarrow> decode d = Some cp"
  shows "GetCheckpoints m = map fst (keep_last 5 (created envs rs)) \<and>
    (\<forall>cp \<in> set (GetCheckpoints m). \<exists>t d. map_of dir (file_name m cp) = Some (t, d) \<and> decode d = Some cp) \<and>
    (clean_writes envs \<and> clean_removes envs \<longrightarrow>
      fst ` set dir = (fst ` set dir0 - file_name m ` set (map fst (created envs rs))) \<union> file_name m ` set (GetCheckpoints m)) \<and>
    (clean_writes envs \<and> sorted_wrt (<) (map (ck_mtime \<circ> fst) envs) \<and> (\<forall>e \<in> set envs. 0 < ck_mtime (fst e)) \<and>
      (\<forall>e \<in> set envs. \<forall>f \<in> set dir0. fst (snd f) < ck_mtime (fst e)) \<and> created envs rs \<noteq> [] \<longrightarrow>
      LoadLatestCheckpoint decode (\<lambda>_. True) dir = Inr (fst (last (created envs rs))))"
proof -
  let ?made = "created envs rs"
  have "ck_inv encode dir0 [] [] (NewCheckpointManager interval dirname) dir0"
    using names by (simp add: ck_inv_def NewCheckpointManager_def keep_last_def)
  from create_all_inv [OF run this clock]
  have inv: "ck_inv encode dir0 envs ?made m dir" and mx: "maxCheckpoints m = 5" by (auto simp: NewCheckpointManager_def)
  have enc: "\<exists>d. encode cp = Some d \<and> decode d = Some cp" if "(cp, t) \<in> set ?made" for cp t
  proof -
    have "\<forall>(cp, t) \<in> set ?made. encode cp \<noteq> None" using inv unfolding ck_inv_def by (elim conjE)
    from bspec [OF this that] obtain d where "encode cp = Some d" by auto
    with codec show ?thesis by blast
  qed
  have kept: "\<exists>d. map_of dir (file_name m cp) = Some (t, d) \<and> decode d = Some cp" if k: "(cp, t) \<in> set (keep_last 5 ?made)" for cp t
  proof -
    obtain d where d: "encode cp = Some d" "decode d = Some cp" using enc [OF subsetD [OF keep_last_subset k]] by blast
    have "\<forall>(cp, t) \<in> set (keep_last 5 ?made). map_of dir (file_name m cp) = Some (t, the (encode cp))"
      using inv unfolding ck_inv_def mx by (elim conjE)
    from bspec [OF this k] have "map_of dir (file_name m cp) = Some (t, the (encode cp))" by simp
    with d show ?thesis by simp
  qed
  have listed: "GetCheckpoints m = map fst (keep_last 5 ?made)" using inv mx by (simp add: ck_inv_def GetCheckpoints_def)
  moreover have "\<forall>cp \<in> set (GetCheckpoints m). \<exists>t d. map_of dir (file_name m cp) = Some (t, d) \<and> decode d = Some cp"
    using kept by (fastforce simp: listed)
  moreover have "clean_writes envs \<and> clean_removes envs \<longrightarrow>
      fst ` set dir = (fst ` set dir0 - file_name m ` set (map fst ?made)) \<union> file_name m ` set (GetCheckpoints m)"
    using inv mx by (simp add: ck_inv_def listed)
  moreover have "LoadLatestCheckpoint decode (\<lambda>_. True) dir = Inr (fst (last ?made))"
    if clean: "clean_writes envs" and sorted: "sorted_wrt (<) (map (ck_mtime \<circ> fst) envs)"
      and pos: "\<forall>e \<in> set envs. 0 < ck_mtime (fst e)" and old: "\<forall>e \<in> set envs. \<forall>f \<in> set dir0. fst (snd f) < ck_mtime (fst e)"
      and ne: "?made \<noteq> []"
  proof -
    note times = created_times [OF sorted create_all_length [OF run]]
    obtain cp t where l: "last ?made = (cp, t)" by (rule prod.exhaust)
    have mem: "(cp, t) \<in> set ?made" using last_in_set [OF ne] l by simp
    obtain d where d: "map_of dir (file_name m cp) = Some (t, d)" "decode d = Some cp"
      using kept [of cp t] keep_last_last [OF _ ne, of 5] l by auto
    have "t \<in> set (map (ck_mtime \<circ> fst) envs)" using times mem by force
    then obtain e where e: "e \<in> set envs" "t = ck_mtime (fst e)" by auto
    have "fst f = file_name m cp \<or> fst (snd f) < t" if f: "f \<in> set dir" for f
    proof -
      consider "f \<in> set dir0" | c u where "(c, u) \<in> set ?made" "f = (file_name m c, u, the (encode c))"
      proof -
        have "\<forall>f \<in> set dir. f \<in> set dir0 \<or> (\<exists>(c, u) \<in> set ?made. f = (file_name m c, u, the (encode c)))"
          using inv clean by (simp add: ck_inv_def)
        from bspec [OF this f] that show thesis by auto
      qed
      then show ?thesis
      proof cases
        case 1
        then show ?thesis using old e by simp
      next
        case 2
        have split: "?made = butlast ?made @ [(cp, t)]" using ne l by (metis append_butlast_last_id)
        have "sorted_wrt (<) (map snd (butlast ?made @ [(cp, t)]))" using times split by simp
        then have "\<forall>x \<in> set (butlast ?made). snd x < t" by (simp add: sorted_wrt_append)
        moreover have "(c, u) \<in> set (butlast ?made) \<or> (c, u) = (cp, t)" using 2(1) by (subst (asm) split) auto
        ultimately show ?thesis using 2(2) by auto
      qed
    qed
    moreover have "distinct (map fst dir)" using inv by (simp add: ck_inv_def)
    ultimately show "LoadLatestCheckpoint decode (\<lambda>_. True) dir = Inr (fst (last ?made))"
      using load_latest [where decode = decode, OF d] pos e l by simp
  qed
  ultimately show ?thesis by blast
qed

definition sample_ck_env :: "int \<Rightarrow> 'd write_outcome \<Rightarrow> 'd ck_env" where
  "sample_ck_env t w = \<lparr>ck_nanos = t, ck_now = t, ck_mtime = t, ck_write = w, ck_remove = (\<lambda>_. True)\<rparr>"

theorem checkpoint_retention_witness:
  "let envs = [(sample_ck_env 1 Written, Map.empty), (sample_ck_env 2 Written, [0 \<mapsto> 7]), (sample_ck_env 3 NotWritten, Map.empty)];
       old = \<lparr>cp_ID = ''checkpoint-0'', cp_Timestamp = 0, cp_Offsets = Map.empty, cp_StateData = []\<rparr>;
       (rs, m, dir) = create_all (\<lambda>p :: unit. Inr (Map.empty :: string \<rightharpoonup> unit)) (\<lambda>b :: unit. Inr None) (\<lambda>j. Some [1]) Some envs
         (NewCheckpointManager 0 '''') [(''./checkpoints/checkpoint-0.json'', 0, old)]
   in length (GetCheckpoints m) = 2 \<and> rs ! 2 = Inl PersistCheckpoint \<and>
      LoadLatestCheckpoint Some (\<lambda>_. True) dir =
        Inr \<lparr>cp_ID = checkpoint_id 2, cp_Timestamp = 2, cp_Offsets = [0 \<mapsto> 7], cp_StateData = [1]\<rparr>"
proof -
  define envs where "envs = [(sample_ck_env 1 Written :: Checkpoint ck_env, Map.empty :: int \<rightharpoonup> int), (sample_ck_env 2 Written, [0 \<mapsto> 7]), (sample_ck_env 3 NotWritten, Map.empty)]"
  define dir0 where "dir0 = [(''./checkpoints/checkpoint-0.json'', 0 :: gtime, \<lparr>cp_ID = ''checkpoint-0'', cp_Timestamp = 0, cp_Offsets = Map.empty, cp_StateData = []\<rparr>)]"
  let ?cp = "\<lambda>t offs. \<lparr>cp_ID = checkpoint_id t, cp_Timestamp = t, cp_Offsets = offs, cp_StateData = [1]\<rparr>"
  let ?run = "create_all (\<lambda>p :: unit. Inr (Map.empty :: string \<rightharpoonup> unit)) (\<lambda>b :: unit. Inr None) (\<lambda>j. Some [1]) Some envs (NewCheckpointManager 0 '''') dir0"
  obtain rs m dir where run: "?run = (rs, m, dir)" by (rule prod_cases3)
  have "fst ?run = [Inr (?cp 1 Map.empty), Inr (?cp 2 [0 \<mapsto> 7]), Inl PersistCheckpoint]"
    by (simp add: envs_def sample_ck_env_def CreateCheckpoint_def NewCheckpointManager_def persistCheckpoint_def
        cleanupOldCheckpoints_def Let_def split_def)
  then have rs: "rs = [Inr (?cp 1 Map.empty), Inr (?cp 2 [0 \<mapsto> 7]), Inl PersistCheckpoint]" using run by simp
  have made: "created envs rs = [(?cp 1 Map.empty, 1), (?cp 2 [0 \<mapsto> 7], 2)]" by (simp add: rs envs_def sample_ck_env_def)
  have env: "distinct (map (ck_nanos \<circ> fst) envs)" "clean_writes envs" "sorted_wrt (<) (map (ck_mtime \<circ> fst) envs)"
    "\<forall>e \<in> set envs. 0 < ck_mtime (fst e)" "\<forall>e \<in> set envs. \<forall>f \<in> set dir0. fst (snd f) < ck_mtime (fst e)" "distinct (map fst dir0)"
    by (simp_all add: envs_def sample_ck_env_def clean_writes_def dir0_def)
  have "length (GetCheckpoints m) = 2 \<and> rs ! 2 = Inl PersistCheckpoint \<and>
      LoadLatestCheckpoint Some (\<lambda>_. True) dir = Inr \<lparr>cp_ID = checkpoint_id 2, cp_Timestamp = 2, cp_Offsets = [0 \<mapsto> 7], cp_StateData = [1]\<rparr>"
    using checkpoint_retention [OF run env(6,1), of Some] env made
    by (simp add: keep_last_def rs)
  then show ?thesis unfolding Let_def run [unfolded envs_def dir0_def] prod.case .
qed

text \<open>A partial file that is the newest one stops the manager from loading any checkpoint.\<close>

lemma partial_file_blocks_loading:
  assumes "map_of dir name = Some (t, rest)" "decode rest = None" "0 < t"
    and "\<forall>f \<in> set dir. fst f = name \<or> fst (snd f) < t" "distinct (map fst dir)"
  shows "LoadLatestCheckpoint decode (\<lambda>_. True) dir = Inl DecodeCheckpoint"
proof -
  have "f = (name, t, rest)" if "f \<in> set dir" "fst f = name" for f
    using that assms(1,5) by (metis map_of_is_SomeI option.sel prod.collapse)
  then have "\<forall>f \<in> set dir. fst (snd f) \<le> t" "\<forall>f \<in> set dir. fst (snd f) = t \<longrightarrow> fst f = name"
    using assms(4) by fastforce+
  then have "latest_file (\<lambda>_. True) dir zero_time '''' = name"
    using map_of_SomeD [OF assms(1)] assms(3) by (intro latest_file_spec) (auto simp: zero_time_def)
  then show ?thesis using assms(1,2) by (auto simp: LoadLatestCheckpoint_def)
qed

section \<open>Restoring\<close>

text \<open>
  What decoding gives of an encoded value; \<open>as_json\<close> is this for the values in the providers' states. A nil
  slice is written as \<open>null\<close>, any other as base64 text. \<open>encoding/json\<close> replaces bytes in strings and keys that are
  not UTF-8, so what is said of it is restricted to texts that are; \<open>json_codec\<close> collects that.
\<close>

primrec reread :: "('v \<Rightarrow> decoded) \<Rightarrow> 'v go_data \<Rightarrow> decoded" where
  "reread as_json (GoValue v) = as_json v"
| "reread as_json (GoBool b) = DBool b"
| "reread as_json (GoStr s) = DStr s"
| "reread as_json (GoSlice s) = (case s of None \<Rightarrow> DNull | Some b \<Rightarrow> DStr (base64 b))"
| "reread as_json (GoDecoded d) = d"
| "reread as_json (GoMap m) = DObj (\<lambda>k. map_option (reread as_json) (m k))"

definition continuation :: "8 word \<Rightarrow> bool" where
  "continuation b \<longleftrightarrow> 0x80 \<le> b \<and> b \<le> 0xBF"

fun valid_utf8 :: "bytes \<Rightarrow> bool" where
  "valid_utf8 [] = True"
| "valid_utf8 (a # xs) =
     (if a < 0x80 then valid_utf8 xs
      else if 0xC2 \<le> a \<and> a \<le> 0xDF then (case xs of b # ys \<Rightarrow> continuation b \<and> valid_utf8 ys | _ \<Rightarrow> False)
      else if 0xE0 \<le> a \<and> a \<le> 0xEF then
        (case xs of b # c # ys \<Rightarrow> continuation b \<and> continuation c \<and> (a = 0xE0 \<longrightarrow> 0xA0 \<le> b) \<and> (a = 0xED \<longrightarrow> b \<le> 0x9F) \<and> valid_utf8 ys
         | _ \<Rightarrow> False)
      else if 0xF0 \<le> a \<and> a \<le> 0xF4 then
        (case xs of b # c # d # ys \<Rightarrow> continuation b \<and> continuation c \<and> continuation d \<and> (a = 0xF0 \<longrightarrow> 0x90 \<le> b) \<and>
             (a = 0xF4 \<longrightarrow> b \<le> 0x8F) \<and> valid_utf8 ys
         | _ \<Rightarrow> False)
      else False)"

primrec texts_valid :: "'v go_data \<Rightarrow> bool" where
  "texts_valid (GoValue v) = True"
| "texts_valid (GoBool b) = True"
| "texts_valid (GoStr s) = valid_utf8 (string_bytes s)"
| "texts_valid (GoSlice s) = True"
| "texts_valid (GoDecoded d) \<longleftrightarrow> d = DNull"
| "texts_valid (GoMap m) = (\<forall>k. case map_option texts_valid (m k) of None \<Rightarrow> True | Some ok \<Rightarrow> valid_utf8 (string_bytes k) \<and> ok)"

definition json_codec :: "('v \<Rightarrow> decoded) \<Rightarrow> ('v go_data \<Rightarrow> bytes option) \<Rightarrow> (bytes \<Rightarrow> decoded option) \<Rightarrow> bool" where
  "json_codec as_json marshal unmarshal \<longleftrightarrow>
     (\<forall>v d. texts_valid v \<and> marshal v = Some d \<longrightarrow> unmarshal d = Some (reread as_json v))"

text \<open>The state handed back to the providers: the states of all providers, later ones winning.\<close>

definition merged :: "(string \<rightharpoonup> 'v) list \<Rightarrow> (string \<rightharpoonup> 'v)" where
  "merged states = foldl (++) Map.empty states"

lemma collect_state_merged:
  "collect_state gs i ps al = Inr combined \<Longrightarrow> combined = foldl (++) al (map (projr \<circ> gs) ps)"
  by (induction gs i ps al rule: collect_state.induct) (auto split: sum.splits)

lemma collect_state_keys:
  assumes "collect_state gs i ps al = Inr combined" "\<forall>k \<in> dom al. P k" "\<forall>p \<in> set ps. \<forall>st. gs p = Inr st \<longrightarrow> (\<forall>k \<in> dom st. P k)"
  shows "\<forall>k \<in> dom combined. P k"
  using assms by (induction gs i ps al rule: collect_state.induct) (auto split: sum.splits)

lemma backend_key_inj: "backend_key i = backend_key j \<Longrightarrow> i = j"
  by (simp add: backend_key_def show_nat_inj)

lemma collect_snapshots_spec:
  assumes "collect_snapshots sn i bs al = Inr snaps"
  shows "(\<forall>j < length bs. snaps (backend_key (i + j)) = Some (projr (sn (bs ! j)))) \<and>
    (\<forall>j < i. snaps (backend_key j) = al (backend_key j)) \<and> dom snaps \<subseteq> dom al \<union> range backend_key"
  using assms
proof (induction sn i bs al rule: collect_snapshots.induct)
  case (2 sn i b bs al)
  obtain d where d: "sn b = Inr d" using "2.prems" by (auto split: sum.splits)
  have run: "collect_snapshots sn (Suc i) bs (al(backend_key i \<mapsto> d)) = Inr snaps"
    using "2.prems" unfolding collect_snapshots.simps d sum.case .
  note all = "2.IH" [OF d run]
  note IH = conjunct1 [OF all] conjunct1 [OF conjunct2 [OF all]] conjunct2 [OF conjunct2 [OF all]]
  have "snaps (backend_key i) = Some d" using IH(2) by simp
  then have "snaps (backend_key (i + j)) = Some (projr (sn ((b # bs) ! j)))" if "j < length (b # bs)" for j
    using that IH(1) d by (cases j) auto
  moreover have "snaps (backend_key j) = al (backend_key j)" if "j < i" for j
    using that IH(2) backend_key_inj [of j i] by auto
  moreover have "dom snaps \<subseteq> dom al \<union> range backend_key" using IH(3) unfolding dom_fun_upd by (auto simp: subset_iff)
  ultimately show ?case by blast
qed auto

lemma restore_providers_ok:
  "\<forall>p \<in> set ps. fst (restore_state st p) = None \<Longrightarrow>
     restore_providers restore_state st i ps = (None, map (\<lambda>p. snd (restore_state st p)) ps)"
  by (induction ps arbitrary: i) (auto split: prod.splits option.splits)

text \<open>The names that the manager itself writes are ASCII.\<close>

lemma ascii_valid: "\<forall>a \<in> set bs. a < 0x80 \<Longrightarrow> valid_utf8 bs"
  by (induction bs) auto

lemma show_nat_ascii: "\<forall>c \<in> set (show_nat n). (of_char c :: 8 word) < 0x80"
proof (induction n rule: show_nat.induct)
  case (1 n)
  have digit': "(of_char (digit_char d) :: 8 word) < 0x80" if "d < 10" for d
  proof -
    have "d \<in> {0, 1, 2, 3, 4, 5, 6, 7, 8, 9}" using that by auto
    then show ?thesis by (elim insertE emptyE) (simp_all only: digit_char_def, simp_all add: char_of_def)
  qed
  have digit: "(of_char (digit_char (k mod 10)) :: 8 word) < 0x80" for k by (rule digit') simp
  show ?case
  proof (cases "n < 10")
    case True
    then have "n mod 10 = n" by simp
    then show ?thesis using True digit [of n] by (subst show_nat.simps) simp
  next
    case False
    then show ?thesis using "1" digit [of n] by (subst show_nat.simps) auto
  qed
qed

lemma backend_key_valid: "valid_utf8 (string_bytes (backend_key i))"
  using show_nat_ascii [of i] by (intro ascii_valid) (auto simp: string_bytes_def backend_key_def)

text \<open>What decoding a checkpoint gives, and where the two maps are found in it.\<close>

lemma keys_ascii [simp]:
  "valid_utf8 (string_bytes ''provider_state'')" "valid_utf8 (string_bytes ''backend_snapshots'')"
  "valid_utf8 (string_bytes ''type'')" "valid_utf8 (string_bytes ''changed_keys'')" "valid_utf8 (string_bytes ''incremental'')"
  by (simp_all add: string_bytes_def)

lemma full_data_valid:
  assumes "\<forall>k \<in> dom combined. valid_utf8 (string_bytes k)" "\<forall>k \<in> dom snaps. valid_utf8 (string_bytes k)"
  shows "texts_valid (GoMap (full_data combined snaps))"
  using assms by (auto simp: full_data_def dom_def split: option.splits)

lemma incremental_valid:
  assumes "\<forall>k \<in> dom combined. valid_utf8 (string_bytes k)" "\<forall>k \<in> dom snaps. valid_utf8 (string_bytes k)"
  shows "texts_valid (GoMap (computeIncrementalChanges prev (full_data combined snaps) snaps))"
proof -
  have "\<forall>k \<in> dom (computeChangedKeys prev snaps). valid_utf8 (string_bytes k)"
    using assms(2) by (auto simp: computeChangedKeys_def dom_def split: option.splits)
  then show ?thesis
    using assms full_data_valid [OF assms]
    by (auto simp: computeIncrementalChanges_def full_data_def dom_def split: option.splits)
qed

lemma checkpoint_decoded:
  assumes made: "CreateCheckpoint gs sn marshal encode env offsets m dir = (Inr cp, m', dir')"
    and keys: "\<forall>p \<in> set (stateProviders m). \<forall>st. gs p = Inr st \<longrightarrow> (\<forall>k \<in> dom st. valid_utf8 (string_bytes k))"
    and codec: "json_codec as_json marshal unmarshal"
  shows "\<exists>D snaps. unmarshal (cp_StateData cp) = Some (DObj D) \<and>
    object (D ''provider_state'') = Some (\<lambda>k. map_option as_json (merged (map (projr \<circ> gs) (stateProviders m)) k)) \<and>
    object (D ''backend_snapshots'') = (if incrementalEnabled m \<and> lastCheckpointData m \<noteq> Map.empty then None else Some snaps) \<and>
    (\<forall>j < length (stateBackends m). snaps (backend_key j) = Some (reread as_json (GoSlice (projr (sn (stateBackends m ! j))))))"
proof -
  obtain combined snaps where data: "collect_state gs 0 (stateProviders m) Map.empty = Inr combined"
    "collect_snapshots sn 0 (stateBackends m) Map.empty = Inr snaps"
    "marshal (GoMap (if incrementalEnabled m then computeIncrementalChanges (lastCheckpointData m) (full_data combined snaps) snaps
        else full_data combined snaps)) = Some (cp_StateData cp)"
    using made by (rule CreateCheckpoint_data)
  let ?full = "\<not> (incrementalEnabled m \<and> lastCheckpointData m \<noteq> Map.empty)"
  define g where "g = (if incrementalEnabled m then computeIncrementalChanges (lastCheckpointData m) (full_data combined snaps) snaps
        else full_data combined snaps)"
  have "\<forall>k \<in> dom combined. valid_utf8 (string_bytes k)" using collect_state_keys [OF data(1) _ keys] by simp
  moreover have "\<forall>k \<in> dom snaps. valid_utf8 (string_bytes k)"
    using collect_snapshots_spec [OF data(2)] backend_key_valid by fastforce
  ultimately have "texts_valid (GoMap g)" unfolding g_def by (cases "incrementalEnabled m") (simp_all only: if_True if_False incremental_valid full_data_valid)
  then have "unmarshal (cp_StateData cp) = Some (DObj (\<lambda>k. map_option (reread as_json) (g k)))"
    using codec data(3) unfolding json_codec_def g_def [symmetric] by fastforce
  moreover have "g ''provider_state'' = Some (GoMap (\<lambda>k. map_option GoValue (combined k)))"
    by (simp add: g_def computeIncrementalChanges_def full_data_def)
  moreover have "g ''backend_snapshots'' = (if ?full then Some (GoMap (\<lambda>k. map_option GoSlice (snaps k))) else None)"
    by (simp add: g_def computeIncrementalChanges_def full_data_def)
  moreover have "combined = merged (map (projr \<circ> gs) (stateProviders m))"
    using collect_state_merged [OF data(1)] by (simp add: merged_def)
  moreover have "\<forall>j < length (stateBackends m). snaps (backend_key j) = Some (projr (sn (stateBackends m ! j)))"
    using collect_snapshots_spec [OF data(2)] by simp
  ultimately show ?thesis
    by (intro exI [of _ "\<lambda>k. map_option (reread as_json) (g k)"] exI [of _ "\<lambda>k. map_option (reread as_json) (map_option GoSlice (snaps k))"])
      (auto simp: map_option_case fun_eq_iff split: option.splits)
qed

lemma restore_run:
  assumes "unmarshal (cp_StateData cp) = Some (DObj D)" "object (D ''provider_state'') = Some state"
    "\<forall>p \<in> set (stateProviders m). fst (restore_state state p) = None"
  shows "RestoreFromCheckpoint unmarshal marshal restore_state restore cp m =
      (let m1 = m\<lparr>stateProviders := map (\<lambda>p. snd (restore_state state p)) (stateProviders m)\<rparr> in
       case object (D ''backend_snapshots'') of
         None \<Rightarrow> (None, m1)
       | Some s \<Rightarrow> (case restore_backends marshal restore s 0 (stateBackends m) of (r, bs) \<Rightarrow> (r, m1\<lparr>stateBackends := bs\<rparr>)))"
  using assms by (simp add: RestoreFromCheckpoint_def Let_def restore_providers_ok split: option.splits)

lemma restore_backends_errors:
  "restore_backends marshal restore s i bs = (r, bs') \<Longrightarrow>
     r = None \<or> (\<exists>j e. r = Some (BackendRestore j e)) \<or> (\<exists>j. r = Some (ConvertSnapshot j))"
  by (induction bs arbitrary: i bs') (auto split: option.splits prod.splits)

text \<open>C29: A checkpoint restores what the providers saved, as JSON keeps it: restoring a checkpoint that \<open>CreateCheckpoint\<close>
  returned, full or incremental, hands every provider one and the same state. Its keys are those of the
  states that all providers returned, and the value of a key is what encoding and decoding makes of the value
  that the last provider with this key returned, so that numbers come back as \<open>float64\<close>, byte slices as base64
  text and structs as maps. Keys are assumed to be UTF-8 text, and no provider refuses the state or changes
  the map it is given. The error that \<open>RestoreFromCheckpoint\<close> returns can then only be one of a backend.\<close>

theorem provider_state_roundtrip:
  assumes made: "CreateCheckpoint gs sn marshal encode env offsets m dir = (Inr cp, m', dir')"
    and keys: "\<forall>p \<in> set (stateProviders m). \<forall>st. gs p = Inr st \<longrightarrow> (\<forall>k \<in> dom st. valid_utf8 (string_bytes k))"
    and codec: "json_codec as_json marshal unmarshal"
    and accept: "\<forall>st. \<forall>p \<in> set (stateProviders m2). fst (restore_state st p) = None"
  shows "\<exists>r bs. RestoreFromCheckpoint unmarshal marshal restore_state restore cp m2 =
      (r, m2\<lparr>stateProviders := map (\<lambda>p. snd (restore_state (\<lambda>k. map_option as_json (merged (map (projr \<circ> gs) (stateProviders m)) k)) p)) (stateProviders m2),
             stateBackends := bs\<rparr>) \<and>
    (r = None \<or> (\<exists>i e. r = Some (BackendRestore i e)) \<or> (\<exists>i. r = Some (ConvertSnapshot i)))"
proof -
  obtain D snaps where D: "unmarshal (cp_StateData cp) = Some (DObj D)"
    "object (D ''provider_state'') = Some (\<lambda>k. map_option as_json (merged (map (projr \<circ> gs) (stateProviders m)) k))"
    using checkpoint_decoded [OF made keys codec] by blast
  have accepted: "\<forall>p \<in> set (stateProviders m2). fst (restore_state (\<lambda>k. map_option as_json (merged (map (projr \<circ> gs) (stateProviders m)) k)) p) = None"
    using accept by blast
  note run = restore_run [where unmarshal = unmarshal and restore_state = restore_state, OF D accepted, of marshal restore]
  show ?thesis
  proof (cases "object (D ''backend_snapshots'')")
    case None
    then show ?thesis unfolding run by (intro exI [of _ None] exI [of _ "stateBackends m2"]) (simp add: Let_def)
  next
    case (Some s)
    obtain r bs where rb: "restore_backends marshal restore s 0 (stateBackends m2) = (r, bs)" by (rule prod.exhaust)
    then show ?thesis unfolding run using restore_backends_errors [OF rb] Some
      by (intro exI [of _ r] exI [of _ bs]) (simp add: Let_def)
  qed
qed

text \<open>A provider whose state is one integer, which comes back as a floating-point number.\<close>

definition int_state :: "int \<Rightarrow> (string \<rightharpoonup> int)" where
  "int_state n = [''n'' \<mapsto> n]"

definition int_marshal :: "int go_data \<Rightarrow> bytes option" where
  "int_marshal v = (if v = GoMap (full_data (int_state 4) Map.empty) then Some [9] else None)"

definition int_unmarshal :: "bytes \<Rightarrow> decoded option" where
  "int_unmarshal d = (if d = [9] then Some (reread (DNum \<circ> of_int) (GoMap (full_data (int_state 4) Map.empty))) else None)"

theorem provider_state_roundtrip_witness:
  "let m = RegisterStateProvider (4 :: int) (NewCheckpointManager 0 '''') :: (int, unit) CheckpointManager;
       cp = \<lparr>cp_ID = checkpoint_id 1, cp_Timestamp = 1, cp_Offsets = Map.empty, cp_StateData = [9]\<rparr>;
       restore_state = (\<lambda>st p :: int. (None, case st ''n'' of Some (DNum x) \<Rightarrow> \<lfloor>x\<rfloor> | _ \<Rightarrow> p))
   in stateProviders (snd (RestoreFromCheckpoint int_unmarshal int_marshal restore_state (\<lambda>d b. (None, b)) cp (m\<lparr>stateProviders := [0]\<rparr>))) = [4]"
proof -
  define m where "m = (RegisterStateProvider (4 :: int) (NewCheckpointManager 0 '''') :: (int, unit) CheckpointManager)"
  define cp where "cp = \<lparr>cp_ID = checkpoint_id 1, cp_Timestamp = 1, cp_Offsets = Map.empty, cp_StateData = [9 :: 8 word]\<rparr>"
  define restore_state where "restore_state = (\<lambda>st p :: int. (None :: err option, case st ''n'' of Some (DNum x) \<Rightarrow> \<lfloor>x\<rfloor> | _ \<Rightarrow> p))"
  have m: "stateProviders m = [4]" "stateBackends m = []" "\<not> incrementalEnabled m" "checkpoints m = []" "maxCheckpoints m = 5"
    by (simp_all add: m_def RegisterStateProvider_def NewCheckpointManager_def)
  have "\<exists>m' dir'. CreateCheckpoint (\<lambda>p. Inr (int_state p)) (\<lambda>b. Inr None) int_marshal Some (sample_ck_env 1 Written) Map.empty m [] = (Inr cp, m', dir')"
    by (simp add: CreateCheckpoint_def m int_marshal_def persistCheckpoint_def sample_ck_env_def cleanupOldCheckpoints_def cp_def Let_def int_state_def)
  then obtain m' dir' where run: "CreateCheckpoint (\<lambda>p. Inr (int_state p)) (\<lambda>b. Inr None) int_marshal Some (sample_ck_env 1 Written) Map.empty m [] = (Inr cp, m', dir')"
    by blast
  have keys: "\<forall>p \<in> set (stateProviders m). \<forall>st. Inr (int_state p) = (Inr st :: err + _) \<longrightarrow> (\<forall>k \<in> dom st. valid_utf8 (string_bytes k))"
    by (auto simp: int_state_def string_bytes_def)
  have codec: "json_codec (DNum \<circ> of_int) int_marshal int_unmarshal"
    by (auto simp: json_codec_def int_marshal_def int_unmarshal_def split: if_splits)
  obtain r bs where "RestoreFromCheckpoint int_unmarshal int_marshal restore_state (\<lambda>d b. (None, b)) cp (m\<lparr>stateProviders := [0]\<rparr>) =
      (r, m\<lparr>stateProviders := map (\<lambda>p. snd (restore_state (\<lambda>k. map_option (DNum \<circ> of_int) (merged (map (projr \<circ> (\<lambda>p. Inr (int_state p) :: err + _)) (stateProviders m)) k)) p)) [0],
         stateBackends := bs\<rparr>)"
    using provider_state_roundtrip [OF run keys codec, of "m\<lparr>stateProviders := [0]\<rparr>" restore_state "\<lambda>d b. (None, b)"]
    by (auto simp: restore_state_def)
  then have "stateProviders (snd (RestoreFromCheckpoint int_unmarshal int_marshal restore_state (\<lambda>d b. (None, b)) cp (m\<lparr>stateProviders := [0]\<rparr>))) = [4]"
    by (simp add: m merged_def int_state_def restore_state_def)
  then show ?thesis unfolding Let_def m_def cp_def restore_state_def .
qed

text \<open>The base64 text of something that begins with a brace begins with a letter.\<close>

lemma byte_less: "unat (b :: 8 word) < 256"
proof -
  have "unat b < 2 ^ LENGTH(8)" by (rule unsigned_less)
  then show ?thesis by simp
qed

lemma base64_brace: "\<exists>rest. base64 (0x7B # bs) = CHR ''e'' # rest"
proof -
  have "b64_char ((123 * 65536 + unat b * 256 + unat c) div 262144) = CHR ''e''" for b c :: "8 word"
  proof -
    have "unat b < 256" "unat c < 256" by (rule byte_less)+
    then have "(123 * 65536 + unat b * 256 + unat c) div 262144 = 30" by auto
    then show ?thesis by (simp only:) (simp add: b64_char_def b64_alphabet_def)
  qed
  moreover have "b64_char ((123 * 256 + unat b) * 4 div 4096) = CHR ''e''" for b :: "8 word"
  proof -
    have "unat b < 256" by (rule byte_less)
    then have "(123 * 256 + unat b) * 4 div 4096 = 30" by auto
    then show ?thesis by (simp only:) (simp add: b64_char_def b64_alphabet_def)
  qed
  moreover have "b64_char (123 * 16 div 64) = CHR ''e''" by (simp add: b64_char_def b64_alphabet_def)
  ultimately show ?thesis
    by (cases bs rule: base64.cases) (simp_all add: Let_def)
qed

text \<open>
  What the backends of \<open>pkg/state\<close> have in common: a snapshot is the encoding of a map, which begins with a brace,
  and \<open>Restore\<close> decodes into a map, so it refuses everything that begins neither with a brace nor with the \<open>n\<close> of
  \<open>null\<close> nor with a space, and leaves the backend as it was.
\<close>

definition map_snapshot :: "(err + slice) \<Rightarrow> bool" where
  "map_snapshot s \<longleftrightarrow> (\<exists>rest. s = Inr (Some (0x7B # rest)))"

definition refuses_other :: "(bytes \<Rightarrow> 'b \<Rightarrow> err option \<times> 'b) \<Rightarrow> 'b \<Rightarrow> bool" where
  "refuses_other restore b \<longleftrightarrow>
     (\<forall>c rest. c \<notin> {0x7B, 0x6E, 0x20, 0x09, 0x0A, 0x0D} \<longrightarrow> (\<exists>e. restore (c # rest) b = (Some e, b)))"

text \<open>C39: A manager cannot restore the backends of this package from its own checkpoints. Restoring a full checkpoint that
  \<open>CreateCheckpoint\<close> returned always fails with an error of the first backend when that backend is like those of
  \<open>pkg/state\<close>, whose snapshots are JSON objects and which refuse other texts: the snapshot is a byte slice, which the
  checkpoint holds as base64 text, and \<open>RestoreFromCheckpoint\<close> hands this text to the backend as it is. No backend
  is changed. An incremental checkpoint after the first one holds no snapshots: restoring it succeeds and leaves
  the backends as they are too. Keys of the providers are assumed to be UTF-8 text, and no provider refuses.\<close>

theorem backends_restored_from_base64:
  assumes made: "CreateCheckpoint gs sn marshal encode env offsets m dir = (Inr cp, m', dir')"
    and keys: "\<forall>p \<in> set (stateProviders m). \<forall>st. gs p = Inr st \<longrightarrow> (\<forall>k \<in> dom st. valid_utf8 (string_bytes k))"
    and codec: "json_codec as_json marshal unmarshal"
    and accept: "\<forall>st. \<forall>p \<in> set (stateProviders m2). fst (restore_state st p) = None"
    and backends: "stateBackends m \<noteq> []" "map_snapshot (sn (hd (stateBackends m)))"
      "stateBackends m2 \<noteq> []" "refuses_other restore (hd (stateBackends m2))"
  shows "\<exists>ps e. RestoreFromCheckpoint unmarshal marshal restore_state restore cp m2 =
      (if incrementalEnabled m \<and> lastCheckpointData m \<noteq> Map.empty then None else Some (BackendRestore 0 e), m2\<lparr>stateProviders := ps\<rparr>)"
proof -
  obtain D snaps where D: "unmarshal (cp_StateData cp) = Some (DObj D)"
    "object (D ''provider_state'') = Some (\<lambda>k. map_option as_json (merged (map (projr \<circ> gs) (stateProviders m)) k))"
    "object (D ''backend_snapshots'') = (if incrementalEnabled m \<and> lastCheckpointData m \<noteq> Map.empty then None else Some snaps)"
    "\<forall>j < length (stateBackends m). snaps (backend_key j) = Some (reread as_json (GoSlice (projr (sn (stateBackends m ! j)))))"
    using checkpoint_decoded [OF made keys codec] by blast
  obtain rest where sn: "sn (stateBackends m ! 0) = Inr (Some (0x7B # rest))"
    using backends(1,2) by (auto simp: map_snapshot_def hd_conv_nth)
  obtain chars where b64: "base64 (0x7B # rest) = CHR ''e'' # chars" using base64_brace by blast
  have "snaps (backend_key 0) = Some (reread as_json (GoSlice (projr (sn (stateBackends m ! 0)))))"
    using D(4) backends(1) by blast
  then have snap: "snaps (backend_key 0) = Some (DStr (CHR ''e'' # chars))" unfolding sn by (simp add: b64)
  obtain b bs where m2: "stateBackends m2 = b # bs" using backends(3) by (cases "stateBackends m2") auto
  have "of_char (CHR ''e'') \<notin> {0x7B, 0x6E, 0x20, 0x09, 0x0A, 0x0D :: 8 word}" by simp
  then obtain e where e: "restore (string_bytes (CHR ''e'' # chars)) b = (Some e, b)"
    using backends(4) m2 unfolding refuses_other_def string_bytes_def by fastforce
  have accepted: "\<forall>p \<in> set (stateProviders m2). fst (restore_state (\<lambda>k. map_option as_json (merged (map (projr \<circ> gs) (stateProviders m)) k)) p) = None"
    using accept by blast
  have "restore_backends marshal restore snaps 0 (stateBackends m2) = (Some (BackendRestore 0 e), stateBackends m2)"
    unfolding m2 restore_backends.simps snap by (simp add: e)
  then show ?thesis
    unfolding restore_run [where unmarshal = unmarshal and restore_state = restore_state, OF D(1,2) accepted, of marshal restore] D(3)
    by (intro exI [of _ e] exI [of _ "map (\<lambda>p. snd (restore_state (\<lambda>k. map_option as_json (merged (map (projr \<circ> gs) (stateProviders m)) k)) p)) (stateProviders m2)"])
      (simp add: Let_def)
qed

text \<open>An empty in-memory backend as the only backend of a manager without providers.\<close>

definition brace_unmarshal :: "bytes \<Rightarrow> (string \<rightharpoonup> bytes) option" where
  "brace_unmarshal d = (if d = string_bytes ''{}'' then Some Map.empty else None)"

definition memory_restore :: "bytes \<Rightarrow> MemoryStateBackend \<Rightarrow> err option \<times> MemoryStateBackend" where
  "memory_restore d b = (case mb_Restore brace_unmarshal d b of Inl e \<Rightarrow> (Some (PlainError ''failed to deserialize snapshot''), b) | Inr b' \<Rightarrow> (None, b'))"

definition memory_snapshot :: "MemoryStateBackend \<Rightarrow> err + slice" where
  "memory_snapshot b = Inr (Some (mb_Snapshot (\<lambda>_. string_bytes ''{}'') 1 b))"

definition memory_data :: "unit go_data" where
  "memory_data = GoMap (full_data Map.empty [backend_key 0 \<mapsto> Some (string_bytes ''{}'')])"

theorem backends_restored_from_base64_witness:
  "let m = RegisterStateBackend (NewMemoryStateBackend None) (NewCheckpointManager 0 '''') :: (unit, MemoryStateBackend) CheckpointManager;
       cp = \<lparr>cp_ID = checkpoint_id 1, cp_Timestamp = 1, cp_Offsets = Map.empty, cp_StateData = [9]\<rparr>
   in \<exists>ps e. RestoreFromCheckpoint (\<lambda>d. if d = [9] then Some (reread (\<lambda>_. DNull) memory_data) else None)
        (\<lambda>g. if g = memory_data then Some [9] else None) (\<lambda>st p. (None, p)) memory_restore cp m = (Some (BackendRestore 0 e), m\<lparr>stateProviders := ps\<rparr>)"
proof -
  define m where "m = (RegisterStateBackend (NewMemoryStateBackend None) (NewCheckpointManager 0 '''') :: (unit, MemoryStateBackend) CheckpointManager)"
  define marshal where "marshal = (\<lambda>g. if g = memory_data then Some [9 :: 8 word] else None)"
  define unmarshal where "unmarshal = (\<lambda>d. if d = [9 :: 8 word] then Some (reread (\<lambda>_. DNull) memory_data) else None)"
  define cp where "cp = \<lparr>cp_ID = checkpoint_id 1, cp_Timestamp = 1, cp_Offsets = Map.empty, cp_StateData = [9 :: 8 word]\<rparr>"
  define gs where "gs = (\<lambda>p :: unit. Inr Map.empty :: err + (string \<rightharpoonup> unit))"
  have m: "stateProviders m = []" "stateBackends m = [NewMemoryStateBackend None]" "\<not> incrementalEnabled m" "checkpoints m = []" "maxCheckpoints m = 5"
    by (simp_all add: m_def RegisterStateBackend_def NewCheckpointManager_def)
  have "marshal (GoMap (full_data Map.empty [backend_key 0 \<mapsto> Some (string_bytes ''{}'')])) = Some [9]"
    by (simp add: marshal_def memory_data_def)
  then have "\<exists>m' dir'. CreateCheckpoint gs memory_snapshot marshal Some (sample_ck_env 1 Written) Map.empty m [] = (Inr cp, m', dir')"
    by (simp add: CreateCheckpoint_def m persistCheckpoint_def sample_ck_env_def cleanupOldCheckpoints_def cp_def Let_def
        memory_snapshot_def mb_Snapshot_def)
  then obtain m' dir' where run: "CreateCheckpoint gs memory_snapshot marshal Some (sample_ck_env 1 Written) Map.empty m [] = (Inr cp, m', dir')"
    by blast
  have codec: "json_codec (\<lambda>_. DNull) marshal unmarshal" by (auto simp: json_codec_def marshal_def unmarshal_def split: if_splits)
  have snap: "map_snapshot (memory_snapshot (hd (stateBackends m)))"
    by (simp add: map_snapshot_def memory_snapshot_def mb_Snapshot_def string_bytes_def)
  have refuse: "refuses_other memory_restore (hd (stateBackends m))"
    by (simp add: refuses_other_def memory_restore_def mb_Restore_def brace_unmarshal_def string_bytes_def)
  have "\<exists>ps e. RestoreFromCheckpoint unmarshal marshal (\<lambda>st p. (None, p)) memory_restore cp m = (Some (BackendRestore 0 e), m\<lparr>stateProviders := ps\<rparr>)"
    using backends_restored_from_base64 [OF run _ codec _ _ snap _ refuse, of "\<lambda>st p. (None, p)"] m by simp
  then show ?thesis unfolding Let_def m_def marshal_def unmarshal_def cp_def .
qed

section \<open>Change detection and barriers\<close>

lemma bytesEqual_iff: "bytesEqual a b \<longleftrightarrow> slice_bytes a = slice_bytes b"
proof -
  have "length a = length b \<Longrightarrow> bytes_loop a b \<longleftrightarrow> a = b" for a b by (induction a b rule: list_induct2) auto
  then show ?thesis by (auto simp: bytesEqual_def)
qed

theorem changed_keys_exact:
  "computeChangedKeys prev current key = Some b \<longleftrightarrow>
     b \<and> (\<exists>data. current key = Some data \<and> map_option slice_bytes (prev key) \<noteq> Some (slice_bytes data))"
  by (auto simp: computeChangedKeys_def bytesEqual_iff split: option.splits)

theorem barriers_aligned:
  "AllAligned ps (fold AlignBarrier qs (cc_Reset c)) \<longleftrightarrow> set ps \<subseteq> set qs"
proof -
  have "fold AlignBarrier qs c p \<longleftrightarrow> p \<in> set qs \<or> c p" for p c
    by (induction qs arbitrary: c) (auto simp: AlignBarrier_def)
  moreover have "AllAligned ps c \<longleftrightarrow> (\<forall>p \<in> set ps. c p)" for c by (induction ps) auto
  ultimately show ?thesis by (auto simp: cc_Reset_def)
qed

end
