(* ===== verification/CEP_Patterns.thy ===== *)
theory CEP_Patterns
  imports Complex_Main Gress_Prelude "HOL-Library.AList" "HOL-Library.List_Lexorder" "HOL-Library.Char_ord"
begin

text \<open>
  Patterns of complex event processing: the types of \<open>pkg/cep/pattern.go\<close>, the conditions, severities and
  metadata that the matcher and the engine share, and the pattern builders of \<open>pkg/cep/dsl.go\<close>.

  An event is a Go map from field names to values. The values are the comparable ones the package looks at:
  \<open>float64\<close> (as an exact rational), \<open>int\<close>, \<open>int64\<close>, \<open>string\<close>, \<open>time.Time\<close>, \<open>bool\<close> and \<open>nil\<close>; two
  interface values are equal when both their types and their values are. A field that is absent reads as \<open>nil\<close>.

  The map of predicates of an event pattern is shared between all copies of a builder, so the builders work on a
  store of maps; an event pattern is parametric in how it refers to its predicates, an address while it is being
  built and the map itself, an association list with distinct keys, when it is matched.
\<close>

section \<open>Values and events\<close>

datatype val = VNil | VFloat rat | VInt int | VInt64 int | VString string | VTime gtime | VBool bool

type_synonym cevent = "string \<rightharpoonup> val"

definition field :: "cevent \<Rightarrow> string \<Rightarrow> val" where
  "field e k = get_or e k VNil"

fun as_string :: "val \<Rightarrow> string option" where
  "as_string (VString s) = Some s"
| "as_string _ = None"

fun as_time :: "val \<Rightarrow> gtime option" where
  "as_time (VTime t) = Some t"
| "as_time _ = None"

text \<open>\<open>event["timestamp"].(time.Time)\<close>: without a time there the assertion panics.\<close>

definition timestamp :: "cevent \<Rightarrow> gtime option" where
  "timestamp e = as_time (field e ''timestamp'')"

section \<open>Patterns\<close>

datatype Quantifier = QuantifierExactlyOne | QuantifierExactly | QuantifierAtLeast | QuantifierAtMost
  | QuantifierRange | QuantifierOneOrMore | QuantifierZeroOrMore

datatype TemporalConstraintType = TemporalWithin | TemporalAfter | TemporalBefore

record TemporalConstraint =
  tc_Type :: TemporalConstraintType
  tc_Duration :: duration

record 'p EventPattern =
  ep_Name :: string
  ep_Type :: string
  ep_Predicates :: 'p
  ep_Optional :: bool
  ep_Negated :: bool
  ep_Quantifier :: Quantifier
  ep_MinOccurrences :: int
  ep_MaxOccurrences :: int
  ep_TemporalConstraint :: "TemporalConstraint option"

record Condition =
  cond_LeftEvent :: string
  cond_RightEvent :: string
  cond_Operator :: string
  cond_Field :: string

record 'p Pattern =
  pat_ID :: string
  pat_Name :: string
  pat_Description :: string
  pat_Events :: "'p EventPattern list"
  pat_TimeWindow :: duration
  pat_Conditions :: "Condition list"

type_synonym predicates = "(string \<times> val) list"

record MatchedPattern =
  mp_PatternID :: string
  mp_PatternName :: string
  mp_MatchedEvents :: "cevent list"
  mp_FirstEventTime :: gtime
  mp_LastEventTime :: gtime
  mp_Severity :: string
  mp_Metadata :: "string \<rightharpoonup> val"

section \<open>Conditions between events\<close>

text \<open>A failed type assertion with two results gives the zero value of the type.\<close>

fun as_float_or_zero :: "val \<Rightarrow> rat" where
  "as_float_or_zero (VFloat q) = q"
| "as_float_or_zero _ = 0"

fun as_int_or_zero :: "val \<Rightarrow> int" where
  "as_int_or_zero (VInt i) = i"
| "as_int_or_zero _ = 0"

definition three_way :: "'a :: linorder \<Rightarrow> 'a \<Rightarrow> int" where
  "three_way a b = (if a < b then -1 else if b < a then 1 else 0)"

fun compareValues :: "val \<Rightarrow> val \<Rightarrow> int" where
  "compareValues (VFloat a) b = three_way a (as_float_or_zero b)"
| "compareValues (VInt a) b = three_way a (as_int_or_zero b)"
| "compareValues (VString a) b = three_way a (case as_string b of None \<Rightarrow> [] | Some s \<Rightarrow> s)"
| "compareValues (VTime a) b = three_way a (case as_time b of None \<Rightarrow> zero_time | Some t \<Rightarrow> t)"
| "compareValues _ b = 0"

definition evaluateCondition :: "cevent \<Rightarrow> cevent \<Rightarrow> Condition \<Rightarrow> bool" where
  "evaluateCondition left right c =
    (let l = field left (cond_Field c); r = field right (cond_Field c); op = cond_Operator c in
     if op = ''eq'' then l = r
     else if op = ''ne'' then l \<noteq> r
     else if op = ''gt'' then compareValues l r > 0
     else if op = ''lt'' then compareValues l r < 0
     else if op = ''gte'' then compareValues l r \<ge> 0
     else if op = ''lte'' then compareValues l r \<le> 0
     else False)"

text \<open>Events are known to conditions by their field \<open>name\<close>, or by their position among the matched events.\<close>

definition condition_name :: "nat \<Rightarrow> cevent \<Rightarrow> string" where
  "condition_name i e = (case as_string (field e ''name'') of Some name \<Rightarrow> name | None \<Rightarrow> ''event_'' @ show_nat i)"

fun event_map :: "nat \<Rightarrow> cevent list \<Rightarrow> (string \<rightharpoonup> cevent) \<Rightarrow> (string \<rightharpoonup> cevent)" where
  "event_map i [] m = m"
| "event_map i (e # es) m = event_map (Suc i) es (m(condition_name i e \<mapsto> e))"

definition checkConditions :: "cevent list \<Rightarrow> Condition list \<Rightarrow> bool" where
  "checkConditions events conds =
    (let m = event_map 0 events Map.empty in
     list_all (\<lambda>c. case (m (cond_LeftEvent c), m (cond_RightEvent c)) of
         (Some l, Some r) \<Rightarrow> evaluateCondition l r c
       | _ \<Rightarrow> False) conds)"

section \<open>Severity and metadata of a match\<close>

text \<open>The rate of events per minute against a bound; \<open>d\<close> is not zero.\<close>

definition rate_above :: "nat \<Rightarrow> duration \<Rightarrow> rat \<Rightarrow> bool" where
  "rate_above n d bound \<longleftrightarrow> of_nat n / (of_int d / of_int minute) > bound"

definition severity_of_rate :: "(rat \<Rightarrow> bool) \<Rightarrow> string" where
  "severity_of_rate exceeds = (if exceeds 10 then ''critical'' else if exceeds 5 then ''high'' else if exceeds 2 then ''medium'' else ''low'')"

definition calculateSeverity :: "cevent list \<Rightarrow> string option" where
  "calculateSeverity events =
    (if events = [] then Some ''low''
     else case (timestamp (hd events), timestamp (last events)) of
       (Some first, Some final) \<Rightarrow>
         (let d = time_Sub final first in
          if d = 0 then Some ''critical'' else Some (severity_of_rate (rate_above (length events) d)))
     | _ \<Rightarrow> None)"

definition unique_strings :: "string \<Rightarrow> cevent list \<Rightarrow> nat" where
  "unique_strings k events = card (set (List.map_filter (\<lambda>e. as_string (field e k)) events))"

definition extractMetadata :: "cevent list \<Rightarrow> (string \<rightharpoonup> val)" where
  "extractMetadata events = [''event_count'' \<mapsto> VInt (int (length events)),
     ''unique_users'' \<mapsto> VInt (int (unique_strings ''user_id'' events)),
     ''unique_ips'' \<mapsto> VInt (int (unique_strings ''ip_address'' events))]"

section \<open>Builders of event patterns\<close>

text \<open>An \<open>EventPatternBuilder\<close> is passed by value, but the copies share the map that \<open>Event\<close> makes.\<close>

type_synonym pred_store = "predicates list"
type_synonym EventPatternBuilder = "nat EventPattern"

definition Event :: "string \<Rightarrow> string \<Rightarrow> pred_store \<Rightarrow> EventPatternBuilder \<times> pred_store" where
  "Event name eventType h =
    (\<lparr>ep_Name = name, ep_Type = eventType, ep_Predicates = length h, ep_Optional = False, ep_Negated = False,
      ep_Quantifier = QuantifierExactlyOne, ep_MinOccurrences = 0, ep_MaxOccurrences = 0, ep_TemporalConstraint = None\<rparr>,
     h @ [[]])"

definition epb_With :: "string \<Rightarrow> val \<Rightarrow> EventPatternBuilder \<times> pred_store \<Rightarrow> EventPatternBuilder \<times> pred_store" where
  "epb_With key v = (\<lambda>(epb, h). (epb, h[ep_Predicates epb := AList.update key v (h ! ep_Predicates epb)]))"

definition epb_Where :: "predicates \<Rightarrow> EventPatternBuilder \<times> pred_store \<Rightarrow> EventPatternBuilder \<times> pred_store" where
  "epb_Where ps s = fold (\<lambda>(k, v). epb_With k v) ps s"

definition epb_Optional :: "EventPatternBuilder \<times> pred_store \<Rightarrow> EventPatternBuilder \<times> pred_store" where
  "epb_Optional = map_prod (\<lambda>epb. epb\<lparr>ep_Optional := True\<rparr>) id"

definition epb_Times :: "int \<Rightarrow> EventPatternBuilder \<times> pred_store \<Rightarrow> EventPatternBuilder \<times> pred_store" where
  "epb_Times n = map_prod (\<lambda>epb. epb\<lparr>ep_Quantifier := QuantifierExactly, ep_MinOccurrences := n, ep_MaxOccurrences := n\<rparr>) id"

definition epb_AtLeast :: "int \<Rightarrow> EventPatternBuilder \<times> pred_store \<Rightarrow> EventPatternBuilder \<times> pred_store" where
  "epb_AtLeast n = map_prod (\<lambda>epb. epb\<lparr>ep_Quantifier := QuantifierAtLeast, ep_MinOccurrences := n\<rparr>) id"

definition epb_AtMost :: "int \<Rightarrow> EventPatternBuilder \<times> pred_store \<Rightarrow> EventPatternBuilder \<times> pred_store" where
  "epb_AtMost n = map_prod (\<lambda>epb. epb\<lparr>ep_Quantifier := QuantifierAtMost, ep_MaxOccurrences := n\<rparr>) id"

definition epb_Between :: "int \<Rightarrow> int \<Rightarrow> EventPatternBuilder \<times> pred_store \<Rightarrow> EventPatternBuilder \<times> pred_store" where
  "epb_Between lo hi = map_prod (\<lambda>epb. epb\<lparr>ep_Quantifier := QuantifierRange, ep_MinOccurrences := lo, ep_MaxOccurrences := hi\<rparr>) id"

definition epb_Within :: "duration \<Rightarrow> EventPatternBuilder \<times> pred_store \<Rightarrow> EventPatternBuilder \<times> pred_store" where
  "epb_Within d = map_prod (\<lambda>epb. epb\<lparr>ep_TemporalConstraint := Some \<lparr>tc_Type = TemporalWithin, tc_Duration = d\<rparr>\<rparr>) id"

lemmas epb_defs = Event_def epb_With_def epb_Where_def epb_Optional_def epb_Times_def epb_AtLeast_def epb_AtMost_def
  epb_Between_def epb_Within_def

section \<open>Builders of patterns\<close>

text \<open>A \<open>PatternBuilder\<close> is a pointer to the pattern under construction, threaded through the calls.\<close>

type_synonym PatternBuilder = "nat Pattern"

definition NewPattern :: "string \<Rightarrow> string \<Rightarrow> PatternBuilder" where
  "NewPattern i name = \<lparr>pat_ID = i, pat_Name = name, pat_Description = [], pat_Events = [], pat_TimeWindow = 0, pat_Conditions = []\<rparr>"

definition WithDescription :: "string \<Rightarrow> PatternBuilder \<Rightarrow> PatternBuilder" where
  "WithDescription desc pb = pb\<lparr>pat_Description := desc\<rparr>"

definition pb_Within :: "duration \<Rightarrow> PatternBuilder \<Rightarrow> PatternBuilder" where
  "pb_Within d pb = pb\<lparr>pat_TimeWindow := d\<rparr>"

definition FollowedBy :: "EventPatternBuilder \<Rightarrow> PatternBuilder \<Rightarrow> PatternBuilder" where
  "FollowedBy ev pb = pb\<lparr>pat_Events := pat_Events pb @ [ev]\<rparr>"

definition Sequence :: "EventPatternBuilder list \<Rightarrow> PatternBuilder \<Rightarrow> PatternBuilder" where
  "Sequence evs pb = fold (\<lambda>ev pb. pb\<lparr>pat_Events := pat_Events pb @ [ev]\<rparr>) evs pb"

definition NotFollowedBy :: "EventPatternBuilder \<Rightarrow> PatternBuilder \<Rightarrow> PatternBuilder" where
  "NotFollowedBy ev pb = pb\<lparr>pat_Events := pat_Events pb @ [ev\<lparr>ep_Negated := True\<rparr>]\<rparr>"

definition pb_Where :: "Condition \<Rightarrow> PatternBuilder \<Rightarrow> PatternBuilder" where
  "pb_Where c pb = pb\<lparr>pat_Conditions := pat_Conditions pb @ [c]\<rparr>"

definition pb_WithCondition :: "string \<Rightarrow> string \<Rightarrow> string \<Rightarrow> string \<Rightarrow> PatternBuilder \<Rightarrow> PatternBuilder" where
  "pb_WithCondition l r f op pb = pb\<lparr>pat_Conditions := pat_Conditions pb @
     [\<lparr>cond_LeftEvent = l, cond_RightEvent = r, cond_Operator = op, cond_Field = f\<rparr>]\<rparr>"

text \<open>Reading the predicates of a built pattern through the store.\<close>

definition resolve_event :: "pred_store \<Rightarrow> nat EventPattern \<Rightarrow> predicates EventPattern" where
  "resolve_event h ep = \<lparr>ep_Name = ep_Name ep, ep_Type = ep_Type ep, ep_Predicates = h ! ep_Predicates ep,
     ep_Optional = ep_Optional ep, ep_Negated = ep_Negated ep, ep_Quantifier = ep_Quantifier ep,
     ep_MinOccurrences = ep_MinOccurrences ep, ep_MaxOccurrences = ep_MaxOccurrences ep,
     ep_TemporalConstraint = ep_TemporalConstraint ep\<rparr>"

definition resolve :: "pred_store \<Rightarrow> PatternBuilder \<Rightarrow> predicates Pattern" where
  "resolve h p = \<lparr>pat_ID = pat_ID p, pat_Name = pat_Name p, pat_Description = pat_Description p,
     pat_Events = map (resolve_event h) (pat_Events p), pat_TimeWindow = pat_TimeWindow p, pat_Conditions = pat_Conditions p\<rparr>"

lemmas pb_defs = NewPattern_def WithDescription_def pb_Within_def FollowedBy_def Sequence_def NotFollowedBy_def
  pb_Where_def pb_WithCondition_def resolve_event_def resolve_def

section \<open>Builders of conditions\<close>

definition NewCondition :: "string \<Rightarrow> string \<Rightarrow> Condition" where
  "NewCondition l r = \<lparr>cond_LeftEvent = l, cond_RightEvent = r, cond_Operator = [], cond_Field = []\<rparr>"

definition cb_Field :: "string \<Rightarrow> Condition \<Rightarrow> Condition" where "cb_Field f c = c\<lparr>cond_Field := f\<rparr>"
definition cb_Equals :: "Condition \<Rightarrow> Condition" where "cb_Equals c = c\<lparr>cond_Operator := ''eq''\<rparr>"
definition cb_NotEquals :: "Condition \<Rightarrow> Condition" where "cb_NotEquals c = c\<lparr>cond_Operator := ''ne''\<rparr>"
definition cb_GreaterThan :: "Condition \<Rightarrow> Condition" where "cb_GreaterThan c = c\<lparr>cond_Operator := ''gt''\<rparr>"
definition cb_LessThan :: "Condition \<Rightarrow> Condition" where "cb_LessThan c = c\<lparr>cond_Operator := ''lt''\<rparr>"
definition cb_GreaterThanOrEqual :: "Condition \<Rightarrow> Condition" where "cb_GreaterThanOrEqual c = c\<lparr>cond_Operator := ''gte''\<rparr>"
definition cb_LessThanOrEqual :: "Condition \<Rightarrow> Condition" where "cb_LessThanOrEqual c = c\<lparr>cond_Operator := ''lte''\<rparr>"

section \<open>Patterns of the package\<close>

text \<open>\<open>dur\<close> stands for \<open>Duration.String\<close>, which only occurs in descriptions.\<close>

definition plain_event :: "string \<Rightarrow> string \<Rightarrow> predicates EventPattern" where
  "plain_event name typ = \<lparr>ep_Name = name, ep_Type = typ, ep_Predicates = [], ep_Optional = False, ep_Negated = False,
     ep_Quantifier = QuantifierExactlyOne, ep_MinOccurrences = 0, ep_MaxOccurrences = 0, ep_TemporalConstraint = None\<rparr>"

fun join_space :: "string list \<Rightarrow> string" where
  "join_space [] = []"
| "join_space [s] = s"
| "join_space (s # t # ss) = s @ '' '' @ join_space (t # ss)"

definition SequencePattern :: "string \<Rightarrow> string \<Rightarrow> string list \<Rightarrow> duration \<Rightarrow> predicates Pattern" where
  "SequencePattern i name types window = \<lparr>pat_ID = i, pat_Name = name,
     pat_Description = ''Sequential pattern: ['' @ join_space types @ '']'',
     pat_Events = map (\<lambda>(k, typ). plain_event (''event_'' @ show_nat k) typ) (enumerate 0 types),
     pat_TimeWindow = window, pat_Conditions = []\<rparr>"

definition FrequencyPattern :: "(duration \<Rightarrow> string) \<Rightarrow> string \<Rightarrow> string \<Rightarrow> string \<Rightarrow> int \<Rightarrow> duration \<Rightarrow> predicates Pattern" where
  "FrequencyPattern dur i name typ minCount window = \<lparr>pat_ID = i, pat_Name = name,
     pat_Description = ''Frequency pattern: '' @ typ @ '' >= '' @ show_int minCount @ '' times in '' @ dur window,
     pat_Events = [plain_event [] typ], pat_TimeWindow = window, pat_Conditions = []\<rparr>"

definition FraudDetectionPattern :: "pred_store \<Rightarrow> PatternBuilder \<times> pred_store" where
  "FraudDetectionPattern h =
    (let (failed, h) = epb_Times 3 (epb_With ''status'' (VString ''failed'') (Event ''failed_login'' ''login_failed'' h));
         (success, h) = epb_Within minute (epb_With ''status'' (VString ''success'') (Event ''successful_login'' ''login_success'' h))
     in (pb_Within (5 * minute) (pb_WithCondition ''failed_login'' ''successful_login'' ''user_id'' ''eq''
          (Sequence [failed, success]
            (WithDescription ''Detect 3 or more failed login attempts followed by a successful login within 5 minutes''
              (NewPattern ''fraud-001'' ''Multiple Failed Logins'')))), h))"

definition SuspiciousActivityPattern :: "pred_store \<Rightarrow> PatternBuilder \<times> pred_store" where
  "SuspiciousActivityPattern h =
    (let (login, h) = epb_With ''new_location'' (VBool True) (Event ''login'' ''user_login'' h);
         (transaction, h) = epb_Within (10 * minute) (epb_With ''amount_threshold'' (VString ''>10000'') (Event ''transaction'' ''transaction_initiated'' h));
         (tfa, h) = epb_With ''verified'' (VBool True) (Event ''2fa'' ''two_factor_auth'' h)
     in (pb_Within (30 * minute) (NotFollowedBy tfa (Sequence [login, transaction]
          (WithDescription ''Login from new location followed by high-value transaction without 2FA''
            (NewPattern ''suspicious-001'' ''Unusual Access Pattern'')))), h))"

definition UserJourneyPattern :: "pred_store \<Rightarrow> PatternBuilder \<times> pred_store" where
  "UserJourneyPattern h =
    (let (browse, h) = epb_AtLeast 2 (Event ''browse'' ''product_view'' h);
         (cart, h) = epb_AtLeast 1 (Event ''add_cart'' ''add_to_cart'' h);
         (checkout, h) = epb_Optional (Event ''checkout_start'' ''checkout_initiated'' h);
         (purchase, h) = Event ''purchase'' ''purchase_completed'' h
     in (pb_Within (60 * minute) (NotFollowedBy purchase (Sequence [browse, cart, checkout]
          (WithDescription (''User adds items to cart but doesn'' @ [CHR 0x27] @ ''t complete checkout'')
            (NewPattern ''journey-001'' ''Checkout Abandonment'')))), h))"

definition IterationPattern :: "(duration \<Rightarrow> string) \<Rightarrow> string \<Rightarrow> int \<Rightarrow> duration \<Rightarrow> pred_store \<Rightarrow> PatternBuilder \<times> pred_store" where
  "IterationPattern dur typ count window h =
    (let (ev, h) = epb_Times count (Event ''event'' typ h)
     in (pb_Within window (Sequence [ev]
          (WithDescription (''Detect '' @ typ @ '' happening '' @ show_int count @ '' times within '' @ dur window)
            (NewPattern (''iteration-'' @ typ) (typ @ '' occurred '' @ show_int count @ '' times'')))), h))"

definition SequenceWithNegation :: "string \<Rightarrow> string \<Rightarrow> string \<Rightarrow> duration \<Rightarrow> pred_store \<Rightarrow> PatternBuilder \<times> pred_store" where
  "SequenceWithNegation a notB c window h =
    (let (ea, h) = Event ''a'' a h; (eb, h) = Event ''notB'' notB h; (ec, h) = Event ''c'' c h
     in (pb_Within window (FollowedBy ec (NotFollowedBy eb (Sequence [ea]
          (NewPattern ''sequence-with-negation'' (a @ '' without '' @ notB @ '' then '' @ c))))), h))"

section \<open>Sharing between builders\<close>

text \<open>Builders made by different calls of \<open>Event\<close> do not interfere, but two continuations of one builder do: a
  predicate added to the second shows up in the first.\<close>

lemma fresh_builders_independent:
  assumes "ep_Predicates a < length h"
  shows "case epb_With k v (Event n t h) of (b, h') \<Rightarrow> resolve_event h' a = resolve_event h a \<and> ep_Predicates (resolve_event h' b) = [(k, v)]"
  using assms by (simp add: epb_defs resolve_event_def nth_append)

theorem builders_share_predicates:
  "case Event n t h of (base, h1) \<Rightarrow> case epb_With k v (base, h1) of (first, h2) \<Rightarrow> case epb_With k' v' (base, h2) of (other, h3) \<Rightarrow>
    map_of (ep_Predicates (resolve_event h3 first)) k' = Some v'"
  by (simp add: epb_defs resolve_event_def update_conv')

end
