(* ===== verification/CEP_Matcher.thy ===== *)
theory CEP_Matcher
  imports CEP_Patterns
begin

text \<open>
  The buffering pattern matcher of \<open>pkg/cep/pattern.go\<close>: it keeps the events of the last time window and, on
  each new event, tries the pattern at every position of its buffer. A type assertion that fails and an index out
  of range panic; both are \<open>None\<close>. The steps of the pattern still to be matched stand for the index into the
  pattern, the suffix of the buffer for the index into the buffer.
\<close>

section \<open>State and helpers\<close>

record PatternMatcher =
  mt_pattern :: "predicates Pattern"
  mt_eventBuffer :: "cevent list"
  mt_maxBufferSize :: int
  mt_matchedPatterns :: "MatchedPattern list"

definition NewPatternMatcher :: "predicates Pattern \<Rightarrow> int \<Rightarrow> PatternMatcher" where
  "NewPatternMatcher p maxSize = \<lparr>mt_pattern = p, mt_eventBuffer = [], mt_maxBufferSize = maxSize, mt_matchedPatterns = []\<rparr>"

definition in_time_window :: "gtime \<Rightarrow> duration \<Rightarrow> cevent \<Rightarrow> bool" where
  "in_time_window now window e = (case timestamp e of None \<Rightarrow> False | Some t \<Rightarrow> time_After t (time_Add now (dur_neg window)))"

definition pruneOldEvents :: "gtime \<Rightarrow> PatternMatcher \<Rightarrow> PatternMatcher" where
  "pruneOldEvents now m =
    (if mt_eventBuffer m = [] then m
     else m\<lparr>mt_eventBuffer := filter (in_time_window now (pat_TimeWindow (mt_pattern m))) (mt_eventBuffer m)\<rparr>)"

definition mt_matchesEventPattern :: "cevent \<Rightarrow> predicates EventPattern \<Rightarrow> bool" where
  "mt_matchesEventPattern e p =
    ((case as_string (field e ''type'') of Some t \<Rightarrow> t = ep_Type p | None \<Rightarrow> True) \<and>
     list_all (\<lambda>(k, expected). e k = Some expected) (ep_Predicates p))"

text \<open>These methods repeat the text of the functions of \<open>engine.go\<close>.\<close>

definition mt_evaluateCondition :: "cevent \<Rightarrow> cevent \<Rightarrow> Condition \<Rightarrow> bool" where
  "mt_evaluateCondition = evaluateCondition"

definition mt_checkConditions :: "PatternMatcher \<Rightarrow> cevent list \<Rightarrow> bool" where
  "mt_checkConditions m events =
    (let em = event_map 0 events Map.empty in
     list_all (\<lambda>c. case (em (cond_LeftEvent c), em (cond_RightEvent c)) of
         (Some l, Some r) \<Rightarrow> mt_evaluateCondition l r c
       | _ \<Rightarrow> False) (pat_Conditions (mt_pattern m)))"

definition mt_extractMetadata :: "cevent list \<Rightarrow> (string \<rightharpoonup> val)" where
  "mt_extractMetadata = extractMetadata"

text \<open>The severity method has no case for a zero duration; a positive number divided by zero is \<open>+Inf\<close>, which is
  above every bound.\<close>

definition rate_above_or_inf :: "nat \<Rightarrow> duration \<Rightarrow> rat \<Rightarrow> bool" where
  "rate_above_or_inf n d bound \<longleftrightarrow> (if d = 0 then True else rate_above n d bound)"

definition mt_calculateSeverity :: "cevent list \<Rightarrow> string option" where
  "mt_calculateSeverity events =
    (if events = [] then Some ''low''
     else case (timestamp (hd events), timestamp (last events)) of
       (Some first, Some final) \<Rightarrow> Some (severity_of_rate (rate_above_or_inf (length events) (time_Sub final first)))
     | _ \<Rightarrow> None)"

section \<open>Matching\<close>

fun try_loop :: "predicates EventPattern list \<Rightarrow> cevent list \<Rightarrow> cevent list \<Rightarrow> (cevent list \<times> predicates EventPattern list) option" where
  "try_loop [] es acc = Some (acc, [])"
| "try_loop ps [] acc = Some (acc, ps)"
| "try_loop (p # ps) (e # es) acc =
    (if mt_matchesEventPattern e p then try_loop ps es (acc @ [e])
     else if \<not> ep_Optional p then None
     else try_loop (p # ps) es acc)"

definition tryMatch :: "PatternMatcher \<Rightarrow> nat \<Rightarrow> MatchedPattern option option" where
  "tryMatch m start =
    (case try_loop (pat_Events (mt_pattern m)) (drop start (mt_eventBuffer m)) [] of
       None \<Rightarrow> Some None
     | Some (matched, rest) \<Rightarrow>
         if rest \<noteq> [] then Some None
         else if \<not> mt_checkConditions m matched then Some None
         else if matched = [] then None
         else (case (timestamp (hd matched), timestamp (last matched), mt_calculateSeverity matched) of
             (Some first, Some final, Some severity) \<Rightarrow>
               Some (Some \<lparr>mp_PatternID = pat_ID (mt_pattern m), mp_PatternName = pat_Name (mt_pattern m),
                 mp_MatchedEvents = matched, mp_FirstEventTime = first, mp_LastEventTime = final,
                 mp_Severity = severity, mp_Metadata = mt_extractMetadata matched\<rparr>)
           | _ \<Rightarrow> None))"

fun find_matches_loop :: "PatternMatcher \<Rightarrow> nat list \<Rightarrow> MatchedPattern list \<Rightarrow> MatchedPattern list option" where
  "find_matches_loop m [] acc = Some acc"
| "find_matches_loop m (i # is) acc =
    (case tryMatch m i of
       None \<Rightarrow> None
     | Some None \<Rightarrow> find_matches_loop m is acc
     | Some (Some match) \<Rightarrow> find_matches_loop m is (acc @ [match]))"

definition findMatches :: "PatternMatcher \<Rightarrow> MatchedPattern list option" where
  "findMatches m = find_matches_loop m [0..<length (mt_eventBuffer m)] []"

definition limit_buffer :: "int \<Rightarrow> 'a list \<Rightarrow> 'a list option" where
  "limit_buffer sz buf =
    (if int (length buf) > sz then (if sz < 0 then None else Some (drop (length buf - nat sz) buf)) else Some buf)"

definition AddEvent :: "gtime \<Rightarrow> cevent \<Rightarrow> PatternMatcher \<Rightarrow> (MatchedPattern list \<times> PatternMatcher) option" where
  "AddEvent now e m =
    (let m1 = pruneOldEvents now (m\<lparr>mt_eventBuffer := mt_eventBuffer m @ [e]\<rparr>) in
     case limit_buffer (mt_maxBufferSize m1) (mt_eventBuffer m1) of
       None \<Rightarrow> None
     | Some buf \<Rightarrow> (let m2 = m1\<lparr>mt_eventBuffer := buf\<rparr> in
         case findMatches m2 of None \<Rightarrow> None | Some ms \<Rightarrow> Some (ms, m2)))"

section \<open>Agreement with the helpers of the engine\<close>

lemma checkConditions_agree: "mt_checkConditions m es = checkConditions es (pat_Conditions (mt_pattern m))"
  unfolding mt_checkConditions_def checkConditions_def mt_evaluateCondition_def ..

text \<open>The division by zero of the matcher gives the severity that the engine chooses explicitly.\<close>

lemma severities_agree: "mt_calculateSeverity es = calculateSeverity es"
  by (auto simp: mt_calculateSeverity_def calculateSeverity_def rate_above_or_inf_def severity_of_rate_def Let_def
      split: option.splits)

section \<open>What the matcher reports\<close>

text \<open>Reference: the events at the front of \<open>es\<close> match the steps one by one.\<close>

fun matches_at :: "predicates EventPattern list \<Rightarrow> cevent list \<Rightarrow> bool" where
  "matches_at [] es = True"
| "matches_at (p # ps) [] = False"
| "matches_at (p # ps) (e # es) \<longleftrightarrow> mt_matchesEventPattern e p \<and> matches_at ps es"

lemma try_loop_strict:
  assumes "list_all (\<lambda>p. \<not> ep_Optional p) ps"
  shows "(matches_at ps es \<longrightarrow> try_loop ps es acc = Some (acc @ take (length ps) es, [])) \<and>
    (\<not> matches_at ps es \<longrightarrow> (\<forall>r. try_loop ps es acc \<noteq> Some (r, [])))"
  using assms by (induction ps es acc rule: try_loop.induct) auto

lemma matches_at_length: "matches_at ps es \<Longrightarrow> length ps \<le> length es"
  by (induction ps es rule: matches_at.induct) auto

definition reported :: "PatternMatcher \<Rightarrow> cevent list \<Rightarrow> MatchedPattern" where
  "reported m es = \<lparr>mp_PatternID = pat_ID (mt_pattern m), mp_PatternName = pat_Name (mt_pattern m),
     mp_MatchedEvents = es, mp_FirstEventTime = the (timestamp (hd es)), mp_LastEventTime = the (timestamp (last es)),
     mp_Severity = the (calculateSeverity es), mp_Metadata = extractMetadata es\<rparr>"

definition block :: "PatternMatcher \<Rightarrow> nat \<Rightarrow> cevent list" where
  "block m i = take (length (pat_Events (mt_pattern m))) (drop i (mt_eventBuffer m))"

definition block_matches :: "PatternMatcher \<Rightarrow> nat \<Rightarrow> bool" where
  "block_matches m i \<longleftrightarrow> matches_at (pat_Events (mt_pattern m)) (drop i (mt_eventBuffer m)) \<and>
     checkConditions (block m i) (pat_Conditions (mt_pattern m))"

definition strict_pattern :: "'p Pattern \<Rightarrow> bool" where
  "strict_pattern p \<longleftrightarrow> pat_Events p \<noteq> [] \<and> list_all (\<lambda>s. \<not> ep_Optional s) (pat_Events p)"

lemma timed_severity:
  assumes "es \<noteq> []" "\<forall>e \<in> set es. timestamp e \<noteq> None"
  shows "\<exists>s. calculateSeverity es = Some s" "\<exists>t. timestamp (hd es) = Some t" "\<exists>t. timestamp (last es) = Some t"
proof -
  obtain t u where "timestamp (hd es) = Some t" "timestamp (last es) = Some u"
    using assms by (metis not_None_eq hd_in_set last_in_set)
  then show "\<exists>s. calculateSeverity es = Some s" "\<exists>t. timestamp (hd es) = Some t" "\<exists>t. timestamp (last es) = Some t"
    by (simp_all add: calculateSeverity_def Let_def)
qed

lemma tryMatch_strict:
  assumes "strict_pattern (mt_pattern m)" "\<forall>e \<in> set (mt_eventBuffer m). timestamp e \<noteq> None"
  shows "tryMatch m i = Some (if block_matches m i then Some (reported m (block m i)) else None)"
proof -
  let ?ps = "pat_Events (mt_pattern m)" and ?es = "drop i (mt_eventBuffer m)"
  have ps: "list_all (\<lambda>p. \<not> ep_Optional p) ?ps" "?ps \<noteq> []" using assms(1) by (simp_all add: strict_pattern_def)
  show ?thesis
  proof (cases "matches_at ?ps ?es")
    case True
    then have run: "try_loop ?ps ?es [] = Some (block m i, [])"
      using try_loop_strict [OF ps(1), of ?es "[]"] by (simp add: block_def)
    have "block m i \<noteq> []" using matches_at_length [OF True] ps(2) by (auto simp: block_def)
    moreover have "\<forall>e \<in> set (block m i). timestamp e \<noteq> None"
      using assms(2) by (auto simp: block_def dest!: in_set_takeD in_set_dropD)
    ultimately obtain s t u where "calculateSeverity (block m i) = Some s"
      "timestamp (hd (block m i)) = Some t" "timestamp (last (block m i)) = Some u"
      using timed_severity [of "block m i"] by metis
    then show ?thesis
      using run True \<open>block m i \<noteq> []\<close>
      by (auto simp: tryMatch_def checkConditions_agree severities_agree block_matches_def reported_def mt_extractMetadata_def)
  next
    case False
    then show ?thesis
      using try_loop_strict [OF ps(1), of ?es "[]"]
      by (auto simp: tryMatch_def block_matches_def split: option.splits)
  qed
qed

lemma find_matches_strict:
  assumes "strict_pattern (mt_pattern m)" "\<forall>e \<in> set (mt_eventBuffer m). timestamp e \<noteq> None"
  shows "find_matches_loop m is acc = Some (acc @ map (\<lambda>i. reported m (block m i)) (filter (block_matches m) is))"
  by (induction "is" arbitrary: acc) (simp_all add: tryMatch_strict [OF assms])

definition window_buffer :: "gtime \<Rightarrow> cevent \<Rightarrow> PatternMatcher \<Rightarrow> cevent list" where
  "window_buffer now e m =
    (let live = filter (in_time_window now (pat_TimeWindow (mt_pattern m))) (mt_eventBuffer m @ [e])
     in drop (length live - nat (mt_maxBufferSize m)) live)"

text \<open>A matcher whose steps are all required reports, on each new event, one match for every position of its
  buffer from which the following events match the steps one by one and meet the conditions, in the order of the
  positions; its buffer then holds the most recent events with a timestamp inside the time window, up to the size
  limit. In particular a match is reported again by every later event for as long as its events stay in the
  buffer.\<close>

theorem matcher_reports_blocks:
  assumes "strict_pattern (mt_pattern m)" "0 \<le> mt_maxBufferSize m"
  shows "AddEvent now e m =
    (let m' = m\<lparr>mt_eventBuffer := window_buffer now e m\<rparr>
     in Some (map (\<lambda>i. reported m' (block m' i)) (filter (block_matches m') [0..<length (mt_eventBuffer m')]), m'))"
proof -
  define m' where "m' = m\<lparr>mt_eventBuffer := window_buffer now e m\<rparr>"
  have "\<forall>x \<in> set (window_buffer now e m). timestamp x \<noteq> None"
    by (auto simp: window_buffer_def Let_def in_time_window_def dest!: in_set_dropD split: option.splits)
  then have found: "findMatches m' = Some (map (\<lambda>i. reported m' (block m' i)) (filter (block_matches m') [0..<length (mt_eventBuffer m')]))"
    using find_matches_strict [of m' _ "[]"] assms(1) by (simp add: findMatches_def m'_def)
  let ?live = "filter (in_time_window now (pat_TimeWindow (mt_pattern m))) (mt_eventBuffer m @ [e])"
  have pruned: "pruneOldEvents now (m\<lparr>mt_eventBuffer := mt_eventBuffer m @ [e]\<rparr>) = m\<lparr>mt_eventBuffer := ?live\<rparr>"
    by (simp add: pruneOldEvents_def)
  have limited: "limit_buffer (mt_maxBufferSize m) ?live = Some (window_buffer now e m)"
    using assms(2) by (auto simp: limit_buffer_def window_buffer_def Let_def)
  show ?thesis
    using limited found unfolding AddEvent_def Let_def pruned by (simp add: m'_def)
qed

definition login_pattern :: "predicates Pattern" where
  "login_pattern = SequencePattern ''p'' ''n'' [''a'', ''b''] (10 * second)"

definition typed_event :: "string \<Rightarrow> gtime \<Rightarrow> cevent" where
  "typed_event typ t = [''type'' \<mapsto> VString typ, ''timestamp'' \<mapsto> VTime t]"

theorem matcher_reports_blocks_witness:
  "let m = (NewPatternMatcher login_pattern 10)\<lparr>mt_eventBuffer := [typed_event ''a'' 0]\<rparr>;
       m' = m\<lparr>mt_eventBuffer := [typed_event ''a'' 0, typed_event ''b'' 1]\<rparr>
   in AddEvent 1 (typed_event ''b'' 1) m = Some ([reported m' [typed_event ''a'' 0, typed_event ''b'' 1]], m')"
proof -
  define m where "m = (NewPatternMatcher login_pattern 10)\<lparr>mt_eventBuffer := [typed_event ''a'' 0]\<rparr>"
  define m' where "m' = m\<lparr>mt_eventBuffer := [typed_event ''a'' 0, typed_event ''b'' 1]\<rparr>"
  have sel: "mt_pattern m = login_pattern" "mt_maxBufferSize m = 10" "mt_eventBuffer m = [typed_event ''a'' 0]"
    "pat_TimeWindow login_pattern = 10 * second" "pat_Conditions login_pattern = []"
    "pat_Events login_pattern = [plain_event (''event_'' @ show_nat 0) ''a'', plain_event (''event_'' @ show_nat 1) ''b'']"
    by (simp_all add: m_def NewPatternMatcher_def login_pattern_def SequencePattern_def)
  have strict: "strict_pattern (mt_pattern m)" "0 \<le> mt_maxBufferSize m"
    by (simp_all add: sel strict_pattern_def plain_event_def)
  have stamps: "timestamp (typed_event ty t) = Some t" for ty t
    by (simp add: timestamp_def typed_event_def field_def)
  have buf: "m\<lparr>mt_eventBuffer := window_buffer 1 (typed_event ''b'' 1) m\<rparr> = m'"
    by (simp add: window_buffer_def sel m'_def in_time_window_def stamps gotime dur_neg_def min_duration_def)
  have types: "mt_matchesEventPattern (typed_event ty t) (plain_event n ty') \<longleftrightarrow> ty = ty'" for ty t n ty'
    by (simp add: mt_matchesEventPattern_def typed_event_def plain_event_def field_def)
  have sel': "mt_pattern m' = login_pattern" "mt_eventBuffer m' = [typed_event ''a'' 0, typed_event ''b'' 1]"
    by (simp_all add: m'_def sel)
  have upt: "[0..<length (mt_eventBuffer m')] = [0, 1]" by (simp add: sel' upt_rec)
  have "block_matches m' 0" "\<not> block_matches m' 1"
    by (simp_all add: block_matches_def sel' sel types checkConditions_def block_def)
  then have "filter (block_matches m') [0..<length (mt_eventBuffer m')] = [0]" by (simp add: upt)
  moreover have "block m' 0 = [typed_event ''a'' 0, typed_event ''b'' 1]" by (simp add: block_def sel' sel)
  ultimately show ?thesis
    using matcher_reports_blocks [OF strict, of 1 "typed_event ''b'' 1"]
    unfolding buf Let_def m_def [symmetric] m'_def [symmetric] by simp
qed

text \<open>A pattern without steps makes the matcher panic on its first event inside the window.\<close>

theorem empty_pattern_panics:
  assumes "pat_Events (mt_pattern m) = []" "pat_Conditions (mt_pattern m) = []" "mt_eventBuffer m \<noteq> []"
  shows "findMatches m = None"
proof -
  have "tryMatch m 0 = None"
    using assms by (simp add: tryMatch_def mt_checkConditions_def)
  with assms(3) show ?thesis by (simp add: findMatches_def upt_conv_Cons)
qed

text \<open>A frequency pattern does not count: its minimum only appears in the description, and one event of the type is
  a match.\<close>

theorem frequency_pattern_ignores_count:
  assumes "mt_pattern m = FrequencyPattern dur i n typ minCount window"
  shows "block_matches m k \<longleftrightarrow> matches_at [plain_event [] typ] (drop k (mt_eventBuffer m))"
  using assms by (simp add: block_matches_def FrequencyPattern_def checkConditions_def)

end
