(* ===== verification/CEP_Engine.thy ===== *)
theory CEP_Engine
  imports CEP_Matcher
begin

text \<open>
  The engine of \<open>pkg/cep/engine.go\<close>: partial matches of every registered pattern are advanced by each incoming
  event. Panics are \<open>None\<close>. The clock is read several times during a call; the readings of one call are taken as
  one instant \<open>now\<close>. The loop over the registered patterns follows any order of the map, given as a list.
  \<open>scan\<close> stands for \<open>fmt.Sscanf\<close> with \<open>%f\<close>: the number read, if any; without one the operand stays zero. The
  callback is invoked with exactly the matches that \<open>ProcessEvent\<close> returns and is left out.

  The second half relates the engine to a reference search over the events that were processed.
\<close>

section \<open>State\<close>

record PartialMatch =
  pm_ID :: string
  pm_PatternID :: string
  pm_MatchedEvents :: "cevent list"
  pm_CurrentStep :: nat
  pm_StartTime :: gtime
  pm_LastEventTime :: gtime
  pm_EventCounts :: "nat \<rightharpoonup> int"
  pm_NegationBuffer :: "cevent list"

record CEPEngine =
  ce_patterns :: "string \<rightharpoonup> predicates Pattern"
  ce_partialMatches :: "string \<rightharpoonup> PartialMatch list"
  ce_eventBuffer :: "cevent list"
  ce_maxBufferSize :: int
  ce_timeoutDuration :: duration

type_synonym scanner = "string \<Rightarrow> rat option"

definition NewCEPEngine :: "int \<Rightarrow> duration \<Rightarrow> CEPEngine" where
  "NewCEPEngine maxSize timeout = \<lparr>ce_patterns = Map.empty, ce_partialMatches = Map.empty, ce_eventBuffer = [],
     ce_maxBufferSize = maxSize, ce_timeoutDuration = timeout\<rparr>"

definition RegisterPattern :: "predicates Pattern \<Rightarrow> CEPEngine \<Rightarrow> CEPEngine" where
  "RegisterPattern p e = e\<lparr>ce_patterns := (ce_patterns e)(pat_ID p \<mapsto> p),
     ce_partialMatches := (ce_partialMatches e)(pat_ID p \<mapsto> [])\<rparr>"

definition UnregisterPattern :: "string \<Rightarrow> CEPEngine \<Rightarrow> CEPEngine" where
  "UnregisterPattern i e = e\<lparr>ce_patterns := (ce_patterns e)(i := None),
     ce_partialMatches := (ce_partialMatches e)(i := None)\<rparr>"

section \<open>Matching one event\<close>

fun as_number :: "val \<Rightarrow> rat option" where
  "as_number (VFloat q) = Some q"
| "as_number (VInt i) = Some (of_int i)"
| "as_number (VInt64 i) = Some (of_int i)"
| "as_number _ = None"

definition evaluatePredicateOperator :: "scanner \<Rightarrow> val \<Rightarrow> string \<Rightarrow> bool" where
  "evaluatePredicateOperator scan v predicate =
    (if length predicate < 2 then False
     else (let operator = hd predicate; operand = (case scan (tl predicate) of None \<Rightarrow> 0 | Some q \<Rightarrow> q) in
       case as_number v of
         None \<Rightarrow> False
       | Some x \<Rightarrow> if operator = CHR ''>'' then x > operand else if operator = CHR ''<'' then x < operand else False))"

definition is_operator_predicate :: "val \<Rightarrow> bool" where
  "is_operator_predicate v = (case as_string v of None \<Rightarrow> False | Some s \<Rightarrow> s \<noteq> [] \<and> (hd s = CHR ''>'' \<or> hd s = CHR ''<''))"

definition predicate_holds :: "scanner \<Rightarrow> cevent \<Rightarrow> string \<times> val \<Rightarrow> bool" where
  "predicate_holds scan event = (\<lambda>(key, expected).
    case event key of
      None \<Rightarrow> False
    | Some actual \<Rightarrow>
        if is_operator_predicate expected then evaluatePredicateOperator scan actual (the (as_string expected))
        else actual = expected)"

definition ce_matchesEventPattern :: "scanner \<Rightarrow> cevent \<Rightarrow> predicates EventPattern \<Rightarrow> bool" where
  "ce_matchesEventPattern scan event p =
    (case as_string (field event ''type'') of
       None \<Rightarrow> False
     | Some t \<Rightarrow> t = ep_Type p \<and> list_all (predicate_holds scan event) (ep_Predicates p))"

definition isQuantifierSatisfied :: "predicates EventPattern \<Rightarrow> int \<Rightarrow> bool" where
  "isQuantifierSatisfied p count =
    (case ep_Quantifier p of
       QuantifierExactlyOne \<Rightarrow> count \<ge> 1
     | QuantifierExactly \<Rightarrow> count \<ge> ep_MinOccurrences p
     | QuantifierAtLeast \<Rightarrow> count \<ge> ep_MinOccurrences p
     | QuantifierAtMost \<Rightarrow> count \<ge> 1 \<and> count \<le> ep_MaxOccurrences p
     | QuantifierRange \<Rightarrow> count \<ge> ep_MinOccurrences p
     | QuantifierOneOrMore \<Rightarrow> count \<ge> 1
     | QuantifierZeroOrMore \<Rightarrow> True)"

section \<open>Partial matches\<close>

definition canStartNewMatch :: "scanner \<Rightarrow> predicates Pattern \<Rightarrow> cevent \<Rightarrow> bool" where
  "canStartNewMatch scan p event =
    (case pat_Events p of
       [] \<Rightarrow> False
     | first # _ \<Rightarrow> if ep_Negated first then False else ce_matchesEventPattern scan event first)"

definition match_id :: "gtime \<Rightarrow> predicates Pattern \<Rightarrow> string" where
  "match_id now p = pat_ID p @ ''-'' @ show_int (now - unix_epoch_seconds * second)"

definition createPartialMatch :: "gtime \<Rightarrow> predicates Pattern \<Rightarrow> cevent \<Rightarrow> PartialMatch option" where
  "createPartialMatch now p event =
    (case timestamp event of
       None \<Rightarrow> None
     | Some t \<Rightarrow> Some \<lparr>pm_ID = match_id now p, pm_PatternID = pat_ID p, pm_MatchedEvents = [event],
         pm_CurrentStep = (if isQuantifierSatisfied (hd (pat_Events p)) 1 then 1 else 0),
         pm_StartTime = t, pm_LastEventTime = t, pm_EventCounts = [0 \<mapsto> 1], pm_NegationBuffer = []\<rparr>)"

text \<open>The two results of the advancing functions are \<open>advanced\<close> and \<open>completed\<close>.\<close>

definition checkIfCompleted :: "predicates Pattern \<Rightarrow> PartialMatch \<Rightarrow> bool \<times> bool" where
  "checkIfCompleted p pm =
    (if pm_CurrentStep pm \<ge> length (pat_Events p)
     then (if checkConditions (pm_MatchedEvents pm) (pat_Conditions p) then (False, True) else (False, False))
     else (True, False))"

definition temporal_verdict :: "TemporalConstraint option \<Rightarrow> duration \<Rightarrow> (bool \<times> bool) option" where
  "temporal_verdict tc diff =
    (case tc of
       None \<Rightarrow> None
     | Some c \<Rightarrow> (case tc_Type c of
         TemporalWithin \<Rightarrow> if diff > tc_Duration c then Some (False, False) else None
       | TemporalAfter \<Rightarrow> if diff < tc_Duration c then Some (True, False) else None
       | TemporalBefore \<Rightarrow> if diff > tc_Duration c then Some (False, False) else None))"

definition advance_negated :: "scanner \<Rightarrow> predicates Pattern \<Rightarrow> predicates EventPattern \<Rightarrow> gtime \<Rightarrow> cevent \<Rightarrow> PartialMatch \<Rightarrow> (bool \<times> bool) \<times> PartialMatch" where
  "advance_negated scan p step t event pm =
    (let pm1 = pm\<lparr>pm_NegationBuffer := pm_NegationBuffer pm @ [event]\<rparr> in
     if list_ex (\<lambda>e. ce_matchesEventPattern scan e step) (pm_NegationBuffer pm1) then ((False, False), pm1)
     else (case ep_TemporalConstraint step of
         None \<Rightarrow> ((True, False), pm1)
       | Some c \<Rightarrow>
           if time_Sub t (pm_LastEventTime pm) > tc_Duration c
           then (let pm2 = pm1\<lparr>pm_CurrentStep := Suc (pm_CurrentStep pm), pm_NegationBuffer := []\<rparr> in (checkIfCompleted p pm2, pm2))
           else ((True, False), pm1)))"

definition count_event :: "predicates Pattern \<Rightarrow> predicates EventPattern \<Rightarrow> gtime \<Rightarrow> cevent \<Rightarrow> PartialMatch \<Rightarrow> (bool \<times> bool) \<times> PartialMatch" where
  "count_event p step t event pm =
    (let n = get_or (pm_EventCounts pm) (pm_CurrentStep pm) 0 + 1;
         pm1 = pm\<lparr>pm_EventCounts := (pm_EventCounts pm)(pm_CurrentStep pm \<mapsto> n),
           pm_MatchedEvents := pm_MatchedEvents pm @ [event], pm_LastEventTime := t\<rparr> in
     if isQuantifierSatisfied step n
     then (let pm2 = pm1\<lparr>pm_CurrentStep := Suc (pm_CurrentStep pm)\<rparr> in (checkIfCompleted p pm2, pm2))
     else ((True, False), pm1))"

function (sequential) tryAdvanceMatch ::
  "scanner \<Rightarrow> predicates Pattern \<Rightarrow> cevent \<Rightarrow> PartialMatch \<Rightarrow> ((bool \<times> bool) \<times> PartialMatch) option" where
  "tryAdvanceMatch scan p event pm =
    (if pm_CurrentStep pm \<ge> length (pat_Events p) then Some ((False, True), pm)
     else (let step = pat_Events p ! pm_CurrentStep pm in
       case timestamp event of
         None \<Rightarrow> None
       | Some t \<Rightarrow>
           if ep_Negated step then Some (advance_negated scan p step t event pm)
           else if \<not> ce_matchesEventPattern scan event step then
             (if ep_Optional step then tryAdvanceMatch scan p event (pm\<lparr>pm_CurrentStep := Suc (pm_CurrentStep pm)\<rparr>)
              else Some ((False, False), pm))
           else (case temporal_verdict (ep_TemporalConstraint step) (time_Sub t (pm_LastEventTime pm)) of
               Some verdict \<Rightarrow> Some (verdict, pm)
             | None \<Rightarrow> Some (count_event p step t event pm))))"
  by pat_completeness auto
termination
  by (relation "measure (\<lambda>(scan, p, event, pm). length (pat_Events p) - pm_CurrentStep pm)") auto

declare tryAdvanceMatch.simps [simp del]

definition createMatchedPattern :: "predicates Pattern \<Rightarrow> PartialMatch \<Rightarrow> MatchedPattern option" where
  "createMatchedPattern p pm =
    (case calculateSeverity (pm_MatchedEvents pm) of
       None \<Rightarrow> None
     | Some severity \<Rightarrow> Some \<lparr>mp_PatternID = pat_ID p, mp_PatternName = pat_Name p, mp_MatchedEvents = pm_MatchedEvents pm,
         mp_FirstEventTime = pm_StartTime pm, mp_LastEventTime = pm_LastEventTime pm, mp_Severity = severity,
         mp_Metadata = extractMetadata (pm_MatchedEvents pm)\<rparr>)"

definition hasTimedOut :: "gtime \<Rightarrow> duration \<Rightarrow> PartialMatch \<Rightarrow> predicates Pattern \<Rightarrow> bool" where
  "hasTimedOut now timeoutDuration pm p =
    (if timeoutDuration = 0 then False
     else time_Sub now (pm_LastEventTime pm) >
       (if pat_TimeWindow p > 0 \<and> pat_TimeWindow p < timeoutDuration then pat_TimeWindow p else timeoutDuration))"

fun advance_loop ::
  "scanner \<Rightarrow> gtime \<Rightarrow> duration \<Rightarrow> predicates Pattern \<Rightarrow> gtime \<Rightarrow> cevent \<Rightarrow> PartialMatch list \<Rightarrow> PartialMatch list \<Rightarrow> MatchedPattern list
    \<Rightarrow> (PartialMatch list \<times> MatchedPattern list) option" where
  "advance_loop scan now timeout p t event [] active matches = Some (active, matches)"
| "advance_loop scan now timeout p t event (pm # pms) active matches =
    (if hasTimedOut now timeout pm p then advance_loop scan now timeout p t event pms active matches
     else if pat_TimeWindow p > 0 \<and> time_Sub t (pm_StartTime pm) > pat_TimeWindow p
     then advance_loop scan now timeout p t event pms active matches
     else (case tryAdvanceMatch scan p event pm of
         None \<Rightarrow> None
       | Some ((advanced, completed), pm') \<Rightarrow>
           if completed then
             (case createMatchedPattern p pm' of
                None \<Rightarrow> None
              | Some match \<Rightarrow> advance_loop scan now timeout p t event pms active (matches @ [match]))
           else if advanced then advance_loop scan now timeout p t event pms (active @ [pm']) matches
           else advance_loop scan now timeout p t event pms active matches))"

definition advancePartialMatches ::
  "scanner \<Rightarrow> gtime \<Rightarrow> duration \<Rightarrow> predicates Pattern \<Rightarrow> PartialMatch list \<Rightarrow> cevent \<Rightarrow> MatchedPattern list
    \<Rightarrow> (PartialMatch list \<times> MatchedPattern list) option" where
  "advancePartialMatches scan now timeout p pms event matches =
    (case timestamp event of None \<Rightarrow> None | Some t \<Rightarrow> advance_loop scan now timeout p t event pms [] matches)"

section \<open>Processing an event\<close>

definition stamp :: "gtime \<Rightarrow> cevent \<Rightarrow> cevent" where
  "stamp now event = (case event ''timestamp'' of None \<Rightarrow> event(''timestamp'' \<mapsto> VTime now) | Some _ \<Rightarrow> event)"

definition process_pattern ::
  "scanner \<Rightarrow> gtime \<Rightarrow> cevent \<Rightarrow> string \<Rightarrow> CEPEngine \<times> MatchedPattern list \<Rightarrow> (CEPEngine \<times> MatchedPattern list) option" where
  "process_pattern scan now event i = (\<lambda>(e, matches).
    case ce_patterns e i of
      None \<Rightarrow> Some (e, matches)
    | Some p \<Rightarrow>
        (case advancePartialMatches scan now (ce_timeoutDuration e) p (get_or (ce_partialMatches e) i []) event matches of
           None \<Rightarrow> None
         | Some (active, matches') \<Rightarrow>
             if canStartNewMatch scan p event then
               (case createPartialMatch now p event of
                  None \<Rightarrow> None
                | Some pm \<Rightarrow> Some (e\<lparr>ce_partialMatches := (ce_partialMatches e)(i \<mapsto> active @ [pm])\<rparr>, matches'))
             else Some (e\<lparr>ce_partialMatches := (ce_partialMatches e)(i \<mapsto> active)\<rparr>, matches')))"

fun process_patterns ::
  "scanner \<Rightarrow> gtime \<Rightarrow> cevent \<Rightarrow> string list \<Rightarrow> CEPEngine \<times> MatchedPattern list \<Rightarrow> (CEPEngine \<times> MatchedPattern list) option" where
  "process_patterns scan now event [] s = Some s"
| "process_patterns scan now event (i # is) s =
    (case process_pattern scan now event i s of None \<Rightarrow> None | Some s' \<Rightarrow> process_patterns scan now event is s')"

definition ProcessEvent :: "scanner \<Rightarrow> gtime \<Rightarrow> string list \<Rightarrow> cevent \<Rightarrow> CEPEngine \<Rightarrow> (MatchedPattern list \<times> CEPEngine) option" where
  "ProcessEvent scan now order event e =
    (let ev = stamp now event in
     case limit_buffer (ce_maxBufferSize e) (ce_eventBuffer e @ [ev]) of
       None \<Rightarrow> None
     | Some buf \<Rightarrow>
         (case process_patterns scan now ev order (e\<lparr>ce_eventBuffer := buf\<rparr>, []) of
            None \<Rightarrow> None
          | Some (e', matches) \<Rightarrow> Some (matches, e')))"

definition cleanupTimedOutMatches :: "gtime \<Rightarrow> string list \<Rightarrow> CEPEngine \<Rightarrow> CEPEngine" where
  "cleanupTimedOutMatches now order e =
    fold (\<lambda>i e. case ce_patterns e i of
        None \<Rightarrow> e
      | Some p \<Rightarrow> e\<lparr>ce_partialMatches := (ce_partialMatches e)
          (i \<mapsto> filter (\<lambda>pm. \<not> hasTimedOut now (ce_timeoutDuration e) pm p) (get_or (ce_partialMatches e) i []))\<rparr>) order e"

record CEPStatistics =
  registered_patterns :: nat
  event_buffer_size :: nat
  active_partial_matches :: nat

definition ce_GetStatistics :: "string list \<Rightarrow> CEPEngine \<Rightarrow> CEPStatistics" where
  "ce_GetStatistics keys e = \<lparr>registered_patterns = len_map (ce_patterns e), event_buffer_size = length (ce_eventBuffer e),
     active_partial_matches = sum_list (map (\<lambda>k. length (get_or (ce_partialMatches e) k [])) keys)\<rparr>"

section \<open>One pattern at a time\<close>

text \<open>What an event does to one pattern, and a run of one pattern over stamped events.\<close>

definition step_pattern ::
  "scanner \<Rightarrow> duration \<Rightarrow> predicates Pattern \<Rightarrow> gtime \<times> cevent \<Rightarrow> PartialMatch list \<Rightarrow> (PartialMatch list \<times> MatchedPattern list) option" where
  "step_pattern scan timeout p = (\<lambda>(now, ev) pms.
    case advancePartialMatches scan now timeout p pms ev [] of
      None \<Rightarrow> None
    | Some (active, ms) \<Rightarrow>
        if canStartNewMatch scan p ev then map_option (\<lambda>pm. (active @ [pm], ms)) (createPartialMatch now p ev)
        else Some (active, ms))"

fun pattern_run ::
  "scanner \<Rightarrow> duration \<Rightarrow> predicates Pattern \<Rightarrow> (gtime \<times> cevent) list \<Rightarrow> PartialMatch list \<Rightarrow> (MatchedPattern list list \<times> PartialMatch list) option" where
  "pattern_run scan timeout p [] pms = Some ([], pms)"
| "pattern_run scan timeout p (x # xs) pms =
    (case step_pattern scan timeout p x pms of
       None \<Rightarrow> None
     | Some (pms', ms) \<Rightarrow> map_option (\<lambda>(mss, q). (ms # mss, q)) (pattern_run scan timeout p xs pms'))"

definition advance_one ::
  "scanner \<Rightarrow> gtime \<Rightarrow> duration \<Rightarrow> predicates Pattern \<Rightarrow> gtime \<Rightarrow> cevent \<Rightarrow> PartialMatch \<Rightarrow> (PartialMatch list \<times> MatchedPattern list) option" where
  "advance_one scan now timeout p t event pm =
    (if hasTimedOut now timeout pm p \<or> pat_TimeWindow p > 0 \<and> time_Sub t (pm_StartTime pm) > pat_TimeWindow p then Some ([], [])
     else (case tryAdvanceMatch scan p event pm of
         None \<Rightarrow> None
       | Some ((advanced, completed), pm') \<Rightarrow>
           if completed then map_option (\<lambda>m. ([], [m])) (createMatchedPattern p pm')
           else Some (if advanced then [pm'] else [], [])))"

lemma advance_loop_Cons:
  "advance_loop scan now timeout p t ev (pm # pms) active ms =
    (case advance_one scan now timeout p t ev pm of
       None \<Rightarrow> None
     | Some (a, m) \<Rightarrow> advance_loop scan now timeout p t ev pms (active @ a) (ms @ m))"
  by (auto simp: advance_one_def split: option.split)

declare advance_loop.simps(2) [simp del]

lemma advance_loop_acc:
  "advance_loop scan now timeout p t ev pms active ms =
    map_option (\<lambda>(a, m). (active @ a, ms @ m)) (advance_loop scan now timeout p t ev pms [] [])"
proof (induction pms arbitrary: active ms)
  case (Cons pm pms)
  show ?case
  proof (cases "advance_one scan now timeout p t ev pm")
    case (Some am)
    obtain a m where am: "am = (a, m)" by (rule prod.exhaust)
    show ?thesis
      unfolding advance_loop_Cons Some am option.case prod.case append_Nil Cons.IH [of "active @ a" "ms @ m"] Cons.IH [of a m]
      by (simp only: option.map_comp comp_def split_def fst_conv snd_conv append_assoc)
  qed (simp add: advance_loop_Cons)
qed simp

lemma process_pattern_step:
  assumes "ce_patterns e i = Some p"
  shows "process_pattern scan now ev i (e, ms0) =
    map_option (\<lambda>(pms, ms). (e\<lparr>ce_partialMatches := (ce_partialMatches e)(i \<mapsto> pms)\<rparr>, ms0 @ ms))
      (step_pattern scan (ce_timeoutDuration e) p (now, ev) (get_or (ce_partialMatches e) i []))"
  using assms
  by (auto simp: process_pattern_def step_pattern_def advancePartialMatches_def
      advance_loop_acc [of _ _ _ _ _ _ _ _ ms0] option.map_comp comp_def split: option.splits)

lemma createMatchedPattern_ID: "createMatchedPattern p pm = Some m \<Longrightarrow> mp_PatternID m = pat_ID p"
  by (auto simp: createMatchedPattern_def split: option.splits)

lemma advance_one_ID: "advance_one scan now timeout p t ev pm = Some (a, m) \<Longrightarrow> \<forall>x \<in> set m. mp_PatternID x = pat_ID p"
  by (auto simp: advance_one_def split: if_splits option.splits prod.splits dest!: createMatchedPattern_ID)

lemma advance_loop_ID:
  "advance_loop scan now timeout p t ev pms active ms = Some (a, m) \<Longrightarrow> \<forall>x \<in> set ms. mp_PatternID x = pat_ID p \<Longrightarrow>
    \<forall>x \<in> set m. mp_PatternID x = pat_ID p"
proof (induction pms arbitrary: active ms)
  case (Cons pm pms)
  from Cons.prems(1) obtain a1 m1 where one: "advance_one scan now timeout p t ev pm = Some (a1, m1)"
    and more: "advance_loop scan now timeout p t ev pms (active @ a1) (ms @ m1) = Some (a, m)"
    by (auto simp: advance_loop_Cons split: option.splits)
  show ?case using Cons.IH [OF more] Cons.prems(2) advance_one_ID [OF one] by auto
qed simp

lemma step_pattern_ID: "step_pattern scan timeout p x pms = Some (pms', ms) \<Longrightarrow> \<forall>m \<in> set ms. mp_PatternID m = pat_ID p"
  by (auto simp: step_pattern_def advancePartialMatches_def split: option.splits if_splits prod.splits dest!: advance_loop_ID)

section \<open>Invariants of a pattern\<close>

text \<open>An invariant \<open>L\<close> of the partial matches of a pattern and a guarantee \<open>R\<close> for the matches an event reports, both
  relative to the events seen so far. It includes that no event with a timestamp makes the pattern panic.\<close>

locale pattern_invariant =
  fixes scan :: scanner and timeout :: duration and p :: "predicates Pattern"
    and L :: "(gtime \<times> cevent) list \<Rightarrow> PartialMatch list \<Rightarrow> bool"
    and R :: "(gtime \<times> cevent) list \<Rightarrow> MatchedPattern list \<Rightarrow> bool"
  assumes init: "L [] []"
    and step: "L seen pms \<Longrightarrow> timestamp ev \<noteq> None \<Longrightarrow>
      \<exists>pms' ms. step_pattern scan timeout p (now, ev) pms = Some (pms', ms) \<and>
        L (seen @ [(now, ev)]) pms' \<and> R (seen @ [(now, ev)]) ms"
begin

lemma run:
  assumes "\<forall>x \<in> set xs. timestamp (snd x) \<noteq> None" "L seen pms"
  shows "\<exists>mss pms'. pattern_run scan timeout p xs pms = Some (mss, pms') \<and> length mss = length xs \<and>
    L (seen @ xs) pms' \<and> (\<forall>k < length xs. R (seen @ take (Suc k) xs) (mss ! k))"
  using assms
proof (induction xs arbitrary: seen pms)
  case (Cons x xs)
  obtain now ev where x: "x = (now, ev)" by (rule prod.exhaust)
  obtain pms' ms where one: "step_pattern scan timeout p x pms = Some (pms', ms)" "L (seen @ [x]) pms'" "R (seen @ [x]) ms"
    using step [of seen pms ev now] Cons.prems by (auto simp: x)
  obtain mss q where more: "pattern_run scan timeout p xs pms' = Some (mss, q)" "length mss = length xs" "L (seen @ x # xs) q"
    "\<forall>k < length xs. R (seen @ x # take (Suc k) xs) (mss ! k)"
    using Cons.IH [OF _ one(2)] Cons.prems(1) by auto
  have "R (seen @ take (Suc k) (x # xs)) ((ms # mss) ! k)" if "k < Suc (length xs)" for k
    using one(3) more(4) that by (cases k) auto
  with one more show ?case by (intro exI [of _ "ms # mss"] exI [of _ q]) auto
qed simp

end

text \<open>An invariant of each partial match by itself.\<close>

locale match_invariant =
  fixes scan :: scanner and p :: "predicates Pattern"
    and I :: "cevent list \<Rightarrow> PartialMatch \<Rightarrow> bool" and Q :: "cevent list \<Rightarrow> MatchedPattern \<Rightarrow> bool"
  assumes create: "canStartNewMatch scan p ev \<Longrightarrow> createPartialMatch now p ev = Some pm \<Longrightarrow> I (seen @ [ev]) pm"
    and advance: "I seen pm \<Longrightarrow> timestamp ev = Some t \<Longrightarrow> (0 < pat_TimeWindow p \<longrightarrow> time_Sub t (pm_StartTime pm) \<le> pat_TimeWindow p) \<Longrightarrow>
      \<exists>advanced completed pm'. tryAdvanceMatch scan p ev pm = Some ((advanced, completed), pm') \<and>
        (completed \<longrightarrow> (\<exists>m. createMatchedPattern p pm' = Some m \<and> Q (seen @ [ev]) m)) \<and>
        (advanced \<and> \<not> completed \<longrightarrow> I (seen @ [ev]) pm')"
begin

lemma one:
  assumes "I seen pm" "timestamp ev = Some t"
  shows "\<exists>a m. advance_one scan now timeout p t ev pm = Some (a, m) \<and> (\<forall>x \<in> set a. I (seen @ [ev]) x) \<and> (\<forall>x \<in> set m. Q (seen @ [ev]) x)"
proof (cases "hasTimedOut now timeout pm p \<or> pat_TimeWindow p > 0 \<and> time_Sub t (pm_StartTime pm) > pat_TimeWindow p")
  case False
  then have "0 < pat_TimeWindow p \<longrightarrow> time_Sub t (pm_StartTime pm) \<le> pat_TimeWindow p" by auto
  from advance [OF assms this] obtain advanced completed pm' where "tryAdvanceMatch scan p ev pm = Some ((advanced, completed), pm')"
    "completed \<longrightarrow> (\<exists>m. createMatchedPattern p pm' = Some m \<and> Q (seen @ [ev]) m)"
    "advanced \<and> \<not> completed \<longrightarrow> I (seen @ [ev]) pm'"
    by blast
  then show ?thesis using False by (cases completed; cases advanced) (auto simp: advance_one_def)
qed (simp add: advance_one_def)

lemma all_matches:
  assumes "\<forall>pm \<in> set pms. I seen pm" "timestamp ev = Some t"
  shows "\<exists>a m. advance_loop scan now timeout p t ev pms [] [] = Some (a, m) \<and> (\<forall>x \<in> set a. I (seen @ [ev]) x) \<and> (\<forall>x \<in> set m. Q (seen @ [ev]) x)"
  using assms(1)
proof (induction pms)
  case (Cons pm pms)
  obtain a m where am: "advance_one scan now timeout p t ev pm = Some (a, m)" "\<forall>x \<in> set a. I (seen @ [ev]) x" "\<forall>x \<in> set m. Q (seen @ [ev]) x"
    using one [of seen pm ev t now timeout] assms(2) Cons.prems by auto
  obtain a' m' where more: "advance_loop scan now timeout p t ev pms [] [] = Some (a', m')"
    "\<forall>x \<in> set a'. I (seen @ [ev]) x" "\<forall>x \<in> set m'. Q (seen @ [ev]) x"
    using Cons by auto
  show ?case
    using am more by (auto simp: advance_loop_Cons advance_loop_acc [of _ _ _ _ _ _ _ a m])
qed simp

end

sublocale match_invariant \<subseteq> whole: pattern_invariant scan timeout p
  "\<lambda>seen pms. \<forall>pm \<in> set pms. I (map snd seen) pm" "\<lambda>seen ms. \<forall>m \<in> set ms. Q (map snd seen) m" for timeout
proof unfold_locales
  fix seen :: "(gtime \<times> cevent) list" and pms ev now
  assume I: "\<forall>pm \<in> set pms. I (map snd seen) pm" and "timestamp ev \<noteq> None"
  then obtain t where t: "timestamp ev = Some t" by auto
  obtain a m where am: "advance_loop scan now timeout p t ev pms [] [] = Some (a, m)"
    "\<forall>x \<in> set a. I (map snd seen @ [ev]) x" "\<forall>x \<in> set m. Q (map snd seen @ [ev]) x"
    using all_matches [OF I t] by metis
  obtain pm where pm: "createPartialMatch now p ev = Some pm" using t by (simp add: createPartialMatch_def)
  show "\<exists>pms' ms. step_pattern scan timeout p (now, ev) pms = Some (pms', ms) \<and>
      (\<forall>pm \<in> set pms'. I (map snd (seen @ [(now, ev)])) pm) \<and> (\<forall>m \<in> set ms. Q (map snd (seen @ [(now, ev)])) m)"
    using am create [OF _ pm] by (auto simp: step_pattern_def advancePartialMatches_def t pm)
qed simp

section \<open>The engine runs its patterns independently\<close>

fun cep_run :: "scanner \<Rightarrow> (gtime \<times> string list \<times> cevent) list \<Rightarrow> CEPEngine \<Rightarrow> (MatchedPattern list list \<times> CEPEngine) option" where
  "cep_run scan [] e = Some ([], e)"
| "cep_run scan ((now, order, ev) # xs) e =
    (case ProcessEvent scan now order ev e of
       None \<Rightarrow> None
     | Some (ms, e') \<Rightarrow> map_option (\<lambda>(mss, q). (ms # mss, q)) (cep_run scan xs e'))"

definition stamped :: "gtime \<times> string list \<times> cevent \<Rightarrow> gtime \<times> cevent" where
  "stamped = (\<lambda>(now, order, ev). (now, stamp now ev))"

abbreviation of_pattern :: "string \<Rightarrow> MatchedPattern list \<Rightarrow> MatchedPattern list" where
  "of_pattern i \<equiv> filter (\<lambda>m. mp_PatternID m = i)"

lemma process_patterns_project:
  assumes "distinct order"
    and "\<forall>i \<in> set order. \<exists>p. ce_patterns e i = Some p \<and> pat_ID p = i \<and>
      step_pattern scan (ce_timeoutDuration e) p (now, ev) (get_or (ce_partialMatches e) i []) \<noteq> None"
  shows "\<exists>ms pms'. process_patterns scan now ev order (e, ms0) = Some (e\<lparr>ce_partialMatches := pms'\<rparr>, ms0 @ ms) \<and>
    (\<forall>i \<in> set order. step_pattern scan (ce_timeoutDuration e) (the (ce_patterns e i)) (now, ev) (get_or (ce_partialMatches e) i []) =
       Some (get_or pms' i [], of_pattern i ms)) \<and>
    (\<forall>i. i \<notin> set order \<longrightarrow> pms' i = ce_partialMatches e i \<and> of_pattern i ms = [])"
  using assms
proof (induction order arbitrary: e ms0)
  case Nil
  show ?case by (intro exI [of _ "[]"] exI [of _ "ce_partialMatches e"]) simp
next
  case (Cons i order)
  obtain p pms ms where p: "ce_patterns e i = Some p" "pat_ID p = i"
    and one: "step_pattern scan (ce_timeoutDuration e) p (now, ev) (get_or (ce_partialMatches e) i []) = Some (pms, ms)"
    using Cons.prems(2) by (metis list.set_intros(1) option.exhaust surj_pair)
  let ?e1 = "e\<lparr>ce_partialMatches := (ce_partialMatches e)(i \<mapsto> pms)\<rparr>"
  have i: "i \<notin> set order" "distinct order" using Cons.prems(1) by auto
  have "\<forall>j \<in> set order. \<exists>p. ce_patterns ?e1 j = Some p \<and> pat_ID p = j \<and>
      step_pattern scan (ce_timeoutDuration ?e1) p (now, ev) (get_or (ce_partialMatches ?e1) j []) \<noteq> None"
    using Cons.prems(2) i(1) by (auto simp: get_or_def)
  from Cons.IH [OF i(2) this, of "ms0 @ ms"] obtain ms1 pms' where
    rest: "process_patterns scan now ev order (?e1, ms0 @ ms) = Some (?e1\<lparr>ce_partialMatches := pms'\<rparr>, (ms0 @ ms) @ ms1)"
    and steps: "\<forall>j \<in> set order. step_pattern scan (ce_timeoutDuration ?e1) (the (ce_patterns ?e1 j)) (now, ev) (get_or (ce_partialMatches ?e1) j []) =
       Some (get_or pms' j [], of_pattern j ms1)"
    and others: "\<forall>j. j \<notin> set order \<longrightarrow> pms' j = ce_partialMatches ?e1 j \<and> of_pattern j ms1 = []"
    by blast
  have ids: "of_pattern i ms = ms" "j \<noteq> i \<Longrightarrow> of_pattern j ms = []" for j
    using step_pattern_ID [OF one] p(2) by (auto simp: filter_id_conv filter_empty_conv)
  have "process_patterns scan now ev (i # order) (e, ms0) = Some (e\<lparr>ce_partialMatches := pms'\<rparr>, ms0 @ (ms @ ms1))"
    using rest by (simp add: process_pattern_step [OF p(1)] one)
  moreover have "pms' i = Some pms" "of_pattern i ms1 = []" using others i(1) by auto
  moreover have "step_pattern scan (ce_timeoutDuration e) (the (ce_patterns e j)) (now, ev) (get_or (ce_partialMatches e) j []) =
      Some (get_or pms' j [], of_pattern j (ms @ ms1))" if "j \<in> set (i # order)" for j
    using steps one p(1) ids i(1) calculation that by (cases "j = i") auto
  moreover have "pms' j = ce_partialMatches e j \<and> of_pattern j (ms @ ms1) = []" if "j \<notin> set (i # order)" for j
    using others ids(2) that by auto
  ultimately show ?case by blast
qed

lemma ProcessEvent_project:
  assumes "range_order order (ce_patterns e)" "0 \<le> ce_maxBufferSize e"
    and "\<forall>i p. ce_patterns e i = Some p \<longrightarrow> pat_ID p = i \<and>
      step_pattern scan (ce_timeoutDuration e) p (now, stamp now ev) (get_or (ce_partialMatches e) i []) \<noteq> None"
  shows "\<exists>ms e'. ProcessEvent scan now order ev e = Some (ms, e') \<and>
    ce_patterns e' = ce_patterns e \<and> ce_timeoutDuration e' = ce_timeoutDuration e \<and> ce_maxBufferSize e' = ce_maxBufferSize e \<and>
    (\<forall>i p. ce_patterns e i = Some p \<longrightarrow>
      step_pattern scan (ce_timeoutDuration e) p (now, stamp now ev) (get_or (ce_partialMatches e) i []) =
        Some (get_or (ce_partialMatches e') i [], of_pattern i ms)) \<and>
    (\<forall>m \<in> set ms. mp_PatternID m \<in> dom (ce_patterns e))"
proof -
  have "limit_buffer (ce_maxBufferSize e) (ce_eventBuffer e @ [stamp now ev]) \<noteq> None" using assms(2) by (simp add: limit_buffer_def)
  then obtain buf where buf: "limit_buffer (ce_maxBufferSize e) (ce_eventBuffer e @ [stamp now ev]) = Some buf" by blast
  let ?e1 = "e\<lparr>ce_eventBuffer := buf\<rparr>"
  have mem: "i \<in> set order \<longleftrightarrow> (\<exists>p. ce_patterns e i = Some p)" for i using range_order_mem [OF assms(1)] .
  then have "\<forall>i \<in> set order. \<exists>p. ce_patterns ?e1 i = Some p \<and> pat_ID p = i \<and>
      step_pattern scan (ce_timeoutDuration ?e1) p (now, stamp now ev) (get_or (ce_partialMatches ?e1) i []) \<noteq> None"
    using assms(3) by auto
  from process_patterns_project [OF range_order_distinct [OF assms(1)] this, of "[]"] obtain ms pms' where
    run: "process_patterns scan now (stamp now ev) order (?e1, []) = Some (?e1\<lparr>ce_partialMatches := pms'\<rparr>, [] @ ms)"
    and steps: "\<forall>i \<in> set order. step_pattern scan (ce_timeoutDuration ?e1) (the (ce_patterns ?e1 i)) (now, stamp now ev) (get_or (ce_partialMatches ?e1) i []) =
       Some (get_or pms' i [], of_pattern i ms)"
    and others: "\<forall>i. i \<notin> set order \<longrightarrow> of_pattern i ms = []"
    by blast
  have "mp_PatternID m \<in> dom (ce_patterns e)" if "m \<in> set ms" for m
    using others mem that by (fastforce simp: filter_empty_conv)
  moreover have "step_pattern scan (ce_timeoutDuration e) p (now, stamp now ev) (get_or (ce_partialMatches e) i []) =
      Some (get_or pms' i [], of_pattern i ms)" if "ce_patterns e i = Some p" for i p
    using bspec [OF steps, of i] mem [of i] that by simp
  ultimately show ?thesis
    using run by (intro exI [of _ ms] exI [of _ "?e1\<lparr>ce_partialMatches := pms'\<rparr>"]) (auto simp: ProcessEvent_def buf)
qed

lemma cep_run_project:
  assumes "\<forall>x \<in> set xs. range_order (fst (snd x)) (ce_patterns e)" "0 \<le> ce_maxBufferSize e"
    and "\<forall>i p. ce_patterns e i = Some p \<longrightarrow> pat_ID p = i \<and>
      pattern_run scan (ce_timeoutDuration e) p (map stamped xs) (get_or (ce_partialMatches e) i []) \<noteq> None"
  shows "\<exists>mss e'. cep_run scan xs e = Some (mss, e') \<and> length mss = length xs \<and>
    (\<forall>i p. ce_patterns e i = Some p \<longrightarrow>
      map_option fst (pattern_run scan (ce_timeoutDuration e) p (map stamped xs) (get_or (ce_partialMatches e) i [])) = Some (map (of_pattern i) mss)) \<and>
    (\<forall>ms \<in> set mss. \<forall>m \<in> set ms. mp_PatternID m \<in> dom (ce_patterns e))"
  using assms
proof (induction xs arbitrary: e)
  case (Cons x xs)
  obtain now order ev where x: "x = (now, order, ev)" by (rule prod_cases3)
  have st: "stamped x = (now, stamp now ev)" by (simp add: stamped_def x)
  have "\<forall>i p. ce_patterns e i = Some p \<longrightarrow> pat_ID p = i \<and>
      step_pattern scan (ce_timeoutDuration e) p (now, stamp now ev) (get_or (ce_partialMatches e) i []) \<noteq> None"
    using Cons.prems(3) by (auto simp: st split: option.splits)
  moreover have "range_order order (ce_patterns e)" using Cons.prems(1) by (simp add: x)
  ultimately obtain ms e1 where one: "ProcessEvent scan now order ev e = Some (ms, e1)"
    "ce_patterns e1 = ce_patterns e" "ce_timeoutDuration e1 = ce_timeoutDuration e" "ce_maxBufferSize e1 = ce_maxBufferSize e"
    and steps: "\<forall>i p. ce_patterns e i = Some p \<longrightarrow>
      step_pattern scan (ce_timeoutDuration e) p (now, stamp now ev) (get_or (ce_partialMatches e) i []) =
        Some (get_or (ce_partialMatches e1) i [], of_pattern i ms)"
    and ids: "\<forall>m \<in> set ms. mp_PatternID m \<in> dom (ce_patterns e)"
    using ProcessEvent_project [of order e scan now ev] Cons.prems(2) by blast
  have "\<forall>i p. ce_patterns e1 i = Some p \<longrightarrow> pat_ID p = i \<and>
      pattern_run scan (ce_timeoutDuration e1) p (map stamped xs) (get_or (ce_partialMatches e1) i []) \<noteq> None"
    using Cons.prems(3) steps by (auto simp: st one split: option.splits)
  from Cons.IH [OF _ _ this] obtain mss e' where more: "cep_run scan xs e1 = Some (mss, e')" "length mss = length xs"
    "\<forall>i p. ce_patterns e i = Some p \<longrightarrow>
      map_option fst (pattern_run scan (ce_timeoutDuration e) p (map stamped xs) (get_or (ce_partialMatches e1) i [])) = Some (map (of_pattern i) mss)"
    "\<forall>ms \<in> set mss. \<forall>m \<in> set ms. mp_PatternID m \<in> dom (ce_patterns e)"
    using Cons.prems(1,2) by (auto simp: one)
  have "cep_run scan (x # xs) e = Some (ms # mss, e')" by (simp add: x one more)
  moreover have "map_option fst (pattern_run scan (ce_timeoutDuration e) p (map stamped (x # xs)) (get_or (ce_partialMatches e) i [])) =
      Some (map (of_pattern i) (ms # mss))" if "ce_patterns e i = Some p" for i p
    using more(3) steps that by (auto simp: st)
  ultimately show ?case
    using more(2,4) ids by (intro exI [of _ "ms # mss"] exI [of _ e'] conjI) (assumption | simp)+
qed simp

end
