(* ===== verification/CEP_Properties.thy ===== *)
theory CEP_Properties
  imports CEP_Engine "HOL-Library.Sublist"
begin

text \<open>
  What the engine of \<open>pkg/cep/engine.go\<close> reports: soundness of every match for arbitrary patterns, the exact matches
  of plain sequences, and patterns that can never be reported. Each is an invariant of the partial matches of a
  pattern, an interpretation of the locales of \<open>CEP_Engine\<close>, carried over to the engine by \<open>cep_run_project\<close>.
\<close>

section \<open>Sound matches\<close>

text \<open>\<open>ss\<close> assigns to each matched event the step of the pattern it was matched with.\<close>

definition assigned :: "scanner \<Rightarrow> predicates Pattern \<Rightarrow> cevent list \<Rightarrow> nat list \<Rightarrow> bool" where
  "assigned scan p es ss \<longleftrightarrow> sorted ss \<and>
    list_all2 (\<lambda>e s. s < length (pat_Events p) \<and> \<not> ep_Negated (pat_Events p ! s) \<and> ce_matchesEventPattern scan e (pat_Events p ! s)) es ss"

definition spaced :: "predicates Pattern \<Rightarrow> cevent list \<Rightarrow> nat list \<Rightarrow> bool" where
  "spaced p es ss \<longleftrightarrow> (\<forall>j. Suc j < length es \<longrightarrow>
    temporal_verdict (ep_TemporalConstraint (pat_Events p ! (ss ! Suc j)))
      (time_Sub (the (timestamp (es ! Suc j))) (the (timestamp (es ! j)))) = None)"

definition in_window :: "predicates Pattern \<Rightarrow> cevent list \<Rightarrow> bool" where
  "in_window p es \<longleftrightarrow> (0 < pat_TimeWindow p \<longrightarrow>
    (\<forall>e \<in> set es. time_Sub (the (timestamp e)) (the (timestamp (hd es))) \<le> pat_TimeWindow p))"

definition enough :: "predicates Pattern \<Rightarrow> nat list \<Rightarrow> nat \<Rightarrow> bool" where
  "enough p ss n \<longleftrightarrow> (\<forall>s < n. ep_Negated (pat_Events p ! s) \<or> ep_Optional (pat_Events p ! s) \<or>
    isQuantifierSatisfied (pat_Events p ! s) (int (count_list ss s)))"

definition witnessed :: "scanner \<Rightarrow> predicates Pattern \<Rightarrow> cevent list \<Rightarrow> cevent list \<Rightarrow> nat list \<Rightarrow> bool" where
  "witnessed scan p seen es ss \<longleftrightarrow> es \<noteq> [] \<and> subseq es seen \<and> (\<forall>e \<in> set es. timestamp e \<noteq> None) \<and> hd ss = 0 \<and>
    assigned scan p es ss \<and> spaced p es ss \<and> in_window p es"

definition match_sound :: "scanner \<Rightarrow> predicates Pattern \<Rightarrow> cevent list \<Rightarrow> MatchedPattern \<Rightarrow> bool" where
  "match_sound scan p seen m \<longleftrightarrow> mp_PatternID m = pat_ID p \<and> mp_PatternName m = pat_Name p \<and>
    Some (mp_FirstEventTime m) = timestamp (hd (mp_MatchedEvents m)) \<and> Some (mp_LastEventTime m) = timestamp (last (mp_MatchedEvents m)) \<and>
    (\<exists>ss. witnessed scan p seen (mp_MatchedEvents m) ss \<and> enough p ss (length (pat_Events p)))"

definition pm_inv :: "scanner \<Rightarrow> predicates Pattern \<Rightarrow> cevent list \<Rightarrow> PartialMatch \<Rightarrow> bool" where
  "pm_inv scan p seen pm \<longleftrightarrow> pm_CurrentStep pm \<le> length (pat_Events p) \<and>
    Some (pm_StartTime pm) = timestamp (hd (pm_MatchedEvents pm)) \<and> Some (pm_LastEventTime pm) = timestamp (last (pm_MatchedEvents pm)) \<and>
    (\<exists>ss. witnessed scan p seen (pm_MatchedEvents pm) ss \<and> enough p ss (pm_CurrentStep pm) \<and>
      (\<forall>s \<in> set ss. s \<le> pm_CurrentStep pm) \<and> (\<forall>s. get_or (pm_EventCounts pm) s 0 = int (count_list ss s)))"

lemma witnessed_seen: "witnessed scan p seen es ss \<Longrightarrow> witnessed scan p (seen @ [e]) es ss"
  by (simp add: witnessed_def list_emb_prefix)

lemma spaced_snoc:
  assumes "spaced p es ss" "length ss = length es" "es \<noteq> []"
    and "temporal_verdict (ep_TemporalConstraint (pat_Events p ! s)) (time_Sub (the (timestamp e)) (the (timestamp (last es)))) = None"
  shows "spaced p (es @ [e]) (ss @ [s])"
  unfolding spaced_def
proof (intro allI impI)
  fix j assume "Suc j < length (es @ [e])"
  then consider "Suc j < length es" | "length es = Suc j" by force
  then show "temporal_verdict (ep_TemporalConstraint (pat_Events p ! ((ss @ [s]) ! Suc j)))
      (time_Sub (the (timestamp ((es @ [e]) ! Suc j))) (the (timestamp ((es @ [e]) ! j)))) = None"
    using assms by cases (simp_all add: spaced_def nth_append last_conv_nth)
qed

lemma witnessed_snoc:
  assumes "witnessed scan p seen es ss" "\<forall>x \<in> set ss. x \<le> s" "s < length (pat_Events p)" "\<not> ep_Negated (pat_Events p ! s)"
    and "ce_matchesEventPattern scan e (pat_Events p ! s)" "timestamp e = Some t"
    and "temporal_verdict (ep_TemporalConstraint (pat_Events p ! s)) (time_Sub t (the (timestamp (last es)))) = None"
    and "0 < pat_TimeWindow p \<longrightarrow> time_Sub t (the (timestamp (hd es))) \<le> pat_TimeWindow p"
  shows "witnessed scan p (seen @ [e]) (es @ [e]) (ss @ [s])"
proof -
  have w: "es \<noteq> []" "assigned scan p es ss" "spaced p es ss" "in_window p es" using assms(1) by (auto simp: witnessed_def)
  have len: "length ss = length es" using w(2) by (auto simp: assigned_def dest: list_all2_lengthD)
  then have "ss \<noteq> []" using w(1) by auto
  moreover have "assigned scan p (es @ [e]) (ss @ [s])"
    using w(2) assms(2-5) by (auto simp: assigned_def sorted_append intro: list_all2_appendI)
  moreover have "spaced p (es @ [e]) (ss @ [s])"
    using spaced_snoc [OF w(3) len w(1)] assms(6,7) by simp
  moreover have "in_window p (es @ [e])" using w(1,4) assms(6,8) by (auto simp: in_window_def)
  ultimately show ?thesis using assms(1,6) by (auto simp: witnessed_def)
qed

lemma pm_inv_create:
  assumes "canStartNewMatch scan p ev" "createPartialMatch now p ev = Some pm"
  shows "pm_inv scan p (seen @ [ev]) pm"
proof -
  obtain step steps where steps: "pat_Events p = step # steps" using assms(1) by (auto simp: canStartNewMatch_def split: list.splits)
  obtain t where t: "timestamp ev = Some t" using assms(2) by (auto simp: createPartialMatch_def split: option.splits)
  have "witnessed scan p (seen @ [ev]) [ev] [0]"
    using assms(1) t
    by (auto simp: witnessed_def assigned_def spaced_def in_window_def canStartNewMatch_def steps time_Sub_def min_duration_def max_duration_def split: if_splits)
  then show ?thesis
    using assms(2) unfolding pm_inv_def
    by (auto simp: createPartialMatch_def t steps enough_def get_or_def intro!: exI [of _ "[0]"] split: if_splits)
qed

lemma pm_inv_skip:
  assumes "pm_inv scan p seen pm" "pm_CurrentStep pm < length (pat_Events p)"
    and "ep_Negated (pat_Events p ! pm_CurrentStep pm) \<or> ep_Optional (pat_Events p ! pm_CurrentStep pm)"
  shows "pm_inv scan p seen (pm\<lparr>pm_CurrentStep := Suc (pm_CurrentStep pm)\<rparr>)"
proof -
  obtain ss where ss: "witnessed scan p seen (pm_MatchedEvents pm) ss" "enough p ss (pm_CurrentStep pm)"
    "\<forall>s \<in> set ss. s \<le> pm_CurrentStep pm" "\<forall>s. get_or (pm_EventCounts pm) s 0 = int (count_list ss s)"
    using assms(1) by (auto simp: pm_inv_def)
  have "enough p ss (Suc (pm_CurrentStep pm))" using ss(2) assms(3) by (auto simp: enough_def less_Suc_eq)
  moreover have "\<forall>s \<in> set ss. s \<le> Suc (pm_CurrentStep pm)" using ss(3) by auto
  ultimately show ?thesis using assms(1,2) ss(1,4) by (auto simp: pm_inv_def)
qed

lemma pm_inv_frame:
  assumes "pm_inv scan p seen pm"
  shows "pm_inv scan p (seen @ [e]) (pm\<lparr>pm_NegationBuffer := b\<rparr>)" "pm_inv scan p (seen @ [e]) pm"
  using assms by (auto simp: pm_inv_def intro: witnessed_seen)

lemma pm_inv_count:
  assumes inv: "pm_inv scan p seen pm" and step: "pm_CurrentStep pm < length (pat_Events p)" "step = pat_Events p ! pm_CurrentStep pm"
    and fits: "\<not> ep_Negated step" "ce_matchesEventPattern scan ev step" "timestamp ev = Some t"
    and times: "temporal_verdict (ep_TemporalConstraint step) (time_Sub t (pm_LastEventTime pm)) = None"
      "0 < pat_TimeWindow p \<longrightarrow> time_Sub t (pm_StartTime pm) \<le> pat_TimeWindow p"
  shows "pm_inv scan p (seen @ [ev]) (snd (count_event p step t ev pm))"
proof -
  let ?s = "pm_CurrentStep pm" and ?es = "pm_MatchedEvents pm"
  obtain ss where ss: "witnessed scan p seen ?es ss" "enough p ss ?s" "\<forall>s \<in> set ss. s \<le> ?s"
    "\<forall>s. get_or (pm_EventCounts pm) s 0 = int (count_list ss s)"
    using inv by (auto simp: pm_inv_def)
  have ends: "the (timestamp (hd ?es)) = pm_StartTime pm" "the (timestamp (last ?es)) = pm_LastEventTime pm"
    using inv by (metis pm_inv_def option.sel)+
  have w: "witnessed scan p (seen @ [ev]) (?es @ [ev]) (ss @ [?s])"
    using witnessed_snoc [OF ss(1,3) step(1)] fits times step(2) ends by simp
  have "?es \<noteq> []" using ss(1) by (simp add: witnessed_def)
  have counts: "count_list (ss @ [?s]) s = (if s = ?s then count_list ss s + 1 else count_list ss s)" for s by simp
  have e1: "enough p (ss @ [?s]) ?s" using ss(2) by (auto simp: enough_def)
  moreover have "enough p (ss @ [?s]) (Suc ?s)" if "isQuantifierSatisfied step (int (count_list ss ?s) + 1)"
    using e1 that step(2) by (auto simp: enough_def less_Suc_eq add.commute)
  moreover have "\<forall>s \<in> set ss. s \<le> Suc ?s" using ss(3) by auto
  ultimately show ?thesis
    using w inv ss(3,4) step(1) fits(3) \<open>?es \<noteq> []\<close>
    unfolding pm_inv_def count_event_def Let_def
    by (auto simp: add.commute intro!: exI [of _ "ss @ [?s]"])
qed

lemma completed_steps:
  "snd (checkIfCompleted p pm) \<Longrightarrow> length (pat_Events p) \<le> pm_CurrentStep pm"
  by (auto simp: checkIfCompleted_def split: if_splits)

lemma count_event_completed:
  "snd (fst (count_event p step t ev pm)) \<Longrightarrow> length (pat_Events p) \<le> pm_CurrentStep (snd (count_event p step t ev pm))"
  by (auto simp: count_event_def Let_def dest: completed_steps split: if_splits)

lemma pm_inv_negated:
  assumes "pm_inv scan p seen pm" "pm_CurrentStep pm < length (pat_Events p)" "step = pat_Events p ! pm_CurrentStep pm" "ep_Negated step"
  shows "pm_inv scan p (seen @ [ev]) (snd (advance_negated scan p step t ev pm)) \<and>
    (snd (fst (advance_negated scan p step t ev pm)) \<longrightarrow>
      length (pat_Events p) \<le> pm_CurrentStep (snd (advance_negated scan p step t ev pm)))"
proof -
  have "pm_inv scan p (seen @ [ev]) (pm\<lparr>pm_CurrentStep := Suc (pm_CurrentStep pm), pm_NegationBuffer := []\<rparr>)"
    using pm_inv_frame(1) [OF pm_inv_skip [OF assms(1,2)], of ev "[]"] assms(3,4) by simp
  then show ?thesis
    using pm_inv_frame(1) [OF assms(1), of ev] assms
    by (auto simp: advance_negated_def Let_def dest: completed_steps split: option.split if_splits)
qed

text \<open>The branches of \<open>tryAdvanceMatch\<close>.\<close>

lemma tryAdvance_past: "length (pat_Events p) \<le> pm_CurrentStep pm \<Longrightarrow> tryAdvanceMatch scan p ev pm = Some ((False, True), pm)"
  by (simp add: tryAdvanceMatch.simps [of scan p ev pm])

lemma tryAdvance_at:
  assumes "pm_CurrentStep pm < length (pat_Events p)" "timestamp ev = Some t" "step = pat_Events p ! pm_CurrentStep pm"
  shows "ep_Negated step \<Longrightarrow> tryAdvanceMatch scan p ev pm = Some (advance_negated scan p step t ev pm)"
    and "\<not> ep_Negated step \<Longrightarrow> \<not> ce_matchesEventPattern scan ev step \<Longrightarrow> ep_Optional step \<Longrightarrow>
      tryAdvanceMatch scan p ev pm = tryAdvanceMatch scan p ev (pm\<lparr>pm_CurrentStep := Suc (pm_CurrentStep pm)\<rparr>)"
    and "\<not> ep_Negated step \<Longrightarrow> \<not> ce_matchesEventPattern scan ev step \<Longrightarrow> \<not> ep_Optional step \<Longrightarrow>
      tryAdvanceMatch scan p ev pm = Some ((False, False), pm)"
    and "\<not> ep_Negated step \<Longrightarrow> ce_matchesEventPattern scan ev step \<Longrightarrow>
      tryAdvanceMatch scan p ev pm = Some (case temporal_verdict (ep_TemporalConstraint step) (time_Sub t (pm_LastEventTime pm)) of
        Some verdict \<Rightarrow> (verdict, pm) | None \<Rightarrow> count_event p step t ev pm)"
  using assms by (simp_all add: tryAdvanceMatch.simps [of scan p ev pm] split: option.split)

lemma verdict_not_completed: "temporal_verdict tc d = Some (a, c) \<Longrightarrow> \<not> c"
  by (auto simp: temporal_verdict_def split: option.splits TemporalConstraintType.splits if_splits)

lemma tryAdvance_sound:
  assumes "pm_inv scan p seen pm" "timestamp ev = Some t"
    and "0 < pat_TimeWindow p \<longrightarrow> time_Sub t (pm_StartTime pm) \<le> pat_TimeWindow p"
  shows "\<exists>advanced completed pm'. tryAdvanceMatch scan p ev pm = Some ((advanced, completed), pm') \<and>
    pm_inv scan p (seen @ [ev]) pm' \<and> (completed \<longrightarrow> length (pat_Events p) \<le> pm_CurrentStep pm')"
  using assms
proof (induction scan p ev pm rule: tryAdvanceMatch.induct)
  case (1 scan p ev pm)
  let ?step = "pat_Events p ! pm_CurrentStep pm"
  note frame = pm_inv_frame(2) [OF 1(2), of ev]
  show ?case
  proof (cases "length (pat_Events p) \<le> pm_CurrentStep pm")
    case False
    then have lt: "pm_CurrentStep pm < length (pat_Events p)" by simp
    note at = tryAdvance_at [OF lt 1(3) refl, of scan]
    consider (neg) "ep_Negated ?step" | (skip) "\<not> ep_Negated ?step" "\<not> ce_matchesEventPattern scan ev ?step" "ep_Optional ?step"
      | (miss) "\<not> ep_Negated ?step" "\<not> ce_matchesEventPattern scan ev ?step" "\<not> ep_Optional ?step"
      | (hit) "\<not> ep_Negated ?step" "ce_matchesEventPattern scan ev ?step" by blast
    then show ?thesis
    proof cases
      case neg
      then show ?thesis
        using pm_inv_negated [OF 1(2) lt refl neg, of ev t] unfolding at(1) [OF neg] by (metis prod.collapse)
    next
      case skip
      have "pm_inv scan p seen (pm\<lparr>pm_CurrentStep := Suc (pm_CurrentStep pm)\<rparr>)" using pm_inv_skip [OF 1(2) lt] skip by simp
      then show ?thesis
        using 1(1) [OF False refl 1(3) skip(1,2,3)] 1(3,4) unfolding at(2) [OF skip] by simp
    next
      case miss
      show ?thesis unfolding at(3) [OF miss] using frame by auto
    next
      case hit
      show ?thesis
      proof (cases "temporal_verdict (ep_TemporalConstraint ?step) (time_Sub t (pm_LastEventTime pm))")
        case None
        show ?thesis
          using pm_inv_count [OF 1(2) lt refl hit 1(3) None 1(4)] count_event_completed [of p ?step t ev pm]
          unfolding at(4) [OF hit] None option.case by (metis prod.collapse)
      next
        case (Some v)
        obtain a c where v: "v = (a, c)" by (rule prod.exhaust)
        then show ?thesis
          using frame verdict_not_completed [OF Some [unfolded v]] unfolding at(4) [OF hit] Some v option.case by auto
      qed
    qed
  qed (use frame in \<open>auto simp: tryAdvance_past\<close>)
qed

lemma pm_inv_reported:
  assumes "pm_inv scan p seen pm" "length (pat_Events p) \<le> pm_CurrentStep pm"
  shows "\<exists>m. createMatchedPattern p pm = Some m \<and> match_sound scan p seen m"
proof -
  obtain ss where ss: "witnessed scan p seen (pm_MatchedEvents pm) ss" "enough p ss (pm_CurrentStep pm)"
    using assms(1) by (auto simp: pm_inv_def)
  then obtain s where "calculateSeverity (pm_MatchedEvents pm) = Some s"
    using timed_severity(1) [of "pm_MatchedEvents pm"] by (auto simp: witnessed_def)
  moreover have "pm_CurrentStep pm = length (pat_Events p)" using assms by (simp add: pm_inv_def)
  ultimately show ?thesis
    using assms(1) ss by (auto simp: createMatchedPattern_def match_sound_def pm_inv_def)
qed

interpretation sound: match_invariant scan p "pm_inv scan p" "match_sound scan p" for scan p
proof unfold_locales
  fix seen ev and pm :: PartialMatch and t
  assume "pm_inv scan p seen pm" "timestamp ev = Some t" "0 < pat_TimeWindow p \<longrightarrow> time_Sub t (pm_StartTime pm) \<le> pat_TimeWindow p"
  from tryAdvance_sound [OF this] obtain a c pm' where "tryAdvanceMatch scan p ev pm = Some ((a, c), pm')"
    "pm_inv scan p (seen @ [ev]) pm'" "c \<longrightarrow> length (pat_Events p) \<le> pm_CurrentStep pm'" by blast
  then show "\<exists>advanced completed pm'. tryAdvanceMatch scan p ev pm = Some ((advanced, completed), pm') \<and>
      (completed \<longrightarrow> (\<exists>m. createMatchedPattern p pm' = Some m \<and> match_sound scan p (seen @ [ev]) m)) \<and>
      (advanced \<and> \<not> completed \<longrightarrow> pm_inv scan p (seen @ [ev]) pm')"
    using pm_inv_reported by blast
qed (rule pm_inv_create)

lemma sound_run:
  assumes "\<forall>x \<in> set ys. timestamp (snd x) \<noteq> None"
  shows "\<exists>qss pms. pattern_run scan timeout p ys [] = Some (qss, pms) \<and> length qss = length ys \<and>
    (\<forall>k < length ys. \<forall>m \<in> set (qss ! k). match_sound scan p (map snd (take (Suc k) ys)) m)"
  using sound.whole.run [where seen = "[]" and pms = "[]" and scan = scan and p = p and timeout = timeout, OF assms] by auto

text \<open>An engine with the given patterns registered, in order, and before its first event.\<close>

definition engine_with :: "predicates Pattern list \<Rightarrow> int \<Rightarrow> duration \<Rightarrow> CEPEngine" where
  "engine_with ps maxSize timeout = fold RegisterPattern ps (NewCEPEngine maxSize timeout)"

definition input_ok :: "CEPEngine \<Rightarrow> gtime \<times> string list \<times> cevent \<Rightarrow> bool" where
  "input_ok e x \<longleftrightarrow> range_order (fst (snd x)) (ce_patterns e) \<and> timestamp (snd (stamped x)) \<noteq> None"

lemma engine_with_new:
  "ce_maxBufferSize (engine_with ps maxSize timeout) = maxSize" "ce_timeoutDuration (engine_with ps maxSize timeout) = timeout"
  "get_or (ce_partialMatches (engine_with ps maxSize timeout)) i [] = []"
  "ce_patterns (engine_with ps maxSize timeout) i = Some p \<Longrightarrow> pat_ID p = i"
proof -
  have "ce_maxBufferSize e = maxSize \<and> ce_timeoutDuration e = timeout \<and> get_or (ce_partialMatches e) i [] = [] \<and>
      (\<forall>i p. ce_patterns e i = Some p \<longrightarrow> pat_ID p = i)"
    if "e = engine_with ps maxSize timeout" for e
    using that by (induction ps arbitrary: e rule: rev_induct)
      (auto simp: engine_with_def NewCEPEngine_def RegisterPattern_def get_or_def split: if_splits)
  then show "ce_maxBufferSize (engine_with ps maxSize timeout) = maxSize" "ce_timeoutDuration (engine_with ps maxSize timeout) = timeout"
    "get_or (ce_partialMatches (engine_with ps maxSize timeout)) i [] = []"
    "ce_patterns (engine_with ps maxSize timeout) i = Some p \<Longrightarrow> pat_ID p = i"
    by blast+
qed

text \<open>Every run of an engine is, pattern by pattern, a run of the pattern, and no run panics.\<close>

lemma cep_run_patterns:
  assumes e_def: "e = engine_with ps maxSize timeout" and "0 \<le> maxSize" "list_all (input_ok e) xs"
  shows "\<exists>mss e'. cep_run scan xs e = Some (mss, e') \<and> length mss = length xs \<and>
    (\<forall>i p. ce_patterns e i = Some p \<longrightarrow>
      map_option fst (pattern_run scan timeout p (map stamped xs) []) = Some (map (of_pattern i) mss)) \<and>
    (\<forall>ms \<in> set mss. \<forall>m \<in> set ms. mp_PatternID m \<in> dom (ce_patterns e))"
proof -
  have "\<forall>x \<in> set (map stamped xs). timestamp (snd x) \<noteq> None"
    using assms(3) by (auto simp: list_all_iff input_ok_def)
  from sound_run [OF this] have run: "pattern_run scan timeout p (map stamped xs) [] \<noteq> None" for p by fastforce
  have new: "ce_maxBufferSize e = maxSize" "ce_timeoutDuration e = timeout" "get_or (ce_partialMatches e) i [] = []"
    "ce_patterns e i = Some p \<Longrightarrow> pat_ID p = i" for i p
    unfolding e_def by (simp_all add: engine_with_new)
  have "\<forall>x \<in> set xs. range_order (fst (snd x)) (ce_patterns e)" using assms(3) by (simp add: list_all_iff input_ok_def)
  from cep_run_project [OF this, of scan] show ?thesis using run assms(2) new by simp
qed

lemma pattern_matches:
  assumes "map_option fst (pattern_run scan timeout p ys []) = Some (map (of_pattern (pat_ID p)) mss)" "length mss = length ys"
    and "pattern_run scan timeout p ys [] = Some (qss, pms)" "\<forall>k < length ys. \<forall>m \<in> set (qss ! k). Q k m"
    and "k < length mss" "m \<in> set (mss ! k)" "mp_PatternID m = pat_ID p"
  shows "Q k m"
proof -
  have "qss = map (of_pattern (pat_ID p)) mss" using assms(1,3) by simp
  then show ?thesis using assms(2,4-7) by simp
qed


definition steps_2 :: "predicates Pattern" where
  "steps_2 = SequencePattern ''p'' ''n'' [''a'', ''b''] (10 * second)"

lemma steps_2_sel:
  "pat_ID steps_2 = ''p''" "pat_TimeWindow steps_2 = 10 * second" "pat_Conditions steps_2 = []"
  "pat_Events steps_2 = [plain_event (''event_'' @ show_nat 0) ''a'', plain_event (''event_'' @ show_nat 1) ''b'']"
  by (simp_all add: steps_2_def SequencePattern_def)

lemma typed_event_stamp: "timestamp (typed_event ty t) = Some t" "stamped (now, order, typed_event ty t) = (now, typed_event ty t)"
  by (simp_all add: timestamp_def typed_event_def field_def stamped_def stamp_def)

lemma engine_steps_2: "ce_patterns (engine_with [steps_2] 10 0) = [''p'' \<mapsto> steps_2]"
  by (simp add: engine_with_def RegisterPattern_def NewCEPEngine_def steps_2_sel)


section \<open>Negation without an end\<close>

definition never_ends :: "predicates Pattern \<Rightarrow> nat \<Rightarrow> bool" where
  "never_ends p k \<longleftrightarrow> k < length (pat_Events p) \<and> ep_Negated (pat_Events p ! k) \<and> ep_TemporalConstraint (pat_Events p ! k) = None"

lemma tryAdvance_stuck:
  assumes "never_ends p k" "pm_CurrentStep pm \<le> k" "timestamp ev = Some t" "tryAdvanceMatch scan p ev pm = Some (r, pm')"
  shows "pm_CurrentStep pm' \<le> k"
  using assms
proof (induction scan p ev pm rule: tryAdvanceMatch.induct)
  case (1 scan p ev pm)
  let ?step = "pat_Events p ! pm_CurrentStep pm"
  have lt: "pm_CurrentStep pm < length (pat_Events p)" using 1(2,3) by (simp add: never_ends_def)
  note at = tryAdvance_at [OF lt 1(4) refl, of scan]
  have stuck: "pm_CurrentStep pm \<noteq> k" if "\<not> ep_Negated ?step" using 1(2) that by (auto simp: never_ends_def)
  have neg: "pm_CurrentStep (snd (advance_negated scan p ?step t ev pm)) \<le> k"
    using 1(2,3) by (cases "pm_CurrentStep pm = k")
      (auto simp: advance_negated_def never_ends_def Let_def split: option.split)
  have cnt: "pm_CurrentStep (snd (count_event p ?step t ev pm)) \<le> Suc (pm_CurrentStep pm)"
    by (simp add: count_event_def Let_def)
  show ?case
  proof (cases "ep_Negated ?step")
    case True
    then show ?thesis using neg 1(5) at(1) by (auto split: prod.splits)
  next
    case False
    then have le: "Suc (pm_CurrentStep pm) \<le> k" using stuck 1(3) by simp
    show ?thesis
    proof (cases "ce_matchesEventPattern scan ev ?step")
      case hit: True
      show ?thesis
        using 1(3,5) cnt le unfolding at(4) [OF False hit] by (auto split: option.splits)
    next
      case miss: False
      show ?thesis
      proof (cases "ep_Optional ?step")
        case True
        have "\<not> length (pat_Events p) \<le> pm_CurrentStep pm" using lt by simp
        from 1(1) [OF this refl 1(4) False miss True 1(2)] show ?thesis using le 1(4,5) at(2) [OF False miss True] by simp
      next
        case opt: False
        then show ?thesis using at(3) [OF False miss opt] 1(3,5) by simp
      qed
    qed
  qed
qed

interpretation stuck: match_invariant scan p
  "\<lambda>seen pm. pm_inv scan p seen pm \<and> (never_ends p k \<longrightarrow> pm_CurrentStep pm \<le> k)" "\<lambda>seen m. \<not> never_ends p k" for scan p k
proof unfold_locales
  fix ev now seen and pm :: PartialMatch
  assume new: "canStartNewMatch scan p ev" "createPartialMatch now p ev = Some pm"
  have "pm_CurrentStep pm \<le> k" if "never_ends p k"
    using new that by (cases k) (auto simp: canStartNewMatch_def createPartialMatch_def never_ends_def split: list.splits option.splits if_splits)
  then show "pm_inv scan p (seen @ [ev]) pm \<and> (never_ends p k \<longrightarrow> pm_CurrentStep pm \<le> k)"
    using pm_inv_create [OF new] by blast
next
  fix seen ev and pm :: PartialMatch and t
  assume inv: "pm_inv scan p seen pm \<and> (never_ends p k \<longrightarrow> pm_CurrentStep pm \<le> k)" and t: "timestamp ev = Some t"
    and w: "0 < pat_TimeWindow p \<longrightarrow> time_Sub t (pm_StartTime pm) \<le> pat_TimeWindow p"
  obtain a c pm' where r: "tryAdvanceMatch scan p ev pm = Some ((a, c), pm')"
    "pm_inv scan p (seen @ [ev]) pm'" "c \<longrightarrow> length (pat_Events p) \<le> pm_CurrentStep pm'"
    using tryAdvance_sound [OF _ t w] inv by blast
  have stay: "never_ends p k \<longrightarrow> pm_CurrentStep pm' \<le> k" using tryAdvance_stuck [OF _ _ t r(1)] inv by blast
  moreover have "\<not> never_ends p k" if c using r(3) stay that by (auto simp: never_ends_def)
  ultimately show "\<exists>advanced completed pm'. tryAdvanceMatch scan p ev pm = Some ((advanced, completed), pm') \<and>
      (completed \<longrightarrow> (\<exists>m. createMatchedPattern p pm' = Some m \<and> \<not> never_ends p k)) \<and>
      (advanced \<and> \<not> completed \<longrightarrow> pm_inv scan p (seen @ [ev]) pm' \<and> (never_ends p k \<longrightarrow> pm_CurrentStep pm' \<le> k))"
    using r pm_inv_reported [OF r(2)] by blast
qed

lemma stuck_run:
  assumes "\<forall>x \<in> set ys. timestamp (snd x) \<noteq> None" "never_ends p k"
  shows "\<exists>qss pms. pattern_run scan timeout p ys [] = Some (qss, pms) \<and> (\<forall>j < length ys. \<forall>m \<in> set (qss ! j). False)"
  using stuck.whole.run [where seen = "[]" and pms = "[]" and scan = scan and p = p and timeout = timeout and k = k, OF assms(1)] assms(2) by auto

text \<open>C38: A pattern with a negated step that has no temporal constraint is never reported, whatever events arrive:
  a partial match that reaches the step waits for ever, so \<open>NotFollowedBy\<close> without \<open>Within\<close>, as the
  documentation, the tests and three of the package's own patterns use it, detects nothing.\<close>

theorem negation_never_completes:
  assumes "0 \<le> maxSize" "list_all (input_ok (engine_with ps maxSize timeout)) xs"
    and "ce_patterns (engine_with ps maxSize timeout) (pat_ID p) = Some p" "never_ends p k"
  shows "\<exists>mss e'. cep_run scan xs (engine_with ps maxSize timeout) = Some (mss, e') \<and> length mss = length xs \<and>
    list_all (\<lambda>ms. of_pattern (pat_ID p) ms = []) mss"
proof -
  let ?e = "engine_with ps maxSize timeout" and ?ys = "map stamped xs"
  obtain mss e' where run: "cep_run scan xs ?e = Some (mss, e')" "length mss = length xs"
    "map_option fst (pattern_run scan timeout p ?ys []) = Some (map (of_pattern (pat_ID p)) mss)"
    using cep_run_patterns [OF refl assms(1,2)] assms(3) by blast
  have ts: "\<forall>x \<in> set ?ys. timestamp (snd x) \<noteq> None" using assms(2) by (auto simp: list_all_iff input_ok_def)
  obtain qss pms where q: "pattern_run scan timeout p ?ys [] = Some (qss, pms)" "\<forall>j < length ?ys. \<forall>m \<in> set (qss ! j). False"
    using stuck_run [OF ts assms(4)] by blast
  have "qss = map (of_pattern (pat_ID p)) mss" using run(3) q(1) by simp
  then have "\<forall>j < length mss. of_pattern (pat_ID p) (mss ! j) = []" using q(2) run(2) by simp
  with run show ?thesis by (auto simp: list_all_length)
qed

text \<open>The patterns of the package with such a step.\<close>

lemma package_patterns_never_end:
  "never_ends (case SequenceWithNegation a b c w h of (p, h') \<Rightarrow> resolve h' p) 1"
  "never_ends (case SuspiciousActivityPattern h of (p, h') \<Rightarrow> resolve h' p) 2"
  "never_ends (case UserJourneyPattern h of (p, h') \<Rightarrow> resolve h' p) 3"
  by (simp_all add: never_ends_def SequenceWithNegation_def SuspiciousActivityPattern_def UserJourneyPattern_def
      epb_defs pb_defs split_def Let_def)

theorem negation_never_completes_witness:
  "let p = (case SequenceWithNegation ''a'' ''b'' ''c'' (300 * second) [] of (p, h) \<Rightarrow> resolve h p);
       xs = [(5, [''sequence-with-negation''], typed_event ''a'' 0), (6, [''sequence-with-negation''], typed_event ''c'' 1)]
   in \<exists>mss e'. cep_run (\<lambda>_. None) xs (engine_with [p] 100 0) = Some (mss, e') \<and> length mss = 2 \<and>
     list_all (\<lambda>ms. of_pattern (pat_ID p) ms = []) mss"
proof -
  define p where "p = (case SequenceWithNegation ''a'' ''b'' ''c'' (300 * second) [] of (p, h) \<Rightarrow> resolve h p)"
  let ?i = "''sequence-with-negation''"
  let ?xs = "[(5, [?i], typed_event ''a'' 0), (6, [?i], typed_event ''c'' 1)]"
  have id: "pat_ID p = ?i" by (simp add: p_def SequenceWithNegation_def epb_defs pb_defs)
  have ps: "ce_patterns (engine_with [p] 100 0) = [?i \<mapsto> p]"
    by (simp add: engine_with_def RegisterPattern_def NewCEPEngine_def id)
  have "list_all (input_ok (engine_with [p] 100 0)) ?xs" by (simp add: input_ok_def ps range_order_def typed_event_stamp)
  moreover have "ce_patterns (engine_with [p] 100 0) (pat_ID p) = Some p" by (simp add: ps id)
  ultimately show ?thesis
    using negation_never_completes [of 100 "[p]" 0 ?xs p 1 "\<lambda>_. None"] package_patterns_never_end(1) [of "''a''" "''b''" "''c''" "300 * second" "[]"]
    unfolding Let_def p_def [symmetric] by auto
qed

end
