(* ===== verification/CEP_Sequences.thy ===== *)
theory CEP_Sequences
  imports CEP_Properties
begin

text \<open>
  The engine on plain sequences, the patterns that \<open>SequencePattern\<close> and \<open>Sequence\<close> with unadorned events build: its
  reports are those of a reference search that looks, after each event, at the block of most recent events as long
  as the pattern. Partial matches are exactly the shorter blocks that still fit.
\<close>

section \<open>The reference search\<close>

definition plain_pattern :: "predicates Pattern \<Rightarrow> bool" where
  "plain_pattern p \<longleftrightarrow> 2 \<le> length (pat_Events p) \<and> pat_Conditions p = [] \<and>
    list_all (\<lambda>s. \<not> ep_Negated s \<and> \<not> ep_Optional s \<and> ep_Quantifier s = QuantifierExactlyOne \<and> ep_TemporalConstraint s = None) (pat_Events p)"

text \<open>The timeout of the engine: how long after its last event a partial match may be extended.\<close>

definition idle_too_long :: "duration \<Rightarrow> predicates Pattern \<Rightarrow> gtime \<Rightarrow> gtime \<Rightarrow> bool" where
  "idle_too_long timeout p now final \<longleftrightarrow> timeout \<noteq> 0 \<and>
    time_Sub now final > (if 0 < pat_TimeWindow p \<and> pat_TimeWindow p < timeout then pat_TimeWindow p else timeout)"

definition can_follow :: "scanner \<Rightarrow> duration \<Rightarrow> predicates Pattern \<Rightarrow> (gtime \<times> cevent) list \<Rightarrow> gtime \<times> cevent \<Rightarrow> bool" where
  "can_follow scan timeout p blk = (\<lambda>(now, ev).
    length blk < length (pat_Events p) \<and> ce_matchesEventPattern scan ev (pat_Events p ! length blk) \<and>
    (blk \<noteq> [] \<longrightarrow> \<not> idle_too_long timeout p now (the (timestamp (snd (last blk)))) \<and>
      (0 < pat_TimeWindow p \<longrightarrow> time_Sub (the (timestamp ev)) (the (timestamp (snd (hd blk)))) \<le> pat_TimeWindow p)))"

definition block_fits :: "scanner \<Rightarrow> duration \<Rightarrow> predicates Pattern \<Rightarrow> (gtime \<times> cevent) list \<Rightarrow> bool" where
  "block_fits scan timeout p blk \<longleftrightarrow> (\<forall>j < length blk. can_follow scan timeout p (take j blk) (blk ! j))"

definition recent :: "nat \<Rightarrow> 'a list \<Rightarrow> 'a list" where
  "recent k xs = drop (length xs - k) xs"

definition sequence_report :: "predicates Pattern \<Rightarrow> cevent list \<Rightarrow> MatchedPattern" where
  "sequence_report p es = \<lparr>mp_PatternID = pat_ID p, mp_PatternName = pat_Name p, mp_MatchedEvents = es,
     mp_FirstEventTime = the (timestamp (hd es)), mp_LastEventTime = the (timestamp (last es)),
     mp_Severity = the (calculateSeverity es), mp_Metadata = extractMetadata es\<rparr>"

definition sequence_search :: "scanner \<Rightarrow> duration \<Rightarrow> predicates Pattern \<Rightarrow> (gtime \<times> cevent) list \<Rightarrow> MatchedPattern list" where
  "sequence_search scan timeout p seen =
    (let n = length (pat_Events p) in
     if n \<le> length seen \<and> block_fits scan timeout p (recent n seen) then [sequence_report p (map snd (recent n seen))] else [])"

section \<open>Partial matches are blocks\<close>

definition block_match :: "predicates Pattern \<Rightarrow> (gtime \<times> cevent) list \<Rightarrow> PartialMatch" where
  "block_match p blk = \<lparr>pm_ID = match_id (fst (hd blk)) p, pm_PatternID = pat_ID p, pm_MatchedEvents = map snd blk,
     pm_CurrentStep = length blk, pm_StartTime = the (timestamp (snd (hd blk))), pm_LastEventTime = the (timestamp (snd (last blk))),
     pm_EventCounts = (\<lambda>s. if s < length blk then Some 1 else None), pm_NegationBuffer = []\<rparr>"

definition blocks :: "scanner \<Rightarrow> duration \<Rightarrow> predicates Pattern \<Rightarrow> (gtime \<times> cevent) list \<Rightarrow> nat list \<Rightarrow> nat list" where
  "blocks scan timeout p seen ks = filter (\<lambda>k. k \<le> length seen \<and> block_fits scan timeout p (recent k seen)) ks"

definition block_matches_inv :: "scanner \<Rightarrow> duration \<Rightarrow> predicates Pattern \<Rightarrow> (gtime \<times> cevent) list \<Rightarrow> PartialMatch list \<Rightarrow> bool" where
  "block_matches_inv scan timeout p seen pms \<longleftrightarrow> (\<forall>x \<in> set seen. timestamp (snd x) \<noteq> None) \<and>
    pms = map (\<lambda>k. block_match p (recent k seen)) (blocks scan timeout p seen (rev [1..<length (pat_Events p)]))"

lemma recent_Suc: "k \<le> length seen \<Longrightarrow> recent (Suc k) (seen @ [x]) = recent k seen @ [x]"
  by (simp add: recent_def)

lemma recent_length [simp]: "k \<le> length seen \<Longrightarrow> length (recent k seen) = k"
  by (simp add: recent_def)

lemma set_recent: "x \<in> set (recent k seen) \<Longrightarrow> x \<in> set seen"
  by (auto simp: recent_def dest: in_set_dropD)

lemma block_fits_snoc: "block_fits scan timeout p (blk @ [x]) \<longleftrightarrow> block_fits scan timeout p blk \<and> can_follow scan timeout p blk x"
  by (auto simp: block_fits_def nth_append less_Suc_eq)

lemma block_fits_Nil [simp]: "block_fits scan timeout p []"
  by (simp add: block_fits_def)

lemma plain_step:
  assumes "plain_pattern p" "k < length (pat_Events p)"
  shows "\<not> ep_Negated (pat_Events p ! k)" "\<not> ep_Optional (pat_Events p ! k)" "ep_TemporalConstraint (pat_Events p ! k) = None"
    "isQuantifierSatisfied (pat_Events p ! k) 1"
  using assms by (auto simp: plain_pattern_def list_all_length isQuantifierSatisfied_def)

lemma block_match_snoc:
  assumes "blk \<noteq> []"
  shows "block_match p (blk @ [(now, ev)]) = (block_match p blk)\<lparr>
    pm_EventCounts := (pm_EventCounts (block_match p blk))(length blk \<mapsto> 1),
    pm_MatchedEvents := map snd blk @ [ev], pm_LastEventTime := the (timestamp ev), pm_CurrentStep := Suc (length blk)\<rparr>"
  using assms by (auto simp: block_match_def fun_eq_iff less_Suc_eq)

lemma block_reported:
  assumes "blk \<noteq> []" "\<forall>x \<in> set blk. timestamp (snd x) \<noteq> None"
  shows "createMatchedPattern p (block_match p blk) = Some (sequence_report p (map snd blk))"
proof -
  obtain s where "calculateSeverity (map snd blk) = Some s"
    using timed_severity(1) [of "map snd blk"] assms by auto
  then show ?thesis using assms(1) by (simp add: createMatchedPattern_def block_match_def sequence_report_def hd_map last_map)
qed

lemma advance_block:
  assumes plain: "plain_pattern p" and blk: "blk \<noteq> []" "length blk < length (pat_Events p)"
    and ts: "\<forall>x \<in> set blk. timestamp (snd x) \<noteq> None" "timestamp ev = Some t"
  shows "advance_one scan now timeout p t ev (block_match p blk) = Some
    (if can_follow scan timeout p blk (now, ev)
     then (if Suc (length blk) = length (pat_Events p) then ([], [sequence_report p (map snd (blk @ [(now, ev)]))])
       else ([block_match p (blk @ [(now, ev)])], []))
     else ([], []))"
proof -
  let ?pm = "block_match p blk" and ?step = "pat_Events p ! length blk"
  have sel: "pm_CurrentStep ?pm = length blk" "pm_StartTime ?pm = the (timestamp (snd (hd blk)))"
    "pm_LastEventTime ?pm = the (timestamp (snd (last blk)))" "get_or (pm_EventCounts ?pm) (length blk) 0 = 0" "pm_MatchedEvents ?pm = map snd blk"
    by (simp_all add: block_match_def get_or_def)
  note st = plain_step [OF plain blk(2)]
  have at: "pm_CurrentStep ?pm < length (pat_Events p)" "?step = pat_Events p ! pm_CurrentStep ?pm" using blk(2) by (simp_all add: sel)
  note go = tryAdvance_at [OF at(1) ts(2) at(2), of scan]
  have out: "hasTimedOut now timeout ?pm p = idle_too_long timeout p now (the (timestamp (snd (last blk))))"
    by (simp add: hasTimedOut_def idle_too_long_def sel)
  have conds: "checkConditions es (pat_Conditions p)" for es using plain by (simp add: plain_pattern_def checkConditions_def)
  have cnt: "count_event p ?step t ev ?pm =
      ((if Suc (length blk) = length (pat_Events p) then (False, True) else (True, False)), block_match p (blk @ [(now, ev)]))"
    using blk(2) by (auto simp: count_event_def Let_def sel st(4) checkIfCompleted_def conds block_match_snoc [OF blk(1)] ts(2))
  have rep: "createMatchedPattern p (block_match p (blk @ [(now, ev)])) = Some (sequence_report p (map snd (blk @ [(now, ev)])))"
    using ts by (intro block_reported) auto
  show ?thesis
  proof (cases "ce_matchesEventPattern scan ev ?step")
    case True
    have "tryAdvanceMatch scan p ev ?pm = Some (count_event p ?step t ev ?pm)"
      using go(4) [OF st(1) True] by (simp add: temporal_verdict_def st(3))
    then show ?thesis
      using blk True rep by (simp add: advance_one_def out sel can_follow_def ts(2) cnt not_le)
  next
    case False
    then show ?thesis
      using go(3) [OF st(1) False st(2)] by (simp add: advance_one_def can_follow_def)
  qed
qed

text \<open>One event turns each block that it can follow into a longer one or, at full length, into a report.\<close>

lemma advance_blocks:
  assumes plain: "plain_pattern p" and ts: "\<forall>x \<in> set seen. timestamp (snd x) \<noteq> None" "timestamp ev = Some t"
    and ks: "\<forall>k \<in> set ks. 0 < k \<and> k < length (pat_Events p) \<and> k \<le> length seen"
    and n_def: "n = length (pat_Events p)" and ok_def: "ok = (\<lambda>k. can_follow scan timeout p (recent k seen) (now, ev))"
  shows "advance_loop scan now timeout p t ev (map (\<lambda>k. block_match p (recent k seen)) ks) [] [] =
    Some (map (\<lambda>k. block_match p (recent (Suc k) (seen @ [(now, ev)]))) (filter (\<lambda>k. ok k \<and> Suc k \<noteq> n) ks),
          map (\<lambda>k. sequence_report p (map snd (recent (Suc k) (seen @ [(now, ev)])))) (filter (\<lambda>k. ok k \<and> Suc k = n) ks))"
  using ks
proof (induction ks)
  case (Cons k ks)
  have k: "0 < k" "k < length (pat_Events p)" "k \<le> length seen" using Cons.prems by auto
  have blk: "recent k seen \<noteq> []" "length (recent k seen) = k" using k by (auto simp flip: length_greater_0_conv)
  have "\<forall>x \<in> set (recent k seen). timestamp (snd x) \<noteq> None" using ts(1) set_recent by metis
  note one = advance_block [OF plain blk(1) _ this ts(2), unfolded blk(2), OF k(2), of scan now timeout]
  have IH: "advance_loop scan now timeout p t ev (map (\<lambda>k. block_match p (recent k seen)) ks) [] [] =
    Some (map (\<lambda>k. block_match p (recent (Suc k) (seen @ [(now, ev)]))) (filter (\<lambda>k. ok k \<and> Suc k \<noteq> n) ks),
          map (\<lambda>k. sequence_report p (map snd (recent (Suc k) (seen @ [(now, ev)])))) (filter (\<lambda>k. ok k \<and> Suc k = n) ks))"
    using Cons by simp
  show ?case
    unfolding list.map advance_loop_Cons one option.case
    by (subst advance_loop_acc) (auto simp: IH ok_def n_def recent_Suc [OF k(3), symmetric])
qed simp

lemma blocks_shift:
  assumes "2 \<le> n" "n = length (pat_Events p)"
  shows "blocks scan timeout p (seen @ [x]) (rev [1..<n]) =
    map Suc (filter (\<lambda>k. can_follow scan timeout p (recent k seen) x \<and> Suc k \<noteq> n) (blocks scan timeout p seen (rev [1..<n]))) @
    (if can_follow scan timeout p [] x then [1] else [])"
proof -
  have "[1..<n] = 1 # map Suc [1..<n - 1]" using assms(1) by (simp add: upt_conv_Cons map_Suc_upt)
  then have new: "rev [1..<n] = map Suc (rev [1..<n - 1]) @ [1]" by (simp add: rev_map)
  have "[1..<n] = [1..<n - 1] @ [n - 1]" using assms(1) by (metis One_nat_def Suc_diff_1 Suc_1 Suc_le_D diff_Suc_1 le_simps(2) not_less_eq_eq upt_Suc_append zero_less_Suc Suc_le_mono)
  then have old: "rev [1..<n] = (n - 1) # rev [1..<n - 1]" by simp
  have grow: "Suc k \<le> length (seen @ [x]) \<and> block_fits scan timeout p (recent (Suc k) (seen @ [x])) \<longleftrightarrow>
      k \<le> length seen \<and> block_fits scan timeout p (recent k seen) \<and> can_follow scan timeout p (recent k seen) x" for k
    by (auto simp: recent_Suc block_fits_snoc)
  have one: "recent 1 (seen @ [x]) = [x]" "block_fits scan timeout p [x] \<longleftrightarrow> can_follow scan timeout p [] x"
    using block_fits_snoc [of scan timeout p "[]" x] by (simp_all add: recent_def)
  have eq: "filter (\<lambda>k. Suc k \<le> length (seen @ [x]) \<and> block_fits scan timeout p (recent (Suc k) (seen @ [x]))) (rev [1..<n - 1]) =
      filter (\<lambda>k. can_follow scan timeout p (recent k seen) x \<and> Suc k \<noteq> n) (blocks scan timeout p seen (rev [1..<n]))"
    using assms(1) unfolding grow blocks_def old filter_filter by (auto intro!: filter_cong)
  have "blocks scan timeout p (seen @ [x]) (map Suc (rev [1..<n - 1]) @ [1]) =
      map Suc (filter (\<lambda>k. Suc k \<le> length (seen @ [x]) \<and> block_fits scan timeout p (recent (Suc k) (seen @ [x]))) (rev [1..<n - 1])) @
      (if can_follow scan timeout p [] x then [1] else [])"
    unfolding blocks_def filter_append filter_map comp_def using one by simp
  from this [folded new, unfolded eq] show ?thesis .
qed

lemma last_block:
  assumes "2 \<le> n"
  shows "filter (\<lambda>k. can_follow scan timeout p (recent k seen) x \<and> Suc k = n) (blocks scan timeout p seen (rev [1..<n])) =
    (if n \<le> length (seen @ [x]) \<and> block_fits scan timeout p (recent n (seen @ [x])) then [n - 1] else [])"
proof -
  obtain m where m: "n = Suc m" "0 < m" using assms by (metis Suc_1 Suc_le_D Suc_le_mono less_eq_Suc_le One_nat_def)
  have "rev [1..<n] = m # rev [1..<m]" using m by simp
  moreover have "filter (\<lambda>k. P k \<and> Suc k = n) (rev [1..<m]) = []" for P using m by (auto simp: filter_empty_conv)
  ultimately show ?thesis
    by (auto simp: blocks_def m recent_Suc block_fits_snoc)
qed

lemma step_blocks:
  assumes plain: "plain_pattern p" and inv: "block_matches_inv scan timeout p seen pms" and t: "timestamp ev = Some t"
  shows "\<exists>pms'. step_pattern scan timeout p (now, ev) pms = Some (pms', sequence_search scan timeout p (seen @ [(now, ev)])) \<and>
    block_matches_inv scan timeout p (seen @ [(now, ev)]) pms'"
proof -
  let ?n = "length (pat_Events p)" and ?x = "(now, ev)"
  let ?ks = "blocks scan timeout p seen (rev [1..<?n])" and ?seen = "seen @ [(now, ev)]"
  let ?mk = "\<lambda>k. block_match p (recent k ?seen)"
  have n: "2 \<le> ?n" using plain by (simp add: plain_pattern_def)
  have ts: "\<forall>x \<in> set seen. timestamp (snd x) \<noteq> None" and pms: "pms = map (\<lambda>k. block_match p (recent k seen)) ?ks"
    using inv by (simp_all add: block_matches_inv_def)
  have "\<forall>k \<in> set ?ks. 0 < k \<and> k < ?n \<and> k \<le> length seen" by (auto simp: blocks_def)
  note loop = advance_blocks [where scan = scan and timeout = timeout and now = now, OF plain ts t this refl refl]
  have first: "canStartNewMatch scan p ev \<longleftrightarrow> can_follow scan timeout p [] ?x"
    using n plain_step(1) [OF plain, of 0] by (auto simp: canStartNewMatch_def can_follow_def split: list.splits)
  have "pat_Events p \<noteq> []" using n by auto
  then have one: "createPartialMatch now p ev = Some (?mk 1)"
    using plain_step(4) [OF plain, of 0] t hd_conv_nth [of "pat_Events p"]
    by (auto simp: createPartialMatch_def block_match_def recent_def fun_eq_iff)
  have reps: "map (\<lambda>k. sequence_report p (map snd (recent (Suc k) ?seen))) (filter (\<lambda>k. can_follow scan timeout p (recent k seen) ?x \<and> Suc k = ?n) ?ks) =
      sequence_search scan timeout p ?seen"
  proof -
    have "Suc (?n - 1) = ?n" using n by linarith
    then show ?thesis unfolding last_block [OF n] sequence_search_def Let_def by (simp only: list.map if_distrib [of "map _"])
  qed
  let ?pms' = "map ?mk (blocks scan timeout p ?seen (rev [1..<?n]))"
  have "?pms' = map (\<lambda>k. ?mk (Suc k)) (filter (\<lambda>k. can_follow scan timeout p (recent k seen) ?x \<and> Suc k \<noteq> ?n) ?ks) @
      (if can_follow scan timeout p [] ?x then [?mk 1] else [])"
    unfolding blocks_shift [OF n refl] map_append by (simp add: comp_def)
  then have "step_pattern scan timeout p ?x pms = Some (?pms', sequence_search scan timeout p ?seen)"
    unfolding step_pattern_def advancePartialMatches_def pms prod.case t option.case loop reps first by (simp only: one option.map split: if_split) simp
  moreover have "block_matches_inv scan timeout p ?seen ?pms'" using ts t by (auto simp: block_matches_inv_def)
  ultimately show ?thesis by blast
qed

section \<open>The engine against the reference\<close>

interpretation sequences: pattern_invariant scan timeout p
  "\<lambda>seen pms. (\<forall>pm \<in> set pms. pm_inv scan p (map snd seen) pm) \<and> (plain_pattern p \<longrightarrow> block_matches_inv scan timeout p seen pms)"
  "\<lambda>seen ms. plain_pattern p \<longrightarrow> ms = sequence_search scan timeout p seen" for scan timeout p
proof unfold_locales
  fix seen pms ev now
  assume inv: "(\<forall>pm \<in> set pms. pm_inv scan p (map snd seen) pm) \<and> (plain_pattern p \<longrightarrow> block_matches_inv scan timeout p seen pms)"
    and ts: "timestamp ev \<noteq> None"
  obtain pms' ms where one: "step_pattern scan timeout p (now, ev) pms = Some (pms', ms)"
    "\<forall>pm \<in> set pms'. pm_inv scan p (map snd (seen @ [(now, ev)])) pm"
    using sound.whole.step [OF _ ts, of pms scan p seen timeout now] inv by blast
  have "ms = sequence_search scan timeout p (seen @ [(now, ev)]) \<and> block_matches_inv scan timeout p (seen @ [(now, ev)]) pms'"
    if "plain_pattern p"
    using step_blocks [OF that] inv ts one(1) that by (metis not_None_eq option.inject prod.inject)
  with one show "\<exists>pms' ms. step_pattern scan timeout p (now, ev) pms = Some (pms', ms) \<and>
      ((\<forall>pm \<in> set pms'. pm_inv scan p (map snd (seen @ [(now, ev)])) pm) \<and>
        (plain_pattern p \<longrightarrow> block_matches_inv scan timeout p (seen @ [(now, ev)]) pms')) \<and>
      (plain_pattern p \<longrightarrow> ms = sequence_search scan timeout p (seen @ [(now, ev)]))"
    by blast
qed (simp add: block_matches_inv_def blocks_def filter_empty_conv)

lemma sequences_run:
  assumes "\<forall>x \<in> set ys. timestamp (snd x) \<noteq> None" "plain_pattern p"
  shows "\<exists>qss pms. pattern_run scan timeout p ys [] = Some (qss, pms) \<and> length qss = length ys \<and>
    (\<forall>k < length ys. qss ! k = sequence_search scan timeout p (take (Suc k) ys))"
  using sequences.run [where seen = "[]" and pms = "[]" and scan = scan and p = p and timeout = timeout, OF assms(1)] assms(2)
    sequences.init [of scan p timeout] by auto

text \<open>C11: For a plain sequence of two or more steps the engine agrees with the reference search: whatever other
  patterns are registered and whatever the timestamps, time window and timeout, the matches of the pattern that
  the k-th event yields are exactly the block of the most recent events, one per step, if these match the steps
  one by one, none came later than the window after the first or the timeout after its predecessor, and nothing
  otherwise. The events of a match are therefore always consecutive: an unrelated event in between breaks it.\<close>

theorem plain_sequences_exact:
  assumes "0 \<le> maxSize" "list_all (input_ok (engine_with ps maxSize timeout)) xs"
    and "ce_patterns (engine_with ps maxSize timeout) (pat_ID p) = Some p" "plain_pattern p"
  shows "\<exists>mss e'. cep_run scan xs (engine_with ps maxSize timeout) = Some (mss, e') \<and>
    map (of_pattern (pat_ID p)) mss = map (\<lambda>k. sequence_search scan timeout p (map stamped (take (Suc k) xs))) [0..<length xs]"
proof -
  let ?e = "engine_with ps maxSize timeout" and ?ys = "map stamped xs"
  obtain mss e' where run: "cep_run scan xs ?e = Some (mss, e')" "length mss = length xs"
    "map_option fst (pattern_run scan timeout p ?ys []) = Some (map (of_pattern (pat_ID p)) mss)"
    using cep_run_patterns [OF refl assms(1,2)] assms(3) by blast
  have ts: "\<forall>x \<in> set ?ys. timestamp (snd x) \<noteq> None" using assms(2) by (auto simp: list_all_iff input_ok_def)
  obtain qss pms where q: "pattern_run scan timeout p ?ys [] = Some (qss, pms)" "length qss = length ?ys"
    "\<forall>k < length ?ys. qss ! k = sequence_search scan timeout p (take (Suc k) ?ys)"
    using sequences_run [OF ts assms(4)] by blast
  have "map (of_pattern (pat_ID p)) mss = qss" using run(3) q(1) by simp
  moreover have "qss = map (\<lambda>k. sequence_search scan timeout p (map stamped (take (Suc k) xs))) [0..<length xs]"
    using q(2,3) by (intro nth_equalityI) (simp_all add: take_map)
  ultimately show ?thesis using run(1) by simp
qed

lemma steps_2_plain: "plain_pattern steps_2"
  by (simp add: plain_pattern_def steps_2_sel plain_event_def)

theorem plain_sequences_exact_witness:
  "let a = typed_event ''a'' 0; b = typed_event ''b'' 1;
       xs = [(5, [''p''], a), (6, [''p''], b), (7, [''p''], b)]
   in \<exists>mss e'. cep_run (\<lambda>_. None) xs (engine_with [steps_2] 10 0) = Some (mss, e') \<and>
     map (of_pattern ''p'') mss = [[], [sequence_report steps_2 [a, b]], []]"
proof -
  define a where "a = typed_event ''a'' 0"
  define b where "b = typed_event ''b'' 1"
  let ?xs = "[(5, [''p''], a), (6, [''p''], b), (7, [''p''], b)]"
  have ok: "list_all (input_ok (engine_with [steps_2] 10 0)) ?xs"
    by (simp add: input_ok_def engine_steps_2 range_order_def typed_event_stamp a_def b_def)
  have reg: "ce_patterns (engine_with [steps_2] 10 0) (pat_ID steps_2) = Some steps_2" by (simp add: engine_steps_2 steps_2_sel)
  have types: "ce_matchesEventPattern scan (typed_event ty t) (plain_event n ty') \<longleftrightarrow> ty = ty'" for scan ty t n ty'
    by (simp add: ce_matchesEventPattern_def typed_event_def plain_event_def field_def)
  have ev: "stamped (now, order, a) = (now, a)" "stamped (now, order, b) = (now, b)" "timestamp a = Some 0" "timestamp b = Some 1" for now order
    by (simp_all add: a_def b_def typed_event_stamp)
  have m: "ce_matchesEventPattern scan a (plain_event n ty) \<longleftrightarrow> ty = ''a''" "ce_matchesEventPattern scan b (plain_event n ty) \<longleftrightarrow> ty = ''b''" for scan n ty
    by (auto simp: a_def b_def types)
  have sub: "time_Sub 1 0 = 1" by (simp add: time_Sub_def min_duration_def max_duration_def)
  have search: "sequence_search (\<lambda>_. None) 0 steps_2 [(5, a)] = []"
    "sequence_search (\<lambda>_. None) 0 steps_2 [(5, a), (6, b)] = [sequence_report steps_2 [a, b]]"
    "sequence_search (\<lambda>_. None) 0 steps_2 [(5, a), (6, b), (7, b)] = []"
    by (auto simp add: sequence_search_def steps_2_sel recent_def block_fits_def can_follow_def m ev sub less_Suc_eq idle_too_long_def second_def)
  have id: "pat_ID steps_2 = ''p''" by (rule steps_2_sel)
  have upt: "[0..<length ?xs] = [0, 1, 2]" by (simp add: upt_rec)
  from plain_sequences_exact [OF _ ok reg steps_2_plain, of "\<lambda>_. None", unfolded id upt]
  show ?thesis unfolding Let_def a_def [symmetric] b_def [symmetric] by (simp add: ev search)
qed

end
