(* ===== verification/Config_Types.thy ===== *)
theory Config_Types
  imports Complex_Main Gress_Prelude
begin

text \<open>
  The configuration of \<open>pkg/config/config.go\<close>: every struct as a record with the same fields, in the order in which
  they use each other, and the default, production and development configurations. A map of strings is an association list
  with distinct keys, \<open>None\<close> when it is nil; \<open>float64\<close> values are exact rationals (NaN and the infinities are left out); a field that a literal leaves out has its zero value.
\<close>

section \<open>Structures\<close>

record ApplicationConfig =
  app_Name :: string
  app_Environment :: string
  app_Tags :: "(string \<times> string) list option"

record EngineSettings =
  en_BufferSize :: int
  en_MaxConcurrency :: int
  en_CheckpointInterval :: duration
  en_WatermarkInterval :: duration
  en_MetricsInterval :: duration
  en_EnableBackpressure :: bool
  en_BackpressureThreshold :: rat
  en_CheckpointDir :: string

record CircuitBreakerSettings =
  cbc_FailureThreshold :: u32
  cbc_SuccessThreshold :: u32
  cbc_Timeout :: duration

record ErrorHandlingSettings =
  er_Strategy :: string
  er_EnableRetry :: bool
  er_MaxRetryAttempts :: int
  er_InitialBackoff :: duration
  er_MaxBackoff :: duration
  er_BackoffMultiplier :: rat
  er_BackoffJitter :: rat
  er_EnableDLQ :: bool
  er_DLQMaxSize :: int
  er_DLQType :: string
  er_DLQDirectory :: string
  er_DLQKafkaTopic :: string
  er_DLQKafkaBrokers :: "string list"
  er_EnableCircuitBreaker :: bool
  er_CircuitBreakerConfig :: CircuitBreakerSettings
  er_EnableSideOutputs :: bool
  er_SideOutputBufferSize :: int

record SourceSchemaConfig =
  srcs_Subject :: string
  srcs_SchemaType :: string
  srcs_Version :: int
  srcs_ValidateOnRead :: bool

record KafkaSourceConfig =
  ks_Name :: string
  ks_Brokers :: "string list"
  ks_Topics :: "string list"
  ks_GroupID :: string
  ks_AutoCommit :: bool
  ks_CommitInterval :: duration
  ks_ValueSchema :: "SourceSchemaConfig option"
  ks_KeySchema :: "SourceSchemaConfig option"

record HTTPSourceConfig =
  hs_Name :: string
  hs_Address :: string
  hs_Path :: string
  hs_TLS :: bool
  hs_CertFile :: string
  hs_KeyFile :: string

record WebSocketSourceConfig =
  ws_Name :: string
  ws_Address :: string
  ws_Path :: string
  ws_TLS :: bool
  ws_CertFile :: string
  ws_KeyFile :: string

record SourcesConfig =
  sources_Kafka :: "KafkaSourceConfig list"
  sources_HTTP :: "HTTPSourceConfig list"
  sources_WebSocket :: "WebSocketSourceConfig list"

record SinkSchemaConfig =
  snks_Subject :: string
  snks_SchemaType :: string
  snks_Version :: int
  snks_AutoRegister :: bool
  snks_Compatibility :: string
  snks_ValidateOnWrite :: bool

record KafkaSinkConfig =
  kk_Name :: string
  kk_Brokers :: "string list"
  kk_Topic :: string
  kk_FlushInterval :: duration
  kk_BatchSize :: int
  kk_ValueSchema :: "SinkSchemaConfig option"
  kk_KeySchema :: "SinkSchemaConfig option"

record TimescaleSinkConfig =
  tk_Name :: string
  tk_ConnectionString :: string
  tk_Table :: string
  tk_BatchSize :: int
  tk_FlushInterval :: duration

record SinksConfig =
  sinks_Kafka :: "KafkaSinkConfig list"
  sinks_TimescaleDB :: "TimescaleSinkConfig list"

record RocksDBConfig =
  rk_Path :: string
  rk_WriteBufferSize :: int
  rk_MaxWriteBufferNumber :: int
  rk_BlockCacheSize :: int
  rk_Preset :: string
  rk_MaxBackgroundJobs :: int
  rk_MaxSubCompactions :: int
  rk_OptimizeFiltersForHits :: bool
  rk_Level0FileNumCompactionTrigger :: int
  rk_TargetFileSizeBase :: int
  rk_MaxBytesForLevelBase :: int
  rk_AllowMmapReads :: bool
  rk_UseDirectReads :: bool
  rk_EnableLatencyTracking :: bool

record StateConfig =
  st_Backend :: string
  st_RocksDB :: RocksDBConfig

record MetricsConfig =
  me_Enabled :: bool
  me_Address :: string
  me_Path :: string
  me_Namespace :: string
  me_Subsystem :: string

record TracingConfig =
  tr_Enabled :: bool
  tr_ServiceName :: string
  tr_ServiceVersion :: string
  tr_Environment :: string
  tr_SamplingRate :: rat
  tr_ExporterType :: string
  tr_ExporterEndpoint :: string
  tr_OTLPHeaders :: "(string \<times> string) list option"
  tr_OTLPInsecure :: bool

record LoggingConfig =
  lo_Level :: string
  lo_Format :: string
  lo_Output :: string
  lo_OutputPath :: string

record SecurityConfig =
  sec_EnableTLS :: bool
  sec_CertFile :: string
  sec_KeyFile :: string
  sec_CAFile :: string
  sec_EnableAuth :: bool
  sec_AuthType :: string

record SchemaRegistryConfig =
  sr_Enabled :: bool
  sr_URL :: string
  sr_Username :: string
  sr_Password :: string
  sr_Timeout :: duration
  sr_CacheEnabled :: bool
  sr_CacheSize :: int
  sr_CacheTTL :: duration
  sr_TLSEnabled :: bool
  sr_TLSCertPath :: string
  sr_TLSKeyPath :: string
  sr_TLSCAPath :: string
  sr_TLSSkipVerify :: bool

record ModelRegistryConfig =
  mr_Type :: string
  mr_BasePath :: string
  mr_S3Bucket :: string
  mr_S3Region :: string
  mr_S3Endpoint :: string
  mr_S3AccessKey :: string
  mr_S3SecretKey :: string
  mr_GCSBucket :: string
  mr_GCSProject :: string
  mr_GCSCredentials :: string

record ModelConfig =
  mo_Name :: string
  mo_Version :: string
  mo_Type :: string
  mo_Path :: string
  mo_Tags :: "(string \<times> string) list option"
  mo_Description :: string
  mo_Enabled :: bool
  mo_WarmupOnLoad :: bool

record FeatureStoreConfig =
  fs_Enabled :: bool
  fs_Backend :: string
  fs_TTL :: duration
  fs_RedisAddr :: string
  fs_RedisPassword :: string
  fs_RedisDB :: int
  fs_DynamoDBTable :: string
  fs_DynamoDBRegion :: string

record InferenceConfigSettings =
  inf_DefaultBatchSize :: int
  inf_DefaultBatchTimeout :: duration
  inf_MaxConcurrency :: int
  inf_MaxLatency :: duration
  inf_EnableGPU :: bool
  inf_GPUDeviceIDs :: "int list"

record OnlineLearningConfigSettings =
  ol_Enabled :: bool
  ol_DefaultUpdateBatchSize :: int
  ol_DefaultUpdateInterval :: duration
  ol_DefaultCheckpointInterval :: duration
  ol_CheckpointDir :: string
  ol_DefaultLearningRate :: rat
  ol_EnableValidation :: bool
  ol_ValidationSplit :: rat

record VariantConfig =
  va_Name :: string
  va_ModelName :: string
  va_ModelVersion :: string
  va_Weight :: rat
  va_Enabled :: bool

record ExperimentConfig =
  ex_Name :: string
  ex_Strategy :: string
  ex_Variants :: "VariantConfig list"
  ex_SplitKey :: string
  ex_DefaultVariant :: string
  ex_EnableShadowMode :: bool
  ex_CollectComparison :: bool
  ex_Enabled :: bool

record ABTestingConfig =
  ab_Enabled :: bool
  ab_Experiments :: "ExperimentConfig list"

record MLConfig =
  ml_Enabled :: bool
  ml_ModelRegistry :: ModelRegistryConfig
  ml_Models :: "ModelConfig list"
  ml_FeatureStore :: FeatureStoreConfig
  ml_Inference :: InferenceConfigSettings
  ml_OnlineLearning :: OnlineLearningConfigSettings
  ml_ABTesting :: ABTestingConfig

record Config =
  cfg_Version :: string
  cfg_Application :: ApplicationConfig
  cfg_Engine :: EngineSettings
  cfg_ErrorHandling :: ErrorHandlingSettings
  cfg_Sources :: SourcesConfig
  cfg_Sinks :: SinksConfig
  cfg_State :: StateConfig
  cfg_Metrics :: MetricsConfig
  cfg_Tracing :: TracingConfig
  cfg_Logging :: LoggingConfig
  cfg_Security :: SecurityConfig
  cfg_SchemaRegistry :: SchemaRegistryConfig
  cfg_ML :: MLConfig

section \<open>Defaults\<close>

definition CurrentConfigVersion :: string where
  "CurrentConfigVersion = ''v1''"

definition default_app :: ApplicationConfig where
  "default_app = \<lparr>app_Name = ''gress-app'', app_Environment = ''development'',
     app_Tags = Some []\<rparr>"

definition default_en :: EngineSettings where
  "default_en = \<lparr>en_BufferSize = 10000, en_MaxConcurrency = 100, en_CheckpointInterval = 30 * second,
     en_WatermarkInterval = 5 * second, en_MetricsInterval = 10 * second, en_EnableBackpressure = True,
     en_BackpressureThreshold = 4 / 5, en_CheckpointDir = ''./checkpoints''\<rparr>"

definition default_cbc :: CircuitBreakerSettings where
  "default_cbc = \<lparr>cbc_FailureThreshold = 5, cbc_SuccessThreshold = 2, cbc_Timeout = 60 * second\<rparr>"

definition default_er :: ErrorHandlingSettings where
  "default_er = \<lparr>er_Strategy = ''retry-then-dlq'', er_EnableRetry = True, er_MaxRetryAttempts = 3,
     er_InitialBackoff = 100 * millisecond, er_MaxBackoff = 30 * second, er_BackoffMultiplier = 2,
     er_BackoffJitter = 1 / 10, er_EnableDLQ = True, er_DLQMaxSize = 10000, er_DLQType = ''memory'',
     er_DLQDirectory = [], er_DLQKafkaTopic = [], er_DLQKafkaBrokers = [], er_EnableCircuitBreaker = True,
     er_CircuitBreakerConfig = default_cbc, er_EnableSideOutputs = True, er_SideOutputBufferSize = 1000\<rparr>"

definition default_sources :: SourcesConfig where
  "default_sources = \<lparr>sources_Kafka = [], sources_HTTP = [], sources_WebSocket = []\<rparr>"

definition default_sinks :: SinksConfig where
  "default_sinks = \<lparr>sinks_Kafka = [], sinks_TimescaleDB = []\<rparr>"

definition default_rk :: RocksDBConfig where
  "default_rk = \<lparr>rk_Path = ''./data/rocksdb'', rk_WriteBufferSize = 64 * 1024 * 1024,
     rk_MaxWriteBufferNumber = 3, rk_BlockCacheSize = 512 * 1024 * 1024, rk_Preset = [], rk_MaxBackgroundJobs = 0,
     rk_MaxSubCompactions = 0, rk_OptimizeFiltersForHits = False, rk_Level0FileNumCompactionTrigger = 0,
     rk_TargetFileSizeBase = 0, rk_MaxBytesForLevelBase = 0, rk_AllowMmapReads = False, rk_UseDirectReads = False,
     rk_EnableLatencyTracking = False\<rparr>"

definition default_st :: StateConfig where
  "default_st = \<lparr>st_Backend = ''memory'', st_RocksDB = default_rk\<rparr>"

definition default_me :: MetricsConfig where
  "default_me = \<lparr>me_Enabled = True, me_Address = '':9091'', me_Path = ''/metrics'',
     me_Namespace = ''gress'', me_Subsystem = ''stream''\<rparr>"

definition default_tr :: TracingConfig where
  "default_tr = \<lparr>tr_Enabled = False, tr_ServiceName = ''gress'', tr_ServiceVersion = ''1.0.0'',
     tr_Environment = ''development'', tr_SamplingRate = 1, tr_ExporterType = ''otlp'',
     tr_ExporterEndpoint = ''http://localhost:4318/v1/traces'', tr_OTLPHeaders = Some [],
     tr_OTLPInsecure = True\<rparr>"

definition default_lo :: LoggingConfig where
  "default_lo = \<lparr>lo_Level = ''info'', lo_Format = ''json'', lo_Output = ''stdout'', lo_OutputPath = []\<rparr>"

definition default_sec :: SecurityConfig where
  "default_sec = \<lparr>sec_EnableTLS = False, sec_CertFile = [], sec_KeyFile = [], sec_CAFile = [],
     sec_EnableAuth = False, sec_AuthType = ''none''\<rparr>"

definition default_sr :: SchemaRegistryConfig where
  "default_sr = \<lparr>sr_Enabled = False, sr_URL = ''http://localhost:8081'', sr_Username = [], sr_Password = [],
     sr_Timeout = 30 * second, sr_CacheEnabled = True, sr_CacheSize = 1000, sr_CacheTTL = 5 * minute,
     sr_TLSEnabled = False, sr_TLSCertPath = [], sr_TLSKeyPath = [], sr_TLSCAPath = [],
     sr_TLSSkipVerify = False\<rparr>"

definition default_mr :: ModelRegistryConfig where
  "default_mr = \<lparr>mr_Type = ''local'', mr_BasePath = ''./models'', mr_S3Bucket = [], mr_S3Region = [],
     mr_S3Endpoint = [], mr_S3AccessKey = [], mr_S3SecretKey = [], mr_GCSBucket = [], mr_GCSProject = [],
     mr_GCSCredentials = []\<rparr>"

definition default_fs :: FeatureStoreConfig where
  "default_fs = \<lparr>fs_Enabled = False, fs_Backend = ''state'', fs_TTL = 5 * minute, fs_RedisAddr = [],
     fs_RedisPassword = [], fs_RedisDB = 0, fs_DynamoDBTable = [], fs_DynamoDBRegion = []\<rparr>"

definition default_inf :: InferenceConfigSettings where
  "default_inf = \<lparr>inf_DefaultBatchSize = 10, inf_DefaultBatchTimeout = 10 * millisecond,
     inf_MaxConcurrency = 10, inf_MaxLatency = 100 * millisecond, inf_EnableGPU = False,
     inf_GPUDeviceIDs = []\<rparr>"

definition default_ol :: OnlineLearningConfigSettings where
  "default_ol = \<lparr>ol_Enabled = False, ol_DefaultUpdateBatchSize = 32, ol_DefaultUpdateInterval = 5 * second,
     ol_DefaultCheckpointInterval = 5 * minute, ol_CheckpointDir = ''./ml-checkpoints'',
     ol_DefaultLearningRate = 1 / 1000, ol_EnableValidation = True, ol_ValidationSplit = 1 / 5\<rparr>"

definition default_ab :: ABTestingConfig where
  "default_ab = \<lparr>ab_Enabled = False, ab_Experiments = []\<rparr>"

definition default_ml :: MLConfig where
  "default_ml = \<lparr>ml_Enabled = False, ml_ModelRegistry = default_mr, ml_Models = [],
     ml_FeatureStore = default_fs, ml_Inference = default_inf, ml_OnlineLearning = default_ol,
     ml_ABTesting = default_ab\<rparr>"

definition DefaultConfig :: Config where
  "DefaultConfig = \<lparr>cfg_Version = CurrentConfigVersion,
     cfg_Application = default_app,
     cfg_Engine = default_en,
     cfg_ErrorHandling = default_er,
     cfg_Sources = default_sources,
     cfg_Sinks = default_sinks,
     cfg_State = default_st,
     cfg_Metrics = default_me,
     cfg_Tracing = default_tr,
     cfg_Logging = default_lo,
     cfg_Security = default_sec,
     cfg_SchemaRegistry = default_sr,
     cfg_ML = default_ml\<rparr>"

definition ProductionConfig :: Config where
  "ProductionConfig =
    (let c = DefaultConfig in
     c\<lparr>cfg_Application := (cfg_Application c)\<lparr>app_Environment := ''production''\<rparr>,
       cfg_Engine := (cfg_Engine c)\<lparr>en_BufferSize := 50000, en_MaxConcurrency := 500\<rparr>,
       cfg_ErrorHandling := (cfg_ErrorHandling c)\<lparr>er_MaxRetryAttempts := 5, er_MaxBackoff := 60 * second, er_DLQMaxSize := 100000,
         er_CircuitBreakerConfig := (er_CircuitBreakerConfig (cfg_ErrorHandling c))\<lparr>cbc_FailureThreshold := 10, cbc_Timeout := 120 * second\<rparr>\<rparr>,
       cfg_Logging := (cfg_Logging c)\<lparr>lo_Level := ''warn''\<rparr>\<rparr>)"

definition DevelopmentConfig :: Config where
  "DevelopmentConfig =
    (let c = DefaultConfig in
     c\<lparr>cfg_Application := (cfg_Application c)\<lparr>app_Environment := ''development''\<rparr>,
       cfg_ErrorHandling := (cfg_ErrorHandling c)\<lparr>er_Strategy := ''fail-fast'', er_EnableRetry := False, er_EnableCircuitBreaker := False\<rparr>,
       cfg_Logging := (cfg_Logging c)\<lparr>lo_Level := ''debug'', lo_Format := ''console''\<rparr>\<rparr>)"

lemmas default_defs = DefaultConfig_def default_app_def default_en_def default_cbc_def default_er_def default_sources_def
  default_sinks_def default_rk_def default_st_def default_me_def default_lo_def default_sec_def

end
