(* ===== verification/Config_Validation.thy ===== *)
theory Config_Validation
  imports Config_Types
begin

text \<open>
  \<open>pkg/config/validator.go\<close>. Each validator is its list of tests in the order of the source, a test being the condition
  of an \<open>if\<close> together with the field and the message it adds; conditions of enclosing \<open>if\<close>s are conjoined. The file
  system is a parameter: whether \<open>os.Stat\<close> succeeds, the home directory and \<open>filepath.Join\<close>.
\<close>

section \<open>Errors\<close>

record ValidationError =
  ve_Field :: string
  ve_Message :: string

type_synonym ValidationErrors = "ValidationError list"

definition ValidationError_Error :: "ValidationError \<Rightarrow> string" where
  "ValidationError_Error e = ''validation error for '' @ ve_Field e @ '': '' @ ve_Message e"

definition ValidationErrors_Error :: "ValidationErrors \<Rightarrow> string" where
  "ValidationErrors_Error es =
    (if es = [] then ''no validation errors''
     else ''found '' @ show_nat (length es) @ '' validation error(s):'' @ [CHR 0x0A] @
       concat (map (\<lambda>e. ''  - '' @ ve_Field e @ '': '' @ ve_Message e @ [CHR 0x0A]) es))"

definition HasErrors :: "ValidationErrors \<Rightarrow> bool" where
  "HasErrors es \<longleftrightarrow> length es > 0"

definition errs_Add :: "string \<Rightarrow> string \<Rightarrow> ValidationErrors \<Rightarrow> ValidationErrors" where
  "errs_Add f msg es = es @ [\<lparr>ve_Field = f, ve_Message = msg\<rparr>]"

fun checks :: "(bool \<times> string \<times> string) list \<Rightarrow> ValidationErrors \<Rightarrow> ValidationErrors" where
  "checks [] es = es"
| "checks ((bad, f, msg) # cs) es = checks cs (if bad then errs_Add f msg es else es)"

definition one_of :: "string \<Rightarrow> string list \<Rightarrow> bool" where
  "one_of v valid = list_ex (\<lambda>x. v = x) valid"

fun join_comma :: "string list \<Rightarrow> string" where
  "join_comma [] = []"
| "join_comma [s] = s"
| "join_comma (s # t # ss) = s @ '', '' @ join_comma (t # ss)"

definition invalid :: "string \<Rightarrow> string \<Rightarrow> string list \<Rightarrow> string" where
  "invalid what v valid = ''invalid '' @ what @ '' '' @ v @ '' (valid: '' @ join_comma valid @ '')''"

record file_system =
  fs_stat :: "string \<Rightarrow> bool"
  fs_home :: "string option"
  fs_join :: "string \<Rightarrow> string \<Rightarrow> string"

definition fileExists :: "file_system \<Rightarrow> string \<Rightarrow> bool" where
  "fileExists fs path =
    (let path = (if take 2 path = ''~/'' then (case fs_home fs of None \<Rightarrow> path | Some home \<Rightarrow> fs_join fs home (drop 2 path)) else path)
     in fs_stat fs path)"

section \<open>Validators\<close>

definition validateVersion :: "Config \<Rightarrow> ValidationErrors \<Rightarrow> ValidationErrors" where
  "validateVersion c es =
    (if cfg_Version c = [] then errs_Add ''version'' ''version is required'' es
     else if cfg_Version c \<noteq> CurrentConfigVersion
     then errs_Add ''version'' (''unsupported version '' @ cfg_Version c @ '' (current: '' @ CurrentConfigVersion @ '')'') es
     else es)"

definition valid_envs :: "string list" where "valid_envs = [''development'', ''staging'', ''production'', ''test'']"

definition application_checks :: "ApplicationConfig \<Rightarrow> (bool \<times> string \<times> string) list" where
  "application_checks a =
    [(app_Name a = [], ''application.name'', ''application name is required''),
     (app_Environment a \<noteq> [] \<and> \<not> one_of (app_Environment a) valid_envs, ''application.environment'',
       invalid ''environment'' (app_Environment a) valid_envs)]"

definition validateApplication :: "Config \<Rightarrow> ValidationErrors \<Rightarrow> ValidationErrors" where
  "validateApplication c = checks (application_checks (cfg_Application c))"

definition engine_checks :: "EngineSettings \<Rightarrow> (bool \<times> string \<times> string) list" where
  "engine_checks e =
    [(en_BufferSize e \<le> 0, ''engine.buffer_size'', ''buffer size must be positive''),
     (en_MaxConcurrency e \<le> 0, ''engine.max_concurrency'', ''max concurrency must be positive''),
     (en_CheckpointInterval e \<le> 0, ''engine.checkpoint_interval'', ''checkpoint interval must be positive''),
     (en_WatermarkInterval e \<le> 0, ''engine.watermark_interval'', ''watermark interval must be positive''),
     (en_MetricsInterval e \<le> 0, ''engine.metrics_interval'', ''metrics interval must be positive''),
     (en_BackpressureThreshold e < 0 \<or> en_BackpressureThreshold e > 1, ''engine.backpressure_threshold'',
       ''backpressure threshold must be between 0 and 1''),
     (en_CheckpointDir e = [], ''engine.checkpoint_dir'', ''checkpoint directory is required'')]"

definition validateEngine :: "Config \<Rightarrow> ValidationErrors \<Rightarrow> ValidationErrors" where
  "validateEngine c = checks (engine_checks (cfg_Engine c))"

definition valid_strategies :: "string list" where "valid_strategies = [''fail-fast'', ''retry'', ''send-to-dlq'', ''retry-then-dlq'']"
definition valid_dlq_types :: "string list" where "valid_dlq_types = [''memory'', ''file'', ''kafka'']"

definition error_checks :: "ErrorHandlingSettings \<Rightarrow> (bool \<times> string \<times> string) list" where
  "error_checks e =
    [(\<not> one_of (er_Strategy e) valid_strategies, ''error_handling.strategy'', invalid ''strategy'' (er_Strategy e) valid_strategies),
     (er_EnableRetry e \<and> er_MaxRetryAttempts e \<le> 0, ''error_handling.max_retry_attempts'',
       ''max retry attempts must be positive when retry is enabled''),
     (er_EnableRetry e \<and> er_InitialBackoff e \<le> 0, ''error_handling.initial_backoff'',
       ''initial backoff must be positive when retry is enabled''),
     (er_EnableRetry e \<and> er_MaxBackoff e \<le> 0, ''error_handling.max_backoff'', ''max backoff must be positive when retry is enabled''),
     (er_EnableRetry e \<and> er_MaxBackoff e < er_InitialBackoff e, ''error_handling.max_backoff'', ''max backoff must be >= initial backoff''),
     (er_EnableRetry e \<and> er_BackoffMultiplier e \<le> 1, ''error_handling.backoff_multiplier'', ''backoff multiplier must be > 1''),
     (er_EnableRetry e \<and> (er_BackoffJitter e < 0 \<or> er_BackoffJitter e > 1), ''error_handling.backoff_jitter'',
       ''backoff jitter must be between 0 and 1''),
     (er_EnableDLQ e \<and> \<not> one_of (er_DLQType e) valid_dlq_types, ''error_handling.dlq_type'', invalid ''DLQ type'' (er_DLQType e) valid_dlq_types),
     (er_EnableDLQ e \<and> er_DLQMaxSize e \<le> 0, ''error_handling.dlq_max_size'', ''DLQ max size must be positive when DLQ is enabled''),
     (er_EnableDLQ e \<and> er_DLQType e = ''file'' \<and> er_DLQDirectory e = [], ''error_handling.dlq_directory'',
       ''DLQ directory is required for file-based DLQ''),
     (er_EnableDLQ e \<and> er_DLQType e = ''kafka'' \<and> er_DLQKafkaTopic e = [], ''error_handling.dlq_kafka_topic'',
       ''DLQ Kafka topic is required for Kafka-based DLQ''),
     (er_EnableDLQ e \<and> er_DLQType e = ''kafka'' \<and> er_DLQKafkaBrokers e = [], ''error_handling.dlq_kafka_brokers'',
       ''DLQ Kafka brokers are required for Kafka-based DLQ''),
     (er_EnableCircuitBreaker e \<and> cbc_FailureThreshold (er_CircuitBreakerConfig e) = 0, ''error_handling.circuit_breaker.failure_threshold'',
       ''failure threshold must be positive when circuit breaker is enabled''),
     (er_EnableCircuitBreaker e \<and> cbc_SuccessThreshold (er_CircuitBreakerConfig e) = 0, ''error_handling.circuit_breaker.success_threshold'',
       ''success threshold must be positive when circuit breaker is enabled''),
     (er_EnableCircuitBreaker e \<and> cbc_Timeout (er_CircuitBreakerConfig e) \<le> 0, ''error_handling.circuit_breaker.timeout'',
       ''timeout must be positive when circuit breaker is enabled''),
     (er_EnableSideOutputs e \<and> er_SideOutputBufferSize e \<le> 0, ''error_handling.side_output_buffer_size'',
       ''side output buffer size must be positive when side outputs are enabled'')]"

definition validateErrorHandling :: "Config \<Rightarrow> ValidationErrors \<Rightarrow> ValidationErrors" where
  "validateErrorHandling c = checks (error_checks (cfg_ErrorHandling c))"

text \<open>The tests for an element of a list name its index.\<close>

definition indexed :: "string \<Rightarrow> nat \<Rightarrow> string \<Rightarrow> string" where
  "indexed section i f = section @ ''['' @ show_nat i @ ''].'' @ f"

definition kafka_source_checks :: "nat \<Rightarrow> KafkaSourceConfig \<Rightarrow> (bool \<times> string \<times> string) list" where
  "kafka_source_checks i k =
    (let pre = indexed ''sources.kafka'' i in
     [(ks_Name k = [], pre ''name'', ''source name is required''),
      (ks_Brokers k = [], pre ''brokers'', ''at least one broker is required''),
      (ks_Topics k = [], pre ''topics'', ''at least one topic is required''),
      (ks_GroupID k = [], pre ''group_id'', ''group ID is required''),
      (ks_AutoCommit k \<and> ks_CommitInterval k \<le> 0, pre ''commit_interval'', ''commit interval must be positive when auto-commit is enabled'')])"

definition tls_checks :: "file_system \<Rightarrow> (string \<Rightarrow> string) \<Rightarrow> bool \<Rightarrow> string \<Rightarrow> string \<Rightarrow> (bool \<times> string \<times> string) list" where
  "tls_checks fs pre tls cert key =
    [(tls \<and> cert = [], pre ''cert_file'', ''cert file is required when TLS is enabled''),
     (tls \<and> key = [], pre ''key_file'', ''key file is required when TLS is enabled''),
     (tls \<and> cert \<noteq> [] \<and> \<not> fileExists fs cert, pre ''cert_file'', ''cert file does not exist: '' @ cert),
     (tls \<and> key \<noteq> [] \<and> \<not> fileExists fs key, pre ''key_file'', ''key file does not exist: '' @ key)]"

definition http_source_checks :: "file_system \<Rightarrow> nat \<Rightarrow> HTTPSourceConfig \<Rightarrow> (bool \<times> string \<times> string) list" where
  "http_source_checks fs i h =
    (let pre = indexed ''sources.http'' i in
     [(hs_Name h = [], pre ''name'', ''source name is required''),
      (hs_Address h = [], pre ''address'', ''address is required''),
      (hs_Path h = [], pre ''path'', ''path is required'')] @ tls_checks fs pre (hs_TLS h) (hs_CertFile h) (hs_KeyFile h))"

definition websocket_source_checks :: "file_system \<Rightarrow> nat \<Rightarrow> WebSocketSourceConfig \<Rightarrow> (bool \<times> string \<times> string) list" where
  "websocket_source_checks fs i w =
    (let pre = indexed ''sources.websocket'' i in
     [(ws_Name w = [], pre ''name'', ''source name is required''),
      (ws_Address w = [], pre ''address'', ''address is required''),
      (ws_Path w = [], pre ''path'', ''path is required'')] @ tls_checks fs pre (ws_TLS w) (ws_CertFile w) (ws_KeyFile w))"

definition each :: "(nat \<Rightarrow> 'a \<Rightarrow> (bool \<times> string \<times> string) list) \<Rightarrow> 'a list \<Rightarrow> (bool \<times> string \<times> string) list" where
  "each f xs = concat (map (\<lambda>(i, x). f i x) (enumerate 0 xs))"

definition validateSources :: "file_system \<Rightarrow> Config \<Rightarrow> ValidationErrors \<Rightarrow> ValidationErrors" where
  "validateSources fs c = checks
    (each kafka_source_checks (sources_Kafka (cfg_Sources c)) @ each (http_source_checks fs) (sources_HTTP (cfg_Sources c)) @
     each (websocket_source_checks fs) (sources_WebSocket (cfg_Sources c)))"

definition kafka_sink_checks :: "nat \<Rightarrow> KafkaSinkConfig \<Rightarrow> (bool \<times> string \<times> string) list" where
  "kafka_sink_checks i k =
    (let pre = indexed ''sinks.kafka'' i in
     [(kk_Name k = [], pre ''name'', ''sink name is required''),
      (kk_Brokers k = [], pre ''brokers'', ''at least one broker is required''),
      (kk_Topic k = [], pre ''topic'', ''topic is required''),
      (kk_FlushInterval k \<le> 0, pre ''flush_interval'', ''flush interval must be positive''),
      (kk_BatchSize k \<le> 0, pre ''batch_size'', ''batch size must be positive'')])"

definition timescale_sink_checks :: "nat \<Rightarrow> TimescaleSinkConfig \<Rightarrow> (bool \<times> string \<times> string) list" where
  "timescale_sink_checks i t =
    (let pre = indexed ''sinks.timescaledb'' i in
     [(tk_Name t = [], pre ''name'', ''sink name is required''),
      (tk_ConnectionString t = [], pre ''connection_string'', ''connection string is required''),
      (tk_Table t = [], pre ''table'', ''table name is required''),
      (tk_BatchSize t \<le> 0, pre ''batch_size'', ''batch size must be positive''),
      (tk_FlushInterval t \<le> 0, pre ''flush_interval'', ''flush interval must be positive'')])"

definition validateSinks :: "Config \<Rightarrow> ValidationErrors \<Rightarrow> ValidationErrors" where
  "validateSinks c = checks (each kafka_sink_checks (sinks_Kafka (cfg_Sinks c)) @ each timescale_sink_checks (sinks_TimescaleDB (cfg_Sinks c)))"

definition valid_backends :: "string list" where "valid_backends = [''memory'', ''rocksdb'']"

definition state_checks :: "StateConfig \<Rightarrow> (bool \<times> string \<times> string) list" where
  "state_checks s =
    (let rocks = (st_Backend s = ''rocksdb''); r = st_RocksDB s in
     [(\<not> one_of (st_Backend s) valid_backends, ''state.backend'', invalid ''backend'' (st_Backend s) valid_backends),
      (rocks \<and> rk_Path r = [], ''state.rocksdb.path'', ''RocksDB path is required''),
      (rocks \<and> rk_WriteBufferSize r \<le> 0, ''state.rocksdb.write_buffer_size'', ''write buffer size must be positive''),
      (rocks \<and> rk_MaxWriteBufferNumber r \<le> 0, ''state.rocksdb.max_write_buffer_number'', ''max write buffer number must be positive''),
      (rocks \<and> rk_BlockCacheSize r \<le> 0, ''state.rocksdb.block_cache_size'', ''block cache size must be positive'')])"

definition validateState :: "Config \<Rightarrow> ValidationErrors \<Rightarrow> ValidationErrors" where
  "validateState c = checks (state_checks (cfg_State c))"

definition metrics_checks :: "MetricsConfig \<Rightarrow> (bool \<times> string \<times> string) list" where
  "metrics_checks m =
    [(me_Enabled m \<and> me_Address m = [], ''metrics.address'', ''metrics address is required when metrics are enabled''),
     (me_Enabled m \<and> me_Path m = [], ''metrics.path'', ''metrics path is required when metrics are enabled''),
     (me_Enabled m \<and> me_Namespace m = [], ''metrics.namespace'', ''metrics namespace is required'')]"

definition validateMetrics :: "Config \<Rightarrow> ValidationErrors \<Rightarrow> ValidationErrors" where
  "validateMetrics c = checks (metrics_checks (cfg_Metrics c))"

definition valid_levels :: "string list" where "valid_levels = [''debug'', ''info'', ''warn'', ''error'']"
definition valid_formats :: "string list" where "valid_formats = [''json'', ''console'']"
definition valid_outputs :: "string list" where "valid_outputs = [''stdout'', ''stderr'', ''file'']"

definition logging_checks :: "LoggingConfig \<Rightarrow> (bool \<times> string \<times> string) list" where
  "logging_checks l =
    [(\<not> one_of (lo_Level l) valid_levels, ''logging.level'', invalid ''log level'' (lo_Level l) valid_levels),
     (\<not> one_of (lo_Format l) valid_formats, ''logging.format'', invalid ''log format'' (lo_Format l) valid_formats),
     (\<not> one_of (lo_Output l) valid_outputs, ''logging.output'', invalid ''log output'' (lo_Output l) valid_outputs),
     (lo_Output l = ''file'' \<and> lo_OutputPath l = [], ''logging.output_path'',
       ''output path is required when output is '' @ [CHR 0x27] @ ''file'' @ [CHR 0x27])]"

definition validateLogging :: "Config \<Rightarrow> ValidationErrors \<Rightarrow> ValidationErrors" where
  "validateLogging c = checks (logging_checks (cfg_Logging c))"

definition valid_auth_types :: "string list" where "valid_auth_types = [''none'', ''basic'', ''bearer'', ''mtls'']"

definition security_checks :: "file_system \<Rightarrow> SecurityConfig \<Rightarrow> (bool \<times> string \<times> string) list" where
  "security_checks fs s =
    tls_checks fs (\<lambda>f. ''security.'' @ f) (sec_EnableTLS s) (sec_CertFile s) (sec_KeyFile s) @
    [(sec_EnableTLS s \<and> sec_CAFile s \<noteq> [] \<and> \<not> fileExists fs (sec_CAFile s), ''security.ca_file'', ''CA file does not exist: '' @ sec_CAFile s),
     (sec_EnableAuth s \<and> \<not> one_of (sec_AuthType s) valid_auth_types, ''security.auth_type'',
       invalid ''auth type'' (sec_AuthType s) valid_auth_types)]"

definition validateSecurity :: "file_system \<Rightarrow> Config \<Rightarrow> ValidationErrors \<Rightarrow> ValidationErrors" where
  "validateSecurity fs c = checks (security_checks fs (cfg_Security c))"

definition Validate :: "file_system \<Rightarrow> Config \<Rightarrow> ValidationErrors option" where
  "Validate fs c =
    (let errs = validateSecurity fs c (validateLogging c (validateMetrics c (validateState c (validateSinks c (validateSources fs c
        (validateErrorHandling c (validateEngine c (validateApplication c (validateVersion c [])))))))))
     in if HasErrors errs then Some errs else None)"

section \<open>What validation reports\<close>

definition all_checks :: "file_system \<Rightarrow> Config \<Rightarrow> (bool \<times> string \<times> string) list" where
  "all_checks fs c = application_checks (cfg_Application c) @ engine_checks (cfg_Engine c) @ error_checks (cfg_ErrorHandling c) @
    each kafka_source_checks (sources_Kafka (cfg_Sources c)) @ each (http_source_checks fs) (sources_HTTP (cfg_Sources c)) @
    each (websocket_source_checks fs) (sources_WebSocket (cfg_Sources c)) @
    each kafka_sink_checks (sinks_Kafka (cfg_Sinks c)) @ each timescale_sink_checks (sinks_TimescaleDB (cfg_Sinks c)) @
    state_checks (cfg_State c) @ metrics_checks (cfg_Metrics c) @ logging_checks (cfg_Logging c) @ security_checks fs (cfg_Security c)"

lemma checks_eq: "checks cs es = es @ map (\<lambda>(b, f, msg). \<lparr>ve_Field = f, ve_Message = msg\<rparr>) (filter fst cs)"
  by (induction cs es rule: checks.induct) (simp_all add: errs_Add_def)

lemma Validate_eq:
  "Validate fs c =
    (let errs = validateVersion c [] @ map (\<lambda>(b, f, msg). \<lparr>ve_Field = f, ve_Message = msg\<rparr>) (filter fst (all_checks fs c))
     in if errs = [] then None else Some errs)"
  unfolding Validate_def validateApplication_def validateEngine_def validateErrorHandling_def validateSources_def validateSinks_def
    validateState_def validateMetrics_def validateLogging_def validateSecurity_def checks_eq all_checks_def HasErrors_def Let_def
  by simp

text \<open>A configuration is accepted exactly when its version is the current one and no test fails.\<close>

lemma Validate_None:
  "Validate fs c = None \<longleftrightarrow> cfg_Version c = CurrentConfigVersion \<and> list_all (\<lambda>t. \<not> fst t) (all_checks fs c)"
  by (auto simp: Validate_eq Let_def validateVersion_def errs_Add_def CurrentConfigVersion_def filter_empty_conv list_all_iff)

lemma accepted_sections:
  assumes "Validate fs c = None"
  shows "list_all (\<lambda>t. \<not> fst t) (engine_checks (cfg_Engine c))" "list_all (\<lambda>t. \<not> fst t) (error_checks (cfg_ErrorHandling c))"
  using assms by (simp_all add: Validate_None all_checks_def)

end
