(* ===== verification/Config_Loading.thy ===== *)
theory Config_Loading
  imports Config_Validation "HOL-Library.AList"
begin

text \<open>
  Loading of configurations: \<open>pkg/config/loader.go\<close>, \<open>pkg/config/env.go\<close> and \<open>pkg/config/version.go\<close>. Reading files, the
  YAML and JSON decoders, \<open>time.ParseDuration\<close> and \<open>strconv.ParseFloat\<close> are parameters; \<open>strconv.Atoi\<close> and
  \<open>strconv.ParseBool\<close> are defined here. An environment variable that is not set reads as the empty string. An
  assignment to a nil map panics.
\<close>

section \<open>Numbers and booleans in text\<close>

definition digit_value :: "char \<Rightarrow> nat option" where
  "digit_value c = (let n = of_char c in if 48 \<le> n \<and> n \<le> (57 :: nat) then Some (n - 48) else None)"

fun digits_value :: "string \<Rightarrow> nat \<Rightarrow> nat option" where
  "digits_value [] acc = Some acc"
| "digits_value (c # cs) acc = (case digit_value c of None \<Rightarrow> None | Some d \<Rightarrow> digits_value cs (10 * acc + d))"

definition unsigned_value :: "string \<Rightarrow> nat option" where
  "unsigned_value s = (if s = [] then None else digits_value s 0)"

definition Atoi :: "string \<Rightarrow> int option" where
  "Atoi s =
    (let (neg, ds) = (case s of [] \<Rightarrow> (False, []) | c # cs \<Rightarrow>
            if c = CHR ''-'' then (True, cs) else if c = CHR ''+'' then (False, cs) else (False, s)) in
     case unsigned_value ds of
       None \<Rightarrow> None
     | Some n \<Rightarrow>
         (let i = (if neg then - int n else int n) in if min_duration \<le> i \<and> i \<le> max_duration then Some i else None))"

definition ParseBool :: "string \<Rightarrow> bool option" where
  "ParseBool s =
    (if s \<in> set [''1'', ''t'', ''T'', ''true'', ''TRUE'', ''True''] then Some True
     else if s \<in> set [''0'', ''f'', ''F'', ''false'', ''FALSE'', ''False''] then Some False
     else None)"

text \<open>\<open>strings.Split\<close> with a separator of one character.\<close>

fun split_on :: "char \<Rightarrow> string \<Rightarrow> string list" where
  "split_on sep [] = [[]]"
| "split_on sep (c # cs) =
    (if c = sep then [] # split_on sep cs
     else (case split_on sep cs of [] \<Rightarrow> [[c]] | p # ps \<Rightarrow> (c # p) # ps))"

section \<open>Versions\<close>

record ConfigVersion =
  ver_Major :: int
  ver_Minor :: int

definition ParseVersion :: "string \<Rightarrow> ConfigVersion option" where
  "ParseVersion version =
    (let version = (case version of [] \<Rightarrow> [] | c # cs \<Rightarrow> if c = CHR ''v'' then cs else version);
         parts = split_on (CHR ''.'') version in
     if length parts = 0 \<or> length parts > 2 then None
     else (case Atoi (parts ! 0) of
         None \<Rightarrow> None
       | Some major \<Rightarrow>
           if length parts = 2 then map_option (\<lambda>minor. \<lparr>ver_Major = major, ver_Minor = minor\<rparr>) (Atoi (parts ! 1))
           else Some \<lparr>ver_Major = major, ver_Minor = 0\<rparr>))"

definition ConfigVersion_String :: "ConfigVersion \<Rightarrow> string" where
  "ConfigVersion_String v =
    (if ver_Minor v = 0 then ''v'' @ show_int (ver_Major v) else ''v'' @ show_int (ver_Major v) @ ''.'' @ show_int (ver_Minor v))"

definition IsCompatible :: "ConfigVersion \<Rightarrow> ConfigVersion \<Rightarrow> bool" where
  "IsCompatible v other \<longleftrightarrow> \<not> ver_Major v \<noteq> ver_Major other"

definition IsNewerThan :: "ConfigVersion \<Rightarrow> ConfigVersion \<Rightarrow> bool" where
  "IsNewerThan v other =
    (if ver_Major v > ver_Major other then True
     else if ver_Major v = ver_Major other \<and> ver_Minor v > ver_Minor other then True
     else False)"

definition GetCurrentVersion :: ConfigVersion where
  "GetCurrentVersion = (case ParseVersion CurrentConfigVersion of None \<Rightarrow> \<lparr>ver_Major = 0, ver_Minor = 0\<rparr> | Some v \<Rightarrow> v)"

datatype version_error = VersionMissing | VersionInvalid | VersionIncompatible ConfigVersion ConfigVersion | VersionNewer ConfigVersion ConfigVersion

definition ValidateVersion :: "Config \<Rightarrow> version_error option" where
  "ValidateVersion c =
    (if cfg_Version c = [] then Some VersionMissing
     else (case ParseVersion (cfg_Version c) of
         None \<Rightarrow> Some VersionInvalid
       | Some v \<Rightarrow>
           if \<not> IsCompatible GetCurrentVersion v then Some (VersionIncompatible v GetCurrentVersion)
           else if IsNewerThan v GetCurrentVersion then Some (VersionNewer v GetCurrentVersion)
           else None))"

text \<open>\<open>copyConfig\<close> of \<open>reload.go\<close>: the copy differs in that its map of tags is never nil.\<close>

definition copyConfig :: "Config \<Rightarrow> Config" where
  "copyConfig src = src\<lparr>cfg_Application := (cfg_Application src)\<lparr>app_Tags := Some (case app_Tags (cfg_Application src) of None \<Rightarrow> [] | Some m \<Rightarrow> m)\<rparr>\<rparr>"

definition MigrateConfig :: "Config \<Rightarrow> version_error + Config" where
  "MigrateConfig c =
    (if cfg_Version c = [] then Inl VersionMissing
     else (case ParseVersion (cfg_Version c) of
         None \<Rightarrow> Inl VersionInvalid
       | Some v \<Rightarrow>
           if ver_Major v = ver_Major GetCurrentVersion \<and> ver_Minor v = ver_Minor GetCurrentVersion then Inr c
           else if \<not> IsCompatible GetCurrentVersion v then Inl (VersionIncompatible v GetCurrentVersion)
           else Inr ((copyConfig c)\<lparr>cfg_Version := CurrentConfigVersion\<rparr>)))"

section \<open>Defaults for missing values\<close>

definition defaults_app :: "ApplicationConfig \<Rightarrow> ApplicationConfig" where
  "defaults_app c = c\<lparr>app_Name := (if app_Name c = [] then app_Name default_app else app_Name c),
     app_Environment := (if app_Environment c = [] then app_Environment default_app else app_Environment c),
     app_Tags := (if app_Tags c = None then Some [] else app_Tags c)\<rparr>"

definition defaults_en :: "EngineSettings \<Rightarrow> EngineSettings" where
  "defaults_en c = c\<lparr>en_BufferSize := (if en_BufferSize c = 0 then en_BufferSize default_en else en_BufferSize c),
     en_MaxConcurrency := (if en_MaxConcurrency c = 0 then en_MaxConcurrency default_en else en_MaxConcurrency c),
     en_CheckpointInterval := (if en_CheckpointInterval c = 0 then en_CheckpointInterval default_en else en_CheckpointInterval c),
     en_WatermarkInterval := (if en_WatermarkInterval c = 0 then en_WatermarkInterval default_en else en_WatermarkInterval c),
     en_MetricsInterval := (if en_MetricsInterval c = 0 then en_MetricsInterval default_en else en_MetricsInterval c),
     en_BackpressureThreshold := (if en_BackpressureThreshold c = 0 then en_BackpressureThreshold default_en else en_BackpressureThreshold c),
     en_CheckpointDir := (if en_CheckpointDir c = [] then en_CheckpointDir default_en else en_CheckpointDir c)\<rparr>"

definition defaults_er :: "ErrorHandlingSettings \<Rightarrow> ErrorHandlingSettings" where
  "defaults_er c = c\<lparr>er_Strategy := (if er_Strategy c = [] then er_Strategy default_er else er_Strategy c),
     er_MaxRetryAttempts := (if er_MaxRetryAttempts c = 0 then er_MaxRetryAttempts default_er else er_MaxRetryAttempts c),
     er_InitialBackoff := (if er_InitialBackoff c = 0 then er_InitialBackoff default_er else er_InitialBackoff c),
     er_MaxBackoff := (if er_MaxBackoff c = 0 then er_MaxBackoff default_er else er_MaxBackoff c),
     er_BackoffMultiplier := (if er_BackoffMultiplier c = 0 then er_BackoffMultiplier default_er else er_BackoffMultiplier c),
     er_BackoffJitter := (if er_BackoffJitter c = 0 then er_BackoffJitter default_er else er_BackoffJitter c),
     er_DLQMaxSize := (if er_DLQMaxSize c = 0 then er_DLQMaxSize default_er else er_DLQMaxSize c),
     er_DLQType := (if er_DLQType c = [] then er_DLQType default_er else er_DLQType c),
     er_SideOutputBufferSize := (if er_SideOutputBufferSize c = 0 then er_SideOutputBufferSize default_er else er_SideOutputBufferSize c),
     er_CircuitBreakerConfig := (er_CircuitBreakerConfig c)\<lparr>cbc_FailureThreshold := (if cbc_FailureThreshold (er_CircuitBreakerConfig c) = 0 then cbc_FailureThreshold default_cbc else cbc_FailureThreshold (er_CircuitBreakerConfig c)),
       cbc_SuccessThreshold := (if cbc_SuccessThreshold (er_CircuitBreakerConfig c) = 0 then cbc_SuccessThreshold default_cbc else cbc_SuccessThreshold (er_CircuitBreakerConfig c)),
       cbc_Timeout := (if cbc_Timeout (er_CircuitBreakerConfig c) = 0 then cbc_Timeout default_cbc else cbc_Timeout (er_CircuitBreakerConfig c))\<rparr>\<rparr>"

definition defaults_st :: "StateConfig \<Rightarrow> StateConfig" where
  "defaults_st c = c\<lparr>st_Backend := (if st_Backend c = [] then st_Backend default_st else st_Backend c),
     st_RocksDB := (st_RocksDB c)\<lparr>rk_Path := (if rk_Path (st_RocksDB c) = [] then rk_Path default_rk else rk_Path (st_RocksDB c)),
       rk_WriteBufferSize := (if rk_WriteBufferSize (st_RocksDB c) = 0 then rk_WriteBufferSize default_rk else rk_WriteBufferSize (st_RocksDB c)),
       rk_MaxWriteBufferNumber := (if rk_MaxWriteBufferNumber (st_RocksDB c) = 0 then rk_MaxWriteBufferNumber default_rk else rk_MaxWriteBufferNumber (st_RocksDB c)),
       rk_BlockCacheSize := (if rk_BlockCacheSize (st_RocksDB c) = 0 then rk_BlockCacheSize default_rk else rk_BlockCacheSize (st_RocksDB c))\<rparr>\<rparr>"

definition defaults_me :: "MetricsConfig \<Rightarrow> MetricsConfig" where
  "defaults_me c = c\<lparr>me_Address := (if me_Address c = [] then me_Address default_me else me_Address c),
     me_Path := (if me_Path c = [] then me_Path default_me else me_Path c),
     me_Namespace := (if me_Namespace c = [] then me_Namespace default_me else me_Namespace c),
     me_Subsystem := (if me_Subsystem c = [] then me_Subsystem default_me else me_Subsystem c)\<rparr>"

definition defaults_lo :: "LoggingConfig \<Rightarrow> LoggingConfig" where
  "defaults_lo c = c\<lparr>lo_Level := (if lo_Level c = [] then lo_Level default_lo else lo_Level c),
     lo_Format := (if lo_Format c = [] then lo_Format default_lo else lo_Format c),
     lo_Output := (if lo_Output c = [] then lo_Output default_lo else lo_Output c)\<rparr>"

definition defaults_sec :: "SecurityConfig \<Rightarrow> SecurityConfig" where
  "defaults_sec c = c\<lparr>sec_AuthType := (if sec_AuthType c = [] then sec_AuthType default_sec else sec_AuthType c)\<rparr>"

definition applyDefaults :: "Config \<Rightarrow> Config" where
  "applyDefaults c = c\<lparr>cfg_Version := (if cfg_Version c = [] then cfg_Version DefaultConfig else cfg_Version c),
     cfg_Application := defaults_app (cfg_Application c),
     cfg_Engine := defaults_en (cfg_Engine c),
     cfg_ErrorHandling := defaults_er (cfg_ErrorHandling c),
     cfg_State := defaults_st (cfg_State c),
     cfg_Metrics := defaults_me (cfg_Metrics c),
     cfg_Logging := defaults_lo (cfg_Logging c),
     cfg_Security := defaults_sec (cfg_Security c)\<rparr>"

section \<open>Merging\<close>

definition merge_app :: "ApplicationConfig \<Rightarrow> ApplicationConfig \<Rightarrow> ApplicationConfig option" where
  "merge_app target source =
    (let t1 = target\<lparr>app_Name := (if app_Name source \<noteq> [] then app_Name source else app_Name target),
           app_Environment := (if app_Environment source \<noteq> [] then app_Environment source else app_Environment target)\<rparr> in
     case app_Tags source of
       None \<Rightarrow> Some t1
     | Some m \<Rightarrow>
         if m = [] then Some t1
         else (case app_Tags target of
             None \<Rightarrow> None
           | Some m' \<Rightarrow> Some (t1\<lparr>app_Tags := Some (fold (\<lambda>(k, v). AList.update k v) m m')\<rparr>)))"

definition merge_en :: "EngineSettings \<Rightarrow> EngineSettings \<Rightarrow> EngineSettings" where
  "merge_en target source = target\<lparr>
     en_BufferSize := (if en_BufferSize source \<noteq> 0 then en_BufferSize source else en_BufferSize target),
     en_MaxConcurrency := (if en_MaxConcurrency source \<noteq> 0 then en_MaxConcurrency source else en_MaxConcurrency target),
     en_CheckpointInterval := (if en_CheckpointInterval source \<noteq> 0 then en_CheckpointInterval source else en_CheckpointInterval target),
     en_WatermarkInterval := (if en_WatermarkInterval source \<noteq> 0 then en_WatermarkInterval source else en_WatermarkInterval target),
     en_MetricsInterval := (if en_MetricsInterval source \<noteq> 0 then en_MetricsInterval source else en_MetricsInterval target),
     en_BackpressureThreshold := (if en_BackpressureThreshold source \<noteq> 0 then en_BackpressureThreshold source else en_BackpressureThreshold target),
     en_CheckpointDir := (if en_CheckpointDir source \<noteq> [] then en_CheckpointDir source else en_CheckpointDir target)\<rparr>"

definition merge_er :: "ErrorHandlingSettings \<Rightarrow> ErrorHandlingSettings \<Rightarrow> ErrorHandlingSettings" where
  "merge_er target source = target\<lparr>
     er_Strategy := (if er_Strategy source \<noteq> [] then er_Strategy source else er_Strategy target),
     er_EnableRetry := er_EnableRetry source, er_EnableDLQ := er_EnableDLQ source,
     er_EnableCircuitBreaker := er_EnableCircuitBreaker source, er_EnableSideOutputs := er_EnableSideOutputs source\<rparr>"

definition mergeInto :: "Config \<Rightarrow> Config \<Rightarrow> Config option" where
  "mergeInto target source =
    (case merge_app (cfg_Application target) (cfg_Application source) of
       None \<Rightarrow> None
     | Some app \<Rightarrow> Some (target\<lparr>cfg_Application := app,
         cfg_Engine := merge_en (cfg_Engine target) (cfg_Engine source),
         cfg_ErrorHandling := merge_er (cfg_ErrorHandling target) (cfg_ErrorHandling source),
         cfg_Sources := \<lparr>sources_Kafka = sources_Kafka (cfg_Sources target) @ sources_Kafka (cfg_Sources source),
           sources_HTTP = sources_HTTP (cfg_Sources target) @ sources_HTTP (cfg_Sources source),
           sources_WebSocket = sources_WebSocket (cfg_Sources target) @ sources_WebSocket (cfg_Sources source)\<rparr>,
         cfg_Sinks := \<lparr>sinks_Kafka = sinks_Kafka (cfg_Sinks target) @ sinks_Kafka (cfg_Sinks source),
           sinks_TimescaleDB = sinks_TimescaleDB (cfg_Sinks target) @ sinks_TimescaleDB (cfg_Sinks source)\<rparr>\<rparr>))"

fun merge_loop :: "Config \<Rightarrow> Config list \<Rightarrow> Config option" where
  "merge_loop result [] = Some result"
| "merge_loop result (c # cs) = (case mergeInto result c of None \<Rightarrow> None | Some r \<Rightarrow> merge_loop r cs)"

definition MergeConfigs :: "Config list \<Rightarrow> Config option" where
  "MergeConfigs configs = (case configs of [] \<Rightarrow> Some DefaultConfig | c # cs \<Rightarrow> merge_loop c cs)"

section \<open>Overrides from the environment\<close>

text \<open>One override: a variable that is set and can be parsed replaces a field, one that cannot be parsed is an error and
  ends the loading; the overrides before it have been made.\<close>

definition override :: "(string \<Rightarrow> string) \<Rightarrow> (string \<Rightarrow> 'a option) \<Rightarrow> string \<Rightarrow> ('a \<Rightarrow> Config \<Rightarrow> Config) \<Rightarrow> Config \<Rightarrow> string option \<times> Config" where
  "override env parse var setter c =
    (if env var \<noteq> [] then (case parse (env var) of None \<Rightarrow> (Some var, c) | Some x \<Rightarrow> (None, setter x c)) else (None, c))"

fun run_overrides :: "(Config \<Rightarrow> string option \<times> Config) list \<Rightarrow> Config \<Rightarrow> string option \<times> Config" where
  "run_overrides [] c = (None, c)"
| "run_overrides (s # ss) c = (case s c of (Some e, c') \<Rightarrow> (Some e, c') | (None, c') \<Rightarrow> run_overrides ss c')"

definition ApplyEnvOverrides ::
  "(string \<Rightarrow> duration option) \<Rightarrow> (string \<Rightarrow> rat option) \<Rightarrow> (string \<Rightarrow> string) \<Rightarrow> Config \<Rightarrow> string option \<times> Config" where
  "ApplyEnvOverrides parse_duration parse_float env = run_overrides [
     override env Some ''GRESS_APPLICATION_NAME''
       (\<lambda>x c. c\<lparr>cfg_Application := (cfg_Application c)\<lparr>app_Name := x\<rparr>\<rparr>),
     override env Some ''GRESS_APPLICATION_ENVIRONMENT''
       (\<lambda>x c. c\<lparr>cfg_Application := (cfg_Application c)\<lparr>app_Environment := x\<rparr>\<rparr>),
     override env Atoi ''GRESS_ENGINE_BUFFER_SIZE''
       (\<lambda>x c. c\<lparr>cfg_Engine := (cfg_Engine c)\<lparr>en_BufferSize := x\<rparr>\<rparr>),
     override env Atoi ''GRESS_ENGINE_MAX_CONCURRENCY''
       (\<lambda>x c. c\<lparr>cfg_Engine := (cfg_Engine c)\<lparr>en_MaxConcurrency := x\<rparr>\<rparr>),
     override env parse_duration ''GRESS_ENGINE_CHECKPOINT_INTERVAL''
       (\<lambda>x c. c\<lparr>cfg_Engine := (cfg_Engine c)\<lparr>en_CheckpointInterval := x\<rparr>\<rparr>),
     override env parse_duration ''GRESS_ENGINE_WATERMARK_INTERVAL''
       (\<lambda>x c. c\<lparr>cfg_Engine := (cfg_Engine c)\<lparr>en_WatermarkInterval := x\<rparr>\<rparr>),
     override env parse_duration ''GRESS_ENGINE_METRICS_INTERVAL''
       (\<lambda>x c. c\<lparr>cfg_Engine := (cfg_Engine c)\<lparr>en_MetricsInterval := x\<rparr>\<rparr>),
     override env ParseBool ''GRESS_ENGINE_ENABLE_BACKPRESSURE''
       (\<lambda>x c. c\<lparr>cfg_Engine := (cfg_Engine c)\<lparr>en_EnableBackpressure := x\<rparr>\<rparr>),
     override env parse_float ''GRESS_ENGINE_BACKPRESSURE_THRESHOLD''
       (\<lambda>x c. c\<lparr>cfg_Engine := (cfg_Engine c)\<lparr>en_BackpressureThreshold := x\<rparr>\<rparr>),
     override env Some ''GRESS_ENGINE_CHECKPOINT_DIR''
       (\<lambda>x c. c\<lparr>cfg_Engine := (cfg_Engine c)\<lparr>en_CheckpointDir := x\<rparr>\<rparr>),
     override env Some ''GRESS_ERROR_STRATEGY''
       (\<lambda>x c. c\<lparr>cfg_ErrorHandling := (cfg_ErrorHandling c)\<lparr>er_Strategy := x\<rparr>\<rparr>),
     override env ParseBool ''GRESS_ERROR_ENABLE_RETRY''
       (\<lambda>x c. c\<lparr>cfg_ErrorHandling := (cfg_ErrorHandling c)\<lparr>er_EnableRetry := x\<rparr>\<rparr>),
     override env Atoi ''GRESS_ERROR_MAX_RETRY_ATTEMPTS''
       (\<lambda>x c. c\<lparr>cfg_ErrorHandling := (cfg_ErrorHandling c)\<lparr>er_MaxRetryAttempts := x\<rparr>\<rparr>),
     override env ParseBool ''GRESS_ERROR_ENABLE_DLQ''
       (\<lambda>x c. c\<lparr>cfg_ErrorHandling := (cfg_ErrorHandling c)\<lparr>er_EnableDLQ := x\<rparr>\<rparr>),
     override env Some ''GRESS_ERROR_DLQ_TYPE''
       (\<lambda>x c. c\<lparr>cfg_ErrorHandling := (cfg_ErrorHandling c)\<lparr>er_DLQType := x\<rparr>\<rparr>),
     override env Some ''GRESS_ERROR_DLQ_DIRECTORY''
       (\<lambda>x c. c\<lparr>cfg_ErrorHandling := (cfg_ErrorHandling c)\<lparr>er_DLQDirectory := x\<rparr>\<rparr>),
     override env Some ''GRESS_ERROR_DLQ_KAFKA_TOPIC''
       (\<lambda>x c. c\<lparr>cfg_ErrorHandling := (cfg_ErrorHandling c)\<lparr>er_DLQKafkaTopic := x\<rparr>\<rparr>),
     override env (\<lambda>s. Some (split_on (CHR '','') s)) ''GRESS_ERROR_DLQ_KAFKA_BROKERS''
       (\<lambda>x c. c\<lparr>cfg_ErrorHandling := (cfg_ErrorHandling c)\<lparr>er_DLQKafkaBrokers := x\<rparr>\<rparr>),
     override env ParseBool ''GRESS_ERROR_ENABLE_CIRCUIT_BREAKER''
       (\<lambda>x c. c\<lparr>cfg_ErrorHandling := (cfg_ErrorHandling c)\<lparr>er_EnableCircuitBreaker := x\<rparr>\<rparr>),
     override env Some ''GRESS_STATE_BACKEND''
       (\<lambda>x c. c\<lparr>cfg_State := (cfg_State c)\<lparr>st_Backend := x\<rparr>\<rparr>),
     override env Some ''GRESS_STATE_ROCKSDB_PATH''
       (\<lambda>x c. c\<lparr>cfg_State := (cfg_State c)\<lparr>st_RocksDB := (st_RocksDB (cfg_State c))\<lparr>rk_Path := x\<rparr>\<rparr>\<rparr>),
     override env ParseBool ''GRESS_METRICS_ENABLED''
       (\<lambda>x c. c\<lparr>cfg_Metrics := (cfg_Metrics c)\<lparr>me_Enabled := x\<rparr>\<rparr>),
     override env Some ''GRESS_METRICS_ADDRESS''
       (\<lambda>x c. c\<lparr>cfg_Metrics := (cfg_Metrics c)\<lparr>me_Address := x\<rparr>\<rparr>),
     override env Some ''GRESS_METRICS_PATH''
       (\<lambda>x c. c\<lparr>cfg_Metrics := (cfg_Metrics c)\<lparr>me_Path := x\<rparr>\<rparr>),
     override env Some ''GRESS_METRICS_NAMESPACE''
       (\<lambda>x c. c\<lparr>cfg_Metrics := (cfg_Metrics c)\<lparr>me_Namespace := x\<rparr>\<rparr>),
     override env Some ''GRESS_LOG_LEVEL''
       (\<lambda>x c. c\<lparr>cfg_Logging := (cfg_Logging c)\<lparr>lo_Level := x\<rparr>\<rparr>),
     override env Some ''GRESS_LOG_FORMAT''
       (\<lambda>x c. c\<lparr>cfg_Logging := (cfg_Logging c)\<lparr>lo_Format := x\<rparr>\<rparr>),
     override env Some ''GRESS_LOG_OUTPUT''
       (\<lambda>x c. c\<lparr>cfg_Logging := (cfg_Logging c)\<lparr>lo_Output := x\<rparr>\<rparr>),
     override env Some ''GRESS_LOG_OUTPUT_PATH''
       (\<lambda>x c. c\<lparr>cfg_Logging := (cfg_Logging c)\<lparr>lo_OutputPath := x\<rparr>\<rparr>),
     override env ParseBool ''GRESS_SECURITY_ENABLE_TLS''
       (\<lambda>x c. c\<lparr>cfg_Security := (cfg_Security c)\<lparr>sec_EnableTLS := x\<rparr>\<rparr>),
     override env Some ''GRESS_SECURITY_CERT_FILE''
       (\<lambda>x c. c\<lparr>cfg_Security := (cfg_Security c)\<lparr>sec_CertFile := x\<rparr>\<rparr>),
     override env Some ''GRESS_SECURITY_KEY_FILE''
       (\<lambda>x c. c\<lparr>cfg_Security := (cfg_Security c)\<lparr>sec_KeyFile := x\<rparr>\<rparr>),
     override env Some ''GRESS_SECURITY_CA_FILE''
       (\<lambda>x c. c\<lparr>cfg_Security := (cfg_Security c)\<lparr>sec_CAFile := x\<rparr>\<rparr>),
     override env ParseBool ''GRESS_SECURITY_ENABLE_AUTH''
       (\<lambda>x c. c\<lparr>cfg_Security := (cfg_Security c)\<lparr>sec_EnableAuth := x\<rparr>\<rparr>),
     override env Some ''GRESS_SECURITY_AUTH_TYPE''
       (\<lambda>x c. c\<lparr>cfg_Security := (cfg_Security c)\<lparr>sec_AuthType := x\<rparr>\<rparr>)]"

definition GetEnvWithDefault :: "(string \<Rightarrow> string) \<Rightarrow> string \<Rightarrow> string \<Rightarrow> string" where
  "GetEnvWithDefault env key d = (if env key \<noteq> [] then env key else d)"

definition GetEnvInt :: "(string \<Rightarrow> string) \<Rightarrow> string \<Rightarrow> int \<Rightarrow> int" where
  "GetEnvInt env key d = (if env key \<noteq> [] then (case Atoi (env key) of Some i \<Rightarrow> i | None \<Rightarrow> d) else d)"

definition GetEnvBool :: "(string \<Rightarrow> string) \<Rightarrow> string \<Rightarrow> bool \<Rightarrow> bool" where
  "GetEnvBool env key d = (if env key \<noteq> [] then (case ParseBool (env key) of Some b \<Rightarrow> b | None \<Rightarrow> d) else d)"

definition GetEnvDuration :: "(string \<Rightarrow> duration option) \<Rightarrow> (string \<Rightarrow> string) \<Rightarrow> string \<Rightarrow> duration \<Rightarrow> duration" where
  "GetEnvDuration parse_duration env key d = (if env key \<noteq> [] then (case parse_duration (env key) of Some x \<Rightarrow> x | None \<Rightarrow> d) else d)"

section \<open>Loading files\<close>

text \<open>What loading sees: the contents of files, their decoders, the environment and the file system. \<open>ld_ext\<close> is the
  lower-case extension of a path.\<close>

record 'd loader =
  ld_read :: "string \<Rightarrow> 'd option"
  ld_not_exist :: "string \<Rightarrow> bool"
  ld_ext :: "string \<Rightarrow> string"
  ld_yaml :: "'d \<Rightarrow> Config option"
  ld_json :: "'d \<Rightarrow> Config option"
  ld_duration :: "string \<Rightarrow> duration option"
  ld_float :: "string \<Rightarrow> rat option"
  ld_env :: "string \<Rightarrow> string"
  ld_fs :: file_system

datatype load_error = ReadFailed | ParseFailed | UnsupportedFormat string | EnvInvalid string | Rejected ValidationErrors

definition LoadConfig :: "'d loader \<Rightarrow> string \<Rightarrow> load_error + Config" where
  "LoadConfig ld path =
    (case ld_read ld path of
       None \<Rightarrow> Inl ReadFailed
     | Some d \<Rightarrow>
         if ld_ext ld path \<in> set [''.yaml'', ''.yml''] then (case ld_yaml ld d of None \<Rightarrow> Inl ParseFailed | Some c \<Rightarrow> Inr c)
         else if ld_ext ld path = ''.json'' then (case ld_json ld d of None \<Rightarrow> Inl ParseFailed | Some c \<Rightarrow> Inr c)
         else Inl (UnsupportedFormat (ld_ext ld path)))"

definition LoadConfigWithDefaults :: "'d loader \<Rightarrow> string \<Rightarrow> load_error + Config" where
  "LoadConfigWithDefaults ld path = map_sum id applyDefaults (LoadConfig ld path)"

definition LoadOrDefault :: "'d loader \<Rightarrow> string \<Rightarrow> load_error + Config" where
  "LoadOrDefault ld path = (if ld_not_exist ld path then Inr DefaultConfig else LoadConfigWithDefaults ld path)"

definition with_env :: "'d loader \<Rightarrow> load_error + Config \<Rightarrow> load_error + Config" where
  "with_env ld r =
    (case r of
       Inl e \<Rightarrow> Inl e
     | Inr c \<Rightarrow> (case ApplyEnvOverrides (ld_duration ld) (ld_float ld) (ld_env ld) c of
         (Some var, _) \<Rightarrow> Inl (EnvInvalid var)
       | (None, c') \<Rightarrow> Inr c'))"

definition LoadConfigWithEnv :: "'d loader \<Rightarrow> string \<Rightarrow> load_error + Config" where
  "LoadConfigWithEnv ld path = with_env ld (LoadConfigWithDefaults ld path)"

definition LoadOrDefaultWithEnv :: "'d loader \<Rightarrow> string \<Rightarrow> load_error + Config" where
  "LoadOrDefaultWithEnv ld path = with_env ld (LoadOrDefault ld path)"

definition ValidateAndLoad :: "'d loader \<Rightarrow> string \<Rightarrow> load_error + Config" where
  "ValidateAndLoad ld path =
    (case LoadConfigWithEnv ld path of
       Inl e \<Rightarrow> Inl e
     | Inr c \<Rightarrow> (case Validate (ld_fs ld) c of Some es \<Rightarrow> Inl (Rejected es) | None \<Rightarrow> Inr c))"

section \<open>Round trip of versions\<close>

lemma digit_value_char: "d < 10 \<Longrightarrow> digit_value (digit_char d) = Some d"
  by (simp add: digit_value_def digit_char_def Let_def take_bit_nat_eq_self)

lemma digits_value_append:
  "digits_value (a @ b) acc = (case digits_value a acc of None \<Rightarrow> None | Some n \<Rightarrow> digits_value b n)"
  by (induction a arbitrary: acc) (simp_all split: option.split)

lemma digits_value_show: "digits_value (show_nat n) 0 = Some n"
proof (induction n rule: show_nat.induct)
  case (1 n)
  then show ?case
    by (cases "n < 10") (simp_all add: show_nat.simps [of n] digit_value_char digits_value_append)
qed

lemma show_nat_digits: "c \<in> set (show_nat n) \<Longrightarrow> digit_value c \<noteq> None"
proof (induction n rule: show_nat.induct)
  case (1 n)
  then show ?case by (cases "n < 10") (auto simp: show_nat.simps [of n] digit_value_char)
qed

lemma show_nat_first: "\<exists>c cs. show_nat n = c # cs \<and> digit_value c \<noteq> None"
  using show_nat_not_Nil [of n] show_nat_digits [of _ n] by (metis list.exhaust list.set_intros(1))

lemma not_digits: "digit_value (CHR ''-'') = None" "digit_value (CHR ''+'') = None" "digit_value (CHR ''.'') = None" "digit_value (CHR ''v'') = None"
  by (simp_all add: digit_value_def)

lemma Atoi_show:
  assumes "min_duration \<le> i" "i \<le> max_duration"
  shows "Atoi (show_int i) = Some i"
proof (cases "i < 0")
  case True
  then show ?thesis using assms by (simp add: Atoi_def show_int_def unsigned_value_def digits_value_show)
next
  case False
  obtain c cs where c: "show_nat (nat i) = c # cs" "digit_value c \<noteq> None" using show_nat_first by blast
  then have "c \<noteq> CHR ''-''" "c \<noteq> CHR ''+''" using not_digits by auto
  moreover have "digits_value (c # cs) 0 = Some (nat i)" using digits_value_show [of "nat i"] c(1) by simp
  ultimately show ?thesis
    using False assms c(1) by (simp add: Atoi_def unsigned_value_def show_int_def del: digits_value.simps)
qed

lemma split_on_none: "sep \<notin> set s \<Longrightarrow> split_on sep s = [s]"
  by (induction s) auto

lemma split_on_one: "sep \<notin> set a \<Longrightarrow> sep \<notin> set b \<Longrightarrow> split_on sep (a @ sep # b) = [a, b]"
  by (induction a) (auto simp: split_on_none)

lemma show_int_chars: "CHR ''.'' \<notin> set (show_int i)" "\<exists>c cs. show_int i = c # cs \<and> c \<noteq> CHR ''v''"
  using show_nat_digits [of "CHR ''.''"] show_nat_first [of "nat i"] not_digits by (auto simp: show_int_def)

text \<open>Parsing the printed form of a configuration version gives the version back, for all components that fit into
  an \<open>int\<close>, a minor version of zero being printed without it.\<close>

theorem version_roundtrip:
  assumes "min_duration \<le> ver_Major v" "ver_Major v \<le> max_duration" "min_duration \<le> ver_Minor v" "ver_Minor v \<le> max_duration"
  shows "ParseVersion (ConfigVersion_String v) = Some v"
  using assms
  by (cases "ver_Minor v = 0")
    (simp_all add: ParseVersion_def ConfigVersion_String_def split_on_none split_on_one show_int_chars Atoi_show)

theorem version_roundtrip_witness:
  "ParseVersion (ConfigVersion_String \<lparr>ver_Major = 2, ver_Minor = 1\<rparr>) = Some \<lparr>ver_Major = 2, ver_Minor = 1\<rparr>"
  by (rule version_roundtrip) (simp_all add: min_duration_def max_duration_def)

section \<open>Versions, defaults and presets\<close>

lemma current_version: "GetCurrentVersion = \<lparr>ver_Major = 1, ver_Minor = 0\<rparr>"
  by (simp add: GetCurrentVersion_def CurrentConfigVersion_def ParseVersion_def Atoi_def unsigned_value_def digit_value_def
      min_duration_def max_duration_def)

text \<open>The two tests of the version disagree: \<open>ValidateVersion\<close> accepts any spelling of version 1.0, \<open>Validate\<close> only
  \<open>v1\<close>.\<close>

theorem version_checks_disagree:
  "ValidateVersion (DefaultConfig\<lparr>cfg_Version := ''v1.0''\<rparr>) = None \<and> Validate fs (DefaultConfig\<lparr>cfg_Version := ''v1.0''\<rparr>) \<noteq> None"
proof -
  have "ParseVersion ''v1.0'' = Some \<lparr>ver_Major = 1, ver_Minor = 0\<rparr>"
    by (simp add: ParseVersion_def Atoi_def unsigned_value_def digit_value_def min_duration_def max_duration_def)
  then show ?thesis
    by (simp add: ValidateVersion_def current_version IsCompatible_def IsNewerThan_def Validate_None CurrentConfigVersion_def)
qed

lemma section_defaults_idem:
  "defaults_app (defaults_app a) = defaults_app a" "defaults_en (defaults_en e) = defaults_en e"
  "defaults_er (defaults_er r) = defaults_er r" "defaults_st (defaults_st s) = defaults_st s" "defaults_me (defaults_me m) = defaults_me m"
  "defaults_lo (defaults_lo l) = defaults_lo l" "defaults_sec (defaults_sec c) = defaults_sec c"
  by (simp_all add: defaults_app_def defaults_en_def defaults_er_def defaults_st_def defaults_me_def defaults_lo_def defaults_sec_def)

lemma applyDefaults_idem: "applyDefaults (applyDefaults c) = applyDefaults c"
  by (simp add: applyDefaults_def section_defaults_idem DefaultConfig_def CurrentConfigVersion_def)

text \<open>The three presets are valid.\<close>

lemma checks_pass_simps:
  "each f [] = []" "one_of v (x # xs) \<longleftrightarrow> v = x \<or> one_of v xs" "\<not> one_of v []"
  by (auto simp: each_def one_of_def)

lemmas valid_lists = valid_envs_def valid_strategies_def valid_dlq_types_def valid_backends_def valid_levels_def valid_formats_def
  valid_outputs_def valid_auth_types_def

lemmas check_defs = all_checks_def application_checks_def engine_checks_def error_checks_def state_checks_def metrics_checks_def
  logging_checks_def security_checks_def tls_checks_def

lemma presets_valid: "Validate fs DefaultConfig = None" "Validate fs ProductionConfig = None" "Validate fs DevelopmentConfig = None"
  unfolding Validate_None
  by (simp_all add: check_defs default_defs ProductionConfig_def DevelopmentConfig_def checks_pass_simps valid_lists gotime Let_def)

end
