(* ===== verification/Config_Reload.thy ===== *)
theory Config_Reload
  imports Config_Loading
begin

text \<open>
  Hot reload of the configuration, \<open>pkg/config/reload.go\<close>. \<open>checkAndReload\<close> runs in the watch loop and in every call of
  \<open>Reload\<close>, possibly at the same time, and holds the lock only while it reads the last modification time and while it
  stores the result. It is therefore split in two: \<open>reload_prepare\<close>, everything up to the callbacks, and
  \<open>reload_commit\<close>, the final store. The step relation interleaves any number of prepared reloads. What the loader
  sees (file, environment, file system) may be different at every call.
\<close>

section \<open>State and operations\<close>

record CriticalSettings =
  crit_Version :: string
  crit_ApplicationName :: string
  crit_BufferSize :: int
  crit_MaxConcurrency :: int
  crit_CheckpointDir :: string
  crit_StateBackend :: string
  crit_RocksDBPath :: string

record 'e ReloadableConfig =
  rc_config :: Config
  rc_path :: string
  rc_lastMod :: gtime
  rc_interval :: duration
  rc_onReload :: "(Config \<Rightarrow> Config \<Rightarrow> 'e option) list"
  rc_criticalSettings :: CriticalSettings

datatype 'e reload_error = LoadFailed load_error | StatFailed | CriticalChanged string | CallbackFailed 'e

definition critical_of :: "Config \<Rightarrow> CriticalSettings" where
  "critical_of c = \<lparr>crit_Version = cfg_Version c, crit_ApplicationName = app_Name (cfg_Application c),
     crit_BufferSize = en_BufferSize (cfg_Engine c), crit_MaxConcurrency = en_MaxConcurrency (cfg_Engine c),
     crit_CheckpointDir = en_CheckpointDir (cfg_Engine c), crit_StateBackend = st_Backend (cfg_State c),
     crit_RocksDBPath = rk_Path (st_RocksDB (cfg_State c))\<rparr>"

text \<open>\<open>mtime\<close> is the modification time that \<open>os.Stat\<close> reports, if it succeeds.\<close>

definition NewReloadableConfig :: "'d loader \<Rightarrow> gtime option \<Rightarrow> string \<Rightarrow> 'e reload_error + 'e ReloadableConfig" where
  "NewReloadableConfig ld mtime path =
    (case ValidateAndLoad ld path of
       Inl e \<Rightarrow> Inl (LoadFailed e)
     | Inr c \<Rightarrow>
         (case mtime of
            None \<Rightarrow> Inl StatFailed
          | Some t \<Rightarrow> Inr \<lparr>rc_config = c, rc_path = path, rc_lastMod = t, rc_interval = 10 * second, rc_onReload = [],
              rc_criticalSettings = critical_of c\<rparr>))"

definition rc_Get :: "'e ReloadableConfig \<Rightarrow> Config" where
  "rc_Get rc = copyConfig (rc_config rc)"

definition OnReload :: "(Config \<Rightarrow> Config \<Rightarrow> 'e option) \<Rightarrow> 'e ReloadableConfig \<Rightarrow> 'e ReloadableConfig" where
  "OnReload callback rc = rc\<lparr>rc_onReload := rc_onReload rc @ [callback]\<rparr>"

definition SetReloadInterval :: "duration \<Rightarrow> 'e ReloadableConfig \<Rightarrow> 'e ReloadableConfig" where
  "SetReloadInterval d rc = rc\<lparr>rc_interval := d\<rparr>"

definition validateCriticalSettings :: "CriticalSettings \<Rightarrow> Config \<Rightarrow> string option" where
  "validateCriticalSettings cs new =
    (if cfg_Version new \<noteq> crit_Version cs then Some ''version''
     else if app_Name (cfg_Application new) \<noteq> crit_ApplicationName cs then Some ''application name''
     else if en_BufferSize (cfg_Engine new) \<noteq> crit_BufferSize cs then Some ''buffer size''
     else if en_MaxConcurrency (cfg_Engine new) \<noteq> crit_MaxConcurrency cs then Some ''max concurrency''
     else if en_CheckpointDir (cfg_Engine new) \<noteq> crit_CheckpointDir cs then Some ''checkpoint directory''
     else if st_Backend (cfg_State new) \<noteq> crit_StateBackend cs then Some ''state backend''
     else if st_Backend (cfg_State new) = ''rocksdb'' \<and> rk_Path (st_RocksDB (cfg_State new)) \<noteq> crit_RocksDBPath cs then Some ''RocksDB path''
     else None)"

fun run_callbacks :: "(Config \<Rightarrow> Config \<Rightarrow> 'e option) list \<Rightarrow> Config \<Rightarrow> Config \<Rightarrow> 'e option" where
  "run_callbacks [] old new = None"
| "run_callbacks (cb # cbs) old new = (case cb old new of Some e \<Rightarrow> Some e | None \<Rightarrow> run_callbacks cbs old new)"

definition reload_prepare :: "'d loader \<Rightarrow> gtime option \<Rightarrow> 'e ReloadableConfig \<Rightarrow> 'e reload_error + (Config \<times> gtime) option" where
  "reload_prepare ld mtime rc =
    (case mtime of
       None \<Rightarrow> Inl StatFailed
     | Some t \<Rightarrow>
         if \<not> time_After t (rc_lastMod rc) then Inr None
         else (case ValidateAndLoad ld (rc_path rc) of
             Inl e \<Rightarrow> Inl (LoadFailed e)
           | Inr new \<Rightarrow>
               (case validateCriticalSettings (rc_criticalSettings rc) new of
                  Some what \<Rightarrow> Inl (CriticalChanged what)
                | None \<Rightarrow>
                    (case run_callbacks (rc_onReload rc) (rc_config rc) new of
                       Some e \<Rightarrow> Inl (CallbackFailed e)
                     | None \<Rightarrow> Inr (Some (new, t))))))"

definition reload_commit :: "Config \<times> gtime \<Rightarrow> 'e ReloadableConfig \<Rightarrow> 'e ReloadableConfig" where
  "reload_commit = (\<lambda>(new, t) rc. rc\<lparr>rc_config := new, rc_lastMod := t\<rparr>)"

definition checkAndReload :: "'d loader \<Rightarrow> gtime option \<Rightarrow> 'e ReloadableConfig \<Rightarrow> 'e reload_error option \<times> 'e ReloadableConfig" where
  "checkAndReload ld mtime rc =
    (case reload_prepare ld mtime rc of
       Inl e \<Rightarrow> (Some e, rc)
     | Inr None \<Rightarrow> (None, rc)
     | Inr (Some new) \<Rightarrow> (None, reload_commit new rc))"

section \<open>Concurrent reloads\<close>

text \<open>The state and the reloads that are prepared but not yet stored.\<close>

record 'e reload_state =
  rs_rc :: "'e ReloadableConfig"
  rs_pending :: "(Config \<times> gtime) list"

inductive reload_step :: "'e reload_state \<Rightarrow> 'e reload_state \<Rightarrow> bool" where
  prepare: "reload_prepare (ld :: nat loader) mtime (rs_rc s) = Inr (Some new) \<Longrightarrow>
    reload_step s (s\<lparr>rs_pending := new # rs_pending s\<rparr>)"
| commit: "new \<in> set (rs_pending s) \<Longrightarrow>
    reload_step s (s\<lparr>rs_rc := reload_commit new (rs_rc s), rs_pending := remove1 new (rs_pending s)\<rparr>)"
| register: "reload_step s (s\<lparr>rs_rc := OnReload cb (rs_rc s)\<rparr>)"
| interval: "reload_step s (s\<lparr>rs_rc := SetReloadInterval d (rs_rc s)\<rparr>)"

definition reload_init :: "Config \<Rightarrow> 'e reload_state \<Rightarrow> bool" where
  "reload_init c0 s \<longleftrightarrow> rs_pending s = [] \<and> rc_config (rs_rc s) = c0 \<and>
    (\<exists>(ld :: nat loader) t path. NewReloadableConfig ld (Some t) path = Inr (rs_rc s))"

text \<open>A configuration that was valid when it was loaded and keeps the critical settings of \<open>c0\<close>.\<close>

definition keeps_critical :: "Config \<Rightarrow> Config \<Rightarrow> bool" where
  "keeps_critical c0 c \<longleftrightarrow> (\<exists>fs. Validate fs c = None) \<and> cfg_Version c = cfg_Version c0 \<and>
    app_Name (cfg_Application c) = app_Name (cfg_Application c0) \<and> en_BufferSize (cfg_Engine c) = en_BufferSize (cfg_Engine c0) \<and>
    en_MaxConcurrency (cfg_Engine c) = en_MaxConcurrency (cfg_Engine c0) \<and> en_CheckpointDir (cfg_Engine c) = en_CheckpointDir (cfg_Engine c0) \<and>
    st_Backend (cfg_State c) = st_Backend (cfg_State c0) \<and>
    (st_Backend (cfg_State c) = ''rocksdb'' \<longrightarrow> rk_Path (st_RocksDB (cfg_State c)) = rk_Path (st_RocksDB (cfg_State c0)))"

lemma ValidateAndLoad_valid: "ValidateAndLoad ld path = Inr c \<Longrightarrow> Validate (ld_fs ld) c = None"
  by (auto simp: ValidateAndLoad_def split: sum.splits option.splits)

lemma NewReloadable_Inr:
  "NewReloadableConfig ld mtime path = Inr rc \<Longrightarrow>
    ValidateAndLoad ld path = Inr (rc_config rc) \<and> rc_criticalSettings rc = critical_of (rc_config rc)"
  by (auto simp: NewReloadableConfig_def split: sum.splits option.splits)

lemma validateCritical_None:
  assumes "validateCriticalSettings (critical_of c0) c = None" "Validate fs c = None"
  shows "keeps_critical c0 c"
  using assms unfolding keeps_critical_def by (auto simp: validateCriticalSettings_def critical_of_def split: if_splits)

lemma prepare_keeps:
  assumes "reload_prepare ld mtime rc = Inr (Some (c, t))" "rc_criticalSettings rc = critical_of c0"
  shows "keeps_critical c0 c"
  using assms by (auto simp: reload_prepare_def split: option.splits if_splits sum.splits intro: validateCritical_None dest: ValidateAndLoad_valid)

definition reload_inv :: "Config \<Rightarrow> 'e reload_state \<Rightarrow> bool" where
  "reload_inv c0 s \<longleftrightarrow> rc_criticalSettings (rs_rc s) = critical_of c0 \<and> keeps_critical c0 (rc_config (rs_rc s)) \<and>
    (\<forall>(c, t) \<in> set (rs_pending s). keeps_critical c0 c)"

interpretation reloads: stepping "reload_init c0" reload_step "reload_inv c0" for c0
proof unfold_locales
  fix s :: "'a reload_state"
  assume "reload_init c0 s"
  then obtain ld :: "nat loader" and t path where new: "NewReloadableConfig ld (Some t) path = Inr (rs_rc s)"
    and c0: "rc_config (rs_rc s) = c0" "rs_pending s = []" by (auto simp: reload_init_def)
  then have "ValidateAndLoad ld path = Inr c0" "rc_criticalSettings (rs_rc s) = critical_of c0"
    using NewReloadable_Inr [OF new] by simp_all
  then show "reload_inv c0 s" using c0 ValidateAndLoad_valid [of ld path c0] by (auto simp: reload_inv_def keeps_critical_def)
next
  fix s t :: "'a reload_state"
  assume "reload_inv c0 s" "reload_step s t"
  then show "reload_inv c0 t"
    by (fastforce simp: reload_inv_def reload_commit_def OnReload_def SetReloadInterval_def elim!: reload_step.cases
        dest: prepare_keeps set_remove1_subset [THEN subsetD])
qed

text \<open>C19: Hot reload is safe under any interleaving of watch loop and manual reloads: at all times the current
  configuration, and every configuration about to be stored, is one that passed validation when it was loaded and
  that has the version, application name, buffer size, concurrency, checkpoint directory and state backend (for
  RocksDB also the path) of the configuration the process started with.\<close>

theorem reload_keeps_critical_settings:
  assumes "reach (reload_init c0) reload_step s"
  shows "keeps_critical c0 (rc_config (rs_rc s)) \<and> list_all (keeps_critical c0 \<circ> fst) (rs_pending s)"
  using reloads.inv_reach [OF assms] by (auto simp: reload_inv_def list_all_iff)

definition example_loader :: "nat loader" where
  "example_loader = \<lparr>ld_read = (\<lambda>_. Some 0), ld_not_exist = (\<lambda>_. False), ld_ext = (\<lambda>_. ''.json''), ld_yaml = (\<lambda>_. None),
     ld_json = (\<lambda>_. Some DefaultConfig), ld_duration = (\<lambda>_. None), ld_float = (\<lambda>_. None), ld_env = (\<lambda>_. []),
     ld_fs = \<lparr>fs_stat = (\<lambda>_. True), fs_home = None, fs_join = (@)\<rparr>\<rparr>"

lemma example_load: "ValidateAndLoad example_loader path = Inr DefaultConfig"
proof -
  have "applyDefaults DefaultConfig = DefaultConfig"
    by (simp add: applyDefaults_def default_defs defaults_app_def defaults_en_def defaults_er_def defaults_st_def
        defaults_me_def defaults_lo_def defaults_sec_def gotime)
  then show ?thesis by (simp add: ValidateAndLoad_def LoadConfigWithEnv_def LoadConfigWithDefaults_def LoadConfig_def
    with_env_def example_loader_def ApplyEnvOverrides_def override_def presets_valid)
qed

theorem reload_keeps_critical_settings_witness:
  "\<exists>s :: nat reload_state. rs_pending s = [(DefaultConfig, 7)] \<and> keeps_critical DefaultConfig (rc_config (rs_rc s)) \<and>
     list_all (keeps_critical DefaultConfig \<circ> fst) (rs_pending s)"
proof -
  define rc :: "nat ReloadableConfig" where "rc = \<lparr>rc_config = DefaultConfig, rc_path = ''c.json'', rc_lastMod = 5, rc_interval = 10 * second,
    rc_onReload = [], rc_criticalSettings = critical_of DefaultConfig\<rparr>"
  let ?s = "\<lparr>rs_rc = rc, rs_pending = []\<rparr>"
  have "NewReloadableConfig example_loader (Some 5) ''c.json'' = (Inr rc :: nat reload_error + _)"
    by (simp add: NewReloadableConfig_def example_load rc_def)
  then have "reload_init DefaultConfig ?s" unfolding reload_init_def by (auto simp: rc_def)
  moreover have "reload_prepare example_loader (Some 7) rc = Inr (Some (DefaultConfig, 7))"
    by (simp add: reload_prepare_def example_load rc_def gotime validateCriticalSettings_def critical_of_def)
  then have "reload_step ?s (?s\<lparr>rs_pending := [(DefaultConfig, 7)]\<rparr>)"
    using reload_step.prepare [of example_loader "Some 7" ?s "(DefaultConfig, 7)"] by simp
  ultimately have "reach (reload_init DefaultConfig) reload_step (?s\<lparr>rs_pending := [(DefaultConfig, 7)]\<rparr>)"
    by (blast intro: reach.intros)
  from reload_keeps_critical_settings [OF this] show ?thesis
    by (intro exI [of _ "?s\<lparr>rs_pending := [(DefaultConfig, 7)]\<rparr>"]) simp
qed

definition HotReloadableSettings :: "string list" where
  "HotReloadableSettings = [''engine.checkpoint_interval'', ''engine.watermark_interval'', ''engine.metrics_interval'',
     ''engine.enable_backpressure'', ''engine.backpressure_threshold'', ''error_handling.strategy'', ''error_handling.enable_retry'',
     ''error_handling.max_retry_attempts'', ''error_handling.initial_backoff'', ''error_handling.max_backoff'',
     ''error_handling.backoff_multiplier'', ''error_handling.backoff_jitter'', ''error_handling.enable_circuit_breaker'',
     ''error_handling.circuit_breaker.*'', ''metrics.enabled'', ''metrics.address'', ''logging.level'', ''logging.format'']"

definition CriticalSettingsList :: "string list" where
  "CriticalSettingsList = [''version'', ''application.name'', ''engine.buffer_size'', ''engine.max_concurrency'',
     ''engine.checkpoint_dir'', ''state.backend'', ''state.rocksdb.path'', ''sources.*'', ''sinks.*'']"

text \<open>Sources and sinks are listed as settings that need a restart, but a reload that changes all of them passes the
  check.\<close>

lemma sources_not_critical:
  "set [''sources.*'', ''sinks.*''] \<subseteq> set CriticalSettingsList \<and>
   validateCriticalSettings (critical_of c) (c\<lparr>cfg_Sources := s, cfg_Sinks := k\<rparr>) = None"
  by (simp add: CriticalSettingsList_def validateCriticalSettings_def critical_of_def)

text \<open>The order of the stores is not controlled: of two reloads prepared at the same time the older file contents can
  be stored last, and the modification time then goes back.\<close>

theorem stale_reload_wins:
  "reload_step\<^sup>*\<^sup>* \<lparr>rs_rc = rc, rs_pending = [(c2, 2), (c1, 1)]\<rparr> \<lparr>rs_rc = reload_commit (c1, 1) (reload_commit (c2, 2) rc), rs_pending = []\<rparr> \<and>
   rc_config (reload_commit (c1, 1) (reload_commit (c2, 2) rc)) = c1 \<and> rc_lastMod (reload_commit (c1, 1) (reload_commit (c2, 2) rc)) = 1"
proof -
  let ?s = "\<lparr>rs_rc = rc, rs_pending = [(c2, 2), (c1, 1)]\<rparr>"
  have "reload_step ?s \<lparr>rs_rc = reload_commit (c2, 2) rc, rs_pending = [(c1, 1)]\<rparr>" using reload_step.commit [of "(c2, 2)" ?s] by simp
  moreover have "reload_step \<lparr>rs_rc = reload_commit (c2, 2) rc, rs_pending = [(c1, 1)]\<rparr>
      \<lparr>rs_rc = reload_commit (c1, 1) (reload_commit (c2, 2) rc), rs_pending = []\<rparr>"
    using reload_step.commit [of "(c1, 1)" "\<lparr>rs_rc = reload_commit (c2, 2) rc, rs_pending = [(c1, 1)]\<rparr>"] by simp
  ultimately show ?thesis by (auto simp: reload_commit_def)
qed

end
