(* ===== verification/Config_Adapter.thy ===== *)
theory Config_Adapter
  imports Config_Loading Error_Handling Engine
begin

text \<open>
  From the configuration file to the running components: \<open>pkg/stream/config_adapter.go\<close> and
  \<open>pkg/stream/error_config.go\<close>. A validated configuration gives an engine configuration, a retry policy, a dead letter
  queue, a side output collector and a breaker configuration; the theorem at the end says what validation guarantees
  about each of them.
\<close>

section \<open>Error handling of the engine\<close>

datatype ErrorHandlingStrategy = FailFast | RetryWithBackoff | SendToDLQ | RetryThenDLQ

record 'v OperatorErrorConfig =
  oe_Strategy :: "ErrorHandlingStrategy option"
  oe_RetryPolicy :: "RetryPolicy option"
  oe_EnableDLQ :: bool
  oe_DLQ :: "'v DeadLetterQueue option"
  oe_EnableSideOutputs :: bool
  oe_CircuitBreakerConfig :: "CircuitBreakerConfig option"

record 'v EngineErrorConfig =
  ee_Strategy :: ErrorHandlingStrategy
  ee_EnableRetry :: bool
  ee_MaxRetryAttempts :: int
  ee_InitialBackoff :: duration
  ee_MaxBackoff :: duration
  ee_BackoffMultiplier :: rat
  ee_BackoffJitter :: rat
  ee_EnableDLQ :: bool
  ee_DLQMaxSize :: int
  ee_DLQType :: string
  ee_DLQDirectory :: string
  ee_DLQKafkaTopic :: string
  ee_DLQKafkaBrokers :: "string list"
  ee_EnableCircuitBreaker :: bool
  ee_CircuitBreakerThreshold :: u32
  ee_CircuitBreakerTimeout :: duration
  ee_CircuitBreakerSuccessCount :: u32
  ee_EnableSideOutputs :: bool
  ee_EnableErrorSideOutput :: bool
  ee_EnableLateSideOutput :: bool
  ee_EnableFilteredSideOutput :: bool
  ee_SideOutputBufferSize :: int
  ee_OperatorConfigs :: "string \<rightharpoonup> 'v OperatorErrorConfig"

definition DefaultEngineErrorConfig :: "'v EngineErrorConfig" where
  "DefaultEngineErrorConfig =
    \<lparr>ee_Strategy = RetryThenDLQ, ee_EnableRetry = True, ee_MaxRetryAttempts = 3, ee_InitialBackoff = 100 * millisecond,
     ee_MaxBackoff = 30 * second, ee_BackoffMultiplier = 2, ee_BackoffJitter = 1 / 10, ee_EnableDLQ = True, ee_DLQMaxSize = 10000,
     ee_DLQType = ''memory'', ee_DLQDirectory = [], ee_DLQKafkaTopic = [], ee_DLQKafkaBrokers = [], ee_EnableCircuitBreaker = True,
     ee_CircuitBreakerThreshold = 5, ee_CircuitBreakerTimeout = 60 * second, ee_CircuitBreakerSuccessCount = 2,
     ee_EnableSideOutputs = True, ee_EnableErrorSideOutput = True, ee_EnableLateSideOutput = False, ee_EnableFilteredSideOutput = False,
     ee_SideOutputBufferSize = 1000, ee_OperatorConfigs = Map.empty\<rparr>"

definition ProductionEngineErrorConfig :: "'v EngineErrorConfig" where
  "ProductionEngineErrorConfig =
    \<lparr>ee_Strategy = RetryThenDLQ, ee_EnableRetry = True, ee_MaxRetryAttempts = 5, ee_InitialBackoff = 200 * millisecond,
     ee_MaxBackoff = 60 * second, ee_BackoffMultiplier = 2, ee_BackoffJitter = 2 / 10, ee_EnableDLQ = True, ee_DLQMaxSize = 100000,
     ee_DLQType = ''kafka'', ee_DLQDirectory = [], ee_DLQKafkaTopic = ''gress-dlq'', ee_DLQKafkaBrokers = [], ee_EnableCircuitBreaker = True,
     ee_CircuitBreakerThreshold = 10, ee_CircuitBreakerTimeout = 120 * second, ee_CircuitBreakerSuccessCount = 3,
     ee_EnableSideOutputs = True, ee_EnableErrorSideOutput = True, ee_EnableLateSideOutput = True, ee_EnableFilteredSideOutput = False,
     ee_SideOutputBufferSize = 5000, ee_OperatorConfigs = Map.empty\<rparr>"

definition DevelopmentEngineErrorConfig :: "'v EngineErrorConfig" where
  "DevelopmentEngineErrorConfig =
    \<lparr>ee_Strategy = FailFast, ee_EnableRetry = False, ee_MaxRetryAttempts = 0, ee_InitialBackoff = 0,
     ee_MaxBackoff = 0, ee_BackoffMultiplier = 0, ee_BackoffJitter = 0, ee_EnableDLQ = False, ee_DLQMaxSize = 0,
     ee_DLQType = [], ee_DLQDirectory = [], ee_DLQKafkaTopic = [], ee_DLQKafkaBrokers = [], ee_EnableCircuitBreaker = False,
     ee_CircuitBreakerThreshold = 0, ee_CircuitBreakerTimeout = 0, ee_CircuitBreakerSuccessCount = 0,
     ee_EnableSideOutputs = True, ee_EnableErrorSideOutput = True, ee_EnableLateSideOutput = False, ee_EnableFilteredSideOutput = True,
     ee_SideOutputBufferSize = 100, ee_OperatorConfigs = Map.empty\<rparr>"

definition CreateRetryPolicy :: "'v EngineErrorConfig \<Rightarrow> RetryPolicy" where
  "CreateRetryPolicy c =
    (if \<not> ee_EnableRetry c then NoRetryPolicy
     else \<lparr>MaxAttempts = ee_MaxRetryAttempts c, InitialBackoff = ee_InitialBackoff c, MaxBackoff = ee_MaxBackoff c,
       BackoffMultiplier = ee_BackoffMultiplier c, Jitter = ee_BackoffJitter c, RetriableFunc = Some IsRetriable\<rparr>)"

text \<open>\<open>NewFileDLQ\<close> never fails; the type \<open>kafka\<close> and unknown types fall back to memory.\<close>

definition CreateDLQ :: "'v EngineErrorConfig \<Rightarrow> 'v DeadLetterQueue" where
  "CreateDLQ c =
    (if \<not> ee_EnableDLQ c then Null
     else if ee_DLQType c = ''memory'' then Mem (NewInMemoryDLQ (ee_DLQMaxSize c))
     else if ee_DLQType c = ''file'' then File (NewFileDLQ (ee_DLQDirectory c))
     else if ee_DLQType c = ''kafka'' then Mem (NewInMemoryDLQ (ee_DLQMaxSize c))
     else Mem (NewInMemoryDLQ (ee_DLQMaxSize c)))"

text \<open>Making a channel with a negative size panics: the result is \<open>None\<close>.\<close>

definition eec_CreateSideOutputCollector :: "'v EngineErrorConfig \<Rightarrow> 'v SideOutputCollector option" where
  "eec_CreateSideOutputCollector c =
    (if \<not> ee_EnableSideOutputs c then Some NewSideOutputCollector
     else if ee_SideOutputBufferSize c < 0 \<and> (ee_EnableErrorSideOutput c \<or> ee_EnableLateSideOutput c \<or> ee_EnableFilteredSideOutput c) then None
     else Some (CreateSideOutputCollector
       \<lparr>EnableErrorSideOutput = ee_EnableErrorSideOutput c, EnableLateSideOutput = ee_EnableLateSideOutput c,
        EnableFilteredSideOutput = ee_EnableFilteredSideOutput c, ErrorChannelSize = nat (ee_SideOutputBufferSize c),
        LateChannelSize = nat (ee_SideOutputBufferSize c), FilteredChannelSize = nat (ee_SideOutputBufferSize c)\<rparr>))"

definition CreateCircuitBreakerConfig :: "string \<Rightarrow> 'v EngineErrorConfig \<Rightarrow> CircuitBreakerConfig" where
  "CreateCircuitBreakerConfig name c =
    (if \<not> ee_EnableCircuitBreaker c
     then \<lparr>cfg_Name = name, FailureThreshold = 999999, SuccessThreshold = 0, cfg_Timeout = 0, MaxConcurrentRequests = 0, has_OnStateChange = False\<rparr>
     else \<lparr>cfg_Name = name, FailureThreshold = ee_CircuitBreakerThreshold c, SuccessThreshold = ee_CircuitBreakerSuccessCount c,
       cfg_Timeout = ee_CircuitBreakerTimeout c, MaxConcurrentRequests = 1, has_OnStateChange = False\<rparr>)"

definition GetOperatorConfig :: "string \<Rightarrow> 'v EngineErrorConfig \<Rightarrow> 'v OperatorErrorConfig" where
  "GetOperatorConfig operatorName c =
    (case ee_OperatorConfigs c operatorName of
       Some oc \<Rightarrow> oc
     | None \<Rightarrow> \<lparr>oe_Strategy = Some (ee_Strategy c), oe_RetryPolicy = Some (CreateRetryPolicy c), oe_EnableDLQ = ee_EnableDLQ c,
         oe_DLQ = None, oe_EnableSideOutputs = ee_EnableSideOutputs c, oe_CircuitBreakerConfig = None\<rparr>)"

definition SetOperatorConfig :: "string \<Rightarrow> 'v OperatorErrorConfig \<Rightarrow> 'v EngineErrorConfig \<Rightarrow> 'v EngineErrorConfig" where
  "SetOperatorConfig operatorName oc c = c\<lparr>ee_OperatorConfigs := (ee_OperatorConfigs c)(operatorName \<mapsto> oc)\<rparr>"

record 'v SinkErrorConfig =
  se_EnableRetry :: bool
  se_RetryPolicy :: RetryPolicy
  se_EnableCircuitBreaker :: bool
  se_CircuitBreakerConfig :: CircuitBreakerConfig
  se_EnableDLQ :: bool
  se_DLQ :: "'v DeadLetterQueue"

definition DefaultSinkErrorConfig :: "string \<Rightarrow> 'v SinkErrorConfig" where
  "DefaultSinkErrorConfig name =
    \<lparr>se_EnableRetry = True, se_RetryPolicy = DefaultRetryPolicy, se_EnableCircuitBreaker = True,
     se_CircuitBreakerConfig = DefaultCircuitBreakerConfig name, se_EnableDLQ = False, se_DLQ = Null\<rparr>"

datatype ErrorHandlingMode = BestEffort | AtLeastOnce | ExactlyOnce | OtherMode int

fun ErrorHandlingMode_String :: "ErrorHandlingMode \<Rightarrow> string" where
  "ErrorHandlingMode_String BestEffort = ''best-effort''"
| "ErrorHandlingMode_String AtLeastOnce = ''at-least-once''"
| "ErrorHandlingMode_String ExactlyOnce = ''exactly-once''"
| "ErrorHandlingMode_String (OtherMode n) = ''unknown''"

section \<open>Conversion of the loaded configuration\<close>

definition FromConfig :: "Config \<Rightarrow> EngineConfig" where
  "FromConfig c =
    \<lparr>BufferSize = en_BufferSize (cfg_Engine c), MaxConcurrency = en_MaxConcurrency (cfg_Engine c),
     CheckpointInterval = en_CheckpointInterval (cfg_Engine c), WatermarkInterval = en_WatermarkInterval (cfg_Engine c),
     MetricsInterval = en_MetricsInterval (cfg_Engine c), EnableBackpressure = en_EnableBackpressure (cfg_Engine c),
     BackpressureThreshold = en_BackpressureThreshold (cfg_Engine c), MetricsAddr = me_Address (cfg_Metrics c),
     EnableMetrics = me_Enabled (cfg_Metrics c)\<rparr>"

definition parse_strategy :: "string \<Rightarrow> ErrorHandlingStrategy" where
  "parse_strategy s =
    (if s = ''fail-fast'' then FailFast else if s = ''retry'' then RetryWithBackoff
     else if s = ''send-to-dlq'' then SendToDLQ else if s = ''retry-then-dlq'' then RetryThenDLQ else RetryThenDLQ)"

definition ErrorConfigFromConfig :: "Config \<Rightarrow> 'v EngineErrorConfig" where
  "ErrorConfigFromConfig c =
    (let e = cfg_ErrorHandling c in
     \<lparr>ee_Strategy = parse_strategy (er_Strategy e), ee_EnableRetry = er_EnableRetry e, ee_MaxRetryAttempts = er_MaxRetryAttempts e,
      ee_InitialBackoff = er_InitialBackoff e, ee_MaxBackoff = er_MaxBackoff e, ee_BackoffMultiplier = er_BackoffMultiplier e,
      ee_BackoffJitter = er_BackoffJitter e, ee_EnableDLQ = er_EnableDLQ e, ee_DLQMaxSize = er_DLQMaxSize e, ee_DLQType = er_DLQType e,
      ee_DLQDirectory = er_DLQDirectory e, ee_DLQKafkaTopic = er_DLQKafkaTopic e, ee_DLQKafkaBrokers = er_DLQKafkaBrokers e,
      ee_EnableCircuitBreaker = er_EnableCircuitBreaker e,
      ee_CircuitBreakerThreshold = cbc_FailureThreshold (er_CircuitBreakerConfig e),
      ee_CircuitBreakerTimeout = cbc_Timeout (er_CircuitBreakerConfig e),
      ee_CircuitBreakerSuccessCount = cbc_SuccessThreshold (er_CircuitBreakerConfig e),
      ee_EnableSideOutputs = er_EnableSideOutputs e, ee_EnableErrorSideOutput = True, ee_EnableLateSideOutput = False,
      ee_EnableFilteredSideOutput = False, ee_SideOutputBufferSize = er_SideOutputBufferSize e, ee_OperatorConfigs = Map.empty\<rparr>)"

section \<open>What validation guarantees\<close>

text \<open>The checks of the error handling section that the components depend on.\<close>

lemma accepted_settings:
  assumes "Validate fs c = None" and e: "e = cfg_ErrorHandling c"
  shows "er_EnableRetry e \<Longrightarrow> 0 < er_MaxRetryAttempts e" "er_EnableDLQ e \<Longrightarrow> 0 < er_DLQMaxSize e"
    "er_EnableCircuitBreaker e \<Longrightarrow> cbc_FailureThreshold (er_CircuitBreakerConfig e) \<noteq> 0"
    "er_EnableSideOutputs e \<Longrightarrow> 0 < er_SideOutputBufferSize e"
  using accepted_sections(2) [OF assms(1)] unfolding error_checks_def e by simp_all

lemma validated_engine:
  assumes "Validate fs c = None"
  shows "0 < BufferSize (FromConfig c)" "0 < MaxConcurrency (FromConfig c)" "0 < CheckpointInterval (FromConfig c)"
    "0 < WatermarkInterval (FromConfig c)" "0 < MetricsInterval (FromConfig c)"
    "0 \<le> BackpressureThreshold (FromConfig c)" "BackpressureThreshold (FromConfig c) \<le> 1"
  using accepted_sections(1) [OF assms] by (simp_all add: engine_checks_def FromConfig_def)

lemma validated_retry:
  assumes "Validate fs c = None"
  shows "0 \<le> MaxAttempts (CreateRetryPolicy (ErrorConfigFromConfig c))"
  using accepted_settings(1) [OF assms refl]
  by (simp add: CreateRetryPolicy_def ErrorConfigFromConfig_def NoRetryPolicy_def Let_def less_imp_le)

lemma validated_breaker:
  assumes "Validate fs c = None"
  shows "0 < FailureThreshold (CreateCircuitBreakerConfig name (ErrorConfigFromConfig c))"
  using accepted_settings(3) [OF assms refl]
  by (simp add: CreateCircuitBreakerConfig_def ErrorConfigFromConfig_def Let_def word_neq_0_conv)

lemma validated_dlq:
  assumes "Validate fs c = None" "CreateDLQ (ErrorConfigFromConfig c) = Mem q"
  shows "dlq_events q = [] \<and> 0 < maxSize q"
  using accepted_settings(2) [OF assms(1) refl] assms(2)
  by (auto simp: CreateDLQ_def ErrorConfigFromConfig_def NewInMemoryDLQ_def Let_def split: if_splits)

lemma so_inv_new: "so_inv NewSideOutputCollector"
  by (simp add: so_inv_def NewSideOutputCollector_def)

lemma validated_collector:
  assumes "Validate fs c = None"
  obtains col :: "'v SideOutputCollector" where "eec_CreateSideOutputCollector (ErrorConfigFromConfig c) = Some col" "so_inv col"
proof -
  have "eec_CreateSideOutputCollector (ErrorConfigFromConfig c) \<noteq> (None :: 'v SideOutputCollector option)"
    using accepted_settings(4) [OF assms refl] by (auto simp: eec_CreateSideOutputCollector_def ErrorConfigFromConfig_def Let_def)
  then obtain col :: "'v SideOutputCollector" where col: "eec_CreateSideOutputCollector (ErrorConfigFromConfig c) = Some col" by blast
  then have "so_inv col" by (auto simp: eec_CreateSideOutputCollector_def so_inv_new so_inv_create split: if_splits)
  with col that show thesis by blast
qed

lemma handleError_returns:
  assumes "\<forall>col. eh_SideOutputCollector c = Some col \<longrightarrow> so_inv col"
  obtains r where "handleError marshal now take_ctx event e calls c = Inr r"
proof -
  have "\<exists>r. handleError marshal now take_ctx event e calls c = Inr r"
    using assms Emit_returns [of _ take_ctx "side_output_event (eh_OperatorName c) e calls event"]
    by (fastforce simp: handleError_def Let_def split: option.split sum.split)
  with that show thesis by blast
qed

text \<open>The error handling of an operator as a configuration prescribes it.\<close>

definition configured_handling :: "string \<Rightarrow> 'v option EngineErrorConfig \<Rightarrow> 'v ErrorHandlingConfig" where
  "configured_handling name ee =
    \<lparr>eh_RetryPolicy = CreateRetryPolicy ee, eh_EnableDLQ = ee_EnableDLQ ee, eh_DLQ = Some (CreateDLQ ee),
     eh_EnableSideOutputs = ee_EnableSideOutputs ee, eh_SideOutputCollector = eec_CreateSideOutputCollector ee, eh_OperatorName = name\<rparr>"

lemma configured_returns:
  fixes proc :: "'st \<Rightarrow> (err + 'r) \<times> 'st"
  assumes "Validate fs c = None" and h: "h = configured_handling name (ErrorConfigFromConfig c)"
  shows "\<exists>n r h'. n \<le> nat (MaxAttempts (eh_RetryPolicy h)) \<and> eho_Process marshal env proc look s h = Some (Inr (r, after_calls (\<lambda>k. proc) s (Suc n), h'))"
proof -
  let ?f = "\<lambda>n :: nat. proc"
  have "0 \<le> MaxAttempts (eh_RetryPolicy h)" using validated_retry [OF assms(1)] by (simp add: h configured_handling_def)
  then obtain n tr where n: "n \<le> nat (MaxAttempts (eh_RetryPolicy h))"
    and run: "ExecuteWithCallback (eh_RetryPolicy h) True (call_error ?f s) (env_cancel env) (env_rnd env) =
      Some (outcome (eh_RetryPolicy h) (call_error ?f s) (env_cancel env) (env_rnd env) n, tr)"
    by (rule callback_bounded)
  have calls: "nat (int n + 1) = Suc n" by simp
  have "\<forall>col. eh_SideOutputCollector h = Some col \<longrightarrow> so_inv col"
    using validated_collector [OF assms(1)] by (metis ErrorHandlingConfig.select_convs(5) configured_handling_def h option.inject)
  then have "\<exists>q. handleError marshal now take_ctx event e m h = Inr q" for now take_ctx event e m
    by (metis handleError_returns)
  then have "\<exists>r h'. eho_Process marshal env proc look s h = Some (Inr (r, after_calls ?f s (Suc n), h'))"
    unfolding eho_Process_def Let_def run
    by (simp add: calls split: option.split sum.split prod.split) (metis old.sum.distinct(1) prod.exhaust)
  with n show ?thesis by blast
qed

text \<open>C18: A configuration that passes validation, and whose floating-point settings are finite numbers (the comparisons of the
  validation let NaN pass), is safe to run with in these respects: buffer, concurrency and intervals of the engine
  are positive and its backpressure threshold is a fraction; the circuit breaker does not trip without failures; if the
  dead letter queue is the in-memory one, it starts empty and with a positive size limit (nothing is said of the file and Kafka
  queues, which have none); and an operator behind the configured error handling
  always returns without a panic, whatever the operator, the events and the error do, after at most
  \<open>MaxAttempts + 1\<close> calls.\<close>

theorem validated_config_safe:
  fixes proc :: "'st \<Rightarrow> (err + 'r) \<times> 'st" and look :: "'st \<Rightarrow> 'v sevent"
  assumes "Validate fs c = None" and ee: "ee = ErrorConfigFromConfig c" and h: "h = configured_handling name ee"
  shows "0 < BufferSize (FromConfig c) \<and> 0 < MaxConcurrency (FromConfig c) \<and> 0 < CheckpointInterval (FromConfig c) \<and>
    0 < WatermarkInterval (FromConfig c) \<and> 0 < MetricsInterval (FromConfig c) \<and>
    0 \<le> BackpressureThreshold (FromConfig c) \<and> BackpressureThreshold (FromConfig c) \<le> 1 \<and>
    0 < FailureThreshold (CreateCircuitBreakerConfig name ee) \<and>
    (\<forall>q. CreateDLQ ee = Mem q \<longrightarrow> dlq_events q = [] \<and> 0 < maxSize q) \<and>
    (\<exists>n r h'. n \<le> nat (MaxAttempts (eh_RetryPolicy h)) \<and>
       eho_Process marshal env proc look s h = Some (Inr (r, after_calls (\<lambda>k. proc) s (Suc n), h')))"
  using validated_engine [OF assms(1)] validated_breaker [OF assms(1), of name] validated_dlq [OF assms(1)]
    configured_returns [OF assms(1) refl, of name marshal env proc look s]
  unfolding h ee by blast

theorem validated_config_safe_witness:
  "0 < BufferSize (FromConfig DefaultConfig) \<and>
   (\<exists>n r h'. n \<le> 3 \<and> eho_Process (\<lambda>e. Some ()) sample_env always_eof (\<lambda>s. mk_event ''k'' (Some s) 1 Map.empty) 0
     (configured_handling ''op'' (ErrorConfigFromConfig DefaultConfig)) = Some (Inr (r, after_calls (\<lambda>k. always_eof) 0 (Suc n), h')))"
proof -
  have "MaxAttempts (eh_RetryPolicy (configured_handling ''op'' (ErrorConfigFromConfig DefaultConfig) :: nat ErrorHandlingConfig)) = 3"
    by (simp add: configured_handling_def CreateRetryPolicy_def ErrorConfigFromConfig_def default_defs)
  then show ?thesis
    using validated_config_safe [OF presets_valid(1) refl refl, where name = "''op''" and marshal = "\<lambda>e. Some ()"
        and env = sample_env and proc = always_eof and look = "\<lambda>s. mk_event ''k'' (Some s) 1 Map.empty" and s = 0]
    by simp
qed

text \<open>An operator without an override gets the engine's own policy; \<open>SetOperatorConfig\<close> overrides exactly one operator.\<close>

lemma operator_override:
  "GetOperatorConfig a (SetOperatorConfig a oc c) = oc"
  "a \<noteq> b \<Longrightarrow> GetOperatorConfig b (SetOperatorConfig a oc c) = GetOperatorConfig b c"
  by (simp_all add: GetOperatorConfig_def SetOperatorConfig_def CreateRetryPolicy_def split: option.split)

end
