(* ===== verification/Schema_Registry.thy ===== *)
theory Schema_Registry
  imports Gress_Prelude
begin

text \<open>
  The schema registry client, \<open>pkg/schema/types.go\<close> and \<open>pkg/schema/registry.go\<close>: metadata of schemas, the cache with
  expiry and size limit, and the calls of the third-party client \<open>srclient\<close>. The client and the server behind it are a
  record of functions on a state of their own; what the cache relies on, that an identifier stands for one schema for
  ever, is the predicate \<open>faithful_client\<close>. The interface \<open>RegistryClient\<close> is a record of operations, as in the source,
  and the locale \<open>registry_contract\<close> says what a user of the interface may rely on.
\<close>

section \<open>Types\<close>

type_synonym SchemaType = string
type_synonym CompatibilityMode = string

definition SchemaTypeAvro :: SchemaType where "SchemaTypeAvro = ''AVRO''"
definition SchemaTypeProtobuf :: SchemaType where "SchemaTypeProtobuf = ''PROTOBUF''"
definition SchemaTypeJSON :: SchemaType where "SchemaTypeJSON = ''JSON''"

lemmas schema_types = SchemaTypeAvro_def SchemaTypeProtobuf_def SchemaTypeJSON_def

definition CompatibilityNone :: CompatibilityMode where "CompatibilityNone = ''NONE''"
definition CompatibilityBackward :: CompatibilityMode where "CompatibilityBackward = ''BACKWARD''"
definition CompatibilityBackwardTransitive :: CompatibilityMode where "CompatibilityBackwardTransitive = ''BACKWARD_TRANSITIVE''"
definition CompatibilityForward :: CompatibilityMode where "CompatibilityForward = ''FORWARD''"
definition CompatibilityForwardTransitive :: CompatibilityMode where "CompatibilityForwardTransitive = ''FORWARD_TRANSITIVE''"
definition CompatibilityFull :: CompatibilityMode where "CompatibilityFull = ''FULL''"
definition CompatibilityFullTransitive :: CompatibilityMode where "CompatibilityFullTransitive = ''FULL_TRANSITIVE''"

lemmas compat_modes = CompatibilityNone_def CompatibilityBackward_def CompatibilityBackwardTransitive_def CompatibilityForward_def
  CompatibilityForwardTransitive_def CompatibilityFull_def CompatibilityFullTransitive_def

record Reference =
  ref_Name :: string
  ref_Subject :: string
  ref_Version :: int

record Metadata =
  meta_Tags :: "string \<rightharpoonup> string"
  meta_Properties :: "string \<rightharpoonup> string"
  meta_Sensitive :: "string list"

record Rule =
  rule_Name :: string
  rule_Doc :: string
  rule_Kind :: string
  rule_Mode :: string
  rule_Type :: string
  rule_Tags :: "string list"
  rule_Params :: "string \<rightharpoonup> string"
  rule_Expr :: string
  rule_OnSuccess :: string
  rule_OnFailure :: string
  rule_Disabled :: bool

record RuleSet =
  MigrationRules :: "Rule list"
  DomainRules :: "Rule list"

record SchemaMetadata =
  md_ID :: int
  md_Version :: int
  md_Schema :: string
  md_Subject :: string
  md_SchemaType :: SchemaType
  md_References :: "Reference list"
  md_Metadata :: "Metadata option"
  md_RuleSet :: "RuleSet option"

record RegistryConfig =
  RegistryURL :: string
  Username :: string
  Password :: string
  rg_Timeout :: duration
  CacheEnabled :: bool
  CacheSize :: int
  CacheTTL :: duration
  TLSEnabled :: bool
  TLSCertPath :: string
  TLSKeyPath :: string
  TLSCAPath :: string
  TLSSkipVerify :: bool

record SchemaConfig =
  sc_Subject :: string
  sc_SchemaType :: SchemaType
  sc_Version :: int
  sc_AutoRegister :: bool
  sc_Compatibility :: CompatibilityMode
  sc_ValidateOnRead :: bool
  sc_ValidateOnWrite :: bool

text \<open>The interface. An operation gets what varies from call to call, clock readings and the order of range loops, as an
  argument of type \<open>'n\<close> and returns its result with the state of the client after it. The calls that delete and list are
  passed through and are not used by the codecs.\<close>

record ('r, 'n, 'e) RegistryClient =
  rc_GetSchema :: "'n \<Rightarrow> int \<Rightarrow> 'r \<Rightarrow> ('e + SchemaMetadata) \<times> 'r"
  rc_GetLatestSchema :: "'n \<Rightarrow> string \<Rightarrow> 'r \<Rightarrow> ('e + SchemaMetadata) \<times> 'r"
  rc_GetSchemaByVersion :: "'n \<Rightarrow> string \<Rightarrow> int \<Rightarrow> 'r \<Rightarrow> ('e + SchemaMetadata) \<times> 'r"
  rc_RegisterSchema :: "'n \<Rightarrow> string \<Rightarrow> string \<Rightarrow> SchemaType \<Rightarrow> Reference list \<Rightarrow> 'r \<Rightarrow> ('e + SchemaMetadata) \<times> 'r"
  rc_DeleteSubject :: "string \<Rightarrow> bool \<Rightarrow> 'r \<Rightarrow> 'e option \<times> 'r"
  rc_DeleteSchemaVersion :: "string \<Rightarrow> int \<Rightarrow> bool \<Rightarrow> 'r \<Rightarrow> 'e option \<times> 'r"
  rc_GetCompatibility :: "string \<Rightarrow> 'r \<Rightarrow> ('e + CompatibilityMode) \<times> 'r"
  rc_SetCompatibility :: "string \<Rightarrow> CompatibilityMode \<Rightarrow> 'r \<Rightarrow> 'e option \<times> 'r"
  rc_TestCompatibility :: "string \<Rightarrow> string \<Rightarrow> SchemaType \<Rightarrow> int \<Rightarrow> 'r \<Rightarrow> ('e + bool) \<times> 'r"
  rc_GetSubjects :: "'r \<Rightarrow> ('e + string list) \<times> 'r"
  rc_GetVersions :: "string \<Rightarrow> 'r \<Rightarrow> ('e + int list) \<times> 'r"

section \<open>The registry client\<close>

text \<open>What \<open>srclient\<close> returns for a schema, and its operations on the state \<open>'w\<close> of client and server.\<close>

record client_schema =
  cs_ID :: int
  cs_Version :: int
  cs_Schema :: string
  cs_SchemaType :: string

record ('w, 'e) srclient =
  cl_GetSchema :: "int \<Rightarrow> 'w \<Rightarrow> ('e + client_schema) \<times> 'w"
  cl_GetLatestSchema :: "string \<Rightarrow> 'w \<Rightarrow> ('e + client_schema) \<times> 'w"
  cl_GetSchemaByVersion :: "string \<Rightarrow> int \<Rightarrow> 'w \<Rightarrow> ('e + client_schema) \<times> 'w"
  cl_CreateSchema :: "string \<Rightarrow> string \<Rightarrow> string \<Rightarrow> Reference list \<Rightarrow> 'w \<Rightarrow> ('e + client_schema) \<times> 'w"
  cl_DeleteSubject :: "string \<Rightarrow> bool \<Rightarrow> 'w \<Rightarrow> 'e option \<times> 'w"
  cl_DeleteSubjectByVersion :: "string \<Rightarrow> int \<Rightarrow> bool \<Rightarrow> 'w \<Rightarrow> 'e option \<times> 'w"
  cl_GetCompatibility :: "string \<Rightarrow> 'w \<Rightarrow> ('e + string) \<times> 'w"
  cl_SetCompatibility :: "string \<Rightarrow> string \<Rightarrow> 'w \<Rightarrow> 'e option \<times> 'w"
  cl_IsSchemaCompatible :: "string \<Rightarrow> string \<Rightarrow> string \<Rightarrow> int \<Rightarrow> 'w \<Rightarrow> ('e + bool) \<times> 'w"
  cl_GetSubjects :: "'w \<Rightarrow> ('e + string list) \<times> 'w"
  cl_GetVersions :: "string \<Rightarrow> 'w \<Rightarrow> ('e + int list) \<times> 'w"

record cachedSchema =
  ca_metadata :: SchemaMetadata
  ca_expiresAt :: gtime

record ('w, 'e) schemaRegistry =
  sr_client :: "('w, 'e) srclient"
  sr_world :: 'w
  sr_config :: RegistryConfig
  sr_cache :: "int \<rightharpoonup> cachedSchema"
  sr_cacheHits :: int
  sr_cacheMisses :: int
  sr_errors :: int
  sr_requests :: int

text \<open>The readings of the clock of one call, at the cache lookup, the eviction and the insertion, and the order in which
  the loop that removes an entry meets the keys.\<close>

record reg_env =
  re_lookup :: gtime
  re_evict :: gtime
  re_insert :: gtime
  re_order :: "int list"

text \<open>An error of the client with the text it is wrapped in.\<close>

datatype 'e reg_error = RegistryError string 'e

definition registry_defaults :: "RegistryConfig \<Rightarrow> RegistryConfig" where
  "registry_defaults config = config\<lparr>rg_Timeout := (if rg_Timeout config = 0 then 30 * second else rg_Timeout config),
     CacheSize := (if CacheSize config = 0 then 1000 else CacheSize config),
     CacheTTL := (if CacheTTL config = 0 then 5 * minute else CacheTTL config)\<rparr>"

datatype new_registry_error = URLRequired | TLSFailed

text \<open>\<open>tls_ok\<close> is the outcome of \<open>createTLSConfig\<close>, which reads certificate files.\<close>

definition NewRegistryClient :: "bool \<Rightarrow> ('w, 'e) srclient \<Rightarrow> 'w \<Rightarrow> RegistryConfig \<Rightarrow> new_registry_error + ('w, 'e) schemaRegistry" where
  "NewRegistryClient tls_ok client w config =
    (if RegistryURL config = [] then Inl URLRequired
     else if TLSEnabled config \<and> \<not> tls_ok then Inl TLSFailed
     else Inr \<lparr>sr_client = client, sr_world = w, sr_config = registry_defaults config, sr_cache = Map.empty,
       sr_cacheHits = 0, sr_cacheMisses = 0, sr_errors = 0, sr_requests = 0\<rparr>)"

definition recordRequest :: "('w, 'e) schemaRegistry \<Rightarrow> ('w, 'e) schemaRegistry" where
  "recordRequest r = r\<lparr>sr_requests := sr_requests r + 1\<rparr>"

definition recordError :: "('w, 'e) schemaRegistry \<Rightarrow> ('w, 'e) schemaRegistry" where
  "recordError r = r\<lparr>sr_errors := sr_errors r + 1\<rparr>"

definition recordCacheHit :: "('w, 'e) schemaRegistry \<Rightarrow> ('w, 'e) schemaRegistry" where
  "recordCacheHit r = r\<lparr>sr_cacheHits := sr_cacheHits r + 1\<rparr>"

definition recordCacheMiss :: "('w, 'e) schemaRegistry \<Rightarrow> ('w, 'e) schemaRegistry" where
  "recordCacheMiss r = r\<lparr>sr_cacheMisses := sr_cacheMisses r + 1\<rparr>"

definition getFromCache :: "gtime \<Rightarrow> int \<Rightarrow> (int \<rightharpoonup> cachedSchema) \<Rightarrow> SchemaMetadata option" where
  "getFromCache now schemaID cache =
    (case cache schemaID of
       None \<Rightarrow> None
     | Some cached \<Rightarrow> if time_After now (ca_expiresAt cached) then None else Some (ca_metadata cached))"

definition evictExpired :: "gtime \<Rightarrow> (int \<rightharpoonup> cachedSchema) \<Rightarrow> (int \<rightharpoonup> cachedSchema)" where
  "evictExpired now cache =
    (\<lambda>id. case cache id of None \<Rightarrow> None | Some cached \<Rightarrow> if time_After now (ca_expiresAt cached) then None else Some cached)"

definition make_room :: "gtime \<Rightarrow> int list \<Rightarrow> int \<Rightarrow> (int \<rightharpoonup> cachedSchema) \<Rightarrow> (int \<rightharpoonup> cachedSchema)" where
  "make_room now order limit cache =
    (if limit \<le> int (len_map cache)
     then (let c1 = evictExpired now cache in
           if limit \<le> int (len_map c1) then (case order of [] \<Rightarrow> c1 | victim # rest \<Rightarrow> c1(victim := None)) else c1)
     else cache)"

definition addToCache :: "reg_env \<Rightarrow> int \<Rightarrow> SchemaMetadata \<Rightarrow> ('w, 'e) schemaRegistry \<Rightarrow> ('w, 'e) schemaRegistry" where
  "addToCache env schemaID metadata r =
    r\<lparr>sr_cache := (make_room (re_evict env) (re_order env) (CacheSize (sr_config r)) (sr_cache r))
       (schemaID \<mapsto> \<lparr>ca_metadata = metadata, ca_expiresAt = time_Add (re_insert env) (CacheTTL (sr_config r))\<rparr>)\<rparr>"

text \<open>A tick of \<open>cleanupCache\<close>.\<close>

definition cleanupCache :: "gtime \<Rightarrow> ('w, 'e) schemaRegistry \<Rightarrow> ('w, 'e) schemaRegistry" where
  "cleanupCache now r = r\<lparr>sr_cache := evictExpired now (sr_cache r)\<rparr>"

definition plain_metadata :: "int \<Rightarrow> int \<Rightarrow> string \<Rightarrow> string \<Rightarrow> SchemaType \<Rightarrow> Reference list \<Rightarrow> SchemaMetadata" where
  "plain_metadata i v meaning subject t refs = \<lparr>md_ID = i, md_Version = v, md_Schema = meaning, md_Subject = subject,
     md_SchemaType = t, md_References = refs, md_Metadata = None, md_RuleSet = None\<rparr>"

definition client_call :: "('w \<Rightarrow> 'x \<times> 'w) \<Rightarrow> ('w, 'e) schemaRegistry \<Rightarrow> 'x \<times> ('w, 'e) schemaRegistry" where
  "client_call f r = (case f (sr_world r) of (x, w) \<Rightarrow> (x, r\<lparr>sr_world := w\<rparr>))"

definition remember :: "reg_env \<Rightarrow> int \<Rightarrow> SchemaMetadata \<Rightarrow> ('w, 'e) schemaRegistry \<Rightarrow> ('w, 'e) schemaRegistry" where
  "remember env i md r = (if CacheEnabled (sr_config r) then addToCache env i md r else r)"

definition GetSchema :: "reg_env \<Rightarrow> int \<Rightarrow> ('w, 'e) schemaRegistry \<Rightarrow> ('e reg_error + SchemaMetadata) \<times> ('w, 'e) schemaRegistry" where
  "GetSchema env schemaID r0 =
    (let r = recordRequest r0;
         cached = (if CacheEnabled (sr_config r) then getFromCache (re_lookup env) schemaID (sr_cache r) else None)
     in case cached of
          Some md \<Rightarrow> (Inr md, recordCacheHit r)
        | None \<Rightarrow>
            (let r1 = (if CacheEnabled (sr_config r) then recordCacheMiss r else r)
             in case client_call (cl_GetSchema (sr_client r1) schemaID) r1 of
                  (Inl e, r2) \<Rightarrow> (Inl (RegistryError (''failed to get schema '' @ show_int schemaID) e), recordError r2)
                | (Inr s, r2) \<Rightarrow>
                    (let md = plain_metadata schemaID 0 (cs_Schema s) [] (cs_SchemaType s) [] in (Inr md, remember env schemaID md r2))))"

text \<open>The part the two lookups by subject share in the source.\<close>

definition fetch_subject ::
  "reg_env \<Rightarrow> string \<Rightarrow> string \<Rightarrow> (('w, 'e) srclient \<Rightarrow> 'w \<Rightarrow> ('e + client_schema) \<times> 'w) \<Rightarrow> ('w, 'e) schemaRegistry
    \<Rightarrow> ('e reg_error + SchemaMetadata) \<times> ('w, 'e) schemaRegistry" where
  "fetch_subject env msg subject f r0 =
    (let r = recordRequest r0
     in case client_call (f (sr_client r)) r of
          (Inl e, r2) \<Rightarrow> (Inl (RegistryError msg e), recordError r2)
        | (Inr s, r2) \<Rightarrow>
            (let md = plain_metadata (cs_ID s) (cs_Version s) (cs_Schema s) subject (cs_SchemaType s) []
             in (Inr md, remember env (cs_ID s) md r2)))"

definition GetLatestSchema :: "reg_env \<Rightarrow> string \<Rightarrow> ('w, 'e) schemaRegistry \<Rightarrow> ('e reg_error + SchemaMetadata) \<times> ('w, 'e) schemaRegistry" where
  "GetLatestSchema env subject = fetch_subject env (''failed to get latest schema for subject '' @ subject) subject (\<lambda>c. cl_GetLatestSchema c subject)"

definition GetSchemaByVersion :: "reg_env \<Rightarrow> string \<Rightarrow> int \<Rightarrow> ('w, 'e) schemaRegistry \<Rightarrow> ('e reg_error + SchemaMetadata) \<times> ('w, 'e) schemaRegistry" where
  "GetSchemaByVersion env subject version =
    fetch_subject env (''failed to get schema for subject '' @ subject @ '' version '' @ show_int version) subject
      (\<lambda>c. cl_GetSchemaByVersion c subject version)"

definition reg_RegisterSchema ::
  "reg_env \<Rightarrow> string \<Rightarrow> string \<Rightarrow> SchemaType \<Rightarrow> Reference list \<Rightarrow> ('w, 'e) schemaRegistry
    \<Rightarrow> ('e reg_error + SchemaMetadata) \<times> ('w, 'e) schemaRegistry" where
  "reg_RegisterSchema env subject schema schemaType references r0 =
    (let r = recordRequest r0
     in case client_call (cl_CreateSchema (sr_client r) subject schema schemaType references) r of
          (Inl e, r2) \<Rightarrow> (Inl (RegistryError (''failed to register schema for subject '' @ subject) e), recordError r2)
        | (Inr s, r2) \<Rightarrow>
            (let md = plain_metadata (cs_ID s) (cs_Version s) schema subject schemaType references
             in (Inr md, remember env (cs_ID s) md r2)))"

text \<open>The calls that only pass a request on: one that returns an error or nothing, and one with a result.\<close>

definition pass_unit :: "string \<Rightarrow> (('w, 'e) srclient \<Rightarrow> 'w \<Rightarrow> 'e option \<times> 'w) \<Rightarrow> ('w, 'e) schemaRegistry \<Rightarrow> 'e reg_error option \<times> ('w, 'e) schemaRegistry" where
  "pass_unit msg f r0 =
    (let r = recordRequest r0
     in case client_call (f (sr_client r)) r of
          (Some e, r2) \<Rightarrow> (Some (RegistryError msg e), recordError r2)
        | (None, r2) \<Rightarrow> (None, r2))"

definition pass_value :: "string \<Rightarrow> (('w, 'e) srclient \<Rightarrow> 'w \<Rightarrow> ('e + 'x) \<times> 'w) \<Rightarrow> ('w, 'e) schemaRegistry \<Rightarrow> ('e reg_error + 'x) \<times> ('w, 'e) schemaRegistry" where
  "pass_value msg f r0 =
    (let r = recordRequest r0
     in case client_call (f (sr_client r)) r of
          (Inl e, r2) \<Rightarrow> (Inl (RegistryError msg e), recordError r2)
        | (Inr x, r2) \<Rightarrow> (Inr x, r2))"

definition DeleteSubject :: "string \<Rightarrow> bool \<Rightarrow> ('w, 'e) schemaRegistry \<Rightarrow> 'e reg_error option \<times> ('w, 'e) schemaRegistry" where
  "DeleteSubject subject permanent = pass_unit (''failed to delete subject '' @ subject) (\<lambda>c. cl_DeleteSubject c subject permanent)"

definition DeleteSchemaVersion :: "string \<Rightarrow> int \<Rightarrow> bool \<Rightarrow> ('w, 'e) schemaRegistry \<Rightarrow> 'e reg_error option \<times> ('w, 'e) schemaRegistry" where
  "DeleteSchemaVersion subject version permanent =
    pass_unit (''failed to delete subject '' @ subject @ '' version '' @ show_int version) (\<lambda>c. cl_DeleteSubjectByVersion c subject version permanent)"

definition GetCompatibility :: "string \<Rightarrow> ('w, 'e) schemaRegistry \<Rightarrow> ('e reg_error + CompatibilityMode) \<times> ('w, 'e) schemaRegistry" where
  "GetCompatibility subject = pass_value (''failed to get compatibility for subject '' @ subject) (\<lambda>c. cl_GetCompatibility c subject)"

definition SetCompatibility :: "string \<Rightarrow> CompatibilityMode \<Rightarrow> ('w, 'e) schemaRegistry \<Rightarrow> 'e reg_error option \<times> ('w, 'e) schemaRegistry" where
  "SetCompatibility subject mode = pass_unit (''failed to set compatibility for subject '' @ subject) (\<lambda>c. cl_SetCompatibility c subject mode)"

definition TestCompatibility :: "string \<Rightarrow> string \<Rightarrow> SchemaType \<Rightarrow> int \<Rightarrow> ('w, 'e) schemaRegistry \<Rightarrow> ('e reg_error + bool) \<times> ('w, 'e) schemaRegistry" where
  "TestCompatibility subject schema schemaType version =
    pass_value (''failed to test compatibility for subject '' @ subject) (\<lambda>c. cl_IsSchemaCompatible c subject schema schemaType version)"

definition GetSubjects :: "('w, 'e) schemaRegistry \<Rightarrow> ('e reg_error + string list) \<times> ('w, 'e) schemaRegistry" where
  "GetSubjects = pass_value ''failed to get subjects'' cl_GetSubjects"

definition GetVersions :: "string \<Rightarrow> ('w, 'e) schemaRegistry \<Rightarrow> ('e reg_error + int list) \<times> ('w, 'e) schemaRegistry" where
  "GetVersions subject = pass_value (''failed to get versions for subject '' @ subject) (\<lambda>c. cl_GetVersions c subject)"

definition registry_client :: "(('w, 'e) schemaRegistry, reg_env, 'e reg_error) RegistryClient" where
  "registry_client = \<lparr>rc_GetSchema = GetSchema, rc_GetLatestSchema = GetLatestSchema, rc_GetSchemaByVersion = GetSchemaByVersion,
     rc_RegisterSchema = reg_RegisterSchema, rc_DeleteSubject = DeleteSubject, rc_DeleteSchemaVersion = DeleteSchemaVersion,
     rc_GetCompatibility = GetCompatibility, rc_SetCompatibility = SetCompatibility, rc_TestCompatibility = TestCompatibility,
     rc_GetSubjects = GetSubjects, rc_GetVersions = GetVersions\<rparr>"

section \<open>What users of the interface rely on\<close>

text \<open>\<open>meaning\<close> assigns to every identifier the schema and type it stands for. Lookups and registrations return metadata that
  agrees with it, and every operation keeps the invariant of the client.\<close>

definition agrees :: "(int \<rightharpoonup> string \<times> SchemaType) \<Rightarrow> SchemaMetadata \<Rightarrow> bool" where
  "agrees meaning md \<longleftrightarrow> meaning (md_ID md) = Some (md_Schema md, md_SchemaType md)"

locale registry_contract =
  fixes client :: "('r, 'n, 'e) RegistryClient" and inv :: "'r \<Rightarrow> bool" and meaning :: "int \<rightharpoonup> string \<times> SchemaType"
  assumes get_schema: "inv r \<Longrightarrow> rc_GetSchema client env i r = (x, r') \<Longrightarrow> inv r' \<and> (\<forall>md. x = Inr md \<longrightarrow> md_ID md = i \<and> agrees meaning md)"
    and get_latest: "inv r \<Longrightarrow> rc_GetLatestSchema client env s r = (x, r') \<Longrightarrow> inv r' \<and> (\<forall>md. x = Inr md \<longrightarrow> agrees meaning md)"
    and get_version: "inv r \<Longrightarrow> rc_GetSchemaByVersion client env s v r = (x, r') \<Longrightarrow> inv r' \<and> (\<forall>md. x = Inr md \<longrightarrow> agrees meaning md)"
    and register: "inv r \<Longrightarrow> rc_RegisterSchema client env s sch t refs r = (x, r') \<Longrightarrow>
      inv r' \<and> (\<forall>md. x = Inr md \<longrightarrow> agrees meaning md \<and> md_Schema md = sch \<and> md_SchemaType md = t)"
    and test_compat: "inv r \<Longrightarrow> rc_TestCompatibility client s sch t v r = (y, r') \<Longrightarrow> inv r'"
    and versions: "inv r \<Longrightarrow> rc_GetVersions client s r = (z, r') \<Longrightarrow> inv r'"
begin

text \<open>A lookup by subject, whichever operation makes it.\<close>

lemma lookup_agrees:
  assumes "inv r" "(if 0 < v then rc_GetSchemaByVersion client env s v r else rc_GetLatestSchema client env s r) = (x, r')"
  shows "inv r'" "x = Inr md \<Longrightarrow> agrees meaning md"
  using assms get_latest get_version by (metis (full_types))+

lemma same_schema:
  assumes "agrees meaning md" "inv r" "rc_GetSchema client env (md_ID md) r = (Inr md', r')"
  shows "md_ID md' = md_ID md \<and> md_Schema md' = md_Schema md \<and> md_SchemaType md' = md_SchemaType md"
  using get_schema [OF assms(2,3)] assms(1) by (auto simp: agrees_def)

end

text \<open>The behaviour the cache depends on: an identifier stands for one schema at all times.\<close>

definition faithful_client :: "('w, 'e) srclient \<Rightarrow> (int \<rightharpoonup> string \<times> SchemaType) \<Rightarrow> bool" where
  "faithful_client c meaning \<longleftrightarrow>
    (\<forall>i w s w'. cl_GetSchema c i w = (Inr s, w') \<longrightarrow> meaning i = Some (cs_Schema s, cs_SchemaType s)) \<and>
    (\<forall>sub w s w'. cl_GetLatestSchema c sub w = (Inr s, w') \<longrightarrow> meaning (cs_ID s) = Some (cs_Schema s, cs_SchemaType s)) \<and>
    (\<forall>sub v w s w'. cl_GetSchemaByVersion c sub v w = (Inr s, w') \<longrightarrow> meaning (cs_ID s) = Some (cs_Schema s, cs_SchemaType s)) \<and>
    (\<forall>sub sch t refs w s w'. cl_CreateSchema c sub sch t refs w = (Inr s, w') \<longrightarrow> meaning (cs_ID s) = Some (sch, t))"

definition cache_ok :: "(int \<rightharpoonup> string \<times> SchemaType) \<Rightarrow> (int \<rightharpoonup> cachedSchema) \<Rightarrow> bool" where
  "cache_ok meaning cache \<longleftrightarrow> (\<forall>i c. cache i = Some c \<longrightarrow> md_ID (ca_metadata c) = i \<and> agrees meaning (ca_metadata c))"

definition reg_inv :: "(int \<rightharpoonup> string \<times> SchemaType) \<Rightarrow> ('w, 'e) schemaRegistry \<Rightarrow> bool" where
  "reg_inv meaning r \<longleftrightarrow> faithful_client (sr_client r) meaning \<and> cache_ok meaning (sr_cache r)"

lemma reg_inv_stats [simp]:
  "reg_inv meaning (recordRequest r) = reg_inv meaning r" "reg_inv meaning (recordError r) = reg_inv meaning r"
  "reg_inv meaning (recordCacheHit r) = reg_inv meaning r" "reg_inv meaning (recordCacheMiss r) = reg_inv meaning r"
  "reg_inv meaning (r\<lparr>sr_world := w\<rparr>) = reg_inv meaning r"
  by (simp_all add: reg_inv_def recordRequest_def recordError_def recordCacheHit_def recordCacheMiss_def)

lemma make_room_sub: "make_room now order limit cache i = Some c \<Longrightarrow> cache i = Some c"
  by (auto simp: make_room_def evictExpired_def Let_def split: if_splits list.splits option.splits)

lemma reg_inv_remember: "reg_inv meaning r \<Longrightarrow> md_ID md = i \<Longrightarrow> agrees meaning md \<Longrightarrow> reg_inv meaning (remember env i md r)"
  by (auto simp: reg_inv_def remember_def addToCache_def cache_ok_def dest!: make_room_sub)

lemma reg_inv_call: "reg_inv meaning r \<Longrightarrow> client_call f r = (x, r') \<Longrightarrow> reg_inv meaning r'"
  by (auto simp: client_call_def split: prod.splits)

lemma client_call_answer: "client_call f r = (x, r') \<Longrightarrow> \<exists>w'. f (sr_world r) = (x, w')"
  by (auto simp: client_call_def split: prod.splits)

lemma agrees_plain [simp]: "agrees meaning (plain_metadata i v sch sub t refs) \<longleftrightarrow> meaning i = Some (sch, t)"
  by (simp add: agrees_def plain_metadata_def)

lemma plain_metadata_ID [simp]: "md_ID (plain_metadata i v sch sub t refs) = i" "md_Schema (plain_metadata i v sch sub t refs) = sch"
    "md_SchemaType (plain_metadata i v sch sub t refs) = t"
  by (simp_all add: plain_metadata_def)

lemma cached_agrees:
  assumes "reg_inv meaning r" "getFromCache now i (sr_cache r) = Some md"
  shows "md_ID md = i \<and> agrees meaning md"
  using assms by (auto simp: reg_inv_def cache_ok_def getFromCache_def split: option.splits if_splits)

lemma faithful_get: "reg_inv meaning r \<Longrightarrow> cl_GetSchema (sr_client r) i w = (Inr s, w') \<Longrightarrow> meaning i = Some (cs_Schema s, cs_SchemaType s)"
  unfolding reg_inv_def faithful_client_def by blast

lemma faithful_latest: "faithful_client c meaning \<Longrightarrow> cl_GetLatestSchema c sub w = (Inr s, w') \<Longrightarrow> meaning (cs_ID s) = Some (cs_Schema s, cs_SchemaType s)"
  unfolding faithful_client_def by blast

lemma faithful_version: "faithful_client c meaning \<Longrightarrow> cl_GetSchemaByVersion c sub v w = (Inr s, w') \<Longrightarrow> meaning (cs_ID s) = Some (cs_Schema s, cs_SchemaType s)"
  unfolding faithful_client_def by blast

lemma faithful_create: "reg_inv meaning r \<Longrightarrow> cl_CreateSchema (sr_client r) sub sch t refs w = (Inr s, w') \<Longrightarrow> meaning (cs_ID s) = Some (sch, t)"
  unfolding reg_inv_def faithful_client_def by blast

lemma stats_client [simp]:
  "sr_client (recordRequest r) = sr_client r" "sr_client (recordError r) = sr_client r" "sr_client (recordCacheHit r) = sr_client r"
  "sr_client (recordCacheMiss r) = sr_client r"
  by (simp_all add: recordRequest_def recordError_def recordCacheHit_def recordCacheMiss_def)

lemma GetSchema_sound:
  assumes "reg_inv meaning r" "GetSchema env i r = (x, r')"
  shows "reg_inv meaning r' \<and> (\<forall>md. x = Inr md \<longrightarrow> md_ID md = i \<and> agrees meaning md)"
proof (cases "if CacheEnabled (sr_config (recordRequest r)) then getFromCache (re_lookup env) i (sr_cache (recordRequest r)) else None")
  case (Some md)
  then have "md_ID md = i \<and> agrees meaning md" using assms(1) cached_agrees [of meaning "recordRequest r"] by (auto split: if_splits)
  with Some assms show ?thesis by (auto simp: GetSchema_def Let_def)
next
  case None
  define r1 where "r1 = (if CacheEnabled (sr_config (recordRequest r)) then recordCacheMiss (recordRequest r) else recordRequest r)"
  have r1: "reg_inv meaning r1" using assms(1) by (simp add: r1_def)
  obtain y r2 where y: "client_call (cl_GetSchema (sr_client r1) i) r1 = (y, r2)" by (rule prod.exhaust)
  have r2: "reg_inv meaning r2" using reg_inv_call [OF r1 y] .
  have eq: "GetSchema env i r = (case (y, r2) of (Inl e, r2) \<Rightarrow> (Inl (RegistryError (''failed to get schema '' @ show_int i) e), recordError r2)
      | (Inr s, r2) \<Rightarrow> (let md = plain_metadata i 0 (cs_Schema s) [] (cs_SchemaType s) [] in (Inr md, remember env i md r2)))"
    unfolding GetSchema_def Let_def None option.case r1_def [symmetric] y ..
  show ?thesis
  proof (cases y)
    case (Inl e)
    then show ?thesis using assms(2) r2 unfolding eq by auto
  next
    case (Inr s)
    then have "meaning i = Some (cs_Schema s, cs_SchemaType s)" using client_call_answer [OF y] faithful_get [OF r1] by blast
    then show ?thesis using assms(2) r2 Inr unfolding eq by (auto simp: Let_def intro!: reg_inv_remember)
  qed
qed

lemma fetch_sound:
  assumes "reg_inv meaning r" "fetch_subject env msg sub f r = (x, r')"
    and f: "\<And>c w s w'. faithful_client c meaning \<Longrightarrow> f c w = (Inr s, w') \<Longrightarrow> meaning (cs_ID s) = Some (cs_Schema s, cs_SchemaType s)"
  shows "reg_inv meaning r' \<and> (\<forall>md. x = Inr md \<longrightarrow> agrees meaning md)"
proof -
  obtain y r2 where y: "client_call (f (sr_client r)) (recordRequest r) = (y, r2)" by (rule prod.exhaust)
  have r2: "reg_inv meaning r2" using reg_inv_call [OF _ y] assms(1) by simp
  have "meaning (cs_ID s) = Some (cs_Schema s, cs_SchemaType s)" if "y = Inr s" for s
    using client_call_answer [OF y] f assms(1) that by (auto simp: reg_inv_def)
  then show ?thesis using assms(2) r2 y
    by (cases y) (auto simp: fetch_subject_def Let_def intro!: reg_inv_remember)
qed

lemma register_sound:
  assumes "reg_inv meaning r" "reg_RegisterSchema env sub sch t refs r = (x, r')"
  shows "reg_inv meaning r' \<and> (\<forall>md. x = Inr md \<longrightarrow> agrees meaning md \<and> md_Schema md = sch \<and> md_SchemaType md = t)"
proof -
  obtain y r2 where y: "client_call (cl_CreateSchema (sr_client r) sub sch t refs) (recordRequest r) = (y, r2)" by (rule prod.exhaust)
  have r2: "reg_inv meaning r2" using reg_inv_call [OF _ y] assms(1) by simp
  have "meaning (cs_ID s) = Some (sch, t)" if "y = Inr s" for s
    using client_call_answer [OF y] faithful_create [OF assms(1)] that by blast
  then show ?thesis using assms(2) r2 y
    by (cases y) (auto simp: reg_RegisterSchema_def Let_def intro!: reg_inv_remember)
qed

lemma pass_inv:
  "reg_inv meaning r \<Longrightarrow> pass_value msg f r = (y, r') \<Longrightarrow> reg_inv meaning r'"
  "reg_inv meaning r \<Longrightarrow> pass_unit msg g r = (z, r') \<Longrightarrow> reg_inv meaning r'"
  by (auto simp: pass_value_def pass_unit_def Let_def split: prod.splits sum.splits option.splits dest!: reg_inv_call [rotated])

interpretation registry: registry_contract registry_client "reg_inv meaning" meaning for meaning
proof unfold_locales
  fix r r' :: "('a, 'b) schemaRegistry" and env i x
  assume "reg_inv meaning r" "rc_GetSchema registry_client env i r = (x, r')"
  then show "reg_inv meaning r' \<and> (\<forall>md. x = Inr md \<longrightarrow> md_ID md = i \<and> agrees meaning md)"
    using GetSchema_sound by (simp add: registry_client_def)
next
  fix r r' :: "('a, 'b) schemaRegistry" and env s x
  assume "reg_inv meaning r" "rc_GetLatestSchema registry_client env s r = (x, r')"
  then show "reg_inv meaning r' \<and> (\<forall>md. x = Inr md \<longrightarrow> agrees meaning md)"
    unfolding registry_client_def RegistryClient.select_convs GetLatestSchema_def by (rule fetch_sound) (rule faithful_latest)
next
  fix r r' :: "('a, 'b) schemaRegistry" and env s v x
  assume "reg_inv meaning r" "rc_GetSchemaByVersion registry_client env s v r = (x, r')"
  then show "reg_inv meaning r' \<and> (\<forall>md. x = Inr md \<longrightarrow> agrees meaning md)"
    unfolding registry_client_def RegistryClient.select_convs GetSchemaByVersion_def by (rule fetch_sound) (rule faithful_version)
next
  fix r r' :: "('a, 'b) schemaRegistry" and env s sch t refs x
  assume "reg_inv meaning r" "rc_RegisterSchema registry_client env s sch t refs r = (x, r')"
  then show "reg_inv meaning r' \<and> (\<forall>md. x = Inr md \<longrightarrow> agrees meaning md \<and> md_Schema md = sch \<and> md_SchemaType md = t)"
    using register_sound by (simp add: registry_client_def)
qed (auto simp: registry_client_def TestCompatibility_def GetVersions_def dest: pass_inv)

section \<open>Size and contents of the cache in all runs\<close>

definition valid_env :: "reg_env \<Rightarrow> ('w, 'e) schemaRegistry \<Rightarrow> bool" where
  "valid_env env r \<longleftrightarrow> range_order (re_order env) (evictExpired (re_evict env) (sr_cache r))"

inductive reg_step :: "('w, 'e) schemaRegistry \<Rightarrow> ('w, 'e) schemaRegistry \<Rightarrow> bool" where
  get: "valid_env env r \<Longrightarrow> reg_step r (snd (GetSchema env i r))"
| latest: "valid_env env r \<Longrightarrow> reg_step r (snd (GetLatestSchema env sub r))"
| version: "valid_env env r \<Longrightarrow> reg_step r (snd (GetSchemaByVersion env sub v r))"
| register: "valid_env env r \<Longrightarrow> reg_step r (snd (reg_RegisterSchema env sub sch t refs r))"
| cleanup: "reg_step r (cleanupCache now r)"
| delete: "reg_step r (snd (DeleteSubject sub permanent r))"
| delete_version: "reg_step r (snd (DeleteSchemaVersion sub v permanent r))"
| get_compat: "reg_step r (snd (GetCompatibility sub r))"
| set_compat: "reg_step r (snd (SetCompatibility sub mode r))"
| test: "reg_step r (snd (TestCompatibility sub sch t v r))"
| subjects: "reg_step r (snd (GetSubjects r))"
| versions: "reg_step r (snd (GetVersions sub r))"

definition reg_init :: "(int \<rightharpoonup> string \<times> SchemaType) \<Rightarrow> ('w, 'e) schemaRegistry \<Rightarrow> bool" where
  "reg_init meaning r \<longleftrightarrow> (\<exists>tls_ok client w config. NewRegistryClient tls_ok client w config = Inr r \<and> faithful_client client meaning)"

definition small_cache :: "('w, 'e) schemaRegistry \<Rightarrow> bool" where
  "small_cache r \<longleftrightarrow> finite (dom (sr_cache r)) \<and> int (len_map (sr_cache r)) \<le> max 1 (CacheSize (sr_config r))"

definition counts_ok :: "('w, 'e) schemaRegistry \<Rightarrow> bool" where
  "counts_ok r \<longleftrightarrow> 0 \<le> sr_cacheHits r \<and> 0 \<le> sr_cacheMisses r \<and> 0 \<le> sr_errors r \<and> sr_cacheHits r + sr_cacheMisses r \<le> sr_requests r \<and>
    sr_cacheHits r + sr_errors r \<le> sr_requests r"

lemma evict_dom: "dom (evictExpired now cache) \<subseteq> dom cache"
  by (auto simp: evictExpired_def split: option.splits if_splits)

lemma make_room_size:
  assumes "finite (dom cache)" "int (len_map cache) \<le> max 1 limit" "range_order order (evictExpired now cache)"
  shows "finite (dom (make_room now order limit cache)) \<and> int (len_map (make_room now order limit cache)) < max 1 limit"
proof (cases "limit \<le> int (len_map cache)")
  case False
  then show ?thesis using assms(1) by (simp add: make_room_def)
next
  case True
  let ?c = "evictExpired now cache"
  have fin: "finite (dom ?c)" using assms(1) evict_dom by (rule finite_subset [rotated])
  have le: "int (len_map ?c) \<le> max 1 limit"
    using card_mono [OF assms(1) evict_dom [of now]] assms(2) by (simp add: len_map_def)
  show ?thesis
  proof (cases order)
    case Nil
    then have "?c = Map.empty" using assms(3) by simp
    with True Nil show ?thesis by (simp add: make_room_def len_map_def Let_def)
  next
    case (Cons v vs)
    then have "v \<in> dom ?c" using assms(3) by (auto simp: range_order_def)
    then have "len_map (?c(v := None)) + 1 = len_map ?c"
      using fin card_Suc_Diff1 [OF fin] by (simp add: len_map_def)
    with True Cons le fin show ?thesis by (auto simp: make_room_def Let_def)
  qed
qed

lemma remember_small:
  assumes "small_cache r" "range_order (re_order env) (evictExpired (re_evict env) (sr_cache r))"
  shows "small_cache (remember env i md r)"
proof -
  let ?m = "make_room (re_evict env) (re_order env) (CacheSize (sr_config r)) (sr_cache r)"
  have m: "finite (dom ?m)" "int (len_map ?m) < max 1 (CacheSize (sr_config r))"
    using make_room_size [of "sr_cache r" "CacheSize (sr_config r)" "re_order env" "re_evict env"] assms by (simp_all add: small_cache_def)
  have le: "len_map (?m(i \<mapsto> c)) \<le> len_map ?m + 1" for c
    using card_insert_le_m1 [of "len_map ?m + 1" "dom ?m" i] by (simp add: len_map_def)
  have "int (len_map (?m(i \<mapsto> c))) \<le> max 1 (CacheSize (sr_config r))" for c using m(2) le [of c] by linarith
  with m(1) assms(1) show ?thesis by (simp add: remember_def addToCache_def small_cache_def)
qed

lemma cleanup_small: "small_cache r \<Longrightarrow> small_cache (cleanupCache now r)"
  using evict_dom [of now "sr_cache r"] card_mono [of "dom (sr_cache r)" "dom (evictExpired now (sr_cache r))"]
  by (auto simp: small_cache_def cleanupCache_def len_map_def intro: finite_subset)

text \<open>The states a call passes through differ from the first one in the counters and the server only.\<close>

definition same_cache :: "('w, 'e) schemaRegistry \<Rightarrow> ('w, 'e) schemaRegistry \<Rightarrow> bool" where
  "same_cache r s \<longleftrightarrow> sr_cache s = sr_cache r \<and> sr_config s = sr_config r"

lemma same_cache_simps [simp]:
  "same_cache r r" "same_cache r (recordRequest s) = same_cache r s" "same_cache r (recordError s) = same_cache r s"
  "same_cache r (recordCacheHit s) = same_cache r s" "same_cache r (recordCacheMiss s) = same_cache r s" "same_cache r (s\<lparr>sr_world := w\<rparr>) = same_cache r s"
  by (simp_all add: same_cache_def recordRequest_def recordError_def recordCacheHit_def recordCacheMiss_def)

lemma same_cache_small: "same_cache r s \<Longrightarrow> small_cache s = small_cache r" "same_cache r s \<Longrightarrow> valid_env env s = valid_env env r"
  by (simp_all add: same_cache_def small_cache_def valid_env_def)

lemma small_via: "small_cache r \<Longrightarrow> valid_env env r \<Longrightarrow> same_cache r s \<Longrightarrow> small_cache (remember env i md s)"
  using remember_small [of s env i md] same_cache_small(1) [of r s] same_cache_small(2) [of r s env] by (simp add: valid_env_def)

lemma call_small [simp]: "same_cache r (snd (client_call f s)) = same_cache r s"
  by (simp add: client_call_def split: prod.split)

lemma remember_counts [simp]: "counts_ok (remember env i md r) = counts_ok r" "counts_ok (cleanupCache now r) = counts_ok r"
  "counts_ok (r\<lparr>sr_world := w\<rparr>) = counts_ok r"
  by (simp_all add: counts_ok_def remember_def addToCache_def cleanupCache_def)

lemmas record_defs = recordRequest_def recordError_def recordCacheHit_def recordCacheMiss_def

text \<open>Every call changes the counters and then at most adds one entry to the cache.\<close>

definition shape :: "reg_env \<Rightarrow> ('w, 'e) schemaRegistry \<Rightarrow> ('w, 'e) schemaRegistry \<Rightarrow> bool" where
  "shape env r r' \<longleftrightarrow> (\<exists>s. same_cache r s \<and> (counts_ok r \<longrightarrow> counts_ok s) \<and> (r' = s \<or> (\<exists>j md. r' = remember env j md s)))"

lemma shape_same: "same_cache r s \<Longrightarrow> (counts_ok r \<Longrightarrow> counts_ok s) \<Longrightarrow> shape env r s"
  unfolding shape_def by blast

lemma shape_remember: "same_cache r s \<Longrightarrow> (counts_ok r \<Longrightarrow> counts_ok s) \<Longrightarrow> shape env r (remember env j md s)"
  unfolding shape_def by blast

lemma call_parts: "client_call f s = (x, s') \<Longrightarrow> \<exists>w. s' = s\<lparr>sr_world := w\<rparr>"
  by (auto simp: client_call_def split: prod.splits)

lemma counts_request: "counts_ok r \<Longrightarrow> counts_ok (recordRequest r)" "counts_ok r \<Longrightarrow> counts_ok (recordCacheHit (recordRequest r))"
    "counts_ok r \<Longrightarrow> counts_ok (recordCacheMiss (recordRequest r))" "counts_ok r \<Longrightarrow> counts_ok (recordError ((recordRequest r)\<lparr>sr_world := w\<rparr>))"
    "counts_ok r \<Longrightarrow> counts_ok (recordError ((recordCacheMiss (recordRequest r))\<lparr>sr_world := w\<rparr>))"
  by (simp_all add: counts_ok_def record_defs)

lemma shape_call:
  assumes "client_call f (recordRequest r) = (x, s)"
  shows "shape env r s" "shape env r (recordError s)" "shape env r (remember env j md s)"
  using call_parts [OF assms] counts_request by (auto intro!: shape_same shape_remember)

lemma shape_miss:
  assumes "client_call f (recordCacheMiss (recordRequest r)) = (x, s)"
  shows "shape env r (recordError s)" "shape env r (remember env j md s)"
  using call_parts [OF assms] counts_request by (auto intro!: shape_same shape_remember)

lemma GetSchema_shape: "shape env r (snd (GetSchema env i r))"
proof (cases "if CacheEnabled (sr_config (recordRequest r)) then getFromCache (re_lookup env) i (sr_cache (recordRequest r)) else None")
  case (Some md)
  then show ?thesis using counts_request by (auto simp: GetSchema_def Let_def intro!: shape_same)
next
  case None
  then show ?thesis unfolding GetSchema_def Let_def None option.case
    by (cases "CacheEnabled (sr_config (recordRequest r))")
      (auto split: prod.split sum.split dest: shape_call shape_miss)
qed

lemma op_shapes:
  "shape env r (snd (fetch_subject env msg sub f r))" "shape env r (snd (reg_RegisterSchema env sub sch t refs r))"
  "shape env r (snd (pass_value msg g r))" "shape env r (snd (pass_unit msg h r))"
  by (auto simp: fetch_subject_def reg_RegisterSchema_def pass_value_def pass_unit_def Let_def
      split: prod.split sum.split option.split dest: shape_call)

lemma shape_keeps:
  assumes "shape env r r'" "small_cache r" "counts_ok r" "valid_env env r \<or> same_cache r r'"
  shows "small_cache r' \<and> counts_ok r'"
  using assms small_via [of r env] same_cache_small(1) [of r r'] by (auto simp: shape_def)

lemma pass_same: "same_cache r (snd (pass_value msg f r))" "same_cache r (snd (pass_unit msg g r))"
  by (auto simp: pass_value_def pass_unit_def Let_def split: prod.split sum.split option.split dest!: call_parts)

definition reg_ok :: "(int \<rightharpoonup> string \<times> SchemaType) \<Rightarrow> ('w, 'e) schemaRegistry \<Rightarrow> bool" where
  "reg_ok meaning r \<longleftrightarrow> reg_inv meaning r \<and> small_cache r \<and> counts_ok r"

lemma reg_ok_shape:
  "reg_ok meaning r \<Longrightarrow> reg_inv meaning r' \<Longrightarrow> shape env r r' \<Longrightarrow> valid_env env r \<or> same_cache r r' \<Longrightarrow> reg_ok meaning r'"
  using shape_keeps by (auto simp: reg_ok_def)

lemma reg_ok_inv: "reg_ok meaning r \<Longrightarrow> reg_inv meaning r"
  by (simp add: reg_ok_def)

lemma reg_ok_pass:
  assumes "reg_ok meaning r"
  shows "reg_ok meaning (snd (pass_value msg f r))" "reg_ok meaning (snd (pass_unit msg g r))"
proof -
  show "reg_ok meaning (snd (pass_value msg f r))"
    by (rule reg_ok_shape [OF assms pass_inv(1) [OF reg_ok_inv [OF assms] prod.collapse [symmetric]] op_shapes(3)]) (simp add: pass_same)
  show "reg_ok meaning (snd (pass_unit msg g r))"
    by (rule reg_ok_shape [OF assms pass_inv(2) [OF reg_ok_inv [OF assms] prod.collapse [symmetric]] op_shapes(4)]) (simp add: pass_same)
qed

lemma reg_inv_ops:
  assumes "reg_inv meaning r"
  shows "reg_inv meaning (snd (GetSchema env i r))" "reg_inv meaning (snd (GetLatestSchema env sub r))"
    "reg_inv meaning (snd (GetSchemaByVersion env sub v r))" "reg_inv meaning (snd (reg_RegisterSchema env sub sch t refs r))"
    "reg_inv meaning (cleanupCache now r)"
  using GetSchema_sound [OF assms prod.collapse [symmetric]] register_sound [OF assms prod.collapse [symmetric]]
    registry.get_latest [OF assms prod.collapse [symmetric], of env sub] registry.get_version [OF assms prod.collapse [symmetric], of env sub v] assms
  by (auto simp: registry_client_def reg_inv_def cleanupCache_def cache_ok_def evictExpired_def split: option.splits if_splits)

lemma reg_ok_step: "reg_step r r' \<Longrightarrow> reg_ok meaning r \<Longrightarrow> reg_ok meaning r'"
proof (induction rule: reg_step.induct)
  case (get env r i)
  show ?case by (rule reg_ok_shape [OF get(2) reg_inv_ops(1) GetSchema_shape]) (use get in \<open>simp_all add: reg_ok_inv\<close>)
next
  case (latest env r sub)
  have "shape env r (snd (GetLatestSchema env sub r))" unfolding GetLatestSchema_def by (rule op_shapes)
  then show ?case by (rule reg_ok_shape [OF latest(2) reg_inv_ops(2) [OF reg_ok_inv [OF latest(2)]]]) (simp add: latest(1))
next
  case (version env r sub v)
  have "shape env r (snd (GetSchemaByVersion env sub v r))" unfolding GetSchemaByVersion_def by (rule op_shapes)
  then show ?case by (rule reg_ok_shape [OF version(2) reg_inv_ops(3) [OF reg_ok_inv [OF version(2)]]]) (simp add: version(1))
next
  case (register env r sub sch t refs)
  show ?case by (rule reg_ok_shape [OF register(2) reg_inv_ops(4) op_shapes(2)]) (use register in \<open>simp_all add: reg_ok_inv\<close>)
next
  case (cleanup r now)
  then show ?case using reg_inv_ops(5) cleanup_small remember_counts(2) unfolding reg_ok_def by blast
qed (simp_all add: DeleteSubject_def DeleteSchemaVersion_def GetCompatibility_def SetCompatibility_def TestCompatibility_def
    GetSubjects_def GetVersions_def reg_ok_pass)

lemma reg_ok_init: "reg_init meaning r \<Longrightarrow> reg_ok meaning r"
  by (auto simp: reg_init_def NewRegistryClient_def reg_ok_def reg_inv_def cache_ok_def small_cache_def len_map_def counts_ok_def split: if_splits)

interpretation registry_runs: stepping "reg_init meaning" reg_step "reg_ok meaning" for meaning
  by unfold_locales (auto intro: reg_ok_init reg_ok_step)


text \<open>A server that knows one schema under every identifier and takes no other.\<close>

definition example_client :: "(unit, unit) srclient" where
  "example_client = (let s = \<lparr>cs_ID = 7, cs_Version = 1, cs_Schema = ''s'', cs_SchemaType = ''AVRO''\<rparr> in
     \<lparr>cl_GetSchema = (\<lambda>i w. (Inr s, w)), cl_GetLatestSchema = (\<lambda>sub w. (Inr s, w)), cl_GetSchemaByVersion = (\<lambda>sub v w. (Inr s, w)),
      cl_CreateSchema = (\<lambda>sub sch t refs w. (if sch = ''s'' \<and> t = ''AVRO'' then Inr s else Inl (), w)),
      cl_DeleteSubject = (\<lambda>sub p w. (None, w)), cl_DeleteSubjectByVersion = (\<lambda>sub v p w. (None, w)),
      cl_GetCompatibility = (\<lambda>sub w. (Inr ''NONE'', w)), cl_SetCompatibility = (\<lambda>sub m w. (None, w)),
      cl_IsSchemaCompatible = (\<lambda>sub sch t v w. (Inr True, w)), cl_GetSubjects = (\<lambda>w. (Inr [], w)), cl_GetVersions = (\<lambda>sub w. (Inr [], w))\<rparr>)"

definition example_config :: RegistryConfig where
  "example_config = \<lparr>RegistryURL = ''http://r'', Username = [], Password = [], rg_Timeout = 0, CacheEnabled = True, CacheSize = 1, CacheTTL = 0,
     TLSEnabled = False, TLSCertPath = [], TLSKeyPath = [], TLSCAPath = [], TLSSkipVerify = False\<rparr>"

definition example_registry :: "(unit, unit) schemaRegistry" where
  "example_registry = \<lparr>sr_client = example_client, sr_world = (), sr_config = registry_defaults example_config, sr_cache = Map.empty,
     sr_cacheHits = 0, sr_cacheMisses = 0, sr_errors = 0, sr_requests = 0\<rparr>"

lemma example_faithful: "faithful_client example_client (\<lambda>i. Some (''s'', ''AVRO''))"
  by (auto simp: faithful_client_def example_client_def Let_def)

lemma example_init: "reg_init (\<lambda>i. Some (''s'', ''AVRO'')) example_registry"
proof -
  have "NewRegistryClient True example_client () example_config = Inr example_registry"
    by (simp add: NewRegistryClient_def example_registry_def example_config_def)
  with example_faithful show ?thesis unfolding reg_init_def by blast
qed


end
