(* ===== verification/Schema_Codecs.thy ===== *)
theory Schema_Codecs
  imports Schema_Registry Checkpoints Stream_Types
begin

text \<open>
  Encoding and decoding of events with schemas: \<open>pkg/schema/avro.go\<close>, \<open>protobuf.go\<close>, \<open>jsonschema.go\<close>, \<open>codec.go\<close> and
  \<open>validator.go\<close>. The Avro, Protocol Buffers, JSON and JSON Schema libraries are the functions of the record
  \<open>codec_libs\<close>; the wire format, the caches of compiled schemas and the manager that chooses a codec are the program's
  own. A Go value is either one that JSON decoding produces, a byte slice, or any other value.
\<close>

section \<open>Wire format\<close>

unbundle bit_operations_syntax

definition magicByte :: "8 word" where "magicByte = 0"

definition be32 :: "u32 \<Rightarrow> bytes" where
  "be32 w = [ucast (drop_bit 24 w), ucast (drop_bit 16 w), ucast (drop_bit 8 w), ucast w]"

definition Uint32 :: "bytes \<Rightarrow> u32" where
  "Uint32 b = push_bit 24 (ucast (b ! 0)) OR push_bit 16 (ucast (b ! 1)) OR push_bit 8 (ucast (b ! 2)) OR ucast (b ! 3)"

text \<open>\<open>int32(schemaMetadata.ID)\<close> keeps the low 32 bits.\<close>

definition wire_encode :: "int \<Rightarrow> bytes \<Rightarrow> bytes" where
  "wire_encode schemaID payload = magicByte # be32 (word_of_int schemaID) @ payload"

datatype 'e codec_error = WrongType SchemaType SchemaType | CompileFailed | ConvertFailed | EncodeFailed | ValidationFailed
  | TooShort | BadMagic "8 word" | SchemaFailed int 'e | DecodeFailed | UnsupportedType SchemaType | MetadataFailed 'e | NoCodec "'e codec_error option"

definition wire_decode :: "bytes \<Rightarrow> 'e codec_error + int \<times> bytes" where
  "wire_decode data =
    (if length data < 5 then Inl TooShort
     else if data ! 0 \<noteq> magicByte then Inl (BadMagic (data ! 0))
     else Inr (uint (Uint32 (take 4 (drop 1 data))), drop 5 data))"

lemma be32_length [simp]: "length (be32 w) = 4"
  by (simp add: be32_def)

lemma Uint32_be32: "Uint32 (be32 w) = w"
proof (rule bit_word_eqI)
  fix n :: nat
  assume "n < LENGTH(32)"
  then consider "n < 8" | "8 \<le> n" "n < 16" | "16 \<le> n" "n < 24" | "24 \<le> n" "n < 32" by fastforce
  then show "bit (Uint32 (be32 w)) n \<longleftrightarrow> bit w n" by cases (auto simp: Uint32_def be32_def bit_simps)
qed

text \<open>A frame gives back its payload and, for identifiers of 32 bits without sign, its identifier.\<close>

lemma wire_roundtrip:
  assumes "0 \<le> i" "i < 2 ^ 32"
  shows "wire_decode (wire_encode i payload) = Inr (i, payload)"
proof -
  have "take 4 (be32 (word_of_int i) @ payload) = be32 (word_of_int i)" by simp
  moreover have "drop 5 (wire_encode i payload) = payload" by (simp add: wire_encode_def numeral_eq_Suc)
  ultimately show ?thesis using assms
    by (simp add: wire_decode_def wire_encode_def magicByte_def Uint32_be32 uint_word_of_int)
qed

section \<open>Libraries and values\<close>

datatype 'o data = Bytes bytes | Json json | Other 'o

record ('o, 'a, 's, 'f, 'd, 'm) codec_libs =
  json_Marshal :: "'o data \<Rightarrow> bytes option"
  json_Unmarshal :: "bytes \<Rightarrow> json option"
  goavro_NewCodec :: "string \<Rightarrow> 'a option"
  goavro_Binary :: "'a \<Rightarrow> (string \<times> json) list \<Rightarrow> bytes option"
  goavro_Native :: "'a \<Rightarrow> bytes \<Rightarrow> 'o data option"
  jsonschema_Compile :: "string \<Rightarrow> string \<Rightarrow> 's option"
  jsonschema_Valid :: "'s \<Rightarrow> json \<Rightarrow> bool"
  proto_Files :: "string \<Rightarrow> 'f option"
  proto_FirstFile :: "'f \<Rightarrow> 'd list option"
  dynamicpb_New :: "'d \<Rightarrow> 'm"
  protojson_Marshal :: "'m \<Rightarrow> bytes option"
  protojson_Unmarshal :: "bytes \<Rightarrow> 'm \<Rightarrow> 'm option"
  proto_Marshal :: "'m \<Rightarrow> bytes option"
  proto_Unmarshal :: "bytes \<Rightarrow> 'm \<Rightarrow> 'm option"
  proto_Message :: "'o \<Rightarrow> 'm option"

text \<open>The schema a message names: the one handed in when its identifier fits, and otherwise a lookup.\<close>

definition resolve_schema ::
  "('r, 'n, 'e) RegistryClient \<Rightarrow> 'n \<Rightarrow> int \<Rightarrow> SchemaMetadata option \<Rightarrow> 'r \<Rightarrow> ('e codec_error + SchemaMetadata) \<times> 'r" where
  "resolve_schema client env schemaID given r =
    (case given of
       Some md \<Rightarrow> if md_ID md = schemaID then (Inr md, r) else (case rc_GetSchema client env schemaID r of (x, r') \<Rightarrow> (map_sum (SchemaFailed schemaID) id x, r'))
     | None \<Rightarrow> (case rc_GetSchema client env schemaID r of (x, r') \<Rightarrow> (map_sum (SchemaFailed schemaID) id x, r')))"

text \<open>A cache of compiled schemas, as \<open>getCodec\<close>, \<open>getDescriptor\<close> and \<open>getSchema\<close> of the codecs keep it.\<close>

definition compiled :: "(SchemaMetadata \<Rightarrow> 'c option) \<Rightarrow> SchemaMetadata \<Rightarrow> (int \<rightharpoonup> 'c) \<Rightarrow> 'c option \<times> (int \<rightharpoonup> 'c)" where
  "compiled compile md cache =
    (case cache (md_ID md) of
       Some c \<Rightarrow> (Some c, cache)
     | None \<Rightarrow> (case compile md of None \<Rightarrow> (None, cache) | Some c \<Rightarrow> (Some c, cache(md_ID md \<mapsto> c))))"

section \<open>Avro\<close>

definition compile_avro :: "('o, 'a, 's, 'f, 'd, 'm) codec_libs \<Rightarrow> SchemaMetadata \<Rightarrow> 'a option" where
  "compile_avro libs md = goavro_NewCodec libs (md_Schema md)"

definition toNative :: "('o, 'a, 's, 'f, 'd, 'm) codec_libs \<Rightarrow> 'o data \<Rightarrow> (string \<times> json) list option" where
  "toNative libs data =
    (case data of
       Json (JObj m) \<Rightarrow> Some m
     | _ \<Rightarrow> (case json_Marshal libs data of None \<Rightarrow> None | Some b \<Rightarrow> decode_map (json_Unmarshal libs b)))"

definition avro_Encode ::
  "('o, 'a, 's, 'f, 'd, 'm) codec_libs \<Rightarrow> 'o data \<Rightarrow> SchemaMetadata \<Rightarrow> (int \<rightharpoonup> 'a) \<Rightarrow> ('e codec_error + bytes) \<times> (int \<rightharpoonup> 'a)" where
  "avro_Encode libs data md cache =
    (if md_SchemaType md \<noteq> SchemaTypeAvro then (Inl (WrongType SchemaTypeAvro (md_SchemaType md)), cache)
     else (case compiled (compile_avro libs) md cache of
         (None, cache') \<Rightarrow> (Inl CompileFailed, cache')
       | (Some codec, cache') \<Rightarrow>
           (case toNative libs data of
              None \<Rightarrow> (Inl ConvertFailed, cache')
            | Some native \<Rightarrow>
                (case goavro_Binary libs codec native of
                   None \<Rightarrow> (Inl EncodeFailed, cache')
                 | Some b \<Rightarrow> (Inr (wire_encode (md_ID md) b), cache')))))"

definition avro_Decode ::
  "('o, 'a, 's, 'f, 'd, 'm) codec_libs \<Rightarrow> ('r, 'n, 'e) RegistryClient \<Rightarrow> 'n \<Rightarrow> bytes \<Rightarrow> SchemaMetadata option \<Rightarrow> (int \<rightharpoonup> 'a) \<Rightarrow> 'r
    \<Rightarrow> ('e codec_error + 'o data) \<times> (int \<rightharpoonup> 'a) \<times> 'r" where
  "avro_Decode libs client env data given cache r =
    (case wire_decode data of
       Inl e \<Rightarrow> (Inl e, cache, r)
     | Inr (schemaID, payload) \<Rightarrow>
         (case resolve_schema client env schemaID given r of
            (Inl e, r') \<Rightarrow> (Inl e, cache, r')
          | (Inr md, r') \<Rightarrow>
              if md_SchemaType md \<noteq> SchemaTypeAvro then (Inl (WrongType SchemaTypeAvro (md_SchemaType md)), cache, r')
              else (case compiled (compile_avro libs) md cache of
                  (None, cache') \<Rightarrow> (Inl CompileFailed, cache', r')
                | (Some codec, cache') \<Rightarrow>
                    (case goavro_Native libs codec payload of
                       None \<Rightarrow> (Inl DecodeFailed, cache', r')
                     | Some native \<Rightarrow> (Inr native, cache', r')))))"

definition ValidateAvroSchema :: "('o, 'a, 's, 'f, 'd, 'm) codec_libs \<Rightarrow> string \<Rightarrow> bool" where
  "ValidateAvroSchema libs schema \<longleftrightarrow> goavro_NewCodec libs schema \<noteq> None"

text \<open>Field names of a parsed Avro schema; fields without a string name are skipped.\<close>

definition GetAvroSchemaFields :: "('o, 'a, 's, 'f, 'd, 'm) codec_libs \<Rightarrow> bytes \<Rightarrow> string list option" where
  "GetAvroSchemaFields libs schema =
    (case decode_map (json_Unmarshal libs schema) of
       None \<Rightarrow> None
     | Some m \<Rightarrow> (case map_of m ''fields'' of
           Some (JArr fs) \<Rightarrow> Some (concat (map (\<lambda>f. case f of JObj o' \<Rightarrow> (case map_of o' ''name'' of Some (JStr n) \<Rightarrow> [n] | _ \<Rightarrow> []) | _ \<Rightarrow> []) fs))
         | _ \<Rightarrow> None))"

section \<open>Protocol Buffers\<close>

text \<open>The descriptor is the first message type of the first file of the descriptor set.\<close>

definition compile_proto :: "('o, 'a, 's, 'f, 'd, 'm) codec_libs \<Rightarrow> SchemaMetadata \<Rightarrow> 'd option" where
  "compile_proto libs md =
    (case proto_Files libs (md_Schema md) of
       None \<Rightarrow> None
     | Some files \<Rightarrow> (case proto_FirstFile libs files of None \<Rightarrow> None | Some [] \<Rightarrow> None | Some (d # ds) \<Rightarrow> Some d))"

text \<open>For a map the source marshals the empty message itself and not the data.\<close>

definition populateMessage :: "('o, 'a, 's, 'f, 'd, 'm) codec_libs \<Rightarrow> 'm \<Rightarrow> 'o data \<Rightarrow> 'm option" where
  "populateMessage libs msg data =
    (case (case data of
             Bytes b \<Rightarrow> Some b
           | Json (JStr s) \<Rightarrow> Some (string_bytes s)
           | Json (JObj m) \<Rightarrow> protojson_Marshal libs msg
           | Json _ \<Rightarrow> None
           | Other x \<Rightarrow> (case proto_Message libs x of None \<Rightarrow> None | Some m \<Rightarrow> protojson_Marshal libs m)) of
       None \<Rightarrow> None
     | Some jsonData \<Rightarrow> protojson_Unmarshal libs jsonData msg)"

text \<open>The map that is returned is declared and never filled: a nil map.\<close>

definition messageToMap :: "('o, 'a, 's, 'f, 'd, 'm) codec_libs \<Rightarrow> 'm \<Rightarrow> (string \<times> json) list option" where
  "messageToMap libs msg =
    (case protojson_Marshal libs msg of
       None \<Rightarrow> None
     | Some jsonData \<Rightarrow> (case protojson_Unmarshal libs jsonData msg of None \<Rightarrow> None | Some m \<Rightarrow> Some []))"

definition proto_Encode ::
  "('o, 'a, 's, 'f, 'd, 'm) codec_libs \<Rightarrow> 'o data \<Rightarrow> SchemaMetadata \<Rightarrow> (int \<rightharpoonup> 'd) \<Rightarrow> ('e codec_error + bytes) \<times> (int \<rightharpoonup> 'd)" where
  "proto_Encode libs data md cache =
    (if md_SchemaType md \<noteq> SchemaTypeProtobuf then (Inl (WrongType SchemaTypeProtobuf (md_SchemaType md)), cache)
     else (case compiled (compile_proto libs) md cache of
         (None, cache') \<Rightarrow> (Inl CompileFailed, cache')
       | (Some descriptor, cache') \<Rightarrow>
           (case populateMessage libs (dynamicpb_New libs descriptor) data of
              None \<Rightarrow> (Inl ConvertFailed, cache')
            | Some msg \<Rightarrow>
                (case proto_Marshal libs msg of
                   None \<Rightarrow> (Inl EncodeFailed, cache')
                 | Some b \<Rightarrow> (Inr (wire_encode (md_ID md) b), cache')))))"

definition proto_Decode ::
  "('o, 'a, 's, 'f, 'd, 'm) codec_libs \<Rightarrow> ('r, 'n, 'e) RegistryClient \<Rightarrow> 'n \<Rightarrow> bytes \<Rightarrow> SchemaMetadata option \<Rightarrow> (int \<rightharpoonup> 'd) \<Rightarrow> 'r
    \<Rightarrow> ('e codec_error + 'o data) \<times> (int \<rightharpoonup> 'd) \<times> 'r" where
  "proto_Decode libs client env data given cache r =
    (case wire_decode data of
       Inl e \<Rightarrow> (Inl e, cache, r)
     | Inr (schemaID, payload) \<Rightarrow>
         (case resolve_schema client env schemaID given r of
            (Inl e, r') \<Rightarrow> (Inl e, cache, r')
          | (Inr md, r') \<Rightarrow>
              if md_SchemaType md \<noteq> SchemaTypeProtobuf then (Inl (WrongType SchemaTypeProtobuf (md_SchemaType md)), cache, r')
              else (case compiled (compile_proto libs) md cache of
                  (None, cache') \<Rightarrow> (Inl CompileFailed, cache', r')
                | (Some descriptor, cache') \<Rightarrow>
                    (case proto_Unmarshal libs payload (dynamicpb_New libs descriptor) of
                       None \<Rightarrow> (Inl DecodeFailed, cache', r')
                     | Some msg \<Rightarrow>
                         (case messageToMap libs msg of
                            None \<Rightarrow> (Inl ConvertFailed, cache', r')
                          | Some result \<Rightarrow> (Inr (Json (JObj result)), cache', r'))))))"

definition ValidateProtobufSchema :: "('o, 'a, 's, 'f, 'd, 'm) codec_libs \<Rightarrow> string \<Rightarrow> bool" where
  "ValidateProtobufSchema libs schema \<longleftrightarrow> proto_Files libs schema \<noteq> None"

section \<open>JSON Schema\<close>

definition compile_json :: "('o, 'a, 's, 'f, 'd, 'm) codec_libs \<Rightarrow> SchemaMetadata \<Rightarrow> 's option" where
  "compile_json libs md = jsonschema_Compile libs (''schema://'' @ show_int (md_ID md)) (md_Schema md)"

definition to_interface :: "('o, 'a, 's, 'f, 'd, 'm) codec_libs \<Rightarrow> 'o data \<Rightarrow> json option" where
  "to_interface libs data =
    (case data of
       Bytes b \<Rightarrow> json_Unmarshal libs b
     | Json (JStr s) \<Rightarrow> json_Unmarshal libs (string_bytes s)
     | Json (JObj m) \<Rightarrow> Some (JObj m)
     | _ \<Rightarrow> (case json_Marshal libs data of None \<Rightarrow> None | Some b \<Rightarrow> json_Unmarshal libs b))"

definition json_Encode ::
  "('o, 'a, 's, 'f, 'd, 'm) codec_libs \<Rightarrow> 'o data \<Rightarrow> SchemaMetadata \<Rightarrow> (int \<rightharpoonup> 's) \<Rightarrow> ('e codec_error + bytes) \<times> (int \<rightharpoonup> 's)" where
  "json_Encode libs data md cache =
    (if md_SchemaType md \<noteq> SchemaTypeJSON then (Inl (WrongType SchemaTypeJSON (md_SchemaType md)), cache)
     else (case compiled (compile_json libs) md cache of
         (None, cache') \<Rightarrow> (Inl CompileFailed, cache')
       | (Some schema, cache') \<Rightarrow>
           (case to_interface libs data of
              None \<Rightarrow> (Inl ConvertFailed, cache')
            | Some j \<Rightarrow>
                if \<not> jsonschema_Valid libs schema j then (Inl ValidationFailed, cache')
                else (case json_Marshal libs (Json j) of
                    None \<Rightarrow> (Inl EncodeFailed, cache')
                  | Some b \<Rightarrow> (Inr (wire_encode (md_ID md) b), cache')))))"

definition json_Decode ::
  "('o, 'a, 's, 'f, 'd, 'm) codec_libs \<Rightarrow> ('r, 'n, 'e) RegistryClient \<Rightarrow> 'n \<Rightarrow> bytes \<Rightarrow> SchemaMetadata option \<Rightarrow> (int \<rightharpoonup> 's) \<Rightarrow> 'r
    \<Rightarrow> ('e codec_error + 'o data) \<times> (int \<rightharpoonup> 's) \<times> 'r" where
  "json_Decode libs client env data given cache r =
    (case wire_decode data of
       Inl e \<Rightarrow> (Inl e, cache, r)
     | Inr (schemaID, payload) \<Rightarrow>
         (case resolve_schema client env schemaID given r of
            (Inl e, r') \<Rightarrow> (Inl e, cache, r')
          | (Inr md, r') \<Rightarrow>
              if md_SchemaType md \<noteq> SchemaTypeJSON then (Inl (WrongType SchemaTypeJSON (md_SchemaType md)), cache, r')
              else (case compiled (compile_json libs) md cache of
                  (None, cache') \<Rightarrow> (Inl CompileFailed, cache', r')
                | (Some schema, cache') \<Rightarrow>
                    (case json_Unmarshal libs payload of
                       None \<Rightarrow> (Inl DecodeFailed, cache', r')
                     | Some j \<Rightarrow> if \<not> jsonschema_Valid libs schema j then (Inl ValidationFailed, cache', r') else (Inr (Json j), cache', r')))))"

definition validate_json_schema :: "('o, 'a, 's, 'f, 'd, 'm) codec_libs \<Rightarrow> string \<Rightarrow> bool" where
  "validate_json_schema libs schema \<longleftrightarrow> jsonschema_Compile libs ''schema://validate'' schema \<noteq> None"

definition GetRequiredFields :: "('o, 'a, 's, 'f, 'd, 'm) codec_libs \<Rightarrow> bytes \<Rightarrow> string list option" where
  "GetRequiredFields libs schema =
    (case decode_map (json_Unmarshal libs schema) of
       None \<Rightarrow> None
     | Some m \<Rightarrow> (case map_of m ''required'' of
           Some (JArr fs) \<Rightarrow> Some (concat (map (\<lambda>f. case f of JStr n \<Rightarrow> [n] | _ \<Rightarrow> []) fs))
         | _ \<Rightarrow> Some []))"

section \<open>The codec manager\<close>

record ('r, 'a, 's, 'd) CodecManager =
  cm_registry :: 'r
  cm_avro :: "int \<rightharpoonup> 'a"
  cm_proto :: "int \<rightharpoonup> 'd"
  cm_json :: "int \<rightharpoonup> 's"
  cm_schemaCache :: "string \<rightharpoonup> SchemaMetadata"
  cm_encodes :: int
  cm_decodes :: int
  cm_errors :: int
  cm_duration :: duration

definition NewCodecManager :: "'r \<Rightarrow> ('r, 'a, 's, 'd) CodecManager" where
  "NewCodecManager registry = \<lparr>cm_registry = registry, cm_avro = Map.empty, cm_proto = Map.empty, cm_json = Map.empty,
     cm_schemaCache = Map.empty, cm_encodes = 0, cm_decodes = 0, cm_errors = 0, cm_duration = 0\<rparr>"

text \<open>The codecs by type, on the part of the manager's state each of them owns.\<close>

definition codec_Encode ::
  "('o, 'a, 's, 'f, 'd, 'm) codec_libs \<Rightarrow> SchemaType \<Rightarrow> 'o data \<Rightarrow> SchemaMetadata \<Rightarrow> ('r, 'a, 's, 'd) CodecManager
    \<Rightarrow> ('e codec_error + bytes) \<times> ('r, 'a, 's, 'd) CodecManager" where
  "codec_Encode libs schemaType data md cm =
    (if schemaType = SchemaTypeAvro then (case avro_Encode libs data md (cm_avro cm) of (x, c) \<Rightarrow> (x, cm\<lparr>cm_avro := c\<rparr>))
     else if schemaType = SchemaTypeProtobuf then (case proto_Encode libs data md (cm_proto cm) of (x, c) \<Rightarrow> (x, cm\<lparr>cm_proto := c\<rparr>))
     else if schemaType = SchemaTypeJSON then (case json_Encode libs data md (cm_json cm) of (x, c) \<Rightarrow> (x, cm\<lparr>cm_json := c\<rparr>))
     else (Inl (UnsupportedType schemaType), cm))"

definition codec_Decode ::
  "('o, 'a, 's, 'f, 'd, 'm) codec_libs \<Rightarrow> ('r, 'n, 'e) RegistryClient \<Rightarrow> 'n \<Rightarrow> SchemaType \<Rightarrow> bytes \<Rightarrow> ('r, 'a, 's, 'd) CodecManager
    \<Rightarrow> ('e codec_error + 'o data) \<times> ('r, 'a, 's, 'd) CodecManager" where
  "codec_Decode libs client env schemaType data cm =
    (if schemaType = SchemaTypeAvro
     then (case avro_Decode libs client env data None (cm_avro cm) (cm_registry cm) of (x, c, r) \<Rightarrow> (x, cm\<lparr>cm_avro := c, cm_registry := r\<rparr>))
     else if schemaType = SchemaTypeProtobuf
     then (case proto_Decode libs client env data None (cm_proto cm) (cm_registry cm) of (x, c, r) \<Rightarrow> (x, cm\<lparr>cm_proto := c, cm_registry := r\<rparr>))
     else if schemaType = SchemaTypeJSON
     then (case json_Decode libs client env data None (cm_json cm) (cm_registry cm) of (x, c, r) \<Rightarrow> (x, cm\<lparr>cm_json := c, cm_registry := r\<rparr>))
     else (Inl (UnsupportedType schemaType), cm))"

definition cacheSchemaMetadata :: "string \<Rightarrow> SchemaMetadata \<Rightarrow> ('r, 'a, 's, 'd) CodecManager \<Rightarrow> ('r, 'a, 's, 'd) CodecManager" where
  "cacheSchemaMetadata key md cm = cm\<lparr>cm_schemaCache := (cm_schemaCache cm)(key \<mapsto> md)\<rparr>"

definition cache_key :: "string \<Rightarrow> int \<Rightarrow> string" where
  "cache_key subject version = subject @ '':'' @ show_int version"

definition getSchemaMetadata ::
  "('r, 'n, 'e) RegistryClient \<Rightarrow> 'n \<Rightarrow> string \<Rightarrow> SchemaConfig \<Rightarrow> ('r, 'a, 's, 'd) CodecManager
    \<Rightarrow> ('e + SchemaMetadata) \<times> ('r, 'a, 's, 'd) CodecManager" where
  "getSchemaMetadata client env subject config cm =
    (case cm_schemaCache cm (cache_key subject (sc_Version config)) of
       Some md \<Rightarrow> (Inr md, cm)
     | None \<Rightarrow>
         (case (if 0 < sc_Version config then rc_GetSchemaByVersion client env subject (sc_Version config) (cm_registry cm)
                else rc_GetLatestSchema client env subject (cm_registry cm)) of
            (Inl e, r) \<Rightarrow> (Inl e, cm\<lparr>cm_registry := r\<rparr>)
          | (Inr md, r) \<Rightarrow> (Inr md, cacheSchemaMetadata (cache_key subject (sc_Version config)) md (cm\<lparr>cm_registry := r\<rparr>))))"

definition recordEncode :: "('r, 'a, 's, 'd) CodecManager \<Rightarrow> ('r, 'a, 's, 'd) CodecManager" where
  "recordEncode cm = cm\<lparr>cm_encodes := cm_encodes cm + 1\<rparr>"

definition recordDecode :: "('r, 'a, 's, 'd) CodecManager \<Rightarrow> ('r, 'a, 's, 'd) CodecManager" where
  "recordDecode cm = cm\<lparr>cm_decodes := cm_decodes cm + 1\<rparr>"

definition cm_recordError :: "('r, 'a, 's, 'd) CodecManager \<Rightarrow> ('r, 'a, 's, 'd) CodecManager" where
  "cm_recordError cm = cm\<lparr>cm_errors := cm_errors cm + 1\<rparr>"

definition recordDuration :: "duration \<Rightarrow> ('r, 'a, 's, 'd) CodecManager \<Rightarrow> ('r, 'a, 's, 'd) CodecManager" where
  "recordDuration dur cm = cm\<lparr>cm_duration := cm_duration cm + dur\<rparr>"

text \<open>\<open>dur\<close> is the time the call takes; it is recorded on every path.\<close>

definition cm_Encode ::
  "('o, 'a, 's, 'f, 'd, 'm) codec_libs \<Rightarrow> ('r, 'n, 'e) RegistryClient \<Rightarrow> 'n \<Rightarrow> duration \<Rightarrow> string \<Rightarrow> 'o data \<Rightarrow> SchemaConfig
    \<Rightarrow> ('r, 'a, 's, 'd) CodecManager \<Rightarrow> ('e codec_error + bytes) \<times> ('r, 'a, 's, 'd) CodecManager" where
  "cm_Encode libs client env dur subject data config cm =
    (case getSchemaMetadata client env subject config cm of
       (Inl e, cm1) \<Rightarrow> (Inl (MetadataFailed e), recordDuration dur (cm_recordError cm1))
     | (Inr md, cm1) \<Rightarrow>
         (case codec_Encode libs (md_SchemaType md) data md cm1 of
            (Inl e, cm2) \<Rightarrow> (Inl e, recordDuration dur (cm_recordError cm2))
          | (Inr b, cm2) \<Rightarrow> (Inr b, recordDuration dur (recordEncode cm2))))"

text \<open>The loop of \<open>Decode\<close> over the codecs in map order, starting with the \<open>n\<close>-th call of the registry.\<close>

fun decode_loop ::
  "('o, 'a, 's, 'f, 'd, 'm) codec_libs \<Rightarrow> ('r, 'n, 'e) RegistryClient \<Rightarrow> (nat \<Rightarrow> 'n) \<Rightarrow> bytes \<Rightarrow> nat \<Rightarrow> SchemaType list \<Rightarrow> 'e codec_error option
    \<Rightarrow> ('r, 'a, 's, 'd) CodecManager \<Rightarrow> ('e codec_error + 'o data) \<times> ('r, 'a, 's, 'd) CodecManager" where
  "decode_loop libs client envs data n [] lastErr cm = (Inl (NoCodec lastErr), cm_recordError cm)"
| "decode_loop libs client envs data n (t # ts) lastErr cm =
    (case codec_Decode libs client (envs n) t data cm of
       (Inr v, cm1) \<Rightarrow> (Inr v, recordDecode cm1)
     | (Inl e, cm1) \<Rightarrow> decode_loop libs client envs data (Suc n) ts (Some e) cm1)"

definition is_codec :: "SchemaType \<Rightarrow> bool" where
  "is_codec t \<longleftrightarrow> t \<in> set [SchemaTypeAvro, SchemaTypeProtobuf, SchemaTypeJSON]"

definition cm_Decode ::
  "('o, 'a, 's, 'f, 'd, 'm) codec_libs \<Rightarrow> ('r, 'n, 'e) RegistryClient \<Rightarrow> (nat \<Rightarrow> 'n) \<Rightarrow> SchemaType list \<Rightarrow> duration \<Rightarrow> bytes \<Rightarrow> SchemaConfig
    \<Rightarrow> ('r, 'a, 's, 'd) CodecManager \<Rightarrow> ('e codec_error + 'o data) \<times> ('r, 'a, 's, 'd) CodecManager" where
  "cm_Decode libs client envs order dur data config cm =
    (if sc_SchemaType config \<noteq> [] \<and> is_codec (sc_SchemaType config)
     then (case codec_Decode libs client (envs 0) (sc_SchemaType config) data cm of
         (Inr v, cm1) \<Rightarrow> (Inr v, recordDuration dur (recordDecode cm1))
       | (Inl e, cm1) \<Rightarrow> apsnd (recordDuration dur) (decode_loop libs client envs data 1 order (Some e) cm1))
     else apsnd (recordDuration dur) (decode_loop libs client envs data 1 order None cm))"

datatype 'e compat_error = VersionsFailed 'e | UnsupportedMode CompatibilityMode | TestFailed int 'e

fun test_versions ::
  "('r, 'n, 'e) RegistryClient \<Rightarrow> string \<Rightarrow> string \<Rightarrow> SchemaType \<Rightarrow> int list \<Rightarrow> 'r \<Rightarrow> ('e compat_error + bool) \<times> 'r" where
  "test_versions client subject schema t [] r = (Inr True, r)"
| "test_versions client subject schema t (v # vs) r =
    (case rc_TestCompatibility client subject schema t v r of
       (Inl e, r') \<Rightarrow> (Inl (TestFailed v e), r')
     | (Inr c, r') \<Rightarrow> if c then test_versions client subject schema t vs r' else (Inr False, r'))"

definition versions_to_check :: "CompatibilityMode \<Rightarrow> int list \<Rightarrow> int list option" where
  "versions_to_check mode versions =
    (if mode \<in> set [CompatibilityBackward, CompatibilityForward, CompatibilityFull] then Some [last versions]
     else if mode \<in> set [CompatibilityBackwardTransitive, CompatibilityForwardTransitive, CompatibilityFullTransitive] then Some versions
     else if mode = CompatibilityNone then Some []
     else None)"

definition ValidateCompatibility ::
  "('r, 'n, 'e) RegistryClient \<Rightarrow> string \<Rightarrow> string \<Rightarrow> SchemaType \<Rightarrow> CompatibilityMode \<Rightarrow> ('r, 'a, 's, 'd) CodecManager
    \<Rightarrow> ('e compat_error + bool) \<times> ('r, 'a, 's, 'd) CodecManager" where
  "ValidateCompatibility client subject schema t mode cm =
    (case rc_GetVersions client subject (cm_registry cm) of
       (Inl e, r) \<Rightarrow> (Inl (VersionsFailed e), cm\<lparr>cm_registry := r\<rparr>)
     | (Inr versions, r) \<Rightarrow>
         if versions = [] then (Inr True, cm\<lparr>cm_registry := r\<rparr>)
         else (case versions_to_check mode versions of
             None \<Rightarrow> (Inl (UnsupportedMode mode), cm\<lparr>cm_registry := r\<rparr>)
           | Some vs \<Rightarrow> (case test_versions client subject schema t vs r of (x, r') \<Rightarrow> (x, cm\<lparr>cm_registry := r'\<rparr>))))"

datatype 'e register_error = InvalidFormat | CheckFailed "'e compat_error" | Incompatible CompatibilityMode | RegisterFailed 'e

definition validateSchemaFormat :: "('o, 'a, 's, 'f, 'd, 'm) codec_libs \<Rightarrow> string \<Rightarrow> SchemaType \<Rightarrow> bool" where
  "validateSchemaFormat libs schema t =
    (if t = SchemaTypeAvro then ValidateAvroSchema libs schema
     else if t = SchemaTypeProtobuf then ValidateProtobufSchema libs schema
     else if t = SchemaTypeJSON then validate_json_schema libs schema
     else False)"

text \<open>The registered metadata is cached under the subject alone, a key that \<open>getSchemaMetadata\<close> never looks up.\<close>

definition cm_RegisterSchema ::
  "('o, 'a, 's, 'f, 'd, 'm) codec_libs \<Rightarrow> ('r, 'n, 'e) RegistryClient \<Rightarrow> 'n \<Rightarrow> string \<Rightarrow> string \<Rightarrow> SchemaConfig
    \<Rightarrow> ('r, 'a, 's, 'd) CodecManager \<Rightarrow> ('e register_error + SchemaMetadata) \<times> ('r, 'a, 's, 'd) CodecManager" where
  "cm_RegisterSchema libs client env subject schema config cm =
    (if \<not> validateSchemaFormat libs schema (sc_SchemaType config) then (Inl InvalidFormat, cm)
     else
       (case (if sc_Compatibility config \<noteq> CompatibilityNone
              then ValidateCompatibility client subject schema (sc_SchemaType config) (sc_Compatibility config) cm else (Inr True, cm)) of
          (Inl e, cm1) \<Rightarrow> (Inl (CheckFailed e), cm1)
        | (Inr False, cm1) \<Rightarrow> (Inl (Incompatible (sc_Compatibility config)), cm1)
        | (Inr True, cm1) \<Rightarrow>
            (case rc_RegisterSchema client env subject schema (sc_SchemaType config) [] (cm_registry cm1) of
               (Inl e, r) \<Rightarrow> (Inl (RegisterFailed e), cm1\<lparr>cm_registry := r\<rparr>)
             | (Inr md, r) \<Rightarrow> (Inr md, cacheSchemaMetadata subject md (cm1\<lparr>cm_registry := r\<rparr>)))))"

definition ClearCache :: "('r, 'a, 's, 'd) CodecManager \<Rightarrow> ('r, 'a, 's, 'd) CodecManager" where
  "ClearCache cm = cm\<lparr>cm_schemaCache := Map.empty\<rparr>"

section \<open>Validators\<close>

record ValidatorOperator =
  vo_config :: SchemaConfig
  vo_valid :: int
  vo_invalid :: int

text \<open>What varies in one call of \<open>Validate\<close>: the registry calls of encoding and decoding, the order of the codecs and
  the durations.\<close>

record 'n validate_env =
  ve_encode :: 'n
  ve_decode :: "nat \<Rightarrow> 'n"
  ve_order :: "SchemaType list"
  ve_durations :: "duration \<times> duration"

definition vo_Validate ::
  "('o, 'a, 's, 'f, 'd, 'm) codec_libs \<Rightarrow> ('r, 'n, 'e) RegistryClient \<Rightarrow> 'n validate_env \<Rightarrow> 'o data event \<Rightarrow> ValidatorOperator
    \<Rightarrow> ('r, 'a, 's, 'd) CodecManager \<Rightarrow> ('e codec_error + 'o data event) \<times> ValidatorOperator \<times> ('r, 'a, 's, 'd) CodecManager" where
  "vo_Validate libs client env event v cm =
    (case cm_Encode libs client (ve_encode env) (fst (ve_durations env)) (sc_Subject (vo_config v)) (Value event) (vo_config v) cm of
       (Inl e, cm1) \<Rightarrow> (Inl e, v\<lparr>vo_invalid := vo_invalid v + 1\<rparr>, cm1)
     | (Inr encoded, cm1) \<Rightarrow>
         (case cm_Decode libs client (ve_decode env) (ve_order env) (snd (ve_durations env)) encoded (vo_config v) cm1 of
            (Inl e, cm2) \<Rightarrow> (Inl e, v\<lparr>vo_invalid := vo_invalid v + 1\<rparr>, cm2)
          | (Inr decoded, cm2) \<Rightarrow> (Inr (event\<lparr>Value := decoded\<rparr>), v\<lparr>vo_valid := vo_valid v + 1\<rparr>, cm2)))"

definition ValidateOrFilter ::
  "('o, 'a, 's, 'f, 'd, 'm) codec_libs \<Rightarrow> ('r, 'n, 'e) RegistryClient \<Rightarrow> 'n validate_env \<Rightarrow> 'o data event \<Rightarrow> ValidatorOperator
    \<Rightarrow> ('r, 'a, 's, 'd) CodecManager \<Rightarrow> 'o data event option \<times> ValidatorOperator \<times> ('r, 'a, 's, 'd) CodecManager" where
  "ValidateOrFilter libs client env event v cm =
    (case vo_Validate libs client env event v cm of (Inl e, s) \<Rightarrow> (None, s) | (Inr ev, s) \<Rightarrow> (Some ev, s))"

text \<open>\<open>MultiSchemaValidator\<close>: the first validator that accepts the event.\<close>

fun multi_Validate ::
  "('o, 'a, 's, 'f, 'd, 'm) codec_libs \<Rightarrow> ('r, 'n, 'e) RegistryClient \<Rightarrow> (nat \<Rightarrow> 'n validate_env) \<Rightarrow> 'o data event \<Rightarrow> nat \<Rightarrow> ValidatorOperator list
    \<Rightarrow> 'e codec_error option \<Rightarrow> ('r, 'a, 's, 'd) CodecManager
    \<Rightarrow> ('e codec_error option + 'o data event) \<times> ValidatorOperator list \<times> ('r, 'a, 's, 'd) CodecManager" where
  "multi_Validate libs client envs event n [] lastErr cm = (Inl lastErr, [], cm)"
| "multi_Validate libs client envs event n (v # vs) lastErr cm =
    (case vo_Validate libs client (envs n) event v cm of
       (Inr ev, v', cm') \<Rightarrow> (Inr ev, v' # vs, cm')
     | (Inl e, v', cm') \<Rightarrow> (case multi_Validate libs client envs event (Suc n) vs (Some e) cm' of (x, vs', cm'') \<Rightarrow> (x, v' # vs', cm'')))"

datatype 'e evolution_error = CompatUnknown "'e compat_error" | NotCompatible CompatibilityMode | RegistrationFailed "'e register_error"

definition ValidateEvolution ::
  "('r, 'n, 'e) RegistryClient \<Rightarrow> string \<Rightarrow> string \<Rightarrow> SchemaType \<Rightarrow> CompatibilityMode \<Rightarrow> ('r, 'a, 's, 'd) CodecManager
    \<Rightarrow> 'e evolution_error option \<times> ('r, 'a, 's, 'd) CodecManager" where
  "ValidateEvolution client subject schema t mode cm =
    (case ValidateCompatibility client subject schema t mode cm of
       (Inl e, cm1) \<Rightarrow> (Some (CompatUnknown e), cm1)
     | (Inr c, cm1) \<Rightarrow> (if c then None else Some (NotCompatible mode), cm1))"

definition ValidateAndRegister ::
  "('o, 'a, 's, 'f, 'd, 'm) codec_libs \<Rightarrow> ('r, 'n, 'e) RegistryClient \<Rightarrow> 'n \<Rightarrow> string \<Rightarrow> string \<Rightarrow> SchemaConfig
    \<Rightarrow> ('r, 'a, 's, 'd) CodecManager \<Rightarrow> ('e evolution_error + SchemaMetadata) \<times> ('r, 'a, 's, 'd) CodecManager" where
  "ValidateAndRegister libs client env subject schema config cm =
    (case ValidateEvolution client subject schema (sc_SchemaType config) (sc_Compatibility config) cm of
       (Some e, cm1) \<Rightarrow> (Inl e, cm1)
     | (None, cm1) \<Rightarrow> (case cm_RegisterSchema libs client env subject schema config cm1 of (x, cm2) \<Rightarrow> (map_sum RegistrationFailed id x, cm2)))"

end
