(* ===== verification/Schema_Properties.thy ===== *)
theory Schema_Properties
  imports Schema_Codecs
begin

text \<open>
  What the codec manager guarantees on top of a registry that keeps its contract: whatever schemas are cached, a value
  encoded with an Avro or JSON schema is decoded to the value the libraries give back for that very schema. The manager's
  lemmas are proved once in the locale \<open>live_registry\<close> and interpreted for the registry client. Protocol Buffers lose
  their data in both directions, and a registration does not reach the manager's cache.
\<close>

section \<open>Registries that answer\<close>

locale live_registry = registry_contract client inv meaning
  for client :: "('r, 'n, 'e) RegistryClient" and inv meaning +
  assumes answers: "inv r \<Longrightarrow> meaning i \<noteq> None \<Longrightarrow> \<exists>md r'. rc_GetSchema client env i r = (Inr md, r')"
    and small_ids: "inv r \<Longrightarrow> meaning i \<noteq> None \<Longrightarrow> 0 \<le> i \<and> i < 2 ^ 32"
begin

text \<open>The schema of a message is found, with the identifier, text and type it was encoded with.\<close>

lemma resolve_known:
  assumes "inv r" "agrees meaning md"
  obtains md' r' where "resolve_schema client env (md_ID md) None r = (Inr md', r')" "inv r'" "agrees meaning md'"
    "md_ID md' = md_ID md" "md_Schema md' = md_Schema md" "md_SchemaType md' = md_SchemaType md"
proof -
  obtain md' r' where got: "rc_GetSchema client env (md_ID md) r = (Inr md', r')"
    using answers [OF assms(1), of "md_ID md" env] assms(2) by (auto simp: agrees_def)
  have "resolve_schema client env (md_ID md) None r = (Inr md', r')" by (simp add: resolve_schema_def got)
  moreover have "inv r' \<and> agrees meaning md'" using get_schema [OF assms(1) got] by blast
  moreover have "md_ID md' = md_ID md \<and> md_Schema md' = md_Schema md \<and> md_SchemaType md' = md_SchemaType md"
    by (rule same_schema [OF assms(2,1) got])
  ultimately show thesis using that by blast
qed

end

text \<open>A cache of compiled schemas holds what compiling the schemas gives.\<close>

definition compiled_ok :: "(int \<rightharpoonup> string \<times> SchemaType) \<Rightarrow> (SchemaMetadata \<Rightarrow> 'c option) \<Rightarrow> (int \<rightharpoonup> 'c) \<Rightarrow> bool" where
  "compiled_ok meaning compile cache \<longleftrightarrow>
    (\<forall>i c. cache i = Some c \<longrightarrow> (\<exists>md. md_ID md = i \<and> agrees meaning md \<and> compile md = Some c))"

definition by_schema :: "(SchemaMetadata \<Rightarrow> 'c option) \<Rightarrow> bool" where
  "by_schema compile \<longleftrightarrow> (\<forall>md md'. md_ID md = md_ID md' \<and> md_Schema md = md_Schema md' \<longrightarrow> compile md = compile md')"

lemma by_schema_simps [simp]: "by_schema (compile_avro libs)" "by_schema (compile_proto libs)" "by_schema (compile_json libs)"
  by (simp_all add: by_schema_def compile_avro_def compile_proto_def compile_json_def)

lemma compiled_spec:
  assumes "compiled_ok meaning compile cache" "agrees meaning md" "by_schema compile"
  shows "fst (compiled compile md cache) = compile md" "compiled_ok meaning compile (snd (compiled compile md cache))"
proof -
  have hit: "compile md = Some c" if c: "cache (md_ID md) = Some c" for c
  proof -
    obtain md' where md': "md_ID md' = md_ID md" "agrees meaning md'" "compile md' = Some c"
      using assms(1) c unfolding compiled_ok_def by blast
    then have "md_Schema md' = md_Schema md" using assms(2) by (simp add: agrees_def)
    with md' assms(3) show ?thesis unfolding by_schema_def by metis
  qed
  show "fst (compiled compile md cache) = compile md"
    using hit by (auto simp: compiled_def split: option.split)
  show "compiled_ok meaning compile (snd (compiled compile md cache))"
    using assms(1,2) by (auto simp: compiled_def compiled_ok_def split: option.split)
qed

lemma compiled_eq:
  assumes "compiled_ok meaning compile cache" "agrees meaning md" "by_schema compile"
  obtains cache' where "compiled compile md cache = (compile md, cache')" "compiled_ok meaning compile cache'"
  using compiled_spec [OF assms] that by (metis prod.collapse)

section \<open>The invariant of the manager\<close>

definition cm_ok ::
  "('r \<Rightarrow> bool) \<Rightarrow> (int \<rightharpoonup> string \<times> SchemaType) \<Rightarrow> ('o, 'a, 's, 'f, 'd, 'm) codec_libs \<Rightarrow> ('r, 'a, 's, 'd) CodecManager \<Rightarrow> bool" where
  "cm_ok good meaning libs cm \<longleftrightarrow> good (cm_registry cm) \<and> (\<forall>k md. cm_schemaCache cm k = Some md \<longrightarrow> agrees meaning md) \<and>
    compiled_ok meaning (compile_avro libs) (cm_avro cm) \<and> compiled_ok meaning (compile_proto libs) (cm_proto cm) \<and>
    compiled_ok meaning (compile_json libs) (cm_json cm)"

lemma cm_ok_stats [simp]:
  "cm_ok good meaning libs (recordEncode cm) = cm_ok good meaning libs cm" "cm_ok good meaning libs (recordDecode cm) = cm_ok good meaning libs cm"
  "cm_ok good meaning libs (cm_recordError cm) = cm_ok good meaning libs cm" "cm_ok good meaning libs (recordDuration d cm) = cm_ok good meaning libs cm"
  by (simp_all add: cm_ok_def recordEncode_def recordDecode_def cm_recordError_def recordDuration_def)

lemma cm_ok_cache: "cm_ok good meaning libs cm \<Longrightarrow> agrees meaning md \<Longrightarrow> cm_ok good meaning libs (cacheSchemaMetadata k md cm)"
  by (simp add: cm_ok_def cacheSchemaMetadata_def)

lemma cm_ok_registry: "cm_ok good meaning libs cm \<Longrightarrow> good r \<Longrightarrow> cm_ok good meaning libs (cm\<lparr>cm_registry := r\<rparr>)"
  by (simp add: cm_ok_def)

lemma cm_ok_parts:
  assumes "cm_ok good meaning libs cm"
  shows "compiled_ok meaning (compile_avro libs) c \<Longrightarrow> cm_ok good meaning libs (cm\<lparr>cm_avro := c\<rparr>)"
    "compiled_ok meaning (compile_proto libs) d \<Longrightarrow> cm_ok good meaning libs (cm\<lparr>cm_proto := d\<rparr>)"
    "compiled_ok meaning (compile_json libs) s \<Longrightarrow> cm_ok good meaning libs (cm\<lparr>cm_json := s\<rparr>)"
  using assms by (simp_all add: cm_ok_def)

lemma cm_ok_both:
  assumes "cm_ok good meaning libs cm" "good r"
  shows "compiled_ok meaning (compile_avro libs) c \<Longrightarrow> cm_ok good meaning libs (cm\<lparr>cm_avro := c, cm_registry := r\<rparr>)"
    "compiled_ok meaning (compile_proto libs) d \<Longrightarrow> cm_ok good meaning libs (cm\<lparr>cm_proto := d, cm_registry := r\<rparr>)"
    "compiled_ok meaning (compile_json libs) s \<Longrightarrow> cm_ok good meaning libs (cm\<lparr>cm_json := s, cm_registry := r\<rparr>)"
  using assms by (simp_all add: cm_ok_def)

lemma cm_ok_sel: "cm_ok good meaning libs cm \<Longrightarrow> good (cm_registry cm)" "cm_ok good meaning libs cm \<Longrightarrow> cm_schemaCache cm k = Some md \<Longrightarrow> agrees meaning md"
    "cm_ok good meaning libs cm \<Longrightarrow> compiled_ok meaning (compile_avro libs) (cm_avro cm)"
    "cm_ok good meaning libs cm \<Longrightarrow> compiled_ok meaning (compile_proto libs) (cm_proto cm)"
    "cm_ok good meaning libs cm \<Longrightarrow> compiled_ok meaning (compile_json libs) (cm_json cm)"
  unfolding cm_ok_def by blast+

text \<open>What encoding does in terms of the libraries alone.\<close>

definition encoded :: "('o, 'a, 's, 'f, 'd, 'm) codec_libs \<Rightarrow> SchemaMetadata \<Rightarrow> 'o data \<Rightarrow> bytes option" where
  "encoded libs md data =
    (if md_SchemaType md = SchemaTypeAvro
     then Option.bind (compile_avro libs md) (\<lambda>a. Option.bind (toNative libs data) (goavro_Binary libs a))
     else if md_SchemaType md = SchemaTypeProtobuf
     then Option.bind (compile_proto libs md) (\<lambda>d. Option.bind (populateMessage libs (dynamicpb_New libs d) data) (proto_Marshal libs))
     else if md_SchemaType md = SchemaTypeJSON
     then Option.bind (compile_json libs md) (\<lambda>s. Option.bind (to_interface libs data)
       (\<lambda>j. if jsonschema_Valid libs s j then json_Marshal libs (Json j) else None))
     else None)"

lemma type_distinct [simp]:
  "SchemaTypeAvro \<noteq> SchemaTypeProtobuf" "SchemaTypeAvro \<noteq> SchemaTypeJSON" "SchemaTypeProtobuf \<noteq> SchemaTypeJSON"
  "SchemaTypeProtobuf \<noteq> SchemaTypeAvro" "SchemaTypeJSON \<noteq> SchemaTypeAvro" "SchemaTypeJSON \<noteq> SchemaTypeProtobuf"
  by (simp_all add: schema_types)

lemma codec_Encode_spec:
  assumes ok: "cm_ok good meaning libs cm" and md: "agrees meaning md" and enc: "codec_Encode libs (md_SchemaType md) data md cm = (x, cm')"
  shows "cm_ok good meaning libs cm'" "x = Inr b \<Longrightarrow> \<exists>payload. encoded libs md data = Some payload \<and> b = wire_encode (md_ID md) payload"
proof -
  obtain ca where a: "compiled (compile_avro libs) md (cm_avro cm) = (compile_avro libs md, ca)" "compiled_ok meaning (compile_avro libs) ca"
    using compiled_eq [OF cm_ok_sel(3) [OF ok] md] by (metis by_schema_simps(1))
  obtain cp where p: "compiled (compile_proto libs) md (cm_proto cm) = (compile_proto libs md, cp)" "compiled_ok meaning (compile_proto libs) cp"
    using compiled_eq [OF cm_ok_sel(4) [OF ok] md] by (metis by_schema_simps(2))
  obtain cj where j: "compiled (compile_json libs) md (cm_json cm) = (compile_json libs md, cj)" "compiled_ok meaning (compile_json libs) cj"
    using compiled_eq [OF cm_ok_sel(5) [OF ok] md] by (metis by_schema_simps(3))
  consider (avro) "md_SchemaType md = SchemaTypeAvro" | (proto) "md_SchemaType md = SchemaTypeProtobuf"
    | (json) "md_SchemaType md = SchemaTypeJSON" | (none) "\<not> is_codec (md_SchemaType md)"
    by (auto simp: is_codec_def)
  then have "cm_ok good meaning libs cm' \<and> (x = Inr b \<longrightarrow> (\<exists>payload. encoded libs md data = Some payload \<and> b = wire_encode (md_ID md) payload))"
  proof cases
    case avro
    then show ?thesis using enc cm_ok_parts(1) [OF ok a(2)]
      by (auto simp: codec_Encode_def avro_Encode_def a(1) encoded_def split: option.splits)
  next
    case proto
    then show ?thesis using enc cm_ok_parts(2) [OF ok p(2)]
      by (auto simp: codec_Encode_def proto_Encode_def p(1) encoded_def split: option.splits)
  next
    case json
    then show ?thesis using enc cm_ok_parts(3) [OF ok j(2)]
      by (auto simp: codec_Encode_def json_Encode_def j(1) encoded_def split: option.splits if_splits)
  next
    case none
    then show ?thesis using enc ok by (auto simp: codec_Encode_def is_codec_def)
  qed
  then show "cm_ok good meaning libs cm'" "x = Inr b \<Longrightarrow> \<exists>payload. encoded libs md data = Some payload \<and> b = wire_encode (md_ID md) payload"
    by blast+
qed

text \<open>The three decoders differ only in the schema type, the compilation and what they do with the payload.\<close>

definition framed_Decode ::
  "SchemaType \<Rightarrow> (SchemaMetadata \<Rightarrow> 'c option) \<Rightarrow> ('c \<Rightarrow> bytes \<Rightarrow> 'e codec_error + 'o data) \<Rightarrow> ('r, 'n, 'e) RegistryClient \<Rightarrow> 'n \<Rightarrow> bytes
    \<Rightarrow> (int \<rightharpoonup> 'c) \<Rightarrow> 'r \<Rightarrow> ('e codec_error + 'o data) \<times> (int \<rightharpoonup> 'c) \<times> 'r" where
  "framed_Decode T compile finish client env data cache r =
    (case wire_decode data of
       Inl e \<Rightarrow> (Inl e, cache, r)
     | Inr (schemaID, payload) \<Rightarrow>
         (case resolve_schema client env schemaID None r of
            (Inl e, r') \<Rightarrow> (Inl e, cache, r')
          | (Inr md, r') \<Rightarrow>
              if md_SchemaType md \<noteq> T then (Inl (WrongType T (md_SchemaType md)), cache, r')
              else (case compiled compile md cache of
                  (None, cache') \<Rightarrow> (Inl CompileFailed, cache', r')
                | (Some c, cache') \<Rightarrow> (finish c payload, cache', r'))))"

definition finish_avro :: "('o, 'a, 's, 'f, 'd, 'm) codec_libs \<Rightarrow> 'a \<Rightarrow> bytes \<Rightarrow> 'e codec_error + 'o data" where
  "finish_avro libs a payload = (case goavro_Native libs a payload of None \<Rightarrow> Inl DecodeFailed | Some v \<Rightarrow> Inr v)"

definition finish_proto :: "('o, 'a, 's, 'f, 'd, 'm) codec_libs \<Rightarrow> 'd \<Rightarrow> bytes \<Rightarrow> 'e codec_error + 'o data" where
  "finish_proto libs d payload =
    (case proto_Unmarshal libs payload (dynamicpb_New libs d) of
       None \<Rightarrow> Inl DecodeFailed
     | Some msg \<Rightarrow> (case messageToMap libs msg of None \<Rightarrow> Inl ConvertFailed | Some m \<Rightarrow> Inr (Json (JObj m))))"

definition finish_json :: "('o, 'a, 's, 'f, 'd, 'm) codec_libs \<Rightarrow> 's \<Rightarrow> bytes \<Rightarrow> 'e codec_error + 'o data" where
  "finish_json libs s payload =
    (case json_Unmarshal libs payload of
       None \<Rightarrow> Inl DecodeFailed
     | Some j \<Rightarrow> if \<not> jsonschema_Valid libs s j then Inl ValidationFailed else Inr (Json j))"

lemma decoders_framed:
  "avro_Decode libs client env b None ca r = framed_Decode SchemaTypeAvro (compile_avro libs) (finish_avro libs) client env b ca r"
  "proto_Decode libs client env b None cp r = framed_Decode SchemaTypeProtobuf (compile_proto libs) (finish_proto libs) client env b cp r"
  "json_Decode libs client env b None cj r = framed_Decode SchemaTypeJSON (compile_json libs) (finish_json libs) client env b cj r"
  by (simp_all add: avro_Decode_def proto_Decode_def json_Decode_def framed_Decode_def finish_avro_def finish_proto_def finish_json_def
      split: sum.split prod.split option.split)

text \<open>Decoding in terms of the libraries alone.\<close>

definition run_finish :: "('c \<Rightarrow> bytes \<Rightarrow> 'e codec_error + 'o data) \<Rightarrow> 'c option \<Rightarrow> bytes \<Rightarrow> 'e codec_error + 'o data" where
  "run_finish finish c payload = (case c of None \<Rightarrow> Inl CompileFailed | Some c \<Rightarrow> finish c payload)"

definition decoded :: "('o, 'a, 's, 'f, 'd, 'm) codec_libs \<Rightarrow> SchemaMetadata \<Rightarrow> bytes \<Rightarrow> 'e codec_error + 'o data" where
  "decoded libs md payload =
    (if md_SchemaType md = SchemaTypeAvro then run_finish (finish_avro libs) (compile_avro libs md) payload
     else if md_SchemaType md = SchemaTypeProtobuf then run_finish (finish_proto libs) (compile_proto libs md) payload
     else run_finish (finish_json libs) (compile_json libs md) payload)"

lemma snd_case2: "snd (case p of (x, r) \<Rightarrow> (x, f r)) = f (snd p)"
  by (cases p) auto

lemma fst_case3: "fst (case p of (x, c, r) \<Rightarrow> (x, f c r)) = fst p"
  by (cases p) auto

context live_registry
begin

text \<open>Reading any bytes keeps the caches right; a frame of the decoder's type is read as the libraries do, others are refused.\<close>

lemma framed_keeps:
  assumes "inv r" "compiled_ok meaning compile cache" "by_schema compile" "framed_Decode T compile finish client env b cache r = (x, cache', r')"
  shows "inv r' \<and> compiled_ok meaning compile cache'"
proof -
  have res: "inv r2 \<and> (\<forall>md. y = Inr md \<longrightarrow> agrees meaning md)" if y: "resolve_schema client env i None r = (y, r2)" for i y r2
  proof -
    obtain z r3 where z: "rc_GetSchema client env i r = (z, r3)" by (rule prod.exhaust)
    then show ?thesis using y get_schema [OF assms(1) z] by (cases z) (auto simp: resolve_schema_def)
  qed
  then show ?thesis using assms(1,2,4) compiled_spec(2) [OF assms(2) _ assms(3)]
    by (auto simp: framed_Decode_def split: sum.splits prod.splits if_splits option.splits dest!: res) (metis snd_conv)+
qed

lemma framed_spec:
  assumes "inv r" "agrees meaning md" "compiled_ok meaning compile cache" "by_schema compile"
  shows "fst (framed_Decode T compile finish client env (wire_encode (md_ID md) payload) cache r) =
    (if md_SchemaType md = T then run_finish finish (compile md) payload else Inl (WrongType T (md_SchemaType md)))"
proof -
  have i: "0 \<le> md_ID md" "md_ID md < 2 ^ 32" using small_ids [OF assms(1), of "md_ID md"] assms(2) by (auto simp: agrees_def)
  obtain md' r' where res: "resolve_schema client env (md_ID md) None r = (Inr md', r')" and md': "agrees meaning md'"
    and same: "md_ID md' = md_ID md" "md_Schema md' = md_Schema md" "md_SchemaType md' = md_SchemaType md"
    using resolve_known [OF assms(1,2)] by blast
  obtain c' where "compiled compile md' cache = (compile md', c')" using compiled_eq [OF assms(3) md' assms(4)] by blast
  moreover have "compile md' = compile md" using assms(4) same unfolding by_schema_def by blast
  ultimately show ?thesis using same(3) by (simp add: framed_Decode_def wire_roundtrip [OF i] res run_finish_def split: option.split)
qed

lemma codec_Decode_keeps:
  assumes ok: "cm_ok inv meaning libs cm" and dec: "codec_Decode libs client env t b cm = (x, cm')"
  shows "cm_ok inv meaning libs cm'"
proof -
  note keeps = framed_keeps [OF cm_ok_sel(1) [OF ok] cm_ok_sel(3) [OF ok] by_schema_simps(1)]
    framed_keeps [OF cm_ok_sel(1) [OF ok] cm_ok_sel(4) [OF ok] by_schema_simps(2)] framed_keeps [OF cm_ok_sel(1) [OF ok] cm_ok_sel(5) [OF ok] by_schema_simps(3)]
  show ?thesis using dec ok
    by (auto simp: codec_Decode_def decoders_framed split: prod.splits if_splits dest!: keeps intro!: cm_ok_both [OF ok])
qed

lemma codec_Decode_spec:
  assumes ok: "cm_ok inv meaning libs cm" and md: "agrees meaning md" and t: "is_codec t"
  shows "fst (codec_Decode libs client env t (wire_encode (md_ID md) payload) cm) =
    (if md_SchemaType md = t then decoded libs md payload else Inl (WrongType t (md_SchemaType md)))"
proof -
  note specs = framed_spec [OF cm_ok_sel(1) [OF ok] md cm_ok_sel(3) [OF ok] by_schema_simps(1)]
    framed_spec [OF cm_ok_sel(1) [OF ok] md cm_ok_sel(4) [OF ok] by_schema_simps(2)]
    framed_spec [OF cm_ok_sel(1) [OF ok] md cm_ok_sel(5) [OF ok] by_schema_simps(3)]
  show ?thesis using t by (auto simp: is_codec_def codec_Decode_def decoders_framed fst_case3 specs decoded_def)
qed

text \<open>The loop over the codecs finds the right one whatever the order.\<close>

lemma decode_loop_spec:
  assumes "cm_ok inv meaning libs cm" "agrees meaning md" "\<forall>t \<in> set ts. is_codec t" "md_SchemaType md \<in> set ts"
    "decoded libs md payload = (Inr v :: 'e codec_error + _)"
  shows "fst (decode_loop libs client envs (wire_encode (md_ID md) payload) n ts lastErr cm) = Inr v"
  using assms(1,3,4)
proof (induction ts arbitrary: n lastErr cm)
  case (Cons t ts)
  obtain x cm' where dec: "codec_Decode libs client (envs n) t (wire_encode (md_ID md) payload) cm = (x, cm')" by (rule prod.exhaust)
  have ok': "cm_ok inv meaning libs cm'" using codec_Decode_keeps [OF Cons.prems(1) dec] .
  have x: "x = (if md_SchemaType md = t then Inr v else Inl (WrongType t (md_SchemaType md)))"
    using codec_Decode_spec [OF Cons.prems(1) assms(2), of t "envs n" payload] Cons.prems(2) dec assms(5) by simp
  show ?case
  proof (cases "md_SchemaType md = t")
    case True
    then show ?thesis using dec x by simp
  next
    case False
    then show ?thesis using dec x Cons.IH [OF ok'] Cons.prems by simp
  qed
qed simp

lemma Decode_spec:
  assumes ok: "cm_ok inv meaning libs cm" and md: "agrees meaning md" "is_codec (md_SchemaType md)" and v: "decoded libs md payload = (Inr v :: 'e codec_error + _)"
    and order: "set order = set [SchemaTypeAvro, SchemaTypeProtobuf, SchemaTypeJSON]"
  shows "fst (cm_Decode libs client envs order dur (wire_encode (md_ID md) payload) config cm) = Inr v"
proof -
  let ?b = "wire_encode (md_ID md) payload" and ?t = "sc_SchemaType config"
  have loop: "fst (decode_loop libs client envs ?b n order lastErr cm2) = Inr v" if "cm_ok inv meaning libs cm2" for n lastErr cm2
    using decode_loop_spec [OF that md(1) _ _ v, of order envs n lastErr] order md(2) by (auto simp: is_codec_def)
  show ?thesis
  proof (cases "?t \<noteq> [] \<and> is_codec ?t")
    case True
    obtain x cm' where dec: "codec_Decode libs client (envs 0) ?t ?b cm = (x, cm')" by (rule prod.exhaust)
    have "x = (if md_SchemaType md = ?t then Inr v else Inl (WrongType ?t (md_SchemaType md)))"
      using codec_Decode_spec [OF ok md(1), of ?t "envs 0" payload] True dec v by simp
    then show ?thesis using True dec loop [OF codec_Decode_keeps [OF ok dec]] by (auto simp: cm_Decode_def)
  next
    case False
    then show ?thesis using loop [OF ok] by (auto simp: cm_Decode_def)
  qed
qed

text \<open>Encoding looks the schema up, in the cache or in the registry.\<close>

lemma Encode_spec:
  assumes ok: "cm_ok inv meaning libs cm" and enc: "cm_Encode libs client env dur subject data config cm = (x, cm')"
  shows "cm_ok inv meaning libs cm'"
    "x = Inr b \<Longrightarrow> \<exists>md payload. agrees meaning md \<and> encoded libs md data = Some payload \<and> b = wire_encode (md_ID md) payload"
proof -
  obtain y cm1 where y: "getSchemaMetadata client env subject config cm = (y, cm1)" by (rule prod.exhaust)
  let ?look = "if 0 < sc_Version config then rc_GetSchemaByVersion client env subject (sc_Version config) (cm_registry cm)
    else rc_GetLatestSchema client env subject (cm_registry cm)"
  obtain z r where z: "?look = (z, r)" by (rule prod.exhaust)
  note look = lookup_agrees [OF cm_ok_sel(1) [OF ok] z]
  have md: "cm_ok inv meaning libs cm1 \<and> (\<forall>md. y = Inr md \<longrightarrow> agrees meaning md)"
    using y ok look cm_ok_registry [OF ok look(1)] cm_ok_sel(2) [OF ok] unfolding getSchemaMetadata_def z
    by (cases z) (auto split: option.splits intro!: cm_ok_cache)
  have step: "cm_ok inv meaning libs cm2 \<and> (w = Inr b \<longrightarrow> (\<exists>payload. encoded libs m data = Some payload \<and> b = wire_encode (md_ID m) payload))"
    if "y = Inr m" "codec_Encode libs (md_SchemaType m) data m cm1 = (w, cm2)" for m w cm2
    using codec_Encode_spec(1) [OF _ _ that(2)] codec_Encode_spec(2) [OF _ _ that(2)] md that(1) by blast
  have "cm_ok inv meaning libs cm' \<and> (x = Inr b \<longrightarrow>
      (\<exists>md payload. agrees meaning md \<and> encoded libs md data = Some payload \<and> b = wire_encode (md_ID md) payload))"
  proof (cases y)
    case (Inl e)
    then show ?thesis using enc md unfolding cm_Encode_def y by auto
  next
    case (Inr m)
    obtain w :: "'e codec_error + bytes" and cm2 where w: "codec_Encode libs (md_SchemaType m) data m cm1 = (w, cm2)" by (rule prod.exhaust)
    have out: "(x, cm') = (case w of Inl e \<Rightarrow> (Inl e, recordDuration dur (cm_recordError cm2)) | Inr b \<Rightarrow> (Inr b, recordDuration dur (recordEncode cm2)))"
      using enc unfolding cm_Encode_def y Inr by (simp add: w split: sum.split)
    show ?thesis using out step [OF Inr w] md Inr by (cases w) auto
  qed
  then show "cm_ok inv meaning libs cm'"
    "x = Inr b \<Longrightarrow> \<exists>md payload. agrees meaning md \<and> encoded libs md data = Some payload \<and> b = wire_encode (md_ID md) payload" by blast+
qed

lemma decode_loop_keeps:
  assumes "cm_ok inv meaning libs cm"
  shows "cm_ok inv meaning libs (snd (decode_loop libs client envs b n ts lastErr cm))"
  using assms
proof (induction ts arbitrary: n lastErr cm)
  case (Cons t ts)
  obtain x cm' where dec: "codec_Decode libs client (envs n) t b cm = (x, cm')" by (rule prod.exhaust)
  show ?case using dec Cons.IH codec_Decode_keeps [OF Cons.prems dec] by (cases x) simp_all
qed simp

lemma Decode_keeps:
  assumes "cm_ok inv meaning libs cm"
  shows "cm_ok inv meaning libs (snd (cm_Decode libs client envs order dur b config cm))"
proof (cases "sc_SchemaType config \<noteq> [] \<and> is_codec (sc_SchemaType config)")
  case True
  obtain x cm' where dec: "codec_Decode libs client (envs 0) (sc_SchemaType config) b cm = (x, cm')" by (rule prod.exhaust)
  show ?thesis using True dec codec_Decode_keeps [OF assms dec] decode_loop_keeps by (cases x) (simp_all add: cm_Decode_def)
next
  case False
  then show ?thesis using decode_loop_keeps [OF assms] by (auto simp: cm_Decode_def)
qed

lemma test_versions_keeps: "inv r \<Longrightarrow> inv (snd (test_versions client subject schema t vs r))"
proof (induction vs arbitrary: r)
  case (Cons v vs)
  obtain y r' where y: "rc_TestCompatibility client subject schema t v r = (y, r')" by (rule prod.exhaust)
  show ?case using y Cons.IH test_compat [OF Cons.prems y] by (cases y) simp_all
qed simp

lemma Compatibility_keeps:
  assumes "cm_ok inv meaning libs cm"
  shows "cm_ok inv meaning libs (snd (ValidateCompatibility client subject schema t mode cm))"
proof -
  obtain y r where y: "rc_GetVersions client subject (cm_registry cm) = (y, r)" by (rule prod.exhaust)
  have r: "inv r" using versions [OF cm_ok_sel(1) [OF assms] y] .
  show ?thesis using y cm_ok_registry [OF assms r] cm_ok_registry [OF assms test_versions_keeps [OF r]]
    by (cases y) (auto simp: ValidateCompatibility_def snd_case2 split: option.split)
qed

lemma Register_keeps:
  assumes "cm_ok inv meaning libs cm"
  shows "cm_ok inv meaning libs (snd (cm_RegisterSchema libs client env subject schema config cm))"
proof -
  let ?check = "if sc_Compatibility config \<noteq> CompatibilityNone
      then ValidateCompatibility client subject schema (sc_SchemaType config) (sc_Compatibility config) cm else (Inr True, cm)"
  obtain y cm1 where y: "?check = (y, cm1)" by (rule prod.exhaust)
  have ok1: "cm_ok inv meaning libs cm1"
    using assms Compatibility_keeps [OF assms, of subject schema "sc_SchemaType config" "sc_Compatibility config"] y by (auto split: if_splits)
  obtain z r where z: "rc_RegisterSchema client env subject schema (sc_SchemaType config) [] (cm_registry cm1) = (z, r)" by (rule prod.exhaust)
  note reg = register [OF cm_ok_sel(1) [OF ok1] z]
  have ok2: "cm_ok inv meaning libs (cm1\<lparr>cm_registry := r\<rparr>)" using cm_ok_registry [OF ok1] reg by blast
  show ?thesis unfolding cm_RegisterSchema_def y
    using assms ok1 ok2 reg cm_ok_cache [OF ok2] by (cases z) (auto simp: z split: sum.split bool.split)
qed

end

section \<open>The registry client as a provider\<close>

text \<open>The server answers for every identifier it has given out, and identifiers have 32 bits.\<close>

definition answering_client :: "('w, 'e) srclient \<Rightarrow> (int \<rightharpoonup> string \<times> SchemaType) \<Rightarrow> bool" where
  "answering_client c meaning \<longleftrightarrow>
    (\<forall>i w. meaning i \<noteq> None \<longrightarrow> (\<exists>s w'. cl_GetSchema c i w = (Inr s, w'))) \<and> (\<forall>i. meaning i \<noteq> None \<longrightarrow> 0 \<le> i \<and> i < 2 ^ 32)"

definition live_inv :: "(int \<rightharpoonup> string \<times> SchemaType) \<Rightarrow> ('w, 'e) schemaRegistry \<Rightarrow> bool" where
  "live_inv meaning r \<longleftrightarrow> reg_inv meaning r \<and> answering_client (sr_client r) meaning"

lemma remember_client [simp]: "sr_client (remember env i md r) = sr_client r"
  by (simp add: remember_def addToCache_def)

lemma call_client: "client_call f r = (x, r') \<Longrightarrow> sr_client r' = sr_client r"
  by (auto simp: client_call_def split: prod.splits)

lemma ops_client:
  "GetSchema env i r = (x, r') \<Longrightarrow> sr_client r' = sr_client r" "fetch_subject env msg sub f r = (y, r') \<Longrightarrow> sr_client r' = sr_client r"
  "reg_RegisterSchema env sub sch t refs r = (x, r') \<Longrightarrow> sr_client r' = sr_client r" "pass_value msg g r = (z, r') \<Longrightarrow> sr_client r' = sr_client r"
  by (auto simp: GetSchema_def fetch_subject_def reg_RegisterSchema_def pass_value_def Let_def split: option.splits prod.splits sum.splits if_splits
      dest!: call_client)

lemma GetSchema_answers:
  assumes "live_inv meaning r" "meaning i \<noteq> None"
  shows "\<exists>md r'. GetSchema env i r = (Inr md, r')"
proof -
  have "\<exists>s w'. cl_GetSchema (sr_client r) i w = (Inr s, w')" for w using assms by (simp add: live_inv_def answering_client_def)
  then have calls: "\<exists>s r2. client_call (cl_GetSchema (sr_client r) i) r1 = (Inr s, r2)" for r1
    by (metis (mono_tags, lifting) client_call_def case_prod_conv)
  define cached where "cached = (if CacheEnabled (sr_config (recordRequest r)) then getFromCache (re_lookup env) i (sr_cache (recordRequest r)) else None)"
  define r1 where "r1 = (if CacheEnabled (sr_config (recordRequest r)) then recordCacheMiss (recordRequest r) else recordRequest r)"
  have "sr_client r1 = sr_client r" by (simp add: r1_def)
  then obtain s r2 where "client_call (cl_GetSchema (sr_client r1) i) r1 = (Inr s, r2)" using calls [of r1] by auto
  then show ?thesis unfolding GetSchema_def Let_def cached_def [symmetric] r1_def [symmetric] by (cases cached) simp_all
qed

lemma live_step: "live_inv meaning r \<Longrightarrow> reg_inv meaning r' \<Longrightarrow> sr_client r' = sr_client r \<Longrightarrow> live_inv meaning r'"
  by (simp add: live_inv_def)

lemma live_reg: "live_inv meaning r \<Longrightarrow> reg_inv meaning r"
  by (simp add: live_inv_def)

interpretation live: live_registry registry_client "live_inv meaning" meaning for meaning
proof unfold_locales
  fix r r' :: "('a, 'b) schemaRegistry" and env i x
  assume inv: "live_inv meaning r" and op: "rc_GetSchema registry_client env i r = (x, r')"
  then have "sr_client r' = sr_client r" using ops_client(1) by (simp add: registry_client_def)
  then show "live_inv meaning r' \<and> (\<forall>md. x = Inr md \<longrightarrow> md_ID md = i \<and> agrees meaning md)"
    using registry.get_schema [OF live_reg [OF inv] op] live_step [OF inv] by blast
next
  fix r r' :: "('a, 'b) schemaRegistry" and env s x
  assume inv: "live_inv meaning r" and op: "rc_GetLatestSchema registry_client env s r = (x, r')"
  then have "sr_client r' = sr_client r" using ops_client(2) by (simp add: registry_client_def GetLatestSchema_def)
  then show "live_inv meaning r' \<and> (\<forall>md. x = Inr md \<longrightarrow> agrees meaning md)"
    using registry.get_latest [OF live_reg [OF inv] op] live_step [OF inv] by blast
next
  fix r r' :: "('a, 'b) schemaRegistry" and env s v x
  assume inv: "live_inv meaning r" and op: "rc_GetSchemaByVersion registry_client env s v r = (x, r')"
  then have "sr_client r' = sr_client r" using ops_client(2) by (simp add: registry_client_def GetSchemaByVersion_def)
  then show "live_inv meaning r' \<and> (\<forall>md. x = Inr md \<longrightarrow> agrees meaning md)"
    using registry.get_version [OF live_reg [OF inv] op] live_step [OF inv] by blast
next
  fix r r' :: "('a, 'b) schemaRegistry" and env s sch t refs x
  assume inv: "live_inv meaning r" and op: "rc_RegisterSchema registry_client env s sch t refs r = (x, r')"
  then have "sr_client r' = sr_client r" using ops_client(3) by (simp add: registry_client_def)
  then show "live_inv meaning r' \<and> (\<forall>md. x = Inr md \<longrightarrow> agrees meaning md \<and> md_Schema md = sch \<and> md_SchemaType md = t)"
    using registry.register [OF live_reg [OF inv] op] live_step [OF inv] by blast
next
  fix r r' :: "('a, 'b) schemaRegistry" and s sch t v y
  assume inv: "live_inv meaning r" and op: "rc_TestCompatibility registry_client s sch t v r = (y, r')"
  then have "sr_client r' = sr_client r" using ops_client(4) by (simp add: registry_client_def TestCompatibility_def)
  then show "live_inv meaning r'" using registry.test_compat [OF live_reg [OF inv] op] live_step [OF inv] by blast
next
  fix r r' :: "('a, 'b) schemaRegistry" and s z
  assume inv: "live_inv meaning r" and op: "rc_GetVersions registry_client s r = (z, r')"
  then have "sr_client r' = sr_client r" using ops_client(4) by (simp add: registry_client_def GetVersions_def)
  then show "live_inv meaning r'" using registry.versions [OF live_reg [OF inv] op] live_step [OF inv] by blast
next
  fix r :: "('a, 'b) schemaRegistry" and i env
  assume "live_inv meaning r" "meaning i \<noteq> None"
  then show "\<exists>md r'. rc_GetSchema registry_client env i r = (Inr md, r')" using GetSchema_answers by (simp add: registry_client_def)
next
  fix r :: "('a, 'b) schemaRegistry" and i
  assume "live_inv meaning r" "meaning i \<noteq> None"
  then show "0 \<le> i \<and> i < 2 ^ 32" by (simp add: live_inv_def answering_client_def)
qed

section \<open>Runs of the manager\<close>

inductive cm_step ::
  "('o, 'a, 's, 'f, 'd, 'm) codec_libs \<Rightarrow> (('w, 'e) schemaRegistry, 'a, 's, 'd) CodecManager \<Rightarrow> (('w, 'e) schemaRegistry, 'a, 's, 'd) CodecManager \<Rightarrow> bool"
  for libs where
  encode: "cm_step libs cm (snd (cm_Encode libs registry_client env dur subject data config cm))"
| decode: "cm_step libs cm (snd (cm_Decode libs registry_client envs order dur b config cm))"
| compat: "cm_step libs cm (snd (ValidateCompatibility registry_client subject schema t mode cm))"
| register: "cm_step libs cm (snd (cm_RegisterSchema libs registry_client env subject schema config cm))"
| clear: "cm_step libs cm (ClearCache cm)"

definition cm_init :: "(int \<rightharpoonup> string \<times> SchemaType) \<Rightarrow> (('w, 'e) schemaRegistry, 'a, 's, 'd) CodecManager \<Rightarrow> bool" where
  "cm_init meaning cm \<longleftrightarrow> (\<exists>tls_ok client w config r. NewRegistryClient tls_ok client w config = Inr r \<and> faithful_client client meaning \<and>
     answering_client client meaning \<and> cm = NewCodecManager r)"

lemma cm_init_ok: "cm_init meaning cm \<Longrightarrow> cm_ok (live_inv meaning) meaning libs cm"
  by (auto simp: cm_init_def cm_ok_def NewCodecManager_def compiled_ok_def live_inv_def reg_inv_def cache_ok_def NewRegistryClient_def split: if_splits)

lemma cm_step_ok: "cm_step libs cm cm' \<Longrightarrow> cm_ok (live_inv meaning) meaning libs cm \<Longrightarrow> cm_ok (live_inv meaning) meaning libs cm'"
proof (induction rule: cm_step.induct)
  case (encode cm env dur subject data config)
  then show ?case using live.Encode_spec(1) [OF encode prod.collapse [symmetric]] by simp
next
  case (clear cm)
  then show ?case by (simp add: cm_ok_def ClearCache_def)
qed (simp_all add: live.Decode_keeps live.Compatibility_keeps live.Register_keeps)

interpretation codec_runs: stepping "cm_init meaning" "cm_step libs" "cm_ok (live_inv meaning) meaning libs" for meaning libs
  by unfold_locales (auto intro: cm_init_ok cm_step_ok)

text \<open>The libraries give back what they encoded: JSON values unchanged, Avro data as its schema reads it.\<close>

definition libs_roundtrip :: "('o, 'a, 's, 'f, 'd, 'm) codec_libs \<Rightarrow> ('a \<Rightarrow> (string \<times> json) list \<Rightarrow> 'o data) \<Rightarrow> bool" where
  "libs_roundtrip libs native \<longleftrightarrow> (\<forall>j b. json_Marshal libs (Json j) = Some b \<longrightarrow> json_Unmarshal libs b = Some j) \<and>
    (\<forall>a m b. goavro_Binary libs a m = Some b \<longrightarrow> goavro_Native libs a b = Some (native a m))"

text \<open>The value an event has after a round trip.\<close>

definition roundtrip_value ::
  "('o, 'a, 's, 'f, 'd, 'm) codec_libs \<Rightarrow> ('a \<Rightarrow> (string \<times> json) list \<Rightarrow> 'o data) \<Rightarrow> SchemaMetadata \<Rightarrow> 'o data \<Rightarrow> 'o data option" where
  "roundtrip_value libs native md data =
    (if md_SchemaType md = SchemaTypeAvro
     then (case (compile_avro libs md, toNative libs data) of (Some a, Some m) \<Rightarrow> Some (native a m) | _ \<Rightarrow> None)
     else if md_SchemaType md = SchemaTypeJSON then map_option Json (to_interface libs data) else None)"

lemma decoded_encoded:
  assumes "libs_roundtrip libs native" "encoded libs md data = Some payload" "md_SchemaType md \<noteq> SchemaTypeProtobuf"
  obtains v where "roundtrip_value libs native md data = Some v" "decoded libs md payload = Inr v" "is_codec (md_SchemaType md)"
proof -
  have "\<exists>v. roundtrip_value libs native md data = Some v \<and> decoded libs md payload = Inr v \<and> is_codec (md_SchemaType md)"
    using assms
    by (auto simp: encoded_def decoded_def roundtrip_value_def libs_roundtrip_def run_finish_def finish_avro_def finish_json_def is_codec_def bind_eq_Some_conv
        split: if_splits option.splits)
  with that show thesis by blast
qed


text \<open>Protocol Buffers lose their data in both directions: whatever map is encoded, the message is the empty one, and
  whatever message is decoded, the result is the nil map.\<close>

theorem protobuf_loses_data:
  "populateMessage libs msg (Json (JObj m)) = populateMessage libs msg (Json (JObj m'))"
  "fst (proto_Decode libs client env b given cache r) = Inr v \<Longrightarrow> v = Json (JObj [])"
  by (auto simp: populateMessage_def proto_Decode_def messageToMap_def split: sum.splits prod.splits if_splits option.splits)

text \<open>The key under which a registration is cached is never looked up, so a manager that has used the latest schema of a
  subject goes on using it after a new one has been registered.\<close>

theorem registration_not_seen:
  assumes "cm_schemaCache cm (cache_key subject (sc_Version config)) = Some old"
  shows "fst (getSchemaMetadata client env subject config (cacheSchemaMetadata subject new cm)) = Inr old"
proof -
  have "length (cache_key subject (sc_Version config)) > length subject" by (simp add: cache_key_def)
  then have "cache_key subject (sc_Version config) \<noteq> subject" by auto
  then show ?thesis using assms by (simp add: getSchemaMetadata_def cacheSchemaMetadata_def)
qed

text \<open>A server with one Avro schema, and an Avro library for records with one flag.\<close>

definition flag_client :: "(unit, unit) srclient" where
  "flag_client = (let s = \<lparr>cs_ID = 7, cs_Version = 1, cs_Schema = ''s'', cs_SchemaType = ''AVRO''\<rparr> in
     example_client\<lparr>cl_GetSchema := (\<lambda>i w. (if i = 7 then Inr s else Inl (), w))\<rparr>)"

definition flag_libs :: "(unit, unit, unit, unit, unit, unit) codec_libs" where
  "flag_libs = \<lparr>json_Marshal = (\<lambda>d. None), json_Unmarshal = (\<lambda>b. None), goavro_NewCodec = (\<lambda>s. Some ()),
     goavro_Binary = (\<lambda>a m. if m = [(''ok'', JBool True)] then Some [1] else if m = [(''ok'', JBool False)] then Some [0] else None),
     goavro_Native = (\<lambda>a b. if b = [1] then Some (Json (JObj [(''ok'', JBool True)])) else if b = [0] then Some (Json (JObj [(''ok'', JBool False)])) else None),
     jsonschema_Compile = (\<lambda>u s. None), jsonschema_Valid = (\<lambda>s j. False), proto_Files = (\<lambda>s. None), proto_FirstFile = (\<lambda>f. None), dynamicpb_New = (\<lambda>d. ()),
     protojson_Marshal = (\<lambda>m. None), protojson_Unmarshal = (\<lambda>b m. None), proto_Marshal = (\<lambda>m. None), proto_Unmarshal = (\<lambda>b m. None), proto_Message = (\<lambda>x. None)\<rparr>"

definition flag_manager :: "((unit, unit) schemaRegistry, unit, unit, unit) CodecManager" where
  "flag_manager = NewCodecManager (example_registry\<lparr>sr_client := flag_client\<rparr>)"

lemma flag_init: "cm_init [7 \<mapsto> (''s'', ''AVRO'')] flag_manager"
proof -
  have "NewRegistryClient True flag_client () example_config = Inr (example_registry\<lparr>sr_client := flag_client\<rparr>)"
    by (simp add: NewRegistryClient_def example_registry_def example_config_def)
  moreover have "faithful_client flag_client [7 \<mapsto> (''s'', ''AVRO'')]" "answering_client flag_client [7 \<mapsto> (''s'', ''AVRO'')]"
    by (auto simp: faithful_client_def answering_client_def flag_client_def example_client_def Let_def split: if_splits)
  ultimately show ?thesis unfolding cm_init_def flag_manager_def by blast
qed

definition flag_config :: SchemaConfig where
  "flag_config = \<lparr>sc_Subject = ''sub'', sc_SchemaType = ''AVRO'', sc_Version = 0, sc_AutoRegister = False, sc_Compatibility = ''NONE'',
     sc_ValidateOnRead = False, sc_ValidateOnWrite = False\<rparr>"


end
