(* ===== verification/IoT_Sensors.thy ===== *)
theory IoT_Sensors
  imports Checkpoints Complex_Main
begin

text \<open>
  Sensor streams, \<open>pkg/iot/sensor.go\<close>: aggregation per device and window, threshold alerts, and predictive
  maintenance. Numbers of type \<open>float64\<close> are exact reals. An operator is its closure on the decoded reading, the time of the event standing in for a missing timestamp.
\<close>

section \<open>Data\<close>

record SensorReading =
  r_SensorID :: string
  r_DeviceID :: string
  r_Location :: string
  r_SensorType :: string
  r_Value :: real
  r_Unit :: string
  r_Timestamp :: gtime
  r_Quality :: string
  r_Metadata :: "(string \<times> json) list"

record SensorStats =
  ss_SensorID :: string
  ss_SensorType :: string
  ss_Min :: real
  ss_Max :: real
  ss_Average :: real
  ss_StdDev :: real
  ss_Count :: int
  ss_LastValue :: real
  ss_Trend :: string

record AggregatedSensorData =
  ag_DeviceID :: string
  ag_Location :: string
  ag_WindowStart :: gtime
  ag_WindowEnd :: gtime
  ag_SensorCount :: int
  ag_ReadingCount :: int
  ag_Sensors :: "string \<rightharpoonup> SensorStats"

record Alert =
  al_AlertID :: string
  al_SensorID :: string
  al_DeviceID :: string
  al_AlertType :: string
  al_Severity :: string
  al_Message :: string
  al_Value :: real
  al_Threshold :: real
  al_Timestamp :: gtime
  al_Acknowledged :: bool
  al_Metadata :: "string \<rightharpoonup> string"

record ThresholdRule =
  ru_RuleID :: string
  ru_SensorType :: string
  ru_MinValue :: real
  ru_MaxValue :: real
  ru_Severity :: string
  ru_Description :: string

section \<open>Aggregation\<close>

record MultiSensorAggregator =
  deviceData :: "string \<rightharpoonup> AggregatedSensorData"
  windowDuration :: duration

definition NewMultiSensorAggregator :: "duration \<Rightarrow> MultiSensorAggregator" where
  "NewMultiSensorAggregator d = \<lparr>deviceData = Map.empty, windowDuration = d\<rparr>"

definition new_window_data :: "duration \<Rightarrow> SensorReading \<Rightarrow> AggregatedSensorData" where
  "new_window_data d reading = \<lparr>ag_DeviceID = r_DeviceID reading, ag_Location = r_Location reading, ag_WindowStart = r_Timestamp reading,
     ag_WindowEnd = time_Add (r_Timestamp reading) d, ag_SensorCount = 0, ag_ReadingCount = 0, ag_Sensors = Map.empty\<rparr>"

definition new_sensor_stats :: "SensorReading \<Rightarrow> SensorStats" where
  "new_sensor_stats reading = \<lparr>ss_SensorID = r_SensorID reading, ss_SensorType = r_SensorType reading, ss_Min = r_Value reading,
     ss_Max = r_Value reading, ss_Average = r_Value reading, ss_StdDev = 0, ss_Count = 0, ss_LastValue = 0, ss_Trend = []\<rparr>"

definition trend_of :: "real \<Rightarrow> real \<Rightarrow> string" where
  "trend_of v average =
    (if v > average * (105 / 100) then ''increasing'' else if v < average * (95 / 100) then ''decreasing'' else ''stable'')"

definition update_sensor :: "SensorReading \<Rightarrow> SensorStats \<Rightarrow> SensorStats" where
  "update_sensor reading st0 =
    (let v = r_Value reading;
         st1 = st0\<lparr>ss_Count := ss_Count st0 + 1\<rparr>;
         st2 = (if v < ss_Min st1 then st1\<lparr>ss_Min := v\<rparr> else st1);
         st3 = (if v > ss_Max st2 then st2\<lparr>ss_Max := v\<rparr> else st2);
         st4 = st3\<lparr>ss_Average := (ss_Average st3 * of_int (ss_Count st3 - 1) + v) / of_int (ss_Count st3), ss_LastValue := v\<rparr>
     in if ss_Count st4 > 1 then st4\<lparr>ss_Trend := trend_of v (ss_Average st4)\<rparr> else st4)"

definition AddReading :: "SensorReading \<Rightarrow> MultiSensorAggregator \<Rightarrow> AggregatedSensorData \<times> MultiSensorAggregator" where
  "AddReading reading msa =
    (let data0 = (case deviceData msa (r_DeviceID reading) of
                    Some data \<Rightarrow> if time_After (r_Timestamp reading) (ag_WindowEnd data) then new_window_data (windowDuration msa) reading else data
                  | None \<Rightarrow> new_window_data (windowDuration msa) reading);
         (st, data1) = (case ag_Sensors data0 (r_SensorID reading) of
                    Some st \<Rightarrow> (st, data0)
                  | None \<Rightarrow> (new_sensor_stats reading, data0\<lparr>ag_SensorCount := ag_SensorCount data0 + 1\<rparr>));
         data2 = data1\<lparr>ag_ReadingCount := ag_ReadingCount data1 + 1,
                    ag_Sensors := (ag_Sensors data1)(r_SensorID reading \<mapsto> update_sensor reading st)\<rparr>
     in (data2, msa\<lparr>deviceData := (deviceData msa)(r_DeviceID reading \<mapsto> data2)\<rparr>))"

definition with_time :: "gtime \<Rightarrow> SensorReading \<Rightarrow> SensorReading" where
  "with_time t reading = (if time_IsZero (r_Timestamp reading) then reading\<lparr>r_Timestamp := t\<rparr> else reading)"

text \<open>The operator: the decoded reading with the time of the event where it has none; its result is the data that goes
  into the new event under the device's key.\<close>

definition MultiSensorAggregationOperator ::
  "gtime \<Rightarrow> SensorReading \<Rightarrow> MultiSensorAggregator \<Rightarrow> (string \<times> AggregatedSensorData) \<times> MultiSensorAggregator" where
  "MultiSensorAggregationOperator event_time reading msa =
    (case AddReading (with_time event_time reading) msa of (data, msa') \<Rightarrow> ((r_DeviceID reading, data), msa'))"

section \<open>Threshold alerts\<close>

record ThresholdMonitor =
  tm_rules :: "string \<rightharpoonup> ThresholdRule list"
  tm_alerts :: "string \<rightharpoonup> Alert"

definition add_rule :: "ThresholdRule \<Rightarrow> (string \<rightharpoonup> ThresholdRule list) \<Rightarrow> (string \<rightharpoonup> ThresholdRule list)" where
  "add_rule rule m = m(ru_SensorType rule \<mapsto> get_or m (ru_SensorType rule) [] @ [rule])"

definition NewThresholdMonitor :: "ThresholdRule list \<Rightarrow> ThresholdMonitor" where
  "NewThresholdMonitor rules = \<lparr>tm_rules = fold add_rule rules Map.empty, tm_alerts = Map.empty\<rparr>"

definition alert_id :: "SensorReading \<Rightarrow> ThresholdRule \<Rightarrow> string" where
  "alert_id reading rule = r_SensorID reading @ ''-'' @ ru_RuleID rule @ ''-'' @ show_int (time_Unix (r_Timestamp reading))"

text \<open>Formatting with \<open>%.2f\<close>: the nearest multiple of one hundredth, an even one for a tie.\<close>

definition round_even :: "real \<Rightarrow> int" where
  "round_even x = (let k = \<lfloor>x\<rfloor> in if x - of_int k < 1 / 2 then k else if x - of_int k > 1 / 2 then k + 1 else if even k then k else k + 1)"

definition fmt_2f :: "real \<Rightarrow> string" where
  "fmt_2f x =
    (let k = round_even (\<bar>x\<bar> * 100)
     in (if x < 0 then ''-'' else []) @ show_int (k div 100) @ ''.'' @ show_int (k mod 100 div 10) @ show_int (k mod 10))"

definition alert_message :: "SensorReading \<Rightarrow> ThresholdRule \<Rightarrow> string" where
  "alert_message reading rule = ru_Severity rule @ '': '' @ ru_Description rule @ '' (value: '' @ fmt_2f (r_Value reading) @ '', expected: ''
     @ fmt_2f (ru_MinValue rule) @ ''-'' @ fmt_2f (ru_MaxValue rule) @ '')''"

definition mk_alert :: "SensorReading \<Rightarrow> ThresholdRule \<Rightarrow> Alert" where
  "mk_alert reading rule = \<lparr>al_AlertID = alert_id reading rule, al_SensorID = r_SensorID reading, al_DeviceID = r_DeviceID reading,
     al_AlertType = ''threshold'', al_Severity = ru_Severity rule, al_Message = alert_message reading rule, al_Value = r_Value reading, al_Threshold = ru_MaxValue rule,
     al_Timestamp = r_Timestamp reading, al_Acknowledged = False,
     al_Metadata = [''rule_id'' \<mapsto> ru_RuleID rule, ''sensor_type'' \<mapsto> r_SensorType reading, ''location'' \<mapsto> r_Location reading]\<rparr>"

fun check_loop :: "SensorReading \<Rightarrow> ThresholdRule list \<Rightarrow> Alert list \<Rightarrow> ThresholdMonitor \<Rightarrow> Alert list \<times> ThresholdMonitor" where
  "check_loop reading [] alerts tm = (alerts, tm)"
| "check_loop reading (rule # rules) alerts tm =
    (if r_Value reading < ru_MinValue rule \<or> r_Value reading > ru_MaxValue rule
     then (let alert = mk_alert reading rule
           in check_loop reading rules (alerts @ [alert]) (tm\<lparr>tm_alerts := (tm_alerts tm)(al_AlertID alert \<mapsto> alert)\<rparr>))
     else check_loop reading rules alerts tm)"

definition CheckReading :: "SensorReading \<Rightarrow> ThresholdMonitor \<Rightarrow> Alert list \<times> ThresholdMonitor" where
  "CheckReading reading tm =
    (case tm_rules tm (r_SensorType reading) of None \<Rightarrow> ([], tm) | Some rules \<Rightarrow> check_loop reading rules [] tm)"

text \<open>The loop of the operator returns in its first iteration.\<close>

definition ThresholdAlertOperator :: "gtime \<Rightarrow> SensorReading \<Rightarrow> ThresholdMonitor \<Rightarrow> (string \<times> Alert) option \<times> ThresholdMonitor" where
  "ThresholdAlertOperator event_time reading tm =
    (case CheckReading (with_time event_time reading) tm of
       ([], tm') \<Rightarrow> (None, tm')
     | (alert # alerts, tm') \<Rightarrow> (Some (al_SensorID alert, alert), tm'))"

section \<open>Predictive maintenance\<close>

record MaintenancePrediction =
  mp_SensorID :: string
  mp_DeviceID :: string
  mp_Timestamp :: gtime
  mp_RequiresMaintenance :: bool
  mp_Priority :: string
  mp_EstimatedDaysToFailure :: int
  mp_HealthScore :: "real option"
  mp_Trend :: real
  mp_DegradationRate :: real
  mp_Reason :: string

record MaintenancePredictor =
  sensorHistory :: "string \<rightharpoonup> SensorReading list"
  historySize :: nat
  degradationThreshold :: real

text \<open>The history of a sensor is made with the configured size as capacity, which must not be negative.\<close>

definition NewMaintenancePredictor :: "nat \<Rightarrow> real \<Rightarrow> MaintenancePredictor" where
  "NewMaintenancePredictor n t = \<lparr>sensorHistory = Map.empty, historySize = n, degradationThreshold = t\<rparr>"

text \<open>The sums of the loop over \<open>(i, reading)\<close>.\<close>

fun regression_sums :: "nat \<Rightarrow> real list \<Rightarrow> real \<times> real \<times> real \<times> real \<Rightarrow> real \<times> real \<times> real \<times> real" where
  "regression_sums i [] acc = acc"
| "regression_sums i (y # ys) (sumX, sumY, sumXY, sumX2) =
    regression_sums (Suc i) ys (sumX + real i, sumY + y, sumXY + real i * y, sumX2 + real i * real i)"

definition linearRegression :: "real list \<Rightarrow> real \<times> real" where
  "linearRegression ys =
    (let n = length ys in
     if n < 2 then (0, 0)
     else (let (sumX, sumY, sumXY, sumX2) = regression_sums 0 ys (0, 0, 0, 0);
               denominator = real n * sumX2 - sumX * sumX
           in if denominator = 0 then (0, sumY / real n)
              else (let slope = (real n * sumXY - sumX * sumY) / denominator
                    in (slope, (sumY - slope * sumX) / real n))))"

definition calculateDegradationRate :: "real list \<Rightarrow> real" where
  "calculateDegradationRate ys =
    (if length ys < 2 then 0
     else if hd ys = 0 then 0 else (last ys - hd ys) / hd ys)"

definition failure_thresholds :: "string \<rightharpoonup> real" where
  "failure_thresholds = [''temperature'' \<mapsto> 100, ''pressure'' \<mapsto> 150, ''vibration'' \<mapsto> 50, ''humidity'' \<mapsto> 95]"

definition estimateTimeToFailure :: "real \<Rightarrow> real \<Rightarrow> string \<Rightarrow> int" where
  "estimateTimeToFailure slope intercept sensorType =
    (let threshold = get_or failure_thresholds sensorType 100 in
     if slope = 0 then 365
     else (let days = (threshold - intercept) / slope
           in if days < 0 then 0 else if days > 365 then 365 else \<lfloor>days\<rfloor>))"

definition mean_of :: "real list \<Rightarrow> real" where
  "mean_of ys = sum_list ys / real (length ys)"

definition variance_of :: "real list \<Rightarrow> real" where
  "variance_of ys = sum_list (map (\<lambda>y. (y - mean_of ys) * (y - mean_of ys)) ys) / real (length ys)"

text \<open>The coefficient of variation of readings that are not empty. Division by a mean of zero gives infinity, or no
  number when all readings are zero.\<close>

datatype float = Fin real | Infinity | NaN

definition calculateVariance :: "real list \<Rightarrow> float" where
  "calculateVariance ys =
    (if ys = [] then Fin 0
     else if mean_of ys = 0 then (if variance_of ys = 0 then NaN else Infinity)
     else Fin (sqrt (variance_of ys) / mean_of ys))"

text \<open>The health score; \<open>None\<close> is the result that is not a number, also that of no readings at all. Minus infinity is raised to zero.\<close>

definition calculateHealthScore :: "SensorReading list \<Rightarrow> real \<Rightarrow> real option" where
  "calculateHealthScore readings degradationRate =
    (let base = 100 - \<bar>degradationRate\<bar> * 100;
         poor = real (length (filter (\<lambda>r. r_Quality r = ''poor'') readings)) / real (length readings) * 20;
         clamp = (\<lambda>s. if s < 0 then 0 else s)
     in if readings = [] then None
        else if length readings > 1
        then (case calculateVariance (map r_Value readings) of
                Fin v \<Rightarrow> Some (clamp (base - v * 5 - poor))
              | Infinity \<Rightarrow> Some 0
              | NaN \<Rightarrow> None)
        else Some (clamp (base - poor)))"

definition push_history :: "nat \<Rightarrow> 'a \<Rightarrow> 'a list \<Rightarrow> 'a list" where
  "push_history n reading history =
    (let h = history @ [reading] in if length h > n then tl h else h)"

definition PredictMaintenance :: "SensorReading \<Rightarrow> MaintenancePredictor \<Rightarrow> MaintenancePrediction option \<times> MaintenancePredictor" where
  "PredictMaintenance reading mp =
    (let history = push_history (historySize mp) reading (get_or (sensorHistory mp) (r_SensorID reading) []);
         mp' = mp\<lparr>sensorHistory := (sensorHistory mp)(r_SensorID reading \<mapsto> history)\<rparr>
     in if length history < 10 then (None, mp')
        else
          (let ys = map r_Value history;
               (slope, intercept) = linearRegression ys;
               rate = calculateDegradationRate ys;
               days = estimateTimeToFailure slope intercept (r_SensorType reading);
               (requires, priority, est, reason) =
                 (if \<bar>rate\<bar> > degradationThreshold mp
                  then (True, ''high'', days, ''Degradation rate ('' @ fmt_2f (rate * 100) @ ''%) exceeds threshold'')
                  else if \<bar>slope\<bar> > 1 / 2 then (True, ''medium'', days, ''Significant trend detected'')
                  else (False, ''low'', 0, ''Operating normally''))
           in (Some \<lparr>mp_SensorID = r_SensorID reading, mp_DeviceID = r_DeviceID reading, mp_Timestamp = r_Timestamp reading,
                 mp_RequiresMaintenance = requires, mp_Priority = priority, mp_EstimatedDaysToFailure = est,
                 mp_HealthScore = calculateHealthScore history rate, mp_Trend = slope, mp_DegradationRate = rate, mp_Reason = reason\<rparr>, mp')))"

definition PredictiveMaintenanceOperator ::
  "gtime \<Rightarrow> SensorReading \<Rightarrow> MaintenancePredictor \<Rightarrow> (string \<times> MaintenancePrediction) option \<times> MaintenancePredictor" where
  "PredictiveMaintenanceOperator event_time reading mp =
    (case PredictMaintenance (with_time event_time reading) mp of
       (None, mp') \<Rightarrow> (None, mp')
     | (Some p, mp') \<Rightarrow> (Some (r_SensorID reading, p), mp'))"

section \<open>Aggregates of the current window\<close>

text \<open>The readings of a device that belong to its current window: a reading later than the end of the window starts a new
  one.\<close>

definition window_add :: "duration \<Rightarrow> SensorReading list \<Rightarrow> SensorReading \<Rightarrow> SensorReading list" where
  "window_add d w r = (if w = [] \<or> time_After (r_Timestamp r) (time_Add (r_Timestamp (hd w)) d) then [r] else w @ [r])"

definition device_window :: "duration \<Rightarrow> string \<Rightarrow> SensorReading list \<Rightarrow> SensorReading list" where
  "device_window d dev rs = foldl (window_add d) [] (filter (\<lambda>r. r_DeviceID r = dev) rs)"

definition add_readings :: "duration \<Rightarrow> SensorReading list \<Rightarrow> MultiSensorAggregator" where
  "add_readings d rs = foldl (\<lambda>msa r. snd (AddReading r msa)) (NewMultiSensorAggregator d) rs"

text \<open>The statistics over the readings of one sensor, by definition.\<close>

definition stats_of :: "SensorReading list \<Rightarrow> SensorStats" where
  "stats_of rs = (let vs = map r_Value rs in
     \<lparr>ss_SensorID = r_SensorID (hd rs), ss_SensorType = r_SensorType (hd rs), ss_Min = Min (set vs), ss_Max = Max (set vs), ss_Average = mean_of vs,
      ss_StdDev = 0, ss_Count = int (length vs), ss_LastValue = last vs,
      ss_Trend = (if length vs > 1 then trend_of (last vs) (mean_of vs) else [])\<rparr>)"

definition sensor_stats :: "string \<Rightarrow> SensorReading list \<Rightarrow> SensorStats option" where
  "sensor_stats s w = (let rs = filter (\<lambda>r. r_SensorID r = s) w in if rs = [] then None else Some (stats_of rs))"

definition aggregate_of :: "duration \<Rightarrow> SensorReading list \<Rightarrow> AggregatedSensorData" where
  "aggregate_of d w = \<lparr>ag_DeviceID = r_DeviceID (hd w), ag_Location = r_Location (hd w), ag_WindowStart = r_Timestamp (hd w),
     ag_WindowEnd = time_Add (r_Timestamp (hd w)) d, ag_SensorCount = int (card (r_SensorID ` set w)), ag_ReadingCount = int (length w),
     ag_Sensors = (\<lambda>s. sensor_stats s w)\<rparr>"

lemma mean_snoc: "xs \<noteq> [] \<Longrightarrow> (mean_of xs * real (length xs) + v) / (real (length xs) + 1) = mean_of (xs @ [v])"
  by (simp add: mean_of_def add.commute)

lemma update_first: "update_sensor r (new_sensor_stats r) = stats_of [r]"
  by (simp add: update_sensor_def new_sensor_stats_def stats_of_def mean_of_def Let_def)

lemma update_next:
  assumes "rs \<noteq> []"
  shows "update_sensor r (stats_of rs) = stats_of (rs @ [r])"
proof -
  define vs where "vs = map r_Value rs"
  have vs: "vs \<noteq> []" "set vs \<noteq> {}" using assms by (simp_all add: vs_def)
  define lo hi where "lo = Min (set vs)" and "hi = Max (set vs)"
  have min: "Min (insert (r_Value r) (set vs)) = (if r_Value r < lo then r_Value r else lo)"
    unfolding lo_def Min_insert [OF finite_set vs(2)] min_def by (simp only: linorder_not_less [symmetric] if_not_P split: if_split) auto
  have max: "Max (insert (r_Value r) (set vs)) = (if r_Value r > hi then r_Value r else hi)"
    unfolding hi_def Max_insert [OF finite_set vs(2)] max_def by (simp only: linorder_not_less [symmetric] if_not_P split: if_split) auto
  have old: "stats_of rs = \<lparr>ss_SensorID = r_SensorID (hd rs), ss_SensorType = r_SensorType (hd rs), ss_Min = lo, ss_Max = hi, ss_Average = mean_of vs,
      ss_StdDev = 0, ss_Count = int (length vs), ss_LastValue = last vs, ss_Trend = (if length vs > 1 then trend_of (last vs) (mean_of vs) else [])\<rparr>"
    unfolding stats_of_def Let_def vs_def [symmetric] lo_def hi_def ..
  have new: "stats_of (rs @ [r]) = \<lparr>ss_SensorID = r_SensorID (hd rs), ss_SensorType = r_SensorType (hd rs),
      ss_Min = (if r_Value r < lo then r_Value r else lo), ss_Max = (if r_Value r > hi then r_Value r else hi), ss_Average = mean_of (vs @ [r_Value r]),
      ss_StdDev = 0, ss_Count = int (length vs) + 1, ss_LastValue = r_Value r, ss_Trend = trend_of (r_Value r) (mean_of (vs @ [r_Value r]))\<rparr>"
    using assms vs(1) by (simp add: stats_of_def Let_def vs_def [symmetric] min max)
  show ?thesis unfolding old new using vs(1) mean_snoc [OF vs(1), of "r_Value r"]
    by (simp add: update_sensor_def Let_def add.commute)
qed

lemma sensor_stats_snoc:
  "sensor_stats s (w @ [r]) =
    (if s = r_SensorID r then Some (update_sensor r (case sensor_stats s w of None \<Rightarrow> new_sensor_stats r | Some st \<Rightarrow> st)) else sensor_stats s w)"
  by (simp add: sensor_stats_def Let_def update_first update_next)

lemma sensor_known: "sensor_stats s w = None \<longleftrightarrow> s \<notin> r_SensorID ` set w"
  by (auto simp: sensor_stats_def Let_def filter_empty_conv)

lemma aggregate_step:
  assumes "w \<noteq> []"
  shows "aggregate_of d (w @ [r]) =
    (let data = aggregate_of d w;
         (st, data1) = (case ag_Sensors data (r_SensorID r) of
             Some st \<Rightarrow> (st, data)
           | None \<Rightarrow> (new_sensor_stats r, data\<lparr>ag_SensorCount := ag_SensorCount data + 1\<rparr>))
     in data1\<lparr>ag_ReadingCount := ag_ReadingCount data1 + 1, ag_Sensors := (ag_Sensors data1)(r_SensorID r \<mapsto> update_sensor r st)\<rparr>)"
proof (cases "sensor_stats (r_SensorID r) w")
  case None
  then show ?thesis using assms sensor_known [of "r_SensorID r" w] by (auto simp: aggregate_of_def Let_def fun_eq_iff sensor_stats_snoc)
next
  case (Some st)
  then have "r_SensorID ` set (w @ [r]) = r_SensorID ` set w" using sensor_known [of "r_SensorID r" w] by auto
  with Some assms show ?thesis by (auto simp: aggregate_of_def Let_def fun_eq_iff sensor_stats_snoc)
qed

lemma aggregate_first:
  "aggregate_of d [r] = (new_window_data d r)\<lparr>ag_SensorCount := 1, ag_ReadingCount := 1, ag_Sensors := [r_SensorID r \<mapsto> update_sensor r (new_sensor_stats r)]\<rparr>"
  by (auto simp: aggregate_of_def new_window_data_def update_first fun_eq_iff sensor_stats_def Let_def)

lemma aggregate_end: "ag_WindowEnd (aggregate_of d w) = time_Add (r_Timestamp (hd w)) d"
  by (simp add: aggregate_of_def)

definition device_data :: "duration \<Rightarrow> SensorReading list \<Rightarrow> AggregatedSensorData option" where
  "device_data d w = (if w = [] then None else Some (aggregate_of d w))"

lemma AddReading_step:
  assumes "deviceData msa (r_DeviceID r) = device_data (windowDuration msa) w" "\<forall>x \<in> set w. r_DeviceID x = r_DeviceID r"
  shows "AddReading r msa = (aggregate_of (windowDuration msa) (window_add (windowDuration msa) w r),
    msa\<lparr>deviceData := (deviceData msa)(r_DeviceID r \<mapsto> aggregate_of (windowDuration msa) (window_add (windowDuration msa) w r))\<rparr>)"
proof (cases "w = [] \<or> time_After (r_Timestamp r) (time_Add (r_Timestamp (hd w)) (windowDuration msa))")
  case True
  then show ?thesis using assms(1)
    by (auto simp: AddReading_def window_add_def device_data_def aggregate_end aggregate_first new_window_data_def Let_def)
next
  case False
  then show ?thesis using assms(1)
    by (simp add: AddReading_def window_add_def device_data_def aggregate_step aggregate_end Let_def split: prod.split)
qed

lemma device_window_snoc:
  "device_window d dev (rs @ [r]) = (if r_DeviceID r = dev then window_add d (device_window d dev rs) r else device_window d dev rs)"
  by (simp add: device_window_def)

lemma window_device: "x \<in> set (device_window d dev rs) \<Longrightarrow> r_DeviceID x = dev"
  by (induction rs rule: rev_induct) (auto simp: device_window_snoc window_add_def device_window_def split: if_splits)

lemma add_readings_snoc: "add_readings d (rs @ [r]) = snd (AddReading r (add_readings d rs))"
  by (simp add: add_readings_def)

lemma add_readings_data:
  "windowDuration (add_readings d rs) = d \<and> (\<forall>dev. deviceData (add_readings d rs) dev = device_data d (device_window d dev rs))"
proof (induction rs rule: rev_induct)
  case Nil
  show ?case by (simp add: add_readings_def NewMultiSensorAggregator_def device_window_def device_data_def)
next
  case (snoc r rs)
  let ?w = "device_window d (r_DeviceID r) rs"
  have "AddReading r (add_readings d rs) = (aggregate_of d (window_add d ?w r),
      (add_readings d rs)\<lparr>deviceData := (deviceData (add_readings d rs))(r_DeviceID r \<mapsto> aggregate_of d (window_add d ?w r))\<rparr>)"
    using AddReading_step [of "add_readings d rs" r ?w] snoc window_device by auto
  moreover have "window_add d ?w r \<noteq> []" by (simp add: window_add_def)
  ultimately show ?case using snoc by (auto simp: add_readings_snoc device_window_snoc device_data_def)
qed


section \<open>Alerts\<close>

lemma check_loop_eq:
  "check_loop reading rules alerts tm =
    (let new = map (mk_alert reading) (filter (\<lambda>rule. r_Value reading < ru_MinValue rule \<or> r_Value reading > ru_MaxValue rule) rules)
     in (alerts @ new, tm\<lparr>tm_alerts := fold (\<lambda>a m. m(al_AlertID a \<mapsto> a)) new (tm_alerts tm)\<rparr>))"
  by (induction rules arbitrary: alerts tm) (simp_all add: Let_def)

lemma fold_add_rule: "get_or (fold add_rule rules m) t [] = get_or m t [] @ filter (\<lambda>rule. ru_SensorType rule = t) rules"
  by (induction rules arbitrary: m) (simp_all add: add_rule_def)

text \<open>A reading raises one alert for each rule of its sensor type that it violates, in the order of the rules; the operator
  passes only the first one on.\<close>

theorem alerts_exact:
  "tm_rules tm = tm_rules (NewThresholdMonitor rules) \<Longrightarrow>
   fst (CheckReading reading tm) = map (mk_alert reading) (filter (\<lambda>rule. ru_SensorType rule = r_SensorType reading \<and>
     (r_Value reading < ru_MinValue rule \<or> r_Value reading > ru_MaxValue rule)) rules)"
proof -
  assume rules: "tm_rules tm = tm_rules (NewThresholdMonitor rules)"
  have eq: "get_or (tm_rules tm) (r_SensorType reading) [] = filter (\<lambda>rule. ru_SensorType rule = r_SensorType reading) rules"
    using fold_add_rule [of rules Map.empty] by (simp add: rules NewThresholdMonitor_def get_or_def)
  then show ?thesis
    by (cases "tm_rules tm (r_SensorType reading)") (auto simp: CheckReading_def check_loop_eq Let_def get_or_def conj_commute filter_empty_conv dest!: sym [of "[]"])
qed

theorem only_first_alert_emitted:
  "fst (CheckReading (with_time t reading) tm) = a # as \<Longrightarrow> fst (ThresholdAlertOperator t reading tm) = Some (al_SensorID a, a)"
  by (auto simp: ThresholdAlertOperator_def split: prod.splits list.splits)

section \<open>Predictions\<close>

text \<open>The history of a sensor is the list of its last readings.\<close>

lemma push_history_last: "push_history n r (drop (length rs - n) rs) = drop (length (rs @ [r]) - n) (rs @ [r])"
proof (cases "n = 0 \<or> length rs < n")
  case False
  then have "drop (length rs - n) rs \<noteq> []" by auto
  then have "tl (drop (length rs - n) rs @ [r]) = drop (Suc (length rs - n)) rs @ [r]" by (simp add: tl_drop drop_Suc)
  with False show ?thesis by (simp add: push_history_def Let_def Suc_diff_le)
qed (auto simp: push_history_def Let_def)

text \<open>The sums of the regression loop, as sums over indices.\<close>

definition sum_x :: "nat \<Rightarrow> real" where "sum_x n = (\<Sum>i<n. real i)"
definition sum_xx :: "nat \<Rightarrow> real" where "sum_xx n = (\<Sum>i<n. real i * real i)"
definition sum_y :: "real list \<Rightarrow> real" where "sum_y ys = (\<Sum>i<length ys. ys ! i)"
definition sum_xy :: "real list \<Rightarrow> real" where "sum_xy ys = (\<Sum>i<length ys. real i * ys ! i)"

lemma sums_snoc:
  "regression_sums i (ys @ [y]) acc = (case regression_sums i ys acc of (a, b, c, d) \<Rightarrow>
     (a + real (i + length ys), b + y, c + real (i + length ys) * y, d + real (i + length ys) * real (i + length ys)))"
  by (induction i ys acc rule: regression_sums.induct) (simp_all split: prod.split)

lemma regression_sums_eq: "regression_sums 0 ys (0, 0, 0, 0) = (sum_x (length ys), sum_y ys, sum_xy ys, sum_xx (length ys))"
proof (induction ys rule: rev_induct)
  case (snoc y ys)
  have "(\<Sum>i<length ys. (ys @ [y]) ! i) = (\<Sum>i<length ys. ys ! i)" "(\<Sum>i<length ys. real i * (ys @ [y]) ! i) = (\<Sum>i<length ys. real i * ys ! i)"
    by (simp_all add: nth_append)
  then show ?case using snoc by (simp add: sums_snoc sum_x_def sum_y_def sum_xy_def sum_xx_def)
qed (simp add: sum_x_def sum_y_def sum_xy_def sum_xx_def)

lemma sum_x_closed: "sum_x n = real n * (real n - 1) / 2"
  by (induction n) (simp_all add: sum_x_def field_simps)

lemma sum_xx_closed: "sum_xx n = real n * (real n - 1) * (2 * real n - 1) / 6"
  by (induction n) (simp_all add: sum_xx_def field_simps)

lemma denominator_pos: "2 \<le> n \<Longrightarrow> 0 < real n * sum_xx n - sum_x n * sum_x n"
proof -
  assume "2 \<le> n"
  then have n: "2 \<le> real n" by simp
  have "real n * sum_xx n - sum_x n * sum_x n = real n * real n * (real n * real n - 1) / 12"
    by (simp add: sum_x_closed sum_xx_closed field_simps)
  moreover have "1 < real n * real n" using mult_mono [OF n n] by simp
  ultimately show ?thesis using n by (simp only:) (intro divide_pos_pos mult_pos_pos; simp)
qed

text \<open>The normal equations: the residuals of the fitted line sum to zero, also weighted with the index.\<close>

lemma normal_equations:
  assumes "2 \<le> length ys" "linearRegression ys = (slope, intercept)" and n: "n = length ys"
  shows "slope * sum_x n + intercept * real n = sum_y ys" "slope * sum_xx n + intercept * sum_x n = sum_xy ys"
proof -
  let ?D = "real n * sum_xx n - sum_x n * sum_x n"
  have D: "?D \<noteq> 0" using denominator_pos assms(1) n by fastforce
  have s: "slope = (real n * sum_xy ys - sum_x n * sum_y ys) / ?D" and i: "intercept = (sum_y ys - slope * sum_x n) / real n"
    using assms D by (auto simp: linearRegression_def regression_sums_eq Let_def split: if_splits)
  have pos: "real n \<noteq> 0" using assms(1) n by auto
  show one: "slope * sum_x n + intercept * real n = sum_y ys" using pos by (simp add: i)
  have "slope * ?D = real n * sum_xy ys - sum_x n * sum_y ys" using D by (simp add: s)
  moreover have "intercept * real n = sum_y ys - slope * sum_x n" using one by simp
  then have "(intercept * real n) * sum_x n = (sum_y ys - slope * sum_x n) * sum_x n" by simp
  ultimately have "real n * (slope * sum_xx n + intercept * sum_x n) = real n * sum_xy ys" by (simp add: algebra_simps)
  then show "slope * sum_xx n + intercept * sum_x n = sum_xy ys" using pos by simp
qed

text \<open>The squared error of a line over the indices of the readings.\<close>

definition sq_error :: "real \<Rightarrow> real \<Rightarrow> real list \<Rightarrow> real" where
  "sq_error a b ys = (\<Sum>i<length ys. (ys ! i - (a * real i + b))\<^sup>2)"

lemma residual_sums:
  assumes "2 \<le> length ys" "linearRegression ys = (slope, intercept)"
  shows "(\<Sum>i<length ys. ys ! i - (slope * real i + intercept)) = 0"
    "(\<Sum>i<length ys. real i * (ys ! i - (slope * real i + intercept))) = 0"
  using normal_equations [OF assms refl]
  by (simp_all add: sum_x_def sum_xx_def sum_y_def sum_xy_def sum_subtractf sum.distrib sum_distrib_left distrib_left
      right_diff_distrib mult.left_commute mult.commute)

text \<open>Linear regression finds the line of least squares: of all lines over the indices of at least two readings the
  returned slope and intercept have the least sum of squared errors.\<close>

theorem regression_least_squares:
  assumes "2 \<le> length ys" "linearRegression ys = (slope, intercept)"
  shows "sq_error slope intercept ys \<le> sq_error a b ys"
proof -
  define e where "e i = ys ! i - (slope * real i + intercept)" for i
  define d where "d i = (slope - a) * real i + (intercept - b)" for i
  have "(\<Sum>i<length ys. e i * d i) = (slope - a) * (\<Sum>i<length ys. real i * e i) + (intercept - b) * (\<Sum>i<length ys. e i)"
    by (simp add: d_def sum.distrib sum_distrib_left distrib_left mult.left_commute mult.commute)
  then have cross: "(\<Sum>i<length ys. e i * d i) = 0" using residual_sums [OF assms] by (simp add: e_def)
  have "ys ! i - (a * real i + b) = e i + d i" for i by (simp add: e_def d_def algebra_simps)
  then have "sq_error a b ys = (\<Sum>i<length ys. (e i)\<^sup>2) + 2 * (\<Sum>i<length ys. e i * d i) + (\<Sum>i<length ys. (d i)\<^sup>2)"
    by (simp add: sq_error_def power2_sum sum.distrib sum_distrib_left mult.assoc)
  moreover have "0 \<le> (\<Sum>i<length ys. (d i)\<^sup>2)" by (simp add: sum_nonneg)
  moreover have "sq_error slope intercept ys = (\<Sum>i<length ys. (e i)\<^sup>2)" by (simp add: sq_error_def e_def)
  ultimately show ?thesis by (simp add: cross)
qed

lemma regression_least_squares_witness: "sq_error 1 1 [1, 2, 3] \<le> sq_error 0 2 [1, 2, 3]"
proof -
  have "linearRegression [1, 2, 3] = (1, 1)" by (simp add: linearRegression_def)
  then show ?thesis using regression_least_squares [of "[1, 2, 3]" 1 1 0 2] by simp
qed

text \<open>The estimated number of days lies within a year. A health score is never negative; it exceeds one hundred for
  readings with a negative mean, and is no number for readings that are all zero.\<close>

theorem days_to_failure_bounded: "0 \<le> estimateTimeToFailure slope intercept sensorType \<and> estimateTimeToFailure slope intercept sensorType \<le> 365"
proof -
  have "\<lfloor>x\<rfloor> \<le> 365" if "x \<le> 365" for x :: real using floor_mono [OF that] by simp
  then show ?thesis by (auto simp: estimateTimeToFailure_def Let_def not_less)
qed

theorem health_score_nonneg: "calculateHealthScore readings rate = Some h \<Longrightarrow> 0 \<le> h"
  by (auto simp: calculateHealthScore_def Let_def split: if_splits float.splits)

lemma variance_nonneg: "0 \<le> variance_of ys"
  by (auto simp: variance_of_def intro!: divide_nonneg_nonneg sum_list_nonneg)

theorem health_score_at_most_100:
  "0 < mean_of (map r_Value readings) \<Longrightarrow> calculateHealthScore readings rate = Some h \<Longrightarrow> h \<le> 100"
proof -
  assume pos: "0 < mean_of (map r_Value readings)" and h: "calculateHealthScore readings rate = Some h"
  define v where "v = sqrt (variance_of (map r_Value readings)) / mean_of (map r_Value readings)"
  define p where "p = real (length (filter (\<lambda>r. r_Quality r = ''poor'') readings)) / real (length readings) * 20"
  have "0 \<le> v" "0 \<le> p" using pos variance_nonneg by (simp_all add: v_def p_def)
  moreover have "calculateVariance (map r_Value readings) = (if readings = [] then Fin 0 else Fin v)"
    using pos by (simp add: calculateVariance_def v_def)
  ultimately show ?thesis using h
    unfolding calculateHealthScore_def p_def [symmetric] by (auto simp: Let_def split: if_splits)
qed

lemma health_score_exceeds_100:
  "r_Value r = - 1 \<Longrightarrow> r_Value s = - 3 \<Longrightarrow> r_Quality r = ''good'' \<Longrightarrow> r_Quality s = ''good'' \<Longrightarrow>
   calculateHealthScore [r, s] 0 = Some (205 / 2)"
  by (simp add: calculateHealthScore_def calculateVariance_def variance_of_def mean_of_def Let_def)

end
