(* ===== verification/Fraud_Detection.thy ===== *)
theory Fraud_Detection
  imports IoT_Sensors "HOL-Library.AList"
begin

text \<open>
  Fraud detection, \<open>pkg/fraud/detector.go\<close>: a detector of outlying amounts, profiles of users, the score of an event, and
  the moving average of scores. Numbers of type \<open>float64\<close> are exact reals, so what is shown here leaves rounding aside. The hour of a timestamp depends on its time zone, which an
  instant does not have; it is an argument, as are the processing time and the order of range loops.
\<close>

section \<open>Anomalies\<close>

record FraudEvent =
  fe_EventID :: string
  fe_UserID :: string
  fe_Type :: string
  fe_Amount :: real
  fe_Timestamp :: gtime
  fe_IPAddress :: string
  fe_Location :: string
  fe_DeviceID :: string
  fe_Metadata :: "(string \<times> json) list"

record FraudScore =
  fs_EventID :: string
  fs_UserID :: string
  fs_Score :: real
  fs_RiskLevel :: string
  fs_Reasons :: "string list"
  fs_Factors :: "(string \<times> real) list"
  fs_Action :: string
  fs_Timestamp :: gtime
  fs_ProcessingTime :: duration

record AnomalyDetector =
  ad_windowSize :: nat
  ad_values :: "real list"
  ad_mean :: real
  ad_stdDev :: real
  ad_threshold :: real

definition NewAnomalyDetector :: "nat \<Rightarrow> real \<Rightarrow> AnomalyDetector" where
  "NewAnomalyDetector windowSize threshold =
    \<lparr>ad_windowSize = windowSize, ad_values = [], ad_mean = 0, ad_stdDev = 0, ad_threshold = threshold\<rparr>"

definition updateStats :: "AnomalyDetector \<Rightarrow> AnomalyDetector" where
  "updateStats ad = ad\<lparr>ad_mean := mean_of (ad_values ad), ad_stdDev := sqrt (variance_of (ad_values ad))\<rparr>"

definition AddValue :: "real \<Rightarrow> AnomalyDetector \<Rightarrow> (bool \<times> real) \<times> AnomalyDetector" where
  "AddValue v ad0 =
    (let ad1 = ad0\<lparr>ad_values := push_history (ad_windowSize ad0) v (ad_values ad0)\<rparr>
     in if length (ad_values ad1) < 10 then ((False, 0), ad1)
        else (let ad2 = updateStats ad1
              in if ad_stdDev ad2 = 0 then ((False, 0), ad2)
                 else (let zScore = \<bar>(v - ad_mean ad2) / ad_stdDev ad2\<bar> in ((zScore > ad_threshold ad2, zScore), ad2))))"

section \<open>Profiles and scores\<close>

record UserBehaviorProfile =
  up_UserID :: string
  up_TypicalTransactionAmount :: real
  up_TypicalLocations :: "string \<rightharpoonup> int"
  up_TypicalDevices :: "string \<rightharpoonup> int"
  up_TypicalIPRanges :: "string \<rightharpoonup> int"
  up_TransactionFrequency :: real
  up_LastActivity :: gtime
  up_TotalTransactions :: int
  up_AverageAmount :: real
  up_CreatedAt :: gtime

record FraudDetector =
  userProfiles :: "string \<rightharpoonup> UserBehaviorProfile"
  amountDetector :: AnomalyDetector
  frequencyDetector :: AnomalyDetector
  velocityThreshold :: int
  velocityWindow :: duration
  amountThreshold :: real

definition NewFraudDetector :: "int \<Rightarrow> duration \<Rightarrow> real \<Rightarrow> FraudDetector" where
  "NewFraudDetector threshold vwindow amount =
    \<lparr>userProfiles = Map.empty, amountDetector = NewAnomalyDetector 100 3, frequencyDetector = NewAnomalyDetector 100 (5 / 2),
     velocityThreshold = threshold, velocityWindow = vwindow, amountThreshold = amount\<rparr>"

text \<open>The range of an address: the part before its last dot.\<close>

definition getIPRange :: "string \<Rightarrow> string" where
  "getIPRange ip =
    (if CHR ''.'' \<in> set ip then butlast (rev (dropWhile (\<lambda>c. c \<noteq> CHR ''.'') (rev ip))) @ ''.0/24'' else ip)"

definition new_score :: "FraudEvent \<Rightarrow> FraudScore" where
  "new_score event = \<lparr>fs_EventID = fe_EventID event, fs_UserID = fe_UserID event, fs_Score = 0, fs_RiskLevel = [], fs_Reasons = [],
     fs_Factors = [], fs_Action = [], fs_Timestamp = fe_Timestamp event, fs_ProcessingTime = 0\<rparr>"

definition new_profile :: "FraudEvent \<Rightarrow> UserBehaviorProfile" where
  "new_profile event = \<lparr>up_UserID = fe_UserID event, up_TypicalTransactionAmount = 0, up_TypicalLocations = Map.empty,
     up_TypicalDevices = Map.empty, up_TypicalIPRanges = Map.empty, up_TransactionFrequency = 0, up_LastActivity = zero_time,
     up_TotalTransactions = 0, up_AverageAmount = 0, up_CreatedAt = fe_Timestamp event\<rparr>"

text \<open>A factor with its reason.\<close>

definition flag :: "string \<Rightarrow> real \<Rightarrow> string \<Rightarrow> FraudScore \<Rightarrow> FraudScore" where
  "flag factor points reason sc = sc\<lparr>fs_Factors := AList.update factor points (fs_Factors sc), fs_Reasons := fs_Reasons sc @ [reason]\<rparr>"

definition check_age :: "FraudEvent \<Rightarrow> UserBehaviorProfile \<Rightarrow> FraudScore \<Rightarrow> FraudScore" where
  "check_age event profile sc =
    (if time_Sub (fe_Timestamp event) (up_CreatedAt profile) < 24 * (60 * minute)
     then flag ''new_account'' 15 ''New account (< 24 hours old)'' sc else sc)"

definition check_amount :: "FraudEvent \<Rightarrow> UserBehaviorProfile \<Rightarrow> FraudDetector \<Rightarrow> FraudScore \<Rightarrow> FraudScore \<times> FraudDetector" where
  "check_amount event profile fd sc =
    (if fe_Amount event > 0
     then (case AddValue (fe_Amount event) (amountDetector fd) of
         ((isAnomaly, zScore), det) \<Rightarrow>
           (let sc1 = (if isAnomaly then flag ''unusual_amount'' (min (zScore * 5) 25) (''Unusual transaction amount ('' @ fmt_2f zScore @ '' std devs)'') sc else sc);
                sc2 = (if fe_Amount event > amountThreshold fd then flag ''high_amount'' 20 (''High transaction amount ($'' @ fmt_2f (fe_Amount event) @ '')'') sc1 else sc1);
                sc3 = (if up_TotalTransactions profile > 10 \<and> fe_Amount event > up_AverageAmount profile * 3
                       then flag ''above_user_average'' 15 ''Amount 3x higher than user average'' sc2 else sc2)
            in (sc3, fd\<lparr>amountDetector := det\<rparr>)))
     else (sc, fd))"

text \<open>The checks of location, device and address share their shape: a value that is not known is flagged after enough
  transactions, and is counted.\<close>

definition check_known :: "int \<Rightarrow> string \<Rightarrow> real \<Rightarrow> string \<Rightarrow> string \<Rightarrow> int \<Rightarrow> (string \<rightharpoonup> int) \<Rightarrow> FraudScore \<Rightarrow> FraudScore" where
  "check_known limit factor points reason x tot known sc =
    (if tot > limit \<and> known x = None then flag factor points reason sc else sc)"

definition count_up :: "string \<Rightarrow> (string \<rightharpoonup> int) \<Rightarrow> (string \<rightharpoonup> int)" where
  "count_up x m = m(x \<mapsto> get_or m x 0 + 1)"

definition check_location :: "FraudEvent \<Rightarrow> UserBehaviorProfile \<Rightarrow> FraudScore \<Rightarrow> FraudScore \<times> UserBehaviorProfile" where
  "check_location event profile sc =
    (if fe_Location event \<noteq> []
     then (check_known 5 ''new_location'' 10 ''Transaction from new location'' (fe_Location event) (up_TotalTransactions profile) (up_TypicalLocations profile) sc,
           profile\<lparr>up_TypicalLocations := count_up (fe_Location event) (up_TypicalLocations profile)\<rparr>)
     else (sc, profile))"

definition check_device :: "FraudEvent \<Rightarrow> UserBehaviorProfile \<Rightarrow> FraudScore \<Rightarrow> FraudScore \<times> UserBehaviorProfile" where
  "check_device event profile sc =
    (if fe_DeviceID event \<noteq> []
     then (check_known 3 ''new_device'' 10 ''Transaction from new device'' (fe_DeviceID event) (up_TotalTransactions profile) (up_TypicalDevices profile) sc,
           profile\<lparr>up_TypicalDevices := count_up (fe_DeviceID event) (up_TypicalDevices profile)\<rparr>)
     else (sc, profile))"

definition check_ip :: "FraudEvent \<Rightarrow> UserBehaviorProfile \<Rightarrow> FraudScore \<Rightarrow> FraudScore \<times> UserBehaviorProfile" where
  "check_ip event profile sc =
    (if fe_IPAddress event \<noteq> []
     then (check_known 5 ''new_ip_range'' 8 ''Transaction from new IP range'' (getIPRange (fe_IPAddress event)) (up_TotalTransactions profile) (up_TypicalIPRanges profile) sc,
           profile\<lparr>up_TypicalIPRanges := count_up (getIPRange (fe_IPAddress event)) (up_TypicalIPRanges profile)\<rparr>)
     else (sc, profile))"

definition check_velocity :: "FraudEvent \<Rightarrow> UserBehaviorProfile \<Rightarrow> FraudScore \<Rightarrow> FraudScore" where
  "check_velocity event profile sc =
    (if time_IsZero (up_LastActivity profile) then sc
     else (let since = time_Sub (fe_Timestamp event) (up_LastActivity profile)
           in if since < 1 * minute then flag ''rapid_succession'' 15 ''Multiple transactions in rapid succession'' sc
              else if since < 5 * minute then flag ''quick_succession'' 8 ''Quick succession of transactions'' sc else sc))"

text \<open>\<open>order\<close> is the order in which the range loop meets the locations; it stops at the first.\<close>

definition check_travel :: "string list \<Rightarrow> FraudEvent \<Rightarrow> UserBehaviorProfile \<Rightarrow> FraudScore \<Rightarrow> FraudScore" where
  "check_travel order event profile sc =
    (if up_TotalTransactions profile > 0 \<and> fe_Location event \<noteq> []
     then (let lastLocation = (case order of [] \<Rightarrow> [] | l # ls \<Rightarrow> l)
           in if lastLocation \<noteq> [] \<and> lastLocation \<noteq> fe_Location event \<and> time_Sub (fe_Timestamp event) (up_LastActivity profile) < 60 * minute
              then flag ''impossible_travel'' 25 ''Impossible travel: location changed too quickly'' sc else sc)
     else sc)"

definition check_time :: "int \<Rightarrow> FraudScore \<Rightarrow> FraudScore" where
  "check_time h sc = (if 2 \<le> h \<and> h \<le> 5 then flag ''unusual_time'' 5 ''Transaction during unusual hours (2-5 AM)'' sc else sc)"

definition update_profile :: "FraudEvent \<Rightarrow> UserBehaviorProfile \<Rightarrow> UserBehaviorProfile" where
  "update_profile event p0 =
    (let p1 = p0\<lparr>up_TotalTransactions := up_TotalTransactions p0 + 1\<rparr>;
         p2 = p1\<lparr>up_LastActivity := fe_Timestamp event\<rparr>
     in if fe_Amount event > 0
        then p2\<lparr>up_AverageAmount := (up_AverageAmount p2 * of_int (up_TotalTransactions p2 - 1) + fe_Amount event) / of_int (up_TotalTransactions p2)\<rparr>
        else p2)"

definition rate :: "FraudScore \<Rightarrow> FraudScore" where
  "rate sc =
    (let s = min (sum_list (map snd (fs_Factors sc))) 100;
         (level, action) = (if s \<ge> 75 then (''critical'', ''block'') else if s \<ge> 50 then (''high'', ''review'')
           else if s \<ge> 25 then (''medium'', ''review'') else (''low'', ''allow''))
     in sc\<lparr>fs_Score := s, fs_RiskLevel := level, fs_Action := action\<rparr>)"

record fraud_env =
  fv_order :: "string list"
  fv_hour :: int
  fv_elapsed :: duration

definition AnalyzeEvent :: "fraud_env \<Rightarrow> FraudEvent \<Rightarrow> FraudDetector \<Rightarrow> FraudScore \<times> FraudDetector" where
  "AnalyzeEvent env event fd =
    (let sc0 = new_score event;
         p0 = (case userProfiles fd (fe_UserID event) of Some p \<Rightarrow> p | None \<Rightarrow> new_profile event);
         sc1 = check_age event p0 sc0;
         (sc2, fd1) = check_amount event p0 fd sc1;
         (sc3, p1) = check_location event p0 sc2;
         (sc4, p2) = check_device event p1 sc3;
         (sc5, p3) = check_ip event p2 sc4;
         sc6 = check_velocity event p3 sc5;
         sc7 = check_travel (fv_order env) event p3 sc6;
         sc8 = check_time (fv_hour env) sc7;
         p4 = update_profile event p3;
         sc9 = rate sc8
     in (sc9\<lparr>fs_ProcessingTime := fv_elapsed env\<rparr>, fd1\<lparr>userProfiles := (userProfiles fd)(fe_UserID event \<mapsto> p4)\<rparr>))"

text \<open>The operator on the decoded event: a missing timestamp is that of the stream event; the result goes out under the
  user's key.\<close>

definition FraudDetectionOperator :: "fraud_env \<Rightarrow> gtime \<Rightarrow> FraudEvent \<Rightarrow> FraudDetector \<Rightarrow> (string \<times> FraudScore) \<times> FraudDetector" where
  "FraudDetectionOperator env event_time event fd =
    (let e = (if time_IsZero (fe_Timestamp event) then event\<lparr>fe_Timestamp := event_time\<rparr> else event)
     in case AnalyzeEvent env e fd of (sc, fd') \<Rightarrow> ((fe_UserID e, sc), fd'))"

section \<open>Moving average of scores\<close>

record RiskAggregator =
  userRiskScores :: "string \<rightharpoonup> real list"
  ra_windowSize :: nat

definition NewRiskAggregator :: "nat \<Rightarrow> RiskAggregator" where
  "NewRiskAggregator n = \<lparr>userRiskScores = Map.empty, ra_windowSize = n\<rparr>"

text \<open>A window of size zero divides zero by zero.\<close>

definition AddScore :: "string \<Rightarrow> real \<Rightarrow> RiskAggregator \<Rightarrow> float \<times> RiskAggregator" where
  "AddScore userID sc ra =
    (let scores = push_history (ra_windowSize ra) sc (get_or (userRiskScores ra) userID [])
     in (if scores = [] then NaN else Fin (mean_of scores), ra\<lparr>userRiskScores := (userRiskScores ra)(userID \<mapsto> scores)\<rparr>))"

section \<open>When an anomaly can be reported\<close>

lemma mean_sum: "xs \<noteq> [] \<Longrightarrow> sum_list (map (\<lambda>x. x - mean_of xs) xs) = 0"
  by (simp add: mean_of_def sum_list_subtractf sum_list_triv)

text \<open>No value of a list is further from its mean than the square root of the length less one times the standard
  deviation: the other deviations sum up to the same distance.\<close>

lemma sum_list_square_bound:
  fixes xs :: "real list"
  shows "(sum_list xs)\<^sup>2 \<le> real (length xs) * sum_list (map (\<lambda>x. x * x) xs)"
proof (induction xs)
  case (Cons x xs)
  let ?s = "sum_list xs" and ?q = "sum_list (map (\<lambda>x. x * x) xs)" and ?n = "real (length xs)"
  have "2 * x * ?s \<le> ?n * (x * x) + ?q"
  proof (cases "xs = []")
    case False
    then have n: "?n > 0" by simp
    have "0 \<le> (?n * x - ?s)\<^sup>2" by simp
    also have "\<dots> = ?n * (?n * (x * x)) - ?n * (2 * x * ?s) + ?s\<^sup>2" by (simp add: power2_eq_square algebra_simps)
    also have "\<dots> \<le> ?n * (?n * (x * x)) - ?n * (2 * x * ?s) + ?n * ?q" using Cons by simp
    finally have "0 \<le> ?n * (?n * (x * x) - 2 * x * ?s + ?q)" by (simp add: algebra_simps)
    then show ?thesis using n by (simp add: zero_le_mult_iff)
  qed simp
  moreover have "(x + ?s)\<^sup>2 = x * x + 2 * x * ?s + ?s\<^sup>2" by (simp add: power2_eq_square algebra_simps)
  moreover have "(1 + ?n) * (x * x + ?q) = x * x + (?n * (x * x) + ?q) + ?n * ?q" by (simp add: algebra_simps)
  ultimately show ?case using Cons by simp
qed simp

lemma deviation_bound:
  assumes "x \<in> set xs"
  shows "(x - mean_of xs)\<^sup>2 \<le> real (length xs - 1) * variance_of xs"
proof -
  obtain as bs where xs: "xs = as @ x # bs" using assms by (meson split_list)
  let ?d = "\<lambda>y. y - mean_of xs" and ?n = "real (length xs)"
  let ?o = "map ?d (as @ bs)"
  have "sum_list (map ?d xs) = 0" using assms by (intro mean_sum) auto
  then have "sum_list ?o = - ?d x" by (simp add: xs)
  moreover have "length ?o = length xs - 1" by (simp add: xs)
  ultimately have others: "(?d x)\<^sup>2 \<le> real (length xs - 1) * sum_list (map (\<lambda>y. y * y) ?o)"
    using sum_list_square_bound [of ?o] by (simp only: power2_minus)
  have n: "?n = real (length xs - 1) + 1" using assms by (cases xs) auto
  have "?n * variance_of xs = sum_list (map (\<lambda>y. ?d y * ?d y) xs)" using assms by (cases xs) (simp_all add: variance_of_def)
  also have "\<dots> = (?d x)\<^sup>2 + sum_list (map (\<lambda>y. y * y) ?o)" by (simp add: xs power2_eq_square comp_def)
  finally have v: "?n * variance_of xs = (?d x)\<^sup>2 + sum_list (map (\<lambda>y. y * y) ?o)" .
  have "?n * (?d x)\<^sup>2 = real (length xs - 1) * (?d x)\<^sup>2 + (?d x)\<^sup>2" by (simp add: n algebra_simps)
  also have "\<dots> \<le> real (length xs - 1) * ((?d x)\<^sup>2 + sum_list (map (\<lambda>y. y * y) ?o))" using others by (simp add: algebra_simps)
  also have "\<dots> = real (length xs - 1) * (?n * variance_of xs)" by (simp only: v)
  also have "\<dots> = ?n * (real (length xs - 1) * variance_of xs)" by (rule mult.left_commute)
  finally have "?n * (?d x)\<^sup>2 \<le> ?n * (real (length xs - 1) * variance_of xs)" .
  moreover have "0 < ?n" using n by linarith
  ultimately show ?thesis by (simp only: mult_le_cancel_left_pos)
qed

lemma push_history_mem: "push_history n v vs \<noteq> [] \<Longrightarrow> v \<in> set (push_history n v vs)"
  by (cases vs) (auto simp: push_history_def Let_def split: if_splits)

lemma z_score_bound:
  assumes "AddValue v ad = ((r, z), ad')"
  shows "z\<^sup>2 \<le> real (length (ad_values ad') - 1)"
proof -
  define vs where "vs = push_history (ad_windowSize ad) v (ad_values ad)"
  have ad': "ad_values ad' = vs" and z: "z = 0 \<or> 10 \<le> length vs \<and> variance_of vs \<noteq> 0 \<and> z = \<bar>(v - mean_of vs) / sqrt (variance_of vs)\<bar>"
    using assms by (auto simp: AddValue_def updateStats_def vs_def Let_def split: if_splits)
  show ?thesis
  proof (cases "z = 0")
    case False
    with z have big: "10 \<le> length vs" and var: "0 < variance_of vs" and z: "z = \<bar>(v - mean_of vs) / sqrt (variance_of vs)\<bar>"
      using variance_nonneg [of vs] by auto
    have "v \<in> set vs" using big push_history_mem [of "ad_windowSize ad" v "ad_values ad"] unfolding vs_def by fastforce
    then have "(v - mean_of vs)\<^sup>2 \<le> real (length vs - 1) * variance_of vs" by (rule deviation_bound)
    moreover have "z\<^sup>2 = (v - mean_of vs)\<^sup>2 / variance_of vs" using var by (simp add: z power_divide)
    ultimately show ?thesis using var by (simp add: ad' divide_le_eq)
  qed (simp add: ad')
qed

text \<open>In exact arithmetic the detector reports a value only when the window holds more values than the square of the threshold
  plus one: with the threshold of three standard deviations that is eleven values, whatever they are. In \<open>float64\<close> the
  rounding of the standard deviation can carry a value over this boundary: nine times 10 and then 8 is reported with ten values.\<close>

theorem anomaly_needs_values:
  assumes "AddValue v ad = ((True, z), ad')" "0 \<le> ad_threshold ad"
  shows "(ad_threshold ad)\<^sup>2 + 1 < real (length (ad_values ad')) \<and> length (ad_values ad') \<le> Suc (length (ad_values ad))"
proof -
  have "ad_threshold ad < z" and len: "10 \<le> length (ad_values ad')"
    and vs: "ad_values ad' = push_history (ad_windowSize ad) v (ad_values ad)"
    using assms(1) by (auto simp: AddValue_def updateStats_def Let_def split: if_splits)
  then have "(ad_threshold ad)\<^sup>2 < z\<^sup>2" using assms(2) by (simp add: power_strict_mono)
  also have "\<dots> \<le> real (length (ad_values ad') - 1)" using z_score_bound [OF assms(1)] .
  finally show ?thesis using len by (auto simp: vs push_history_def Let_def of_nat_diff)
qed

lemma AddValue_big:
  "10 \<le> length (push_history (ad_windowSize ad) v (ad_values ad)) \<Longrightarrow> variance_of (push_history (ad_windowSize ad) v (ad_values ad)) \<noteq> 0 \<Longrightarrow>
   AddValue v ad = (let vs = push_history (ad_windowSize ad) v (ad_values ad); z = \<bar>(v - mean_of vs) / sqrt (variance_of vs)\<bar>
     in ((z > ad_threshold ad, z), ad\<lparr>ad_values := vs, ad_mean := mean_of vs, ad_stdDev := sqrt (variance_of vs)\<rparr>))"
  by (simp add: AddValue_def updateStats_def Let_def)

lemma anomaly_needs_values_witness:
  "fst (AddValue 100 \<lparr>ad_windowSize = 100, ad_values = replicate 11 0, ad_mean = 0, ad_stdDev = 0, ad_threshold = 3\<rparr>) =
     (True, sqrt 11) \<and> (3::real)\<^sup>2 + 1 < 12"
proof -
  let ?ad = "\<lparr>ad_windowSize = 100, ad_values = replicate 11 0, ad_mean = 0, ad_stdDev = 0, ad_threshold = 3\<rparr>"
  have vs: "push_history 100 100 (replicate 11 0) = [0, 0, 0, 0, 0, 0, 0, 0, 0, 0, 0, 100::real]"
    by (simp add: push_history_def eval_nat_numeral)
  let ?vs = "[0, 0, 0, 0, 0, 0, 0, 0, 0, 0, 0, 100::real]"
  have m: "mean_of ?vs = 100 / 12" by (simp add: mean_of_def)
  have v: "variance_of ?vs = 11 * (100 / 12)\<^sup>2" unfolding variance_of_def m by (simp add: power2_eq_square)
  have s: "sqrt (variance_of ?vs) = sqrt 11 * (100 / 12)" by (simp add: v real_sqrt_mult)
  have z: "\<bar>(100 - mean_of ?vs) / sqrt (variance_of ?vs)\<bar> = sqrt 11"
    unfolding s m by (simp add: field_simps)
  have big: "3 < sqrt 11" by (rule real_less_rsqrt) simp
  have "variance_of ?vs \<noteq> 0" by (simp add: v)
  then have "AddValue 100 ?ad = ((True, sqrt 11), ?ad\<lparr>ad_values := ?vs, ad_mean := mean_of ?vs, ad_stdDev := sqrt (variance_of ?vs)\<rparr>)"
    using AddValue_big [of ?ad 100] big by (simp only: vs z AnomalyDetector.simps Let_def) simp
  then show ?thesis using anomaly_needs_values [of 100 ?ad "sqrt 11"] by simp
qed

section \<open>Scores\<close>

text \<open>What the scoring of an event keeps true of the factors: the names are distinct, and each has at most its weight.\<close>

definition weights :: "string \<rightharpoonup> real" where
  "weights = [''new_account'' \<mapsto> 15, ''unusual_amount'' \<mapsto> 25, ''high_amount'' \<mapsto> 20, ''above_user_average'' \<mapsto> 15, ''new_location'' \<mapsto> 10,
     ''new_device'' \<mapsto> 10, ''new_ip_range'' \<mapsto> 8, ''rapid_succession'' \<mapsto> 15, ''quick_succession'' \<mapsto> 8, ''impossible_travel'' \<mapsto> 25,
     ''unusual_time'' \<mapsto> 5]"

definition factors_ok :: "string list \<Rightarrow> FraudScore \<Rightarrow> bool" where
  "factors_ok names sc \<longleftrightarrow> distinct (map fst (fs_Factors sc)) \<and>
    (\<forall>(k, p) \<in> set (fs_Factors sc). k \<in> set names \<and> 0 \<le> p \<and> (\<exists>w. weights k = Some w \<and> p \<le> w))"

lemma set_update_subset: "set (AList.update k p xs) \<subseteq> insert (k, p) (set xs)"
  by (induction xs) auto

lemma factors_ok_flag:
  assumes "factors_ok names sc" "weights k = Some w" "0 \<le> p" "p \<le> w"
  shows "factors_ok (k # names) (flag k p r sc)"
proof -
  have "\<forall>x \<in> set (AList.update k p (fs_Factors sc)). x = (k, p) \<or> x \<in> set (fs_Factors sc)" using set_update_subset by fastforce
  then show ?thesis using assms by (force simp: factors_ok_def flag_def distinct_update)
qed

lemma factors_ok_mono: "factors_ok names sc \<Longrightarrow> set names \<subseteq> set names' \<Longrightarrow> factors_ok names' sc"
  by (auto simp: factors_ok_def)

lemma weights_nonneg: "weights k = Some w \<Longrightarrow> 0 \<le> w"
  by (auto simp: weights_def split: if_splits)

lemma factors_total:
  assumes "factors_ok names sc"
  shows "0 \<le> sum_list (map snd (fs_Factors sc))" "sum_list (map snd (fs_Factors sc)) \<le> (\<Sum>k \<in> set names. get_or weights k 0)"
proof -
  let ?fs = "fs_Factors sc" and ?w = "\<lambda>k. get_or weights k 0"
  show "0 \<le> sum_list (map snd ?fs)" using assms by (intro sum_list_nonneg) (auto simp: factors_ok_def)
  have "sum_list (map snd ?fs) \<le> sum_list (map (\<lambda>x. ?w (fst x)) ?fs)"
    using assms by (intro sum_list_mono) (force simp: factors_ok_def get_or_def)
  also have "\<dots> = sum_list (map ?w (map fst ?fs))" by (simp add: comp_def)
  also have "\<dots> = (\<Sum>k \<in> set (map fst ?fs). ?w k)" using assms by (intro sum_list_distinct_conv_sum_set) (simp add: factors_ok_def)
  also have "\<dots> \<le> (\<Sum>k \<in> set names. ?w k)"
    using assms weights_nonneg by (intro sum_mono2) (auto simp: factors_ok_def get_or_def split: option.splits)
  finally show "sum_list (map snd ?fs) \<le> (\<Sum>k \<in> set names. ?w k)" .
qed

lemma factors_ok_new: "factors_ok [] (new_score event)"
  by (simp add: factors_ok_def new_score_def)

lemma factors_ok_age: "factors_ok names sc \<Longrightarrow> factors_ok (''new_account'' # names) (check_age event profile sc)"
  by (auto simp: check_age_def weights_def intro: factors_ok_flag factors_ok_mono)

lemma factors_ok_time: "factors_ok names sc \<Longrightarrow> factors_ok (''unusual_time'' # names) (check_time h sc)"
  by (auto simp: check_time_def weights_def intro: factors_ok_flag factors_ok_mono)

lemma factors_ok_unless: "factors_ok names sc \<Longrightarrow> weights k = Some w \<Longrightarrow> (b \<Longrightarrow> 0 \<le> p \<and> p \<le> w) \<Longrightarrow>
  factors_ok (k # names) (if b then flag k p r sc else sc)"
  by (auto intro: factors_ok_flag factors_ok_mono)

lemma AddValue_nonneg: "AddValue v ad = ((b, z), ad') \<Longrightarrow> 0 \<le> z"
  by (auto simp: AddValue_def Let_def split: if_splits)

lemma factors_ok_amount_new:
  assumes "factors_ok names sc" "up_TotalTransactions profile = 0"
  shows "factors_ok (''high_amount'' # ''unusual_amount'' # names) (fst (check_amount event profile fd sc))"
proof (cases "fe_Amount event > 0")
  case True
  obtain b z det where add: "AddValue (fe_Amount event) (amountDetector fd) = ((b, z), det)" by (metis surj_pair)
  have "factors_ok (''unusual_amount'' # names) (if b then flag ''unusual_amount'' (min (z * 5) 25) r sc else sc)" for r
    using assms AddValue_nonneg [OF add] by (intro factors_ok_unless [where w = 25]) (simp_all add: weights_def)
  then have "factors_ok (''high_amount'' # ''unusual_amount'' # names)
      (if h then flag ''high_amount'' 20 r' (if b then flag ''unusual_amount'' (min (z * 5) 25) r sc else sc)
       else if b then flag ''unusual_amount'' (min (z * 5) 25) r sc else sc)" for h r r'
    by (rule factors_ok_unless [where w = 20]) (simp_all add: weights_def)
  moreover have "\<not> up_TotalTransactions profile > 10" using assms(2) by simp
  ultimately show ?thesis unfolding check_amount_def using True
    by (simp only: add if_True case_prod_conv Let_def fst_conv simp_thms if_False)
qed (use assms in \<open>auto simp: check_amount_def intro: factors_ok_mono\<close>)

text \<open>What an event leaves in the profile, apart from totals and times.\<close>

definition seen :: "FraudEvent \<Rightarrow> UserBehaviorProfile \<Rightarrow> UserBehaviorProfile" where
  "seen event p = p\<lparr>
     up_TypicalLocations := (if fe_Location event \<noteq> [] then count_up (fe_Location event) (up_TypicalLocations p) else up_TypicalLocations p),
     up_TypicalDevices := (if fe_DeviceID event \<noteq> [] then count_up (fe_DeviceID event) (up_TypicalDevices p) else up_TypicalDevices p),
     up_TypicalIPRanges := (if fe_IPAddress event \<noteq> [] then count_up (getIPRange (fe_IPAddress event)) (up_TypicalIPRanges p) else up_TypicalIPRanges p)\<rparr>"

lemma checks_profile: "snd (check_ip event (snd (check_device event (snd (check_location event p a)) b)) c) = seen event p"
  by (simp add: check_ip_def check_device_def check_location_def seen_def)

lemma checks_new: "up_TotalTransactions p = 0 \<Longrightarrow> fst (check_location event p sc) = sc"
  "up_TotalTransactions p = 0 \<Longrightarrow> fst (check_device event p sc) = sc" "up_TotalTransactions p = 0 \<Longrightarrow> fst (check_ip event p sc) = sc"
  by (simp_all add: check_location_def check_device_def check_ip_def check_known_def)

lemma checks_total: "up_TotalTransactions (snd (check_location event p sc)) = up_TotalTransactions p"
  "up_TotalTransactions (snd (check_device event p sc)) = up_TotalTransactions p"
  by (simp_all add: check_location_def check_device_def)

definition profile_for :: "FraudDetector \<Rightarrow> FraudEvent \<Rightarrow> UserBehaviorProfile" where
  "profile_for fd event = (case userProfiles fd (fe_UserID event) of Some p \<Rightarrow> p | None \<Rightarrow> new_profile event)"

lemma analyze_score:
  "fst (AnalyzeEvent env event fd) =
    (let p0 = profile_for fd event;
         sc2 = fst (check_amount event p0 fd (check_age event p0 (new_score event)));
         (sc3, p1) = check_location event p0 sc2;
         (sc4, p2) = check_device event p1 sc3;
         (sc5, p3) = check_ip event p2 sc4
     in (rate (check_time (fv_hour env) (check_travel (fv_order env) event p3 (check_velocity event p3 sc5))))\<lparr>fs_ProcessingTime := fv_elapsed env\<rparr>)"
  unfolding AnalyzeEvent_def profile_for_def by (simp only: Let_def split_beta fst_conv)

lemma analyze_profiles:
  "userProfiles (snd (AnalyzeEvent env event fd)) = (userProfiles fd)(fe_UserID event \<mapsto> update_profile event (seen event (profile_for fd event)))"
  unfolding AnalyzeEvent_def profile_for_def by (simp only: Let_def split_beta snd_conv checks_profile) simp

lemma seen_simps [simp]: "up_TotalTransactions (seen event p) = up_TotalTransactions p" "up_LastActivity (seen event p) = up_LastActivity p"
  by (simp_all add: seen_def)

text \<open>The first event of a user is never blocked: its score lies between 0 and 65, so the action is to allow it or to
  review it, whatever the amounts seen before and the settings of the detector.\<close>

theorem first_event_not_blocked:
  assumes "userProfiles fd (fe_UserID event) = None" "AnalyzeEvent env event fd = (sc, fd')"
  shows "0 \<le> fs_Score sc \<and> fs_Score sc \<le> 65 \<and> fs_Action sc \<noteq> ''block'' \<and> (fs_Action sc = ''allow'' \<longleftrightarrow> fs_Score sc < 25)"
proof -
  let ?p = "new_profile event"
  define sc8 where "sc8 = check_time (fv_hour env) (fst (check_amount event ?p fd (check_age event ?p (new_score event))))"
  have sc: "sc = (rate sc8)\<lparr>fs_ProcessingTime := fv_elapsed env\<rparr>"
  proof -
    have total: "up_TotalTransactions ?p = 0" and zero: "up_LastActivity ?p = 0" by (simp_all add: new_profile_def gotime)
    have "profile_for fd event = ?p" using assms(1) by (simp add: profile_for_def)
    then show ?thesis using analyze_score [of env event fd] total zero
      by (simp add: assms(2) Let_def split_beta checks_new checks_total checks_profile check_velocity_def check_travel_def gotime sc8_def)
  qed
  have "factors_ok [''unusual_time'', ''high_amount'', ''unusual_amount'', ''new_account''] sc8"
    unfolding sc8_def by (intro factors_ok_time factors_ok_amount_new factors_ok_age factors_ok_new) (simp add: new_profile_def)
  from factors_total [OF this] have "0 \<le> sum_list (map snd (fs_Factors sc8))" "sum_list (map snd (fs_Factors sc8)) \<le> 65"
    by (simp_all add: weights_def get_or_def)
  then show ?thesis by (auto simp: sc rate_def Let_def)
qed

definition example_fraud :: FraudEvent where
  "example_fraud = \<lparr>fe_EventID = ''e'', fe_UserID = ''u'', fe_Type = ''transaction'', fe_Amount = 200, fe_Timestamp = 1, fe_IPAddress = [],
     fe_Location = ''X'', fe_DeviceID = [], fe_Metadata = []\<rparr>"

lemma first_event_not_blocked_witness:
  "fs_Score (fst (AnalyzeEvent \<lparr>fv_order = [''X''], fv_hour = 3, fv_elapsed = 0\<rparr> example_fraud (NewFraudDetector 5 minute 100))) \<le> 65"
  using first_event_not_blocked [of "NewFraudDetector 5 minute 100" example_fraud] by (simp add: NewFraudDetector_def prod_eq_iff)

section \<open>Profiles\<close>

definition counts :: "string list \<Rightarrow> (string \<rightharpoonup> int)" where
  "counts xs x = (if x \<in> set xs then Some (int (length (filter (\<lambda>y. y = x) xs))) else None)"

lemma counts_snoc: "counts (xs @ [x]) = count_up x (counts xs)"
  by (rule ext) (auto simp: counts_def count_up_def get_or_def filter_empty_conv)

lemma counts_Nil: "counts [] = Map.empty"
  by (simp add: counts_def fun_eq_iff)

lemma counts_single: "counts [x] = count_up x Map.empty"
  using counts_snoc [of "[]" x] by (simp add: counts_Nil)

text \<open>The average as the source updates it: an event without an amount adds one transaction of the average so far.\<close>

fun running_average :: "real list \<Rightarrow> real" where
  "running_average [] = 0"
| "running_average (a # as) =
    (if a > 0 then (running_average as * real (length as) + a) / real (Suc (length as)) else running_average as)"

lemma running_average_mean: "\<forall>a \<in> set as. a > 0 \<Longrightarrow> as \<noteq> [] \<Longrightarrow> running_average (rev as) = mean_of as"
proof (induction as rule: rev_induct)
  case (snoc a as)
  then show ?case by (cases "as = []") (auto simp: mean_of_def add.commute)
qed simp

definition profile_of :: "string \<Rightarrow> FraudEvent list \<Rightarrow> UserBehaviorProfile option" where
  "profile_of user events =
    (if events = [] then None
     else Some \<lparr>up_UserID = user, up_TypicalTransactionAmount = 0,
       up_TypicalLocations = counts (filter (\<lambda>l. l \<noteq> []) (map fe_Location events)),
       up_TypicalDevices = counts (filter (\<lambda>d. d \<noteq> []) (map fe_DeviceID events)),
       up_TypicalIPRanges = counts (map getIPRange (filter (\<lambda>i. i \<noteq> []) (map fe_IPAddress events))),
       up_TransactionFrequency = 0, up_LastActivity = fe_Timestamp (last events), up_TotalTransactions = int (length events),
       up_AverageAmount = running_average (rev (map fe_Amount events)), up_CreatedAt = fe_Timestamp (hd events)\<rparr>)"

fun analyze_all :: "(fraud_env \<times> FraudEvent) list \<Rightarrow> FraudDetector \<Rightarrow> FraudDetector" where
  "analyze_all [] fd = fd"
| "analyze_all ((env, event) # rest) fd = analyze_all rest (snd (AnalyzeEvent env event fd))"

lemma analyze_all_snoc: "analyze_all (xs @ [(env, event)]) fd = snd (AnalyzeEvent env event (analyze_all xs fd))"
  by (induction xs fd rule: analyze_all.induct) simp_all

lemma profile_of_snoc:
  "profile_of user (events @ [event]) = Some (update_profile event (seen event
     (case profile_of user events of Some p \<Rightarrow> p | None \<Rightarrow> (new_profile event)\<lparr>up_UserID := user\<rparr>)))"
  by (cases "events = []")
    (simp_all add: profile_of_def new_profile_def seen_def update_profile_def counts_snoc counts_Nil counts_single Let_def)

text \<open>C23: The profile of a user is exact: after any sequence of events of any users it says how many events the user had,
  when the first and the last of them were, how often each location, device and address range occurred, and the running
  average of the amounts.\<close>

theorem fraud_profiles_exact:
  "userProfiles (analyze_all xs (NewFraudDetector t w a)) user = profile_of user (filter (\<lambda>e. fe_UserID e = user) (map snd xs))"
proof (induction xs rule: rev_induct)
  case (snoc x xs)
  obtain env event where x: "x = (env, event)" by fastforce
  let ?fd = "analyze_all xs (NewFraudDetector t w a)" and ?es = "filter (\<lambda>e. fe_UserID e = user) (map snd xs)"
  show ?case
  proof (cases "fe_UserID event = user")
    case True
    then have "profile_for ?fd event = (case profile_of user ?es of Some p \<Rightarrow> p | None \<Rightarrow> (new_profile event)\<lparr>up_UserID := user\<rparr>)"
      using snoc by (simp add: profile_for_def new_profile_def split: option.splits)
    then show ?thesis using True by (simp add: x analyze_all_snoc analyze_profiles profile_of_snoc)
  qed (use snoc in \<open>simp add: x analyze_all_snoc analyze_profiles\<close>)
qed (simp add: NewFraudDetector_def profile_of_def)

theorem ip_range_of: "CHR ''.'' \<notin> set q \<Longrightarrow> getIPRange (p @ ''.'' @ q) = p @ ''.0/24''"
proof -
  assume "CHR ''.'' \<notin> set q"
  then have "dropWhile (\<lambda>c. c \<noteq> CHR ''.'') (rev (p @ ''.'' @ q)) = CHR ''.'' # rev p"
    using dropWhile_append2 [of "rev q" "\<lambda>c. c \<noteq> CHR ''.''" "CHR ''.'' # rev p"] by auto
  then show ?thesis by (simp add: getIPRange_def)
qed

text \<open>Whether a quick second event of a user with two known places counts as impossible travel depends on the order of
  the map, not on where the user was last.\<close>

lemma travel_depends_on_order:
  assumes "up_TotalTransactions p > 0" "fe_Location event = l" "l \<noteq> []" "l' \<noteq> []" "l \<noteq> l'"
    and "time_Sub (fe_Timestamp event) (up_LastActivity p) < 60 * minute"
  shows "check_travel [l, l'] event p sc = sc" and "fs_Reasons (check_travel [l', l] event p sc) \<noteq> fs_Reasons sc"
  using assms by (simp_all add: check_travel_def flag_def)

text \<open>The average is that of the amounts when every event has one; otherwise it is not: a second event without an amount
  makes the third weigh less.\<close>

lemma average_of_amounts: "\<forall>a \<in> set as. a > 0 \<Longrightarrow> as \<noteq> [] \<Longrightarrow> running_average (rev as) = sum_list as / real (length as)"
  by (simp add: running_average_mean mean_of_def)

lemma average_skewed: "running_average (rev [100, 0, 400]) = 200" "mean_of [100, 400] = 250"
  by (simp_all add: mean_of_def)

definition add_scores :: "nat \<Rightarrow> (string \<times> real) list \<Rightarrow> RiskAggregator" where
  "add_scores n xs = fold (\<lambda>(u, s) ra. snd (AddScore u s ra)) xs (NewRiskAggregator n)"

definition scores_of :: "string \<Rightarrow> (string \<times> real) list \<Rightarrow> real list" where
  "scores_of u xs = map snd (filter (\<lambda>x. fst x = u) xs)"

lemma scores_of_snoc: "scores_of u (xs @ [(v, s)]) = (if v = u then scores_of u xs @ [s] else scores_of u xs)"
  by (simp add: scores_of_def)

lemma add_scores_window:
  "ra_windowSize (add_scores n xs) = n \<and>
   get_or (userRiskScores (add_scores n xs)) u [] = drop (length (scores_of u xs) - n) (scores_of u xs)"
proof (induction xs rule: rev_induct)
  case Nil
  then show ?case by (simp add: add_scores_def NewRiskAggregator_def get_or_def scores_of_def)
next
  case (snoc x xs)
  obtain v s where x: "x = (v, s)" by fastforce
  have "add_scores n (xs @ [x]) = snd (AddScore v s (add_scores n xs))" by (simp add: add_scores_def x)
  then show ?case using snoc push_history_last [of n s "scores_of u xs"]
    by (auto simp: x AddScore_def Let_def scores_of_snoc get_or_def)
qed

text \<open>The aggregated risk is the mean of the last scores of the user, as many as the window holds.\<close>

theorem risk_is_moving_average:
  assumes "0 < n"
  shows "fst (AddScore u s (add_scores n xs)) = Fin (mean_of (let ss = scores_of u xs @ [s] in drop (length ss - n) ss))"
proof -
  have "push_history n s (get_or (userRiskScores (add_scores n xs)) u []) = drop (length (scores_of u xs @ [s]) - n) (scores_of u xs @ [s])"
    using add_scores_window [of n xs u] push_history_last [of n s "scores_of u xs"] by simp
  then show ?thesis using assms add_scores_window [of n xs u] by (simp add: AddScore_def Let_def)
qed

end
