(* ===== verification/Behavior_Analytics.thy ===== *)
theory Behavior_Analytics
  imports Fraud_Detection
begin

text \<open>
  Analytics of user behaviour, \<open>pkg/analytics/behavior.go\<close>: enrichment of events, aggregation by session, page
  statistics and engagement scores. Each operator is its closure on the decoded event, with the map it captures as state.
  Durations in milliseconds are integers without bound and numbers of type \<open>float64\<close> exact reals. The aggregators share the pattern of a map
  of records made on first use and updated by every event of their key; the locale \<open>keyed_records\<close> says what such a map holds.
\<close>

section \<open>Maps of records by key\<close>

definition keyed_step :: "('x \<Rightarrow> 'k) \<Rightarrow> ('x \<Rightarrow> 'm) \<Rightarrow> ('x \<Rightarrow> 'm \<Rightarrow> 'm) \<Rightarrow> 'x \<Rightarrow> ('k \<rightharpoonup> 'm) \<Rightarrow> ('k \<rightharpoonup> 'm)" where
  "keyed_step key start upd x m = m(key x \<mapsto> upd x (case m (key x) of Some a \<Rightarrow> a | None \<Rightarrow> start x))"

text \<open>\<open>of_all xs\<close> is the record that the events \<open>xs\<close> of one key should give.\<close>

locale keyed_records =
  fixes key :: "'x \<Rightarrow> 'k" and start :: "'x \<Rightarrow> 'm" and upd :: "'x \<Rightarrow> 'm \<Rightarrow> 'm" and of_all :: "'x list \<Rightarrow> 'm"
  assumes one: "of_all [x] = upd x (start x)"
    and more: "xs \<noteq> [] \<Longrightarrow> \<forall>y \<in> set xs. key y = key x \<Longrightarrow> of_all (xs @ [x]) = upd x (of_all xs)"
begin

lemma after:
  "fold (keyed_step key start upd) xs Map.empty k =
    (if filter (\<lambda>x. key x = k) xs = [] then None else Some (of_all (filter (\<lambda>x. key x = k) xs)))"
proof (induction xs rule: rev_induct)
  case (snoc x xs)
  let ?ys = "filter (\<lambda>x. key x = k) xs"
  show ?case
  proof (cases "key x = k")
    case True
    show ?thesis
    proof (cases "?ys = []")
      case False
      then have "of_all (?ys @ [x]) = upd x (of_all ?ys)" using True by (intro more) auto
      then show ?thesis using snoc True False by (simp add: keyed_step_def)
    qed (use snoc True one in \<open>simp add: keyed_step_def\<close>)
  qed (use snoc in \<open>simp add: keyed_step_def\<close>)
qed simp

end

section \<open>Data\<close>

record UserBehavior =
  ub_UserID :: string
  ub_SessionID :: string
  ub_Action :: string
  ub_Page :: string
  ub_Timestamp :: gtime
  ub_Duration :: int
  ub_Metadata :: "(string \<times> json) list"
  ub_IPAddress :: string
  ub_UserAgent :: string
  ub_Country :: string
  ub_Device :: string

record BehaviorMetrics =
  bm_UserID :: string
  bm_SessionID :: string
  bm_WindowStart :: gtime
  bm_WindowEnd :: gtime
  bm_TotalEvents :: int
  bm_UniquePages :: int
  bm_TotalDuration :: int
  bm_AverageDuration :: real
  bm_Actions :: "string \<rightharpoonup> int"
  bm_Pages :: "string \<rightharpoonup> int"
  bm_FirstSeen :: gtime
  bm_LastSeen :: gtime
  bm_DeviceType :: string
  bm_Country :: string

record PageStats =
  ps_Page :: string
  ps_TotalViews :: int
  ps_UniqueUsers :: int
  ps_TotalDuration :: int
  ps_AverageDuration :: real
  ps_FirstSeen :: gtime
  ps_LastSeen :: gtime

definition isConversionAction :: "string \<Rightarrow> bool" where
  "isConversionAction action \<longleftrightarrow> action \<in> set [''purchase'', ''signup'', ''subscribe'', ''download'', ''submit_form'']"

section \<open>Operators\<close>

text \<open>Enrichment: the fields of the event and four computed ones. Hour and weekday depend on the time zone of the
  timestamp and are arguments.\<close>

record EnrichedBehavior = UserBehavior +
  is_conversion :: bool
  is_high_value :: bool
  hour_of_day :: int
  day_of_week :: string

definition BehaviorTracker :: "int \<Rightarrow> string \<Rightarrow> UserBehavior \<Rightarrow> string \<times> EnrichedBehavior" where
  "BehaviorTracker h day b =
    (ub_UserID b, UserBehavior.extend b (EnrichedBehavior.fields (isConversionAction (ub_Action b)) (ub_Duration b > 30000) h day))"

definition session_key :: "UserBehavior \<Rightarrow> string" where
  "session_key b = ub_UserID b @ '':'' @ ub_SessionID b"

definition new_session :: "UserBehavior \<Rightarrow> BehaviorMetrics" where
  "new_session b = \<lparr>bm_UserID = ub_UserID b, bm_SessionID = ub_SessionID b, bm_WindowStart = ub_Timestamp b, bm_WindowEnd = zero_time,
     bm_TotalEvents = 0, bm_UniquePages = 0, bm_TotalDuration = 0, bm_AverageDuration = 0, bm_Actions = Map.empty, bm_Pages = Map.empty,
     bm_FirstSeen = ub_Timestamp b, bm_LastSeen = zero_time, bm_DeviceType = ub_Device b, bm_Country = ub_Country b\<rparr>"

definition update_session :: "UserBehavior \<Rightarrow> BehaviorMetrics \<Rightarrow> BehaviorMetrics" where
  "update_session b m0 =
    (let m1 = m0\<lparr>bm_TotalEvents := bm_TotalEvents m0 + 1, bm_TotalDuration := bm_TotalDuration m0 + ub_Duration b,
           bm_Actions := count_up (ub_Action b) (bm_Actions m0), bm_Pages := count_up (ub_Page b) (bm_Pages m0),
           bm_LastSeen := ub_Timestamp b, bm_WindowEnd := ub_Timestamp b\<rparr>
     in m1\<lparr>bm_AverageDuration := of_int (bm_TotalDuration m1) / of_int (bm_TotalEvents m1), bm_UniquePages := int (len_map (bm_Pages m1))\<rparr>)"

definition SessionAggregator :: "UserBehavior \<Rightarrow> (string \<rightharpoonup> BehaviorMetrics) \<Rightarrow> (string \<times> BehaviorMetrics) \<times> (string \<rightharpoonup> BehaviorMetrics)" where
  "SessionAggregator b sessions =
    (let metrics = update_session b (case sessions (session_key b) of Some m \<Rightarrow> m | None \<Rightarrow> new_session b)
     in ((session_key b, metrics), sessions(session_key b \<mapsto> metrics)))"

definition new_page :: "UserBehavior \<Rightarrow> PageStats" where
  "new_page b = \<lparr>ps_Page = ub_Page b, ps_TotalViews = 0, ps_UniqueUsers = 0, ps_TotalDuration = 0, ps_AverageDuration = 0,
     ps_FirstSeen = ub_Timestamp b, ps_LastSeen = zero_time\<rparr>"

definition update_page :: "UserBehavior \<Rightarrow> PageStats \<Rightarrow> PageStats" where
  "update_page b s0 =
    (let s1 = s0\<lparr>ps_TotalViews := ps_TotalViews s0 + 1, ps_UniqueUsers := ps_UniqueUsers s0 + 1, ps_TotalDuration := ps_TotalDuration s0 + ub_Duration b\<rparr>
     in s1\<lparr>ps_AverageDuration := of_int (ps_TotalDuration s1) / of_int (ps_TotalViews s1), ps_LastSeen := ub_Timestamp b\<rparr>)"

definition PageViewTracker :: "UserBehavior \<Rightarrow> (string \<rightharpoonup> PageStats) \<Rightarrow> (string \<times> PageStats) option \<times> (string \<rightharpoonup> PageStats)" where
  "PageViewTracker b pages =
    (if ub_Action b \<noteq> ''page_view'' then (None, pages)
     else (let st = update_page b (case pages (ub_Page b) of Some s \<Rightarrow> s | None \<Rightarrow> new_page b)
           in (Some (ub_Page b, st), pages(ub_Page b \<mapsto> st))))"

definition calculateEngagementScore :: "BehaviorMetrics \<Rightarrow> real" where
  "calculateEngagementScore m =
    (let eventScore = (let s = of_int (bm_TotalEvents m) * 2 in if s > 30 then 30 else s);
         pageScore = (let s = of_int (bm_UniquePages m) * 4 in if s > 20 then 20 else s);
         durationScore = (let s = of_int (bm_TotalDuration m) / 10000 in if s > 30 then 30 else s);
         actionScore = (let s = real (len_map (bm_Actions m)) * 5 in if s > 20 then 20 else s);
         total = eventScore + pageScore + durationScore + actionScore
     in if total > 100 then 100 else total)"

record Engagement =
  en_user_id :: string
  en_session_id :: string
  en_engagement_score :: real
  en_total_events :: int
  en_unique_pages :: int
  en_total_duration :: int
  en_window_start :: gtime
  en_window_end :: gtime

definition EngagementScoreCalculator :: "BehaviorMetrics \<Rightarrow> string \<times> Engagement" where
  "EngagementScoreCalculator m =
    (bm_UserID m, \<lparr>en_user_id = bm_UserID m, en_session_id = bm_SessionID m, en_engagement_score = calculateEngagementScore m,
       en_total_events = bm_TotalEvents m, en_unique_pages = bm_UniquePages m, en_total_duration = bm_TotalDuration m,
       en_window_start = bm_WindowStart m, en_window_end = bm_WindowEnd m\<rparr>)"

section \<open>Sessions and pages\<close>

definition session_of :: "UserBehavior list \<Rightarrow> BehaviorMetrics" where
  "session_of bs = \<lparr>bm_UserID = ub_UserID (hd bs), bm_SessionID = ub_SessionID (hd bs), bm_WindowStart = ub_Timestamp (hd bs),
     bm_WindowEnd = ub_Timestamp (last bs), bm_TotalEvents = int (length bs), bm_UniquePages = int (card (ub_Page ` set bs)),
     bm_TotalDuration = sum_list (map ub_Duration bs), bm_AverageDuration = of_int (sum_list (map ub_Duration bs)) / real (length bs),
     bm_Actions = counts (map ub_Action bs), bm_Pages = counts (map ub_Page bs), bm_FirstSeen = ub_Timestamp (hd bs),
     bm_LastSeen = ub_Timestamp (last bs), bm_DeviceType = ub_Device (hd bs), bm_Country = ub_Country (hd bs)\<rparr>"

lemma dom_counts [simp]: "dom (counts xs) = set xs"
  by (auto simp: counts_def dom_def)

lemma len_counts: "len_map (counts xs) = card (set xs)"
  by (simp add: len_map_def)

interpretation sessions: keyed_records session_key new_session update_session session_of
proof
  fix x :: UserBehavior
  show "session_of [x] = update_session x (new_session x)"
    by (simp add: session_of_def update_session_def new_session_def Let_def counts_single [symmetric] len_counts)
next
  fix xs :: "UserBehavior list" and x
  assume "xs \<noteq> []"
  then show "session_of (xs @ [x]) = update_session x (session_of xs)"
    by (simp add: session_of_def update_session_def Let_def counts_snoc [symmetric] len_counts)
qed

lemma SessionAggregator_step: "snd (SessionAggregator b m) = keyed_step session_key new_session update_session b m"
  by (simp add: SessionAggregator_def keyed_step_def Let_def)

lemma SessionAggregator_result: "fst (SessionAggregator b m) = (session_key b, the (snd (SessionAggregator b m) (session_key b)))"
  by (simp add: SessionAggregator_def Let_def)

text \<open>Session metrics are exact: the operator emits for every event the numbers of events, distinct pages, actions and
  pages, the total and average duration, and the first and last time of all events so far with the key of its session.\<close>

theorem session_metrics_exact:
  "fst (SessionAggregator b (fold (\<lambda>b m. snd (SessionAggregator b m)) bs Map.empty)) =
    (session_key b, session_of (filter (\<lambda>c. session_key c = session_key b) bs @ [b]))"
proof -
  have "fold (\<lambda>b m. snd (SessionAggregator b m)) bs Map.empty = fold (keyed_step session_key new_session update_session) bs Map.empty"
    by (simp add: SessionAggregator_step [abs_def])
  then show ?thesis using sessions.after [of "bs @ [b]" "session_key b"]
    by (simp add: SessionAggregator_result SessionAggregator_step)
qed

definition page_of :: "UserBehavior list \<Rightarrow> PageStats" where
  "page_of bs = \<lparr>ps_Page = ub_Page (hd bs), ps_TotalViews = int (length bs), ps_UniqueUsers = int (length bs),
     ps_TotalDuration = sum_list (map ub_Duration bs), ps_AverageDuration = of_int (sum_list (map ub_Duration bs)) / real (length bs),
     ps_FirstSeen = ub_Timestamp (hd bs), ps_LastSeen = ub_Timestamp (last bs)\<rparr>"

interpretation pages: keyed_records ub_Page new_page update_page page_of
  by unfold_locales (simp_all add: page_of_def update_page_def new_page_def Let_def add.commute)

lemma PageViewTracker_fold:
  "fold (\<lambda>b m. snd (PageViewTracker b m)) bs m =
    fold (keyed_step ub_Page new_page update_page) (filter (\<lambda>b. ub_Action b = ''page_view'') bs) m"
  by (induction bs arbitrary: m) (simp_all add: PageViewTracker_def keyed_step_def Let_def)

text \<open>Page statistics count the views of a page exactly; the number of unique users is the number of views.\<close>

theorem page_statistics:
  "fold (\<lambda>b m. snd (PageViewTracker b m)) bs Map.empty p =
    (let views = filter (\<lambda>b. ub_Action b = ''page_view'' \<and> ub_Page b = p) bs in if views = [] then None else Some (page_of views))"
  using pages.after [of "filter (\<lambda>b. ub_Action b = ''page_view'') bs" p] by (simp add: PageViewTracker_fold Let_def conj_commute)

lemma unique_users_counts_views:
  "fold (\<lambda>b m. snd (PageViewTracker b m)) bs Map.empty p = Some st \<Longrightarrow> ps_UniqueUsers st = ps_TotalViews st"
  by (auto simp: page_statistics page_of_def Let_def split: if_splits)

text \<open>Sessions are told apart by the joined identifiers alone.\<close>

lemma session_keys_collide:
  "\<exists>b c. ub_UserID b \<noteq> ub_UserID c \<and> session_key b = session_key c"
proof -
  fix b :: UserBehavior
  have "session_key (b\<lparr>ub_UserID := ''u'', ub_SessionID := ''v:w''\<rparr>) = session_key (b\<lparr>ub_UserID := ''u:v'', ub_SessionID := ''w''\<rparr>)"
    by (simp add: session_key_def)
  then show ?thesis by (intro exI [where x = "b\<lparr>ub_UserID := ''u'', ub_SessionID := ''v:w''\<rparr>"] exI [where x = "b\<lparr>ub_UserID := ''u:v'', ub_SessionID := ''w''\<rparr>"]) simp
qed

text \<open>The engagement score of the metrics of any session with an event, whose durations are not negative, lies between
  11 and 100.\<close>

theorem engagement_score_bounds:
  assumes "bs \<noteq> []" "\<forall>b \<in> set bs. 0 \<le> ub_Duration b"
  shows "11 \<le> calculateEngagementScore (session_of bs) \<and> calculateEngagementScore (session_of bs) \<le> 100"
proof -
  have d: "0 \<le> sum_list (map ub_Duration bs)" using assms(2) by (intro sum_list_nonneg) auto
  have "ub_Page ` set bs \<noteq> {}" "ub_Action ` set bs \<noteq> {}" using assms(1) by auto
  then have p: "1 \<le> card (ub_Page ` set bs)" and a: "1 \<le> card (ub_Action ` set bs)" by (simp_all add: Suc_le_eq card_gt_0_iff)
  have e: "1 \<le> length bs" using assms(1) by (cases bs) auto
  have "len_map (counts (map ub_Action bs)) = card (ub_Action ` set bs)" by (simp add: len_counts)
  moreover have "(2::real) \<le> real (length bs) * 2" "(4::real) \<le> real (card (ub_Page ` set bs)) * 4" "(5::real) \<le> real (card (ub_Action ` set bs)) * 5"
    using e p a by simp_all
  moreover have "(0::real) \<le> of_int (sum_list (map ub_Duration bs)) / 10000" using d by simp
  ultimately show ?thesis unfolding calculateEngagementScore_def session_of_def by (simp add: Let_def)
qed

lemma engagement_score_bounds_witness:
  "11 \<le> calculateEngagementScore (session_of [\<lparr>ub_UserID = ''u'', ub_SessionID = ''s'', ub_Action = ''click'', ub_Page = ''p'', ub_Timestamp = 1,
     ub_Duration = 5, ub_Metadata = [], ub_IPAddress = [], ub_UserAgent = [], ub_Country = [], ub_Device = []\<rparr>])"
  using engagement_score_bounds [of "[\<lparr>ub_UserID = ''u'', ub_SessionID = ''s'', ub_Action = ''click'', ub_Page = ''p'', ub_Timestamp = 1,
     ub_Duration = 5, ub_Metadata = [], ub_IPAddress = [], ub_UserAgent = [], ub_Country = [], ub_Device = []\<rparr>]"] by simp

end
