(* ===== verification/KPI_Analytics.thy ===== *)
theory KPI_Analytics
  imports Behavior_Analytics
begin

text \<open>
  Key performance indicators, \<open>pkg/analytics/kpi.go\<close>: the live calculator with its rotating window, trends, revenue and the
  comparison of test variants. Clock readings and the order of range loops are arguments, and so is \<open>math.Erf\<close>. The
  maps of the live calculator that are only tested for membership are a set and a partial map; the one that is summed is an
  association list.
\<close>

section \<open>Metrics\<close>

record KPI =
  kpi_Name :: string
  kpi_Value :: real
  kpi_Target :: real
  kpi_Unit :: string
  kpi_Trend :: string
  kpi_ChangeRate :: real
  kpi_Timestamp :: gtime
  kpi_WindowStart :: gtime
  kpi_WindowEnd :: gtime
  kpi_Metadata :: "(string \<times> json) list"

record KPIMetrics =
  km_WindowStart :: gtime
  km_WindowEnd :: gtime
  km_TotalUsers :: int
  km_ActiveUsers :: int
  km_NewUsers :: int
  km_TotalSessions :: int
  km_TotalPageViews :: int
  km_TotalEvents :: int
  km_TotalRevenue :: real
  km_TotalConversions :: int
  km_AverageSessionDuration :: real
  km_BounceRate :: real
  km_ConversionRate :: real
  km_RevenuePerUser :: real
  km_ChurnRate :: real
  km_RetentionRate :: real

record RevenueMetrics =
  rm_WindowStart :: gtime
  rm_WindowEnd :: gtime
  rm_TotalRevenue :: real
  rm_RevenueByProduct :: "string \<rightharpoonup> real"
  rm_RevenueByCountry :: "string \<rightharpoonup> real"
  rm_TotalTransactions :: int
  rm_AverageOrderValue :: real
  rm_RevenuePerMinute :: real
  rm_TopProducts :: "string list"
  rm_TopCountries :: "string list"

record KPICalculator =
  kc_metrics :: KPIMetrics
  kc_previousMetrics :: "KPIMetrics option"
  kc_windowStart :: gtime
  kc_windowDuration :: duration

definition empty_metrics :: "gtime \<Rightarrow> duration \<Rightarrow> KPIMetrics" where
  "empty_metrics now d = \<lparr>km_WindowStart = now, km_WindowEnd = time_Add now d, km_TotalUsers = 0, km_ActiveUsers = 0, km_NewUsers = 0,
     km_TotalSessions = 0, km_TotalPageViews = 0, km_TotalEvents = 0, km_TotalRevenue = 0, km_TotalConversions = 0,
     km_AverageSessionDuration = 0, km_BounceRate = 0, km_ConversionRate = 0, km_RevenuePerUser = 0, km_ChurnRate = 0, km_RetentionRate = 0\<rparr>"

definition NewKPICalculator :: "gtime \<Rightarrow> duration \<Rightarrow> KPICalculator" where
  "NewKPICalculator now d = \<lparr>kc_metrics = empty_metrics now d, kc_previousMetrics = None, kc_windowStart = now, kc_windowDuration = d\<rparr>"

definition rotateWindow :: "gtime \<Rightarrow> KPICalculator \<Rightarrow> KPICalculator" where
  "rotateWindow now kc = kc\<lparr>kc_previousMetrics := Some (kc_metrics kc), kc_metrics := empty_metrics now (kc_windowDuration kc), kc_windowStart := now\<rparr>"

text \<open>What the closure of \<open>LiveKPICalculator\<close> captures.\<close>

record live_kpi =
  lk_calculator :: KPICalculator
  lk_userSessions :: "string set"
  lk_userFirstSeen :: "string \<rightharpoonup> gtime"
  lk_sessionDurations :: "(string \<times> int) list"

definition new_live :: "gtime \<Rightarrow> duration \<Rightarrow> live_kpi" where
  "new_live now d = \<lparr>lk_calculator = NewKPICalculator now d, lk_userSessions = {}, lk_userFirstSeen = Map.empty, lk_sessionDurations = []\<rparr>"

text \<open>Session durations are \<open>int64\<close> and wrap around.\<close>

fun add_duration :: "string \<Rightarrow> int \<Rightarrow> (string \<times> int) list \<Rightarrow> (string \<times> int) list" where
  "add_duration k d [] = [(k, d)]"
| "add_duration k d ((k', x) # rest) = (if k' = k then (k', wrap64 (x + d)) # rest else (k', x) # add_duration k d rest)"

definition rotate_live :: "gtime \<Rightarrow> gtime \<Rightarrow> live_kpi \<Rightarrow> live_kpi" where
  "rotate_live now event_time s =
    (if time_After event_time (km_WindowEnd (kc_metrics (lk_calculator s)))
     then \<lparr>lk_calculator = rotateWindow now (lk_calculator s), lk_userSessions = {}, lk_userFirstSeen = Map.empty, lk_sessionDurations = []\<rparr>
     else s)"

definition count_session :: "string \<Rightarrow> live_kpi \<Rightarrow> KPIMetrics \<Rightarrow> KPIMetrics" where
  "count_session key s m = (if key \<in> lk_userSessions s then m else m\<lparr>km_TotalSessions := km_TotalSessions m + 1\<rparr>)"

definition count_user :: "gtime \<Rightarrow> string \<Rightarrow> live_kpi \<Rightarrow> KPIMetrics \<Rightarrow> KPIMetrics" where
  "count_user event_time user s m =
    (case lk_userFirstSeen s user of
       None \<Rightarrow> m\<lparr>km_NewUsers := km_NewUsers m + 1, km_TotalUsers := km_TotalUsers m + 1\<rparr>
     | Some firstSeen \<Rightarrow> if time_Sub event_time firstSeen < 24 * (60 * minute) then m\<lparr>km_ActiveUsers := km_ActiveUsers m + 1\<rparr> else m)"

definition total_duration :: "(string \<times> int) list \<Rightarrow> int" where
  "total_duration durations = foldl (\<lambda>t (k, d). wrap64 (t + d)) 0 durations"

definition derive_metrics :: "(string \<times> int) list \<Rightarrow> KPIMetrics \<Rightarrow> KPIMetrics" where
  "derive_metrics durations m =
    (let m1 = (if km_TotalSessions m > 0
               then m\<lparr>km_AverageSessionDuration := of_int (total_duration durations) / of_int (km_TotalSessions m) / 1000,
                    km_ConversionRate := of_int (km_TotalConversions m) / of_int (km_TotalSessions m) * 100\<rparr>
               else m)
     in if km_TotalUsers m1 > 0 then m1\<lparr>km_RevenuePerUser := km_TotalRevenue m1 / of_int (km_TotalUsers m1)\<rparr> else m1)"

definition LiveKPICalculator :: "gtime \<Rightarrow> gtime \<Rightarrow> UserBehavior \<Rightarrow> live_kpi \<Rightarrow> KPIMetrics \<times> live_kpi" where
  "LiveKPICalculator now event_time b s0 =
    (let s = rotate_live now event_time s0;
         m0 = kc_metrics (lk_calculator s);
         m1 = m0\<lparr>km_TotalEvents := km_TotalEvents m0 + 1\<rparr>;
         m2 = (if ub_Action b = ''page_view'' then m1\<lparr>km_TotalPageViews := km_TotalPageViews m1 + 1\<rparr> else m1);
         key = session_key b;
         m3 = count_session key s m2;
         m4 = count_user event_time (ub_UserID b) s m3;
         firstSeen = (if lk_userFirstSeen s (ub_UserID b) = None then (lk_userFirstSeen s)(ub_UserID b \<mapsto> event_time) else lk_userFirstSeen s);
         durations = add_duration key (ub_Duration b) (lk_sessionDurations s);
         m5 = (if isConversionAction (ub_Action b) then m4\<lparr>km_TotalConversions := km_TotalConversions m4 + 1\<rparr> else m4);
         m6 = derive_metrics durations m5
     in (m6, \<lparr>lk_calculator = (lk_calculator s)\<lparr>kc_metrics := m6\<rparr>, lk_userSessions = insert key (lk_userSessions s),
              lk_userFirstSeen = firstSeen, lk_sessionDurations = durations\<rparr>))"

definition calculateTrend :: "real \<Rightarrow> real \<Rightarrow> string" where
  "calculateTrend previous current =
    (if previous = 0 then ''stable''
     else (let changeRate = (current - previous) / previous * 100
           in if changeRate > 5 then ''up'' else if changeRate < - 5 then ''down'' else ''stable''))"

definition calculateChangeRate :: "real \<Rightarrow> real \<Rightarrow> real" where
  "calculateChangeRate previous current = (if previous = 0 then 0 else (current - previous) / previous * 100)"

definition mk_kpi :: "gtime \<Rightarrow> KPIMetrics \<Rightarrow> KPIMetrics \<Rightarrow> string \<Rightarrow> string \<Rightarrow> (KPIMetrics \<Rightarrow> real) \<Rightarrow> KPI" where
  "mk_kpi now previous m name unit f = \<lparr>kpi_Name = name, kpi_Value = f m, kpi_Target = 0, kpi_Unit = unit, kpi_Trend = calculateTrend (f previous) (f m),
     kpi_ChangeRate = calculateChangeRate (f previous) (f m), kpi_Timestamp = now, kpi_WindowStart = km_WindowStart m,
     kpi_WindowEnd = km_WindowEnd m, kpi_Metadata = []\<rparr>"

text \<open>\<open>nows i\<close> is the reading of the clock for the \<open>i\<close>-th indicator.\<close>

definition CalculateTrends :: "(nat \<Rightarrow> gtime) \<Rightarrow> KPICalculator \<Rightarrow> KPI list" where
  "CalculateTrends nows kc =
    (case kc_previousMetrics kc of
       None \<Rightarrow> []
     | Some previous \<Rightarrow>
        [mk_kpi (nows 0) previous (kc_metrics kc) ''Total Users'' ''count'' (\<lambda>m. of_int (km_TotalUsers m)),
         mk_kpi (nows 1) previous (kc_metrics kc) ''Active Users'' ''count'' (\<lambda>m. of_int (km_ActiveUsers m)),
         mk_kpi (nows 2) previous (kc_metrics kc) ''Conversion Rate'' ''percentage'' km_ConversionRate,
         mk_kpi (nows 3) previous (kc_metrics kc) ''Avg Session Duration'' ''seconds'' km_AverageSessionDuration,
         mk_kpi (nows 4) previous (kc_metrics kc) ''Revenue Per User'' ''dollars'' km_RevenuePerUser])"

section \<open>Revenue\<close>

text \<open>Fields of decoded JSON: a missing field or one of another type is the zero value.\<close>

definition str_field :: "(string \<times> json) list \<Rightarrow> string \<Rightarrow> string" where
  "str_field data k = (case map_of data k of Some (JStr s) \<Rightarrow> s | _ \<Rightarrow> [])"

definition num_field :: "(string \<times> json) list \<Rightarrow> string \<Rightarrow> real" where
  "num_field data k = (case map_of data k of Some (JNum x) \<Rightarrow> of_rat x | _ \<Rightarrow> 0)"

definition new_revenue :: "gtime \<Rightarrow> gtime \<Rightarrow> duration \<Rightarrow> RevenueMetrics" where
  "new_revenue now now' d = \<lparr>rm_WindowStart = now, rm_WindowEnd = time_Add now' d, rm_TotalRevenue = 0, rm_RevenueByProduct = Map.empty,
     rm_RevenueByCountry = Map.empty, rm_TotalTransactions = 0, rm_AverageOrderValue = 0, rm_RevenuePerMinute = 0, rm_TopProducts = [], rm_TopCountries = []\<rparr>"

definition add_amount :: "string \<Rightarrow> real \<Rightarrow> (string \<rightharpoonup> real) \<Rightarrow> (string \<rightharpoonup> real)" where
  "add_amount k x m = m(k \<mapsto> get_or m k 0 + x)"

definition RevenueCalculator :: "gtime \<Rightarrow> (string \<times> json) list \<Rightarrow> RevenueMetrics \<Rightarrow> RevenueMetrics option \<times> RevenueMetrics" where
  "RevenueCalculator event_time data m0 =
    (if str_field data ''action'' \<noteq> ''purchase'' then (None, m0)
     else
       (let amount = num_field data ''amount'';
            m1 = m0\<lparr>rm_TotalRevenue := rm_TotalRevenue m0 + amount, rm_TotalTransactions := rm_TotalTransactions m0 + 1,
                  rm_RevenueByProduct := add_amount (str_field data ''product'') amount (rm_RevenueByProduct m0),
                  rm_RevenueByCountry := add_amount (str_field data ''country'') amount (rm_RevenueByCountry m0)\<rparr>;
            m2 = (if rm_TotalTransactions m1 > 0 then m1\<lparr>rm_AverageOrderValue := rm_TotalRevenue m1 / of_int (rm_TotalTransactions m1)\<rparr> else m1);
            minutes = of_int (time_Sub event_time (rm_WindowStart m2)) / of_int minute :: real;
            m3 = (if minutes > 0 then m2\<lparr>rm_RevenuePerMinute := rm_TotalRevenue m2 / minutes\<rparr> else m2)
        in (Some m3, m3)))"

section \<open>Test variants\<close>

record VariantStats =
  vs_VariantID :: string
  vs_Users :: int
  vs_Conversions :: int
  vs_ConversionRate :: real
  vs_Revenue :: real
  vs_RevenuePerUser :: real
  vs_AvgEngagement :: real
  vs_StatSignificance :: real

record ABTestAnalyzer =
  aa_TestID :: string
  aa_Variants :: "string \<rightharpoonup> VariantStats"
  aa_WindowStart :: gtime
  aa_WindowEnd :: gtime

definition new_analyzer :: "string \<Rightarrow> gtime \<Rightarrow> ABTestAnalyzer" where
  "new_analyzer testID now = \<lparr>aa_TestID = testID, aa_Variants = Map.empty, aa_WindowStart = now, aa_WindowEnd = zero_time\<rparr>"

definition new_variant :: "string \<Rightarrow> VariantStats" where
  "new_variant i = \<lparr>vs_VariantID = i, vs_Users = 0, vs_Conversions = 0, vs_ConversionRate = 0, vs_Revenue = 0, vs_RevenuePerUser = 0,
     vs_AvgEngagement = 0, vs_StatSignificance = 0\<rparr>"

definition normalCDF :: "(real \<Rightarrow> real) \<Rightarrow> real \<Rightarrow> real" where
  "normalCDF erf x = 1 / 2 * (1 + erf (x / sqrt 2))"

definition p_value :: "(real \<Rightarrow> real) \<Rightarrow> VariantStats \<Rightarrow> VariantStats \<Rightarrow> real option" where
  "p_value erf v1 v2 =
    (if vs_Users v1 = 0 \<or> vs_Users v2 = 0 then None
     else
       (let pooledP = of_int (vs_Conversions v1 + vs_Conversions v2) / of_int (vs_Users v1 + vs_Users v2);
            se = sqrt (pooledP * (1 - pooledP) * (1 / of_int (vs_Users v1) + 1 / of_int (vs_Users v2)))
        in if se = 0 then None
           else (let zScore = \<bar>(vs_ConversionRate v1 / 100 - vs_ConversionRate v2 / 100) / se\<bar> in Some (2 * (1 - normalCDF erf zScore)))))"

text \<open>\<open>order\<close> is the order in which the range loop lists the variants; the first two are compared.\<close>

definition calculateStatisticalSignificance ::
  "(real \<Rightarrow> real) \<Rightarrow> string list \<Rightarrow> (string \<rightharpoonup> VariantStats) \<Rightarrow> (string \<rightharpoonup> VariantStats)" where
  "calculateStatisticalSignificance erf order vs =
    (case order of
       k1 # k2 # rest \<Rightarrow>
         (case (vs k1, vs k2) of
            (Some v1, Some v2) \<Rightarrow>
              (case p_value erf v1 v2 of
                 None \<Rightarrow> vs
               | Some p \<Rightarrow> vs(k1 \<mapsto> v1\<lparr>vs_StatSignificance := p\<rparr>, k2 \<mapsto> v2\<lparr>vs_StatSignificance := p\<rparr>))
          | _ \<Rightarrow> vs)
     | _ \<Rightarrow> vs)"

definition update_variant :: "(string \<times> json) list \<Rightarrow> VariantStats \<Rightarrow> VariantStats" where
  "update_variant data s0 =
    (let s1 = s0\<lparr>vs_Users := vs_Users s0 + 1\<rparr>;
         s2 = (if isConversionAction (str_field data ''action'') then s1\<lparr>vs_Conversions := vs_Conversions s1 + 1\<rparr> else s1);
         s3 = s2\<lparr>vs_Revenue := vs_Revenue s2 + num_field data ''amount''\<rparr>
     in if vs_Users s3 > 0
        then s3\<lparr>vs_ConversionRate := of_int (vs_Conversions s3) / of_int (vs_Users s3) * 100, vs_RevenuePerUser := vs_Revenue s3 / of_int (vs_Users s3)\<rparr>
        else s3)"

definition ABTestKPICalculator ::
  "(real \<Rightarrow> real) \<Rightarrow> string list \<Rightarrow> (string \<times> json) list \<Rightarrow> ABTestAnalyzer \<Rightarrow> ABTestAnalyzer option \<times> ABTestAnalyzer" where
  "ABTestKPICalculator erf order data a =
    (case map_of data ''variant_id'' of
       Some (JStr i) \<Rightarrow>
         (let st = update_variant data (case aa_Variants a i of Some s \<Rightarrow> s | None \<Rightarrow> new_variant i);
              vs = (aa_Variants a)(i \<mapsto> st);
              vs' = (if len_map vs \<ge> 2 then calculateStatisticalSignificance erf order vs else vs);
              a' = a\<lparr>aa_Variants := vs'\<rparr>
          in (Some a', a'))
     | _ \<Rightarrow> (None, a))"

section \<open>The live indicators\<close>

text \<open>The events of the current window, with the start of the window and the indicators of the one before: an event later
  than the end of the window starts a new one, at the time of the clock.\<close>

definition first_seen :: "(gtime \<times> UserBehavior) list \<Rightarrow> string \<Rightarrow> gtime option" where
  "first_seen ws u = map_option fst (find (\<lambda>(t, b). ub_UserID b = u) ws)"

fun repeats :: "(gtime \<times> UserBehavior) list \<Rightarrow> int" where
  "repeats [] = 0"
| "repeats ((t, b) # ws) = repeats ws +
    (case first_seen (rev ws) (ub_UserID b) of None \<Rightarrow> 0 | Some t0 \<Rightarrow> if time_Sub t t0 < 24 * (60 * minute) then 1 else 0)"

definition kpi_of :: "duration \<Rightarrow> gtime \<Rightarrow> (gtime \<times> UserBehavior) list \<Rightarrow> KPIMetrics" where
  "kpi_of d start ws =
    (let bs = map snd ws; users = int (card (ub_UserID ` set bs)); sessions = int (card (session_key ` set bs));
         conversions = int (length (filter (\<lambda>b. isConversionAction (ub_Action b)) bs))
     in \<lparr>km_WindowStart = start, km_WindowEnd = time_Add start d, km_TotalUsers = users, km_ActiveUsers = repeats (rev ws), km_NewUsers = users,
         km_TotalSessions = sessions, km_TotalPageViews = int (length (filter (\<lambda>b. ub_Action b = ''page_view'') bs)),
         km_TotalEvents = int (length bs), km_TotalRevenue = 0, km_TotalConversions = conversions,
         km_AverageSessionDuration = of_int (wrap64 (sum_list (map ub_Duration bs))) / of_int sessions / 1000, km_BounceRate = 0,
         km_ConversionRate = of_int conversions / of_int sessions * 100, km_RevenuePerUser = 0, km_ChurnRate = 0, km_RetentionRate = 0\<rparr>)"

type_synonym kpi_window = "KPIMetrics option \<times> gtime \<times> (gtime \<times> UserBehavior) list"

fun window_step :: "duration \<Rightarrow> gtime \<times> gtime \<times> UserBehavior \<Rightarrow> kpi_window \<Rightarrow> kpi_window" where
  "window_step d (now, t, b) (prev, start, ws) =
    (if time_After t (time_Add start d) then (Some (kpi_of d start ws), now, [(t, b)]) else (prev, start, ws @ [(t, b)]))"

definition live_ok :: "duration \<Rightarrow> kpi_window \<Rightarrow> live_kpi \<Rightarrow> bool" where
  "live_ok d w s \<longleftrightarrow> (case w of (prev, start, ws) \<Rightarrow>
     lk_calculator s = \<lparr>kc_metrics = kpi_of d start ws, kc_previousMetrics = prev, kc_windowStart = start, kc_windowDuration = d\<rparr> \<and>
     lk_userSessions s = session_key ` snd ` set ws \<and> lk_userFirstSeen s = first_seen ws \<and>
     total_duration (lk_sessionDurations s) = wrap64 (sum_list (map (ub_Duration \<circ> snd) ws)))"

lemma kpi_of_Nil: "kpi_of d start [] = empty_metrics start d"
  by (simp add: kpi_of_def empty_metrics_def Let_def)

lemma first_seen_Nil [simp]: "first_seen [] = Map.empty"
  by (simp add: first_seen_def fun_eq_iff)

lemma first_seen_snoc:
  "first_seen (ws @ [(t, b)]) = (if first_seen ws (ub_UserID b) = None then (first_seen ws)(ub_UserID b \<mapsto> t) else first_seen ws)"
proof -
  have find: "find P (xs @ [x]) = (case find P xs of Some y \<Rightarrow> Some y | None \<Rightarrow> if P x then Some x else None)" for P xs and x :: "'z"
    by (induction xs) auto
  show ?thesis by (rule ext) (auto simp: first_seen_def find split: option.splits)
qed

lemma first_seen_None: "first_seen ws u = None \<longleftrightarrow> u \<notin> ub_UserID ` snd ` set ws"
  by (force simp: first_seen_def find_None_iff)

lemma wrap64_add_right [simp]: "wrap64 (x + wrap64 y) = wrap64 (x + y)"
  using wrap64_add [of y x] by (simp only: add.commute)

lemma total_duration_sum: "total_duration xs = wrap64 (sum_list (map snd xs))"
proof (induction xs rule: rev_induct)
  case Nil
  then show ?case by (simp add: total_duration_def wrap64_def)
qed (auto simp: total_duration_def split_def)

lemma total_duration_Nil [simp]: "total_duration [] = 0" "wrap64 0 = 0"
  by (simp_all add: total_duration_def wrap64_def)

lemma add_duration_sum: "total_duration (add_duration k d xs) = wrap64 (total_duration xs + d)"
proof -
  have "wrap64 (sum_list (map snd (add_duration k d xs)) + y) = wrap64 (sum_list (map snd xs) + d + y)" for y
  proof (induction k d xs arbitrary: y rule: add_duration.induct)
    case (2 k d k' x rest)
    show ?case
    proof (cases "k' = k")
      case True
      have "wrap64 (wrap64 (x + d) + (sum_list (map snd rest) + y)) = wrap64 (x + d + (sum_list (map snd rest) + y))" by (rule wrap64_add)
      then show ?thesis using True by (simp add: algebra_simps)
    next
      case False
      then show ?thesis using "2.IH" [OF False, of "x + y"] by (simp add: algebra_simps)
    qed
  qed simp
  from this [of 0] show ?thesis by (simp add: total_duration_sum)
qed

lemma live_ok_new: "live_ok d (None, now, []) (new_live now d)"
  by (simp add: live_ok_def new_live_def NewKPICalculator_def kpi_of_Nil)

lemma rotate_ok:
  assumes "live_ok d (prev, start, ws) s" "time_After t (time_Add start d)"
  shows "live_ok d (Some (kpi_of d start ws), now, []) (rotate_live now t s)"
proof -
  have "km_WindowEnd (kpi_of d start ws) = time_Add start d" by (simp add: kpi_of_def Let_def)
  then show ?thesis using assms by (simp add: live_ok_def rotate_live_def rotateWindow_def kpi_of_Nil)
qed

lemma rotate_not:
  assumes "live_ok d (prev, start, ws) s" "\<not> time_After t (time_Add start d)"
  shows "rotate_live now t s = s"
proof -
  have "km_WindowEnd (kpi_of d start ws) = time_Add start d" by (simp add: kpi_of_def Let_def)
  then show ?thesis using assms by (simp add: live_ok_def rotate_live_def)
qed

text \<open>The work of the calculator after the rotation.\<close>

definition live_body :: "gtime \<Rightarrow> UserBehavior \<Rightarrow> live_kpi \<Rightarrow> KPIMetrics \<times> live_kpi" where
  "live_body t b s =
    (let m0 = kc_metrics (lk_calculator s);
         m1 = m0\<lparr>km_TotalEvents := km_TotalEvents m0 + 1\<rparr>;
         m2 = (if ub_Action b = ''page_view'' then m1\<lparr>km_TotalPageViews := km_TotalPageViews m1 + 1\<rparr> else m1);
         m4 = count_user t (ub_UserID b) s (count_session (session_key b) s m2);
         durations = add_duration (session_key b) (ub_Duration b) (lk_sessionDurations s);
         m5 = (if isConversionAction (ub_Action b) then m4\<lparr>km_TotalConversions := km_TotalConversions m4 + 1\<rparr> else m4);
         m6 = derive_metrics durations m5
     in (m6, \<lparr>lk_calculator = (lk_calculator s)\<lparr>kc_metrics := m6\<rparr>, lk_userSessions = insert (session_key b) (lk_userSessions s),
              lk_userFirstSeen = (if lk_userFirstSeen s (ub_UserID b) = None then (lk_userFirstSeen s)(ub_UserID b \<mapsto> t) else lk_userFirstSeen s),
              lk_sessionDurations = durations\<rparr>))"

lemma LiveKPICalculator_body: "LiveKPICalculator now t b s = live_body t b (rotate_live now t s)"
  unfolding LiveKPICalculator_def live_body_def Let_def ..

lemma card_insert_int: "finite S \<Longrightarrow> int (card (insert x S)) = (if x \<in> S then int (card S) else int (card S) + 1)"
  by (simp add: card_insert_if)

text \<open>The counters before the rates are computed.\<close>

lemma live_counters:
  fixes b :: UserBehavior and t :: gtime
  assumes ok: "live_ok d (prev, start, ws) s"
  defines "m0 \<equiv> kpi_of d start ws"
  defines "m1 \<equiv> m0\<lparr>km_TotalEvents := km_TotalEvents m0 + 1\<rparr>"
  defines "m2 \<equiv> (if ub_Action b = ''page_view'' then m1\<lparr>km_TotalPageViews := km_TotalPageViews m1 + 1\<rparr> else m1)"
  defines "m4 \<equiv> count_user t (ub_UserID b) s (count_session (session_key b) s m2)"
  defines "m5 \<equiv> (if isConversionAction (ub_Action b) then m4\<lparr>km_TotalConversions := km_TotalConversions m4 + 1\<rparr> else m4)"
  shows "m5 = (kpi_of d start (ws @ [(t, b)]))\<lparr>km_AverageSessionDuration := km_AverageSessionDuration m0, km_ConversionRate := km_ConversionRate m0\<rparr>"
proof -
  let ?S = "session_key ` snd ` set ws" and ?U = "ub_UserID ` snd ` set ws"
  have cards: "int (card (insert (session_key b) ?S)) = (if session_key b \<in> ?S then int (card ?S) else int (card ?S) + 1)"
    "int (card (insert (ub_UserID b) ?U)) = (if ub_UserID b \<in> ?U then int (card ?U) else int (card ?U) + 1)"
    by (rule card_insert_int, simp)+
  have sess: "lk_userSessions s = ?S" and seen: "lk_userFirstSeen s = first_seen ws" using ok by (simp_all add: live_ok_def)
  consider "first_seen ws (ub_UserID b) = None" "ub_UserID b \<notin> ?U" | t0 where "first_seen ws (ub_UserID b) = Some t0" "ub_UserID b \<in> ?U"
    using first_seen_None [of ws "ub_UserID b"] by (cases "first_seen ws (ub_UserID b)") auto
  then show ?thesis
    by cases (simp_all add: m5_def m4_def m2_def m1_def m0_def kpi_of_def Let_def count_user_def count_session_def sess seen cards)
qed

lemma live_body_ok:
  assumes ok: "live_ok d (prev, start, ws) s"
  shows "fst (live_body t b s) = kpi_of d start (ws @ [(t, b)]) \<and> live_ok d (prev, start, ws @ [(t, b)]) (snd (live_body t b s))"
proof -
  let ?m = "kpi_of d start (ws @ [(t, b)])"
  have sum: "total_duration (add_duration (session_key b) (ub_Duration b) (lk_sessionDurations s)) = wrap64 (sum_list (map (ub_Duration \<circ> snd) (ws @ [(t, b)])))"
    using ok by (simp add: live_ok_def add_duration_sum)
  have "0 < km_TotalSessions ?m" "0 < km_TotalUsers ?m" by (simp_all add: kpi_of_def Let_def card_gt_0_iff)
  then have derive: "derive_metrics (add_duration (session_key b) (ub_Duration b) (lk_sessionDurations s))
      (?m\<lparr>km_AverageSessionDuration := x, km_ConversionRate := y\<rparr>) = ?m" for x y
    unfolding derive_metrics_def sum by (simp add: Let_def kpi_of_def comp_def)
  have calc: "lk_calculator s = \<lparr>kc_metrics = kpi_of d start ws, kc_previousMetrics = prev, kc_windowStart = start, kc_windowDuration = d\<rparr>"
    using ok by (simp add: live_ok_def)
  have fst: "fst (live_body t b s) = ?m"
    using live_counters [OF ok, where b = b and t = t] derive unfolding live_body_def Let_def fst_conv calc KPICalculator.select_convs by simp
  have "snd (live_body t b s) = \<lparr>lk_calculator = (lk_calculator s)\<lparr>kc_metrics := fst (live_body t b s)\<rparr>, lk_userSessions = insert (session_key b) (lk_userSessions s),
              lk_userFirstSeen = (if lk_userFirstSeen s (ub_UserID b) = None then (lk_userFirstSeen s)(ub_UserID b \<mapsto> t) else lk_userFirstSeen s),
              lk_sessionDurations = add_duration (session_key b) (ub_Duration b) (lk_sessionDurations s)\<rparr>"
    unfolding live_body_def Let_def fst_conv snd_conv ..
  then have "live_ok d (prev, start, ws @ [(t, b)]) (snd (live_body t b s))"
    using ok sum by (simp add: fst live_ok_def first_seen_snoc)
  with fst show ?thesis ..
qed

definition live_run :: "duration \<Rightarrow> gtime \<Rightarrow> (gtime \<times> gtime \<times> UserBehavior) list \<Rightarrow> live_kpi" where
  "live_run d now0 xs = fold (\<lambda>(now, t, b) s. snd (LiveKPICalculator now t b s)) xs (new_live now0 d)"

definition kpi_windows :: "duration \<Rightarrow> gtime \<Rightarrow> (gtime \<times> gtime \<times> UserBehavior) list \<Rightarrow> kpi_window" where
  "kpi_windows d now0 xs = fold (window_step d) xs (None, now0, [])"

lemma live_step_ok:
  assumes ok: "live_ok d w s" and w': "window_step d (now, t, b) w = (prev', start', ws')"
  shows "fst (LiveKPICalculator now t b s) = kpi_of d start' ws' \<and> live_ok d (prev', start', ws') (snd (LiveKPICalculator now t b s))"
proof -
  obtain prev start ws where w: "w = (prev, start, ws)" by (cases w)
  show ?thesis
  proof (cases "time_After t (time_Add start d)")
    case True
    then show ?thesis using live_body_ok [OF rotate_ok [OF ok [unfolded w] True, of now], of t b] w' by (auto simp: LiveKPICalculator_body w)
  next
    case False
    then show ?thesis using live_body_ok [OF ok [unfolded w], of t b] rotate_not [OF ok [unfolded w] False, of now] w' by (auto simp: LiveKPICalculator_body w)
  qed
qed

lemma live_run_ok: "live_ok d (kpi_windows d now0 xs) (live_run d now0 xs)"
proof (induction xs rule: rev_induct)
  case Nil
  then show ?case by (simp add: kpi_windows_def live_run_def live_ok_new)
next
  case (snoc x xs)
  obtain now t b where x: "x = (now, t, b)" by (cases x)
  obtain prev start ws where w: "window_step d (now, t, b) (kpi_windows d now0 xs) = (prev, start, ws)" by (metis surj_pair)
  show ?case using live_step_ok [OF snoc w] by (simp add: x w [symmetric] kpi_windows_def live_run_def)
qed

text \<open>C22: The live indicators are exact: after any stream of events the calculator emits for the next event the numbers of
  users, sessions, page views, events and conversions, the average session duration and the conversion rate of exactly the
  events of the current window, that event included, and it keeps the final indicators of the window before. Sessions are
  told apart by their keys, the sum of the durations is the wrapped \<open>int64\<close> sum that the code computes, and the two
  quotients are taken over the reals, where the code rounds to \<open>float64\<close>.\<close>

theorem live_indicators_exact:
  "case window_step d (now, t, b) (kpi_windows d now0 xs) of (prev, start, ws) \<Rightarrow>
     fst (LiveKPICalculator now t b (live_run d now0 xs)) = kpi_of d start ws \<and>
     kc_previousMetrics (lk_calculator (snd (LiveKPICalculator now t b (live_run d now0 xs)))) = prev"
proof -
  obtain prev start ws where w: "window_step d (now, t, b) (kpi_windows d now0 xs) = (prev, start, ws)" by (metis surj_pair)
  show ?thesis using live_step_ok [OF live_run_ok w] by (simp add: w live_ok_def)
qed

text \<open>Windows start at the time of the clock but end by the time of events: while events are further ahead of the clock than the
  window is long, every event rotates the window.\<close>

lemma event_ahead_of_clock_rotates:
  "time_After t (time_Add now d) \<Longrightarrow>
   kpi_windows d now [(now, t, b), (now, t, c)] = (Some (kpi_of d now [(t, b)]), now, [(t, c)])"
  by (simp add: kpi_windows_def)

section \<open>Revenue\<close>

definition amounts_by :: "('x \<Rightarrow> string) \<Rightarrow> ('x \<Rightarrow> real) \<Rightarrow> 'x list \<Rightarrow> (string \<rightharpoonup> real)" where
  "amounts_by key amount xs k = (if k \<in> key ` set xs then Some (sum_list (map amount (filter (\<lambda>x. key x = k) xs))) else None)"

lemma amounts_by_snoc: "amounts_by key amount (xs @ [x]) = add_amount (key x) (amount x) (amounts_by key amount xs)"
proof -
  have "filter (\<lambda>y. key y = key x) xs = []" if "key x \<notin> key ` set xs" using that by (force simp: filter_empty_conv image_iff)
  then show ?thesis by (auto simp: amounts_by_def add_amount_def get_or_def fun_eq_iff)
qed

lemma amounts_by_Nil: "amounts_by key amount [] = Map.empty"
  by (simp add: amounts_by_def fun_eq_iff)

abbreviation is_purchase :: "(string \<times> json) list \<Rightarrow> bool" where
  "is_purchase data \<equiv> str_field data ''action'' = ''purchase''"

definition revenue_run :: "RevenueMetrics \<Rightarrow> (gtime \<times> (string \<times> json) list) list \<Rightarrow> RevenueMetrics" where
  "revenue_run m xs = fold (\<lambda>(t, data) m. snd (RevenueCalculator t data m)) xs m"

definition purchases :: "(gtime \<times> (string \<times> json) list) list \<Rightarrow> (string \<times> json) list list" where
  "purchases xs = filter is_purchase (map snd xs)"

definition amount :: "(string \<times> json) list \<Rightarrow> real" where
  "amount data = num_field data ''amount''"

text \<open>Revenue is conserved: after any events the total revenue is the sum of the amounts of the purchases, the revenues of
  a product and of a country are those of its purchases, and the average order value is the mean amount. The window never
  ends.\<close>

theorem revenue_exact:
  "let m = revenue_run (new_revenue now now' d) xs; ps = purchases xs
   in rm_TotalRevenue m = sum_list (map amount ps) \<and> rm_TotalTransactions m = int (length ps) \<and>
      rm_RevenueByProduct m = amounts_by (\<lambda>data. str_field data ''product'') amount ps \<and>
      rm_RevenueByCountry m = amounts_by (\<lambda>data. str_field data ''country'') amount ps \<and>
      rm_AverageOrderValue m = mean_of (map amount ps) \<and> rm_WindowStart m = now"
proof (induction xs rule: rev_induct)
  case Nil
  then show ?case by (simp add: revenue_run_def purchases_def new_revenue_def amounts_by_Nil mean_of_def)
next
  case (snoc x xs)
  obtain t data where x: "x = (t, data)" by fastforce
  let ?run = "revenue_run (new_revenue now now' d)"
  have step: "?run (xs @ [x]) = snd (RevenueCalculator t data (?run xs))" by (simp add: revenue_run_def x)
  show ?case
  proof (cases "is_purchase data")
    case True
    have p: "purchases (xs @ [x]) = purchases xs @ [data]" using True by (simp add: purchases_def x)
    show ?thesis unfolding step p using snoc True
      by (simp add: RevenueCalculator_def Let_def amounts_by_snoc mean_of_def amount_def add.commute)
  next
    case False
    then have p: "purchases (xs @ [x]) = purchases xs" by (simp add: purchases_def x)
    show ?thesis unfolding step p using snoc False by (simp add: RevenueCalculator_def Let_def)
  qed
qed

section \<open>Significance of test variants\<close>

definition variant_ok :: "VariantStats \<Rightarrow> bool" where
  "variant_ok v \<longleftrightarrow> 0 \<le> vs_Conversions v \<and> vs_Conversions v \<le> vs_Users v \<and> 0 \<le> vs_ConversionRate v \<and> vs_ConversionRate v \<le> 100 \<and>
    0 \<le> vs_StatSignificance v \<and> vs_StatSignificance v \<le> 1"

definition variants_ok :: "ABTestAnalyzer \<Rightarrow> bool" where
  "variants_ok a \<longleftrightarrow> (\<forall>k v. aa_Variants a k = Some v \<longrightarrow> variant_ok v)"

lemma variant_ok_new: "variant_ok (new_variant i)"
  by (simp add: variant_ok_def new_variant_def)

lemma variant_ok_update:
  assumes "variant_ok s"
  shows "variant_ok (update_variant data s)"
proof -
  have rate: "0 \<le> real_of_int c / real_of_int u * 100" "real_of_int c / real_of_int u * 100 \<le> 100" if "0 \<le> c" "c \<le> u" "0 < u" for c u
    using that by (simp_all add: divide_le_eq)
  show ?thesis using assms rate [of "vs_Conversions s" "vs_Users s + 1"] rate [of "vs_Conversions s + 1" "vs_Users s + 1"]
    by (simp add: variant_ok_def update_variant_def Let_def)
qed

lemma p_value_bounds:
  assumes erf: "\<And>x. 0 \<le> x \<Longrightarrow> 0 \<le> erf x \<and> erf x \<le> 1" and p: "p_value erf v1 v2 = Some p"
  shows "0 \<le> p \<and> p \<le> 1"
proof -
  obtain z where z: "0 \<le> z" "p = 2 * (1 - normalCDF erf z)"
    using p unfolding p_value_def Let_def by (metis abs_ge_zero option.inject option.distinct(1))
  then show ?thesis using erf [of "z / sqrt 2"] by (simp add: normalCDF_def)
qed

lemma significance_ok:
  assumes erf: "\<And>x. 0 \<le> x \<Longrightarrow> 0 \<le> erf x \<and> erf x \<le> 1" and ok: "\<forall>k v. vs k = Some v \<longrightarrow> variant_ok v"
    and v: "calculateStatisticalSignificance erf order vs k = Some v"
  shows "variant_ok v"
proof -
  from v consider "vs k = Some v" | k' v' p w w' where "vs k' = Some v'" "p_value erf w w' = Some p" "v = v'\<lparr>vs_StatSignificance := p\<rparr>"
    by (auto simp: calculateStatisticalSignificance_def split: list.splits option.splits if_splits)
  then show ?thesis
  proof cases
    case 2
    have "0 \<le> p \<and> p \<le> 1" using erf 2(2) by (rule p_value_bounds)
    then show ?thesis using ok 2 by (simp add: variant_ok_def)
  qed (use ok in blast)
qed

lemma variants_step_ok:
  assumes erf: "\<And>x. 0 \<le> x \<Longrightarrow> 0 \<le> erf x \<and> erf x \<le> 1" and ok: "variants_ok a"
  shows "variants_ok (snd (ABTestKPICalculator erf order data a))"
proof (cases "\<exists>i. map_of data ''variant_id'' = Some (JStr i)")
  case True
  then obtain i where i: "map_of data ''variant_id'' = Some (JStr i)" ..
  define st where "st = update_variant data (case aa_Variants a i of Some s \<Rightarrow> s | None \<Rightarrow> new_variant i)"
  define vs where "vs = (aa_Variants a)(i \<mapsto> st)"
  have "variant_ok st" using ok variant_ok_new by (auto simp: st_def variants_ok_def intro!: variant_ok_update split: option.splits)
  then have "\<forall>k v. vs k = Some v \<longrightarrow> variant_ok v" using ok by (simp add: vs_def variants_ok_def)
  then have "\<forall>k v. (if len_map vs \<ge> 2 then calculateStatisticalSignificance erf order vs else vs) k = Some v \<longrightarrow> variant_ok v"
    using significance_ok [of erf vs order] erf by (simp split: if_splits)
  moreover have "aa_Variants (snd (ABTestKPICalculator erf order data a)) =
      (if len_map vs \<ge> 2 then calculateStatisticalSignificance erf order vs else vs)"
    unfolding ABTestKPICalculator_def i vs_def st_def by (simp add: Let_def)
  ultimately show ?thesis unfolding variants_ok_def by simp
next
  case False
  then have "snd (ABTestKPICalculator erf order data a) = a" by (auto simp: ABTestKPICalculator_def split: option.splits json.splits)
  then show ?thesis using ok by simp
qed

text \<open>Statistics of test variants stay in range: after any events, whatever the order of the map, every variant has no more
  conversions than users, a conversion rate between 0 and 100, and a p-value between 0 and 1, given the range of the error
  function.\<close>

theorem variant_statistics_in_range:
  assumes "\<And>x. 0 \<le> x \<Longrightarrow> 0 \<le> erf x \<and> erf x \<le> 1"
  shows "variants_ok (fold (\<lambda>(order, data) a. snd (ABTestKPICalculator erf order data a)) xs (new_analyzer testID now))"
proof (induction xs rule: rev_induct)
  case (snoc x xs)
  then show ?case using variants_step_ok [OF assms] by (simp split: prod.splits)
qed (simp add: variants_ok_def new_analyzer_def)

lemma variant_statistics_in_range_witness:
  "variants_ok (fold (\<lambda>(order, data) a. snd (ABTestKPICalculator (\<lambda>x. if x \<ge> 1 then 1 else if x \<le> - 1 then - 1 else x) order data a))
     [([], [(''variant_id'', JStr ''A'')]), ([''A'', ''B''], [(''variant_id'', JStr ''B''), (''action'', JStr ''signup'')])] (new_analyzer ''t'' 0))"
  by (rule variant_statistics_in_range) simp

end
