(* ===== verification/ML_Models.thy ===== *)
theory ML_Models
  imports Checkpoints Stream_Types Complex_Main "HOL-Library.AList" "HOL-Library.List_Lexorder" "HOL-Library.Char_ord"
begin

text \<open>
  Models and A/B tests, \<open>pkg/ml/model.go\<close> and \<open>pkg/ml/abtest.go\<close>. Models run in third-party libraries; a \<open>Model\<close> is the
  record of its operations, as in the source. Values of type \<open>interface{}\<close> are JSON values with null for \<open>nil\<close>, and the
  format \<open>%v\<close> on them is a parameter. The registry, a map of maps, refines a flat map from names and versions to models.
\<close>

unbundle bit_operations_syntax

section \<open>Models\<close>

record ModelMetadata =
  mm_Name :: string
  mm_Version :: string
  mm_Type :: string
  mm_InputNames :: "string list"
  mm_OutputNames :: "string list"
  mm_CreatedAt :: gtime
  mm_UpdatedAt :: gtime
  mm_Tags :: "string \<rightharpoonup> string"
  mm_Description :: string

record PredictionRequest =
  rq_Features :: "(string \<times> json) list"
  rq_Timestamp :: gtime
  rq_RequestID :: string

record PredictionResponse =
  rp_Prediction :: json
  rp_Scores :: "string \<rightharpoonup> real"
  rp_Metadata :: "(string \<times> json) list"
  rp_Latency :: duration
  rp_ModelInfo :: ModelMetadata

text \<open>The interface. What varies from call to call is the argument of type \<open>'n\<close>.\<close>

record ('n, 'e) Model =
  Predict :: "'n \<Rightarrow> (string \<times> json) list \<Rightarrow> 'e + PredictionResponse"
  PredictBatch :: "'n \<Rightarrow> PredictionRequest list \<Rightarrow> 'e + PredictionResponse list"
  GetMetadata :: ModelMetadata
  model_Close :: "'n \<Rightarrow> 'e option"

section \<open>The registry\<close>

record ('n, 'e) ModelRegistry =
  models :: "string \<rightharpoonup> (string \<rightharpoonup> ('n, 'e) Model)"

datatype 'e registry_error = EmptyName | EmptyVersion | AlreadyRegistered string string | NameNotFound string
  | VersionNotFound string string | CloseFailed 'e | CloseErrors "(string \<times> string \<times> 'e) list"

definition NewModelRegistry :: "('n, 'e) ModelRegistry" where
  "NewModelRegistry = \<lparr>models = Map.empty\<rparr>"

definition Register :: "('n, 'e) Model \<Rightarrow> ('n, 'e) ModelRegistry \<Rightarrow> 'e registry_error option \<times> ('n, 'e) ModelRegistry" where
  "Register model r =
    (let meta = GetMetadata model; name = mm_Name meta; version = mm_Version meta in
     if name = [] then (Some EmptyName, r)
     else if version = [] then (Some EmptyVersion, r)
     else (let ms = (if models r name = None then (models r)(name \<mapsto> Map.empty) else models r);
               versions = the (ms name)
           in if versions version \<noteq> None then (Some (AlreadyRegistered name version), r\<lparr>models := ms\<rparr>)
              else (None, r\<lparr>models := ms(name \<mapsto> versions(version \<mapsto> model))\<rparr>)))"

definition model_Get :: "string \<Rightarrow> string \<Rightarrow> ('n, 'e) ModelRegistry \<Rightarrow> 'e registry_error + ('n, 'e) Model" where
  "model_Get name version r =
    (case models r name of
       None \<Rightarrow> Inl (NameNotFound name)
     | Some versions \<Rightarrow> (case versions version of None \<Rightarrow> Inl (VersionNotFound name version) | Some model \<Rightarrow> Inr model))"

text \<open>The loop over the versions in map order; the empty string stands for no version yet.\<close>

fun latest_loop :: "(string \<rightharpoonup> 'm) \<Rightarrow> string list \<Rightarrow> string \<times> 'm option \<Rightarrow> string \<times> 'm option" where
  "latest_loop versions [] acc = acc"
| "latest_loop versions (v # vs) (latestVersion, latestModel) =
    latest_loop versions vs (if latestVersion = [] \<or> v > latestVersion then (v, versions v) else (latestVersion, latestModel))"

definition GetLatest :: "string list \<Rightarrow> string \<Rightarrow> ('n, 'e) ModelRegistry \<Rightarrow> 'e registry_error + ('n, 'e) Model option" where
  "GetLatest order name r =
    (case models r name of
       None \<Rightarrow> Inl (NameNotFound name)
     | Some versions \<Rightarrow> Inr (snd (latest_loop versions order ([], None))))"

definition Unregister :: "'n \<Rightarrow> string \<Rightarrow> string \<Rightarrow> ('n, 'e) ModelRegistry \<Rightarrow> 'e registry_error option \<times> ('n, 'e) ModelRegistry" where
  "Unregister env name version r =
    (case models r name of
       None \<Rightarrow> (Some (NameNotFound name), r)
     | Some versions \<Rightarrow>
         (case versions version of
            None \<Rightarrow> (Some (VersionNotFound name version), r)
          | Some model \<Rightarrow>
              (case model_Close model env of
                 Some e \<Rightarrow> (Some (CloseFailed e), r)
               | None \<Rightarrow>
                   (let versions' = versions(version := None)
                    in (None, r\<lparr>models := (if versions' = Map.empty then (models r)(name := None) else (models r)(name \<mapsto> versions'))\<rparr>)))))"

text \<open>\<open>order\<close> lists the registered names and versions in the order of the two loops.\<close>

definition registry_Close ::
  "(string \<times> string \<Rightarrow> 'n) \<Rightarrow> (string \<times> string) list \<Rightarrow> ('n, 'e) ModelRegistry \<Rightarrow> 'e registry_error option \<times> ('n, 'e) ModelRegistry" where
  "registry_Close envs order r =
    (let errs = concat (map (\<lambda>(n, v). case models r n of None \<Rightarrow> [] | Some vs \<Rightarrow> (case vs v of None \<Rightarrow> []
           | Some model \<Rightarrow> (case model_Close model (envs (n, v)) of None \<Rightarrow> [] | Some e \<Rightarrow> [(n, v, e)]))) order)
     in (if errs \<noteq> [] then Some (CloseErrors errs) else None, r\<lparr>models := Map.empty\<rparr>))"

section \<open>A/B tests\<close>

record ModelVariant =
  mv_Name :: string
  mv_ModelName :: string
  mv_ModelVersion :: string
  mv_Weight :: real
  mv_Enabled :: bool

record ABTestConfig =
  ac_Name :: string
  ac_Strategy :: string
  ac_Variants :: "ModelVariant list"
  ac_SplitKey :: string
  ac_DefaultVariant :: string
  ac_EnableShadowMode :: bool
  ac_CollectComparison :: bool

record ('n, 'e) variantInfo =
  vi_config :: ModelVariant
  vi_model :: "('n, 'e) Model"

record ('n, 'e) ABTestOperator =
  ab_config :: ABTestConfig
  ab_variants :: "string \<rightharpoonup> ('n, 'e) variantInfo"

datatype 'e abtest_error = NoVariants | BadWeights real | LoadFailed string "'e registry_error" | NoneEnabled

definition total_weight :: "ModelVariant list \<Rightarrow> real" where
  "total_weight vs = sum_list (map mv_Weight (filter mv_Enabled vs))"

text \<open>Loading the models: \<open>order name\<close> is the order of the versions when the latest one is looked up. A model that is not there
  is a nil interface in the source, which a non-empty registry never returns; it is not loaded here.\<close>

fun load_variants ::
  "(string \<Rightarrow> string list) \<Rightarrow> ('n, 'e) ModelRegistry \<Rightarrow> ModelVariant list \<Rightarrow> (string \<rightharpoonup> ('n, 'e) variantInfo)
    \<Rightarrow> 'e abtest_error + (string \<rightharpoonup> ('n, 'e) variantInfo)" where
  "load_variants order r [] variants = Inr variants"
| "load_variants order r (v # vs) variants =
    (if \<not> mv_Enabled v then load_variants order r vs variants
     else if mv_ModelVersion v \<noteq> []
     then (case model_Get (mv_ModelName v) (mv_ModelVersion v) r of
         Inl e \<Rightarrow> Inl (LoadFailed (mv_Name v) e)
       | Inr model \<Rightarrow> load_variants order r vs (variants(mv_Name v \<mapsto> \<lparr>vi_config = v, vi_model = model\<rparr>)))
     else (case GetLatest (order (mv_ModelName v)) (mv_ModelName v) r of
         Inl e \<Rightarrow> Inl (LoadFailed (mv_Name v) e)
       | Inr None \<Rightarrow> load_variants order r vs variants
       | Inr (Some model) \<Rightarrow> load_variants order r vs (variants(mv_Name v \<mapsto> \<lparr>vi_config = v, vi_model = model\<rparr>))))"

definition NewABTestOperator ::
  "(string \<Rightarrow> string list) \<Rightarrow> string list \<Rightarrow> ABTestConfig \<Rightarrow> ('n, 'e) ModelRegistry \<Rightarrow> 'e abtest_error + ('n, 'e) ABTestOperator" where
  "NewABTestOperator order names config r =
    (if ac_Variants config = [] then Inl NoVariants
     else if total_weight (ac_Variants config) < 999 / 10 \<or> total_weight (ac_Variants config) > 1001 / 10 then Inl (BadWeights (total_weight (ac_Variants config)))
     else (case load_variants order r (ac_Variants config) Map.empty of
         Inl e \<Rightarrow> Inl e
       | Inr variants \<Rightarrow>
           if variants = Map.empty then Inl NoneEnabled
           else Inr \<lparr>ab_config = (if ac_DefaultVariant config = [] then config\<lparr>ac_DefaultVariant := (case names of [] \<Rightarrow> [] | n # ns \<Rightarrow> n)\<rparr> else config),
                  ab_variants = variants\<rparr>))"

text \<open>\<open>hash/fnv\<close>: the 32-bit FNV-1a hash.\<close>

definition fnv32a :: "bytes \<Rightarrow> u32" where
  "fnv32a bs = fold (\<lambda>b h. (h XOR ucast b) * 16777619) bs 2166136261"

definition hashString :: "string \<Rightarrow> u32" where
  "hashString s = fnv32a (string_bytes s)"

fun hashed_loop :: "real \<Rightarrow> string \<Rightarrow> real \<Rightarrow> ModelVariant list \<Rightarrow> string" where
  "hashed_loop percentage dflt cumulative [] = dflt"
| "hashed_loop percentage dflt cumulative (v # vs) =
    (if \<not> mv_Enabled v then hashed_loop percentage dflt cumulative vs
     else if percentage \<le> cumulative + mv_Weight v then mv_Name v
     else hashed_loop percentage dflt (cumulative + mv_Weight v) vs)"

definition selectHashedVariant :: "ABTestConfig \<Rightarrow> string \<Rightarrow> string" where
  "selectHashedVariant config splitValue =
    (if splitValue = [] then ac_DefaultVariant config
     else hashed_loop (of_int (uint (hashString splitValue mod 100)) + 1) (ac_DefaultVariant config) 0 (ac_Variants config))"

text \<open>\<open>order\<close> is the order of the loop over the variants; the total weight the source computes first is not used.\<close>

fun random_loop :: "string \<Rightarrow> (string \<rightharpoonup> ('n, 'e) variantInfo) \<Rightarrow> real \<Rightarrow> string list \<Rightarrow> string" where
  "random_loop dflt variants target [] = dflt"
| "random_loop dflt variants target (n # ns) =
    (case variants n of
       None \<Rightarrow> random_loop dflt variants target ns
     | Some v \<Rightarrow> if target + mv_Weight (vi_config v) \<ge> 50 then n else random_loop dflt variants (target + mv_Weight (vi_config v)) ns)"

definition selectRandomVariant :: "string list \<Rightarrow> ('n, 'e) ABTestOperator \<Rightarrow> string" where
  "selectRandomVariant order opr = random_loop (ac_DefaultVariant (ab_config opr)) (ab_variants opr) 0 order"

definition extractSplitKey :: "(json \<Rightarrow> string) \<Rightarrow> ABTestConfig \<Rightarrow> json event \<Rightarrow> string" where
  "extractSplitKey fmtv config event =
    (if ac_SplitKey config = [] then Key event
     else (case Value event of
         JObj m \<Rightarrow> (case map_of m (ac_SplitKey config) of Some v \<Rightarrow> fmtv v | None \<Rightarrow> [])
       | _ \<Rightarrow> []))"

definition selectPercentageVariant :: "ABTestConfig \<Rightarrow> json event \<Rightarrow> string" where
  "selectPercentageVariant config event = selectHashedVariant config (Key event)"

definition selectVariant :: "(json \<Rightarrow> string) \<Rightarrow> string list \<Rightarrow> json event \<Rightarrow> ('n, 'e) ABTestOperator \<Rightarrow> string" where
  "selectVariant fmtv order event opr =
    (let strategy = ac_Strategy (ab_config opr) in
     if strategy = ''random'' then selectRandomVariant order opr
     else if strategy = ''hash'' \<or> strategy = ''user_id'' then selectHashedVariant (ab_config opr) (extractSplitKey fmtv (ab_config opr) event)
     else if strategy = ''percentage'' then selectPercentageVariant (ab_config opr) event
     else ac_DefaultVariant (ab_config opr))"

definition extractFeatures :: "json event \<Rightarrow> (string \<times> json) list" where
  "extractFeatures event = (case Value event of JObj m \<Rightarrow> m | _ \<Rightarrow> [])"

text \<open>The value as a map: nil becomes an empty map, another value is wrapped.\<close>

definition value_map :: "json \<Rightarrow> (string \<times> json) list" where
  "value_map v = (case v of JNull \<Rightarrow> [] | JObj m \<Rightarrow> m | _ \<Rightarrow> [(''original'', v)])"

definition millis :: "duration \<Rightarrow> json" where
  "millis d = JNum (of_int (sgn d * (\<bar>d\<bar> div 1000000)))"

definition add_prediction :: "string \<Rightarrow> PredictionResponse \<Rightarrow> json \<Rightarrow> (string \<times> json) list" where
  "add_prediction field resp v =
    AList.update ''prediction_latency_ms'' (millis (rp_Latency resp))
      (AList.update ''prediction_metadata'' (JObj (rp_Metadata resp)) (AList.update field (rp_Prediction resp) (value_map v)))"

definition comparePredictions :: "(json \<Rightarrow> string) \<Rightarrow> json \<Rightarrow> json \<Rightarrow> bool" where
  "comparePredictions fmtv p q \<longleftrightarrow> fmtv p = fmtv q"

text \<open>Shadow predictions: what is counted for every other variant.\<close>

datatype shadow = ShadowError string | ShadowRun string "bool option"

definition runShadowMode ::
  "(json \<Rightarrow> string) \<Rightarrow> (string \<Rightarrow> 'n) \<Rightarrow> string list \<Rightarrow> (string \<times> json) list \<Rightarrow> string \<Rightarrow> PredictionResponse \<Rightarrow> ('n, 'e) ABTestOperator \<Rightarrow> shadow list" where
  "runShadowMode fmtv envs order features primary resp opr =
    concat (map (\<lambda>name. case ab_variants opr name of None \<Rightarrow> []
      | Some v \<Rightarrow> if name = primary then []
          else (case Predict (vi_model v) (envs name) features of
              Inl e \<Rightarrow> [ShadowError name]
            | Inr r \<Rightarrow> [ShadowRun name (if ac_CollectComparison (ab_config opr) then Some (comparePredictions fmtv (rp_Prediction resp) (rp_Prediction r)) else None)])) order)"

datatype 'e ab_result = Panic | PredictionFailed string 'e | Done "json event" "shadow list"

definition ab_Process ::
  "(json \<Rightarrow> string) \<Rightarrow> (string \<Rightarrow> 'n) \<Rightarrow> string list \<Rightarrow> string list \<Rightarrow> json event \<Rightarrow> ('n, 'e) ABTestOperator \<Rightarrow> 'e ab_result" where
  "ab_Process fmtv envs order order' event opr =
    (let first = selectVariant fmtv order event opr;
         selected = (if ab_variants opr first = None then ac_DefaultVariant (ab_config opr) else first)
     in case ab_variants opr selected of
          None \<Rightarrow> Panic
        | Some info \<Rightarrow>
            (let features = extractFeatures event
             in case Predict (vi_model info) (envs selected) features of
                  Inl e \<Rightarrow> PredictionFailed selected e
                | Inr resp \<Rightarrow>
                    (let shadows = (if ac_EnableShadowMode (ab_config opr) then runShadowMode fmtv envs order' features selected resp opr else []);
                         m = AList.update ''ab_experiment'' (JStr (ac_Name (ab_config opr)))
                               (AList.update ''ab_variant'' (JStr selected) (add_prediction ''prediction'' resp (Value event)))
                     in Done (event\<lparr>Value := JObj m\<rparr>) shadows)))"

fun update_variants :: "string \<Rightarrow> bool \<Rightarrow> real \<Rightarrow> ModelVariant list \<Rightarrow> ModelVariant list option" where
  "update_variants name enabled weight [] = None"
| "update_variants name enabled weight (v # vs) =
    (if mv_Name v = name then Some (v\<lparr>mv_Enabled := enabled, mv_Weight := weight\<rparr> # vs)
     else map_option (\<lambda>vs'. v # vs') (update_variants name enabled weight vs))"

definition UpdateVariant :: "string \<Rightarrow> bool \<Rightarrow> real \<Rightarrow> ('n, 'e) ABTestOperator \<Rightarrow> bool \<times> ('n, 'e) ABTestOperator" where
  "UpdateVariant name enabled weight opr =
    (case update_variants name enabled weight (ac_Variants (ab_config opr)) of
       None \<Rightarrow> (False, opr)
     | Some vs \<Rightarrow> (True, opr\<lparr>ab_config := (ab_config opr)\<lparr>ac_Variants := vs\<rparr>\<rparr>))"

section \<open>The registry as a flat map\<close>

type_synonym ('n, 'e) flat_models = "string \<times> string \<rightharpoonup> ('n, 'e) Model"

definition flat :: "('n, 'e) ModelRegistry \<Rightarrow> ('n, 'e) flat_models" where
  "flat r = (\<lambda>(n, v). case models r n of None \<Rightarrow> None | Some vs \<Rightarrow> vs v)"

text \<open>No name is kept without versions, and every model is found under its own name and version.\<close>

definition registry_wf :: "('n, 'e) ModelRegistry \<Rightarrow> bool" where
  "registry_wf r \<longleftrightarrow> (\<forall>n vs. models r n = Some vs \<longrightarrow> vs \<noteq> Map.empty \<and> n \<noteq> [] \<and>
    (\<forall>v m. vs v = Some m \<longrightarrow> v \<noteq> [] \<and> mm_Name (GetMetadata m) = n \<and> mm_Version (GetMetadata m) = v))"

datatype ('n, 'e) registry_op = OpRegister "('n, 'e) Model" | OpUnregister 'n string string
  | OpClose "string \<times> string \<Rightarrow> 'n" "(string \<times> string) list"

fun registry_step :: "('n, 'e) registry_op \<Rightarrow> ('n, 'e) ModelRegistry \<Rightarrow> ('n, 'e) ModelRegistry" where
  "registry_step (OpRegister m) r = snd (Register m r)"
| "registry_step (OpUnregister env n v) r = snd (Unregister env n v r)"
| "registry_step (OpClose envs order) r = snd (registry_Close envs order r)"

fun flat_step :: "('n, 'e) registry_op \<Rightarrow> ('n, 'e) flat_models \<Rightarrow> ('n, 'e) flat_models" where
  "flat_step (OpRegister m) F =
    (let k = (mm_Name (GetMetadata m), mm_Version (GetMetadata m))
     in if fst k \<noteq> [] \<and> snd k \<noteq> [] \<and> F k = None then F(k \<mapsto> m) else F)"
| "flat_step (OpUnregister env n v) F =
    (case F (n, v) of None \<Rightarrow> F | Some m \<Rightarrow> if model_Close m env = None then F((n, v) := None) else F)"
| "flat_step (OpClose envs order) F = Map.empty"

lemma flat_apply: "flat r (n, v) = (case models r n of None \<Rightarrow> None | Some vs \<Rightarrow> vs v)"
  by (simp add: flat_def)

lemma Register_refines:
  fixes r :: "('n, 'e) ModelRegistry"
  assumes wf: "registry_wf r"
  shows "flat (snd (Register m r)) = flat_step (OpRegister m) (flat r) \<and> registry_wf (snd (Register m r))"
proof -
  define n v where "n = mm_Name (GetMetadata m)" and "v = mm_Version (GetMetadata m)"
  have wf_upd: "registry_wf (r\<lparr>models := (models r)(n \<mapsto> vs(v \<mapsto> m))\<rparr>)"
    if "n \<noteq> []" "v \<noteq> []" "\<forall>v m. vs v = Some m \<longrightarrow> v \<noteq> [] \<and> mm_Name (GetMetadata m) = n \<and> mm_Version (GetMetadata m) = v" for vs
    using wf that by (auto simp: registry_wf_def n_def v_def)
  consider "n = [] \<or> v = []" | vs where "n \<noteq> []" "v \<noteq> []" "models r n = Some vs" "vs v \<noteq> None"
    | vs where "n \<noteq> []" "v \<noteq> []" "models r n = Some vs" "vs v = None" | "n \<noteq> []" "v \<noteq> []" "models r n = None" by fastforce
  then show ?thesis
  proof cases
    case 1
    then show ?thesis using wf by (auto simp: Register_def Let_def n_def v_def)
  next
    case 2
    then have "models r n \<noteq> None" by simp
    then have "snd (Register m r) = r" using 2 by (auto simp: Register_def Let_def n_def [symmetric] v_def [symmetric])
    then show ?thesis using 2 wf by (auto simp: Let_def n_def [symmetric] v_def [symmetric] flat_apply)
  next
    case 3
    then have reg: "snd (Register m r) = r\<lparr>models := (models r)(n \<mapsto> vs(v \<mapsto> m))\<rparr>"
      by (simp add: Register_def Let_def n_def [symmetric] v_def [symmetric])
    have "\<forall>v m. vs v = Some m \<longrightarrow> v \<noteq> [] \<and> mm_Name (GetMetadata m) = n \<and> mm_Version (GetMetadata m) = v"
      using wf 3(3) by (simp add: registry_wf_def)
    then have "registry_wf (snd (Register m r))" unfolding reg by (rule wf_upd [OF 3(1,2)])
    moreover have "flat (snd (Register m r)) = (flat r)((n, v) \<mapsto> m)" using 3(3) by (auto simp: reg flat_def intro!: ext)
    ultimately show ?thesis using 3 by (simp add: Let_def n_def [symmetric] v_def [symmetric] flat_apply)
  next
    case 4
    then have reg: "snd (Register m r) = r\<lparr>models := (models r)(n \<mapsto> [v \<mapsto> m])\<rparr>"
      by (simp add: Register_def Let_def n_def [symmetric] v_def [symmetric])
    have "registry_wf (snd (Register m r))" unfolding reg by (rule wf_upd [OF 4(1,2)]) simp
    moreover have "flat (snd (Register m r)) = (flat r)((n, v) \<mapsto> m)" using 4(3) by (auto simp: reg flat_def intro!: ext)
    ultimately show ?thesis using 4 by (simp add: Let_def n_def [symmetric] v_def [symmetric] flat_apply)
  qed
qed

lemma Unregister_refines:
  fixes r :: "('n, 'e) ModelRegistry"
  assumes wf: "registry_wf r"
  shows "flat (snd (Unregister env n v r)) = flat_step (OpUnregister env n v) (flat r) \<and> registry_wf (snd (Unregister env n v r))"
proof -
  have "flat r (n, v) = None \<or> (\<exists>vs m. models r n = Some vs \<and> vs v = Some m)" by (auto simp: flat_apply split: option.splits)
  then consider "flat r (n, v) = None" | vs m where "models r n = Some vs" "vs v = Some m" by auto
  then show ?thesis
  proof cases
    case 1
    then have "snd (Unregister env n v r) = r" by (auto simp: Unregister_def flat_apply split: option.splits)
    then show ?thesis using 1 wf by simp
  next
    case 2
    show ?thesis
    proof (cases "model_Close m env")
      case None
      then have "snd (Unregister env n v r) = r\<lparr>models := (if vs(v := None) = Map.empty then (models r)(n := None) else (models r)(n \<mapsto> vs(v := None)))\<rparr>"
        using 2 by (simp add: Unregister_def Let_def)
      moreover have "vs b = None" if "vs(v := None) = Map.empty" "b \<noteq> v" for b using fun_cong [OF that(1), of b] that(2) by simp
      ultimately show ?thesis using 2 None wf
        by (auto simp: flat_def registry_wf_def split: option.splits if_splits intro!: ext dest: fun_cong)
    next
      case (Some e)
      then have "snd (Unregister env n v r) = r" using 2 by (simp add: Unregister_def)
      then show ?thesis using 2 Some wf by (simp add: flat_apply)
    qed
  qed
qed

lemma registry_step_refines:
  "registry_wf r \<Longrightarrow> flat (registry_step oper r) = flat_step oper (flat r) \<and> registry_wf (registry_step oper r)"
proof (cases oper)
  case (OpRegister m)
  moreover assume "registry_wf r"
  ultimately show ?thesis by (simp only: registry_step.simps Register_refines)
next
  case (OpUnregister env n v)
  moreover assume "registry_wf r"
  ultimately show ?thesis by (simp only: registry_step.simps Unregister_refines)
qed (simp add: registry_Close_def flat_def registry_wf_def fun_eq_iff)

text \<open>The loop over the versions finds the greatest one, whatever the order.\<close>

lemma latest_loop_max:
  assumes "\<forall>v \<in> set order. v \<noteq> []" "l = [] \<and> m = None \<or> l \<noteq> [] \<and> m = versions l"
  shows "latest_loop versions order (l, m) =
    (if order = [] then (l, m) else (let x = Max (if l = [] then set order else insert l (set order)) in (x, versions x)))"
  using assms
proof (induction order arbitrary: l m)
  case (Cons v vs)
  let ?l = "if l = [] \<or> v > l then v else l"
  have l: "?l \<noteq> []" using Cons.prems by auto
  have step: "latest_loop versions (v # vs) (l, m) = latest_loop versions vs (?l, versions ?l)" using Cons.prems by auto
  have max: "Max (if l = [] then set (v # vs) else insert l (set (v # vs))) = Max (insert ?l (set vs))"
  proof (cases "l = []")
    case False
    then have "Max (insert l (insert v (set vs))) = Max (insert ?l (set vs))"
      by (cases "set vs = {}") (auto simp: max_def not_less)
    then show ?thesis using False by simp
  qed simp
  show ?case using Cons.IH [of ?l "versions ?l"] Cons.prems l unfolding step
    by (cases "vs = []") (simp_all add: max [simplified] Let_def)
qed simp

lemma registry_run_refines:
  "registry_wf r \<Longrightarrow> flat (fold registry_step ops r) = fold flat_step ops (flat r) \<and> registry_wf (fold registry_step ops r)"
  by (induction ops arbitrary: r) (simp_all add: registry_step_refines)

lemma registry_new: "registry_wf NewModelRegistry" "flat NewModelRegistry = Map.empty"
  by (simp_all add: registry_wf_def NewModelRegistry_def flat_def fun_eq_iff)

text \<open>C15: The registry, a map from names to maps from versions to models, refines a flat map: after any sequence of
  registrations, removals (which may fail when a model does not close) and closings of the registry a lookup finds a model
  exactly when it is in the flat map, and no name is left behind without versions.\<close>

theorem model_registry_refines_flat_map:
  "(model_Get n v (fold registry_step ops NewModelRegistry) = Inr m \<longleftrightarrow> fold flat_step ops Map.empty (n, v) = Some m) \<and>
   (models (fold registry_step ops NewModelRegistry) n \<noteq> None \<longleftrightarrow> (\<exists>v m. fold flat_step ops Map.empty (n, v) = Some m))"
proof -
  let ?r = "fold registry_step ops NewModelRegistry"
  have flat: "flat ?r = fold flat_step ops Map.empty" and wf: "registry_wf ?r"
    using registry_run_refines [OF registry_new(1), of ops] by (simp_all add: registry_new(2))
  have get: "model_Get n v r = Inr m \<longleftrightarrow> flat r (n, v) = Some m" for r v m
    by (auto simp: model_Get_def flat_apply split: option.splits)
  have "models ?r n \<noteq> None \<longleftrightarrow> (\<exists>v m. flat ?r (n, v) = Some m)"
  proof (cases "models ?r n")
    case (Some vs)
    then have "vs \<noteq> Map.empty" using wf by (simp add: registry_wf_def)
    then show ?thesis using Some by (auto simp: flat_apply fun_eq_iff)
  qed (simp add: flat_apply)
  then show ?thesis by (simp add: get flat)
qed

text \<open>The latest model is the one with the greatest version as a string, whatever the order of the map.\<close>

theorem latest_is_greatest:
  assumes "registry_wf r" "models r n = Some vs" "range_order order vs"
  shows "GetLatest order n r = Inr (vs (Max (dom vs))) \<and> vs (Max (dom vs)) \<noteq> None"
proof -
  have ne: "\<forall>v \<in> set order. v \<noteq> []" and "vs \<noteq> Map.empty" using assms by (auto simp: registry_wf_def range_order_def)
  then have "order \<noteq> []" and dom: "set order = dom vs" using assms(3) by (auto simp: range_order_def fun_eq_iff)
  then have "Max (dom vs) \<in> dom vs" by (metis List.finite_set Max_in set_empty)
  then show ?thesis using latest_loop_max [OF ne, of "[]" None vs] \<open>order \<noteq> []\<close> assms(2) dom by (auto simp: GetLatest_def Let_def)
qed

lemma latest_is_not_newest: "''v9'' > ''v10''"
  by (simp add: less_char_def)

section \<open>Shares of the variants\<close>

lemma hashed_loop_mem:
  "\<forall>v \<in> set vs. mv_Weight v = real (w v) \<Longrightarrow> c < p \<Longrightarrow> p \<le> c + sum_list (map w (filter mv_Enabled vs)) \<Longrightarrow>
   hashed_loop (real p) d (real c) vs \<in> mv_Name ` set (filter mv_Enabled vs)"
proof (induction vs arbitrary: c)
  case (Cons u us)
  show ?case
  proof (cases "mv_Enabled u \<and> \<not> p \<le> c + w u")
    case True
    then have "hashed_loop (real p) d (real (c + w u)) us \<in> mv_Name ` set (filter mv_Enabled us)" using Cons.prems by (intro Cons.IH) auto
    then show ?thesis using True Cons.prems by (auto simp flip: of_nat_add)
  qed (use Cons in \<open>auto simp flip: of_nat_add\<close>)
qed simp

text \<open>With the cumulative weight \<open>c\<close> so far, the percentages that select a variant are as many as its weight.\<close>

lemma hashed_share:
  assumes "\<forall>v \<in> set vs. mv_Weight v = real (w v)" "distinct (map mv_Name (filter mv_Enabled vs))" "v \<in> set vs" "mv_Enabled v"
    and "n = c + sum_list (map w (filter mv_Enabled vs))"
  shows "card {p. c < p \<and> p \<le> n \<and> hashed_loop (real p) d (real c) vs = mv_Name v} = w v"
  using assms
proof (induction vs arbitrary: c)
  case (Cons u us)
  show ?case
  proof (cases "mv_Enabled u")
    case True
    have loop: "hashed_loop (real p) d (real c) (u # us) = (if p \<le> c + w u then mv_Name u else hashed_loop (real p) d (real (c + w u)) us)" for p
      using True Cons.prems(1) by (simp flip: of_nat_add)
    let ?rest = "{p. c + w u < p \<and> p \<le> n \<and> hashed_loop (real p) d (real (c + w u)) us = mv_Name v}"
    have split: "{p. c < p \<and> p \<le> n \<and> hashed_loop (real p) d (real c) (u # us) = mv_Name v} =
        (if mv_Name u = mv_Name v then {c<..c + w u} else {}) \<union> ?rest"
      using Cons.prems True by (auto simp: loop)
    show ?thesis
    proof (cases "u = v")
      case same: True
      have "hashed_loop (real p) d (real (c + w u)) us \<in> mv_Name ` set (filter mv_Enabled us)" if "c + w u < p" "p \<le> n" for p
        using Cons.prems True that by (intro hashed_loop_mem) auto
      then have rest: "?rest = {}" using Cons.prems(2) True same by fastforce
      show ?thesis unfolding split rest using same by simp
    next
      case False
      then have "mv_Name u \<noteq> mv_Name v" using Cons.prems True by auto
      moreover have "card ?rest = w v" using Cons.prems True False by (intro Cons.IH) auto
      ultimately show ?thesis unfolding split by simp
    qed
  qed (use Cons in auto)
qed simp

lemma selectHashedVariant_eq:
  "s \<noteq> [] \<Longrightarrow> selectHashedVariant config s =
    hashed_loop (real (Suc (unat (hashString s mod 100)))) (ac_DefaultVariant config) 0 (ac_Variants config)"
  by (simp add: selectHashedVariant_def add.commute flip: uint_nat)

lemma hashed_loop_beyond:
  "\<forall>v \<in> set vs. mv_Weight v = real (w v) \<Longrightarrow> c + sum_list (map w (filter mv_Enabled vs)) < p \<Longrightarrow> hashed_loop (real p) d (real c) vs = d"
proof (induction vs arbitrary: c)
  case (Cons u us)
  show ?case
  proof (cases "mv_Enabled u")
    case True
    have "\<not> real p \<le> real c + mv_Weight u" using Cons.prems True by (simp flip: of_nat_add)
    moreover have "hashed_loop (real p) d (real (c + w u)) us = d" using Cons.prems True by (intro Cons.IH) auto
    ultimately show ?thesis using Cons.prems(1) True by simp
  qed (use Cons in auto)
qed simp

text \<open>The percentages up to 100 that select a name, when the weights do not exceed 100.\<close>

lemma percentages_up_to_100:
  assumes "\<forall>v \<in> set vs. mv_Weight v = real (w v)" "n = sum_list (map w (filter mv_Enabled vs))" "n \<le> 100"
  shows "card {p. 0 < p \<and> p \<le> 100 \<and> hashed_loop (real p) d 0 vs = x} =
    card {p. 0 < p \<and> p \<le> n \<and> hashed_loop (real p) d (real 0) vs = x} + (if x = d then 100 - n else 0)"
proof -
  have beyond: "hashed_loop (real p) d 0 vs = d" if "n < p" for p using hashed_loop_beyond [OF assms(1), of 0 p] assms(2) that by simp
  have "{p. 0 < p \<and> p \<le> 100 \<and> hashed_loop (real p) d 0 vs = x} =
      {p. 0 < p \<and> p \<le> n \<and> hashed_loop (real p) d (real 0) vs = x} \<union> (if x = d then {n<..100} else {})"
  proof (rule set_eqI)
    fix p
    show "p \<in> {p. 0 < p \<and> p \<le> 100 \<and> hashed_loop (real p) d 0 vs = x} \<longleftrightarrow>
        p \<in> {p. 0 < p \<and> p \<le> n \<and> hashed_loop (real p) d (real 0) vs = x} \<union> (if x = d then {n<..100} else {})"
    proof (cases "p \<le> n")
      case False
      then show ?thesis using beyond [of p] by auto
    qed (use assms(3) in auto)
  qed
  moreover have "finite {p. 0 < p \<and> p \<le> n \<and> hashed_loop (real p) d (real 0) vs = x}" by simp
  moreover have "finite (if x = d then {n<..100} else {})"
    "{p. 0 < p \<and> p \<le> n \<and> hashed_loop (real p) d (real 0) vs = x} \<inter> (if x = d then {n<..100} else {}) = {}" by auto
  ultimately have "card {p. 0 < p \<and> p \<le> 100 \<and> hashed_loop (real p) d 0 vs = x} =
      card {p. 0 < p \<and> p \<le> n \<and> hashed_loop (real p) d (real 0) vs = x} + card (if x = d then {n<..100} else {})"
    by (simp only: card_Un_disjoint)
  then show ?thesis by simp
qed

text \<open>C16: The hash strategy splits the hash values exactly by weight. Let the weights of the variants be whole numbers, the names of
  the enabled ones differ and their weights sum up to at most 100 (a new operator has a sum of 100, later changes of weights are
  not checked). Then the variant for a key that is not empty depends on the hash of the key modulo 100 alone. Each enabled
  variant has as many of the hundred residues as its weight says; the rest goes to the default variant, in
  addition to its own when it is enabled. An empty key goes to the default variant.\<close>

theorem hashed_shares_exact:
  assumes "\<forall>v \<in> set (ac_Variants config). mv_Weight v = real (w v)" "distinct (map mv_Name (filter mv_Enabled (ac_Variants config)))"
    and "n = sum_list (map w (filter mv_Enabled (ac_Variants config)))" "n \<le> 100"
  shows "\<exists>pick. (\<forall>s. selectHashedVariant config s = (if s = [] then ac_DefaultVariant config else pick (unat (hashString s mod 100)))) \<and>
    (\<forall>v \<in> set (ac_Variants config). mv_Enabled v \<longrightarrow>
       card {h. h < 100 \<and> pick h = mv_Name v} = w v + (if mv_Name v = ac_DefaultVariant config then 100 - n else 0)) \<and>
    (ac_DefaultVariant config \<notin> mv_Name ` {v \<in> set (ac_Variants config). mv_Enabled v} \<longrightarrow>
       card {h. h < 100 \<and> pick h = ac_DefaultVariant config} = 100 - n)"
proof (intro exI conjI allI impI ballI)
  let ?d = "ac_DefaultVariant config" and ?vs = "ac_Variants config"
  let ?pick = "\<lambda>h. hashed_loop (real (Suc h)) ?d 0 ?vs"
  show "selectHashedVariant config s = (if s = [] then ?d else ?pick (unat (hashString s mod 100)))" for s
    using selectHashedVariant_eq by (auto simp: selectHashedVariant_def)
  have shift: "card {h. h < 100 \<and> ?pick h = x} =
      card {p. 0 < p \<and> p \<le> n \<and> hashed_loop (real p) ?d (real 0) ?vs = x} + (if x = ?d then 100 - n else 0)" for x
  proof -
    have "{p. 0 < p \<and> p \<le> 100 \<and> hashed_loop (real p) ?d 0 ?vs = x} = Suc ` {h. h < 100 \<and> ?pick h = x}"
      by (auto simp: image_iff gr0_conv_Suc Suc_le_eq)
    then show ?thesis using percentages_up_to_100 [OF assms(1,3,4), of ?d x] by (simp add: card_image)
  qed
  show "card {h. h < 100 \<and> ?pick h = mv_Name v} = w v + (if mv_Name v = ?d then 100 - n else 0)" if "v \<in> set ?vs" "mv_Enabled v" for v
    unfolding shift using hashed_share [OF assms(1,2) that, of n 0 ?d] assms(3) by simp
  assume other: "?d \<notin> mv_Name ` {v \<in> set ?vs. mv_Enabled v}"
  have "hashed_loop (real p) ?d (real 0) ?vs \<in> mv_Name ` set (filter mv_Enabled ?vs)" if "0 < p" "p \<le> n" for p
    using hashed_loop_mem [OF assms(1), of 0 p ?d] assms(3) that by simp
  moreover have "?d \<notin> mv_Name ` set (filter mv_Enabled ?vs)" using other by simp
  ultimately have "\<not> (0 < p \<and> p \<le> n \<and> hashed_loop (real p) ?d (real 0) ?vs = ?d)" for p by metis
  then have "{p. 0 < p \<and> p \<le> n \<and> hashed_loop (real p) ?d (real 0) ?vs = ?d} = {}" by blast
  then show "card {h. h < 100 \<and> ?pick h = ?d} = 100 - n" unfolding shift by simp
qed

definition example_split :: ABTestConfig where
  "example_split = \<lparr>ac_Name = ''t'', ac_Strategy = ''hash'', ac_Variants =
      [\<lparr>mv_Name = ''A'', mv_ModelName = ''m'', mv_ModelVersion = ''1'', mv_Weight = 70, mv_Enabled = True\<rparr>,
       \<lparr>mv_Name = ''B'', mv_ModelName = ''m'', mv_ModelVersion = ''2'', mv_Weight = 25, mv_Enabled = True\<rparr>],
     ac_SplitKey = [], ac_DefaultVariant = ''A'', ac_EnableShadowMode = False, ac_CollectComparison = False\<rparr>"

lemma hashed_shares_exact_witness:
  "\<exists>pick. selectHashedVariant example_split ''u1'' = pick (unat (hashString ''u1'' mod 100)) \<and>
     card {h. h < 100 \<and> pick h = ''A''} = 75 \<and> card {h. h < 100 \<and> pick h = ''B''} = 25"
proof -
  have "\<exists>pick. (\<forall>s. selectHashedVariant example_split s = (if s = [] then ac_DefaultVariant example_split else pick (unat (hashString s mod 100)))) \<and>
    (\<forall>v \<in> set (ac_Variants example_split). mv_Enabled v \<longrightarrow>
       card {h. h < 100 \<and> pick h = mv_Name v} = (if mv_Name v = ''A'' then 70 else 25) + (if mv_Name v = ac_DefaultVariant example_split then 100 - 95 else 0)) \<and>
    (ac_DefaultVariant example_split \<notin> mv_Name ` {v \<in> set (ac_Variants example_split). mv_Enabled v} \<longrightarrow>
       card {h. h < 100 \<and> pick h = ac_DefaultVariant example_split} = 100 - 95)"
    by (rule hashed_shares_exact) (auto simp: example_split_def)
  then obtain pick where pick: "\<forall>s. selectHashedVariant example_split s = (if s = [] then ac_DefaultVariant example_split else pick (unat (hashString s mod 100)))"
    "\<forall>v \<in> set (ac_Variants example_split). mv_Enabled v \<longrightarrow>
       card {h. h < 100 \<and> pick h = mv_Name v} = (if mv_Name v = ''A'' then 70 else 25) + (if mv_Name v = ac_DefaultVariant example_split then 100 - 95 else 0)"
    by (elim exE conjE) (rule that)
  have "selectHashedVariant example_split ''u1'' = pick (unat (hashString ''u1'' mod 100))" using pick(1) [rule_format, of "''u1''"] by simp
  moreover have "card {h. h < 100 \<and> pick h = ''A''} = 75" "card {h. h < 100 \<and> pick h = ''B''} = 25"
    using pick(2) by (simp_all add: example_split_def)
  ultimately show ?thesis by blast
qed

section \<open>Serving\<close>

text \<open>The random strategy is not random: of two variants, one of weight at least 50, that one is always served.\<close>

lemma random_never_minority:
  assumes "ab_variants opr = [a \<mapsto> va, b \<mapsto> vb]" "a \<noteq> b" "50 \<le> mv_Weight (vi_config va)" "0 \<le> mv_Weight (vi_config vb)" "mv_Weight (vi_config vb) < 50"
    and "range_order order (ab_variants opr)"
  shows "selectRandomVariant order opr = a"
proof -
  have "set order = {a, b}" "distinct order" using assms by (auto simp: range_order_def)
  then have "length order = 2" using assms(2) by (metis card_2_iff distinct_card)
  then obtain x y where "order = [x, y]" by (metis length_0_conv length_Suc_conv numeral_2_eq_2)
  then have "order = [a, b] \<or> order = [b, a]" using \<open>set order = {a, b}\<close> assms(2) by (auto simp: doubleton_eq_iff)
  then show ?thesis using assms by (auto simp: selectRandomVariant_def)
qed

text \<open>Changing a variant does not load its model: a variant enabled later is not served, and its share goes to the default.\<close>

lemma enabled_later_not_loaded: "ab_variants (snd (UpdateVariant name enabled weight opr)) = ab_variants opr"
  by (simp add: UpdateVariant_def split: option.splits)

lemma unknown_default_panics:
  assumes "ab_variants opr (ac_DefaultVariant (ab_config opr)) = None" "ab_variants opr (selectVariant fmtv order event opr) = None"
  shows "ab_Process fmtv envs order order' event opr = Panic"
  using assms by (simp add: ab_Process_def Let_def)

text \<open>An operator made without a default variant takes a loaded one and never panics, whatever the strategy and the later
  changes of weights.\<close>

theorem ab_Process_no_panic:
  assumes "NewABTestOperator vorder names config r = Inr opr" "ac_DefaultVariant config = []" "range_order names (ab_variants opr)"
  shows "ab_Process fmtv envs order order' event (snd (UpdateVariant name enabled weight opr)) \<noteq> Panic"
proof -
  obtain n ns where names: "names = n # ns" and "ac_DefaultVariant (ab_config opr) = n"
    using assms by (cases names) (auto simp: NewABTestOperator_def split: if_splits sum.splits)
  then have "ab_variants opr (ac_DefaultVariant (ab_config opr)) \<noteq> None" using assms(3) by (auto simp: range_order_def)
  moreover have "ac_DefaultVariant (ab_config (snd (UpdateVariant name enabled weight opr))) = ac_DefaultVariant (ab_config opr)"
    by (simp add: UpdateVariant_def split: option.splits)
  ultimately show ?thesis by (auto simp: ab_Process_def Let_def enabled_later_not_loaded split: option.splits sum.splits)
qed

end
