(* ===== verification/ML_Inference.thy ===== *)
theory ML_Inference
  imports ML_Models "HOL-Library.Multiset"
begin

text \<open>
  Batched inference, \<open>pkg/ml/inference.go\<close>. Callers of \<open>Process\<close> add an item to the batch and wait for its reply; batches are
  flushed when they are full, by timers and on closing, and every flush starts a goroutine that waits for a slot of the
  semaphore, asks the model and replies to the items. The operator is a step relation over the items, named by numbers in
  the order of their submission; what is sent on the reply channels is kept as a list. Metrics are left out.
\<close>

section \<open>Configuration and state\<close>

record InferenceConfig =
  ic_ModelName :: string
  ic_ModelVersion :: string
  ic_BatchSize :: int
  ic_BatchTimeout :: duration
  ic_MaxConcurrency :: int
  ic_FeatureFields :: "string list"
  ic_OutputField :: string

record batchItem =
  bi_event :: "json event"
  bi_features :: "(string \<times> json) list"

datatype 'e reply = Result PredictionResponse | BatchFailed 'e | NoResponse nat

text \<open>A batch is the list of the numbers of its items. \<open>waiting\<close> holds the batches whose goroutine waits for the semaphore,
  \<open>running\<close> those that hold it.\<close>

record ('n, 'e) InferenceOperator =
  io_config :: InferenceConfig
  io_model :: "('n, 'e) Model"
  io_items :: "batchItem list"
  io_batch :: "nat list"
  io_batchTimer :: bool
  io_waiting :: "nat list list"
  io_running :: "nat list list"
  io_sent :: "(nat \<times> 'e reply) list"

definition inference_defaults :: "InferenceConfig \<Rightarrow> InferenceConfig" where
  "inference_defaults config = config\<lparr>ic_BatchSize := (if ic_BatchSize config \<le> 0 then 1 else ic_BatchSize config),
     ic_BatchTimeout := (if ic_BatchTimeout config \<le> 0 then 10 * 1000000 else ic_BatchTimeout config),
     ic_MaxConcurrency := (if ic_MaxConcurrency config \<le> 0 then 10 else ic_MaxConcurrency config),
     ic_OutputField := (if ic_OutputField config = [] then ''prediction'' else ic_OutputField config)\<rparr>"

text \<open>The model a configuration names; \<open>Inr None\<close> is the nil model, which a well-formed registry does not give.\<close>

definition find_model :: "string list \<Rightarrow> string \<Rightarrow> string \<Rightarrow> ('n, 'e) ModelRegistry \<Rightarrow> 'e registry_error + ('n, 'e) Model option" where
  "find_model order name version r = (if version \<noteq> [] then map_sum id Some (model_Get name version r) else GetLatest order name r)"

definition new_inference :: "InferenceConfig \<Rightarrow> ('n, 'e) Model \<Rightarrow> ('n, 'e) InferenceOperator" where
  "new_inference config model = \<lparr>io_config = inference_defaults config, io_model = model, io_items = [], io_batch = [], io_batchTimer = False,
     io_waiting = [], io_running = [], io_sent = []\<rparr>"

definition NewInferenceOperator ::
  "string list \<Rightarrow> InferenceConfig \<Rightarrow> ('n, 'e) ModelRegistry \<Rightarrow> 'e registry_error + ('n, 'e) InferenceOperator option" where
  "NewInferenceOperator order config r =
    map_sum id (map_option (new_inference config)) (find_model order (ic_ModelName config) (ic_ModelVersion config) r)"

section \<open>Operations\<close>

text \<open>The features of an event: the given fields that are present, or the whole value.\<close>

definition select_features :: "string list \<Rightarrow> json event \<Rightarrow> (string \<times> json) list" where
  "select_features fs event =
    (case Value event of
       JObj m \<Rightarrow> (if fs \<noteq> []
          then fold (\<lambda>f features. case map_of m f of Some v \<Rightarrow> AList.update f v features | None \<Rightarrow> features) fs []
          else m)
     | _ \<Rightarrow> [])"

definition flushBatchLocked :: "('n, 'e) InferenceOperator \<Rightarrow> ('n, 'e) InferenceOperator" where
  "flushBatchLocked s =
    (if io_batch s = [] then s
     else s\<lparr>io_batch := [], io_batchTimer := False, io_waiting := io_waiting s @ [io_batch s]\<rparr>)"

text \<open>The part of \<open>Process\<close> under the lock.\<close>

definition submit :: "json event \<Rightarrow> ('n, 'e) InferenceOperator \<Rightarrow> ('n, 'e) InferenceOperator" where
  "submit event s =
    (let item = \<lparr>bi_event = event, bi_features = select_features (ic_FeatureFields (io_config s)) event\<rparr>;
         s1 = s\<lparr>io_batch := io_batch s @ [length (io_items s)], io_items := io_items s @ [item]\<rparr>
     in if int (length (io_batch s1)) \<ge> ic_BatchSize (io_config s1) then flushBatchLocked (s1\<lparr>io_batchTimer := False\<rparr>)
        else if \<not> io_batchTimer s1 then s1\<lparr>io_batchTimer := True\<rparr> else s1)"

text \<open>The rest of \<open>Process\<close>, when the reply arrives before the context ends.\<close>

definition receive :: "InferenceConfig \<Rightarrow> json event \<Rightarrow> 'e reply \<Rightarrow> 'e reply + json event" where
  "receive config event reply =
    (case reply of Result resp \<Rightarrow> Inr (event\<lparr>Value := JObj (add_prediction (ic_OutputField config) resp (Value event))\<rparr>) | e \<Rightarrow> Inl e)"

definition mk_request :: "('n, 'e) InferenceOperator \<Rightarrow> nat \<Rightarrow> PredictionRequest" where
  "mk_request s i = \<lparr>rq_Features = bi_features (io_items s ! i), rq_Timestamp = EventTime (bi_event (io_items s ! i)), rq_RequestID = []\<rparr>"

definition batch_replies :: "nat list \<Rightarrow> 'e + PredictionResponse list \<Rightarrow> (nat \<times> 'e reply) list" where
  "batch_replies batch outcome =
    (case outcome of
       Inl e \<Rightarrow> map (\<lambda>i. (i, BatchFailed e)) batch
     | Inr responses \<Rightarrow> map (\<lambda>(j, i). (i, if j < length responses then Result (responses ! j) else NoResponse j)) (enumerate 0 batch))"

text \<open>\<open>processBatch\<close>: the wait for the semaphore, and the work.\<close>

definition acquire :: "nat \<Rightarrow> ('n, 'e) InferenceOperator \<Rightarrow> ('n, 'e) InferenceOperator" where
  "acquire k s = s\<lparr>io_running := io_running s @ [io_waiting s ! k], io_waiting := take k (io_waiting s) @ drop (Suc k) (io_waiting s)\<rparr>"

definition processBatch :: "'n \<Rightarrow> nat \<Rightarrow> ('n, 'e) InferenceOperator \<Rightarrow> ('n, 'e) InferenceOperator" where
  "processBatch env k s =
    (let batch = io_running s ! k
     in s\<lparr>io_running := take k (io_running s) @ drop (Suc k) (io_running s),
          io_sent := io_sent s @ batch_replies batch (PredictBatch (io_model s) env (map (mk_request s) batch))\<rparr>)"

text \<open>Timer, ticker and closing flush the batch.\<close>

inductive inference_step :: "('n, 'e) InferenceOperator \<Rightarrow> ('n, 'e) InferenceOperator \<Rightarrow> bool" where
  submit: "inference_step s (submit event s)"
| flush: "inference_step s (flushBatchLocked s)"
| acquire: "k < length (io_waiting s) \<Longrightarrow> int (length (io_running s)) < ic_MaxConcurrency (io_config s) \<Longrightarrow> inference_step s (acquire k s)"
| process: "k < length (io_running s) \<Longrightarrow> inference_step s (processBatch env k s)"

definition inference_init :: "('n, 'e) InferenceOperator \<Rightarrow> bool" where
  "inference_init s \<longleftrightarrow> (\<exists>config model. s = new_inference config model)"

section \<open>Every item gets one reply\<close>

text \<open>All items there are: in the batch, in flushed batches, or answered.\<close>

definition places :: "('n, 'e) InferenceOperator \<Rightarrow> nat list" where
  "places s = io_batch s @ concat (io_waiting s) @ concat (io_running s) @ map fst (io_sent s)"

definition inference_ok :: "('n, 'e) InferenceOperator \<Rightarrow> bool" where
  "inference_ok s \<longleftrightarrow> 0 < ic_BatchSize (io_config s) \<and> 0 < ic_MaxConcurrency (io_config s) \<and>
    int (length (io_batch s)) < ic_BatchSize (io_config s) \<and> int (length (io_running s)) \<le> ic_MaxConcurrency (io_config s) \<and>
    (\<forall>b \<in> set (io_waiting s) \<union> set (io_running s). b \<noteq> [] \<and> int (length b) \<le> ic_BatchSize (io_config s)) \<and>
    mset (places s) = mset [0..<length (io_items s)]"

lemma inference_ok_init: "inference_init s \<Longrightarrow> inference_ok s"
  by (auto simp: inference_init_def new_inference_def inference_defaults_def inference_ok_def places_def)

lemma mset_remove_nth: "k < length xs \<Longrightarrow> mset (concat (take k xs @ drop (Suc k) xs)) + mset (xs ! k) = mset (concat xs)"
  by (subst (3) id_take_nth_drop [of k xs]) simp_all

lemma set_remove_nth: "set (take k xs @ drop (Suc k) xs) \<subseteq> set xs"
  by (auto dest: in_set_takeD in_set_dropD)

lemma batch_replies_ids: "map fst (batch_replies batch x) = batch"
  by (cases x) (simp_all add: batch_replies_def comp_def split_beta flip: snd_def)

lemma flush_ok:
  assumes "0 < ic_BatchSize (io_config s)" "0 < ic_MaxConcurrency (io_config s)" "int (length (io_batch s)) \<le> ic_BatchSize (io_config s)"
    and "int (length (io_running s)) \<le> ic_MaxConcurrency (io_config s)"
    and "\<forall>b \<in> set (io_waiting s) \<union> set (io_running s). b \<noteq> [] \<and> int (length b) \<le> ic_BatchSize (io_config s)"
    and "mset (places s) = mset [0..<length (io_items s)]"
  shows "inference_ok (flushBatchLocked s)"
  using assms by (auto simp: inference_ok_def flushBatchLocked_def places_def ac_simps)

lemma submit_ok: "inference_ok s \<Longrightarrow> inference_ok (submit event s)"
proof -
  assume ok: "inference_ok s"
  let ?item = "\<lparr>bi_event = event, bi_features = select_features (ic_FeatureFields (io_config s)) event\<rparr>"
  define s1 where "s1 = s\<lparr>io_batch := io_batch s @ [length (io_items s)], io_items := io_items s @ [?item]\<rparr>"
  have places: "mset (places (s1\<lparr>io_batchTimer := t\<rparr>)) = mset [0..<length (io_items s1)]" for t
    using ok by (simp add: s1_def places_def inference_ok_def)
  show ?thesis
  proof (cases "int (length (io_batch s1)) \<ge> ic_BatchSize (io_config s1)")
    case True
    then have "submit event s = flushBatchLocked (s1\<lparr>io_batchTimer := False\<rparr>)" by (simp add: submit_def s1_def Let_def)
    moreover have "inference_ok (flushBatchLocked (s1\<lparr>io_batchTimer := False\<rparr>))"
      using ok places [of False] by (intro flush_ok) (auto simp: s1_def inference_ok_def)
    ultimately show ?thesis by simp
  next
    case False
    then have "submit event s = s1\<lparr>io_batchTimer := True\<rparr>" by (auto simp: submit_def s1_def Let_def)
    moreover have "inference_ok (s1\<lparr>io_batchTimer := True\<rparr>)"
      using ok places [of True] False by (auto simp: s1_def inference_ok_def)
    ultimately show ?thesis by simp
  qed
qed

lemma acquire_ok:
  assumes ok: "inference_ok s" and k: "k < length (io_waiting s)" "int (length (io_running s)) < ic_MaxConcurrency (io_config s)"
  shows "inference_ok (acquire k s)"
proof -
  have "mset (places (acquire k s)) = mset (places s)"
    using mset_remove_nth [OF k(1)] by (simp add: places_def acquire_def ac_simps)
  moreover have "io_waiting s ! k \<in> set (io_waiting s)" using k(1) by simp
  ultimately show ?thesis using ok k set_remove_nth [of k "io_waiting s"] by (auto simp: inference_ok_def acquire_def)
qed

lemma process_ok:
  assumes ok: "inference_ok s" and k: "k < length (io_running s)"
  shows "inference_ok (processBatch env k s)"
proof -
  have "mset (places (processBatch env k s)) = mset (places s)"
    using mset_remove_nth [OF k] by (simp add: places_def processBatch_def Let_def batch_replies_ids ac_simps)
  then show ?thesis using ok k set_remove_nth [of k "io_running s"] by (auto simp: inference_ok_def processBatch_def Let_def)
qed

interpretation inference_runs: stepping inference_init inference_step inference_ok
proof
  fix s t :: "('n, 'e) InferenceOperator"
  show "inference_init s \<Longrightarrow> inference_ok s" by (rule inference_ok_init)
  assume ok: "inference_ok s" and "inference_step s t"
  from this(2) show "inference_ok t"
  proof cases
    case flush
    then show ?thesis using ok flush_ok [of s] by (simp add: inference_ok_def)
  qed (use ok in \<open>simp_all add: submit_ok acquire_ok process_ok\<close>)
qed

text \<open>C13: Every item that is submitted is answered at most once and is never lost: in every reachable state, whatever the
  interleaving of callers, timers and goroutines, each item is in exactly one place, the open batch, one flushed batch, or
  the replies, the open batch is smaller than the batch size, and no more batches run than the configured concurrency.\<close>

theorem inference_replies_once:
  assumes "reach inference_init inference_step s"
  shows "mset (io_batch s) + mset (concat (io_waiting s)) + mset (concat (io_running s)) + mset (map fst (io_sent s)) = mset [0..<length (io_items s)] \<and>
    distinct (map fst (io_sent s)) \<and> int (length (io_batch s)) < ic_BatchSize (io_config s) \<and> int (length (io_running s)) \<le> ic_MaxConcurrency (io_config s)"
proof -
  have ok: "inference_ok s" using assms by (rule inference_runs.inv_reach)
  then have "mset (places s) = mset [0..<length (io_items s)]" by (simp add: inference_ok_def)
  moreover from this have "distinct (places s)" by (metis distinct_upt mset_eq_imp_distinct_iff)
  ultimately show ?thesis using ok by (simp add: inference_ok_def places_def ac_simps)
qed

text \<open>Replies carry the prediction of the item: the batch is asked with the items' features in order, and the \<open>j\<close>-th item gets
  the \<open>j\<close>-th response.\<close>

lemma reply_at:
  "j < length batch \<Longrightarrow> distinct batch \<Longrightarrow>
   map_of (batch_replies batch outcome) (batch ! j) = Some (case outcome of Inl e \<Rightarrow> BatchFailed e
     | Inr responses \<Rightarrow> if j < length responses then Result (responses ! j) else NoResponse j)"
proof -
  assume j: "j < length batch" and "distinct batch"
  then have d: "distinct (map fst (batch_replies batch outcome))" by (simp add: batch_replies_ids)
  have "batch_replies batch outcome ! j = (batch ! j, case outcome of Inl e \<Rightarrow> BatchFailed e
     | Inr responses \<Rightarrow> if j < length responses then Result (responses ! j) else NoResponse j)"
    using j by (cases outcome) (simp_all add: batch_replies_def nth_enumerate_eq)
  moreover have "length (batch_replies batch outcome) = length batch" by (metis batch_replies_ids length_map)
  ultimately show ?thesis using nth_mem [of j "batch_replies batch outcome"] j by (simp add: map_of_eq_Some_iff [OF d])
qed

section \<open>Every item can be answered\<close>

lemma steps_trans: "steps r a b \<Longrightarrow> steps r b c \<Longrightarrow> steps r a c"
  by (rotate_tac, induction rule: steps.induct) (auto intro: steps.more)

lemma step_steps: "r a b \<Longrightarrow> steps r a b"
  by (rule steps.more [OF steps.none])

lemma drain_running: "\<exists>t. steps inference_step s t \<and> io_running t = [] \<and> io_waiting t = io_waiting s \<and> io_batch t = io_batch s \<and> io_items t = io_items s \<and> io_config t = io_config s"
proof (induction "length (io_running s)" arbitrary: s)
  case 0
  then show ?case by (auto intro: steps.none)
next
  case (Suc n)
  let ?s = "processBatch undefined 0 s"
  have "inference_step s ?s" using Suc.hyps(2) [symmetric] by (intro inference_step.process) simp
  moreover obtain t where "steps inference_step ?s t" "io_running t = []" "io_waiting t = io_waiting s" "io_batch t = io_batch s" "io_items t = io_items s" "io_config t = io_config s"
    using Suc.hyps(1) [of ?s] Suc.hyps(2) [symmetric] by (auto simp: processBatch_def Let_def)
  ultimately show ?case by (blast intro: steps_trans step_steps)
qed

lemma drain_waiting:
  "0 < ic_MaxConcurrency (io_config s) \<Longrightarrow> \<exists>t. steps inference_step s t \<and> io_running t = [] \<and> io_waiting t = [] \<and> io_batch t = io_batch s \<and> io_items t = io_items s"
proof (induction "length (io_waiting s)" arbitrary: s)
  case 0
  then show ?case using drain_running [of s] by auto
next
  case (Suc n)
  obtain u where u: "steps inference_step s u" "io_running u = []" "io_waiting u = io_waiting s" "io_batch u = io_batch s" "io_items u = io_items s" "io_config u = io_config s"
    using drain_running by blast
  let ?v = "acquire 0 u"
  have step: "inference_step u ?v" using u Suc.hyps(2) [symmetric] Suc.prems by (intro inference_step.acquire) auto
  obtain t where "steps inference_step ?v t" "io_running t = []" "io_waiting t = []" "io_batch t = io_batch s" "io_items t = io_items s"
    using Suc.hyps(1) [of ?v] Suc.hyps(2) [symmetric] Suc.prems u by (auto simp: acquire_def)
  then show ?case using u(1) step by (blast intro: steps_trans step_steps)
qed

text \<open>C14: No item is stuck: from every reachable state there is a run, a flush by the ticker and the work of the goroutines,
  that answers every item submitted so far.\<close>

theorem inference_can_answer_all:
  assumes "reach inference_init inference_step s"
  shows "\<exists>t. steps inference_step s t \<and> io_items t = io_items s \<and> mset (map fst (io_sent t)) = mset [0..<length (io_items s)]"
proof -
  have ok: "inference_ok s" using assms by (rule inference_runs.inv_reach)
  let ?u = "flushBatchLocked s"
  have flush: "inference_step s ?u" by (rule inference_step.flush)
  then have ok': "inference_ok ?u" using ok by (rule inference_runs.inv_step [rotated])
  have u: "io_batch ?u = []" "io_items ?u = io_items s" by (simp_all add: flushBatchLocked_def)
  obtain t where t: "steps inference_step ?u t" "io_running t = []" "io_waiting t = []" "io_batch t = []" "io_items t = io_items s"
    using drain_waiting [of ?u] ok' u by (auto simp: inference_ok_def)
  have "inference_ok t" using inference_runs.inv_steps [OF t(1) ok'] .
  then have "mset (map fst (io_sent t)) = mset [0..<length (io_items s)]" using t by (simp add: inference_ok_def places_def)
  then show ?thesis using t flush by (blast intro: steps_trans step_steps)
qed

definition example_inference :: "(unit, unit) InferenceOperator" where
  "example_inference = submit \<lparr>Key = ''k'', Value = JNull, EventTime = 1, Headers = Map.empty, Offset = 0, Partition = 0\<rparr>
     (new_inference \<lparr>ic_ModelName = ''m'', ic_ModelVersion = [], ic_BatchSize = 2, ic_BatchTimeout = 0, ic_MaxConcurrency = 0, ic_FeatureFields = [], ic_OutputField = []\<rparr>
       \<lparr>Predict = \<lambda>_ _. Inl (), PredictBatch = \<lambda>_ _. Inl (), GetMetadata = \<lparr>mm_Name = ''m'', mm_Version = ''1'', mm_Type = ''onnx'', mm_InputNames = [], mm_OutputNames = [],
         mm_CreatedAt = 0, mm_UpdatedAt = 0, mm_Tags = Map.empty, mm_Description = []\<rparr>, model_Close = \<lambda>_. None\<rparr>)"

lemma example_reach: "reach inference_init inference_step example_inference"
  unfolding example_inference_def by (rule reach.next_step, rule reach.start, simp add: inference_init_def, blast, rule inference_step.submit)

lemma inference_replies_once_witness: "int (length (io_batch example_inference)) < 2"
  using inference_replies_once [OF example_reach]
  by (simp add: example_inference_def submit_def new_inference_def inference_defaults_def Let_def flushBatchLocked_def split: if_splits)

lemma inference_can_answer_all_witness:
  "\<exists>t. steps inference_step example_inference t \<and> mset (map fst (io_sent t)) = mset [0]"
  using inference_can_answer_all [OF example_reach]
  by (auto simp: example_inference_def submit_def new_inference_def inference_defaults_def Let_def flushBatchLocked_def split: if_splits)

end
