(* ===== verification/ML_Features.thy ===== *)
theory ML_Features
  imports Stream_Types Complex_Main "HOL-Library.AList"
begin

text \<open>
  Feature extraction, \<open>pkg/ml/feature.go\<close>. A Go value is an element of \<open>gval\<close>; numbers of type \<open>float64\<close> are exact reals. Functions
  of the standard library on text and calendar dates, parsing of numbers and the format \<open>%v\<close> are parameters in the record
  \<open>feature_lib\<close>. The extractors, objects of an interface in the source, are the branches of one function on the type of
  the feature; every feature has a value of the type that its kind promises.
\<close>

section \<open>Values\<close>

datatype gval = GNil | GNum real | GInt int | GStr string | GBool bool | GArr "gval list" | GMap "(string \<times> gval) list"

record feature_lib =
  lib_Sprint :: "gval \<Rightarrow> string"
  lib_Sscanf :: "string \<Rightarrow> real option"
  lib_Fields :: "string \<Rightarrow> string list"
  lib_ToLower :: "string \<Rightarrow> string"
  lib_ToUpper :: "string \<Rightarrow> string"
  lib_Hour :: "gtime \<Rightarrow> int"
  lib_Weekday :: "gtime \<Rightarrow> int"
  lib_Day :: "gtime \<Rightarrow> int"
  lib_Month :: "gtime \<Rightarrow> int"
  lib_Year :: "gtime \<Rightarrow> int"

text \<open>\<open>strings.Split\<close> with a dot.\<close>

fun split_dot :: "string \<Rightarrow> string list" where
  "split_dot [] = [[]]"
| "split_dot (c # cs) = (if c = CHR ''.'' then [] # split_dot cs else (case split_dot cs of [] \<Rightarrow> [[c]] | w # ws \<Rightarrow> (c # w) # ws))"

fun walk :: "gval \<Rightarrow> string list \<Rightarrow> gval" where
  "walk current [] = current"
| "walk current (part # parts) =
    (case current of GMap m \<Rightarrow> walk (case map_of m part of Some v \<Rightarrow> v | None \<Rightarrow> GNil) parts | _ \<Rightarrow> GNil)"

definition getFieldValue :: "gval \<Rightarrow> string \<Rightarrow> gval" where
  "getFieldValue v fieldPath = (if fieldPath = [] then v else walk v (split_dot fieldPath))"

definition toFloat64 :: "feature_lib \<Rightarrow> gval \<Rightarrow> real option" where
  "toFloat64 lib v = (case v of GNum x \<Rightarrow> Some x | GInt i \<Rightarrow> Some (of_int i) | GStr s \<Rightarrow> lib_Sscanf lib s | _ \<Rightarrow> None)"

text \<open>A conversion whose error is ignored gives zero.\<close>

definition param_num :: "feature_lib \<Rightarrow> (string \<times> gval) list \<Rightarrow> string \<Rightarrow> real" where
  "param_num lib ps k = (case toFloat64 lib (case map_of ps k of Some v \<Rightarrow> v | None \<Rightarrow> GNil) of Some x \<Rightarrow> x | None \<Rightarrow> 0)"

section \<open>Extractors\<close>

datatype FeatureType = FeatureTypeNumerical | FeatureTypeCategorical | FeatureTypeText | FeatureTypeTemporal | FeatureTypeAggregation
  | FeatureTypeOneHot | FeatureTypeNormalize | FeatureTypeStandardize | FeatureTypeLog | FeatureTypeBucket | UnsupportedFeature string

record FeatureSpec =
  fp_Name :: string
  fp_Type :: FeatureType
  fp_Source :: string
  fp_Output :: string
  fp_Transform :: string
  fp_Parameters :: "(string \<times> gval) list"

record FeatureExtractionConfig =
  fc_Features :: "FeatureSpec list"
  fc_DropOriginal :: bool
  fc_StateBackend :: string

datatype feature_error = NotANumber | NoCategories | NoBoundaries | NoBackend | UnsupportedAggregation | UnsupportedType string

definition numerical :: "feature_lib \<Rightarrow> FeatureSpec \<Rightarrow> gval \<Rightarrow> feature_error + gval" where
  "numerical lib spec v =
    (if v = GNil then Inr (GNum 0) else (case toFloat64 lib v of None \<Rightarrow> Inl NotANumber | Some x \<Rightarrow> Inr (GNum x)))"

definition categorical :: "feature_lib \<Rightarrow> FeatureSpec \<Rightarrow> gval \<Rightarrow> feature_error + gval" where
  "categorical lib spec v = (if v = GNil then Inr (GStr []) else Inr (GStr (lib_Sprint lib v)))"

definition one_hot :: "feature_lib \<Rightarrow> string \<Rightarrow> gval list \<Rightarrow> (string \<times> gval) list" where
  "one_hot lib s categories =
    fold (\<lambda>c m. AList.update (lib_Sprint lib c) (GNum (if lib_Sprint lib c = s then 1 else 0)) m) categories []"

definition onehot :: "feature_lib \<Rightarrow> FeatureSpec \<Rightarrow> gval \<Rightarrow> feature_error + gval" where
  "onehot lib spec v =
    (if v = GNil then Inr (GMap [])
     else (case map_of (fp_Parameters spec) ''categories'' of
         Some (GArr categories) \<Rightarrow> Inr (GMap (one_hot lib (lib_Sprint lib v) categories))
       | _ \<Rightarrow> Inl NoCategories))"

definition normalize :: "feature_lib \<Rightarrow> FeatureSpec \<Rightarrow> gval \<Rightarrow> feature_error + gval" where
  "normalize lib spec v =
    (if v = GNil then Inr (GNum 0)
     else (case toFloat64 lib v of
         None \<Rightarrow> Inl NotANumber
       | Some x \<Rightarrow> (let lo = param_num lib (fp_Parameters spec) ''min''; hi = param_num lib (fp_Parameters spec) ''max''
                    in Inr (GNum (if hi = lo then 0 else (x - lo) / (hi - lo))))))"

definition standardize :: "feature_lib \<Rightarrow> FeatureSpec \<Rightarrow> gval \<Rightarrow> feature_error + gval" where
  "standardize lib spec v =
    (if v = GNil then Inr (GNum 0)
     else (case toFloat64 lib v of
         None \<Rightarrow> Inl NotANumber
       | Some x \<Rightarrow> (let mean = param_num lib (fp_Parameters spec) ''mean''; stddev = param_num lib (fp_Parameters spec) ''stddev''
                    in Inr (GNum (if stddev = 0 then 0 else (x - mean) / stddev)))))"

definition log_feature :: "feature_lib \<Rightarrow> FeatureSpec \<Rightarrow> gval \<Rightarrow> feature_error + gval" where
  "log_feature lib spec v =
    (if v = GNil then Inr (GNum 0)
     else (case toFloat64 lib v of None \<Rightarrow> Inl NotANumber | Some x \<Rightarrow> Inr (GNum (if x \<le> 0 then 0 else ln x))))"

fun bucket_loop :: "real \<Rightarrow> nat \<Rightarrow> real list \<Rightarrow> nat \<Rightarrow> nat" where
  "bucket_loop x i [] bucket = bucket"
| "bucket_loop x i (b # bs) bucket = (if x > b then bucket_loop x (Suc i) bs (i + 1) else bucket)"

definition bucket_feature :: "feature_lib \<Rightarrow> FeatureSpec \<Rightarrow> gval \<Rightarrow> feature_error + gval" where
  "bucket_feature lib spec v =
    (if v = GNil then Inr (GInt 0)
     else (case toFloat64 lib v of
         None \<Rightarrow> Inl NotANumber
       | Some x \<Rightarrow> (case map_of (fp_Parameters spec) ''boundaries'' of
             Some (GArr bs) \<Rightarrow>
               (let boundaries = sort (map (\<lambda>b. case toFloat64 lib b of Some y \<Rightarrow> y | None \<Rightarrow> 0) bs)
                in Inr (GInt (int (bucket_loop x 0 boundaries 0))))
           | _ \<Rightarrow> Inl NoBoundaries)))"

definition temporal :: "feature_lib \<Rightarrow> FeatureSpec \<Rightarrow> gtime \<Rightarrow> feature_error + gval" where
  "temporal lib spec t =
    Inr (GMap [(''hour'', GInt (lib_Hour lib t)), (''day_of_week'', GInt (lib_Weekday lib t)), (''day_of_month'', GInt (lib_Day lib t)),
      (''month'', GInt (lib_Month lib t)), (''year'', GInt (lib_Year lib t)),
      (''is_weekend'', GBool (lib_Weekday lib t = 6 \<or> lib_Weekday lib t = 0)), (''unix_timestamp'', GInt (time_Unix t))])"

definition aggregation :: "feature_lib \<Rightarrow> bool \<Rightarrow> FeatureSpec \<Rightarrow> gval \<Rightarrow> feature_error + gval" where
  "aggregation lib has_backend spec v =
    (if \<not> has_backend then Inl NoBackend
     else (case toFloat64 lib v of
         None \<Rightarrow> Inl NotANumber
       | Some x \<Rightarrow> (case map_of (fp_Parameters spec) ''type'' of
             Some (GStr t) \<Rightarrow> if t \<in> set [''sum'', ''count'', ''avg'', ''min'', ''max''] then Inr (GNum x) else Inl UnsupportedAggregation
           | _ \<Rightarrow> Inl UnsupportedAggregation)))"

definition text_feature :: "feature_lib \<Rightarrow> FeatureSpec \<Rightarrow> gval \<Rightarrow> feature_error + gval" where
  "text_feature lib spec v =
    (if v = GNil then Inr (GMap [])
     else (let s = lib_Sprint lib v
           in Inr (GMap [(''length'', GInt (int (length s))), (''word_count'', GInt (int (length (lib_Fields lib s)))),
                (''contains_number'', GBool (\<exists>c \<in> set s. c \<in> set ''0123456789'')), (''lowercase'', GStr (lib_ToLower lib s)),
                (''uppercase'', GStr (lib_ToUpper lib s))])))"

definition Extract :: "feature_lib \<Rightarrow> bool \<Rightarrow> FeatureSpec \<Rightarrow> gval event \<Rightarrow> feature_error + string \<times> gval" where
  "Extract lib has_backend spec event =
    (let v = getFieldValue (Value event) (fp_Source spec)
     in map_sum id (\<lambda>x. (fp_Output spec, x))
          (case fp_Type spec of
             FeatureTypeNumerical \<Rightarrow> numerical lib spec v
           | FeatureTypeCategorical \<Rightarrow> categorical lib spec v
           | FeatureTypeOneHot \<Rightarrow> onehot lib spec v
           | FeatureTypeNormalize \<Rightarrow> normalize lib spec v
           | FeatureTypeStandardize \<Rightarrow> standardize lib spec v
           | FeatureTypeLog \<Rightarrow> log_feature lib spec v
           | FeatureTypeBucket \<Rightarrow> bucket_feature lib spec v
           | FeatureTypeTemporal \<Rightarrow> temporal lib spec (EventTime event)
           | FeatureTypeAggregation \<Rightarrow> aggregation lib has_backend spec v
           | FeatureTypeText \<Rightarrow> text_feature lib spec v
           | UnsupportedFeature t \<Rightarrow> Inl (UnsupportedType t)))"

section \<open>The operator\<close>

definition createFeatureExtractor :: "FeatureSpec \<Rightarrow> feature_error + FeatureSpec" where
  "createFeatureExtractor spec = (case fp_Type spec of UnsupportedFeature t \<Rightarrow> Inl (UnsupportedType t) | _ \<Rightarrow> Inr spec)"

record FeatureExtractionOperator =
  fx_config :: FeatureExtractionConfig
  fx_backend :: bool
  fx_extractors :: "FeatureSpec list"

fun create_extractors :: "FeatureSpec list \<Rightarrow> (string \<times> feature_error) + FeatureSpec list" where
  "create_extractors [] = Inr []"
| "create_extractors (spec # specs) =
    (case createFeatureExtractor spec of
       Inl e \<Rightarrow> Inl (fp_Name spec, e)
     | Inr x \<Rightarrow> map_sum id (\<lambda>xs. x # xs) (create_extractors specs))"

definition NewFeatureExtractionOperator :: "FeatureExtractionConfig \<Rightarrow> bool \<Rightarrow> (string \<times> feature_error) + FeatureExtractionOperator" where
  "NewFeatureExtractionOperator config has_backend =
    map_sum id (\<lambda>xs. \<lparr>fx_config = config, fx_backend = has_backend, fx_extractors = xs\<rparr>) (create_extractors (fc_Features config))"

definition ensure_map :: "gval \<Rightarrow> (string \<times> gval) list" where
  "ensure_map v = (case v of GNil \<Rightarrow> [] | GMap m \<Rightarrow> m | _ \<Rightarrow> [(''original'', v)])"

fun extract_all :: "feature_lib \<Rightarrow> bool \<Rightarrow> gval event \<Rightarrow> FeatureSpec list \<Rightarrow> (string \<times> gval) list \<Rightarrow> (string \<times> feature_error) + (string \<times> gval) list" where
  "extract_all lib b event [] features = Inr features"
| "extract_all lib b event (spec # specs) features =
    (case Extract lib b spec event of
       Inl e \<Rightarrow> Inl (fp_Name spec, e)
     | Inr (k, v) \<Rightarrow> extract_all lib b event specs (AList.update k v features))"

definition feature_Process :: "feature_lib \<Rightarrow> FeatureExtractionOperator \<Rightarrow> gval event \<Rightarrow> (string \<times> feature_error) + gval event" where
  "feature_Process lib opr event =
    (let valueMap = ensure_map (Value event); event' = event\<lparr>Value := GMap valueMap\<rparr>
     in case extract_all lib (fx_backend opr) event' (fx_extractors opr) [] of
          Inl e \<Rightarrow> Inl e
        | Inr features \<Rightarrow>
            Inr (event'\<lparr>Value := GMap (if fc_DropOriginal (fx_config opr) then features
              else fold (\<lambda>(k, v) m. AList.update k v m) features valueMap)\<rparr>))"

section \<open>Types of features\<close>

datatype ftype = TNum | TInt | TStr | TBool | TMap "string \<Rightarrow> ftype option"

fun has_ftype :: "gval \<Rightarrow> ftype \<Rightarrow> bool" where
  "has_ftype v TNum \<longleftrightarrow> (\<exists>x. v = GNum x)"
| "has_ftype v TInt \<longleftrightarrow> (\<exists>i. v = GInt i)"
| "has_ftype v TStr \<longleftrightarrow> (\<exists>s. v = GStr s)"
| "has_ftype v TBool \<longleftrightarrow> (\<exists>b. v = GBool b)"
| "has_ftype v (TMap f) \<longleftrightarrow> (\<exists>m. v = GMap m \<and> (\<forall>(k, x) \<in> set m. case f k of None \<Rightarrow> False
     | Some TNum \<Rightarrow> (\<exists>y. x = GNum y) | Some TInt \<Rightarrow> (\<exists>i. x = GInt i) | Some TStr \<Rightarrow> (\<exists>s. x = GStr s) | Some TBool \<Rightarrow> (\<exists>b. x = GBool b) | Some (TMap g) \<Rightarrow> False))"

definition feature_type :: "FeatureType \<Rightarrow> ftype" where
  "feature_type t =
    (case t of
       FeatureTypeCategorical \<Rightarrow> TStr
     | FeatureTypeBucket \<Rightarrow> TInt
     | FeatureTypeOneHot \<Rightarrow> TMap (\<lambda>_. Some TNum)
     | FeatureTypeText \<Rightarrow> TMap [''length'' \<mapsto> TInt, ''word_count'' \<mapsto> TInt, ''contains_number'' \<mapsto> TBool, ''lowercase'' \<mapsto> TStr, ''uppercase'' \<mapsto> TStr]
     | FeatureTypeTemporal \<Rightarrow> TMap [''hour'' \<mapsto> TInt, ''day_of_week'' \<mapsto> TInt, ''day_of_month'' \<mapsto> TInt, ''month'' \<mapsto> TInt, ''year'' \<mapsto> TInt,
         ''is_weekend'' \<mapsto> TBool, ''unix_timestamp'' \<mapsto> TInt]
     | _ \<Rightarrow> TNum)"

lemma set_update_cases: "x \<in> set (AList.update k v m) \<Longrightarrow> x = (k, v) \<or> x \<in> set m"
  by (induction m) (auto split: if_splits)

lemma one_hot_numbers: "(k, x) \<in> set (fold (\<lambda>c m. AList.update (f c) (GNum (g c)) m) cs m) \<Longrightarrow> \<forall>(k, x) \<in> set m. \<exists>y. x = GNum y \<Longrightarrow> \<exists>y. x = GNum y"
proof (induction cs arbitrary: m)
  case (Cons c cs)
  have "\<forall>(k, x) \<in> set (AList.update (f c) (GNum (g c)) m). \<exists>y. x = GNum y" using Cons.prems(2) by (auto dest!: set_update_cases)
  then show ?case using Cons.IH Cons.prems(1) by simp
qed auto

lemma Extract_typed:
  "Extract lib b spec event = Inr (k, v) \<Longrightarrow> k = fp_Output spec \<and> has_ftype v (feature_type (fp_Type spec))"
proof -
  assume ex: "Extract lib b spec event = Inr (k, v)"
  have "has_ftype (GMap (one_hot lib s cs)) (TMap (\<lambda>_. Some TNum))" for s cs
    using one_hot_numbers [where f = "lib_Sprint lib" and m = "[]"] by (fastforce simp: one_hot_def)
  then show ?thesis using ex
    by (cases "fp_Type spec")
      (auto simp: Extract_def Let_def feature_type_def numerical_def categorical_def onehot_def normalize_def standardize_def log_feature_def
        bucket_feature_def temporal_def aggregation_def text_feature_def split: if_splits option.splits gval.splits)
qed

lemma createFeatureExtractor_same: "createFeatureExtractor spec = Inr x \<Longrightarrow> x = spec"
  by (auto simp: createFeatureExtractor_def split: FeatureType.splits)

lemma create_extractors_same: "create_extractors specs = Inr xs \<Longrightarrow> xs = specs"
  by (induction specs arbitrary: xs) (auto simp: map_sum_Inr dest: createFeatureExtractor_same split: sum.splits)

text \<open>All extracted features are in the result, each under its output name.\<close>

lemma extract_all_typed:
  assumes "extract_all lib b event specs features = Inr result" "distinct (map fp_Output specs)"
  shows "(\<forall>spec \<in> set specs. \<exists>v. map_of result (fp_Output spec) = Some v \<and> has_ftype v (feature_type (fp_Type spec))) \<and>
    (\<forall>k. k \<notin> fp_Output ` set specs \<longrightarrow> map_of result k = map_of features k)"
  using assms
proof (induction specs arbitrary: features)
  case (Cons spec specs)
  then obtain k v where ex: "Extract lib b spec event = Inr (k, v)" and rest: "extract_all lib b event specs (AList.update k v features) = Inr result"
    by (auto split: sum.splits prod.splits)
  have k: "k = fp_Output spec" and v: "has_ftype v (feature_type (fp_Type spec))" using Extract_typed [OF ex] by simp_all
  note IH = Cons.IH [OF rest]
  have "map_of result k = Some v" using IH Cons.prems(2) by (simp add: k update_conv')
  then show ?case using IH Cons.prems(2) v by (auto simp: k update_conv')
qed simp

lemma merge_features:
  "map_of (fold (\<lambda>(k, v) m. AList.update k v m) features m) k = (case map_of (rev features) k of Some v \<Rightarrow> Some v | None \<Rightarrow> map_of m k)"
  by (induction features arbitrary: m) (auto simp: update_conv' map_add_def split: option.splits)

lemma extract_all_distinct: "extract_all lib b event specs features = Inr result \<Longrightarrow> distinct (map fst features) \<Longrightarrow> distinct (map fst result)"
  by (induction specs arbitrary: features) (auto simp: distinct_update split: sum.splits prod.splits)

text \<open>C17: Features are well typed: when an operator made from a configuration with distinct output names processes an event, the
  resulting value is a map that has every configured feature under its output name with a value of the type its kind
  promises; all other fields of the event are kept unless the original is dropped.\<close>

theorem features_well_typed:
  assumes "NewFeatureExtractionOperator config b = Inr opr" "distinct (map fp_Output (fc_Features config))"
    and "feature_Process lib opr event = Inr event'"
  shows "\<exists>m. Value event' = GMap m \<and>
    (\<forall>spec \<in> set (fc_Features config). \<exists>v. map_of m (fp_Output spec) = Some v \<and> has_ftype v (feature_type (fp_Type spec))) \<and>
    (\<not> fc_DropOriginal config \<longrightarrow> (\<forall>k. k \<notin> fp_Output ` set (fc_Features config) \<longrightarrow> map_of m k = map_of (ensure_map (Value event)) k))"
proof -
  have opr: "fx_extractors opr = fc_Features config" "fx_config opr = config"
    using assms(1) by (auto simp: NewFeatureExtractionOperator_def map_sum_Inr dest: create_extractors_same)
  define vm where "vm = ensure_map (Value event)"
  obtain features where fs: "extract_all lib (fx_backend opr) (event\<lparr>Value := GMap vm\<rparr>) (fc_Features config) [] = Inr features"
    and res: "Value event' = GMap (if fc_DropOriginal config then features else fold (\<lambda>(k, v) m. AList.update k v m) features vm)"
    using assms(3) by (auto simp: feature_Process_def Let_def opr vm_def split: sum.splits)
  note typed = extract_all_typed [OF fs assms(2)]
  have "distinct (map fst features)" using extract_all_distinct [OF fs] by simp
  then have rev: "map_of (rev features) = map_of features" by (simp add: map_of_inject_set rev_map [symmetric])
  show ?thesis by (rule exI, rule conjI [OF res]) (use typed in \<open>auto simp: merge_features rev vm_def split: option.splits\<close>)
qed

definition example_lib :: feature_lib where
  "example_lib = \<lparr>lib_Sprint = (\<lambda>v. case v of GStr s \<Rightarrow> s | _ \<Rightarrow> ''x''), lib_Sscanf = (\<lambda>_. None), lib_Fields = (\<lambda>s. [s]), lib_ToLower = id, lib_ToUpper = id,
     lib_Hour = (\<lambda>_. 0), lib_Weekday = (\<lambda>_. 0), lib_Day = (\<lambda>_. 1), lib_Month = (\<lambda>_. 1), lib_Year = (\<lambda>_. 1)\<rparr>"

definition example_spec :: FeatureSpec where
  "example_spec = \<lparr>fp_Name = ''n'', fp_Type = FeatureTypeBucket, fp_Source = ''a'', fp_Output = ''b'', fp_Transform = [],
     fp_Parameters = [(''boundaries'', GArr [GNum 1, GNum 5])]\<rparr>"

lemma features_well_typed_witness:
  "\<exists>m i. feature_Process example_lib \<lparr>fx_config = \<lparr>fc_Features = [example_spec], fc_DropOriginal = False, fc_StateBackend = []\<rparr>, fx_backend = False,
       fx_extractors = [example_spec]\<rparr> \<lparr>Key = ''k'', Value = GMap [(''a'', GNum 3)], EventTime = 1, Headers = Map.empty, Offset = 0, Partition = 0\<rparr> =
       Inr \<lparr>Key = ''k'', Value = GMap m, EventTime = 1, Headers = Map.empty, Offset = 0, Partition = 0\<rparr> \<and> map_of m ''b'' = Some (GInt i)"
proof -
  let ?c = "\<lparr>fc_Features = [example_spec], fc_DropOriginal = False, fc_StateBackend = []\<rparr>"
  let ?o = "\<lparr>fx_config = ?c, fx_backend = False, fx_extractors = [example_spec]\<rparr>"
  let ?e = "\<lparr>Key = ''k'', Value = GMap [(''a'', GNum 3)], EventTime = 1, Headers = Map.empty, Offset = 0, Partition = 0\<rparr>"
  have new: "NewFeatureExtractionOperator ?c False = Inr ?o"
    by (simp add: NewFeatureExtractionOperator_def createFeatureExtractor_def example_spec_def)
  have p: "feature_Process example_lib ?o ?e = Inr (?e\<lparr>Value := GMap [(''a'', GNum 3), (''b'', GInt 1)]\<rparr>)"
    by (simp add: feature_Process_def Let_def Extract_def example_spec_def bucket_feature_def getFieldValue_def toFloat64_def ensure_map_def)
  obtain m where "Value (?e\<lparr>Value := GMap [(''a'', GNum 3), (''b'', GInt 1)]\<rparr>) = GMap m"
    and "\<exists>v. map_of m (fp_Output example_spec) = Some v \<and> has_ftype v (feature_type (fp_Type example_spec))"
    using features_well_typed [OF new _ p] by auto
  then have "\<exists>i. map_of [(''a'', GNum 3), (''b'', GInt 1)] ''b'' = Some (GInt i)" by auto
  then show ?thesis using p by auto
qed

section \<open>Values of features\<close>

text \<open>The bucket of a value is the number of boundaries below it.\<close>

lemma bucket_loop_sorted: "sorted bs \<Longrightarrow> bucket_loop x i bs i = i + length (filter (\<lambda>b. b < x) bs)"
proof (induction bs arbitrary: i)
  case (Cons b bs)
  show ?case
  proof (cases "x > b")
    case False
    then have "\<forall>c \<in> set bs. \<not> c < x" using Cons.prems by auto
    then show ?thesis using False by (simp add: filter_empty_conv)
  qed (use Cons in simp)
qed simp

theorem bucket_counts_boundaries: "bucket_loop x 0 (sort bs) 0 = length (filter (\<lambda>b. b < x) bs)"
proof -
  have "length (filter (\<lambda>b. b < x) (sort bs)) = length (filter (\<lambda>b. b < x) bs)" by (metis filter_sort length_sort)
  then show ?thesis using bucket_loop_sorted [of "sort bs" x 0] by simp
qed

text \<open>Normalization gives a value between zero and one exactly for values in the range; it does not clamp.\<close>

theorem normalize_range:
  assumes "toFloat64 lib v = Some x" "param_num lib (fp_Parameters spec) ''min'' < param_num lib (fp_Parameters spec) ''max''"
  shows "\<exists>y. normalize lib spec v = Inr (GNum y) \<and>
    (0 \<le> y \<and> y \<le> 1 \<longleftrightarrow> param_num lib (fp_Parameters spec) ''min'' \<le> x \<and> x \<le> param_num lib (fp_Parameters spec) ''max'')"
  using assms by (auto simp: normalize_def Let_def toFloat64_def zero_le_divide_iff divide_le_eq)

text \<open>An aggregation feature is the value itself, whatever the aggregation asked for.\<close>

lemma aggregation_is_identity:
  "toFloat64 lib v = Some x \<Longrightarrow> map_of (fp_Parameters spec) ''type'' = Some (GStr ''sum'') \<Longrightarrow> aggregation lib True spec v = Inr (GNum x)"
  by (simp add: aggregation_def)

end
