(* ===== verification/ML_Online.thy ===== *)
theory ML_Online
  imports ML_Inference
begin

text \<open>
  Online learning, \<open>pkg/ml/online_learning.go\<close>. Events with a target become training samples, which callers collect in a batch
  under a lock; a full batch is taken by the caller that fills it, and a ticker and closing take what there is. A batch that was
  taken is split in a part to train on and a part to validate with. The operator is a step relation; besides the fields of the
  source its state keeps the samples seen, the batches taken and not yet used, and what became of the others. Metrics are left out.
\<close>

section \<open>Configuration and state\<close>

record TrainingSample =
  ts_Features :: "(string \<times> json) list"
  ts_Target :: json
  ts_Weight :: real
  ts_Timestamp :: gtime

record ('n, 'e) OnlineModel = "('n, 'e) Model" +
  PartialFitBatch :: "'n \<Rightarrow> TrainingSample list \<Rightarrow> 'e option"
  SaveCheckpoint :: "'n \<Rightarrow> string \<Rightarrow> 'e option"

record OnlineLearningConfig =
  lc_ModelName :: string
  lc_ModelVersion :: string
  lc_UpdateBatchSize :: int
  lc_UpdateInterval :: duration
  lc_FeatureFields :: "string list"
  lc_TargetField :: string
  lc_CheckpointDir :: string
  lc_CheckpointInterval :: duration
  lc_LearningRate :: real
  lc_EnableValidation :: bool
  lc_ValidationSplit :: real

record ('n, 'e) OnlineLearningOperator =
  ol_config :: OnlineLearningConfig
  ol_model :: "('n, 'e) OnlineModel"
  ol_updateBatch :: "TrainingSample list"
  ol_lastCheckpoint :: gtime
  ol_cancelled :: bool
  ol_panicked :: bool
  ol_seen :: "TrainingSample list"
  ol_taken :: "TrainingSample list list"
  ol_fitted :: "TrainingSample list list"
  ol_held :: "TrainingSample list list"
  ol_lost :: "TrainingSample list list"

definition online_defaults :: "OnlineLearningConfig \<Rightarrow> OnlineLearningConfig" where
  "online_defaults config = config\<lparr>lc_UpdateBatchSize := (if lc_UpdateBatchSize config \<le> 0 then 32 else lc_UpdateBatchSize config),
     lc_UpdateInterval := (if lc_UpdateInterval config \<le> 0 then 5 * second else lc_UpdateInterval config),
     lc_CheckpointInterval := (if lc_CheckpointInterval config \<le> 0 then 5 * minute else lc_CheckpointInterval config),
     lc_TargetField := (if lc_TargetField config = [] then ''label'' else lc_TargetField config),
     lc_ValidationSplit := (if lc_ValidationSplit config \<le> 0 then 1 / 5 else lc_ValidationSplit config)\<rparr>"

definition new_online :: "gtime \<Rightarrow> OnlineLearningConfig \<Rightarrow> ('n, 'e) OnlineModel \<Rightarrow> ('n, 'e) OnlineLearningOperator" where
  "new_online now config model = \<lparr>ol_config = online_defaults config, ol_model = model, ol_updateBatch = [], ol_lastCheckpoint = now,
     ol_cancelled = False, ol_panicked = False, ol_seen = [], ol_taken = [], ol_fitted = [], ol_held = [], ol_lost = []\<rparr>"

datatype 'e online_error = NoModel "'e registry_error" | NotOnline string

text \<open>\<open>online\<close> is the type assertion: the models that learn.\<close>

definition NewOnlineLearningOperator ::
  "(('n, 'e) Model \<Rightarrow> ('n, 'e) OnlineModel option) \<Rightarrow> gtime \<Rightarrow> string list \<Rightarrow> OnlineLearningConfig \<Rightarrow> ('n, 'e) ModelRegistry \<Rightarrow>
     'e online_error + ('n, 'e) OnlineLearningOperator" where
  "NewOnlineLearningOperator online now order config r =
    (case find_model order (lc_ModelName config) (lc_ModelVersion config) r of
       Inl e \<Rightarrow> Inl (NoModel e)
     | Inr m \<Rightarrow> (case Option.bind m online of
           None \<Rightarrow> Inl (NotOnline (lc_ModelName config))
         | Some model \<Rightarrow> Inr (new_online now config model)))"

section \<open>Samples\<close>

definition online_features :: "OnlineLearningConfig \<Rightarrow> json event \<Rightarrow> (string \<times> json) list" where
  "online_features config event = select_features (lc_FeatureFields config) event"

definition extractTarget :: "OnlineLearningConfig \<Rightarrow> json event \<Rightarrow> json" where
  "extractTarget config event =
    (case Value event of JObj m \<Rightarrow> (case map_of m (lc_TargetField config) of Some target \<Rightarrow> target | None \<Rightarrow> JNull) | _ \<Rightarrow> JNull)"

definition mk_sample :: "OnlineLearningConfig \<Rightarrow> json event \<Rightarrow> TrainingSample option" where
  "mk_sample config event =
    (if extractTarget config event = JNull then None
     else Some \<lparr>ts_Features = online_features config event, ts_Target = extractTarget config event, ts_Weight = 1, ts_Timestamp = EventTime event\<rparr>)"

definition take_batch :: "('n, 'e) OnlineLearningOperator \<Rightarrow> ('n, 'e) OnlineLearningOperator" where
  "take_batch s = s\<lparr>ol_updateBatch := [], ol_taken := ol_taken s @ [ol_updateBatch s]\<rparr>"

text \<open>\<open>Process\<close> up to the update.\<close>

definition add_event :: "json event \<Rightarrow> ('n, 'e) OnlineLearningOperator \<Rightarrow> ('n, 'e) OnlineLearningOperator" where
  "add_event event s =
    (case mk_sample (ol_config s) event of
       None \<Rightarrow> s
     | Some sample \<Rightarrow>
         (let s1 = s\<lparr>ol_updateBatch := ol_updateBatch s @ [sample], ol_seen := ol_seen s @ [sample]\<rparr>
          in if int (length (ol_updateBatch s1)) \<ge> lc_UpdateBatchSize (ol_config s1) then take_batch s1 else s1))"

definition flush_updates :: "('n, 'e) OnlineLearningOperator \<Rightarrow> ('n, 'e) OnlineLearningOperator" where
  "flush_updates s = (if ol_updateBatch s \<noteq> [] then take_batch s else s)"

section \<open>Updates\<close>

text \<open>Conversion to \<open>int\<close> drops the fraction.\<close>

definition go_trunc :: "real \<Rightarrow> int" where
  "go_trunc x = (if 0 \<le> x then \<lfloor>x\<rfloor> else \<lceil>x\<rceil>)"

definition split_index :: "real \<Rightarrow> nat \<Rightarrow> int" where
  "split_index split n = go_trunc (real n * (1 - split))"

definition split_batch :: "OnlineLearningConfig \<Rightarrow> TrainingSample list \<Rightarrow> (TrainingSample list \<times> TrainingSample list) option" where
  "split_batch config batch =
    (if lc_EnableValidation config
     then (let i = split_index (lc_ValidationSplit config) (length batch)
           in if 0 \<le> i \<and> i \<le> int (length batch) then Some (take (nat i) batch, drop (nat i) batch) else None)
     else Some (batch, []))"

definition online_validate :: "(json \<Rightarrow> string) \<Rightarrow> ('n, 'e) OnlineModel \<Rightarrow> (nat \<Rightarrow> 'n) \<Rightarrow> TrainingSample list \<Rightarrow> real" where
  "online_validate fmtv model env samples =
    real (length (filter (\<lambda>(j, sample). case Predict model (env j) (ts_Features sample) of
        Inl e \<Rightarrow> False | Inr resp \<Rightarrow> fmtv (rp_Prediction resp) = fmtv (ts_Target sample)) (enumerate 0 samples))) / real (length samples)"

datatype 'e update = NothingToDo | UpdatePanic | FitFailed 'e | Fitted "TrainingSample list" "TrainingSample list" "real option"

definition performUpdate :: "(json \<Rightarrow> string) \<Rightarrow> OnlineLearningConfig \<Rightarrow> ('n, 'e) OnlineModel \<Rightarrow> 'n \<Rightarrow> (nat \<Rightarrow> 'n) \<Rightarrow> TrainingSample list \<Rightarrow> 'e update" where
  "performUpdate fmtv config model env envs batch =
    (if batch = [] then NothingToDo
     else (case split_batch config batch of
         None \<Rightarrow> UpdatePanic
       | Some (train, val) \<Rightarrow>
           (case PartialFitBatch model env train of
              Some e \<Rightarrow> FitFailed e
            | None \<Rightarrow> Fitted train val (if lc_EnableValidation config \<and> val \<noteq> [] then Some (online_validate fmtv model envs val) else None))))"

text \<open>The holder of the \<open>k\<close>-th taken batch updates the model. What follows a failure, an error of \<open>Process\<close> or a message, has no
  effect on the operator.\<close>

definition do_update :: "(json \<Rightarrow> string) \<Rightarrow> 'n \<Rightarrow> (nat \<Rightarrow> 'n) \<Rightarrow> nat \<Rightarrow> ('n, 'e) OnlineLearningOperator \<Rightarrow> ('n, 'e) OnlineLearningOperator" where
  "do_update fmtv env envs k s =
    (let batch = ol_taken s ! k; s1 = s\<lparr>ol_taken := take k (ol_taken s) @ drop (Suc k) (ol_taken s)\<rparr>
     in case performUpdate fmtv (ol_config s) (ol_model s) env envs batch of
          NothingToDo \<Rightarrow> s1
        | UpdatePanic \<Rightarrow> s\<lparr>ol_panicked := True\<rparr>
        | FitFailed e \<Rightarrow> s1\<lparr>ol_lost := ol_lost s @ [batch]\<rparr>
        | Fitted train val acc \<Rightarrow> s1\<lparr>ol_fitted := ol_fitted s @ [train], ol_held := ol_held s @ [val]\<rparr>)"

text \<open>What \<open>Process\<close> returns to its caller once its update is made.\<close>

definition process_result :: "json event \<Rightarrow> 'e update \<Rightarrow> 'e + json event" where
  "process_result event u = (case u of FitFailed e \<Rightarrow> Inl e | _ \<Rightarrow> Inr event)"

section \<open>Checkpoints\<close>

definition checkpoint_path :: "string \<Rightarrow> string \<Rightarrow> ModelMetadata \<Rightarrow> string" where
  "checkpoint_path dir timestamp meta = dir @ ''/'' @ mm_Name meta @ ''-'' @ mm_Version meta @ ''-'' @ timestamp @ ''.ckpt''"

definition saveCheckpoint :: "(gtime \<Rightarrow> string) \<Rightarrow> gtime \<Rightarrow> gtime \<Rightarrow> 'n \<Rightarrow> ('n, 'e) OnlineLearningOperator \<Rightarrow> 'e option \<times> ('n, 'e) OnlineLearningOperator" where
  "saveCheckpoint layout now end_time env s =
    (if lc_CheckpointDir (ol_config s) = [] then (None, s)
     else (case SaveCheckpoint (ol_model s) env (checkpoint_path (lc_CheckpointDir (ol_config s)) (layout now) (GetMetadata (ol_model s))) of
         Some e \<Rightarrow> (Some e, s)
       | None \<Rightarrow> (None, s\<lparr>ol_lastCheckpoint := end_time\<rparr>)))"

section \<open>Runs\<close>

text \<open>A tick may still be taken after the context ended, as both branches of the select are open then.\<close>

inductive online_step :: "(json \<Rightarrow> string) \<Rightarrow> ('n, 'e) OnlineLearningOperator \<Rightarrow> ('n, 'e) OnlineLearningOperator \<Rightarrow> bool" for fmtv where
  event: "\<not> ol_panicked s \<Longrightarrow> online_step fmtv s (add_event event s)"
| tick: "\<not> ol_panicked s \<Longrightarrow> online_step fmtv s (flush_updates s)"
| update: "\<not> ol_panicked s \<Longrightarrow> k < length (ol_taken s) \<Longrightarrow> online_step fmtv s (do_update fmtv env envs k s)"
| checkpoint: "\<not> ol_panicked s \<Longrightarrow> online_step fmtv s (snd (saveCheckpoint layout now end_time env s))"
| close: "\<not> ol_panicked s \<Longrightarrow> online_step fmtv s (flush_updates (s\<lparr>ol_cancelled := True\<rparr>))"

definition online_init :: "('n, 'e) OnlineLearningOperator \<Rightarrow> bool" where
  "online_init s \<longleftrightarrow> (\<exists>now config model. s = new_online now config model)"

definition online_places :: "('n, 'e) OnlineLearningOperator \<Rightarrow> TrainingSample list" where
  "online_places s = ol_updateBatch s @ concat (ol_taken s) @ concat (ol_fitted s) @ concat (ol_held s) @ concat (ol_lost s)"

definition online_ok :: "('n, 'e) OnlineLearningOperator \<Rightarrow> bool" where
  "online_ok s \<longleftrightarrow> mset (online_places s) = mset (ol_seen s) \<and> 0 < lc_UpdateBatchSize (ol_config s) \<and>
    int (length (ol_updateBatch s)) < lc_UpdateBatchSize (ol_config s) \<and> 0 < lc_ValidationSplit (ol_config s) \<and>
    (\<forall>b \<in> set (ol_taken s). b \<noteq> [] \<and> int (length b) \<le> lc_UpdateBatchSize (ol_config s)) \<and>
    (lc_EnableValidation (ol_config s) \<longrightarrow> (\<forall>b \<in> set (ol_held s). b \<noteq> []))"

lemma go_trunc_range: "0 \<le> x \<Longrightarrow> 0 \<le> go_trunc x \<and> real_of_int (go_trunc x) \<le> x"
  by (simp add: go_trunc_def)

text \<open>A split below one and above zero leaves at least one sample for validation; the index is inside the batch.\<close>

lemma split_inside:
  assumes "0 < split" "batch \<noteq> []" "0 \<le> split_index split (length batch)"
  shows "split_index split (length batch) < int (length batch)"
proof (cases "split \<le> 1")
  case True
  have "real_of_int (split_index split (length batch)) \<le> real (length batch) * (1 - split)"
    using go_trunc_range [of "real (length batch) * (1 - split)"] True by (simp add: split_index_def)
  also have "\<dots> < real (length batch)" using assms by (simp add: algebra_simps)
  finally show ?thesis by linarith
next
  case False
  then have "real (length batch) * (1 - split) < 0" using assms(2) by (simp add: mult_pos_neg)
  then have "split_index split (length batch) \<le> 0" unfolding split_index_def go_trunc_def by (simp add: ceiling_le_iff)
  then show ?thesis using assms(2) by (cases batch) auto
qed

lemma split_parts: "split_batch config batch = Some (train, val) \<Longrightarrow> train @ val = batch"
  by (auto simp: split_batch_def Let_def split: if_splits)

lemma split_holds:
  "split_batch config batch = Some (train, val) \<Longrightarrow> lc_EnableValidation config \<Longrightarrow> 0 < lc_ValidationSplit config \<Longrightarrow> batch \<noteq> [] \<Longrightarrow> val \<noteq> []"
  using split_inside [of "lc_ValidationSplit config" batch] by (auto simp: split_batch_def Let_def split: if_splits)

text \<open>With a split of at most one no update panics; above one every large enough batch does.\<close>

lemma split_total: "lc_ValidationSplit config \<le> 1 \<Longrightarrow> 0 < lc_ValidationSplit config \<Longrightarrow> split_batch config batch \<noteq> None"
  using split_inside [of "lc_ValidationSplit config" batch] go_trunc_range [of "real (length batch) * (1 - lc_ValidationSplit config)"]
  by (cases "batch = []") (auto simp: split_batch_def Let_def split_index_def go_trunc_def)

lemma large_split_panics:
  assumes "lc_EnableValidation config" "real (length batch) * (lc_ValidationSplit config - 1) \<ge> 1"
  shows "performUpdate fmtv config model env envs batch = UpdatePanic"
proof -
  have "real (length batch) * (1 - lc_ValidationSplit config) \<le> - 1" using assms(2) by (simp add: algebra_simps)
  then have "split_index (lc_ValidationSplit config) (length batch) < 0" by (simp add: split_index_def go_trunc_def ceiling_less_zero)
  moreover have "batch \<noteq> []" using assms(2) by auto
  ultimately show ?thesis using assms(1) by (simp add: performUpdate_def split_batch_def Let_def)
qed

text \<open>A batch of one sample is never trained on when validation is enabled.\<close>

lemma single_sample_not_trained:
  assumes "lc_EnableValidation config" "0 < lc_ValidationSplit config" "lc_ValidationSplit config < 2"
  shows "split_batch config [x] = Some ([], [x])"
proof -
  have "\<bar>1 - lc_ValidationSplit config\<bar> < 1" using assms by simp
  then have "split_index (lc_ValidationSplit config) 1 = 0" by (auto simp: split_index_def go_trunc_def floor_eq_iff ceiling_eq_iff)
  then show ?thesis using assms(1) by (simp add: split_batch_def)
qed

section \<open>Samples are used once\<close>

lemma online_ok_init: "online_init s \<Longrightarrow> online_ok s"
  by (auto simp: online_init_def new_online_def online_ok_def online_defaults_def online_places_def)

lemma take_batch_ok:
  assumes "mset (online_places s) = mset (ol_seen s)" "0 < lc_UpdateBatchSize (ol_config s)" "0 < lc_ValidationSplit (ol_config s)"
    and "ol_updateBatch s \<noteq> []" "int (length (ol_updateBatch s)) \<le> lc_UpdateBatchSize (ol_config s)"
    and "\<forall>b \<in> set (ol_taken s). b \<noteq> [] \<and> int (length b) \<le> lc_UpdateBatchSize (ol_config s)"
    and "lc_EnableValidation (ol_config s) \<longrightarrow> (\<forall>b \<in> set (ol_held s). b \<noteq> [])"
  shows "online_ok (take_batch s)"
proof -
  have "mset (online_places (take_batch s)) = mset (ol_seen s)" using assms(1) by (simp add: take_batch_def online_places_def ac_simps)
  then show ?thesis using assms(2-) by (simp add: online_ok_def) (auto simp: take_batch_def)
qed

lemma flush_updates_ok: "online_ok s \<Longrightarrow> online_ok (flush_updates s)"
proof (cases "ol_updateBatch s = []")
  case False
  assume ok: "online_ok s"
  have "online_ok (take_batch s)" by (rule take_batch_ok) (use ok False in \<open>simp_all add: online_ok_def\<close>)
  then show ?thesis using False by (simp add: flush_updates_def)
qed (simp add: flush_updates_def)

lemma add_event_ok: "online_ok s \<Longrightarrow> online_ok (add_event event s)"
proof -
  assume ok: "online_ok s"
  show ?thesis
  proof (cases "mk_sample (ol_config s) event")
    case None
    then show ?thesis using ok by (simp add: add_event_def)
  next
    case (Some x)
    define s1 where "s1 = s\<lparr>ol_updateBatch := ol_updateBatch s @ [x], ol_seen := ol_seen s @ [x]\<rparr>"
    have s1: "mset (online_places s1) = mset (ol_seen s1)" "ol_config s1 = ol_config s" "ol_taken s1 = ol_taken s" "ol_held s1 = ol_held s"
      "length (ol_updateBatch s1) = Suc (length (ol_updateBatch s))" "ol_updateBatch s1 \<noteq> []"
      using ok by (simp_all add: s1_def online_ok_def online_places_def)
    have res: "add_event event s = (if int (length (ol_updateBatch s1)) \<ge> lc_UpdateBatchSize (ol_config s1) then take_batch s1 else s1)"
      unfolding add_event_def Some option.case Let_def s1_def by (rule refl)
    show ?thesis
    proof (cases "int (length (ol_updateBatch s1)) \<ge> lc_UpdateBatchSize (ol_config s1)")
      case True
      have "online_ok (take_batch s1)"
      proof (rule take_batch_ok)
        show "mset (online_places s1) = mset (ol_seen s1)" "ol_updateBatch s1 \<noteq> []" by (rule s1)+
        show "int (length (ol_updateBatch s1)) \<le> lc_UpdateBatchSize (ol_config s1)" unfolding s1 using ok by (simp add: online_ok_def)
      qed (use ok in \<open>simp_all add: s1 online_ok_def\<close>)
      then show ?thesis using True res by simp
    next
      case False
      then have "online_ok s1" using ok s1 by (simp add: online_ok_def)
      then show ?thesis using False res by simp
    qed
  qed
qed

lemma do_update_ok:
  assumes ok: "online_ok s" and k: "k < length (ol_taken s)"
  shows "online_ok (do_update fmtv env envs k s)"
proof -
  define rest where "rest = take k (ol_taken s) @ drop (Suc k) (ol_taken s)"
  define batch where "batch = ol_taken s ! k"
  have batch: "batch \<noteq> []" using ok k by (simp add: online_ok_def batch_def)
  have moved: "mset (concat rest) + mset batch = mset (concat (ol_taken s))" unfolding rest_def batch_def by (rule mset_remove_nth [OF k])
  have sub: "set rest \<subseteq> set (ol_taken s)" unfolding rest_def by (rule set_remove_nth)
  have here: "do_update fmtv env envs k s = (case performUpdate fmtv (ol_config s) (ol_model s) env envs batch of
          NothingToDo \<Rightarrow> s\<lparr>ol_taken := rest\<rparr>
        | UpdatePanic \<Rightarrow> s\<lparr>ol_panicked := True\<rparr>
        | FitFailed e \<Rightarrow> s\<lparr>ol_taken := rest, ol_lost := ol_lost s @ [batch]\<rparr>
        | Fitted train val acc \<Rightarrow> s\<lparr>ol_taken := rest, ol_fitted := ol_fitted s @ [train], ol_held := ol_held s @ [val]\<rparr>)"
    unfolding do_update_def Let_def rest_def batch_def by (rule refl)
  have flags: "mset (online_places s) = mset (ol_seen s)" using ok by (simp add: online_ok_def)
  have seen: "mset (ol_updateBatch s) + (mset (concat rest) + mset batch) + mset (concat (ol_fitted s)) + mset (concat (ol_held s)) + mset (concat (ol_lost s)) = mset (ol_seen s)"
    unfolding moved using flags by (simp add: online_places_def ac_simps)
  show ?thesis
  proof (cases "performUpdate fmtv (ol_config s) (ol_model s) env envs batch")
    case NothingToDo
    then show ?thesis using batch by (auto simp: performUpdate_def split: option.splits)
  next
    case UpdatePanic
    have "online_ok (s\<lparr>ol_panicked := True\<rparr>)" using ok by (simp add: online_ok_def online_places_def)
    then show ?thesis unfolding here UpdatePanic by simp
  next
    case (FitFailed e)
    have "mset (online_places (s\<lparr>ol_taken := rest, ol_lost := ol_lost s @ [batch]\<rparr>)) = mset (ol_seen s)"
      using seen by (simp add: online_places_def ac_simps)
    then have "online_ok (s\<lparr>ol_taken := rest, ol_lost := ol_lost s @ [batch]\<rparr>)" using ok sub by (auto simp: online_ok_def)
    then show ?thesis unfolding here FitFailed by simp
  next
    case (Fitted train val acc)
    then have split: "split_batch (ol_config s) batch = Some (train, val)" using batch by (auto simp: performUpdate_def split: option.splits)
    have "mset batch = mset train + mset val" using split_parts [OF split] by (metis mset_append)
    then have "mset (online_places (s\<lparr>ol_taken := rest, ol_fitted := ol_fitted s @ [train], ol_held := ol_held s @ [val]\<rparr>)) = mset (ol_seen s)"
      using seen by (simp add: online_places_def ac_simps)
    moreover have "lc_EnableValidation (ol_config s) \<longrightarrow> val \<noteq> []" using split_holds [OF split _ _ batch] ok by (simp add: online_ok_def)
    ultimately have "online_ok (s\<lparr>ol_taken := rest, ol_fitted := ol_fitted s @ [train], ol_held := ol_held s @ [val]\<rparr>)"
      using ok sub by (auto simp: online_ok_def)
    then show ?thesis unfolding here Fitted by simp
  qed
qed

interpretation online_runs: stepping online_init "online_step fmtv" online_ok for fmtv
proof
  fix s t :: "('n, 'e) OnlineLearningOperator"
  show "online_init s \<Longrightarrow> online_ok s" by (rule online_ok_init)
  assume ok: "online_ok s" and "online_step fmtv s t"
  from this(2) show "online_ok t"
  proof cases
    case (checkpoint layout now end_time env)
    then show ?thesis using ok by (auto simp: saveCheckpoint_def online_ok_def online_places_def split: option.splits)
  next
    case close
    moreover have "online_ok (s\<lparr>ol_cancelled := True\<rparr>)" using ok by (simp add: online_ok_def online_places_def)
    ultimately show ?thesis by (simp add: flush_updates_ok)
  qed (use ok in \<open>simp_all add: flush_updates_ok add_event_ok do_update_ok\<close>)
qed

text \<open>In every reachable state each sample is in exactly one place: in the open batch, in one batch that was taken, trained on,
  held out for validation, or lost with an update that failed; with validation on every update holds samples out.\<close>

theorem online_samples_conserved:
  assumes "reach online_init (online_step fmtv) s"
  shows "mset (ol_updateBatch s) + mset (concat (ol_taken s)) + mset (concat (ol_fitted s)) + mset (concat (ol_held s)) + mset (concat (ol_lost s)) = mset (ol_seen s) \<and>
    int (length (ol_updateBatch s)) < lc_UpdateBatchSize (ol_config s) \<and> (lc_EnableValidation (ol_config s) \<longrightarrow> [] \<notin> set (ol_held s))"
  using online_runs.inv_reach [OF assms] by (auto simp: online_ok_def online_places_def ac_simps)

text \<open>Samples of a failed update are not put back, and the event that triggered it is not passed on.\<close>

lemma failed_update_loses:
  assumes "performUpdate fmtv (ol_config s) (ol_model s) env envs (ol_taken s ! k) = FitFailed e"
  shows "ol_lost (do_update fmtv env envs k s) = ol_lost s @ [ol_taken s ! k] \<and> process_result event (FitFailed e) = Inl e"
  using assms by (simp add: do_update_def Let_def process_result_def)

end
