(* ===== verification/Rocks_Config.thy ===== *)
theory Rocks_Config
  imports Memory_State
begin

text \<open>
  Configuration of the RocksDB backend, first part of \<open>pkg/state/rocksdb.go\<close>: the presets and the options that a configuration
  sets on the database. The options object of the library is the list of the calls made on it, in order; what the
  library does with them is not modelled. \<open>open_options\<close> are those in force when the database is opened.
\<close>

section \<open>Configurations\<close>

datatype PerformancePreset = PresetLowLatency | PresetHighThroughput | PresetBalanced | PresetLargeState | OtherPreset string

datatype CompressionType = NoCompression | SnappyCompression | ZSTDCompression | OtherCompression nat

record RocksConfig =
  rc_Path :: string
  rc_CreateIfMissing :: bool
  rc_ErrorIfExists :: bool
  rc_WriteBufferSize :: int
  rc_MaxWriteBufferNum :: int
  rc_MaxOpenFiles :: int
  rc_BlockSize :: int
  rc_BlockCacheSize :: int
  rc_BloomFilterBits :: int
  rc_Compression :: CompressionType
  rc_EnableStatistics :: bool
  rc_TTLEnabled :: bool
  rc_DefaultTTL :: duration
  rc_EnableIncrementalCP :: bool
  rc_Preset :: PerformancePreset
  rc_MaxBackgroundJobs :: int
  rc_MaxSubCompactions :: int
  rc_EnablePrefixBloom :: bool
  rc_PrefixLength :: int
  rc_OptimizeFiltersForHits :: bool
  rc_Level0FileNumCompactionTrigger :: int
  rc_Level0SlowdownWritesTrigger :: int
  rc_Level0StopWritesTrigger :: int
  rc_TargetFileSizeBase :: int
  rc_MaxBytesForLevelBase :: int
  rc_MaxTotalWALSize :: int
  rc_DBWriteBufferSize :: int
  rc_AllowMmapReads :: bool
  rc_AllowMmapWrites :: bool
  rc_UseDirectReads :: bool
  rc_UseDirectIOForFlush :: bool
  rc_EnableLatencyTracking :: bool

definition DefaultRocksDBConfig :: "string \<Rightarrow> RocksConfig" where
  "DefaultRocksDBConfig path = \<lparr>rc_Path = path, rc_CreateIfMissing = True, rc_ErrorIfExists = False, rc_WriteBufferSize = 64 * 1024 * 1024,
     rc_MaxWriteBufferNum = 3, rc_MaxOpenFiles = 1000, rc_BlockSize = 4 * 1024, rc_BlockCacheSize = 128 * 1024 * 1024,
     rc_BloomFilterBits = 10, rc_Compression = SnappyCompression, rc_EnableStatistics = True, rc_TTLEnabled = False, rc_DefaultTTL = 0,
     rc_EnableIncrementalCP = True, rc_Preset = PresetBalanced, rc_MaxBackgroundJobs = 4, rc_MaxSubCompactions = 2,
     rc_EnablePrefixBloom = False, rc_PrefixLength = 0, rc_OptimizeFiltersForHits = False, rc_Level0FileNumCompactionTrigger = 4,
     rc_Level0SlowdownWritesTrigger = 20, rc_Level0StopWritesTrigger = 36, rc_TargetFileSizeBase = 64 * 1024 * 1024,
     rc_MaxBytesForLevelBase = 256 * 1024 * 1024, rc_MaxTotalWALSize = 0, rc_DBWriteBufferSize = 0, rc_AllowMmapReads = False,
     rc_AllowMmapWrites = False, rc_UseDirectReads = False, rc_UseDirectIOForFlush = False, rc_EnableLatencyTracking = True\<rparr>"

definition LowLatencyConfig :: "string \<Rightarrow> RocksConfig" where
  "LowLatencyConfig path = (DefaultRocksDBConfig path)\<lparr>rc_Preset := PresetLowLatency, rc_WriteBufferSize := 128 * 1024 * 1024,
     rc_MaxWriteBufferNum := 4, rc_BlockCacheSize := 512 * 1024 * 1024, rc_MaxBackgroundJobs := 8, rc_MaxSubCompactions := 4,
     rc_EnablePrefixBloom := True, rc_PrefixLength := 8, rc_OptimizeFiltersForHits := True, rc_Level0FileNumCompactionTrigger := 2,
     rc_Level0SlowdownWritesTrigger := 8, rc_Level0StopWritesTrigger := 12, rc_TargetFileSizeBase := 128 * 1024 * 1024,
     rc_MaxBytesForLevelBase := 512 * 1024 * 1024, rc_AllowMmapReads := True, rc_MaxTotalWALSize := 512 * 1024 * 1024,
     rc_DBWriteBufferSize := 512 * 1024 * 1024\<rparr>"

definition HighThroughputConfig :: "string \<Rightarrow> RocksConfig" where
  "HighThroughputConfig path = (DefaultRocksDBConfig path)\<lparr>rc_Preset := PresetHighThroughput, rc_WriteBufferSize := 256 * 1024 * 1024,
     rc_MaxWriteBufferNum := 6, rc_BlockCacheSize := 1024 * 1024 * 1024, rc_MaxBackgroundJobs := 16, rc_MaxSubCompactions := 8,
     rc_Level0FileNumCompactionTrigger := 8, rc_Level0SlowdownWritesTrigger := 32, rc_Level0StopWritesTrigger := 48,
     rc_TargetFileSizeBase := 256 * 1024 * 1024, rc_MaxBytesForLevelBase := 1024 * 1024 * 1024, rc_UseDirectReads := True,
     rc_UseDirectIOForFlush := True, rc_MaxTotalWALSize := 1024 * 1024 * 1024, rc_DBWriteBufferSize := 1024 * 1024 * 1024\<rparr>"

definition LargeStateConfig :: "string \<Rightarrow> RocksConfig" where
  "LargeStateConfig path = (DefaultRocksDBConfig path)\<lparr>rc_Preset := PresetLargeState, rc_WriteBufferSize := 256 * 1024 * 1024,
     rc_MaxWriteBufferNum := 8, rc_BlockCacheSize := 2048 * 1024 * 1024, rc_Compression := ZSTDCompression,
     rc_MaxBackgroundJobs := 12, rc_MaxSubCompactions := 6, rc_EnablePrefixBloom := True, rc_PrefixLength := 8,
     rc_OptimizeFiltersForHits := True, rc_Level0FileNumCompactionTrigger := 4, rc_Level0SlowdownWritesTrigger := 24,
     rc_Level0StopWritesTrigger := 40, rc_TargetFileSizeBase := 256 * 1024 * 1024, rc_MaxBytesForLevelBase := 1024 * 1024 * 1024,
     rc_UseDirectReads := True, rc_UseDirectIOForFlush := True, rc_MaxTotalWALSize := 1024 * 1024 * 1024,
     rc_DBWriteBufferSize := 2048 * 1024 * 1024, rc_MaxOpenFiles := 5000\<rparr>"

section \<open>Options of the database\<close>

datatype db_option = SetCreateIfMissing bool | SetErrorIfExists bool | SetWriteBufferSize int | SetMaxWriteBufferNumber int
  | SetMaxOpenFiles int | SetCompression CompressionType | SetMaxBackgroundJobs int | SetMaxSubcompactions u32
  | SetLevel0FileNumCompactionTrigger int | SetLevel0SlowdownWritesTrigger int | SetLevel0StopWritesTrigger int
  | SetTargetFileSizeBase u64 | SetMaxBytesForLevelBase u64 | SetMaxTotalWalSize u64 | SetDbWriteBufferSize int
  | SetAllowMmapReads | SetAllowMmapWrites | SetUseDirectReads | SetUseDirectIOForFlushAndCompaction
  | SetBlockSize int | SetBlockCache int | SetFilterPolicy int | SetOptimizeFiltersForHits | DisableWholeKeyFiltering
  | EnableStatistics | SetAllowConcurrentMemtableWrites | SetEnablePipelinedWrite | SetBytesPerSync u64 | IncreaseParallelism int
  | SetPrefixExtractor int

definition if_positive :: "int \<Rightarrow> db_option \<Rightarrow> db_option list" where
  "if_positive n opt = (if 0 < n then [opt] else [])"

definition if_enabled :: "bool \<Rightarrow> db_option \<Rightarrow> db_option list" where
  "if_enabled b opt = (if b then [opt] else [])"

definition base_options :: "RocksConfig \<Rightarrow> db_option list" where
  "base_options config =
    [SetCreateIfMissing (rc_CreateIfMissing config), SetErrorIfExists (rc_ErrorIfExists config), SetWriteBufferSize (rc_WriteBufferSize config),
     SetMaxWriteBufferNumber (rc_MaxWriteBufferNum config), SetMaxOpenFiles (rc_MaxOpenFiles config), SetCompression (rc_Compression config)]"

definition tuning_options :: "RocksConfig \<Rightarrow> db_option list" where
  "tuning_options config =
    if_positive (rc_MaxBackgroundJobs config) (SetMaxBackgroundJobs (rc_MaxBackgroundJobs config)) @
    if_positive (rc_MaxSubCompactions config) (SetMaxSubcompactions (word_of_int (rc_MaxSubCompactions config))) @
    if_positive (rc_Level0FileNumCompactionTrigger config) (SetLevel0FileNumCompactionTrigger (rc_Level0FileNumCompactionTrigger config)) @
    if_positive (rc_Level0SlowdownWritesTrigger config) (SetLevel0SlowdownWritesTrigger (rc_Level0SlowdownWritesTrigger config)) @
    if_positive (rc_Level0StopWritesTrigger config) (SetLevel0StopWritesTrigger (rc_Level0StopWritesTrigger config)) @
    if_positive (rc_TargetFileSizeBase config) (SetTargetFileSizeBase (word_of_int (rc_TargetFileSizeBase config))) @
    if_positive (rc_MaxBytesForLevelBase config) (SetMaxBytesForLevelBase (word_of_int (rc_MaxBytesForLevelBase config))) @
    if_positive (rc_MaxTotalWALSize config) (SetMaxTotalWalSize (word_of_int (rc_MaxTotalWALSize config))) @
    if_positive (rc_DBWriteBufferSize config) (SetDbWriteBufferSize (rc_DBWriteBufferSize config)) @
    if_enabled (rc_AllowMmapReads config) SetAllowMmapReads @ if_enabled (rc_AllowMmapWrites config) SetAllowMmapWrites @
    if_enabled (rc_UseDirectReads config) SetUseDirectReads @
    if_enabled (rc_UseDirectIOForFlush config) SetUseDirectIOForFlushAndCompaction"

definition use_prefix :: "RocksConfig \<Rightarrow> bool" where
  "use_prefix config \<longleftrightarrow> rc_EnablePrefixBloom config \<and> 0 < rc_PrefixLength config"

definition block_options :: "RocksConfig \<Rightarrow> db_option list" where
  "block_options config =
    [SetBlockSize (rc_BlockSize config), SetBlockCache (rc_BlockCacheSize config), SetFilterPolicy (rc_BloomFilterBits config)] @
    if_enabled (rc_OptimizeFiltersForHits config) SetOptimizeFiltersForHits @ if_enabled (use_prefix config) DisableWholeKeyFiltering"

definition preset_options :: "PerformancePreset \<Rightarrow> db_option list" where
  "preset_options preset =
    (case preset of
       PresetLowLatency \<Rightarrow> [SetBytesPerSync (1024 * 1024), IncreaseParallelism 8]
     | PresetHighThroughput \<Rightarrow> [SetBytesPerSync (8 * 1024 * 1024), IncreaseParallelism 16]
     | PresetLargeState \<Rightarrow> [SetBytesPerSync (4 * 1024 * 1024), IncreaseParallelism 12]
     | _ \<Rightarrow> [SetBytesPerSync (2 * 1024 * 1024), IncreaseParallelism 4])"

definition open_options :: "RocksConfig \<Rightarrow> db_option list" where
  "open_options config = base_options config @ tuning_options config @ block_options config @
     if_enabled (rc_EnableStatistics config) EnableStatistics @ [SetAllowConcurrentMemtableWrites, SetEnablePipelinedWrite] @
     preset_options (rc_Preset config)"

text \<open>The prefix extractor is set on the options after the database was opened with them.\<close>

definition final_options :: "RocksConfig \<Rightarrow> db_option list" where
  "final_options config = open_options config @ if_enabled (use_prefix config) (SetPrefixExtractor (rc_PrefixLength config))"

lemma prefix_set_after_open:
  "SetPrefixExtractor n \<notin> set (open_options config)"
  "use_prefix config \<Longrightarrow> DisableWholeKeyFiltering \<in> set (open_options config)"
  "use_prefix config \<Longrightarrow> SetPrefixExtractor (rc_PrefixLength config) \<in> set (final_options config)"
  by (auto simp: open_options_def final_options_def base_options_def tuning_options_def block_options_def preset_options_def
      if_positive_def if_enabled_def split: PerformancePreset.splits)

text \<open>Every preset has sizes the library's types hold: nothing is cut off when it is converted.\<close>

definition preset_configs :: "string \<Rightarrow> RocksConfig list" where
  "preset_configs path = [DefaultRocksDBConfig path, LowLatencyConfig path, HighThroughputConfig path, LargeStateConfig path]"

lemmas preset_defs = DefaultRocksDBConfig_def LowLatencyConfig_def HighThroughputConfig_def LargeStateConfig_def

theorem preset_sizes_fit:
  assumes "config \<in> set (preset_configs path)"
  shows "0 < rc_MaxSubCompactions config \<and> rc_MaxSubCompactions config < 2 ^ 32 \<and> 0 < rc_TargetFileSizeBase config \<and>
    rc_TargetFileSizeBase config \<le> rc_MaxBytesForLevelBase config \<and> rc_MaxBytesForLevelBase config < 2 ^ 63 \<and>
    0 \<le> rc_MaxTotalWALSize config \<and> rc_MaxTotalWALSize config < 2 ^ 63 \<and>
    rc_Level0FileNumCompactionTrigger config < rc_Level0SlowdownWritesTrigger config \<and>
    rc_Level0SlowdownWritesTrigger config < rc_Level0StopWritesTrigger config"
  using assms by (auto simp: preset_configs_def preset_defs)

end
