(* ===== verification/Rocks_State.thy ===== *)
theory Rocks_State
  imports Rocks_Config "HOL-Library.Signed_Division"
begin

text \<open>
  The RocksDB backend, \<open>pkg/state/rocksdb.go\<close>. The database library is the record \<open>rocks_db\<close> of the functions the backend calls
  on an opened database of type \<open>'s\<close>; keys are given as strings, whose bytes they are, and the constant read and write
  options are part of the functions. \<open>rocks_contract\<close> is what the library documents. With a time to live a value is
  stored behind eight bytes with its expiry in seconds. Keys found expired are deleted by goroutines of their own, which
  are kept in the list of pending deletions. Clock readings of an operation are its argument.
\<close>

section \<open>The database\<close>

datatype batch_op = BatchPutOp string bytes | BatchDeleteOp string

record 's rocks_db =
  db_Get :: "'s \<Rightarrow> string \<Rightarrow> string + bytes option"
  db_Put :: "'s \<Rightarrow> string \<Rightarrow> bytes \<Rightarrow> string option \<times> 's"
  db_Delete :: "'s \<Rightarrow> string \<Rightarrow> string option \<times> 's"
  db_Write :: "'s \<Rightarrow> batch_op list \<Rightarrow> string option \<times> 's"
  db_Iterate :: "'s \<Rightarrow> (string \<times> bytes) list \<times> string option"
  db_GetProperty :: "'s \<Rightarrow> string \<Rightarrow> string"
  db_CreateCheckpoint :: "'s \<Rightarrow> string \<Rightarrow> string option"
  db_Flush :: "'s \<Rightarrow> string option \<times> 's"
  db_CompactRange :: "'s \<Rightarrow> 's"

fun apply_batch :: "batch_op \<Rightarrow> (string \<rightharpoonup> bytes) \<Rightarrow> (string \<rightharpoonup> bytes)" where
  "apply_batch (BatchPutOp k v) m = m(k \<mapsto> v)"
| "apply_batch (BatchDeleteOp k) m = m(k := None)"

text \<open>Reads return what is stored, writes and batches take effect or fail without one, an iterator that ends without an error
  has met every entry once, and maintenance changes nothing.\<close>

definition rocks_contract :: "'s rocks_db \<Rightarrow> ('s \<Rightarrow> string \<rightharpoonup> bytes) \<Rightarrow> bool" where
  "rocks_contract db entries \<longleftrightarrow>
    (\<forall>s k v. db_Get db s k = Inr v \<longrightarrow> v = entries s k) \<and>
    (\<forall>s k v. entries (snd (db_Put db s k v)) = (if fst (db_Put db s k v) = None then (entries s)(k \<mapsto> v) else entries s)) \<and>
    (\<forall>s k. entries (snd (db_Delete db s k)) = (if fst (db_Delete db s k) = None then (entries s)(k := None) else entries s)) \<and>
    (\<forall>s b. entries (snd (db_Write db s b)) = (if fst (db_Write db s b) = None then fold apply_batch b (entries s) else entries s)) \<and>
    (\<forall>s. snd (db_Iterate db s) = None \<longrightarrow> distinct (map fst (fst (db_Iterate db s))) \<and> map_of (fst (db_Iterate db s)) = entries s) \<and>
    (\<forall>s. entries (snd (db_Flush db s)) = entries s) \<and> (\<forall>s. entries (db_CompactRange db s) = entries s)"

section \<open>The backend\<close>

record LatencyMetrics =
  lm_count :: i64
  lm_totalNanos :: i64
  lm_p50Nanos :: i64
  lm_p95Nanos :: i64
  lm_p99Nanos :: i64
  lm_maxNanos :: i64
  lm_lastUpdateNs :: i64

definition no_latency :: LatencyMetrics where
  "no_latency = \<lparr>lm_count = 0, lm_totalNanos = 0, lm_p50Nanos = 0, lm_p95Nanos = 0, lm_p99Nanos = 0, lm_maxNanos = 0, lm_lastUpdateNs = 0\<rparr>"

record ('s, 'd) RocksDBStateBackend =
  rb_db :: "'s option"
  rb_opts :: "db_option list option"
  rb_checkpoint :: bool
  rb_path :: string
  rb_ttlEnabled :: bool
  rb_defaultTTL :: duration
  rb_lastSnapshot :: "'d option"
  rb_preset :: PerformancePreset
  rb_getCount :: i64
  rb_putCount :: i64
  rb_deleteCount :: i64
  rb_batchCount :: i64
  rb_errorCount :: i64
  rb_getLatency :: LatencyMetrics
  rb_putLatency :: LatencyMetrics
  rb_batchLatency :: LatencyMetrics
  rb_enableMetrics :: bool
  rb_enableCompression :: bool
  rb_prefixExtractor :: "int option"
  rb_pending :: "string list"

datatype rb_error = OpenFailed string | CheckpointFailed string | NotInitialized | GetFailed string string | PutFailed string string
  | DeleteFailed string string | WriteFailed string | IteratorFailed string | SerializeFailed | DeserializeFailed | FlushFailed string

definition NewRocksDBStateBackend ::
  "(db_option list \<Rightarrow> string \<Rightarrow> string + 's) \<Rightarrow> ('s \<Rightarrow> string option) \<Rightarrow> RocksConfig option \<Rightarrow> rb_error + ('s, 'd) RocksDBStateBackend" where
  "NewRocksDBStateBackend OpenDb NewCheckpoint cfg =
    (let config = (case cfg of None \<Rightarrow> DefaultRocksDBConfig ''./state'' | Some c \<Rightarrow> c)
     in case OpenDb (open_options config) (rc_Path config) of
          Inl e \<Rightarrow> Inl (OpenFailed e)
        | Inr db \<Rightarrow>
            (case NewCheckpoint db of
               Some e \<Rightarrow> Inl (CheckpointFailed e)
             | None \<Rightarrow>
                 Inr \<lparr>rb_db = Some db, rb_opts = Some (final_options config), rb_checkpoint = True, rb_path = rc_Path config,
                   rb_ttlEnabled = rc_TTLEnabled config, rb_defaultTTL = rc_DefaultTTL config, rb_lastSnapshot = None,
                   rb_preset = rc_Preset config, rb_getCount = 0, rb_putCount = 0, rb_deleteCount = 0, rb_batchCount = 0,
                   rb_errorCount = 0, rb_getLatency = no_latency, rb_putLatency = no_latency, rb_batchLatency = no_latency,
                   rb_enableMetrics = rc_EnableStatistics config, rb_enableCompression = (rc_Compression config \<noteq> NoCompression),
                   rb_prefixExtractor = (if use_prefix config then Some (rc_PrefixLength config) else None), rb_pending = []\<rparr>))"

text \<open>Clock readings of one operation: in its body, the time it took, and at its end.\<close>

record op_clock =
  oc_now :: gtime
  oc_since :: duration
  oc_end :: gtime

definition trackLatency :: "op_clock \<Rightarrow> LatencyMetrics \<Rightarrow> LatencyMetrics" where
  "trackLatency clk m =
    (let nanos = word_of_int (oc_since clk) :: i64;
         m1 = m\<lparr>lm_count := lm_count m + 1, lm_totalNanos := lm_totalNanos m + nanos,
                lm_maxNanos := (if sint nanos \<le> sint (lm_maxNanos m) then lm_maxNanos m else nanos)\<rparr>
     in if sint (lm_count m1) mod 1000 = 0 then m1\<lparr>lm_lastUpdateNs := word_of_int (oc_end clk - unix_epoch_seconds * 1000000000)\<rparr> else m1)"

definition count_error :: "('s, 'd) RocksDBStateBackend \<Rightarrow> ('s, 'd) RocksDBStateBackend" where
  "count_error r = r\<lparr>rb_errorCount := rb_errorCount r + 1\<rparr>"

section \<open>Stored values\<close>

unbundle bit_operations_syntax

definition PutUint64 :: "u64 \<Rightarrow> bytes" where
  "PutUint64 w = map (\<lambda>i. ucast (drop_bit (8 * (7 - i)) w)) [0..<8]"

definition Uint64 :: "bytes \<Rightarrow> u64" where
  "Uint64 b = fold (\<lambda>x w. push_bit 8 w OR ucast x) (take 8 b) 0"

definition encode_ttl :: "bool \<Rightarrow> gtime \<Rightarrow> duration \<Rightarrow> bytes \<Rightarrow> bytes" where
  "encode_ttl enabled now ttl v = (if enabled \<and> ttl > 0 then PutUint64 (word_of_int (time_Unix (time_Add now ttl))) @ v else v)"

datatype ttl_decoded = Expired | Live bytes

definition decode_ttl :: "bool \<Rightarrow> gtime \<Rightarrow> bytes \<Rightarrow> ttl_decoded" where
  "decode_ttl enabled now data =
    (if enabled \<and> length data \<ge> 8
     then (let expiryTime = sint (Uint64 (take 8 data))
           in if expiryTime > 0 \<and> time_Unix now > expiryTime then Expired else Live (drop 8 data))
     else Live data)"

section \<open>Operations\<close>

definition rb_Get :: "'s rocks_db \<Rightarrow> op_clock \<Rightarrow> string \<Rightarrow> ('s, 'd) RocksDBStateBackend \<Rightarrow> (rb_error + bytes option) \<times> ('s, 'd) RocksDBStateBackend" where
  "rb_Get db clk key r =
    (let (res, r1) =
       (case rb_db r of
          None \<Rightarrow> (Inl NotInitialized, count_error r)
        | Some s \<Rightarrow>
            (case db_Get db s key of
               Inl e \<Rightarrow> (Inl (GetFailed key e), count_error r)
             | Inr None \<Rightarrow> (Inr None, r)
             | Inr (Some data) \<Rightarrow>
                 (case decode_ttl (rb_ttlEnabled r) (oc_now clk) data of
                    Expired \<Rightarrow> (Inr None, r\<lparr>rb_pending := rb_pending r @ [key]\<rparr>)
                  | Live v \<Rightarrow> (Inr (Some v), r\<lparr>rb_getCount := rb_getCount r + 1\<rparr>))))
     in (res, r1\<lparr>rb_getLatency := trackLatency clk (rb_getLatency r1)\<rparr>))"

definition rb_PutWithTTL :: "'s rocks_db \<Rightarrow> op_clock \<Rightarrow> string \<Rightarrow> bytes \<Rightarrow> duration \<Rightarrow> ('s, 'd) RocksDBStateBackend \<Rightarrow> rb_error option \<times> ('s, 'd) RocksDBStateBackend" where
  "rb_PutWithTTL db clk key v ttl r =
    (let (res, r1) =
       (case rb_db r of
          None \<Rightarrow> (Some NotInitialized, count_error r)
        | Some s \<Rightarrow>
            (case db_Put db s key (encode_ttl (rb_ttlEnabled r) (oc_now clk) ttl v) of
               (Some e, s') \<Rightarrow> (Some (PutFailed key e), count_error (r\<lparr>rb_db := Some s'\<rparr>))
             | (None, s') \<Rightarrow> (None, r\<lparr>rb_db := Some s', rb_putCount := rb_putCount r + 1\<rparr>)))
     in (res, r1\<lparr>rb_putLatency := trackLatency clk (rb_putLatency r1)\<rparr>))"

definition rb_Put :: "'s rocks_db \<Rightarrow> op_clock \<Rightarrow> string \<Rightarrow> bytes \<Rightarrow> ('s, 'd) RocksDBStateBackend \<Rightarrow> rb_error option \<times> ('s, 'd) RocksDBStateBackend" where
  "rb_Put db clk key v r = rb_PutWithTTL db clk key v (rb_defaultTTL r) r"

definition rb_Delete :: "'s rocks_db \<Rightarrow> string \<Rightarrow> ('s, 'd) RocksDBStateBackend \<Rightarrow> rb_error option \<times> ('s, 'd) RocksDBStateBackend" where
  "rb_Delete db key r =
    (case rb_db r of
       None \<Rightarrow> (Some NotInitialized, count_error r)
     | Some s \<Rightarrow>
         (case db_Delete db s key of
            (Some e, s') \<Rightarrow> (Some (DeleteFailed key e), count_error (r\<lparr>rb_db := Some s'\<rparr>))
          | (None, s') \<Rightarrow> (None, r\<lparr>rb_db := Some s', rb_deleteCount := rb_deleteCount r + 1\<rparr>)))"

text \<open>One of the goroutines \<open>go r.Delete(key)\<close> runs.\<close>

definition rb_deferred :: "'s rocks_db \<Rightarrow> string \<Rightarrow> ('s, 'd) RocksDBStateBackend \<Rightarrow> rb_error option \<times> ('s, 'd) RocksDBStateBackend" where
  "rb_deferred db key r = rb_Delete db key (r\<lparr>rb_pending := remove1 key (rb_pending r)\<rparr>)"

fun batch_get :: "'s rocks_db \<Rightarrow> 's \<Rightarrow> (string \<Rightarrow> gtime) \<Rightarrow> string list \<Rightarrow> (string \<rightharpoonup> bytes) \<Rightarrow> ('s, 'd) RocksDBStateBackend \<Rightarrow> (string \<rightharpoonup> bytes) \<times> ('s, 'd) RocksDBStateBackend" where
  "batch_get db s now [] result r = (result, r)"
| "batch_get db s now (key # keys) result r =
    (case db_Get db s key of
       Inl e \<Rightarrow> batch_get db s now keys result (count_error r)
     | Inr None \<Rightarrow> batch_get db s now keys result r
     | Inr (Some data) \<Rightarrow>
         (case decode_ttl (rb_ttlEnabled r) (now key) data of
            Expired \<Rightarrow> batch_get db s now keys result (r\<lparr>rb_pending := rb_pending r @ [key]\<rparr>)
          | Live v \<Rightarrow> batch_get db s now keys (result(key \<mapsto> v)) (r\<lparr>rb_getCount := rb_getCount r + 1\<rparr>)))"

definition rb_BatchGet :: "'s rocks_db \<Rightarrow> (string \<Rightarrow> gtime) \<Rightarrow> string list \<Rightarrow> ('s, 'd) RocksDBStateBackend \<Rightarrow> (rb_error + (string \<rightharpoonup> bytes)) \<times> ('s, 'd) RocksDBStateBackend" where
  "rb_BatchGet db now keys r =
    (case rb_db r of
       None \<Rightarrow> (Inl NotInitialized, count_error r)
     | Some s \<Rightarrow> (let (result, r') = batch_get db s now keys Map.empty r in (Inr result, r')))"

text \<open>The entries of the map are given in the order of the loop; \<open>now\<close> is the clock in the loop.\<close>

definition rb_BatchPutWithTTL :: "'s rocks_db \<Rightarrow> op_clock \<Rightarrow> (string \<Rightarrow> gtime) \<Rightarrow> (string \<times> bytes) list \<Rightarrow> duration \<Rightarrow> ('s, 'd) RocksDBStateBackend \<Rightarrow> rb_error option \<times> ('s, 'd) RocksDBStateBackend" where
  "rb_BatchPutWithTTL db clk now entries ttl r =
    (let (res, r1) =
       (case rb_db r of
          None \<Rightarrow> (Some NotInitialized, count_error r)
        | Some s \<Rightarrow>
            (case db_Write db s (map (\<lambda>(k, v). BatchPutOp k (encode_ttl (rb_ttlEnabled r) (now k) ttl v)) entries) of
               (Some e, s') \<Rightarrow> (Some (WriteFailed e), count_error (r\<lparr>rb_db := Some s'\<rparr>))
             | (None, s') \<Rightarrow> (None, r\<lparr>rb_db := Some s', rb_batchCount := rb_batchCount r + 1,
                                 rb_putCount := rb_putCount r + of_nat (length entries)\<rparr>)))
     in (res, r1\<lparr>rb_batchLatency := trackLatency clk (rb_batchLatency r1)\<rparr>))"

definition rb_BatchPut :: "'s rocks_db \<Rightarrow> op_clock \<Rightarrow> (string \<Rightarrow> gtime) \<Rightarrow> (string \<times> bytes) list \<Rightarrow> ('s, 'd) RocksDBStateBackend \<Rightarrow> rb_error option \<times> ('s, 'd) RocksDBStateBackend" where
  "rb_BatchPut db clk now entries r = rb_BatchPutWithTTL db clk now entries (rb_defaultTTL r) r"

definition rb_BatchDelete :: "'s rocks_db \<Rightarrow> op_clock \<Rightarrow> string list \<Rightarrow> ('s, 'd) RocksDBStateBackend \<Rightarrow> rb_error option \<times> ('s, 'd) RocksDBStateBackend" where
  "rb_BatchDelete db clk keys r =
    (let (res, r1) =
       (case rb_db r of
          None \<Rightarrow> (Some NotInitialized, count_error r)
        | Some s \<Rightarrow>
            (case db_Write db s (map BatchDeleteOp keys) of
               (Some e, s') \<Rightarrow> (Some (WriteFailed e), count_error (r\<lparr>rb_db := Some s'\<rparr>))
             | (None, s') \<Rightarrow> (None, r\<lparr>rb_db := Some s', rb_batchCount := rb_batchCount r + 1,
                                 rb_deleteCount := rb_deleteCount r + of_nat (length keys)\<rparr>)))
     in (res, r1\<lparr>rb_batchLatency := trackLatency clk (rb_batchLatency r1)\<rparr>))"

section \<open>Snapshots and maintenance\<close>

definition strip_ttl :: "bool \<Rightarrow> bytes \<Rightarrow> bytes" where
  "strip_ttl enabled v = (if enabled \<and> length v \<ge> 8 then drop 8 v else v)"

definition snapshot_entries :: "bool \<Rightarrow> (string \<times> bytes) list \<Rightarrow> (string \<rightharpoonup> bytes)" where
  "snapshot_entries enabled kvs = fold (\<lambda>(k, v) m. m(k \<mapsto> strip_ttl enabled v)) kvs Map.empty"

definition rb_Snapshot :: "'s rocks_db \<Rightarrow> ((string \<rightharpoonup> bytes) \<Rightarrow> 'd option) \<Rightarrow> ('s, 'd) RocksDBStateBackend \<Rightarrow> (rb_error + 'd) \<times> ('s, 'd) RocksDBStateBackend" where
  "rb_Snapshot db marshal r =
    (case rb_db r of
       None \<Rightarrow> (Inl NotInitialized, r)
     | Some s \<Rightarrow>
         (case db_Iterate db s of
            (kvs, Some e) \<Rightarrow> (Inl (IteratorFailed e), r)
          | (kvs, None) \<Rightarrow>
              (case marshal (snapshot_entries (rb_ttlEnabled r) kvs) of
                 None \<Rightarrow> (Inl SerializeFailed, r)
               | Some data \<Rightarrow> (Inr data, r\<lparr>rb_lastSnapshot := Some data\<rparr>))))"

text \<open>\<open>order\<close> is the order of the loop over the decoded map.\<close>

definition rb_Restore :: "'s rocks_db \<Rightarrow> ('d \<Rightarrow> (string \<rightharpoonup> bytes) option) \<Rightarrow> string list \<Rightarrow> 'd \<Rightarrow> ('s, 'd) RocksDBStateBackend \<Rightarrow> rb_error option \<times> ('s, 'd) RocksDBStateBackend" where
  "rb_Restore db unmarshal order data r =
    (case rb_db r of
       None \<Rightarrow> (Some NotInitialized, r)
     | Some s \<Rightarrow>
         (case unmarshal data of
            None \<Rightarrow> (Some DeserializeFailed, r)
          | Some snapshot \<Rightarrow>
              (case db_Write db s (map (\<lambda>k. BatchPutOp k (the (snapshot k))) order) of
                 (Some e, s') \<Rightarrow> (Some (WriteFailed e), r\<lparr>rb_db := Some s'\<rparr>)
               | (None, s') \<Rightarrow> (None, r\<lparr>rb_db := Some s'\<rparr>))))"

definition rb_CreateCheckpoint :: "'s rocks_db \<Rightarrow> string \<Rightarrow> ('s, 'd) RocksDBStateBackend \<Rightarrow> rb_error option" where
  "rb_CreateCheckpoint db checkpointPath r =
    (case (rb_checkpoint r, rb_db r) of
       (True, Some s) \<Rightarrow> map_option CheckpointFailed (db_CreateCheckpoint db s checkpointPath)
     | _ \<Rightarrow> Some NotInitialized)"

definition rb_GetProperty :: "'s rocks_db \<Rightarrow> string \<Rightarrow> ('s, 'd) RocksDBStateBackend \<Rightarrow> string" where
  "rb_GetProperty db property r = (case rb_db r of None \<Rightarrow> [] | Some s \<Rightarrow> db_GetProperty db s property)"

definition rb_Flush :: "'s rocks_db \<Rightarrow> ('s, 'd) RocksDBStateBackend \<Rightarrow> rb_error option \<times> ('s, 'd) RocksDBStateBackend" where
  "rb_Flush db r =
    (case rb_db r of
       None \<Rightarrow> (Some NotInitialized, r)
     | Some s \<Rightarrow> (let (e, s') = db_Flush db s in (map_option FlushFailed e, r\<lparr>rb_db := Some s'\<rparr>)))"

definition rb_Compact :: "'s rocks_db \<Rightarrow> ('s, 'd) RocksDBStateBackend \<Rightarrow> rb_error option \<times> ('s, 'd) RocksDBStateBackend" where
  "rb_Compact db r =
    (case rb_db r of
       None \<Rightarrow> (Some NotInitialized, r)
     | Some s \<Rightarrow> (None, r\<lparr>rb_db := Some (db_CompactRange db s)\<rparr>))"

text \<open>Average and maximum in microseconds; the quotients of Go round to zero.\<close>

definition latency_stats :: "string \<Rightarrow> LatencyMetrics \<Rightarrow> (string \<times> int) list" where
  "latency_stats name m =
    (if sint (lm_count m) > 0
     then [(name @ ''_latency_avg_us'', (sint (lm_totalNanos m) sdiv sint (lm_count m)) sdiv 1000),
           (name @ ''_latency_max_us'', sint (lm_maxNanos m) sdiv 1000), (name @ ''_count'', sint (lm_count m))]
     else [])"

definition rb_GetMetrics :: "('s, 'd) RocksDBStateBackend \<Rightarrow> (string \<times> int) list" where
  "rb_GetMetrics r =
    [(''gets'', sint (rb_getCount r)), (''puts'', sint (rb_putCount r)), (''deletes'', sint (rb_deleteCount r)),
     (''batches'', sint (rb_batchCount r)), (''errors'', sint (rb_errorCount r))] @
    latency_stats ''get'' (rb_getLatency r) @ latency_stats ''put'' (rb_putLatency r) @ latency_stats ''batch'' (rb_batchLatency r)"

section \<open>Stored values read back\<close>

lemma PutUint64_length [simp]: "length (PutUint64 w) = 8"
  by (simp add: PutUint64_def)

lemma PutUint64_list: "PutUint64 w = [ucast (drop_bit 56 w), ucast (drop_bit 48 w), ucast (drop_bit 40 w), ucast (drop_bit 32 w),
    ucast (drop_bit 24 w), ucast (drop_bit 16 w), ucast (drop_bit 8 w), ucast w]"
  by (simp add: PutUint64_def upt_rec)

lemma next_byte: "push_bit 8 (drop_bit (k + 8) w) OR ucast (ucast (drop_bit k w) :: 8 word) = drop_bit k (w :: u64)"
proof (rule bit_word_eqI)
  fix n :: nat
  assume "n < LENGTH(64)"
  moreover have "k + 8 + (n - 8) = k + n" if "8 \<le> n" using that by simp
  ultimately show "bit (push_bit 8 (drop_bit (k + 8) w) OR ucast (ucast (drop_bit k w) :: 8 word)) n \<longleftrightarrow> bit (drop_bit k w) n"
    by (cases "n < 8") (auto simp: bit_simps)
qed

lemma Uint64_PutUint64: "Uint64 (PutUint64 w) = w"
proof -
  have "drop_bit 64 w = 0" by (rule bit_word_eqI) (auto simp: bit_simps dest: bit_imp_le_length)
  then have top: "ucast (ucast (drop_bit 56 w) :: 8 word) = drop_bit 56 w" using next_byte [of 56 w] by simp
  have "Uint64 (PutUint64 w) = fold (\<lambda>x w. push_bit 8 w OR ucast x) (PutUint64 w) 0" by (simp add: Uint64_def)
  also have "\<dots> = w"
    using next_byte [of 48 w] next_byte [of 40 w] next_byte [of 32 w] next_byte [of 24 w] next_byte [of 16 w] next_byte [of 8 w] next_byte [of 0 w]
    by (simp only: PutUint64_list fold_simps push_bit_of_0 or.left_neutral top) simp
  finally show ?thesis .
qed

text \<open>The time to live read back from a value, and the value itself.\<close>

definition expiry_of :: "gtime \<Rightarrow> duration \<Rightarrow> int" where
  "expiry_of now ttl = sint (word_of_int (time_Unix (time_Add now ttl)) :: u64)"

definition stored :: "bool \<Rightarrow> bytes \<Rightarrow> bytes \<times> int" where
  "stored enabled data = (if enabled then (drop 8 data, sint (Uint64 (take 8 data))) else (data, 0))"

definition seen_at :: "gtime \<Rightarrow> bytes \<times> int \<Rightarrow> bytes option" where
  "seen_at now x = (if snd x > 0 \<and> time_Unix now > snd x then None else Some (fst x))"

lemma stored_encode: "(enabled \<longrightarrow> 0 < ttl) \<Longrightarrow> stored enabled (encode_ttl enabled now ttl v) = (v, if enabled then expiry_of now ttl else 0)"
  by (simp add: stored_def encode_ttl_def expiry_of_def Uint64_PutUint64)

lemma encode_long: "enabled \<Longrightarrow> 0 < ttl \<Longrightarrow> 8 \<le> length (encode_ttl enabled now ttl v)"
  by (simp add: encode_ttl_def)

lemma decode_seen: "(enabled \<longrightarrow> 8 \<le> length data) \<Longrightarrow>
    (case decode_ttl enabled now data of Expired \<Rightarrow> None | Live v \<Rightarrow> Some v) = seen_at now (stored enabled data)"
  by (simp add: decode_ttl_def seen_at_def stored_def Let_def)

section \<open>The map that a backend stands for\<close>

datatype rb_op = PutTTL op_clock string bytes duration | Del string | BPut op_clock "string \<Rightarrow> gtime" "(string \<times> bytes) list" duration
  | BDel op_clock "string list" | GetOp op_clock string | BGet "string \<Rightarrow> gtime" "string list" | Deferred string | FlushOp | CompactOp

definition failed :: "('e + 'a) \<times> 's \<Rightarrow> 'e option \<times> 's" where
  "failed x = ((case fst x of Inl e \<Rightarrow> Some e | Inr _ \<Rightarrow> None), snd x)"

fun rb_run :: "'s rocks_db \<Rightarrow> rb_op \<Rightarrow> ('s, 'd) RocksDBStateBackend \<Rightarrow> rb_error option \<times> ('s, 'd) RocksDBStateBackend" where
  "rb_run db (PutTTL clk k v ttl) r = rb_PutWithTTL db clk k v ttl r"
| "rb_run db (Del k) r = rb_Delete db k r"
| "rb_run db (BPut clk now kvs ttl) r = rb_BatchPutWithTTL db clk now kvs ttl r"
| "rb_run db (BDel clk ks) r = rb_BatchDelete db clk ks r"
| "rb_run db (GetOp clk k) r = failed (rb_Get db clk k r)"
| "rb_run db (BGet now ks) r = failed (rb_BatchGet db now ks r)"
| "rb_run db (Deferred k) r = rb_deferred db k r"
| "rb_run db FlushOp r = rb_Flush db r"
| "rb_run db CompactOp r = rb_Compact db r"

fun positive_ttl :: "rb_op \<Rightarrow> bool" where
  "positive_ttl (PutTTL clk k v ttl) \<longleftrightarrow> 0 < ttl"
| "positive_ttl (BPut clk now kvs ttl) \<longleftrightarrow> 0 < ttl"
| "positive_ttl _ \<longleftrightarrow> True"

text \<open>The specification: a map to values with their expiry, zero for none, which only operations that succeed change.\<close>

fun spec_op :: "bool \<Rightarrow> rb_op \<Rightarrow> (string \<rightharpoonup> bytes \<times> int) \<Rightarrow> (string \<rightharpoonup> bytes \<times> int)" where
  "spec_op enabled (PutTTL clk k v ttl) m = m(k \<mapsto> (v, if enabled then expiry_of (oc_now clk) ttl else 0))"
| "spec_op enabled (Del k) m = m(k := None)"
| "spec_op enabled (BPut clk now kvs ttl) m = fold (\<lambda>(k, v) m. m(k \<mapsto> (v, if enabled then expiry_of (now k) ttl else 0))) kvs m"
| "spec_op enabled (BDel clk ks) m = fold (\<lambda>k m. m(k := None)) ks m"
| "spec_op enabled (Deferred k) m = m(k := None)"
| "spec_op enabled _ m = m"

fun rb_runs :: "'s rocks_db \<Rightarrow> rb_op list \<Rightarrow> ('s, 'd) RocksDBStateBackend \<times> rb_op list \<Rightarrow> ('s, 'd) RocksDBStateBackend \<times> rb_op list" where
  "rb_runs db [] (r, oks) = (r, oks)"
| "rb_runs db (op # ops) (r, oks) = (let (e, r') = rb_run db op r in rb_runs db ops (r', if e = None then oks @ [op] else oks))"

definition rb_entries :: "('s \<Rightarrow> string \<rightharpoonup> bytes) \<Rightarrow> ('s, 'd) RocksDBStateBackend \<Rightarrow> (string \<rightharpoonup> bytes)" where
  "rb_entries entries r = entries (the (rb_db r))"

definition rb_abs :: "('s \<Rightarrow> string \<rightharpoonup> bytes) \<Rightarrow> ('s, 'd) RocksDBStateBackend \<Rightarrow> (string \<rightharpoonup> bytes \<times> int)" where
  "rb_abs entries r = map_option (stored (rb_ttlEnabled r)) \<circ> rb_entries entries r"

definition rb_wf :: "('s \<Rightarrow> string \<rightharpoonup> bytes) \<Rightarrow> ('s, 'd) RocksDBStateBackend \<Rightarrow> bool" where
  "rb_wf entries r \<longleftrightarrow> rb_db r \<noteq> None \<and> (\<forall>k data. rb_entries entries r k = Some data \<longrightarrow> rb_ttlEnabled r \<longrightarrow> 8 \<le> length data)"

text \<open>An operation that only changes counters, latencies, the list of pending deletions and the database, and leaves the entries of
  the database as they are.\<close>

definition same_entries :: "('s \<Rightarrow> string \<rightharpoonup> bytes) \<Rightarrow> ('s, 'd) RocksDBStateBackend \<Rightarrow> ('s, 'd) RocksDBStateBackend \<Rightarrow> bool" where
  "same_entries entries r r' \<longleftrightarrow> rb_ttlEnabled r' = rb_ttlEnabled r \<and> (rb_db r' = None \<longleftrightarrow> rb_db r = None) \<and>
    (rb_db r \<noteq> None \<longrightarrow> rb_entries entries r' = rb_entries entries r)"

lemma same_entries_abs: "same_entries entries r r' \<Longrightarrow> rb_wf entries r \<Longrightarrow> rb_wf entries r' \<and> rb_abs entries r' = rb_abs entries r"
  by (auto simp: same_entries_def rb_wf_def rb_abs_def)

lemma batch_get_same: "same_entries entries r r0 \<Longrightarrow> same_entries entries r (snd (batch_get db s now keys result r0))"
proof (induction keys arbitrary: r0 result)
  case (Cons k keys)
  have "same_entries entries r (count_error r0)" "same_entries entries r (r0\<lparr>rb_pending := ps\<rparr>)" "same_entries entries r (r0\<lparr>rb_getCount := n\<rparr>)" for ps n
    using Cons.prems by (simp_all add: same_entries_def count_error_def rb_entries_def)
  then show ?case using Cons by (simp split: sum.splits option.splits ttl_decoded.splits)
qed simp

lemma BatchGet_same: "same_entries entries r (snd (rb_BatchGet db now keys r))"
  using batch_get_same [of entries r r db _ now keys Map.empty]
  by (auto simp: rb_BatchGet_def same_entries_def count_error_def rb_entries_def split: option.splits prod.splits) (metis snd_conv)+

lemma contract_put: "rocks_contract db entries \<Longrightarrow> entries (snd (db_Put db s k v)) = (if fst (db_Put db s k v) = None then (entries s)(k \<mapsto> v) else entries s)"
  and contract_delete: "rocks_contract db entries \<Longrightarrow> entries (snd (db_Delete db s k)) = (if fst (db_Delete db s k) = None then (entries s)(k := None) else entries s)"
  and contract_write: "rocks_contract db entries \<Longrightarrow> entries (snd (db_Write db s b)) = (if fst (db_Write db s b) = None then fold apply_batch b (entries s) else entries s)"
  and contract_get: "rocks_contract db entries \<Longrightarrow> db_Get db s k = Inr x \<Longrightarrow> x = entries s k"
  and contract_flush: "rocks_contract db entries \<Longrightarrow> entries (snd (db_Flush db s)) = entries s"
  and contract_compact: "rocks_contract db entries \<Longrightarrow> entries (db_CompactRange db s) = entries s"
  and contract_iterate: "rocks_contract db entries \<Longrightarrow> snd (db_Iterate db s) = None \<Longrightarrow> distinct (map fst (fst (db_Iterate db s))) \<and> map_of (fst (db_Iterate db s)) = entries s"
  by (simp_all add: rocks_contract_def)

lemma Get_result:
  assumes "rocks_contract db entries" "rb_wf entries r"
  shows "fst (rb_Get db clk k r) =
    (case db_Get db (the (rb_db r)) k of Inl e \<Rightarrow> Inl (GetFailed k e) | Inr _ \<Rightarrow> Inr (Option.bind (rb_abs entries r k) (seen_at (oc_now clk))))"
proof -
  obtain s where s: "rb_db r = Some s" using assms(2) by (auto simp: rb_wf_def)
  show ?thesis
  proof (cases "db_Get db s k")
    case (Inr v)
    then have v: "v = entries s k" by (rule contract_get [OF assms(1)])
    show ?thesis
    proof (cases v)
      case (Some data)
      then have "rb_ttlEnabled r \<longrightarrow> 8 \<le> length data" using assms(2) v s by (auto simp: rb_wf_def rb_entries_def)
      from decode_seen [OF this, of "oc_now clk"] show ?thesis using Inr Some v s
        by (auto simp: rb_Get_def rb_abs_def rb_entries_def split: ttl_decoded.splits)
    qed (use Inr v s in \<open>simp add: rb_Get_def rb_abs_def rb_entries_def\<close>)
  qed (simp add: rb_Get_def s)
qed

lemma Get_same: "same_entries entries r (snd (rb_Get db clk k r))"
  by (auto simp: rb_Get_def same_entries_def count_error_def rb_entries_def split: option.splits sum.splits ttl_decoded.splits)

text \<open>What a write does to the entries, when it fails and when it does not.\<close>

definition writes :: "('s \<Rightarrow> string \<rightharpoonup> bytes) \<Rightarrow> ((string \<rightharpoonup> bytes) \<Rightarrow> (string \<rightharpoonup> bytes)) \<Rightarrow> ('s, 'd) RocksDBStateBackend \<Rightarrow> rb_error option \<times> ('s, 'd) RocksDBStateBackend \<Rightarrow> bool" where
  "writes entries f r x \<longleftrightarrow> rb_ttlEnabled (snd x) = rb_ttlEnabled r \<and> rb_db (snd x) \<noteq> None \<and>
    rb_entries entries (snd x) = (if fst x = None then f (rb_entries entries r) else rb_entries entries r)"

lemma Put_writes:
  assumes "rocks_contract db entries" "rb_db r \<noteq> None"
  shows "writes entries (\<lambda>m. m(k \<mapsto> encode_ttl (rb_ttlEnabled r) (oc_now clk) ttl v)) r (rb_PutWithTTL db clk k v ttl r)"
proof -
  define d where "d = encode_ttl (rb_ttlEnabled r) (oc_now clk) ttl v"
  obtain s where s: "rb_db r = Some s" using assms(2) by auto
  obtain e s' where res: "db_Put db s k d = (e, s')" by fastforce
  show ?thesis unfolding d_def [symmetric] using contract_put [OF assms(1), of s k d]
    by (cases e) (auto simp: fun_eq_iff writes_def rb_PutWithTTL_def d_def [symmetric] count_error_def rb_entries_def s res)
qed

lemma Delete_writes:
  assumes "rocks_contract db entries" "rb_db r \<noteq> None"
  shows "writes entries (\<lambda>m. m(k := None)) r (rb_Delete db k r)"
proof -
  obtain s where s: "rb_db r = Some s" using assms(2) by auto
  obtain e s' where res: "db_Delete db s k = (e, s')" by fastforce
  show ?thesis using contract_delete [OF assms(1), of s k]
    by (cases e) (auto simp: fun_eq_iff writes_def rb_Delete_def count_error_def rb_entries_def s res)
qed

lemma BatchPut_writes:
  assumes "rocks_contract db entries" "rb_db r \<noteq> None"
  shows "writes entries (fold apply_batch (map (\<lambda>(k, v). BatchPutOp k (encode_ttl (rb_ttlEnabled r) (now k) ttl v)) kvs)) r (rb_BatchPutWithTTL db clk now kvs ttl r)"
proof -
  define b where "b = map (\<lambda>(k, v). BatchPutOp k (encode_ttl (rb_ttlEnabled r) (now k) ttl v)) kvs"
  obtain s where s: "rb_db r = Some s" using assms(2) by auto
  obtain e s' where res: "db_Write db s b = (e, s')" by fastforce
  show ?thesis unfolding b_def [symmetric] using contract_write [OF assms(1), of s b]
    by (cases e) (simp_all add: writes_def rb_BatchPutWithTTL_def b_def [symmetric] count_error_def rb_entries_def s res)
qed

lemma BatchDelete_writes:
  assumes "rocks_contract db entries" "rb_db r \<noteq> None"
  shows "writes entries (fold apply_batch (map BatchDeleteOp ks)) r (rb_BatchDelete db clk ks r)"
proof -
  obtain s where s: "rb_db r = Some s" using assms(2) by auto
  obtain e s' where res: "db_Write db s (map BatchDeleteOp ks) = (e, s')" by fastforce
  show ?thesis using contract_write [OF assms(1), of s "map BatchDeleteOp ks"]
    by (cases e) (simp_all add: writes_def rb_BatchDelete_def count_error_def rb_entries_def s res)
qed

lemma stored_put: "(rb_ttlEnabled r \<longrightarrow> 0 < ttl) \<Longrightarrow> map_option (stored (rb_ttlEnabled r)) \<circ> (rb_entries entries r)(k \<mapsto> encode_ttl (rb_ttlEnabled r) now ttl v) =
    (rb_abs entries r)(k \<mapsto> (v, if rb_ttlEnabled r then expiry_of now ttl else 0))"
  by (simp add: rb_abs_def fun_eq_iff stored_encode)

text \<open>A write whose effect on the entries keeps them long enough and corresponds to an effect on the map.\<close>

lemma writes_abs:
  assumes "writes entries f r x" "rb_wf entries r"
    and "map_option (stored (rb_ttlEnabled r)) \<circ> f (rb_entries entries r) = g (rb_abs entries r)"
    and "\<And>k data. f (rb_entries entries r) k = Some data \<Longrightarrow> rb_ttlEnabled r \<Longrightarrow> 8 \<le> length data"
  shows "rb_wf entries (snd x) \<and> rb_abs entries (snd x) = (if fst x = None then g (rb_abs entries r) else rb_abs entries r)"
  using assms by (auto simp: writes_def rb_wf_def rb_abs_def)

definition long_entries :: "bool \<Rightarrow> (string \<rightharpoonup> bytes) \<Rightarrow> bool" where
  "long_entries enabled m \<longleftrightarrow> (\<forall>k data. m k = Some data \<longrightarrow> enabled \<longrightarrow> 8 \<le> length data)"

lemma batch_put_abs:
  assumes "enabled \<longrightarrow> 0 < ttl"
  shows "long_entries enabled m \<Longrightarrow>
    long_entries enabled (fold apply_batch (map (\<lambda>(k, v). BatchPutOp k (encode_ttl enabled (now k) ttl v)) kvs) m) \<and>
    map_option (stored enabled) \<circ> fold apply_batch (map (\<lambda>(k, v). BatchPutOp k (encode_ttl enabled (now k) ttl v)) kvs) m =
      fold (\<lambda>(k, v) m. m(k \<mapsto> (v, if enabled then expiry_of (now k) ttl else 0))) kvs (map_option (stored enabled) \<circ> m)"
proof (induction kvs arbitrary: m)
  case (Cons x kvs)
  obtain k v where x: "x = (k, v)" by fastforce
  have long: "long_entries enabled (m(k \<mapsto> encode_ttl enabled (now k) ttl v))"
    using Cons.prems assms encode_long by (auto simp: long_entries_def)
  have abs: "map_option (stored enabled) \<circ> m(k \<mapsto> encode_ttl enabled (now k) ttl v) =
      (map_option (stored enabled) \<circ> m)(k \<mapsto> (v, if enabled then expiry_of (now k) ttl else 0))"
    by (simp add: fun_eq_iff stored_encode assms)
  show ?case using Cons.IH [OF long] unfolding abs by (simp only: x list.map fold_simps prod.case apply_batch.simps)
qed simp

lemma batch_delete_abs: "long_entries enabled m \<Longrightarrow> long_entries enabled (fold apply_batch (map BatchDeleteOp ks) m) \<and>
    map_option (stored enabled) \<circ> fold apply_batch (map BatchDeleteOp ks) m = fold (\<lambda>k m. m(k := None)) ks (map_option (stored enabled) \<circ> m)"
proof (induction ks arbitrary: m)
  case (Cons k ks)
  have long: "long_entries enabled (m(k := None))" using Cons.prems by (auto simp: long_entries_def)
  have abs: "map_option (stored enabled) \<circ> m(k := None) = (map_option (stored enabled) \<circ> m)(k := None)" by (simp add: fun_eq_iff)
  show ?case using Cons.IH [OF long] unfolding abs by (simp only: list.map fold_simps apply_batch.simps)
qed simp

lemma wf_long: "rb_wf entries r \<longleftrightarrow> rb_db r \<noteq> None \<and> long_entries (rb_ttlEnabled r) (rb_entries entries r)"
  by (auto simp: rb_wf_def long_entries_def)

lemma write_step:
  assumes w: "writes entries f r x" and wf: "rb_wf entries r"
    and "long_entries (rb_ttlEnabled r) (f (rb_entries entries r)) \<and> map_option (stored (rb_ttlEnabled r)) \<circ> f (rb_entries entries r) = g (rb_abs entries r)"
  shows "rb_wf entries (snd x) \<and> rb_ttlEnabled (snd x) = rb_ttlEnabled r \<and> rb_abs entries (snd x) = (if fst x = None then g (rb_abs entries r) else rb_abs entries r)"
  using writes_abs [OF w wf, of g] assms(3) w by (auto simp: long_entries_def writes_def)

lemma same_step:
  assumes "same_entries entries r r'" "rb_wf entries r"
  shows "rb_wf entries r' \<and> rb_ttlEnabled r' = rb_ttlEnabled r \<and> rb_abs entries r' = rb_abs entries r"
  using same_entries_abs [OF assms] assms(1) by (simp add: same_entries_def)

lemma run_step:
  assumes c: "rocks_contract db entries" and wf: "rb_wf entries r" and pos: "rb_ttlEnabled r \<longrightarrow> positive_ttl op"
  shows "rb_wf entries (snd (rb_run db op r)) \<and> rb_ttlEnabled (snd (rb_run db op r)) = rb_ttlEnabled r \<and>
    rb_abs entries (snd (rb_run db op r)) = (if fst (rb_run db op r) = None then spec_op (rb_ttlEnabled r) op (rb_abs entries r) else rb_abs entries r)"
proof -
  have some: "rb_db r \<noteq> None" and long: "long_entries (rb_ttlEnabled r) (rb_entries entries r)" using wf by (auto simp: wf_long)
  note abs = rb_abs_def [of entries r]
  show ?thesis
  proof (cases op)
    case (PutTTL clk k v ttl)
    then have ttl: "rb_ttlEnabled r \<longrightarrow> 0 < ttl" using pos by simp
    then have "long_entries (rb_ttlEnabled r) ((rb_entries entries r)(k \<mapsto> encode_ttl (rb_ttlEnabled r) (oc_now clk) ttl v))"
      using long encode_long by (auto simp: long_entries_def)
    then show ?thesis using write_step [where g = "spec_op (rb_ttlEnabled r) op", OF Put_writes [OF c some, where k = k and clk = clk and ttl = ttl and v = v] wf] stored_put [OF ttl, of entries k "oc_now clk" v]
      by (simp add: PutTTL)
  next
    case (Del k)
    have "long_entries (rb_ttlEnabled r) ((rb_entries entries r)(k := None))" using long by (simp add: long_entries_def)
    moreover have "map_option (stored (rb_ttlEnabled r)) \<circ> (rb_entries entries r)(k := None) = (rb_abs entries r)(k := None)"
      by (simp add: rb_abs_def fun_eq_iff)
    ultimately show ?thesis using write_step [where g = "spec_op (rb_ttlEnabled r) op", OF Delete_writes [OF c some, where k = k] wf] by (simp add: Del)
  next
    case (Deferred k)
    let ?r = "r\<lparr>rb_pending := remove1 k (rb_pending r)\<rparr>"
    have r: "rb_wf entries ?r" "rb_db ?r \<noteq> None" "rb_abs entries ?r = rb_abs entries r" "rb_entries entries ?r = rb_entries entries r"
      using wf some by (simp_all add: rb_wf_def rb_abs_def rb_entries_def)
    have "long_entries (rb_ttlEnabled r) ((rb_entries entries r)(k := None))" using long by (simp add: long_entries_def)
    moreover have "map_option (stored (rb_ttlEnabled r)) \<circ> (rb_entries entries r)(k := None) = (rb_abs entries r)(k := None)"
      by (simp add: rb_abs_def fun_eq_iff)
    ultimately show ?thesis using write_step [where g = "spec_op (rb_ttlEnabled r) op", OF Delete_writes [OF c r(2), where k = k] r(1)] r
      by (simp add: Deferred rb_deferred_def)
  next
    case (BPut clk now kvs ttl)
    then have ttl: "rb_ttlEnabled r \<longrightarrow> 0 < ttl" using pos by simp
    show ?thesis using write_step [where g = "spec_op (rb_ttlEnabled r) op", OF BatchPut_writes [OF c some, where now = now and ttl = ttl and kvs = kvs and clk = clk] wf] batch_put_abs [OF ttl long]
      by (simp add: BPut abs)
  next
    case (BDel clk ks)
    show ?thesis using write_step [where g = "spec_op (rb_ttlEnabled r) op", OF BatchDelete_writes [OF c some, where ks = ks and clk = clk] wf] batch_delete_abs [OF long]
      by (simp add: BDel abs)
  next
    case (GetOp clk k)
    show ?thesis using same_step [OF Get_same wf] by (simp add: GetOp failed_def)
  next
    case (BGet now ks)
    show ?thesis using same_step [OF BatchGet_same wf] by (simp add: BGet failed_def)
  next
    case FlushOp
    have "same_entries entries r (snd (rb_Flush db r))"
      using contract_flush [OF c] by (auto simp: rb_Flush_def same_entries_def rb_entries_def split_beta Let_def split: option.splits)
    from same_step [OF this wf] show ?thesis by (simp add: FlushOp)
  next
    case CompactOp
    have "same_entries entries r (snd (rb_Compact db r))"
      using contract_compact [OF c] by (auto simp: rb_Compact_def same_entries_def rb_entries_def split: option.splits)
    from same_step [OF this wf] show ?thesis by (simp add: CompactOp)
  qed
qed

lemma runs_spec:
  assumes c: "rocks_contract db entries"
  shows "rb_wf entries r \<Longrightarrow> rb_ttlEnabled r \<longrightarrow> list_all positive_ttl ops \<Longrightarrow> rb_abs entries r = fold (spec_op (rb_ttlEnabled r)) oks m \<Longrightarrow>
    rb_runs db ops (r, oks) = (r', oks') \<Longrightarrow>
    rb_wf entries r' \<and> rb_ttlEnabled r' = rb_ttlEnabled r \<and> rb_abs entries r' = fold (spec_op (rb_ttlEnabled r)) oks' m"
proof (induction ops arbitrary: r oks)
  case (Cons op ops)
  obtain e r1 where run: "rb_run db op r = (e, r1)" by fastforce
  have step: "rb_wf entries r1 \<and> rb_ttlEnabled r1 = rb_ttlEnabled r \<and>
      rb_abs entries r1 = (if e = None then spec_op (rb_ttlEnabled r) op (rb_abs entries r) else rb_abs entries r)"
    using run_step [OF c Cons.prems(1), of op] Cons.prems(2) run by auto
  then have "rb_abs entries r1 = fold (spec_op (rb_ttlEnabled r1)) (if e = None then oks @ [op] else oks) m" using Cons.prems(3) by simp
  then show ?case using Cons.IH [of r1 "if e = None then oks @ [op] else oks"] step Cons.prems(2,4) run by (auto split: if_splits)
qed auto


text \<open>A database in memory that never fails and keeps a list of the keys it holds.\<close>

definition example_db :: "(string \<times> bytes) list rocks_db" where
  "example_db = \<lparr>db_Get = (\<lambda>s k. Inr (map_of s k)), db_Put = (\<lambda>s k v. (None, (k, v) # filter (\<lambda>x. fst x \<noteq> k) s)),
     db_Delete = (\<lambda>s k. (None, filter (\<lambda>x. fst x \<noteq> k) s)),
     db_Write = (\<lambda>s b. (None, fold (\<lambda>oper s. case oper of BatchPutOp k v \<Rightarrow> (k, v) # filter (\<lambda>x. fst x \<noteq> k) s
        | BatchDeleteOp k \<Rightarrow> filter (\<lambda>x. fst x \<noteq> k) s) b s)),
     db_Iterate = (\<lambda>s. (map (\<lambda>k. (k, the (map_of s k))) (remdups (map fst s)), None)), db_GetProperty = (\<lambda>s p. []),
     db_CreateCheckpoint = (\<lambda>s p. None), db_Flush = (\<lambda>s. (None, s)), db_CompactRange = (\<lambda>s. s)\<rparr>"

lemma map_of_remove_key: "map_of (filter (\<lambda>x. fst x \<noteq> k) s) = (map_of s)(k := None)"
  by (induction s) (auto simp: fun_eq_iff)

lemma example_write: "map_of (fold (\<lambda>oper s. case oper of BatchPutOp k v \<Rightarrow> (k, v) # filter (\<lambda>x. fst x \<noteq> k) s
     | BatchDeleteOp k \<Rightarrow> filter (\<lambda>x. fst x \<noteq> k) s) b s) = fold apply_batch b (map_of s)"
proof (induction b arbitrary: s)
  case (Cons x b)
  have "map_of (case x of BatchPutOp k v \<Rightarrow> (k, v) # filter (\<lambda>x. fst x \<noteq> k) s | BatchDeleteOp k \<Rightarrow> filter (\<lambda>x. fst x \<noteq> k) s) = apply_batch x (map_of s)"
    by (cases x) (auto simp: map_of_remove_key fun_eq_iff)
  then show ?case by (simp only: fold_simps Cons.IH)
qed simp

lemma example_contract: "rocks_contract example_db map_of"
proof -
  have "map_of (map (\<lambda>k. (k, the (map_of s k))) (remdups (map fst s))) = map_of s" for s :: "(string \<times> bytes) list"
  proof
    fix k
    show "map_of (map (\<lambda>k. (k, the (map_of s k))) (remdups (map fst s))) k = map_of s k"
      using map_of_eq_None_iff [of s k] by (cases "map_of s k") (auto simp: map_of_map_restrict restrict_map_def)
  qed
  then show ?thesis
    by (simp add: rocks_contract_def example_db_def map_of_remove_key example_write comp_def)
qed


section \<open>Batched reads\<close>

lemma batch_get_results:
  assumes "rb_db r = Some s"
  shows "rb_db r0 = Some s \<Longrightarrow> rb_ttlEnabled r0 = rb_ttlEnabled r \<Longrightarrow> \<forall>k. oc_now (clk k) = now k \<Longrightarrow>
    fst (batch_get db s now keys result r0) k =
      (case if k \<in> set keys then fst (rb_Get db (clk k) k r) else Inr None of Inr (Some v) \<Rightarrow> Some v | _ \<Rightarrow> result k)"
proof (induction keys arbitrary: result r0)
  case (Cons key keys)
  note IH = Cons.IH [of "count_error r0"] Cons.IH [of r0] Cons.IH [of "r0\<lparr>rb_pending := rb_pending r0 @ [key]\<rparr>"] Cons.IH [of "r0\<lparr>rb_getCount := rb_getCount r0 + 1\<rparr>"]
  show ?case
  proof (cases "db_Get db s key")
    case (Inl e)
    then show ?thesis using IH(1) Cons.prems assms by (auto simp: rb_Get_def count_error_def)
  next
    case (Inr v)
    show ?thesis
    proof (cases v)
      case None
      then show ?thesis using Inr IH(2) Cons.prems assms by (auto simp: rb_Get_def)
    next
      case (Some data)
      show ?thesis
      proof (cases "decode_ttl (rb_ttlEnabled r) (now key) data")
        case Expired
        then show ?thesis using Inr Some IH(3) Cons.prems assms by (auto simp: rb_Get_def)
      next
        case (Live d)
        then show ?thesis using Inr Some IH(4) Cons.prems assms by (auto simp: rb_Get_def split: sum.splits option.splits)
      qed
    qed
  qed
qed simp

text \<open>A batched read gives for each key what a single read gives, and nothing for the keys whose read fails.\<close>

theorem batch_get_is_gets:
  assumes "rb_db r = Some s" "\<forall>k. oc_now (clk k) = now k"
  shows "\<exists>res. fst (rb_BatchGet db now keys r) = Inr res \<and>
    (\<forall>k. res k = (if k \<in> set keys then (case fst (rb_Get db (clk k) k r) of Inr v \<Rightarrow> v | Inl _ \<Rightarrow> None) else None))"
proof -
  have "fst (batch_get db s now keys Map.empty r) k = (if k \<in> set keys then (case fst (rb_Get db (clk k) k r) of Inr v \<Rightarrow> v | Inl _ \<Rightarrow> None) else None)" for k
    using batch_get_results [OF assms(1) assms(1) refl assms(2), of db keys Map.empty k] by (auto split: sum.splits option.splits)
  then show ?thesis using assms(1) by (simp add: rb_BatchGet_def split_beta Let_def)
qed

section \<open>The contract of a state backend\<close>

text \<open>On a database whose calls succeed the backend keeps the contract of \<open>Memory_State\<close>, with an expiry in whole seconds.\<close>

definition reliable :: "'s rocks_db \<Rightarrow> bool" where
  "reliable db \<longleftrightarrow> (\<forall>s k v. fst (db_Put db s k v) = None) \<and> (\<forall>s k. fst (db_Delete db s k) = None) \<and> (\<forall>s k. \<exists>v. db_Get db s k = Inr v)"

definition rb_good :: "'s rocks_db \<Rightarrow> ('s \<Rightarrow> string \<rightharpoonup> bytes) \<Rightarrow> bool \<Rightarrow> duration \<Rightarrow> ('s, 'd) RocksDBStateBackend \<Rightarrow> bool" where
  "rb_good db entries enabled ttl r \<longleftrightarrow> rocks_contract db entries \<and> reliable db \<and> rb_wf entries r \<and> rb_ttlEnabled r = enabled \<and>
    rb_defaultTTL r = ttl \<and> (enabled \<longrightarrow> 0 < ttl)"

definition rb_view :: "('s \<Rightarrow> string \<rightharpoonup> bytes) \<Rightarrow> gtime \<Rightarrow> ('s, 'd) RocksDBStateBackend \<Rightarrow> string \<Rightarrow> bytes option" where
  "rb_view entries t r k = Option.bind (rb_abs entries r k) (seen_at t)"

definition rb_fresh :: "bool \<Rightarrow> duration \<Rightarrow> gtime \<Rightarrow> gtime \<Rightarrow> bool" where
  "rb_fresh enabled ttl now t \<longleftrightarrow> \<not> enabled \<or> expiry_of now ttl \<le> 0 \<or> time_Unix t \<le> expiry_of now ttl"

fun op_of :: "duration \<Rightarrow> backend_op \<Rightarrow> rb_op" where
  "op_of ttl (PutOp now k v) = PutTTL \<lparr>oc_now = now, oc_since = 0, oc_end = now\<rparr> k v ttl"
| "op_of ttl (DeleteOp k) = Del k"
| "op_of ttl (TickOp now) = CompactOp"

definition rb_perform :: "'s rocks_db \<Rightarrow> backend_op \<Rightarrow> ('s, 'd) RocksDBStateBackend \<Rightarrow> ('s, 'd) RocksDBStateBackend" where
  "rb_perform db op r = snd (rb_run db (op_of (rb_defaultTTL r) op) r)"

lemma reliable_run: "reliable db \<Longrightarrow> rb_db r \<noteq> None \<Longrightarrow> fst (rb_run db (op_of ttl op) r) = None"
  by (cases op, auto simp: reliable_def rb_PutWithTTL_def rb_Delete_def rb_Compact_def split: option.splits prod.splits)
    (metis fst_conv option.distinct(1))+

lemma run_defaultTTL: "rb_defaultTTL (snd (rb_run db (op_of ttl op) r)) = rb_defaultTTL r"
  by (cases op) (auto simp: rb_PutWithTTL_def rb_Delete_def rb_Compact_def count_error_def split: option.splits prod.splits)

lemma perform_abs: "rb_good db entries enabled ttl r \<Longrightarrow> rb_good db entries enabled ttl (rb_perform db op r) \<and>
    rb_abs entries (rb_perform db op r) = spec_op enabled (op_of ttl op) (rb_abs entries r)"
proof -
  assume good: "rb_good db entries enabled ttl r"
  then have "rb_ttlEnabled r \<longrightarrow> positive_ttl (op_of ttl op)" by (cases op) (auto simp: rb_good_def)
  moreover have "rb_db r \<noteq> None" using good by (simp add: rb_good_def rb_wf_def)
  ultimately show ?thesis using good run_step [of db entries r "op_of ttl op"] reliable_run [of db r ttl op]
    by (auto simp: rb_good_def rb_perform_def run_defaultTTL)
qed

interpretation rb: state_backend "rb_good db entries enabled ttl" "rb_view entries" "rb_fresh enabled ttl" "rb_perform db"
  for db :: "'s rocks_db" and entries enabled ttl
proof
  fix s :: "('s, 'd) RocksDBStateBackend" and op and t now :: gtime and k j :: string and v :: bytes
  assume good: "rb_good db entries enabled ttl s"
  note abs = perform_abs [OF good]
  show "rb_good db entries enabled ttl (rb_perform db op s)" using abs by simp
  show "rb_view entries t (rb_perform db (PutOp now k v) s) j = (if j = k then (if rb_fresh enabled ttl now t then Some v else None) else rb_view entries t s j)"
    using abs [of "PutOp now k v"] by (simp add: rb_view_def rb_fresh_def seen_at_def not_le)
  show "rb_view entries t (rb_perform db (DeleteOp k) s) j = (if j = k then None else rb_view entries t s j)"
    using abs [of "DeleteOp k"] by (simp add: rb_view_def)
  show "rb_view entries t (rb_perform db (TickOp now) s) = rb_view entries t s"
    using abs [of "TickOp now"] by (simp add: rb_view_def fun_eq_iff)
qed

text \<open>The last write of a key decides what is read of it.\<close>

theorem rocksdb_last_write:
  assumes "rb_good db entries enabled ttl r" "list_all (at_or_before (oc_now clk)) ops"
  shows "fst (rb_Get db clk k (fold (rb_perform db) ops r)) =
    Inr (case filter (about k) ops of
           [] \<Rightarrow> rb_view entries (oc_now clk) r k
         | os \<Rightarrow> (case last os of PutOp now j v \<Rightarrow> if rb_fresh enabled ttl now (oc_now clk) then Some v else None | _ \<Rightarrow> None))"
proof -
  let ?r = "fold (rb_perform db) ops r"
  have run: "rb_good db entries enabled ttl ?r" "rb_view entries (oc_now clk) ?r k = rb.last_write enabled ttl (oc_now clk) ops k (rb_view entries (oc_now clk) r k)"
    using rb.run_view [OF assms] by auto
  then obtain v where "db_Get db (the (rb_db ?r)) k = Inr v" by (metis rb_good_def reliable_def)
  then have "fst (rb_Get db clk k ?r) = Inr (rb_view entries (oc_now clk) ?r k)"
    using run(1) Get_result [of db entries ?r clk k] by (simp add: rb_good_def rb_view_def)
  then show ?thesis unfolding run(2) rb.last_write_def .
qed

section \<open>Snapshots\<close>

lemma snapshot_fold: "distinct (map fst kvs) \<Longrightarrow> fold (\<lambda>(k, v) m. m(k \<mapsto> f v)) kvs m j = (case map_of kvs j of None \<Rightarrow> m j | Some v \<Rightarrow> Some (f v))"
proof (induction kvs arbitrary: m)
  case (Cons x kvs)
  obtain k v where x: "x = (k, v)" by fastforce
  have "map_of kvs k = None" using Cons.prems x by (simp add: map_of_eq_None_iff)
  then show ?case using Cons x by (simp split: option.split)
qed simp

lemma restore_fold: "fold apply_batch (map (\<lambda>k. BatchPutOp k (the (snap k))) order) m = (\<lambda>k. if k \<in> set order then Some (the (snap k)) else m k)"
  by (induction order arbitrary: m) (auto simp: fun_eq_iff)

text \<open>A snapshot restored into a backend, without times to live in both, adds exactly the entries of the snapshot: keys that
  the snapshot does not have keep their values.\<close>

theorem rocksdb_snapshot_restore:
  assumes "rocks_contract db entries" "rb_wf entries r" "rb_wf entries target" "\<not> rb_ttlEnabled r" "\<not> rb_ttlEnabled target"
    and "\<And>m data. marshal m = Some data \<Longrightarrow> unmarshal data = Some m"
    and "fst (rb_Snapshot db marshal r) = Inr data" "unmarshal data = Some snap" "range_order order snap"
    and "rb_Restore db unmarshal order data target = (None, target')"
  shows "rb_abs entries target' = rb_abs entries target ++ rb_abs entries r"
proof -
  obtain s t where db: "rb_db r = Some s" "rb_db target = Some t" using assms(2,3) by (auto simp: rb_wf_def)
  obtain kvs where kvs: "db_Iterate db s = (kvs, None)" and m: "marshal (snapshot_entries False kvs) = Some data"
    using assms(4,7) db by (auto simp: rb_Snapshot_def split: prod.splits option.splits)
  have "snap = snapshot_entries False kvs" using assms(6) [OF m] assms(8) by simp
  also have "\<dots> = entries s"
    using snapshot_fold [of kvs "\<lambda>v. v" Map.empty] contract_iterate [OF assms(1), of s] kvs
    by (auto simp: snapshot_entries_def strip_ttl_def split: option.splits)
  finally have snap: "snap = entries s" .
  obtain t' where w: "db_Write db t (map (\<lambda>k. BatchPutOp k (the (snap k))) order) = (None, t')" "target' = target\<lparr>rb_db := Some t'\<rparr>"
    using assms(8,10) db by (auto simp: rb_Restore_def split: prod.splits option.splits)
  have "entries t' = (\<lambda>k. if k \<in> set order then Some (the (snap k)) else entries t k)"
    using contract_write [OF assms(1), of t "map (\<lambda>k. BatchPutOp k (the (snap k))) order"] w(1) by (simp add: restore_fold)
  moreover have "set order = dom (entries s)" using assms(9) snap by (simp add: range_order_def)
  ultimately have "entries t' k = (entries t ++ entries s) k" for k by (auto simp: snap map_add_def split: option.splits)
  then show ?thesis using assms(4,5) db w(2) by (simp add: rb_abs_def rb_entries_def fun_eq_iff map_add_def stored_def split: option.split)
qed

text \<open>With times to live a snapshot drops the expiry of a value, and restoring writes the value without one: the next read takes the
  first eight bytes of the value for it.\<close>

lemma restored_value_truncated:
  assumes "8 \<le> length v" "sint (Uint64 (take 8 v)) \<le> 0"
  shows "strip_ttl True (encode_ttl True now' ttl v) = (if 0 < ttl then v else drop 8 v) \<and> decode_ttl True now v = Live (drop 8 v)"
  using assms by (simp add: strip_ttl_def encode_ttl_def decode_ttl_def)

text \<open>A value stored without a time to live, while they are enabled, loses its first eight bytes when it is read.\<close>

lemma put_without_ttl_truncated:
  "fst (rb_Get example_db clk ''k'' (snd (rb_PutWithTTL example_db clk ''k'' [0, 0, 0, 0, 0, 0, 0, 0, 9] 0
     (r\<lparr>rb_db := Some [], rb_ttlEnabled := True\<rparr>)))) = Inr (Some [9])"
  by (simp add: rb_Get_def rb_PutWithTTL_def example_db_def encode_ttl_def decode_ttl_def Uint64_def)

text \<open>A read that finds a key expired deletes it later, and with it a value that was put meanwhile.\<close>

lemma deferred_delete_removes_new_value:
  assumes "rb_pending r = [k]" "rb_db r = Some s"
  shows "fst (rb_Get example_db clk k (snd (rb_deferred example_db k (snd (rb_PutWithTTL example_db clk' k v ttl r))))) = Inr None"
  using assms by (simp add: rb_Get_def rb_PutWithTTL_def rb_deferred_def rb_Delete_def example_db_def Let_def map_of_remove_key)

section \<open>Latencies\<close>

lemma trackLatency_step:
  assumes "0 \<le> oc_since c" "oc_since c < 2 ^ 63"
  shows "lm_count (trackLatency c m) = lm_count m + 1" "sint (lm_maxNanos (trackLatency c m)) = max (oc_since c) (sint (lm_maxNanos m))"
proof -
  have "sint (word_of_int (oc_since c) :: i64) = oc_since c" using assms by (simp add: sint_sbintrunc' signed_take_bit_int_eq_self)
  then show "lm_count (trackLatency c m) = lm_count m + 1" "sint (lm_maxNanos (trackLatency c m)) = max (oc_since c) (sint (lm_maxNanos m))"
    by (auto simp: trackLatency_def Let_def)
qed

text \<open>The maximum is the greatest of the measured times, as signed numbers, and the count the number of them.\<close>

theorem latency_maximum:
  assumes "\<forall>c \<in> set clks. 0 \<le> oc_since c \<and> oc_since c < 2 ^ 63"
  shows "sint (lm_maxNanos (fold trackLatency clks no_latency)) = fold max (map oc_since clks) 0 \<and>
    lm_count (fold trackLatency clks no_latency) = of_nat (length clks)"
  using assms
proof (induction clks rule: rev_induct)
  case (snoc c clks)
  then show ?case by (simp add: trackLatency_step ac_simps)
qed (simp add: no_latency_def)

end
