(* ===== verification/Rocks_Locks.thy ===== *)
theory Rocks_Locks
  imports Rocks_State Complex_Main
begin

text \<open>
  Locking and closing of the RocksDB backend. Every operation of \<open>pkg/state/rocksdb.go\<close> takes the read-write lock \<open>mu\<close>; the model keeps of
  a running operation the lock calls it still has to make. \<open>Close\<close> of an open backend calls \<open>GetDetailedMetrics\<close>, which takes
  the lock for reading, while it holds the lock for writing itself.
\<close>

section \<open>Metrics and closing\<close>

record op_counts =
  oc_gets :: i64
  oc_puts :: i64
  oc_deletes :: i64
  oc_batches :: i64
  oc_errors :: i64

record latency_detail =
  ld_count :: int
  ld_avg_us :: int
  ld_max_us :: int
  ld_avg_ms :: rat
  ld_max_ms :: rat

record detailed_metrics =
  dm_operations :: op_counts
  dm_get_latency :: "latency_detail option"
  dm_put_latency :: "latency_detail option"
  dm_batch_latency :: "latency_detail option"
  dm_path :: string
  dm_preset :: PerformancePreset

definition latency_detail_of :: "LatencyMetrics \<Rightarrow> latency_detail option" where
  "latency_detail_of m =
    (if sint (lm_count m) > 0
     then (let avgNanos = sint (lm_totalNanos m) sdiv sint (lm_count m); maxNanos = sint (lm_maxNanos m)
           in Some \<lparr>ld_count = sint (lm_count m), ld_avg_us = avgNanos sdiv 1000, ld_max_us = maxNanos sdiv 1000,
                ld_avg_ms = of_int avgNanos / 1000000, ld_max_ms = of_int maxNanos / 1000000\<rparr>)
     else None)"

definition GetDetailedMetrics :: "('s, 'd) RocksDBStateBackend \<Rightarrow> detailed_metrics" where
  "GetDetailedMetrics r =
    \<lparr>dm_operations = \<lparr>oc_gets = rb_getCount r, oc_puts = rb_putCount r, oc_deletes = rb_deleteCount r, oc_batches = rb_batchCount r,
       oc_errors = rb_errorCount r\<rparr>, dm_get_latency = latency_detail_of (rb_getLatency r), dm_put_latency = latency_detail_of (rb_putLatency r),
     dm_batch_latency = latency_detail_of (rb_batchLatency r), dm_path = rb_path r, dm_preset = rb_preset r\<rparr>"

text \<open>What \<open>Close\<close> leaves if it were to run to its end, with the metrics it logs.\<close>

definition rb_Close :: "('s, 'd) RocksDBStateBackend \<Rightarrow> detailed_metrics option \<times> ('s, 'd) RocksDBStateBackend" where
  "rb_Close r =
    (case rb_db r of
       None \<Rightarrow> (None, r)
     | Some s \<Rightarrow> (Some (GetDetailedMetrics r), r\<lparr>rb_checkpoint := False, rb_prefixExtractor := None, rb_db := None, rb_opts := None\<rparr>))"

section \<open>Locks\<close>

datatype lock_call = Lock | Unlock | RLock | RUnlock

definition reading :: "lock_call list" where "reading = [RLock, RUnlock]"

definition writing :: "lock_call list" where "writing = [Lock, Unlock]"

text \<open>\<open>Close\<close> calls \<open>GetDetailedMetrics\<close> when the database is open; its deferred \<open>Unlock\<close> is its last call.\<close>

definition Close_calls :: "('s, 'd) RocksDBStateBackend \<Rightarrow> lock_call list" where
  "Close_calls r = (if rb_db r = None then [Lock, Unlock] else [Lock] @ reading @ [Unlock])"

text \<open>A state: whether a writer has the lock, the number of readers, and the calls the operations still have to make. A waiting
  writer does not keep readers out here, so there are more runs than in Go.\<close>

record locking =
  lk_writer :: bool
  lk_readers :: nat
  lk_calls :: "lock_call list list"

fun lock_enabled :: "lock_call \<Rightarrow> locking \<Rightarrow> bool" where
  "lock_enabled Lock s \<longleftrightarrow> \<not> lk_writer s \<and> lk_readers s = 0"
| "lock_enabled RLock s \<longleftrightarrow> \<not> lk_writer s"
| "lock_enabled _ s \<longleftrightarrow> True"

fun lock_effect :: "lock_call \<Rightarrow> locking \<Rightarrow> locking" where
  "lock_effect Lock s = s\<lparr>lk_writer := True\<rparr>"
| "lock_effect Unlock s = s\<lparr>lk_writer := False\<rparr>"
| "lock_effect RLock s = s\<lparr>lk_readers := lk_readers s + 1\<rparr>"
| "lock_effect RUnlock s = s\<lparr>lk_readers := lk_readers s - 1\<rparr>"

inductive lock_step :: "locking \<Rightarrow> locking \<Rightarrow> bool" where
  call: "j < length (lk_calls s) \<Longrightarrow> lk_calls s ! j = c # cs \<Longrightarrow> lock_enabled c s \<Longrightarrow>
    lock_step s (lock_effect c (s\<lparr>lk_calls := (lk_calls s)[j := cs]\<rparr>))"

text \<open>Operations that may run: any number of reading and writing ones and closings, one after another in each goroutine.\<close>

definition lock_program :: "lock_call list \<Rightarrow> bool" where
  "lock_program cs \<longleftrightarrow> (\<exists>ps. set ps \<subseteq> {reading, writing} \<and> cs = concat ps)"

definition lock_init :: "nat \<Rightarrow> lock_call list \<Rightarrow> locking \<Rightarrow> bool" where
  "lock_init i close s \<longleftrightarrow> \<not> lk_writer s \<and> lk_readers s = 0 \<and> i < length (lk_calls s) \<and> lk_calls s ! i = close \<and>
    (\<forall>j < length (lk_calls s). j \<noteq> i \<longrightarrow> lock_program (lk_calls s ! j))"

section \<open>Closing never returns\<close>

text \<open>A goroutine is inside when its next call gives the lock back.\<close>

definition in_read :: "lock_call list \<Rightarrow> bool" where
  "in_read cs \<longleftrightarrow> (\<exists>rest. cs = RUnlock # rest \<and> lock_program rest)"

definition in_write :: "lock_call list \<Rightarrow> bool" where
  "in_write cs \<longleftrightarrow> (\<exists>rest. cs = Unlock # rest \<and> lock_program rest)"

definition close_inside :: "lock_call list" where "close_inside = [RLock, RUnlock, Unlock]"

definition readers :: "nat \<Rightarrow> locking \<Rightarrow> nat set" where
  "readers i s = {j. j < length (lk_calls s) \<and> j \<noteq> i \<and> in_read (lk_calls s ! j)}"

definition writers :: "nat \<Rightarrow> locking \<Rightarrow> nat set" where
  "writers i s = {j. j < length (lk_calls s) \<and> (if j = i then lk_calls s ! j = close_inside else in_write (lk_calls s ! j))}"

definition lock_ok :: "nat \<Rightarrow> locking \<Rightarrow> bool" where
  "lock_ok i s \<longleftrightarrow> i < length (lk_calls s) \<and> lk_calls s ! i \<in> {Lock # close_inside, close_inside} \<and>
    (\<forall>j < length (lk_calls s). j \<noteq> i \<longrightarrow> lock_program (lk_calls s ! j) \<or> in_read (lk_calls s ! j) \<or> in_write (lk_calls s ! j)) \<and>
    lk_readers s = card (readers i s) \<and> (if lk_writer s then (\<exists>j. writers i s = {j}) \<and> readers i s = {} else writers i s = {})"

lemma program_cases: "lock_program cs \<Longrightarrow> cs = [] \<or> (\<exists>rest. lock_program rest \<and> (cs = RLock # RUnlock # rest \<or> cs = Lock # Unlock # rest))"
proof -
  assume "lock_program cs"
  then obtain ps where ps: "set ps \<subseteq> {reading, writing}" "cs = concat ps" by (auto simp: lock_program_def)
  show ?thesis
  proof (cases ps)
    case (Cons p qs)
    then have "lock_program (concat qs)" using ps(1) by (auto simp: lock_program_def)
    moreover have "p = reading \<or> p = writing" using ps(1) Cons by auto
    ultimately show ?thesis using ps(2) Cons by (auto simp: reading_def writing_def)
  qed (use ps in simp)
qed

lemma program_outside: "lock_program cs \<Longrightarrow> \<not> in_read cs \<and> \<not> in_write cs"
  by (drule program_cases) (auto simp: in_read_def in_write_def)

lemma next_program:
  assumes "lock_program (c # cs) \<or> in_read (c # cs) \<or> in_write (c # cs)"
  shows "(c = RLock \<and> in_read cs \<and> lock_program (c # cs)) \<or> (c = Lock \<and> in_write cs \<and> lock_program (c # cs)) \<or>
    (c = RUnlock \<and> lock_program cs \<and> in_read (c # cs)) \<or> (c = Unlock \<and> lock_program cs \<and> in_write (c # cs))"
  using assms
proof (elim disjE)
  assume p: "lock_program (c # cs)"
  then show ?thesis using program_cases [OF p] by (auto simp: in_read_def in_write_def)
qed (auto simp: in_read_def in_write_def)

lemma lock_init_ok: "lock_init i (Lock # close_inside) s \<Longrightarrow> lock_ok i s"
  by (auto simp: lock_init_def lock_ok_def readers_def writers_def close_inside_def dest: program_outside)

text \<open>How the sets of goroutines inside change with one of them.\<close>

lemma readers_update: "j < length (lk_calls s) \<Longrightarrow> j \<noteq> i \<Longrightarrow>
    readers i (s\<lparr>lk_calls := (lk_calls s)[j := cs]\<rparr>) = (if in_read cs then insert j (readers i s) else readers i s - {j})"
  by (auto simp: readers_def nth_list_update)

lemma writers_update: "j < length (lk_calls s) \<Longrightarrow> j \<noteq> i \<Longrightarrow>
    writers i (s\<lparr>lk_calls := (lk_calls s)[j := cs]\<rparr>) = (if in_write cs then insert j (writers i s) else writers i s - {j})"
  by (auto simp: writers_def nth_list_update)

lemma effect_calls [simp]: "lk_calls (lock_effect c s) = lk_calls s" "readers i (lock_effect c s) = readers i s" "writers i (lock_effect c s) = writers i s"
  by (cases c; simp add: readers_def writers_def)+

lemma finite_readers [simp]: "finite (readers i s)"
  by (simp add: readers_def)

lemma lock_ok_step:
  assumes ok: "lock_ok i s" and "lock_step s t"
  shows "lock_ok i t"
  using assms(2)
proof cases
  case (call j c cs)
  let ?s = "s\<lparr>lk_calls := (lk_calls s)[j := cs]\<rparr>"
  show ?thesis
  proof (cases "j = i")
    case True
    show ?thesis
    proof (cases "lk_calls s ! i = close_inside")
      case True
      then have "writers i s \<noteq> {}" using ok by (auto simp: lock_ok_def writers_def)
      then have "lk_writer s" using ok by (auto simp: lock_ok_def split: if_splits)
      moreover have "c = RLock" using True \<open>j = i\<close> call by (simp add: close_inside_def)
      ultimately show ?thesis using call by simp
    next
      case False
      then have c: "c = Lock" "cs = close_inside" using ok call \<open>j = i\<close> by (auto simp: lock_ok_def)
      have none: "writers i s = {}" "readers i s = {}" using ok call(4) c(1) by (auto simp: lock_ok_def split: if_splits)
      have "readers i ?s = readers i s" by (auto simp: readers_def True)
      moreover have "writers i ?s = insert i (writers i s)" using call c True by (auto simp: writers_def)
      ultimately have "readers i t = {}" "writers i t = {i}" using none by (simp_all only: call(1) effect_calls)
      moreover have "lk_readers t = 0" "lk_writer t" "lk_calls t = (lk_calls s)[i := close_inside]" using call c True by simp_all
      ultimately show ?thesis using ok by (auto simp: lock_ok_def)
    qed
  next
    case False
    then have "lock_program (c # cs) \<or> in_read (c # cs) \<or> in_write (c # cs)" using ok call by (metis lock_ok_def)
    note prog = next_program [OF this]
    have now: "j \<in> readers i s \<longleftrightarrow> in_read (c # cs)" "j \<in> writers i s \<longleftrightarrow> in_write (c # cs)"
      using call False by (auto simp: readers_def writers_def)
    have "lock_program cs \<or> in_read cs \<or> in_write cs" using prog by auto
    then have shape: "lk_calls t ! i \<in> {Lock # close_inside, close_inside} \<and> i < length (lk_calls t) \<and>
        (\<forall>k < length (lk_calls t). k \<noteq> i \<longrightarrow> lock_program (lk_calls t ! k) \<or> in_read (lk_calls t ! k) \<or> in_write (lk_calls t ! k))"
      using ok call False by (auto simp: lock_ok_def nth_list_update)
    have sets: "readers i t = (if in_read cs then insert j (readers i s) else readers i s - {j})"
      "writers i t = (if in_write cs then insert j (writers i s) else writers i s - {j})"
      using readers_update [OF call(2) False, of cs] writers_update [OF call(2) False, of cs] by (simp_all only: call(1) effect_calls)
    have flags: "lk_readers s = card (readers i s)" "if lk_writer s then (\<exists>j. writers i s = {j}) \<and> readers i s = {} else writers i s = {}"
      using ok by (auto simp: lock_ok_def)
    consider (r) "c = RLock" "in_read cs" "lock_program (c # cs)" | (w) "c = Lock" "in_write cs" "lock_program (c # cs)"
      | (ur) "c = RUnlock" "lock_program cs" "in_read (c # cs)" | (uw) "c = Unlock" "lock_program cs" "in_write (c # cs)" using prog by blast
    then have "lk_readers t = card (readers i t) \<and> (if lk_writer t then (\<exists>j. writers i t = {j}) \<and> readers i t = {} else writers i t = {})"
    proof cases
      case r
      moreover have "\<not> in_write cs" using r(2) by (auto simp: in_read_def in_write_def)
      moreover have "j \<notin> readers i s" "j \<notin> writers i s" using now program_outside [OF r(3)] by auto
      ultimately show ?thesis using call flags sets by auto
    next
      case w
      moreover have "\<not> in_read cs" using w(2) by (auto simp: in_read_def in_write_def)
      moreover have "j \<notin> readers i s" using now program_outside [OF w(3)] by auto
      ultimately show ?thesis using call flags sets by auto
    next
      case ur
      moreover have "\<not> in_read cs" "\<not> in_write cs" using program_outside [OF ur(2)] by auto
      moreover have "j \<in> readers i s" "j \<notin> writers i s" using now ur(1,3) by (auto simp: in_write_def in_read_def)
      ultimately show ?thesis using call flags sets by (auto split: if_splits)
    next
      case uw
      moreover have "\<not> in_read cs" "\<not> in_write cs" using program_outside [OF uw(2)] by auto
      moreover have "j \<in> writers i s" "j \<notin> readers i s" using now uw(1,3) by (auto simp: in_write_def in_read_def)
      ultimately show ?thesis using call flags sets by (auto split: if_splits)
    qed
    then show ?thesis using shape by (simp add: lock_ok_def)
  qed
qed

interpretation lock_runs: stepping "lock_init i (Lock # close_inside)" lock_step "lock_ok i" for i
  by unfold_locales (auto intro: lock_init_ok lock_ok_step)

lemma inside_stuck:
  assumes "lock_ok i s" "lk_calls s ! i = close_inside"
  shows "\<not> lock_step s t"
proof
  assume "lock_step s t"
  then show False
  proof cases
    case (call j c cs)
    have i: "i \<in> writers i s" using assms by (simp add: lock_ok_def writers_def)
    then have w: "lk_writer s" "writers i s = {i}" "readers i s = {}" using assms(1) by (auto simp: lock_ok_def split: if_splits)
    show False
    proof (cases "j = i")
      case True
      then show False using call w(1) assms(2) by (simp add: close_inside_def)
    next
      case False
      then have "lock_program (c # cs) \<or> in_read (c # cs) \<or> in_write (c # cs)" using assms(1) call by (metis lock_ok_def)
      from next_program [OF this] show False
      proof (elim disjE conjE)
        assume "c = RUnlock" "in_read (c # cs)"
        then have "j \<in> readers i s" using call False by (simp add: readers_def)
        then show False using w(3) by simp
      next
        assume "c = Unlock" "in_write (c # cs)"
        then have "j \<in> writers i s" using call False by (simp add: writers_def)
        then show False using w(2) False by simp
      qed (use call w(1) in auto)
    qed
  qed
qed

text \<open>C34: Closing an open backend never returns: whatever operations run beside it, in every reachable state the call of \<open>Close\<close>
  still has lock calls to make, and once it has the lock for writing no goroutine can make any further lock call, so
  every operation of the backend blocks for ever.\<close>

theorem rocksdb_close_never_returns:
  assumes "rb_db r \<noteq> None" and "reach (lock_init i (Close_calls r)) lock_step s"
  shows "lk_calls s ! i \<noteq> [] \<and> (lk_calls s ! i \<noteq> Close_calls r \<longrightarrow> (\<forall>t. \<not> lock_step s t))"
proof -
  have calls: "Close_calls r = Lock # close_inside" using assms(1) by (simp add: Close_calls_def reading_def close_inside_def)
  then have ok: "lock_ok i s" using lock_runs.inv_reach assms(2) by simp
  then have "lk_calls s ! i \<in> {Lock # close_inside, close_inside}" by (simp add: lock_ok_def)
  then show ?thesis using inside_stuck [OF ok] calls by (auto simp: close_inside_def)
qed

lemma rocksdb_close_never_returns_witness:
  "\<exists>(r :: (unit, unit) RocksDBStateBackend) s. rb_db r = Some () \<and> reach (lock_init 0 (Close_calls r)) lock_step s \<and>
    lk_calls s ! 0 = [RLock, RUnlock, Unlock] \<and> lk_calls s ! 1 = [RLock, RUnlock] \<and> (\<forall>t. \<not> lock_step s t)"
proof -
  obtain r :: "(unit, unit) RocksDBStateBackend" where r: "rb_db r = Some ()"
    by (metis (full_types) RocksDBStateBackend.select_convs(1))
  let ?s = "\<lparr>lk_writer = False, lk_readers = 0, lk_calls = [Close_calls r, reading]\<rparr>"
  let ?t = "\<lparr>lk_writer = True, lk_readers = 0, lk_calls = [[RLock, RUnlock, Unlock], reading]\<rparr>"
  have calls: "Close_calls r = Lock # [RLock, RUnlock, Unlock]" using r by (simp add: Close_calls_def reading_def)
  have "lock_program reading" unfolding lock_program_def by (rule exI [of _ "[reading]"]) simp
  then have "lock_init 0 (Close_calls r) ?s" by (simp add: lock_init_def less_Suc_eq)
  then have start: "reach (lock_init 0 (Close_calls r)) lock_step ?s" by (rule reach.start)
  have "lock_step ?s (lock_effect Lock (?s\<lparr>lk_calls := (lk_calls ?s)[0 := [RLock, RUnlock, Unlock]]\<rparr>))"
    by (rule lock_step.call) (simp_all add: calls)
  with start have reached: "reach (lock_init 0 (Close_calls r)) lock_step ?t" by (intro reach.next_step [OF start]) simp
  have "\<forall>t. \<not> lock_step ?t t" using rocksdb_close_never_returns [OF _ reached] r calls by simp
  then show ?thesis using r reached by (intro exI [of _ r] exI [of _ ?t]) (simp add: reading_def)
qed

end
