(* ===== verification/SQL_Queries.thy ===== *)
theory SQL_Queries
  imports Stream_Types Complex_Main
begin

text \<open>
  Queries, catalog and parser of the SQL layer: \<open>pkg/sql/types.go\<close>, \<open>catalog.go\<close> and \<open>parser.go\<close>. The parser finds the clauses of a
  query with regular expressions of the standard library; \<open>find p s\<close> is \<open>FindStringSubmatch\<close> of the pattern \<open>p\<close> on \<open>s\<close>, the whole match
  followed by its groups, and the empty list when there is none. The other functions on strings are in the record \<open>sql_lib\<close>.
\<close>

section \<open>Values and schemas\<close>

datatype sql_value = VNil | VInt i64 | VInt64 i64 | VFloat real | VStr string | VBool bool | VMap "(string \<times> sql_value) list"

datatype DataType = DataTypeString | DataTypeInt | DataTypeFloat | DataTypeBool | DataTypeTimestamp | DataTypeBytes

record Column =
  col_Name :: string
  col_Type :: DataType
  col_Nullable :: bool

type_synonym Schema = "Column list"

record Table =
  tab_Name :: string
  tab_Schema :: Schema
  tab_PrimaryKey :: "string list"
  tab_State :: "string \<rightharpoonup> sql_value"

text \<open>The channel of a source is a name here; who reads it has its contents.\<close>

record StreamSource =
  src_Name :: string
  src_Schema :: Schema
  src_EventChannel :: nat
  src_Watermark :: gtime

section \<open>Queries\<close>

datatype QueryType = QueryTypeSelect | QueryTypeInsert | QueryTypeUpdate | QueryTypeDelete | QueryTypeCreateStream
  | QueryTypeCreateTable | QueryTypeDropStream | QueryTypeDropTable

datatype sql_WindowType = WindowTypeTumbling | WindowTypeSliding | WindowTypeSession | WindowTypeHopping

record WindowSpec =
  ws_Type :: sql_WindowType
  ws_Size :: duration
  ws_Slide :: duration
  ws_Gap :: duration
  ws_Offset :: duration
  ws_AllowedLateness :: duration

record AggregateSpec =
  agg_Function :: string
  agg_Column :: string
  agg_Alias :: string
  agg_Distinct :: bool

datatype sql_JoinType = JoinTypeInner | JoinTypeLeft | JoinTypeRight | JoinTypeFull

record JoinSpec =
  js_Type :: sql_JoinType
  js_Left :: string
  js_Right :: string
  js_Condition :: string
  js_Window :: "WindowSpec option"

record OrderBySpec =
  ob_Column :: string
  ob_Ascending :: bool

record Query =
  q_ID :: string
  q_Type :: QueryType
  q_SelectCols :: "string list"
  q_FromStream :: string
  q_JoinSpec :: "JoinSpec option"
  q_WhereClause :: string
  q_GroupByKeys :: "string list"
  q_HavingClause :: string
  q_WindowSpec :: "WindowSpec option"
  q_OrderBy :: "OrderBySpec list"
  q_Limit :: int
  q_Aggregates :: "AggregateSpec list"
  q_Continuous :: bool

definition new_query :: "QueryType \<Rightarrow> Query" where
  "new_query t = \<lparr>q_ID = [], q_Type = t, q_SelectCols = [], q_FromStream = [], q_JoinSpec = None, q_WhereClause = [], q_GroupByKeys = [],
     q_HavingClause = [], q_WindowSpec = None, q_OrderBy = [], q_Limit = 0, q_Aggregates = [], q_Continuous = False\<rparr>"

section \<open>The catalog\<close>

text \<open>A function of the user with what reflection says of its type.\<close>

record go_type =
  ty_IsFunc :: bool
  ty_IsVariadic :: bool
  ty_NumIn :: nat
  ty_NumOut :: nat
  ty_Out1IsError :: bool
  ty_Out0IsSlice :: bool

datatype udf_call = CallPanic | CallResults "sql_value option" "string option"

record UDF =
  udf_Name :: string
  udf_InputTypes :: "DataType list"
  udf_OutputType :: DataType
  udf_Function :: "sql_value list \<Rightarrow> udf_call"
  udf_type :: go_type

record Catalog =
  cat_streams :: "string \<rightharpoonup> StreamSource"
  cat_tables :: "string \<rightharpoonup> Table"
  cat_udfs :: "string \<rightharpoonup> UDF"

datatype catalog_error = StreamExistsError string | StreamNotFound string | TableExistsError string | TableNotFound string
  | UDFExistsError string | UDFNotFound string | SourceNotFound string

definition NewCatalog :: Catalog where
  "NewCatalog = \<lparr>cat_streams = Map.empty, cat_tables = Map.empty, cat_udfs = Map.empty\<rparr>"

definition RegisterStream :: "string \<Rightarrow> Schema \<Rightarrow> nat \<Rightarrow> Catalog \<Rightarrow> catalog_error option \<times> Catalog" where
  "RegisterStream name schema ch c =
    (if cat_streams c name \<noteq> None then (Some (StreamExistsError name), c)
     else (None, c\<lparr>cat_streams := (cat_streams c)(name \<mapsto> \<lparr>src_Name = name, src_Schema = schema, src_EventChannel = ch, src_Watermark = zero_time\<rparr>)\<rparr>))"

definition GetStream :: "string \<Rightarrow> Catalog \<Rightarrow> catalog_error + StreamSource" where
  "GetStream name c = (case cat_streams c name of None \<Rightarrow> Inl (StreamNotFound name) | Some s \<Rightarrow> Inr s)"

definition UnregisterStream :: "string \<Rightarrow> Catalog \<Rightarrow> catalog_error option \<times> Catalog" where
  "UnregisterStream name c =
    (if cat_streams c name = None then (Some (StreamNotFound name), c) else (None, c\<lparr>cat_streams := (cat_streams c)(name := None)\<rparr>))"

definition RegisterTable :: "string \<Rightarrow> Schema \<Rightarrow> string list \<Rightarrow> Catalog \<Rightarrow> catalog_error option \<times> Catalog" where
  "RegisterTable name schema primaryKey c =
    (if cat_tables c name \<noteq> None then (Some (TableExistsError name), c)
     else (None, c\<lparr>cat_tables := (cat_tables c)(name \<mapsto> \<lparr>tab_Name = name, tab_Schema = schema, tab_PrimaryKey = primaryKey, tab_State = Map.empty\<rparr>)\<rparr>))"

definition GetTable :: "string \<Rightarrow> Catalog \<Rightarrow> catalog_error + Table" where
  "GetTable name c = (case cat_tables c name of None \<Rightarrow> Inl (TableNotFound name) | Some t \<Rightarrow> Inr t)"

definition UnregisterTable :: "string \<Rightarrow> Catalog \<Rightarrow> catalog_error option \<times> Catalog" where
  "UnregisterTable name c =
    (if cat_tables c name = None then (Some (TableNotFound name), c) else (None, c\<lparr>cat_tables := (cat_tables c)(name := None)\<rparr>))"

definition RegisterUDF :: "string \<Rightarrow> DataType list \<Rightarrow> DataType \<Rightarrow> (sql_value list \<Rightarrow> udf_call) \<Rightarrow> go_type \<Rightarrow> Catalog \<Rightarrow> catalog_error option \<times> Catalog" where
  "RegisterUDF name ins out f ty c =
    (if cat_udfs c name \<noteq> None then (Some (UDFExistsError name), c)
     else (None, c\<lparr>cat_udfs := (cat_udfs c)(name \<mapsto> \<lparr>udf_Name = name, udf_InputTypes = ins, udf_OutputType = out, udf_Function = f, udf_type = ty\<rparr>)\<rparr>))"

definition GetUDF :: "string \<Rightarrow> Catalog \<Rightarrow> catalog_error + UDF" where
  "GetUDF name c = (case cat_udfs c name of None \<Rightarrow> Inl (UDFNotFound name) | Some u \<Rightarrow> Inr u)"

definition catalog_UnregisterUDF :: "string \<Rightarrow> Catalog \<Rightarrow> catalog_error option \<times> Catalog" where
  "catalog_UnregisterUDF name c =
    (if cat_udfs c name = None then (Some (UDFNotFound name), c) else (None, c\<lparr>cat_udfs := (cat_udfs c)(name := None)\<rparr>))"

definition cat_GetSchema :: "string \<Rightarrow> Catalog \<Rightarrow> catalog_error + Schema" where
  "cat_GetSchema name c =
    (case cat_streams c name of
       Some s \<Rightarrow> Inr (src_Schema s)
     | None \<Rightarrow> (case cat_tables c name of Some t \<Rightarrow> Inr (tab_Schema t) | None \<Rightarrow> Inl (SourceNotFound name)))"

definition StreamExists :: "string \<Rightarrow> Catalog \<Rightarrow> bool" where "StreamExists name c \<longleftrightarrow> cat_streams c name \<noteq> None"

definition TableExists :: "string \<Rightarrow> Catalog \<Rightarrow> bool" where "TableExists name c \<longleftrightarrow> cat_tables c name \<noteq> None"

definition UDFExists :: "string \<Rightarrow> Catalog \<Rightarrow> bool" where "UDFExists name c \<longleftrightarrow> cat_udfs c name \<noteq> None"

lemma GetSchema_ok: "(\<exists>schema. cat_GetSchema name c = Inr schema) \<longleftrightarrow> StreamExists name c \<or> TableExists name c"
  by (auto simp: cat_GetSchema_def StreamExists_def TableExists_def split: option.splits)

section \<open>The parser\<close>

datatype pattern = SelectPattern | AggregatePattern | FromPattern | JoinPattern | WherePattern | WindowPattern | GroupByPattern
  | HavingPattern | OrderByPattern | LimitPattern

record sql_lib =
  find :: "pattern \<Rightarrow> string \<Rightarrow> string list"
  ToUpper :: "string \<Rightarrow> string"
  ToLower :: "string \<Rightarrow> string"
  TrimSpace :: "string \<Rightarrow> string"
  Split :: "string \<Rightarrow> string \<Rightarrow> string list"
  Contains :: "string \<Rightarrow> string \<Rightarrow> bool"
  HasPrefix :: "string \<Rightarrow> string \<Rightarrow> bool"
  HasSuffix :: "string \<Rightarrow> string \<Rightarrow> bool"
  TrimSuffix :: "string \<Rightarrow> string \<Rightarrow> string"
  ReplaceFirst :: "string \<Rightarrow> string \<Rightarrow> string \<Rightarrow> string"
  Atoi :: "string \<Rightarrow> int"

datatype parse_error = UnsupportedQuery | InvalidSelect | InvalidFrom

definition parseDuration :: "int \<Rightarrow> string \<Rightarrow> duration" where
  "parseDuration n unit = wrap64 (n *
    (if unit = ''SECOND'' \<or> unit = ''SECONDS'' then second
     else if unit = ''MINUTE'' \<or> unit = ''MINUTES'' then minute
     else if unit = ''HOUR'' \<or> unit = ''HOURS'' then 60 * minute
     else second))"

definition parse_aggregate :: "sql_lib \<Rightarrow> string list \<Rightarrow> AggregateSpec" where
  "parse_aggregate lib m =
    (let column = TrimSpace lib (m ! 2);
         agg = \<lparr>agg_Function = ToUpper lib (m ! 1), agg_Column = column, agg_Alias = (if length m \<ge> 4 \<and> m ! 3 \<noteq> [] then m ! 3 else []), agg_Distinct = False\<rparr>
     in if Contains lib (ToUpper lib column) ''DISTINCT''
        then agg\<lparr>agg_Distinct := True, agg_Column := TrimSpace lib (ReplaceFirst lib (ToUpper lib column) ''DISTINCT'' [])\<rparr> else agg)"

definition parse_column :: "sql_lib \<Rightarrow> string \<Rightarrow> Query \<Rightarrow> Query" where
  "parse_column lib col0 q =
    (let col = TrimSpace lib col0; m = find lib AggregatePattern col
     in if length m \<ge> 3
        then (let agg = parse_aggregate lib m
              in q\<lparr>q_Aggregates := q_Aggregates q @ [agg],
                   q_SelectCols := q_SelectCols q @ [if agg_Alias agg \<noteq> [] then agg_Alias agg else agg_Function agg @ ''('' @ agg_Column agg @ '')'']\<rparr>)
        else (let parts = Split lib col '' AS ''
              in q\<lparr>q_SelectCols := q_SelectCols q @ [if length parts = 2 then TrimSpace lib (parts ! 1) else col]\<rparr>))"

definition parse_join :: "sql_lib \<Rightarrow> string \<Rightarrow> JoinSpec option" where
  "parse_join lib sql =
    (let m = find lib JoinPattern sql; up = ToUpper lib sql
     in if length m \<ge> 3
        then Some \<lparr>js_Type = (if Contains lib up ''LEFT JOIN'' \<or> Contains lib up ''LEFT OUTER JOIN'' then JoinTypeLeft
               else if Contains lib up ''RIGHT JOIN'' \<or> Contains lib up ''RIGHT OUTER JOIN'' then JoinTypeRight
               else if Contains lib up ''FULL JOIN'' \<or> Contains lib up ''FULL OUTER JOIN'' then JoinTypeFull else JoinTypeInner),
             js_Left = [], js_Right = m ! 1, js_Condition = TrimSpace lib (m ! 2), js_Window = None\<rparr>
        else None)"

definition window_type :: "string \<Rightarrow> sql_WindowType" where
  "window_type s = (if s = ''SLIDING'' then WindowTypeSliding else if s = ''SESSION'' then WindowTypeSession
     else if s = ''HOPPING'' then WindowTypeHopping else WindowTypeTumbling)"

definition parse_window :: "sql_lib \<Rightarrow> string \<Rightarrow> WindowSpec option" where
  "parse_window lib sql =
    (let m = find lib WindowPattern sql; dur = (\<lambda>i. parseDuration (Atoi lib (m ! i)) (ToUpper lib (m ! (i + 1))))
     in if length m \<ge> 4
        then Some \<lparr>ws_Type = window_type (ToUpper lib (m ! 1)), ws_Size = dur 2,
             ws_Slide = (if length m \<ge> 6 \<and> m ! 4 \<noteq> [] then dur 4 else 0), ws_Gap = (if length m \<ge> 8 \<and> m ! 6 \<noteq> [] then dur 6 else 0),
             ws_Offset = 0, ws_AllowedLateness = 0\<rparr>
        else None)"

definition parse_order :: "sql_lib \<Rightarrow> string \<Rightarrow> OrderBySpec" where
  "parse_order lib col0 =
    (let col = TrimSpace lib col0; up = ToUpper lib col
     in if HasSuffix lib up '' DESC'' then \<lparr>ob_Column = TrimSpace lib (TrimSuffix lib up '' DESC''), ob_Ascending = False\<rparr>
        else if HasSuffix lib up '' ASC'' then \<lparr>ob_Column = TrimSpace lib (TrimSuffix lib up '' ASC''), ob_Ascending = True\<rparr>
        else \<lparr>ob_Column = TrimSpace lib col, ob_Ascending = True\<rparr>)"

text \<open>A clause with one group: its text, or the empty string.\<close>

definition clause :: "sql_lib \<Rightarrow> pattern \<Rightarrow> string \<Rightarrow> string" where
  "clause lib p sql = (let m = find lib p sql in if length m \<ge> 2 then TrimSpace lib (m ! 1) else [])"

definition parseSelect :: "sql_lib \<Rightarrow> string \<Rightarrow> parse_error + Query" where
  "parseSelect lib sql =
    (let sel = find lib SelectPattern sql; from_match = find lib FromPattern sql; grp = find lib GroupByPattern sql; ord = find lib OrderByPattern sql;
         lim = find lib LimitPattern sql
     in if length sel < 2 then Inl InvalidSelect
        else (let q1 = fold (parse_column lib) (Split lib (sel ! 1) '','') (new_query QueryTypeSelect)
              in if length from_match < 2 then Inl InvalidFrom
                 else (let q2 = q1\<lparr>q_FromStream := from_match ! 1, q_JoinSpec := parse_join lib sql, q_WhereClause := clause lib WherePattern sql,
                             q_WindowSpec := parse_window lib sql,
                             q_GroupByKeys := (if length grp \<ge> 2 then map (TrimSpace lib) (Split lib (grp ! 1) '','') else []),
                             q_HavingClause := clause lib HavingPattern sql,
                             q_OrderBy := (if length ord \<ge> 2 then map (parse_order lib) (Split lib (ord ! 1) '','') else []),
                             q_Limit := (if length lim \<ge> 2 then Atoi lib (lim ! 1) else 0)\<rparr>
                       in Inr (if q_WindowSpec q2 \<noteq> None \<or> q_Limit q2 = 0 then q2\<lparr>q_Continuous := True\<rparr> else q2))))"

definition Parse :: "sql_lib \<Rightarrow> string \<Rightarrow> parse_error + Query" where
  "Parse lib sql0 =
    (let sql = TrimSpace lib sql0; low = ToLower lib sql
     in if HasPrefix lib low ''select'' then parseSelect lib sql
        else if HasPrefix lib low ''create stream'' then Inr (new_query QueryTypeCreateStream)
        else if HasPrefix lib low ''create table'' then Inr (new_query QueryTypeCreateTable)
        else if HasPrefix lib low ''drop stream'' then Inr (new_query QueryTypeDropStream)
        else if HasPrefix lib low ''drop table'' then Inr (new_query QueryTypeDropTable)
        else if HasPrefix lib low ''insert'' then Inr (new_query QueryTypeInsert)
        else Inl UnsupportedQuery)"

datatype validation_error = NoSource string | NoJoinTarget string | NotGrouped

definition exists_source :: "string \<Rightarrow> Catalog \<Rightarrow> bool" where
  "exists_source name c \<longleftrightarrow> StreamExists name c \<or> TableExists name c"

definition Validate_query :: "Catalog \<Rightarrow> Query \<Rightarrow> validation_error option" where
  "Validate_query c q =
    (if q_FromStream q \<noteq> [] \<and> \<not> exists_source (q_FromStream q) c then Some (NoSource (q_FromStream q))
     else (case (case q_JoinSpec q of
         Some j \<Rightarrow> if js_Right j \<noteq> [] \<and> \<not> exists_source (js_Right j) c then Some (NoJoinTarget (js_Right j)) else None
       | None \<Rightarrow> None) of Some x \<Rightarrow> Some x | None \<Rightarrow>
         if q_Aggregates q \<noteq> [] \<and> q_GroupByKeys q = [] \<and> q_WindowSpec q = None \<and> length (q_SelectCols q) \<noteq> length (q_Aggregates q)
         then Some NotGrouped else None))"


section \<open>Parsed queries\<close>

text \<open>A query runs once only when it has a limit and no window, so the default limit of the executor is never used.\<close>

lemma fold_column_fixed: "q_Type (fold (parse_column lib) cols q) = q_Type q \<and> q_Continuous (fold (parse_column lib) cols q) = q_Continuous q \<and>
    length (q_SelectCols (fold (parse_column lib) cols q)) = length (q_SelectCols q) + length cols"
proof (induction cols arbitrary: q)
  case (Cons col cols)
  have "q_Type (parse_column lib col q) = q_Type q \<and> q_Continuous (parse_column lib col q) = q_Continuous q \<and>
      length (q_SelectCols (parse_column lib col q)) = Suc (length (q_SelectCols q))"
    by (simp add: parse_column_def Let_def)
  then show ?case using Cons.IH [of "parse_column lib col q"] by simp
qed simp

theorem parsed_continuous:
  assumes "parseSelect lib sql = Inr q"
  shows "q_Type q = QueryTypeSelect \<and> (q_Continuous q \<longleftrightarrow> q_WindowSpec q \<noteq> None \<or> q_Limit q = 0) \<and>
    length (q_SelectCols q) = length (Split lib (find lib SelectPattern sql ! 1) '','')"
  using assms fold_column_fixed [of lib "Split lib (find lib SelectPattern sql ! 1) '',''" "new_query QueryTypeSelect"]
  by (auto simp: parseSelect_def Let_def new_query_def split: if_splits)

text \<open>The column of a descending order is the name in upper case.\<close>

lemma descending_upper_case:
  "HasSuffix lib (ToUpper lib (TrimSpace lib col)) '' DESC'' \<Longrightarrow>
   ob_Column (parse_order lib col) = TrimSpace lib (TrimSuffix lib (ToUpper lib (TrimSpace lib col)) '' DESC'')"
  by (simp add: parse_order_def Let_def)

end
