(* ===== verification/SQL_Plans.thy ===== *)
theory SQL_Plans
  imports SQL_Queries IoT_Sensors "HOL-Library.Sublist"
begin

text \<open>
  Planning, optimizing and running queries: \<open>Plan\<close> and the aggregate functions of \<open>pkg/sql/planner.go\<close>, \<open>optimizer.go\<close> and \<open>executor.go\<close>.
  A plan is a tree of nodes with costs. A query that runs once reads the channel of its source through a list of what its
  select statement gives next; a list that ends stands for a select that waits for ever. A continuous query is a function on the
  list of what happens to it. \<open>BuildStreamPipeline\<close> and the operators it builds call functions that the packages \<open>stream\<close> and \<open>window\<close>
  do not have, and nothing calls it.
\<close>

section \<open>Plans\<close>

datatype PlanNode =
    ScanNode string Schema string real
  | FilterNode string PlanNode real
  | ProjectNode "string list" PlanNode real
  | AggregateNode "AggregateSpec list" "string list" PlanNode real
  | JoinNode sql_JoinType string PlanNode PlanNode real
  | WindowNode WindowSpec PlanNode real

fun node_Cost :: "PlanNode \<Rightarrow> real" where
  "node_Cost (ScanNode _ _ _ c) = c"
| "node_Cost (FilterNode _ _ c) = c"
| "node_Cost (ProjectNode _ _ c) = c"
| "node_Cost (AggregateNode _ _ _ c) = c"
| "node_Cost (JoinNode _ _ _ _ c) = c"
| "node_Cost (WindowNode _ _ c) = c"

fun Children :: "PlanNode \<Rightarrow> PlanNode list" where
  "Children (ScanNode _ _ _ _) = []"
| "Children (FilterNode _ n _) = [n]"
| "Children (ProjectNode _ n _) = [n]"
| "Children (AggregateNode _ _ n _) = [n]"
| "Children (JoinNode _ _ l r _) = [l, r]"
| "Children (WindowNode _ n _) = [n]"

fun NodeType :: "PlanNode \<Rightarrow> string" where
  "NodeType (ScanNode _ _ _ _) = ''Scan''"
| "NodeType (FilterNode _ _ _) = ''Filter''"
| "NodeType (ProjectNode _ _ _) = ''Project''"
| "NodeType (AggregateNode _ _ _ _) = ''Aggregate''"
| "NodeType (JoinNode _ _ _ _ _) = ''Join''"
| "NodeType (WindowNode _ _ _) = ''Window''"

record QueryPlan =
  pl_Query :: Query
  pl_Operators :: "PlanNode list"
  pl_Cost :: real
  pl_Optimized :: bool

definition scan :: "string \<Rightarrow> Catalog \<Rightarrow> (string \<times> catalog_error) + PlanNode" where
  "scan name c = (case cat_GetSchema name c of Inl e \<Rightarrow> Inl (name, e) | Inr schema \<Rightarrow> Inr (ScanNode name schema [] 1))"

definition plan_filter :: "Query \<Rightarrow> PlanNode \<Rightarrow> PlanNode" where
  "plan_filter q n = (if q_WhereClause q \<noteq> [] then FilterNode (q_WhereClause q) n (node_Cost n * (1 / 2)) else n)"

definition plan_join :: "Catalog \<Rightarrow> Query \<Rightarrow> PlanNode \<Rightarrow> (string \<times> catalog_error) + PlanNode" where
  "plan_join c q n =
    (case q_JoinSpec q of
       None \<Rightarrow> Inr n
     | Some j \<Rightarrow> map_sum id (\<lambda>r. JoinNode (js_Type j) (js_Condition j) n r (node_Cost n * node_Cost r * 2)) (scan (js_Right j) c))"

definition plan_window :: "Query \<Rightarrow> PlanNode \<Rightarrow> PlanNode" where
  "plan_window q n = (case q_WindowSpec q of None \<Rightarrow> n | Some w \<Rightarrow> WindowNode w n (node_Cost n * (3 / 2)))"

definition plan_aggregate :: "Query \<Rightarrow> PlanNode \<Rightarrow> PlanNode" where
  "plan_aggregate q n =
    (if q_GroupByKeys q \<noteq> [] \<or> q_Aggregates q \<noteq> [] then AggregateNode (q_Aggregates q) (q_GroupByKeys q) n (node_Cost n * 2) else n)"

definition plan_project :: "Query \<Rightarrow> PlanNode \<Rightarrow> PlanNode" where
  "plan_project q n = (if q_SelectCols q \<noteq> [] then ProjectNode (q_SelectCols q) n (node_Cost n * (11 / 10)) else n)"

definition Plan :: "Catalog \<Rightarrow> Query \<Rightarrow> (string \<times> catalog_error) + QueryPlan" where
  "Plan c q =
    (case scan (q_FromStream q) c of
       Inl e \<Rightarrow> Inl e
     | Inr n1 \<Rightarrow>
         (case plan_join c q (plan_filter q n1) of
            Inl e \<Rightarrow> Inl e
          | Inr n3 \<Rightarrow>
              (let root = plan_project q (plan_aggregate q (plan_window q n3))
               in Inr \<lparr>pl_Query = q, pl_Operators = [root], pl_Cost = node_Cost root, pl_Optimized = False\<rparr>)))"

section \<open>The optimizer\<close>

definition applyPredicatePushdown :: "QueryPlan \<Rightarrow> QueryPlan" where "applyPredicatePushdown plan = plan"
definition applyProjectionPushdown :: "QueryPlan \<Rightarrow> QueryPlan" where "applyProjectionPushdown plan = plan"
definition applyJoinReordering :: "QueryPlan \<Rightarrow> QueryPlan" where "applyJoinReordering plan = plan"
definition applyWindowOptimization :: "QueryPlan \<Rightarrow> QueryPlan" where "applyWindowOptimization plan = plan"
definition applyAggregateOptimization :: "QueryPlan \<Rightarrow> QueryPlan" where "applyAggregateOptimization plan = plan"

fun calculateNodeCost :: "PlanNode \<Rightarrow> real" where
  "calculateNodeCost (ScanNode s sch f c) = c"
| "calculateNodeCost (FilterNode p n c) = c + calculateNodeCost n"
| "calculateNodeCost (ProjectNode cs n c) = c + calculateNodeCost n"
| "calculateNodeCost (AggregateNode as g n c) = c + calculateNodeCost n"
| "calculateNodeCost (JoinNode t cond l r c) = c + calculateNodeCost l + calculateNodeCost r"
| "calculateNodeCost (WindowNode w n c) = c + calculateNodeCost n"

definition calculatePlanCost :: "QueryPlan \<Rightarrow> real" where
  "calculatePlanCost plan = fold (\<lambda>n total. total + calculateNodeCost n) (pl_Operators plan) 0"

definition Optimize :: "QueryPlan \<Rightarrow> QueryPlan" where
  "Optimize plan =
    (if pl_Optimized plan then plan
     else (let p = applyAggregateOptimization (applyWindowOptimization (applyJoinReordering (applyProjectionPushdown (applyPredicatePushdown
               (plan\<lparr>pl_Optimized := False\<rparr>)))))
           in p\<lparr>pl_Cost := calculatePlanCost p, pl_Optimized := True\<rparr>))"

record OptimizationStats =
  os_OriginalCost :: real
  os_OptimizedCost :: real
  os_Improvement :: real
  os_RulesApplied :: "string list"
  os_ExecutionTime :: real

definition GetOptimizationStats :: "QueryPlan \<Rightarrow> QueryPlan \<Rightarrow> OptimizationStats" where
  "GetOptimizationStats originalPlan optimizedPlan =
    \<lparr>os_OriginalCost = pl_Cost originalPlan, os_OptimizedCost = pl_Cost optimizedPlan,
     os_Improvement = (if pl_Cost originalPlan > 0 then (pl_Cost originalPlan - pl_Cost optimizedPlan) / pl_Cost originalPlan * 100 else 0),
     os_RulesApplied = [''PredicatePushdown'', ''ProjectionPushdown'', ''JoinReordering'', ''WindowOptimization'', ''AggregateOptimization''],
     os_ExecutionTime = 0\<rparr>"

fun validateNode :: "Catalog \<Rightarrow> PlanNode \<Rightarrow> string option" where
  "validateNode c (ScanNode s sch f cost) = (if \<not> StreamExists s c \<and> \<not> TableExists s c then Some s else None)"
| "validateNode c (FilterNode p n cost) = validateNode c n"
| "validateNode c (ProjectNode cs n cost) = validateNode c n"
| "validateNode c (AggregateNode as g n cost) = validateNode c n"
| "validateNode c (JoinNode t cond l r cost) = (case validateNode c l of Some e \<Rightarrow> Some e | None \<Rightarrow> validateNode c r)"
| "validateNode c (WindowNode w n cost) = validateNode c n"

definition ValidatePlan :: "Catalog \<Rightarrow> QueryPlan \<Rightarrow> string option" where
  "ValidatePlan c plan = fold (\<lambda>n res. case res of Some e \<Rightarrow> Some e | None \<Rightarrow> validateNode c n) (pl_Operators plan) None"

text \<open>Explanations; the format \<open>%v\<close> of lists, enumerations and durations is a parameter.\<close>

record explain_lib =
  fmt_cols :: "string list \<Rightarrow> string"
  fmt_aggs :: "AggregateSpec list \<Rightarrow> string"
  fmt_join :: "sql_JoinType \<Rightarrow> string"
  fmt_window :: "sql_WindowType \<Rightarrow> string"
  fmt_duration :: "duration \<Rightarrow> string"
  fmt_bool :: "bool \<Rightarrow> string"

definition newline :: string where "newline = [char_of (10 :: nat)]"

definition indent_of :: "nat \<Rightarrow> string" where "indent_of depth = concat (replicate depth ''  '')"

definition explain_head :: "nat \<Rightarrow> PlanNode \<Rightarrow> string" where
  "explain_head depth n = indent_of depth @ NodeType n @ '' (Cost: '' @ fmt_2f (node_Cost n) @ '')'' @ newline"

definition detail :: "nat \<Rightarrow> string \<Rightarrow> string \<Rightarrow> string" where
  "detail depth name v = indent_of depth @ ''  '' @ name @ '': '' @ v @ newline"

fun explainNode :: "explain_lib \<Rightarrow> nat \<Rightarrow> PlanNode \<Rightarrow> string" where
  "explainNode x d (ScanNode s sch f c) = explain_head d (ScanNode s sch f c) @ detail d ''Source'' s"
| "explainNode x d (FilterNode p n c) = explain_head d (FilterNode p n c) @ detail d ''Predicate'' p @ explainNode x (d + 1) n"
| "explainNode x d (ProjectNode cs n c) = explain_head d (ProjectNode cs n c) @ detail d ''Columns'' (fmt_cols x cs) @ explainNode x (d + 1) n"
| "explainNode x d (AggregateNode as g n c) = explain_head d (AggregateNode as g n c) @ detail d ''GroupBy'' (fmt_cols x g) @
     detail d ''Aggregates'' (fmt_aggs x as) @ explainNode x (d + 1) n"
| "explainNode x d (JoinNode t cond l r c) = explain_head d (JoinNode t cond l r c) @ detail d ''Type'' (fmt_join x t) @
     detail d ''Condition'' cond @ explainNode x (d + 1) l @ explainNode x (d + 1) r"
| "explainNode x d (WindowNode w n c) = explain_head d (WindowNode w n c) @ detail d ''sql_WindowType'' (fmt_window x (ws_Type w)) @
     detail d ''Size'' (fmt_duration x (ws_Size w)) @ explainNode x (d + 1) n"

definition ExplainPlan :: "explain_lib \<Rightarrow> QueryPlan \<Rightarrow> string" where
  "ExplainPlan x plan = ''Query Plan (Cost: '' @ fmt_2f (pl_Cost plan) @ '', Optimized: '' @ fmt_bool x (pl_Optimized plan) @ '')'' @ newline @
     replicate 46 (CHR ''='') @ newline @
     concat (map (\<lambda>(i, n). show_nat (i + 1) @ ''. '' @ explainNode x 0 n @ newline) (enumerate 0 (pl_Operators plan)))"

section \<open>Properties of plans\<close>

lemma positive_costs:
  assumes "Plan c q = Inr plan"
  shows "0 < pl_Cost plan \<and> (\<exists>root. pl_Operators plan = [root] \<and> pl_Cost plan = node_Cost root \<and> node_Cost root \<le> calculateNodeCost root \<and>
    (node_Cost root = calculateNodeCost root \<longleftrightarrow> (\<exists>s sch f. root = ScanNode s sch f 1)) \<and> validateNode c root = None)"
proof -
  define good where "good n \<longleftrightarrow> 0 < node_Cost n \<and> node_Cost n \<le> calculateNodeCost n \<and>
    (node_Cost n = calculateNodeCost n \<longleftrightarrow> (\<exists>s sch f. n = ScanNode s sch f 1)) \<and> validateNode c n = None" for n
  obtain n1 n3 where n1: "scan (q_FromStream q) c = Inr n1" and n3: "plan_join c q (plan_filter q n1) = Inr n3"
    and plan: "plan = \<lparr>pl_Query = q, pl_Operators = [plan_project q (plan_aggregate q (plan_window q n3))],
       pl_Cost = node_Cost (plan_project q (plan_aggregate q (plan_window q n3))), pl_Optimized = False\<rparr>"
    using assms by (auto simp: Plan_def Let_def split: sum.splits)
  have scan_good: "scan name c = Inr n \<Longrightarrow> good n" for name n
    using GetSchema_ok [of name c] by (auto simp: scan_def good_def split: sum.splits)
  have filtered: "good (plan_filter q n1)" using scan_good [OF n1] by (auto simp: good_def plan_filter_def)
  have "good n3"
  proof (cases "q_JoinSpec q")
    case None
    then show ?thesis using n3 filtered by (simp add: plan_join_def)
  next
    case (Some j)
    then obtain r where r: "scan (js_Right j) c = Inr r"
      and "n3 = JoinNode (js_Type j) (js_Condition j) (plan_filter q n1) r (node_Cost (plan_filter q n1) * node_Cost r * 2)"
      using n3 by (auto simp: plan_join_def map_sum_Inr)
    moreover have "node_Cost r = 1" "calculateNodeCost r = 1" using r by (auto simp: scan_def split: sum.splits)
    ultimately show ?thesis using filtered scan_good [OF r] by (auto simp: good_def)
  qed
  then have "good (plan_window q n3)" by (auto simp: good_def plan_window_def split: option.splits)
  then have "good (plan_aggregate q (plan_window q n3))" by (auto simp: good_def plan_aggregate_def)
  then have "good (plan_project q (plan_aggregate q (plan_window q n3)))" by (auto simp: good_def plan_project_def)
  then show ?thesis using plan by (simp add: good_def)
qed


text \<open>Optimizing changes no operator, and the cost it computes adds the costs of all nodes to a cost of the root that already
  includes them, so the reported improvement is never positive, and negative unless the plan is a bare scan.\<close>

theorem optimization_never_improves:
  assumes "Plan c q = Inr plan"
  shows "pl_Operators (Optimize plan) = pl_Operators plan \<and> os_Improvement (GetOptimizationStats plan (Optimize plan)) \<le> 0 \<and>
    (os_Improvement (GetOptimizationStats plan (Optimize plan)) = 0 \<longleftrightarrow> (\<exists>s sch f. pl_Operators plan = [ScanNode s sch f 1]))"
proof -
  obtain root where root: "pl_Operators plan = [root]" "pl_Cost plan = node_Cost root" "node_Cost root \<le> calculateNodeCost root"
    "node_Cost root = calculateNodeCost root \<longleftrightarrow> (\<exists>s sch f. root = ScanNode s sch f 1)" "0 < node_Cost root"
    using positive_costs [OF assms] by auto
  have "\<not> pl_Optimized plan" using assms by (auto simp: Plan_def Let_def split: sum.splits)
  then have opt: "pl_Operators (Optimize plan) = [root]" "pl_Cost (Optimize plan) = calculateNodeCost root"
    using root by (simp_all add: Optimize_def Let_def calculatePlanCost_def applyPredicatePushdown_def applyProjectionPushdown_def
        applyJoinReordering_def applyWindowOptimization_def applyAggregateOptimization_def)
  show ?thesis using root opt by (auto simp: GetOptimizationStats_def divide_le_0_iff mult_le_0_iff)
qed

section \<open>Running a plan\<close>

definition evaluateFilter :: "sql_value event \<Rightarrow> string \<Rightarrow> bool" where "evaluateFilter event predicate = True"

definition applyProjection :: "sql_value event \<Rightarrow> string list \<Rightarrow> sql_value event" where "applyProjection event columns = event"

text \<open>No branch returns an error.\<close>

fun processNode :: "PlanNode \<Rightarrow> sql_value event \<Rightarrow> sql_value event list" where
  "processNode (ScanNode s sch f c) event = [event]"
| "processNode (FilterNode p n c) event = (if evaluateFilter event p then processNode n event else [])"
| "processNode (ProjectNode cs n c) event = [applyProjection event cs]"
| "processNode (AggregateNode as g n c) event = [event]"
| "processNode (JoinNode t cond l r c) event = [event]"
| "processNode (WindowNode w n c) event = [event]"

definition sql_processEvent :: "QueryPlan \<Rightarrow> sql_value event \<Rightarrow> sql_value event list" where
  "sql_processEvent plan event = fold (\<lambda>node results. concat (map (processNode node) results)) (pl_Operators plan) [event]"

definition eventToRow :: "string list \<Rightarrow> sql_value event \<Rightarrow> sql_value list" where
  "eventToRow columns event =
    map (\<lambda>col. case Value event of VMap m \<Rightarrow> (case map_of m col of Some v \<Rightarrow> v | None \<Rightarrow> VNil) | _ \<Rightarrow> VNil) columns"

lemma processNode_same: "processNode n event = [event]"
  by (induction n) (simp_all add: evaluateFilter_def applyProjection_def)

lemma processEvent_same: "sql_processEvent plan event = [event]"
proof -
  have "fold (\<lambda>node results. concat (map (processNode node) results)) ns [event] = [event]" for ns
    by (induction ns) (simp_all add: processNode_same)
  then show ?thesis by (simp add: sql_processEvent_def)
qed

section \<open>Queries that run once\<close>

text \<open>What the select statement of the loop gives: an event, the zero value of a closed channel, or the timeout.\<close>

datatype arrival = Arrive "sql_value event" | ClosedChannel | TimedOut

datatype one_time = Blocked | NilPanic | Rows "sql_value list list"

fun add_rows :: "string list \<Rightarrow> int \<Rightarrow> sql_value event list \<Rightarrow> sql_value list list \<Rightarrow> sql_value list list" where
  "add_rows cols limit [] rows = rows"
| "add_rows cols limit (e # es) rows =
    (let rows' = rows @ [eventToRow cols e] in if int (length rows') \<ge> limit then rows' else add_rows cols limit es rows')"

text \<open>The \<open>break\<close> of the timeout leaves the select statement, not the loop; a nil event reaches \<open>eventToRow\<close>.\<close>

fun collect_rows :: "QueryPlan \<Rightarrow> string list \<Rightarrow> int \<Rightarrow> arrival list \<Rightarrow> sql_value list list \<Rightarrow> one_time" where
  "collect_rows plan cols limit as rows =
    (if int (length rows) \<ge> limit then Rows rows
     else (case as of
         [] \<Rightarrow> Blocked
       | TimedOut # rest \<Rightarrow> collect_rows plan cols limit rest rows
       | ClosedChannel # rest \<Rightarrow> NilPanic
       | Arrive e # rest \<Rightarrow> collect_rows plan cols limit rest (add_rows cols limit (sql_processEvent plan e) rows)))"

declare collect_rows.simps [simp del]

definition query_limit :: "Query \<Rightarrow> int" where
  "query_limit q = (if q_Limit q = 0 then 100 else q_Limit q)"

definition executeOneTimeQuery :: "Catalog \<Rightarrow> Query \<Rightarrow> QueryPlan \<Rightarrow> arrival list \<Rightarrow> catalog_error + one_time" where
  "executeOneTimeQuery c q plan as =
    map_sum id (\<lambda>_. collect_rows plan (q_SelectCols q) (query_limit q) as []) (GetStream (q_FromStream q) c)"

fun events_of :: "arrival list \<Rightarrow> sql_value event list" where
  "events_of (Arrive e # as) = e # events_of as"
| "events_of (_ # as) = events_of as"
| "events_of [] = []"

lemma collect_result:
  "ClosedChannel \<notin> set as \<Longrightarrow> int (length rows) \<le> limit \<Longrightarrow>
   collect_rows plan cols limit as rows =
     (if limit \<le> int (length rows + length (events_of as)) then Rows (rows @ map (eventToRow cols) (take (nat limit - length rows) (events_of as))) else Blocked)"
proof (induction as arbitrary: rows)
  case Nil
  then show ?case by (subst collect_rows.simps) auto
next
  case (Cons a as)
  show ?case
  proof (cases "int (length rows) = limit")
    case True
    then show ?thesis by (subst collect_rows.simps) auto
  next
    case False
    then have less: "int (length rows) < limit" using Cons.prems by simp
    show ?thesis
    proof (cases a)
      case (Arrive e)
      have "nat limit - length rows = Suc (nat limit - length (rows @ [eventToRow cols e]))" using less by simp
      moreover have "collect_rows plan cols limit (a # as) rows = collect_rows plan cols limit as (rows @ [eventToRow cols e])"
        using less Arrive by (subst collect_rows.simps) (simp add: processEvent_same Let_def)
      ultimately show ?thesis using Cons.IH [of "rows @ [eventToRow cols e]"] Cons.prems less Arrive by simp
    next
      case TimedOut
      have "collect_rows plan cols limit (a # as) rows = collect_rows plan cols limit as rows"
        using less TimedOut by (subst collect_rows.simps) simp
      then show ?thesis using Cons TimedOut by simp
    qed (use Cons.prems in simp)
  qed
qed

text \<open>C26: The timeout of a query that runs once has no effect. On a channel that stays open the query returns exactly when the
  channel delivers at least as many events as its limit, and then with the rows of the first events, whatever timeouts
  come between; with fewer it waits for ever.\<close>

theorem one_time_query_waits:
  assumes "GetStream (q_FromStream q) c = Inr s" "0 \<le> q_Limit q" "ClosedChannel \<notin> set as"
  shows "executeOneTimeQuery c q plan as =
    Inr (if query_limit q \<le> int (length (events_of as)) then Rows (map (eventToRow (q_SelectCols q)) (take (nat (query_limit q)) (events_of as))) else Blocked)"
  using assms collect_result [of as "[]" "query_limit q" plan "q_SelectCols q"] by (simp add: executeOneTimeQuery_def query_limit_def)

lemma one_time_query_waits_witness:
  "\<forall>plan. executeOneTimeQuery (snd (RegisterStream ''s'' [] 0 NewCatalog)) ((new_query QueryTypeSelect)\<lparr>q_FromStream := ''s'', q_Limit := 2, q_SelectCols := [''a'']\<rparr>) plan
     [Arrive \<lparr>Key = [], Value = VMap [(''a'', VInt 7)], EventTime = 1, Headers = Map.empty, Offset = 0, Partition = 0\<rparr>, TimedOut] = Inr Blocked"
  using one_time_query_waits [of "(new_query QueryTypeSelect)\<lparr>q_FromStream := ''s'', q_Limit := 2, q_SelectCols := [''a'']\<rparr>" "snd (RegisterStream ''s'' [] 0 NewCatalog)"
      _ "[Arrive \<lparr>Key = [], Value = VMap [(''a'', VInt 7)], EventTime = 1, Headers = Map.empty, Offset = 0, Partition = 0\<rparr>, TimedOut]"]
  by (simp add: GetStream_def RegisterStream_def NewCatalog_def new_query_def query_limit_def)

section \<open>Continuous queries\<close>

record ContinuousQuery =
  cq_ID :: string
  cq_Query :: Query
  cq_SourceStreams :: "string list"
  cq_Output :: "sql_value event list"
  cq_Stopped :: bool
  cq_Started :: gtime
  cq_EventsProcessed :: i64
  cq_LastResult :: gtime

definition new_cq :: "string \<Rightarrow> gtime \<Rightarrow> Query \<Rightarrow> ContinuousQuery" where
  "new_cq queryID now q = \<lparr>cq_ID = queryID, cq_Query = q\<lparr>q_ID := queryID\<rparr>, cq_SourceStreams = [q_FromStream q], cq_Output = [], cq_Stopped = False,
     cq_Started = now, cq_EventsProcessed = 0, cq_LastResult = zero_time\<rparr>"

text \<open>Results are sent to an output channel of 1000 places; a result that finds it full is dropped.\<close>

definition emit_result :: "gtime \<Rightarrow> sql_value event \<Rightarrow> ContinuousQuery \<Rightarrow> ContinuousQuery" where
  "emit_result now result cq =
    (if length (cq_Output cq) < 1000
     then cq\<lparr>cq_Output := cq_Output cq @ [result], cq_EventsProcessed := cq_EventsProcessed cq + 1, cq_LastResult := now\<rparr> else cq)"

text \<open>What happens to a running query: an event of the source, a reader of the output, the end of the query. The list holds what
  was read from the output.\<close>

datatype cq_action = SourceEvent gtime "sql_value event" | ReadOutput | StopSignal

fun runContinuousQuery :: "QueryPlan \<Rightarrow> cq_action list \<Rightarrow> ContinuousQuery \<times> sql_value event list \<Rightarrow> ContinuousQuery \<times> sql_value event list" where
  "runContinuousQuery plan [] (cq, got) = (cq, got)"
| "runContinuousQuery plan (ReadOutput # as) (cq, got) =
    (case cq_Output cq of
       [] \<Rightarrow> runContinuousQuery plan as (cq, got)
     | x # xs \<Rightarrow> runContinuousQuery plan as (cq\<lparr>cq_Output := xs\<rparr>, got @ [x]))"
| "runContinuousQuery plan (StopSignal # as) (cq, got) = runContinuousQuery plan as (cq\<lparr>cq_Stopped := True\<rparr>, got)"
| "runContinuousQuery plan (SourceEvent now e # as) (cq, got) =
    runContinuousQuery plan as (if cq_Stopped cq then cq else fold (emit_result now) (sql_processEvent plan e) cq, got)"

fun source_events :: "cq_action list \<Rightarrow> sql_value event list" where
  "source_events [] = []"
| "source_events (SourceEvent now e # as) = e # source_events as"
| "source_events (_ # as) = source_events as"

lemma continuous_run:
  "runContinuousQuery plan as (cq, got) = (cq', got') \<Longrightarrow> subseq (got @ cq_Output cq) base \<Longrightarrow> length (cq_Output cq) \<le> 1000 \<Longrightarrow>
   subseq (got' @ cq_Output cq') (base @ source_events as) \<and> length (cq_Output cq') \<le> 1000"
proof (induction plan as "(cq, got)" arbitrary: cq got base rule: runContinuousQuery.induct)
  case (2 plan as cq got)
  then show ?case by (cases "cq_Output cq") auto
next
  case (4 plan now e as cq got)
  let ?cq = "if cq_Stopped cq then cq else fold (emit_result now) (sql_processEvent plan e) cq"
  have "subseq (got @ cq_Output ?cq) (base @ [e])"
    using 4(3) by (auto simp: processEvent_same emit_result_def subseq_append_iff intro: subseq_order.trans list_emb_append_mono simp flip: append_assoc)
  moreover have "length (cq_Output ?cq) \<le> 1000" using 4(4) by (simp add: processEvent_same emit_result_def)
  ultimately show ?case using 4(1) [of "base @ [e]"] 4(2) by simp
qed auto

section \<open>The executor\<close>

record Executor =
  ex_catalog :: Catalog
  ex_continuousQueries :: "string \<rightharpoonup> ContinuousQuery"

datatype QueryResult = QueryRows "string list" "sql_value list list" int

datatype exec_error = ParseError parse_error | ValidationError validation_error | PlanningError "string \<times> catalog_error" | PlanInvalid string
  | UnsupportedType QueryType | NoSourceStream catalog_error | QueryNotFound string

datatype execution = Failed exec_error | Returned QueryResult | NeverReturns | Panics

definition status :: "string \<Rightarrow> execution" where
  "status s = Returned (QueryRows [''status''] [[VStr s]] 1)"

definition query_id :: "gtime \<Rightarrow> string" where
  "query_id now = ''cq_'' @ show_int (now - unix_epoch_seconds * 1000000000)"

definition executeContinuousQuery :: "gtime \<Rightarrow> Query \<Rightarrow> Executor \<Rightarrow> execution \<times> Executor" where
  "executeContinuousQuery now q ex =
    (let queryID = query_id now
     in (Returned (QueryRows [''query_id'', ''status''] [[VStr queryID, VStr ''started'']] 1),
         ex\<lparr>ex_continuousQueries := (ex_continuousQueries ex)(queryID \<mapsto> new_cq queryID now q)\<rparr>))"

definition one_time_execution :: "Query \<Rightarrow> catalog_error + one_time \<Rightarrow> execution" where
  "one_time_execution q r =
    (case r of Inl e \<Rightarrow> Failed (NoSourceStream e) | Inr Blocked \<Rightarrow> NeverReturns | Inr NilPanic \<Rightarrow> Panics
     | Inr (Rows rows) \<Rightarrow> Returned (QueryRows (q_SelectCols q) rows (int (length rows))))"

definition executeSelect :: "gtime \<Rightarrow> arrival list \<Rightarrow> Query \<Rightarrow> Executor \<Rightarrow> execution \<times> Executor" where
  "executeSelect now as q ex =
    (case Plan (ex_catalog ex) q of
       Inl e \<Rightarrow> (Failed (PlanningError e), ex)
     | Inr plan \<Rightarrow>
         (case ValidatePlan (ex_catalog ex) (Optimize plan) of
            Some s \<Rightarrow> (Failed (PlanInvalid s), ex)
          | None \<Rightarrow>
              (if q_Continuous q then executeContinuousQuery now q ex
               else (one_time_execution q (executeOneTimeQuery (ex_catalog ex) q (Optimize plan) as), ex))))"

definition Execute :: "sql_lib \<Rightarrow> gtime \<Rightarrow> arrival list \<Rightarrow> string \<Rightarrow> Executor \<Rightarrow> execution \<times> Executor" where
  "Execute lib now as sql ex =
    (case Parse lib sql of
       Inl e \<Rightarrow> (Failed (ParseError e), ex)
     | Inr q \<Rightarrow>
         (case Validate_query (ex_catalog ex) q of
            Some e \<Rightarrow> (Failed (ValidationError e), ex)
          | None \<Rightarrow>
              (case q_Type q of
                 QueryTypeSelect \<Rightarrow> executeSelect now as q ex
               | QueryTypeCreateStream \<Rightarrow> (status ''stream created'', ex)
               | QueryTypeCreateTable \<Rightarrow> (status ''table created'', ex)
               | QueryTypeDropStream \<Rightarrow> (status ''stream dropped'', ex)
               | QueryTypeDropTable \<Rightarrow> (status ''table dropped'', ex)
               | t \<Rightarrow> (Failed (UnsupportedType t), ex))))"

definition StopContinuousQuery :: "string \<Rightarrow> Executor \<Rightarrow> exec_error option \<times> Executor" where
  "StopContinuousQuery queryID ex =
    (case ex_continuousQueries ex queryID of
       None \<Rightarrow> (Some (QueryNotFound queryID), ex)
     | Some cq \<Rightarrow> (None, ex\<lparr>ex_continuousQueries := (ex_continuousQueries ex)(queryID := None)\<rparr>))"

definition GetContinuousQuery :: "string \<Rightarrow> Executor \<Rightarrow> exec_error + ContinuousQuery" where
  "GetContinuousQuery queryID ex = (case ex_continuousQueries ex queryID of None \<Rightarrow> Inl (QueryNotFound queryID) | Some cq \<Rightarrow> Inr cq)"

definition ExplainQuery :: "sql_lib \<Rightarrow> explain_lib \<Rightarrow> string \<Rightarrow> Executor \<Rightarrow> exec_error + string" where
  "ExplainQuery lib x sql ex =
    (case Parse lib sql of
       Inl e \<Rightarrow> Inl (ParseError e)
     | Inr q \<Rightarrow> (case Plan (ex_catalog ex) q of Inl e \<Rightarrow> Inl (PlanningError e) | Inr plan \<Rightarrow> Inr (ExplainPlan x (Optimize plan))))"

text \<open>C25: Validated queries ignore their clauses. A select that passes validation gets a plan, which passes validation too, and the
  plan hands every event of the source on unchanged: conditions, joins, windows, groups and selected columns have no effect.\<close>

theorem sql_clauses_ignored:
  assumes "Validate_query c q = None" "q_FromStream q \<noteq> []" "\<forall>j. q_JoinSpec q = Some j \<longrightarrow> js_Right j \<noteq> []"
  shows "\<exists>plan. Plan c q = Inr plan \<and> ValidatePlan c (Optimize plan) = None \<and> (\<forall>event. sql_processEvent (Optimize plan) event = [event])"
proof -
  have "exists_source (q_FromStream q) c" and join: "\<forall>j. q_JoinSpec q = Some j \<longrightarrow> exists_source (js_Right j) c"
    using assms by (auto simp: Validate_query_def split: if_splits option.splits)
  then have sources: "\<exists>sch. cat_GetSchema (q_FromStream q) c = Inr sch" "\<forall>j. q_JoinSpec q = Some j \<longrightarrow> (\<exists>sch. cat_GetSchema (js_Right j) c = Inr sch)"
    by (auto simp: GetSchema_ok exists_source_def)
  obtain n1 where n1: "scan (q_FromStream q) c = Inr n1" using sources(1) by (auto simp: scan_def)
  have "\<exists>n3. plan_join c q n = Inr n3" for n using sources(2) by (auto simp: plan_join_def scan_def split: option.split)
  then obtain n3 where n3: "plan_join c q (plan_filter q n1) = Inr n3" by blast
  then obtain plan where plan: "Plan c q = Inr plan" using n1 by (auto simp: Plan_def Let_def)
  from positive_costs [OF plan] obtain root where "pl_Operators plan = [root]" "validateNode c root = None" by auto
  moreover have "pl_Operators (Optimize plan) = pl_Operators plan" using optimization_never_improves [OF plan] by simp
  ultimately show ?thesis using plan by (simp add: ValidatePlan_def processEvent_same)
qed

lemma sql_clauses_ignored_witness:
  "\<exists>plan. Plan (snd (RegisterStream ''s'' [] 0 NewCatalog)) ((new_query QueryTypeSelect)\<lparr>q_FromStream := ''s'', q_WhereClause := ''a > 1''\<rparr>) = Inr plan \<and>
     (\<forall>event. sql_processEvent (Optimize plan) event = [event])"
  using sql_clauses_ignored [of "snd (RegisterStream ''s'' [] 0 NewCatalog)" "(new_query QueryTypeSelect)\<lparr>q_FromStream := ''s'', q_WhereClause := ''a > 1''\<rparr>"]
  by (auto simp: Validate_query_def exists_source_def StreamExists_def RegisterStream_def NewCatalog_def new_query_def)

text \<open>What a reader gets from a continuous query are events of the source, in order and without duplicates, some of them dropped.\<close>

theorem continuous_query_subsequence:
  assumes "runContinuousQuery plan as (new_cq queryID now q, []) = (cq, got)"
  shows "subseq (got @ cq_Output cq) (source_events as) \<and> length (cq_Output cq) \<le> 1000"
  using continuous_run [OF assms, of "[]"] by (simp add: new_cq_def)

text \<open>Validation accepts tables as sources, but a query over a table fails or, when it is continuous, is reported as started.\<close>

lemma tables_not_queried:
  "cat_streams c (q_FromStream q) = None \<Longrightarrow> executeOneTimeQuery c q plan as = Inl (StreamNotFound (q_FromStream q))"
  by (simp add: executeOneTimeQuery_def GetStream_def)

lemma create_statements_change_nothing:
  "Parse lib sql = Inr q \<Longrightarrow> q_Type q \<noteq> QueryTypeSelect \<Longrightarrow> snd (Execute lib now as sql ex) = ex"
  by (cases "q_Type q") (auto simp: Execute_def split: option.splits)

text \<open>Two continuous queries that are started within the resolution of the clock share their identifier: the first can no longer be stopped.\<close>

lemma same_instant_overwrites:
  "ex_continuousQueries (snd (executeContinuousQuery now q2 (snd (executeContinuousQuery now q1 ex)))) (query_id now) = Some (new_cq (query_id now) now q2)"
  by (simp add: executeContinuousQuery_def Let_def)

section \<open>Aggregate functions\<close>

text \<open>A failed type assertion panics and is \<open>None\<close> here. Sums of machine integers wrap.\<close>

fun addValues :: "sql_value \<Rightarrow> sql_value \<Rightarrow> sql_value option" where
  "addValues (VInt a) b = (case b of VInt b \<Rightarrow> Some (VInt (a + b)) | _ \<Rightarrow> None)"
| "addValues (VInt64 a) b = (case b of VInt64 b \<Rightarrow> Some (VInt64 (a + b)) | _ \<Rightarrow> None)"
| "addValues (VFloat a) b = (case b of VFloat b \<Rightarrow> Some (VFloat (a + b)) | _ \<Rightarrow> None)"
| "addValues a b = Some a"

fun minValue :: "sql_value \<Rightarrow> sql_value \<Rightarrow> sql_value option" where
  "minValue (VInt a) b = (case b of VInt b \<Rightarrow> Some (VInt (if sint a < sint b then a else b)) | _ \<Rightarrow> None)"
| "minValue (VInt64 a) b = (case b of VInt64 b \<Rightarrow> Some (VInt64 (if sint a < sint b then a else b)) | _ \<Rightarrow> None)"
| "minValue (VFloat a) b = (case b of VFloat b \<Rightarrow> Some (VFloat (if a < b then a else b)) | _ \<Rightarrow> None)"
| "minValue a b = Some a"

fun maxValue :: "sql_value \<Rightarrow> sql_value \<Rightarrow> sql_value option" where
  "maxValue (VInt a) b = (case b of VInt b \<Rightarrow> Some (VInt (if sint a > sint b then a else b)) | _ \<Rightarrow> None)"
| "maxValue (VInt64 a) b = (case b of VInt64 b \<Rightarrow> Some (VInt64 (if sint a > sint b then a else b)) | _ \<Rightarrow> None)"
| "maxValue (VFloat a) b = (case b of VFloat b \<Rightarrow> Some (VFloat (if a > b then a else b)) | _ \<Rightarrow> None)"
| "maxValue a b = Some a"

definition extractColumnValue :: "sql_value event \<Rightarrow> string \<Rightarrow> sql_value" where
  "extractColumnValue event column =
    (if column = ''*'' then Value event
     else (case Value event of VMap m \<Rightarrow> (case map_of m column of Some v \<Rightarrow> v | None \<Rightarrow> VNil) | _ \<Rightarrow> VNil))"

definition buildGroupKey :: "(sql_value \<Rightarrow> string) \<Rightarrow> string list \<Rightarrow> sql_value event \<Rightarrow> string" where
  "buildGroupKey fmtv groupByKeys event = concat (map (\<lambda>col. fmtv (extractColumnValue event col) @ ''_'') groupByKeys)"

type_synonym agg_state = "string \<rightharpoonup> sql_value"

definition lookup_state :: "agg_state \<Rightarrow> string \<Rightarrow> sql_value" where
  "lookup_state st k = (case st k of Some v \<Rightarrow> v | None \<Rightarrow> VNil)"

definition count_next :: "agg_state option \<Rightarrow> string \<Rightarrow> sql_value option" where
  "count_next st k = (case st of None \<Rightarrow> Some (VInt 1) | Some s \<Rightarrow> (case lookup_state s k of VInt n \<Rightarrow> Some (VInt (n + 1)) | _ \<Rightarrow> None))"

definition combine :: "(sql_value \<Rightarrow> sql_value \<Rightarrow> sql_value option) \<Rightarrow> agg_state option \<Rightarrow> string \<Rightarrow> sql_value \<Rightarrow> sql_value option" where
  "combine f st k v = (case st of None \<Rightarrow> Some v | Some s \<Rightarrow> f (lookup_state s k) v)"

definition aggregate_one :: "sql_value event \<Rightarrow> agg_state option \<Rightarrow> AggregateSpec \<Rightarrow> agg_state \<Rightarrow> agg_state option" where
  "aggregate_one event st agg result =
    (let k = agg_Alias agg; v = extractColumnValue event (agg_Column agg); set = (\<lambda>x. map_option (\<lambda>y. result(k \<mapsto> y)) x) in
     if agg_Function agg = ''COUNT'' then set (count_next st k)
     else if agg_Function agg = ''SUM'' then set (combine addValues st k v)
     else if agg_Function agg = ''AVG'' then
       Option.bind (combine addValues st k v) (\<lambda>y. map_option (\<lambda>n. result(k \<mapsto> y, k @ ''_count'' \<mapsto> n)) (count_next st (k @ ''_count'')))
     else if agg_Function agg = ''MIN'' then set (combine minValue st k v)
     else if agg_Function agg = ''MAX'' then set (combine maxValue st k v)
     else Some result)"

definition buildAggregateFunction :: "AggregateSpec list \<Rightarrow> sql_value event \<Rightarrow> agg_state option \<Rightarrow> agg_state option" where
  "buildAggregateFunction aggs event st = fold (\<lambda>agg r. Option.bind r (aggregate_one event st agg)) aggs (Some Map.empty)"

text \<open>The operator built without a window always passes an empty state.\<close>

definition buildAggregateOperator :: "(sql_value \<Rightarrow> string) \<Rightarrow> string list \<Rightarrow> AggregateSpec list \<Rightarrow> sql_value event \<Rightarrow> (string \<times> agg_state \<times> gtime) option" where
  "buildAggregateOperator fmtv groupByKeys aggs event =
    map_option (\<lambda>r. (if groupByKeys \<noteq> [] then buildGroupKey fmtv groupByKeys event else Key event, r, EventTime event)) (buildAggregateFunction aggs event None)"

text \<open>Folding the function over events: the count wraps, sums and extrema are exact, but the average keeps the sum.\<close>

fun aggregate_all :: "AggregateSpec list \<Rightarrow> sql_value event list \<Rightarrow> agg_state option \<Rightarrow> agg_state option option" where
  "aggregate_all aggs [] st = Some st"
| "aggregate_all aggs (e # es) st = (case buildAggregateFunction aggs e st of None \<Rightarrow> None | Some r \<Rightarrow> aggregate_all aggs es (Some r))"

lemma aggregate_all_snoc: "aggregate_all aggs (es @ [e]) st = Option.bind (aggregate_all aggs es st) (\<lambda>st'. map_option Some (buildAggregateFunction aggs e st'))"
  by (induction es arbitrary: st) (auto split: option.splits)

lemma build_single: "buildAggregateFunction [agg] e st = aggregate_one e st agg Map.empty"
  by (simp add: buildAggregateFunction_def)

definition agg_holds :: "string \<Rightarrow> string \<Rightarrow> real list \<Rightarrow> agg_state \<Rightarrow> bool" where
  "agg_holds fn k xs r \<longleftrightarrow> (fn = ''COUNT'' \<longrightarrow> r k = Some (VInt (of_nat (length xs)))) \<and>
    (fn = ''SUM'' \<or> fn = ''AVG'' \<longrightarrow> r k = Some (VFloat (sum_list xs))) \<and>
    (fn = ''AVG'' \<longrightarrow> r (k @ ''_count'') = Some (VInt (of_nat (length xs)))) \<and>
    (fn = ''MIN'' \<longrightarrow> r k = Some (VFloat (Min (set xs)))) \<and> (fn = ''MAX'' \<longrightarrow> r k = Some (VFloat (Max (set xs))))"

lemma agg_first:
  assumes "extractColumnValue e col = VFloat y"
  shows "\<exists>r. aggregate_one e None \<lparr>agg_Function = fn, agg_Column = col, agg_Alias = k, agg_Distinct = d\<rparr> Map.empty = Some r \<and> agg_holds fn k [y] r"
  using assms by (auto simp: aggregate_one_def Let_def agg_holds_def combine_def count_next_def)

lemma agg_next:
  assumes "extractColumnValue e col = VFloat y" "agg_holds fn k xs s" "xs \<noteq> []"
  shows "\<exists>r. aggregate_one e (Some s) \<lparr>agg_Function = fn, agg_Column = col, agg_Alias = k, agg_Distinct = d\<rparr> Map.empty = Some r \<and> agg_holds fn k (xs @ [y]) r"
proof -
  have m: "min y (Min (set xs)) = (if Min (set xs) < y then Min (set xs) else y)" "max y (Max (set xs)) = (if Max (set xs) > y then Max (set xs) else y)"
    by (auto simp: min_def max_def)
  consider "fn = ''COUNT''" | "fn = ''SUM''" | "fn = ''AVG''" | "fn = ''MIN''" | "fn = ''MAX''" | "fn \<notin> {''COUNT'', ''SUM'', ''AVG'', ''MIN'', ''MAX''}" by blast
  then show ?thesis
  proof cases
    case 4
    then show ?thesis using assms m(1) by (simp add: aggregate_one_def Let_def agg_holds_def combine_def lookup_state_def)
  next
    case 5
    then show ?thesis using assms m(2) by (simp add: aggregate_one_def Let_def agg_holds_def combine_def lookup_state_def)
  next
    case 6
    then show ?thesis by (simp add: aggregate_one_def Let_def agg_holds_def)
  qed (use assms in \<open>simp_all add: aggregate_one_def Let_def agg_holds_def combine_def count_next_def lookup_state_def\<close>)
qed

theorem aggregates_of_floats:
  assumes "\<forall>e \<in> set es. extractColumnValue e col = VFloat (x e)" "es \<noteq> []"
  shows "\<exists>r. aggregate_all [\<lparr>agg_Function = fn, agg_Column = col, agg_Alias = k, agg_Distinct = d\<rparr>] es None = Some (Some r) \<and> agg_holds fn k (map x es) r"
  using assms(2,1)
proof (induction es rule: rev_nonempty_induct)
  case (single e)
  then show ?case using agg_first [of e col "x e" fn k d] by (auto simp: build_single)
next
  case (snoc e es)
  then obtain r where r: "aggregate_all [\<lparr>agg_Function = fn, agg_Column = col, agg_Alias = k, agg_Distinct = d\<rparr>] es None = Some (Some r)" "agg_holds fn k (map x es) r"
    by auto
  have "extractColumnValue e col = VFloat (x e)" using snoc.prems by simp
  from agg_next [OF this r(2), of d] show ?case using r(1) snoc.hyps by (auto simp: aggregate_all_snoc build_single)
qed

lemma average_is_sum: "agg_holds ''AVG'' k xs r \<Longrightarrow> r k = Some (VFloat (sum_list xs))"
  by (simp add: agg_holds_def)

text \<open>Without a window every event is aggregated alone: its count is one, whatever came before.\<close>

lemma operator_forgets:
  "buildAggregateOperator fmtv [] [\<lparr>agg_Function = ''COUNT'', agg_Column = col, agg_Alias = k, agg_Distinct = d\<rparr>] event = Some (Key event, [k \<mapsto> VInt 1], EventTime event)"
  by (simp add: buildAggregateOperator_def build_single aggregate_one_def Let_def count_next_def)

text \<open>Group keys are not separated from their values: different groups can share a key.\<close>

lemma group_keys_collide:
  "buildGroupKey (\<lambda>v. case v of VStr s \<Rightarrow> s | _ \<Rightarrow> []) [''a'', ''b''] (mk_event [] (VMap [(''a'', VStr ''x_y''), (''b'', VStr ''z'')]) 0 Map.empty) =
   buildGroupKey (\<lambda>v. case v of VStr s \<Rightarrow> s | _ \<Rightarrow> []) [''a'', ''b''] (mk_event [] (VMap [(''a'', VStr ''x''), (''b'', VStr ''y_z'')]) 0 Map.empty)"
  by (simp add: buildGroupKey_def extractColumnValue_def mk_event_def)

end
