(* ===== verification/SQL_Tables.thy ===== *)
theory SQL_Tables
  imports SQL_Queries "HOL-Library.Multiset"
begin

text \<open>
  Tables of the SQL layer, \<open>pkg/sql/stream_table.go\<close>, and functions of the user, \<open>pkg/sql/udf.go\<close>. A stream is materialized into the
  state of a table, event by event; the changes of a table are put on a stream by comparing its state with the one last seen at
  every tick. The channel of a change stream has 1000 places. \<open>fmtv\<close> is the format \<open>%v\<close>.
\<close>

section \<open>Streams to tables\<close>

definition join_keys :: "(sql_value \<Rightarrow> string) \<Rightarrow> (string \<times> sql_value) list \<Rightarrow> string list \<Rightarrow> string" where
  "join_keys fmtv m pks = concat (map (\<lambda>(i, pk). (if i > 0 then ''_'' else []) @ (case map_of m pk of Some v \<Rightarrow> fmtv v | None \<Rightarrow> [])) (enumerate 0 pks))"

definition buildPrimaryKey :: "(sql_value \<Rightarrow> string) \<Rightarrow> string list \<Rightarrow> sql_value event \<Rightarrow> string" where
  "buildPrimaryKey fmtv primaryKeys event =
    (if primaryKeys = [] then Key event
     else (let key = (case Value event of VMap m \<Rightarrow> join_keys fmtv m primaryKeys | _ \<Rightarrow> [])
           in if key = [] then Key event else key))"

definition materialize_event :: "(sql_value \<Rightarrow> string) \<Rightarrow> string list \<Rightarrow> sql_value event \<Rightarrow> Table \<Rightarrow> Table" where
  "materialize_event fmtv primaryKeys event t = t\<lparr>tab_State := (tab_State t)(buildPrimaryKey fmtv primaryKeys event \<mapsto> Value event)\<rparr>"

text \<open>The backend is optional; what it is given is the format of the value. Its errors are only reported.\<close>

datatype backend_call = BackendPut string string | BackendDelete string

definition materialize_calls :: "(sql_value \<Rightarrow> string) \<Rightarrow> bool \<Rightarrow> string list \<Rightarrow> sql_value event \<Rightarrow> backend_call list" where
  "materialize_calls fmtv has_backend primaryKeys event =
    (if has_backend then [BackendPut (buildPrimaryKey fmtv primaryKeys event) (fmtv (Value event))] else [])"

datatype table_error = CatalogError catalog_error | TableAlreadyExists string | StreamAlreadyExists string

definition MaterializeStream :: "string \<Rightarrow> string \<Rightarrow> string list \<Rightarrow> Catalog \<Rightarrow> table_error option \<times> Catalog" where
  "MaterializeStream streamName tableName primaryKeys c =
    (case GetStream streamName c of
       Inl e \<Rightarrow> (Some (CatalogError e), c)
     | Inr s \<Rightarrow>
         (if TableExists tableName c then (Some (TableAlreadyExists tableName), c)
          else (case RegisterTable tableName (src_Schema s) primaryKeys c of (e, c') \<Rightarrow> (map_option CatalogError e, c'))))"

definition update_table :: "(Table \<Rightarrow> Table) \<Rightarrow> string \<Rightarrow> Catalog \<Rightarrow> Catalog" where
  "update_table f name c = c\<lparr>cat_tables := (cat_tables c)(name := map_option f (cat_tables c name))\<rparr>"

definition UpdateTable :: "(sql_value \<Rightarrow> string) \<Rightarrow> bool \<Rightarrow> string \<Rightarrow> string \<Rightarrow> sql_value \<Rightarrow> Catalog \<Rightarrow> catalog_error option \<times> backend_call list \<times> Catalog" where
  "UpdateTable fmtv has_backend tableName key v c =
    (case GetTable tableName c of
       Inl e \<Rightarrow> (Some e, [], c)
     | Inr t \<Rightarrow>
         (if v = VNil
          then (None, if has_backend then [BackendDelete key] else [], update_table (\<lambda>t. t\<lparr>tab_State := (tab_State t)(key := None)\<rparr>) tableName c)
          else (None, if has_backend then [BackendPut key (fmtv v)] else [], update_table (\<lambda>t. t\<lparr>tab_State := (tab_State t)(key \<mapsto> v)\<rparr>) tableName c)))"

definition DeleteFromTable :: "(sql_value \<Rightarrow> string) \<Rightarrow> bool \<Rightarrow> string \<Rightarrow> string \<Rightarrow> Catalog \<Rightarrow> catalog_error option \<times> backend_call list \<times> Catalog" where
  "DeleteFromTable fmtv has_backend tableName key c = UpdateTable fmtv has_backend tableName key VNil c"

definition QueryTable :: "string list \<Rightarrow> string \<Rightarrow> (string \<Rightarrow> sql_value \<Rightarrow> bool) \<Rightarrow> Catalog \<Rightarrow> catalog_error + sql_value list" where
  "QueryTable order tableName predicate c =
    map_sum id (\<lambda>t. map (\<lambda>k. the (tab_State t k)) (filter (\<lambda>k. predicate k (the (tab_State t k))) order)) (GetTable tableName c)"

definition GetTableSnapshot :: "string \<Rightarrow> Catalog \<Rightarrow> catalog_error + (string \<rightharpoonup> sql_value)" where
  "GetTableSnapshot tableName c = map_sum id tab_State (GetTable tableName c)"

definition GetTableSize :: "string \<Rightarrow> Catalog \<Rightarrow> catalog_error + nat" where
  "GetTableSize tableName c = map_sum id (\<lambda>t. len_map (tab_State t)) (GetTable tableName c)"

text \<open>A materialized table holds for each key the value of the last event with the key.\<close>

theorem materialized_table:
  "tab_State (fold (materialize_event fmtv pks) events t) k =
    (case filter (\<lambda>e. buildPrimaryKey fmtv pks e = k) events of [] \<Rightarrow> tab_State t k | es \<Rightarrow> Some (Value (last es)))"
proof (induction events rule: rev_induct)
  case (snoc e es)
  then show ?case by (auto simp: materialize_event_def split: list.splits)
qed simp

text \<open>Keys of several columns are joined with underscores, so different rows can share one.\<close>

lemma primary_keys_collide:
  "buildPrimaryKey (\<lambda>v. case v of VStr s \<Rightarrow> s | _ \<Rightarrow> []) [''a'', ''b''] (mk_event ''1'' (VMap [(''a'', VStr ''x_y''), (''b'', VStr ''z'')]) 0 Map.empty) =
   buildPrimaryKey (\<lambda>v. case v of VStr s \<Rightarrow> s | _ \<Rightarrow> []) [''a'', ''b''] (mk_event ''2'' (VMap [(''a'', VStr ''x''), (''b'', VStr ''y_z'')]) 0 Map.empty)"
  by (simp add: buildPrimaryKey_def join_keys_def mk_event_def)

section \<open>Tables to streams\<close>

text \<open>Comparing two values of an interface type panics when both are maps.\<close>

definition go_differ :: "sql_value \<Rightarrow> sql_value \<Rightarrow> bool option" where
  "go_differ a b = (case (a, b) of (VMap _, VMap _) \<Rightarrow> None | _ \<Rightarrow> Some (a \<noteq> b))"

definition change_event :: "gtime \<Rightarrow> string \<Rightarrow> sql_value \<Rightarrow> string \<Rightarrow> sql_value event" where
  "change_event now key v change_type = \<lparr>Key = key, Value = v, EventTime = now, Headers = [''change_type'' \<mapsto> change_type], Offset = 0, Partition = 0\<rparr>"

type_synonym changelog = "sql_value event list \<times> (string \<rightharpoonup> sql_value)"

definition changed :: "(string \<rightharpoonup> sql_value) \<Rightarrow> string \<Rightarrow> sql_value \<Rightarrow> bool option" where
  "changed prev k v = (case prev k of None \<Rightarrow> Some True | Some p \<Rightarrow> go_differ p v)"

fun emit_updates :: "gtime \<Rightarrow> (string \<rightharpoonup> sql_value) \<Rightarrow> string list \<Rightarrow> changelog \<Rightarrow> changelog option" where
  "emit_updates now st [] s = Some s"
| "emit_updates now st (k # ks) (ch, prev) =
    (case changed prev k (the (st k)) of
       None \<Rightarrow> None
     | Some False \<Rightarrow> emit_updates now st ks (ch, prev)
     | Some True \<Rightarrow>
         (if length ch < 1000 then emit_updates now st ks (ch @ [change_event now k (the (st k)) ''update''], prev(k \<mapsto> the (st k)))
          else emit_updates now st ks (ch, prev)))"

fun emit_deletes :: "gtime \<Rightarrow> (string \<rightharpoonup> sql_value) \<Rightarrow> string list \<Rightarrow> changelog \<Rightarrow> changelog" where
  "emit_deletes now st [] s = s"
| "emit_deletes now st (k # ks) (ch, prev) =
    (if st k = None \<and> length ch < 1000 then emit_deletes now st ks (ch @ [change_event now k VNil ''delete''], prev(k := None))
     else emit_deletes now st ks (ch, prev))"

text \<open>One tick; \<open>order\<close> and \<open>order'\<close> are the orders of the loops over the table and over the snapshot.\<close>

definition streamify_tick :: "gtime \<Rightarrow> (string \<rightharpoonup> sql_value) \<Rightarrow> string list \<Rightarrow> string list \<Rightarrow> changelog \<Rightarrow> changelog option" where
  "streamify_tick now st order order' s = map_option (emit_deletes now st order') (emit_updates now st order s)"

definition StreamifyTable :: "nat \<Rightarrow> string \<Rightarrow> string \<Rightarrow> Catalog \<Rightarrow> table_error option \<times> Catalog" where
  "StreamifyTable ch tableName streamName c =
    (case GetTable tableName c of
       Inl e \<Rightarrow> (Some (CatalogError e), c)
     | Inr t \<Rightarrow>
         (if StreamExists streamName c then (Some (StreamAlreadyExists streamName), c)
          else (case RegisterStream streamName (tab_Schema t) ch c of (e, c') \<Rightarrow> (map_option CatalogError e, c'))))"

text \<open>A run: ticks on the state the table has then, and reads of the stream; the events read are kept.\<close>

datatype change_action = Tick gtime "string \<rightharpoonup> sql_value" "string list" "string list" | ReadChange

fun streamify_run :: "change_action list \<Rightarrow> changelog \<times> sql_value event list \<Rightarrow> (changelog \<times> sql_value event list) option" where
  "streamify_run [] s = Some s"
| "streamify_run (Tick now st order order' # as) (cl, got) =
    (case streamify_tick now st order order' cl of None \<Rightarrow> None | Some cl' \<Rightarrow> streamify_run as (cl', got))"
| "streamify_run (ReadChange # as) ((ch, prev), got) =
    (case ch of [] \<Rightarrow> streamify_run as ((ch, prev), got) | e # es \<Rightarrow> streamify_run as ((es, prev), got @ [e]))"

text \<open>A reader that applies the changes to a table of its own.\<close>

definition apply_change :: "sql_value event \<Rightarrow> (string \<rightharpoonup> sql_value) \<Rightarrow> (string \<rightharpoonup> sql_value)" where
  "apply_change e m = (if Headers e ''change_type'' = Some ''delete'' then m(Key e := None) else m(Key e \<mapsto> Value e))"

definition replay :: "sql_value event list \<Rightarrow> (string \<rightharpoonup> sql_value)" where
  "replay es = fold apply_change es Map.empty"

lemma apply_change_event [simp]: "apply_change (change_event now k v ''update'') m = m(k \<mapsto> v)" "apply_change (change_event now k v ''delete'') m = m(k := None)"
  by (simp_all add: apply_change_def change_event_def)

lemma updates_replay:
  "emit_updates now st ks (ch, prev) = Some (ch', prev') \<Longrightarrow> fold apply_change ch m = prev \<Longrightarrow> fold apply_change ch' m = prev'"
  by (induction now st ks "(ch, prev)" arbitrary: ch prev rule: emit_updates.induct) (auto split: option.splits bool.splits if_splits)

lemma deletes_replay:
  "emit_deletes now st ks (ch, prev) = (ch', prev') \<Longrightarrow> fold apply_change ch m = prev \<Longrightarrow> fold apply_change ch' m = prev'"
  by (induction now st ks "(ch, prev)" arbitrary: ch prev rule: emit_deletes.induct) (auto split: if_splits)

lemma tick_replay:
  "streamify_tick now st order order' (ch, prev) = Some (ch', prev') \<Longrightarrow> fold apply_change ch m = prev \<Longrightarrow> fold apply_change ch' m = prev'"
  using updates_replay deletes_replay by (fastforce simp: streamify_tick_def)

lemma run_replay:
  "streamify_run as ((ch, prev), got) = Some ((ch', prev'), got') \<Longrightarrow> fold apply_change ch (replay got) = prev \<Longrightarrow>
   fold apply_change ch' (replay got') = prev'"
proof (induction as "((ch, prev), got)" arbitrary: ch prev got rule: streamify_run.induct)
  case (2 now st order order' as got ch prev)
  then obtain ch1 prev1 where "streamify_tick now st order order' (ch, prev) = Some (ch1, prev1)" by (auto split: option.splits)
  then show ?case using 2 tick_replay by (auto split: option.splits)
next
  case (3 as ch prev got)
  then show ?case by (cases ch) (auto simp: replay_def)
qed auto

lemma not_differ: "go_differ a b = Some False \<Longrightarrow> a = b"
  by (auto simp: go_differ_def split: sql_value.splits)

lemma updates_complete:
  "emit_updates now st ks (ch, prev) = Some (ch', prev') \<Longrightarrow> length ch + length ks \<le> 1000 \<Longrightarrow>
   (\<forall>k. prev' k = (if k \<in> set ks then Some (the (st k)) else prev k)) \<and> length ch' \<le> length ch + length ks"
proof (induction ks arbitrary: ch prev)
  case (Cons k ks)
  show ?case
  proof (cases "changed prev k (the (st k))")
    case (Some d)
    show ?thesis
    proof (cases d)
      case True
      then have "emit_updates now st ks (ch @ [change_event now k (the (st k)) ''update''], prev(k \<mapsto> the (st k))) = Some (ch', prev')"
        using Cons.prems Some by simp
      from Cons.IH [OF this] show ?thesis using Cons.prems(2) by auto
    next
      case False
      then have "prev k = Some (the (st k))" using Some by (auto simp: changed_def dest: not_differ split: option.splits)
      then show ?thesis using Cons.IH [of ch prev] Some Cons.prems False by auto
    qed
  qed (use Cons.prems in simp)
qed simp

lemma deletes_complete:
  "emit_deletes now st ks (ch, prev) = (ch', prev') \<Longrightarrow> length ch + length ks \<le> 1000 \<Longrightarrow>
   (\<forall>k. prev' k = (if k \<in> set ks \<and> st k = None then None else prev k))"
proof (induction ks arbitrary: ch prev)
  case (Cons k ks)
  show ?case
  proof (cases "st k = None \<and> length ch < 1000")
    case True
    have "emit_deletes now st ks (ch @ [change_event now k VNil ''delete''], prev(k := None)) = (ch', prev')" using Cons.prems(1) True by simp
    from Cons.IH [OF this] show ?thesis using Cons.prems(2) True by auto
  next
    case False
    then show ?thesis using Cons.IH [of ch prev] Cons.prems by auto
  qed
qed simp

lemma tick_complete:
  assumes "streamify_tick now st order order' (ch, prev) = Some (ch', prev')" "set order = dom st" "dom prev \<union> dom st \<subseteq> set order'"
    and "length ch + length order + length order' \<le> 1000"
  shows "prev' = st"
proof
  obtain ch1 prev1 where u: "emit_updates now st order (ch, prev) = Some (ch1, prev1)" and d: "emit_deletes now st order' (ch1, prev1) = (ch', prev')"
    using assms(1) by (auto simp: streamify_tick_def)
  have p1: "prev1 k = (if k \<in> dom st then st k else prev k)" and l1: "length ch1 \<le> length ch + length order" for k
    using updates_complete [OF u] assms(2,4) by auto
  fix k
  have "prev' k = (if k \<in> set order' \<and> st k = None then None else prev1 k)" using deletes_complete [OF d] l1 assms(4) by simp
  then show "prev' k = st k" using p1 [of k] assms(3) by (cases "st k") auto
qed

text \<open>C27: A change stream describes its table. Whatever ticks and reads happened, replaying the events read and those in the channel
  gives the state last seen; and after a tick that finds room in the channel that is the state of the table.\<close>

theorem changelog_replays_table:
  assumes "streamify_run as (([], Map.empty), []) = Some ((ch, prev), got)"
  shows "replay (got @ ch) = prev \<and>
    (\<forall>now st order order' ch' prev'. streamify_tick now st order order' (ch, prev) = Some (ch', prev') \<longrightarrow> set order = dom st \<longrightarrow>
       dom prev \<union> dom st \<subseteq> set order' \<longrightarrow> length ch + length order + length order' \<le> 1000 \<longrightarrow> replay (got @ ch') = st)"
proof -
  have r: "fold apply_change ch (replay got) = prev" using run_replay [OF assms] by (simp add: replay_def)
  moreover have "fold apply_change ch' (replay got) = prev'" if "streamify_tick now st order order' (ch, prev) = Some (ch', prev')" for now st order order' ch' prev'
    by (rule tick_replay [OF that r])
  ultimately show ?thesis using tick_complete by (fastforce simp: replay_def)
qed

lemma changelog_replays_table_witness:
  "streamify_run [Tick 1 [''a'' \<mapsto> VInt 1] [''a''] [''a''], ReadChange] (([], Map.empty), []) = Some (([], [''a'' \<mapsto> VInt 1]), [change_event 1 ''a'' (VInt 1) ''update'']) \<and>
   replay [change_event 1 ''a'' (VInt 1) ''update''] = [''a'' \<mapsto> VInt 1]"
proof -
  have run: "streamify_run [Tick 1 [''a'' \<mapsto> VInt 1] [''a''] [''a''], ReadChange] (([], Map.empty), []) = Some (([], [''a'' \<mapsto> VInt 1]), [change_event 1 ''a'' (VInt 1) ''update''])"
    by (simp add: streamify_tick_def changed_def)
  then show ?thesis using changelog_replays_table [OF run] by simp
qed

text \<open>A table whose rows are maps can be put on a stream only until its second tick.\<close>

lemma second_tick_panics:
  assumes "st k = Some (VMap m)" "prev k = Some (VMap m')"
  shows "streamify_tick now st (k # ks) order' (ch, prev) = None"
  using assms by (simp add: streamify_tick_def changed_def go_differ_def)

section \<open>Temporal tables\<close>

record TemporalRow =
  tr_Value :: sql_value
  tr_ValidFrom :: gtime
  tr_ValidTo :: gtime

record TemporalTable =
  tt_Name :: string
  tt_Schema :: Schema
  tt_Versions :: "string \<rightharpoonup> TemporalRow list"

definition NewTemporalTable :: "string \<Rightarrow> Schema \<Rightarrow> TemporalTable" where
  "NewTemporalTable name schema = \<lparr>tt_Name = name, tt_Schema = schema, tt_Versions = Map.empty\<rparr>"

definition close_last :: "gtime \<Rightarrow> TemporalRow list \<Rightarrow> TemporalRow list" where
  "close_last ts versions =
    (if versions \<noteq> [] \<and> time_IsZero (tr_ValidTo (last versions)) then butlast versions @ [(last versions)\<lparr>tr_ValidTo := ts\<rparr>] else versions)"

definition temporal_Insert :: "string \<Rightarrow> sql_value \<Rightarrow> gtime \<Rightarrow> TemporalTable \<Rightarrow> TemporalTable" where
  "temporal_Insert key v ts tt =
    tt\<lparr>tt_Versions := (tt_Versions tt)(key \<mapsto> close_last ts (case tt_Versions tt key of None \<Rightarrow> [] | Some vs \<Rightarrow> vs) @
        [\<lparr>tr_Value = v, tr_ValidFrom = ts, tr_ValidTo = zero_time\<rparr>])\<rparr>"

datatype temporal_error = KeyNotFound string | NoVersion gtime

definition row_valid_at :: "gtime \<Rightarrow> TemporalRow \<Rightarrow> bool" where
  "row_valid_at ts row \<longleftrightarrow> (time_Before (tr_ValidFrom row) ts \<or> time_Equal (tr_ValidFrom row) ts) \<and>
     (time_IsZero (tr_ValidTo row) \<or> time_After (tr_ValidTo row) ts)"

definition QueryAsOf :: "string \<Rightarrow> gtime \<Rightarrow> TemporalTable \<Rightarrow> temporal_error + sql_value" where
  "QueryAsOf key ts tt =
    (case tt_Versions tt key of
       None \<Rightarrow> Inl (KeyNotFound key)
     | Some versions \<Rightarrow> (case List.find (row_valid_at ts) versions of Some row \<Rightarrow> Inr (tr_Value row) | None \<Rightarrow> Inl (NoVersion ts)))"

definition QueryHistory :: "string \<Rightarrow> TemporalTable \<Rightarrow> temporal_error + TemporalRow list" where
  "QueryHistory key tt = (case tt_Versions tt key of None \<Rightarrow> Inl (KeyNotFound key) | Some versions \<Rightarrow> Inr versions)"

definition insert_all :: "string \<Rightarrow> (sql_value \<times> gtime) list \<Rightarrow> TemporalTable \<Rightarrow> TemporalTable" where
  "insert_all key rows tt = fold (\<lambda>(v, ts) tt. temporal_Insert key v ts tt) rows tt"

text \<open>The versions after inserts in the order of time: each is valid until the next.\<close>

fun version_list :: "(sql_value \<times> gtime) list \<Rightarrow> TemporalRow list" where
  "version_list [] = []"
| "version_list [(v, ts)] = [\<lparr>tr_Value = v, tr_ValidFrom = ts, tr_ValidTo = 0\<rparr>]"
| "version_list ((v, ts) # (w, ts') # rows) = \<lparr>tr_Value = v, tr_ValidFrom = ts, tr_ValidTo = ts'\<rparr> # version_list ((w, ts') # rows)"

lemma version_list_snoc: "version_list (rows @ [(v, ts)]) = close_last ts (version_list rows) @ [\<lparr>tr_Value = v, tr_ValidFrom = ts, tr_ValidTo = 0\<rparr>]"
proof (induction rows rule: version_list.induct)
  case (3 v' t' w t'' rows)
  have ne: "version_list ((w, t'') # rows) \<noteq> []" by (cases rows) auto
  then show ?case using 3 by (simp add: close_last_def)
qed (simp_all add: close_last_def gotime)

lemma insert_all_versions:
  assumes "rows \<noteq> []" "tt_Versions tt key = None"
  shows "tt_Versions (insert_all key rows tt) key = Some (version_list rows)"
  using assms
proof (induction rows rule: rev_induct)
  case (snoc r rows)
  obtain v ts where r: "r = (v, ts)" by fastforce
  show ?case
  proof (cases "rows = []")
    case True
    then show ?thesis using snoc.prems r by (simp add: insert_all_def temporal_Insert_def close_last_def gotime)
  next
    case False
    then have "tt_Versions (insert_all key rows tt) key = Some (version_list rows)" using snoc by simp
    then show ?thesis using r by (simp add: insert_all_def temporal_Insert_def version_list_snoc gotime)
  qed
qed simp

lemma find_version:
  "sorted (map snd rows) \<Longrightarrow> \<forall>(v, t) \<in> set rows. 0 < t \<Longrightarrow>
   map_option tr_Value (List.find (row_valid_at ts) (version_list rows)) = (if filter (\<lambda>(v, t). t \<le> ts) rows = [] then None else Some (fst (last (filter (\<lambda>(v, t). t \<le> ts) rows))))"
proof (induction rows rule: version_list.induct)
  case (3 v t w t' rows)
  have IH: "map_option tr_Value (List.find (row_valid_at ts) (version_list ((w, t') # rows))) =
      (if filter (\<lambda>(v, t). t \<le> ts) ((w, t') # rows) = [] then None else Some (fst (last (filter (\<lambda>(v, t). t \<le> ts) ((w, t') # rows)))))"
    using 3 by simp
  show ?case
  proof (cases "t \<le> ts \<and> ts < t'")
    case True
    then have "filter (\<lambda>(v, t). t \<le> ts) ((w, t') # rows) = []" using 3(2) by (auto simp: filter_empty_conv)
    then show ?thesis using True by (simp add: row_valid_at_def gotime le_less)
  next
    case False
    have "row_valid_at ts \<lparr>tr_Value = v, tr_ValidFrom = t, tr_ValidTo = t'\<rparr> \<longleftrightarrow> t \<le> ts \<and> ts < t'" using 3(3) by (auto simp: row_valid_at_def gotime)
    moreover have "t \<le> ts \<Longrightarrow> filter (\<lambda>(v, t). t \<le> ts) ((w, t') # rows) \<noteq> []" using False by auto
    moreover have "\<not> t \<le> ts \<Longrightarrow> filter (\<lambda>(v, t). t \<le> ts) ((w, t') # rows) = []" using 3(2) by (auto simp: filter_empty_conv)
    ultimately show ?thesis using IH False by auto
  qed
qed (auto simp: row_valid_at_def gotime)

text \<open>When rows are inserted in the order of their times a query as of a time gives the last row that is not later.\<close>

theorem query_as_of:
  assumes "rows \<noteq> []" "tt_Versions tt key = None" "sorted (map snd rows)" "\<forall>(v, t) \<in> set rows. 0 < t"
  shows "QueryAsOf key ts (insert_all key rows tt) =
    (if filter (\<lambda>(v, t). t \<le> ts) rows = [] then Inl (NoVersion ts) else Inr (fst (last (filter (\<lambda>(v, t). t \<le> ts) rows))))"
  using find_version [OF assms(3,4), of ts] by (auto simp: QueryAsOf_def insert_all_versions [OF assms(1,2)] split: option.splits if_splits)

text \<open>A row inserted late closes the current one in its past, and is the current row itself from then on.\<close>

lemma late_row_becomes_current:
  assumes "tt_Versions tt key = None" "0 < t1" "t1 < t2" "t2 \<le> ts"
  shows "QueryAsOf key ts (insert_all key [(new, t2), (old, t1)] tt) = Inr old"
  using assms by (simp add: QueryAsOf_def insert_all_versions row_valid_at_def gotime)

end
