(* ===== verification/SQL_Functions.thy ===== *)
theory SQL_Functions
  imports SQL_Tables IoT_Sensors
begin

text \<open>
  Functions of the user in SQL, \<open>pkg/sql/udf.go\<close>: registration against what reflection says of a function, calls, the built-in functions,
  and the two stateful examples. Strings are their bytes; changing case and the format \<open>%v\<close> are parameters, numbers of
  type \<open>float64\<close> are exact reals.
\<close>

section \<open>Registration and calls\<close>

datatype udf_error = NotAFunction | WrongArguments nat nat | WrongResults | SecondNotError | NotASlice | NotTwoArguments
  | UdfCatalog catalog_error | NoResults | UdfFailed string

definition validateUDFFunction :: "go_type \<Rightarrow> nat \<Rightarrow> udf_error option" where
  "validateUDFFunction ty expectedArgs =
    (if \<not> ty_IsFunc ty then Some NotAFunction
     else if \<not> ty_IsVariadic ty \<and> ty_NumIn ty \<noteq> 1 \<and> ty_NumIn ty \<noteq> expectedArgs then Some (WrongArguments expectedArgs (ty_NumIn ty))
     else if ty_NumOut ty < 1 \<or> ty_NumOut ty > 2 then Some WrongResults
     else if ty_NumOut ty = 2 \<and> \<not> ty_Out1IsError ty then Some SecondNotError else None)"

definition validateAggregateFunction :: "go_type \<Rightarrow> udf_error option" where
  "validateAggregateFunction ty =
    (if \<not> ty_IsFunc ty then Some NotAFunction else if ty_NumIn ty \<noteq> 2 then Some NotTwoArguments
     else if ty_NumOut ty < 1 \<or> ty_NumOut ty > 2 then Some WrongResults else None)"

definition validateTableUDFFunction :: "go_type \<Rightarrow> udf_error option" where
  "validateTableUDFFunction ty =
    (if \<not> ty_IsFunc ty then Some NotAFunction else if ty_NumOut ty < 1 then Some WrongResults
     else if \<not> ty_Out0IsSlice ty then Some NotASlice else None)"

text \<open>Registration of a function whose type has been checked.\<close>

definition register_checked :: "udf_error option \<Rightarrow> string \<Rightarrow> DataType list \<Rightarrow> DataType \<Rightarrow> (sql_value list \<Rightarrow> udf_call) \<Rightarrow> go_type \<Rightarrow> Catalog \<Rightarrow> udf_error option \<times> Catalog" where
  "register_checked check name ins out f ty c =
    (case check of Some e \<Rightarrow> (Some e, c) | None \<Rightarrow> (case RegisterUDF name ins out f ty c of (e, c') \<Rightarrow> (map_option UdfCatalog e, c')))"

definition RegisterScalarUDF :: "string \<Rightarrow> DataType list \<Rightarrow> DataType \<Rightarrow> (sql_value list \<Rightarrow> udf_call) \<Rightarrow> go_type \<Rightarrow> Catalog \<Rightarrow> udf_error option \<times> Catalog" where
  "RegisterScalarUDF name ins out f ty c = register_checked (validateUDFFunction ty (length ins)) name ins out f ty c"

definition RegisterAggregateUDF :: "string \<Rightarrow> DataType \<Rightarrow> DataType \<Rightarrow> (sql_value list \<Rightarrow> udf_call) \<Rightarrow> go_type \<Rightarrow> Catalog \<Rightarrow> udf_error option \<times> Catalog" where
  "RegisterAggregateUDF name input out f ty c = register_checked (validateAggregateFunction ty) name [input] out f ty c"

definition RegisterTableUDF :: "string \<Rightarrow> DataType list \<Rightarrow> (sql_value list \<Rightarrow> udf_call) \<Rightarrow> go_type \<Rightarrow> Catalog \<Rightarrow> udf_error option \<times> Catalog" where
  "RegisterTableUDF name ins f ty c = register_checked (validateTableUDFFunction ty) name ins DataTypeString f ty c"

text \<open>Calling through reflection panics on a nil argument, which has no reflected value, and on a wrong number of arguments.\<close>

datatype udf_result = UdfPanic | UdfError udf_error | UdfValue sql_value

definition reflect_call :: "UDF \<Rightarrow> sql_value list \<Rightarrow> udf_call" where
  "reflect_call u args =
    (if VNil \<in> set args then CallPanic
     else if ty_IsVariadic (udf_type u) \<and> length args + 1 < ty_NumIn (udf_type u) then CallPanic
     else if \<not> ty_IsVariadic (udf_type u) \<and> length args \<noteq> ty_NumIn (udf_type u) then CallPanic
     else udf_Function u args)"

definition CallUDF :: "string \<Rightarrow> sql_value list \<Rightarrow> Catalog \<Rightarrow> udf_result" where
  "CallUDF name args c =
    (case GetUDF name c of
       Inl e \<Rightarrow> UdfError (UdfCatalog e)
     | Inr u \<Rightarrow>
         (let ty = udf_type u in
          if ty_NumIn ty \<noteq> 1 \<and> ty_NumIn ty \<noteq> length args \<and> \<not> ty_IsVariadic ty then UdfError (WrongArguments (ty_NumIn ty) (length args))
          else (case reflect_call u args of
              CallPanic \<Rightarrow> UdfPanic
            | CallResults v e \<Rightarrow>
                (if ty_NumOut ty = 0 then UdfError NoResults
                 else (case if ty_NumOut ty = 2 then e else None of Some msg \<Rightarrow> UdfError (UdfFailed msg)
                     | None \<Rightarrow> UdfValue (case v of Some x \<Rightarrow> x | None \<Rightarrow> VNil))))))"

section \<open>Built-in functions\<close>

definition ok :: "sql_value \<Rightarrow> udf_call" where "ok v = CallResults (Some v) None"

definition bad :: "string \<Rightarrow> udf_call" where "bad msg = CallResults None (Some msg)"

definition udf_upper :: "(string \<Rightarrow> string) \<Rightarrow> sql_value list \<Rightarrow> udf_call" where
  "udf_upper up args = (case args of [VStr s] \<Rightarrow> ok (VStr (up s)) | [_] \<Rightarrow> bad ''upper requires string argument'' | _ \<Rightarrow> bad ''upper requires 1 argument'')"

definition udf_lower :: "(string \<Rightarrow> string) \<Rightarrow> sql_value list \<Rightarrow> udf_call" where
  "udf_lower low args = (case args of [VStr s] \<Rightarrow> ok (VStr (low s)) | [_] \<Rightarrow> bad ''lower requires string argument'' | _ \<Rightarrow> bad ''lower requires 1 argument'')"

fun concat_loop :: "string \<Rightarrow> sql_value list \<Rightarrow> udf_call" where
  "concat_loop result [] = ok (VStr result)"
| "concat_loop result (VStr s # args) = concat_loop (result @ s) args"
| "concat_loop result (_ # args) = bad ''concat requires string arguments''"

definition udf_concat :: "sql_value list \<Rightarrow> udf_call" where
  "udf_concat args = (if length args < 2 then bad ''concat requires at least 2 arguments'' else concat_loop [] args)"

text \<open>The sum of start and length wraps; a slice that ends before it starts panics.\<close>

definition substring :: "string \<Rightarrow> i64 \<Rightarrow> i64 \<Rightarrow> udf_call" where
  "substring s start len =
    (if sint start < 0 \<or> sint start \<ge> int (length s) then ok (VStr [])
     else (let e = sint (start + len); e' = (if e > int (length s) then int (length s) else e)
           in if e' < sint start then CallPanic else ok (VStr (take (nat e' - nat (sint start)) (drop (nat (sint start)) s)))))"

definition udf_substring :: "sql_value list \<Rightarrow> udf_call" where
  "udf_substring args =
    (case args of
       [VStr s, VInt start, VInt len] \<Rightarrow> substring s start len
     | [VStr s, VInt start, _] \<Rightarrow> bad ''substring requires int as third argument''
     | [VStr s, _, _] \<Rightarrow> bad ''substring requires int as second argument''
     | [_, _, _] \<Rightarrow> bad ''substring requires string as first argument''
     | _ \<Rightarrow> bad ''substring requires 3 arguments'')"

definition udf_abs :: "sql_value list \<Rightarrow> udf_call" where
  "udf_abs args =
    (case args of
       [VInt v] \<Rightarrow> ok (VInt (if sint v < 0 then - v else v))
     | [VInt64 v] \<Rightarrow> ok (VInt64 (if sint v < 0 then - v else v))
     | [VFloat v] \<Rightarrow> ok (VFloat (if v < 0 then - v else v))
     | [_] \<Rightarrow> bad ''abs requires numeric argument''
     | _ \<Rightarrow> bad ''abs requires 1 argument'')"

definition to_int :: "real \<Rightarrow> int" where
  "to_int x = (if 0 \<le> x then \<lfloor>x\<rfloor> else \<lceil>x\<rceil>)"

definition udf_round :: "sql_value list \<Rightarrow> udf_call" where
  "udf_round args =
    (case args of [VFloat x] \<Rightarrow> ok (VFloat (of_int (to_int (x + 1 / 2)))) | [_] \<Rightarrow> bad ''round requires float argument'' | _ \<Rightarrow> bad ''round requires 1 argument'')"

definition udf_coalesce :: "sql_value list \<Rightarrow> udf_call" where
  "udf_coalesce args = (if args = [] then bad ''coalesce requires at least 1 argument''
     else (case List.find (\<lambda>v. v \<noteq> VNil) args of Some v \<Rightarrow> ok v | None \<Rightarrow> ok VNil))"

definition udf_to_string :: "(sql_value \<Rightarrow> string) \<Rightarrow> sql_value list \<Rightarrow> udf_call" where
  "udf_to_string fmtv args = (case args of [v] \<Rightarrow> ok (VStr (fmtv v)) | _ \<Rightarrow> bad ''to_string requires 1 argument'')"

definition builtin_type :: go_type where
  "builtin_type = \<lparr>ty_IsFunc = True, ty_IsVariadic = True, ty_NumIn = 1, ty_NumOut = 2, ty_Out1IsError = True, ty_Out0IsSlice = False\<rparr>"

definition builtins :: "(string \<Rightarrow> string) \<Rightarrow> (string \<Rightarrow> string) \<Rightarrow> (sql_value \<Rightarrow> string) \<Rightarrow> (string \<times> DataType list \<times> DataType \<times> (sql_value list \<Rightarrow> udf_call)) list" where
  "builtins up low fmtv =
    [(''upper'', [DataTypeString], DataTypeString, udf_upper up), (''lower'', [DataTypeString], DataTypeString, udf_lower low),
     (''concat'', [DataTypeString, DataTypeString], DataTypeString, udf_concat),
     (''substring'', [DataTypeString, DataTypeInt, DataTypeInt], DataTypeString, udf_substring),
     (''abs'', [DataTypeFloat], DataTypeFloat, udf_abs), (''round'', [DataTypeFloat], DataTypeFloat, udf_round),
     (''coalesce'', [], DataTypeString, udf_coalesce), (''to_string'', [], DataTypeString, udf_to_string fmtv)]"

definition NewUDFRegistry :: "(string \<Rightarrow> string) \<Rightarrow> (string \<Rightarrow> string) \<Rightarrow> (sql_value \<Rightarrow> string) \<Rightarrow> Catalog \<Rightarrow> Catalog" where
  "NewUDFRegistry up low fmtv c =
    fold (\<lambda>(name, ins, out, f) c. snd (RegisterScalarUDF name ins out f builtin_type c)) (builtins up low fmtv) c"

text \<open>In a catalog without functions every built-in function can be called under its name.\<close>

lemma register_builtin:
  "cat_udfs (snd (RegisterScalarUDF name ins out f builtin_type c)) =
     (if cat_udfs c name = None
      then (cat_udfs c)(name \<mapsto> \<lparr>udf_Name = name, udf_InputTypes = ins, udf_OutputType = out, udf_Function = f, udf_type = builtin_type\<rparr>) else cat_udfs c)"
  by (simp add: RegisterScalarUDF_def register_checked_def validateUDFFunction_def builtin_type_def RegisterUDF_def)

lemma register_list:
  "distinct (map fst bs) \<Longrightarrow> (name, ins, out, f) \<in> set bs \<Longrightarrow> cat_udfs c name = None \<Longrightarrow>
   cat_udfs (fold (\<lambda>(name, ins, out, f) c. snd (RegisterScalarUDF name ins out f builtin_type c)) bs c) name =
     Some \<lparr>udf_Name = name, udf_InputTypes = ins, udf_OutputType = out, udf_Function = f, udf_type = builtin_type\<rparr>"
proof (induction bs rule: rev_induct)
  case (snoc b bs)
  obtain n i out' g where b: "b = (n, i, out', g)" by (cases b) auto
  have other: "n' \<notin> fst ` set bs \<Longrightarrow> cat_udfs (fold (\<lambda>(name, ins, out, f) c. snd (RegisterScalarUDF name ins out f builtin_type c)) bs c) n' = cat_udfs c n'" for n'
    by (induction bs rule: rev_induct) (auto simp: register_builtin)
  show ?case
  proof (cases "name = n")
    case True
    then have "(name, ins, out, f) = b" using snoc.prems(1,2) b by (auto simp: rev_image_eqI)
    then show ?thesis using snoc.prems True b other [of n] by (simp add: register_builtin)
  next
    case False
    then show ?thesis using snoc b by (auto simp: register_builtin)
  qed
qed simp

theorem builtins_registered:
  assumes "cat_udfs c name = None" "(name, ins, out, f) \<in> set (builtins up low fmtv)"
  shows "cat_udfs (NewUDFRegistry up low fmtv c) name =
    Some \<lparr>udf_Name = name, udf_InputTypes = ins, udf_OutputType = out, udf_Function = f, udf_type = builtin_type\<rparr>"
  unfolding NewUDFRegistry_def by (rule register_list [OF _ assms(2,1)]) (simp add: builtins_def)

text \<open>A substring of a negative length panics, rounding moves negative numbers up, the absolute value of the least integer is
  negative, and coalescing fails on the argument it is meant to skip.\<close>

lemma substring_negative_length: "udf_substring [VStr ''abc'', VInt 2, VInt (- 1)] = CallPanic"
  by (simp add: udf_substring_def substring_def)

lemma round_negative: "udf_round [VFloat (- 6 / 5)] = ok (VFloat 0)"
  by (simp add: udf_round_def to_int_def ceiling_eq_iff)

lemma abs_of_minimum: "udf_abs [VInt 0x8000000000000000] = ok (VInt 0x8000000000000000)"
proof -
  have min: "(- 9223372036854775808 :: i64) = 9223372036854775808" by (rule word_uint_eqI) simp
  show ?thesis by (simp add: udf_abs_def) (simp only: min)
qed

lemma coalesce_nil_panics: "cat_udfs c ''coalesce'' = Some u \<Longrightarrow> ty_IsVariadic (udf_type u) \<Longrightarrow> CallUDF ''coalesce'' [VNil, v] c = UdfPanic"
  by (simp add: CallUDF_def GetUDF_def reflect_call_def Let_def)

text \<open>A function of one argument is accepted for any number of declared inputs, and calling it with more panics.\<close>

lemma single_argument_panics:
  assumes "GetUDF name c = Inr u" "\<not> ty_IsVariadic (udf_type u)" "ty_NumIn (udf_type u) = 1" "length args \<noteq> 1"
  shows "CallUDF name args c = UdfPanic"
  using assms by (simp add: CallUDF_def reflect_call_def Let_def)

section \<open>Median\<close>

text \<open>The exchange sort: one pass puts the least of a suffix in front, swapping with every smaller element on the way.\<close>

fun exchange_pass :: "real \<Rightarrow> real list \<Rightarrow> real \<times> real list" where
  "exchange_pass x [] = (x, [])"
| "exchange_pass x (y # ys) = (if x > y then (let (m, zs) = exchange_pass y ys in (m, x # zs)) else (let (m, zs) = exchange_pass x ys in (m, y # zs)))"

lemma exchange_pass_props: "exchange_pass x ys = (m, zs) \<Longrightarrow> length zs = length ys \<and> add_mset m (mset zs) = add_mset x (mset ys) \<and> (\<forall>z \<in> set zs. m \<le> z) \<and> m \<le> x"
proof (induction ys arbitrary: x m zs)
  case (Cons y ys)
  define a where "a = max x y"
  define b where "b = min x y"
  obtain m' zs' where r: "exchange_pass b ys = (m', zs')" by fastforce
  then have "m = m'" "zs = a # zs'" using Cons.prems by (auto simp: a_def b_def max_def min_def split: if_splits)
  moreover have "add_mset a (add_mset b M) = add_mset x (add_mset y M)" for M by (auto simp: a_def b_def max_def min_def add_mset_commute)
  moreover have "b \<le> x" "b \<le> a" by (simp_all add: a_def b_def)
  ultimately show ?case using Cons.IH [OF r] by (metis add_mset_commute length_Cons list.set_intros(1) mset.simps(2) order.trans set_ConsD)
qed simp

function exchange_sort :: "real list \<Rightarrow> real list" where
  "exchange_sort [] = []"
| "exchange_sort (x # xs) = fst (exchange_pass x xs) # exchange_sort (snd (exchange_pass x xs))"
  by pat_completeness auto
termination by (relation "measure length") (use exchange_pass_props in \<open>auto simp: less_Suc_eq_le split: prod.splits\<close>, metis eq_refl exchange_pass_props prod.collapse)

lemma exchange_sort_sorted: "mset (exchange_sort xs) = mset xs \<and> sorted (exchange_sort xs)"
proof (induction xs rule: exchange_sort.induct)
  case (2 x xs)
  obtain m zs where p: "exchange_pass x xs = (m, zs)" by fastforce
  note props = exchange_pass_props [OF p]
  have "set (exchange_sort zs) = set zs" using 2 p by (metis set_mset_mset snd_conv)
  then show ?case using 2 p props by simp
qed simp

definition median_Compute :: "real list \<Rightarrow> real" where
  "median_Compute values =
    (if values = [] then 0
     else (let xs = exchange_sort values; n = length xs
           in if n mod 2 = 0 then (xs ! (n div 2 - 1) + xs ! (n div 2)) / 2 else xs ! (n div 2)))"

definition Accumulate :: "real \<Rightarrow> real list \<Rightarrow> real list" where
  "Accumulate v values = values @ [v]"

text \<open>The result is the median of the accumulated values.\<close>

theorem median_exact:
  "median_Compute (fold Accumulate vs []) =
    (if vs = [] then 0 else if even (length vs) then (sort vs ! (length vs div 2 - 1) + sort vs ! (length vs div 2)) / 2 else sort vs ! (length vs div 2))"
proof -
  have "fold Accumulate vs xs = xs @ vs" for xs by (induction vs arbitrary: xs) (simp_all add: Accumulate_def)
  moreover have "exchange_sort vs = sort vs" using exchange_sort_sorted [of vs] by (metis properties_for_sort)
  ultimately show ?thesis by (simp add: median_Compute_def Let_def even_iff_mod_2_eq_zero)
qed

section \<open>Moving averages\<close>

record MovingAverageUDF =
  mav_windowSize :: int
  mav_values :: "real list"

definition mav_Process :: "real \<Rightarrow> MovingAverageUDF \<Rightarrow> real option \<times> MovingAverageUDF" where
  "mav_Process v m =
    (let vs = mav_values m @ [v]; vs' = (if int (length vs) > mav_windowSize m then tl vs else vs)
     in (if vs' = [] then None else Some (sum_list vs' / real (length vs')), m\<lparr>mav_values := vs'\<rparr>))"

text \<open>With a positive window the average is that of the last values; without one there is no value to average.\<close>

lemma mav_values_last:
  "0 < mav_windowSize m \<Longrightarrow> mav_values m = [] \<Longrightarrow>
   mav_values (fold (\<lambda>v m. snd (mav_Process v m)) vs m) = drop (length vs - nat (mav_windowSize m)) vs \<and>
   mav_windowSize (fold (\<lambda>v m. snd (mav_Process v m)) vs m) = mav_windowSize m"
proof (induction vs rule: rev_induct)
  case (snoc v vs)
  then have IH: "mav_values (fold (\<lambda>v m. snd (mav_Process v m)) vs m) = drop (length vs - nat (mav_windowSize m)) vs"
    "mav_windowSize (fold (\<lambda>v m. snd (mav_Process v m)) vs m) = mav_windowSize m" by auto
  show ?case
  proof (cases "nat (mav_windowSize m) \<le> length vs")
    case True
    have "Suc (length vs) - nat (mav_windowSize m) = Suc (length vs - nat (mav_windowSize m))" using True by simp
    moreover have ne: "drop (length vs - nat (mav_windowSize m)) vs \<noteq> []" using True snoc.prems by auto
    moreover from ne have "tl (drop (length vs - nat (mav_windowSize m)) vs @ [v]) = drop (Suc (length vs - nat (mav_windowSize m))) vs @ [v]"
      by (simp add: tl_append2 drop_Suc tl_drop)
    moreover have "mav_windowSize m < 1 + int (length (drop (length vs - nat (mav_windowSize m)) vs))" using True by simp
    ultimately show ?thesis using IH True snoc.prems unfolding mav_Process_def Let_def by simp
  next
    case False
    then have "\<not> mav_windowSize m < 1 + int (length vs)" by linarith
    then show ?thesis using False IH snoc.prems by (simp add: mav_Process_def Let_def)
  qed
qed simp

theorem moving_average_exact:
  assumes "0 < mav_windowSize m" "mav_values m = []"
  shows "let last_values = drop (Suc (length vs) - nat (mav_windowSize m)) (vs @ [v])
    in fst (mav_Process v (fold (\<lambda>v m. snd (mav_Process v m)) vs m)) = Some (sum_list last_values / real (length last_values))"
proof -
  let ?m = "fold (\<lambda>v m. snd (mav_Process v m)) vs m"
  have "mav_values (snd (mav_Process v ?m)) = drop (Suc (length vs) - nat (mav_windowSize m)) (vs @ [v])"
    using mav_values_last [OF assms, of "vs @ [v]"] by simp
  moreover have "drop (Suc (length vs) - nat (mav_windowSize m)) (vs @ [v]) \<noteq> []" using assms(1) by auto
  moreover have "fst (mav_Process v ?m) = (if mav_values (snd (mav_Process v ?m)) = [] then None
      else Some (sum_list (mav_values (snd (mav_Process v ?m))) / real (length (mav_values (snd (mav_Process v ?m))))))"
    by (simp add: mav_Process_def Let_def)
  ultimately show ?thesis by simp
qed

lemma no_window_no_average: "mav_windowSize m \<le> 0 \<Longrightarrow> mav_values m = [] \<Longrightarrow> fst (mav_Process v m) = None"
  by (simp add: mav_Process_def)

end
