(* ===== verification/Spec2Isabelle.thy ===== *)
theory Spec2Isabelle
  imports Watermarks Windows Circuit_Breakers Retries Dual_Stream Interval_Join Window_Join Temporal_Join
    Memory_State Dead_Letters Side_Outputs Operators Engine Error_Handling Checkpoints CEP_Sequences Config_Reload Config_Adapter
    Schema_Properties KPI_Analytics ML_Inference ML_Features ML_Online Rocks_Locks SQL_Plans SQL_Functions
begin

text \<open>
  \<^bold>\<open>Gress\<close>, a stream processing engine in Go. Sources put events on a channel; the engine runs each event through a
  chain of operators and writes the results to sinks. Operators filter and transform, keep keyed state, assign
  events to windows, or join two streams; watermarks say how far event time has advanced; failures are classified,
  retried, shielded by circuit breakers, and kept in dead letter queues and side outputs; state is kept in backends
  and saved in checkpoints; a separate engine detects patterns over events.

  \<^bold>\<open>Theories and sources\<close> (paths under \<open>src/pkg\<close>)

  \<^item> \<open>Gress_Prelude\<close>: time and durations (an instant is the number of nanoseconds since the zero time, \<open>Time.Sub\<close>
    saturates, \<open>int64\<close> negation overflows), Go maps and the order of range loops, channels, decimal printing,
    reachability and the locale \<open>stepping\<close> for invariants of step relations.
  \<^item> \<open>Stream_Types\<close>: events, watermarks and windows of \<open>stream/types.go\<close>.
  \<^item> \<open>Watermarks\<close>: \<open>watermark/manager.go\<close>. Marks trail the greatest event time, a generation round takes the least
    mark whatever the map order, and marks do not decrease in runs without late events; an idle partition's mark
    can go back after an out-of-order event.
  \<^item> \<open>Windows\<close>: \<open>window/window.go\<close>. Tumbling and sliding assigners against the grid of windows, triggers, and the
    window operator, whose windows hold exactly the events they cover. The loop of the sliding assigner is bounded
    by 1000 in the source; the lemma on the number of windows says when that is enough.
  \<^item> \<open>Circuit_Breakers\<close>, \<open>Error_Classes\<close>, \<open>Retries\<close>, \<open>Dead_Letters\<close>, \<open>Side_Outputs\<close>: the package \<open>errors\<close>. The breaker is a
    step relation over interleaved requests with an invariant on its counters, which are machine words. Retry
    loops may be unbounded and are partial functions into \<open>option\<close>; \<open>execute_outcome\<close> says exactly when they return
    and with what. Backoff is computed in exact rationals.
  \<^item> \<open>Join_State\<close>, \<open>Join_Operator\<close>, \<open>Dual_Stream\<close>, \<open>Interval_Join\<close>, \<open>Window_Join\<close>, \<open>Temporal_Join\<close>: the package \<open>join\<close>. The
    rows of every join are related to the set of matching pairs: sequentially each pair is emitted exactly once,
    under the interleavings of the two goroutines at least once and at most twice.
  \<^item> \<open>Memory_State\<close>: \<open>state/memory.go\<close>; reads return the last write until it expires, snapshots restore.
  \<^item> \<open>Operators\<close>, \<open>Engine\<close>: \<open>stream/operators.go\<close>, \<open>stream/engine.go\<close> and the instrumented operator. Events are shared by
    pointer and changed in place, so they live in a store; a value semantics without a store is the
    specification, and the locale \<open>event_operator\<close> states the refinement that the pipeline theorem composes. The
    life cycle of the goroutines is a step relation.
  \<^item> \<open>Error_Handling\<close>: \<open>stream/error_handler.go\<close>, \<open>stream/circuit_breaker_sink.go\<close>; they combine the retry loop, the
    breaker, the dead letter queue and the side outputs.
  \<^item> \<open>Checkpoints\<close>: \<open>checkpoint/manager.go\<close> with a directory of files; retention, the round trip of provider state,
    incremental checkpoints, barrier alignment.
  \<^item> \<open>CEP_Patterns\<close>, \<open>CEP_Matcher\<close>, \<open>CEP_Engine\<close>, \<open>CEP_Properties\<close>, \<open>CEP_Sequences\<close>: the package \<open>cep\<close>. An engine run
    is, pattern by pattern, a run of the pattern; the locales \<open>pattern_invariant\<close> and \<open>match_invariant\<close> carry
    invariants of partial matches over runs and are interpreted for soundness of matches, for patterns that
    cannot complete and for the exact matches of plain sequences.
  \<^item> \<open>Config_Types\<close>, \<open>Config_Validation\<close>, \<open>Config_Loading\<close>, \<open>Config_Reload\<close>, \<open>Config_Adapter\<close>: the package \<open>config\<close> and its
    use in \<open>stream/config_adapter.go\<close> and \<open>stream/error_config.go\<close>. A validated configuration gives settings the
    components above work with; hot reload is a step relation whose reloads overlap.
  \<^item> \<open>Schema_Registry\<close>, \<open>Schema_Codecs\<close>, \<open>Schema_Properties\<close>: the package \<open>schema\<close>. The interface \<open>RegistryClient\<close> is a
    record of operations; the locale \<open>registry_contract\<close> says what its users rely on and is interpreted for the caching
    client, \<open>live_registry\<close> adds that lookups succeed. The cache is bounded and transparent, and a value survives
    encoding and decoding whatever the state of the caches.
  \<^item> \<open>IoT_Sensors\<close>: \<open>iot/sensor.go\<close> over exact reals; aggregates against their definition on the readings of the
    current window, alerts, and the least-squares property of the regression.

  \<^bold>\<open>Conventions.\<close> Structs are records, Go maps are partial maps (association lists where they are iterated), a range loop
  over a map runs over any list with \<open>range_order\<close>, and theorems hold for every such order. Errors are sums, a panic
  is a value of its own or \<open>None\<close>. \<open>float64\<close> values are exact rationals or reals. Counters that the source declares with a
  width and that can wrap are words; lengths and indices are naturals. Functions of the user, \<open>encoding/json\<close>, time
  layouts, clocks, random numbers and the state of external systems are parameters; where a theorem needs
  something of them it is a named hypothesis, and its witness instantiates them.

  \<^bold>\<open>Defects shown.\<close> Several theorems state behaviour the source does not intend: \<open>stop_never_returns\<close>,
  \<open>backends_restored_from_base64\<close>, \<open>negation_never_completes\<close>, and the lemmas \<open>dual_join_duplicates\<close>,
  \<open>idle_rule_regresses\<close>, \<open>premature_outer_row\<close>, \<open>out_of_order_update_wins\<close>, \<open>errno_classified_as_network_error\<close>,
  \<open>stale_success_exceeds_probe_limit\<close>, \<open>jitter_exceeds_cap\<close>, \<open>subsecond_windows_collide\<close>,
  \<open>deferred_delete_loses_put\<close>, \<open>dlq_statistics_drift\<close>, \<open>emit_unregister_race\<close>, \<open>retry_success_labelled_fatal\<close>,
  \<open>builders_share_predicates\<close>, \<open>empty_pattern_panics\<close>, \<open>version_checks_disagree\<close>, \<open>sources_not_critical\<close>,
  \<open>stale_reload_wins\<close>, \<open>protobuf_loses_data\<close>, \<open>registration_not_seen\<close>, \<open>only_first_alert_emitted\<close>,
  \<open>health_score_exceeds_100\<close>.

  \<^bold>\<open>Not modelled.\<close> Logging, metrics and tracing only call their libraries. Sources and sinks for Kafka, HTTP, WebSocket
  and TimescaleDB, the RocksDB backend and the Kubernetes controllers are wrappers around external systems. The SQL
  layer rests on a third-party parser. The machine learning, analytics and fraud packages are not modelled.
\<close>

end
